(* ===== verification/Go_Prelude.thy ===== *)
theory Go_Prelude
  imports Main "HOL-Library.Word"
begin

text \<open>
  The part of the Go language that every component of CraftStack shares: 64-bit
  integers with wrap-around, division that truncates towards zero, durations in
  nanoseconds, and Go maps.

  A Go \<^verbatim>\<open>map[K]V\<close> is an association list. Go leaves the iteration order of a map
  unspecified; the order of the list stands for whatever order the runtime picks, so a
  theorem about all lists is a theorem about all orders. The locale \<open>go_map\<close> states
  what a map promises its clients and is interpreted on the association lists.
\<close>

named_theorems go_int_simps \<open>rewriting of wrap-around and truncating arithmetic\<close>
named_theorems go_map_simps \<open>lookups after updates of a Go map\<close>

type_synonym instant = int \<comment> \<open>\<^verbatim>\<open>time.Time\<close>, nanoseconds since the epoch\<close>
type_synonym duration = int \<comment> \<open>\<^verbatim>\<open>time.Duration\<close>, an int64 count of nanoseconds\<close>
type_synonym bytes = "8 word list"

section \<open>Integers\<close>

text \<open>Go's \<^verbatim>\<open>int\<close> and \<^verbatim>\<open>int64\<close>: two's complement, 64 bits.\<close>

definition min_int64 :: int where
  "min_int64 = - (2 ^ 63)"

definition max_int64 :: int where
  "max_int64 = 2 ^ 63 - 1"

definition in_int64 :: "int \<Rightarrow> bool" where
  "in_int64 x \<longleftrightarrow> min_int64 \<le> x \<and> x \<le> max_int64"

definition wrap64 :: "int \<Rightarrow> int" where
  "wrap64 x = (x + 2 ^ 63) mod 2 ^ 64 - 2 ^ 63"

text \<open>Division and remainder round towards zero.\<close>

definition go_div :: "int \<Rightarrow> int \<Rightarrow> int" where
  "go_div a b = sgn a * sgn b * (\<bar>a\<bar> div \<bar>b\<bar>)"

definition go_mod :: "int \<Rightarrow> int \<Rightarrow> int" where
  "go_mod a b = a - b * go_div a b"

definition second_ns :: duration where
  "second_ns = 1000000000"

definition minute_ns :: duration where
  "minute_ns = 60 * second_ns"

definition hour_ns :: duration where
  "hour_ns = 60 * minute_ns"

lemmas duration_defs = second_ns_def minute_ns_def hour_ns_def

section \<open>Maps\<close>

type_synonym ('k, 'v) gomap = "('k \<times> 'v) list"

definition map_get :: "('k, 'v) gomap \<Rightarrow> 'k \<Rightarrow> 'v option" where
  "map_get m k = map_of m k"

fun map_put :: "'k \<Rightarrow> 'v \<Rightarrow> ('k, 'v) gomap \<Rightarrow> ('k, 'v) gomap" where
  "map_put k v [] = [(k, v)]"
| "map_put k v ((k', v') # m) = (if k' = k then (k, v) # m else (k', v') # map_put k v m)"

definition map_del :: "'k \<Rightarrow> ('k, 'v) gomap \<Rightarrow> ('k, 'v) gomap" where
  "map_del k m = filter (\<lambda>p. fst p \<noteq> k) m"

definition map_ok :: "('k, 'v) gomap \<Rightarrow> bool" where
  "map_ok m \<longleftrightarrow> distinct (map fst m)"

section \<open>Lists\<close>

text \<open>The last \<open>n\<close> elements: what a bounded buffer that drops the oldest keeps.\<close>

definition take_last :: "nat \<Rightarrow> 'a list \<Rightarrow> 'a list" where
  "take_last n xs = drop (length xs - n) xs"

lemma length_take_last [simp]: "length (take_last n xs) = min n (length xs)"
  by (simp add: take_last_def)

lemma take_last_id [simp]: "length xs \<le> n \<Longrightarrow> take_last n xs = xs"
  by (simp add: take_last_def)

lemma take_last_Nil [simp]: "take_last n [] = []"
  by (simp add: take_last_def)

lemma take_last_append_take_last:
  "take_last n (take_last n xs @ ys) = take_last n (xs @ ys)"
proof (cases "length xs \<le> n")
  case True
  then show ?thesis by simp
next
  case False
  then have l: "length (take_last n xs) = n" by simp
  show ?thesis
  proof (cases "length ys \<le> n")
    case True
    then have "take_last n (take_last n xs @ ys) = drop (length ys) (drop (length xs - n) xs) @ ys"
      using False by (simp add: take_last_def)
    also have "\<dots> = take_last n (xs @ ys)"
      using False True by (simp add: take_last_def add.commute)
    finally show ?thesis .
  next
    case False
    then show ?thesis by (simp add: take_last_def)
  qed
qed

lemma take_last_snoc: "0 < n \<Longrightarrow> take_last n (xs @ [x]) = take_last (n - 1) xs @ [x]"
  by (cases n) (auto simp: take_last_def Suc_diff_le)

section \<open>Lemmas on integers\<close>

lemma wrap64_id [go_int_simps]: "in_int64 x \<Longrightarrow> wrap64 x = x"
  by (simp add: wrap64_def in_int64_def min_int64_def max_int64_def)

lemma wrap64_in_int64 [simp]: "in_int64 (wrap64 x)"
proof -
  define r where "r = (x + 2 ^ 63) mod (2 ^ 64 :: int)"
  have "0 \<le> r" "r < 2 ^ 64"
    by (simp_all add: r_def)
  then show ?thesis
    unfolding wrap64_def in_int64_def min_int64_def max_int64_def r_def [symmetric] by simp
qed

lemma wrap64_cong_mod: "wrap64 x mod 2 ^ 64 = x mod 2 ^ 64"
proof -
  have "wrap64 x mod 2 ^ 64 = ((x + 2 ^ 63) mod 2 ^ 64 - 2 ^ 63) mod (2 ^ 64 :: int)"
    by (simp only: wrap64_def)
  also have "\<dots> = (x + 2 ^ 63 - 2 ^ 63) mod 2 ^ 64"
    by (rule mod_diff_left_eq)
  finally show ?thesis by simp
qed

lemma go_div_nonneg [go_int_simps]: "0 \<le> a \<Longrightarrow> 0 < b \<Longrightarrow> go_div a b = a div b"
  by (cases "a = 0") (simp_all add: go_div_def)

lemma go_mod_nonneg [go_int_simps]: "0 \<le> a \<Longrightarrow> 0 < b \<Longrightarrow> go_mod a b = a mod b"
  by (simp add: go_mod_def go_div_nonneg minus_mult_div_eq_mod)

section \<open>The interface of a Go map\<close>

locale go_map =
  fixes emptym :: 'm
    and putm :: "'k \<Rightarrow> 'v \<Rightarrow> 'm \<Rightarrow> 'm"
    and delm :: "'k \<Rightarrow> 'm \<Rightarrow> 'm"
    and getm :: "'m \<Rightarrow> 'k \<Rightarrow> 'v option"
    and okm :: "'m \<Rightarrow> bool"
  assumes get_empty: "getm emptym k = None"
    and get_put: "okm m \<Longrightarrow> getm (putm k v m) k' = (if k' = k then Some v else getm m k')"
    and get_del: "okm m \<Longrightarrow> getm (delm k m) k' = (if k' = k then None else getm m k')"
    and ok_empty: "okm emptym"
    and ok_put: "okm m \<Longrightarrow> okm (putm k v m)"
    and ok_del: "okm m \<Longrightarrow> okm (delm k m)"
begin

lemma put_put_same:
  assumes "okm m"
  shows "getm (putm k v (putm k w m)) k' = getm (putm k v m) k'"
  using assms by (simp add: get_put ok_put)

lemma del_put_same:
  assumes "okm m"
  shows "getm (delm k (putm k v m)) k' = getm (delm k m) k'"
  using assms by (simp add: get_put get_del ok_put)

lemma fold_put_get:
  assumes "okm m"
  shows "okm (fold (\<lambda>(k, v). putm k v) ps m) \<and>
    getm (fold (\<lambda>(k, v). putm k v) ps m) k =
      (case map_of (rev ps) k of None \<Rightarrow> getm m k | Some v \<Rightarrow> Some v)"
  using assms
proof (induction ps arbitrary: m)
  case Nil
  then show ?case by simp
next
  case (Cons p ps)
  obtain a b where p: "p = (a, b)" by (cases p)
  have ok: "okm (putm a b m)" using Cons.prems by (rule ok_put)
  show ?case
    using Cons.IH [OF ok] Cons.prems
    by (simp add: p get_put map_add_def split: option.splits)
qed

end

lemma map_of_map_put: "map_of (map_put k v m) = (map_of m)(k \<mapsto> v)"
  by (induction m) (auto simp: fun_eq_iff)

lemma map_of_map_del: "map_of (map_del k m) = (map_of m)(k := None)"
  by (induction m) (auto simp: map_del_def fun_eq_iff)

lemma keys_map_put: "fst ` set (map_put k v m) = insert k (fst ` set m)"
  by (induction k v m rule: map_put.induct) (simp_all add: insert_commute)

lemma keys_map_del: "fst ` set (map_del k m) = fst ` set m - {k}"
  by (auto simp: map_del_def)

lemma map_ok_put [simp]: "map_ok m \<Longrightarrow> map_ok (map_put k v m)"
proof (induction m)
  case Nil
  then show ?case by (simp add: map_ok_def)
next
  case (Cons p m)
  then show ?case
    by (cases p) (auto simp: map_ok_def keys_map_put)
qed

lemma map_ok_del [simp]: "map_ok m \<Longrightarrow> map_ok (map_del k m)"
  by (simp add: map_ok_def map_del_def distinct_map_filter)

lemma map_ok_Nil [simp]: "map_ok []"
  by (simp add: map_ok_def)

interpretation gm: go_map "[]" map_put map_del map_get map_ok
proof unfold_locales
  fix m :: "('a, 'b) gomap" and k k' v
  assume "map_ok m"
  then show "map_get (map_put k v m) k' = (if k' = k then Some v else map_get m k')"
    and "map_get (map_del k m) k' = (if k' = k then None else map_get m k')"
    by (simp_all add: map_get_def map_of_map_put map_of_map_del)
qed (simp_all add: map_get_def)

lemma map_get_put [go_map_simps]:
  "map_get (map_put k v m) k' = (if k' = k then Some v else map_get m k')"
  by (simp add: map_get_def map_of_map_put)

lemma map_get_del [go_map_simps]:
  "map_get (map_del k m) k' = (if k' = k then None else map_get m k')"
  by (simp add: map_get_def map_of_map_del)

lemma map_get_Nil [simp]: "map_get [] k = None"
  by (simp add: map_get_def)

lemma map_get_SomeD: "map_get m k = Some v \<Longrightarrow> (k, v) \<in> set m"
  by (simp add: map_get_def map_of_SomeD)

lemma map_get_in_iff: "map_ok m \<Longrightarrow> (k, v) \<in> set m \<longleftrightarrow> map_get m k = Some v"
  by (auto simp: map_ok_def map_get_def)

lemma map_get_None_iff: "map_get m k = None \<longleftrightarrow> k \<notin> fst ` set m"
  by (simp add: map_get_def map_of_eq_None_iff)

end
