(* ===== verification/Go_Strings.thy ===== *)
theory Go_Strings
  imports Go_Prelude
begin

text \<open>
  The functions of Go's packages \<^verbatim>\<open>strings\<close>, \<^verbatim>\<open>strconv\<close> and \<^verbatim>\<open>fmt\<close> that CraftStack
  calls, over byte strings (\<^typ>\<open>string\<close>, a list of 8-bit characters, as Go's
  \<^verbatim>\<open>string\<close> is a sequence of bytes). White space and case conversion are those of ASCII:
  the model is exact on ASCII input. Separators of \<^verbatim>\<open>strings.Split\<close> and
  \<^verbatim>\<open>strings.SplitN\<close> are single characters, as in every call of the program.
\<close>

section \<open>Prefixes, substrings, splitting and joining\<close>

definition has_prefix :: "string \<Rightarrow> string \<Rightarrow> bool" where
  "has_prefix s p \<longleftrightarrow> take (length p) s = p"

definition has_suffix :: "string \<Rightarrow> string \<Rightarrow> bool" where
  "has_suffix s p \<longleftrightarrow> has_prefix (rev s) (rev p)"

definition trim_prefix :: "string \<Rightarrow> string \<Rightarrow> string" where
  "trim_prefix s p = (if has_prefix s p then drop (length p) s else s)"

definition trim_suffix :: "string \<Rightarrow> string \<Rightarrow> string" where
  "trim_suffix s p = (if has_suffix s p then take (length s - length p) s else s)"

fun str_contains :: "string \<Rightarrow> string \<Rightarrow> bool" where
  "str_contains [] p = (p = [])"
| "str_contains (c # cs) p = (has_prefix (c # cs) p \<or> str_contains cs p)"

fun split_on :: "char \<Rightarrow> string \<Rightarrow> string list" where
  "split_on c [] = [[]]"
| "split_on c (x # xs) =
     (if x = c then [] # split_on c xs
      else (case split_on c xs of [] \<Rightarrow> [[x]] | y # ys \<Rightarrow> (x # y) # ys))"

text \<open>\<^verbatim>\<open>strings.SplitN(s, c, n)\<close> with \<open>n > 0\<close>: at most \<open>n\<close> pieces, the last unsplit.\<close>

fun splitn :: "char \<Rightarrow> nat \<Rightarrow> string \<Rightarrow> string list" where
  "splitn c n [] = [[]]"
| "splitn c n (x # xs) =
     (if n \<le> 1 then [x # xs]
      else if x = c then [] # splitn c (n - 1) xs
      else (case splitn c n xs of [] \<Rightarrow> [[x]] | y # ys \<Rightarrow> (x # y) # ys))"

fun str_join :: "string \<Rightarrow> string list \<Rightarrow> string" where
  "str_join sep [] = []"
| "str_join sep [x] = x"
| "str_join sep (x # y # ys) = x @ sep @ str_join sep (y # ys)"

text \<open>\<^verbatim>\<open>strings.LastIndex(s, c)\<close> for a single character: \<open>None\<close> is Go's \<open>-1\<close>.\<close>

fun last_index :: "char \<Rightarrow> string \<Rightarrow> nat option" where
  "last_index c [] = None"
| "last_index c (x # xs) =
     (case last_index c xs of Some i \<Rightarrow> Some (Suc i) | None \<Rightarrow> if x = c then Some 0 else None)"

text \<open>\<^verbatim>\<open>strings.ReplaceAll(s, c, r)\<close> for a one-character pattern.\<close>

fun replace_char :: "char \<Rightarrow> string \<Rightarrow> string \<Rightarrow> string" where
  "replace_char c r [] = []"
| "replace_char c r (x # xs) = (if x = c then r @ replace_char c r xs else x # replace_char c r xs)"

section \<open>White space and case\<close>

definition is_space :: "char \<Rightarrow> bool" where
  "is_space c \<longleftrightarrow> (let k = (of_char c :: nat) in k = 32 \<or> (9 \<le> k \<and> k \<le> 13))"

definition trim_left :: "string \<Rightarrow> string" where
  "trim_left s = dropWhile is_space s"

definition trim_space :: "string \<Rightarrow> string" where
  "trim_space s = rev (trim_left (rev (trim_left s)))"

fun fields_acc :: "string \<Rightarrow> string \<Rightarrow> string list" where
  "fields_acc acc [] = (if acc = [] then [] else [rev acc])"
| "fields_acc acc (c # cs) =
     (if is_space c
      then (if acc = [] then fields_acc [] cs else rev acc # fields_acc [] cs)
      else fields_acc (c # acc) cs)"

definition str_fields :: "string \<Rightarrow> string list" where
  "str_fields s = fields_acc [] s"

definition lower_char :: "char \<Rightarrow> char" where
  "lower_char c = (let k = (of_char c :: nat) in if 65 \<le> k \<and> k \<le> 90 then char_of (k + 32) else c)"

definition upper_char :: "char \<Rightarrow> char" where
  "upper_char c = (let k = (of_char c :: nat) in if 97 \<le> k \<and> k \<le> 122 then char_of (k - 32) else c)"

definition to_lower :: "string \<Rightarrow> string" where
  "to_lower = map lower_char"

definition to_upper :: "string \<Rightarrow> string" where
  "to_upper = map upper_char"

section \<open>Decimal numbers\<close>

definition digit_char :: "nat \<Rightarrow> char" where
  "digit_char d = char_of (48 + d)"

definition digit_val :: "char \<Rightarrow> nat option" where
  "digit_val c = (let k = (of_char c :: nat) in if 48 \<le> k \<and> k \<le> 57 then Some (k - 48) else None)"

fun nat_digits :: "nat \<Rightarrow> string" where
  "nat_digits n = (if n < 10 then [digit_char n] else nat_digits (n div 10) @ [digit_char (n mod 10)])"

declare nat_digits.simps [simp del]

text \<open>\<^verbatim>\<open>strconv.Itoa\<close> and the verb \<^verbatim>\<open>%d\<close>.\<close>

definition itoa :: "int \<Rightarrow> string" where
  "itoa i = (if i < 0 then CHR ''-'' # nat_digits (nat (- i)) else nat_digits (nat i))"

fun parse_digits :: "nat \<Rightarrow> string \<Rightarrow> nat option" where
  "parse_digits acc [] = Some acc"
| "parse_digits acc (c # cs) =
     (case digit_val c of None \<Rightarrow> None | Some d \<Rightarrow> parse_digits (10 * acc + d) cs)"

definition parse_uint :: "string \<Rightarrow> nat option" where
  "parse_uint s = (if s = [] then None else parse_digits 0 s)"

definition int64_opt :: "int \<Rightarrow> int option" where
  "int64_opt i = (if in_int64 i then Some i else None)"

text \<open>\<^verbatim>\<open>strconv.Atoi\<close>: an optional sign and at least one digit, within int64.\<close>

definition atoi :: "string \<Rightarrow> int option" where
  "atoi s =
     (case s of
        [] \<Rightarrow> None
      | c # cs \<Rightarrow>
          if c = CHR ''-'' then Option.bind (parse_uint cs) (\<lambda>n. int64_opt (- int n))
          else if c = CHR ''+'' then Option.bind (parse_uint cs) (\<lambda>n. int64_opt (int n))
          else Option.bind (parse_uint s) (\<lambda>n. int64_opt (int n)))"

text \<open>
  \<^verbatim>\<open>fmt.Sscanf(s, "%d", &v)\<close>: leading spaces, an optional sign, then the longest run of
  digits; what follows is not looked at. \<open>None\<close> is a returned error, which leaves the
  variable as it was.
\<close>

definition scan_uint :: "string \<Rightarrow> int option" where
  "scan_uint s = map_option int (parse_uint (takeWhile (\<lambda>c. digit_val c \<noteq> None) s))"

definition sscanf_d :: "string \<Rightarrow> int option" where
  "sscanf_d s =
     (case trim_left s of
        [] \<Rightarrow> None
      | c # cs \<Rightarrow>
          if c = CHR ''-'' then Option.bind (scan_uint cs) (\<lambda>n. int64_opt (- n))
          else if c = CHR ''+'' then Option.bind (scan_uint cs) int64_opt
          else Option.bind (scan_uint (c # cs)) int64_opt)"

section \<open>Lemmas: prefixes and splitting\<close>

lemma has_prefix_iff: "has_prefix s p \<longleftrightarrow> (\<exists>t. s = p @ t)"
proof
  assume "has_prefix s p"
  then have "s = p @ drop (length p) s"
    by (metis append_take_drop_id has_prefix_def)
  then show "\<exists>t. s = p @ t" ..
qed (auto simp: has_prefix_def)

lemma has_prefix_append [simp]: "has_prefix (p @ t) p"
  by (simp add: has_prefix_def)

lemma has_suffix_iff: "has_suffix s p \<longleftrightarrow> (\<exists>t. s = t @ p)"
proof -
  have "(\<exists>t. rev s = rev p @ t) \<longleftrightarrow> (\<exists>t. s = t @ p)"
    by (metis rev_append rev_rev_ident)
  then show ?thesis by (simp add: has_suffix_def has_prefix_iff)
qed

lemma has_suffix_append [simp]: "has_suffix (t @ p) p"
  by (auto simp: has_suffix_iff)

lemma str_contains_iff: "str_contains s p \<longleftrightarrow> (\<exists>a b. s = a @ p @ b)"
proof (induction s)
  case Nil
  then show ?case by auto
next
  case (Cons c cs)
  have "(\<exists>a b. c # cs = a @ p @ b) \<longleftrightarrow> (\<exists>b. c # cs = p @ b) \<or> (\<exists>a b. cs = a @ p @ b)"
    by (metis append_Cons append_Nil append_eq_Cons_conv)
  with Cons.IH show ?case by (simp add: has_prefix_iff)
qed

lemma str_contains_char: "str_contains s [c] \<longleftrightarrow> c \<in> set s"
  by (auto simp: str_contains_iff in_set_conv_decomp)

lemma split_on_ne [simp]: "split_on c s \<noteq> []"
  by (induction s) (auto split: list.splits)

lemma split_on_nosep: "c \<notin> set s \<Longrightarrow> split_on c s = [s]"
  by (induction s) auto

lemma split_on_append_sep: "c \<notin> set a \<Longrightarrow> split_on c (a @ c # b) = a # split_on c b"
  by (induction a) auto

lemma split_on_no_sep_in: "p \<in> set (split_on c s) \<Longrightarrow> c \<notin> set p"
  by (induction s arbitrary: p) (auto split: list.splits if_splits)

lemma str_join_split_on: "str_join [c] (split_on c s) = s"
proof (induction s)
  case Nil
  then show ?case by simp
next
  case (Cons x xs)
  obtain y ys where e: "split_on c xs = y # ys" by (cases "split_on c xs") auto
  from Cons.IH e show ?case by (cases ys) auto
qed

lemma split_on_str_join:
  "ps \<noteq> [] \<Longrightarrow> \<forall>p \<in> set ps. c \<notin> set p \<Longrightarrow> split_on c (str_join [c] ps) = ps"
proof (induction ps)
  case Nil
  then show ?case by simp
next
  case (Cons p ps)
  show ?case
  proof (cases ps)
    case Nil
    with Cons.prems show ?thesis by (simp add: split_on_nosep)
  next
    case (Cons q qs)
    with Cons.prems Cons.IH show ?thesis by (simp add: split_on_append_sep)
  qed
qed

lemma splitn_ne [simp]: "splitn c n s \<noteq> []"
  by (induction c n s rule: splitn.induct) (auto split: list.splits)

lemma splitn_one: "splitn c (Suc 0) s = [s]"
  by (cases s) auto

lemma splitn_two_sep: "c \<notin> set a \<Longrightarrow> splitn c 2 (a @ c # b) = [a, b]"
  by (induction a) (auto simp: splitn_one)

lemma length_splitn_two: "c \<in> set s \<Longrightarrow> \<exists>a b. splitn c 2 s = [a, b] \<and> s = a @ c # b \<and> c \<notin> set a"
  by (metis split_list_first splitn_two_sep)

section \<open>Lemmas: decimal numbers\<close>

lemma of_char_digit [simp]: "d < 10 \<Longrightarrow> (of_char (digit_char d) :: nat) = 48 + d"
  by (simp add: digit_char_def take_bit_nat_eq_self)

lemma digit_val_digit_char [simp]: "d < 10 \<Longrightarrow> digit_val (digit_char d) = Some d"
  by (simp add: digit_val_def)

lemma nat_digits_ne [simp]: "nat_digits n \<noteq> []"
  by (subst nat_digits.simps) simp

lemma parse_digits_append:
  "parse_digits acc (xs @ ys) = Option.bind (parse_digits acc xs) (\<lambda>a. parse_digits a ys)"
  by (induction xs arbitrary: acc) (auto split: option.splits)

lemma parse_digits_nat_digits:
  "parse_digits acc (nat_digits n) = Some (acc * 10 ^ length (nat_digits n) + n)"
proof (induction n arbitrary: acc rule: nat_digits.induct)
  case (1 n)
  show ?case
  proof (cases "n < 10")
    case True
    then show ?thesis by (simp add: nat_digits.simps [of n] mult.commute)
  next
    case False
    have "n mod 10 < 10" by simp
    moreover have "10 * (n div 10) + n mod 10 = n" by simp
    ultimately show ?thesis
      using 1 False by (simp add: nat_digits.simps [of n] parse_digits_append algebra_simps)
  qed
qed

lemma set_nat_digits: "c \<in> set (nat_digits n) \<Longrightarrow> \<exists>d < 10. c = digit_char d"
proof (induction n rule: nat_digits.induct)
  case (1 n)
  then show ?case
    by (cases "n < 10") (auto simp: nat_digits.simps [of n] intro: exI [of _ "n mod 10"])
qed

lemma nat_digits_chars: "c \<in> set (nat_digits n) \<Longrightarrow> 48 \<le> (of_char c :: nat) \<and> (of_char c :: nat) \<le> 57"
  using set_nat_digits by fastforce

lemma nat_digits_not_in:
  assumes "(of_char c :: nat) < 48 \<or> 57 < (of_char c :: nat)"
  shows "c \<notin> set (nat_digits n)"
  using assms nat_digits_chars by fastforce

lemma parse_uint_nat_digits [simp]: "parse_uint (nat_digits n) = Some n"
  by (simp add: parse_uint_def parse_digits_nat_digits)

lemma hd_nat_digits:
  assumes "nat_digits n = c # cs"
  shows "c \<noteq> CHR ''-'' \<and> c \<noteq> CHR ''+''"
  using nat_digits_chars [of c n] assms by auto

lemma atoi_nat_digits: "int n \<le> max_int64 \<Longrightarrow> atoi (nat_digits n) = Some (int n)"
proof -
  assume n: "int n \<le> max_int64"
  obtain c cs where e: "nat_digits n = c # cs" by (cases "nat_digits n") auto
  have "parse_uint (c # cs) = Some n" using parse_uint_nat_digits [of n] e by simp
  moreover have "in_int64 (int n)"
    using n by (simp add: in_int64_def min_int64_def)
  ultimately show ?thesis
    using hd_nat_digits [OF e] e by (simp add: atoi_def int64_opt_def)
qed

text \<open>Printing a 64-bit integer and reading it back gives the integer.\<close>

lemma atoi_itoa: "in_int64 i \<Longrightarrow> atoi (itoa i) = Some i"
proof (cases "i < 0")
  case True
  assume "in_int64 i"
  with True show ?thesis by (simp add: itoa_def atoi_def int64_opt_def)
next
  case False
  assume "in_int64 i"
  with False show ?thesis
    using atoi_nat_digits [of "nat i"] by (simp add: itoa_def in_int64_def)
qed

lemma parse_digits_bad: "c \<in> set s \<Longrightarrow> digit_val c = None \<Longrightarrow> parse_digits acc s = None"
  by (induction s arbitrary: acc) (auto split: option.splits)

lemma atoi_bad_char:
  assumes "c \<in> set (tl s)" and "digit_val c = None"
  shows "atoi s = None"
proof (cases s)
  case Nil
  then show ?thesis by (simp add: atoi_def)
next
  case (Cons x xs)
  with assms have c: "c \<in> set xs" by simp
  then have "parse_uint xs = None" "parse_uint (x # xs) = None"
    using assms(2) by (auto simp: parse_uint_def intro: parse_digits_bad split: option.splits)
  with Cons show ?thesis by (simp add: atoi_def)
qed

lemma atoi_in_int64: "atoi s = Some i \<Longrightarrow> in_int64 i"
  by (auto simp: atoi_def int64_opt_def bind_eq_Some_conv split: list.splits if_splits)

lemma itoa_nonneg: "0 \<le> i \<Longrightarrow> itoa i = nat_digits (nat i)"
  by (simp add: itoa_def)

lemma itoa_inject: "in_int64 i \<Longrightarrow> in_int64 j \<Longrightarrow> itoa i = itoa j \<Longrightarrow> i = j"
  by (metis atoi_itoa option.inject)

lemma nat_digits_inject [simp]: "nat_digits m = nat_digits n \<longleftrightarrow> m = n"
  by (metis option.inject parse_uint_nat_digits)

section \<open>Lemmas: white space\<close>

lemma trim_left_nospace: "\<forall>c \<in> set s. \<not> is_space c \<Longrightarrow> trim_left s = s"
  by (cases s) (auto simp: trim_left_def)

lemma trim_space_nospace: "\<forall>c \<in> set s. \<not> is_space c \<Longrightarrow> trim_space s = s"
  by (simp add: trim_space_def trim_left_nospace)

lemma is_space_digit [simp]: "d < 10 \<Longrightarrow> \<not> is_space (digit_char d)"
  by (simp add: is_space_def)

lemma nat_digits_nospace: "c \<in> set (nat_digits n) \<Longrightarrow> \<not> is_space c"
  using set_nat_digits by fastforce

lemma fields_acc_nospace:
  "\<forall>c \<in> set w. \<not> is_space c \<Longrightarrow> fields_acc acc (w @ s) = fields_acc (rev w @ acc) s"
  by (induction w arbitrary: acc) auto

lemma str_fields_join:
  assumes "\<forall>w \<in> set ws. w \<noteq> [] \<and> (\<forall>c \<in> set w. \<not> is_space c)"
  shows "str_fields (str_join '' '' ws) = ws"
  using assms unfolding str_fields_def
proof (induction ws rule: induct_list012)
  case 1
  then show ?case by simp
next
  case (2 w)
  then show ?case using fields_acc_nospace [of w "[]" "[]"] by simp
next
  case (3 w v ws)
  have "fields_acc [] (w @ '' '' @ str_join '' '' (v # ws)) = w # fields_acc [] (str_join '' '' (v # ws))"
    using 3(3) fields_acc_nospace [of w "[]"] by (simp add: is_space_def)
  with 3 show ?case by simp
qed

end
