(* ===== verification/Cron.thy ===== *)
theory Cron
  imports Go_Strings
begin

text \<open>
  The cron parser of the backup scheduler (\<^verbatim>\<open>internal/master/scheduler.go\<close>):
  \<^verbatim>\<open>cronMatches\<close>, which interprets a five-field expression on strings at every tick, and
  \<^verbatim>\<open>ValidateCron\<close>, which accepts or rejects one. The abstract syntax \<open>cron_schedule\<close>
  gives the meaning a five-field cron expression is supposed to have; the refinement
  theorems relate the string code to it in both directions.
\<close>

section \<open>The matcher\<close>

record cron_time =
  ct_minute :: int
  ct_hour :: int
  ct_dom :: int
  ct_month :: int
  ct_dow :: int

text \<open>\<^verbatim>\<open>cronPartMatches\<close>; its branches in the order of the source.\<close>

definition cronPartMatches :: "string \<Rightarrow> int \<Rightarrow> int \<Rightarrow> int \<Rightarrow> bool" where
  "cronPartMatches part value mn mx =
     (if part = ''*'' then True
      else if has_prefix part ''*/'' then
        (case atoi (drop 2 part) of
           None \<Rightarrow> False
         | Some step \<Rightarrow> if step \<le> 0 then False else go_mod value step = 0)
      else if str_contains part ''-'' then
        (case splitn (CHR ''-'') 2 part of
           [a, b] \<Rightarrow> (case (atoi a, atoi b) of
                       (Some lo, Some hi) \<Rightarrow> value \<ge> lo \<and> value \<le> hi
                     | _ \<Rightarrow> False)
         | _ \<Rightarrow> False)
      else
        (let plain = (case atoi part of None \<Rightarrow> False | Some n \<Rightarrow> value = n)
         in if str_contains part ''/'' then
              (case splitn (CHR ''/'') 2 part of
                 [rangePart, s] \<Rightarrow>
                   (case atoi s of
                      None \<Rightarrow> False
                    | Some step \<Rightarrow>
                        if step \<le> 0 then False
                        else if rangePart = ''*'' then go_mod value step = 0
                        else if str_contains rangePart ''-'' then
                          (case splitn (CHR ''-'') 2 rangePart of
                             [a, b] \<Rightarrow> (case (atoi a, atoi b) of
                                         (Some lo, Some hi) \<Rightarrow>
                                           if value < lo \<or> value > hi then False
                                           else go_mod (value - lo) step = 0
                                       | _ \<Rightarrow> False)
                           | _ \<Rightarrow> False)
                        else plain)
               | _ \<Rightarrow> False)
            else plain))"

definition cronFieldMatches :: "string \<Rightarrow> int \<Rightarrow> int \<Rightarrow> int \<Rightarrow> bool" where
  "cronFieldMatches field value mn mx =
     list_ex (\<lambda>part. cronPartMatches (trim_space part) value mn mx) (split_on (CHR '','') field)"

definition cronMatches :: "string \<Rightarrow> cron_time \<Rightarrow> bool" where
  "cronMatches expr t =
     (case str_fields expr of
        [f0, f1, f2, f3, f4] \<Rightarrow>
          cronFieldMatches f0 (ct_minute t) 0 59 \<and>
          cronFieldMatches f1 (ct_hour t) 0 23 \<and>
          cronFieldMatches f2 (ct_dom t) 1 31 \<and>
          cronFieldMatches f3 (ct_month t) 1 12 \<and>
          cronFieldMatches f4 (ct_dow t) 0 6
      | _ \<Rightarrow> False)"

section \<open>The validator\<close>

datatype cron_part_error =
    InvalidStep string
  | StepOutOfRange int
  | InvalidRange string
  | RangeOutOfBounds int int int int
  | InvalidValue string
  | ValueOutOfRange int int int

datatype cron_error =
    FieldCount nat
  | FieldError string cron_part_error

definition validateCronPart :: "string \<Rightarrow> int \<Rightarrow> int \<Rightarrow> cron_part_error option" where
  "validateCronPart part mn mx =
     (if part = ''*'' then None
      else if has_prefix part ''*/'' then
        (case atoi (drop 2 part) of
           None \<Rightarrow> Some (InvalidStep part)
         | Some step \<Rightarrow> if step \<le> 0 \<or> step > mx then Some (StepOutOfRange step) else None)
      else if str_contains part ''-'' then
        (case splitn (CHR ''-'') 2 part of
           [a, b] \<Rightarrow> (case (atoi a, atoi b) of
                       (Some lo, Some hi) \<Rightarrow>
                         if lo < mn \<or> hi > mx \<or> lo > hi then Some (RangeOutOfBounds lo hi mn mx)
                         else None
                     | _ \<Rightarrow> Some (InvalidRange part))
         | _ \<Rightarrow> Some (InvalidRange part))
      else (case atoi part of
              None \<Rightarrow> Some (InvalidValue part)
            | Some n \<Rightarrow> if n < mn \<or> n > mx then Some (ValueOutOfRange n mn mx) else None))"

fun validateParts :: "string list \<Rightarrow> int \<Rightarrow> int \<Rightarrow> cron_part_error option" where
  "validateParts [] mn mx = None"
| "validateParts (p # ps) mn mx =
     (case validateCronPart (trim_space p) mn mx of
        Some e \<Rightarrow> Some e
      | None \<Rightarrow> validateParts ps mn mx)"

definition validateCronField :: "string \<Rightarrow> int \<Rightarrow> int \<Rightarrow> cron_part_error option" where
  "validateCronField field mn mx = validateParts (split_on (CHR '','') field) mn mx"

definition cron_limits :: "(string \<times> int \<times> int) list" where
  "cron_limits = [(''min'', 0, 59), (''when'', 0, 23), (''day'', 1, 31), (''month'', 1, 12), (''day'', 0, 6)]"

fun validateFields :: "(string \<times> int \<times> int) list \<Rightarrow> string list \<Rightarrow> cron_error option" where
  "validateFields ((name, mn, mx) # ls) (f # fs) =
     (case validateCronField f mn mx of
        Some e \<Rightarrow> Some (FieldError name e)
      | None \<Rightarrow> validateFields ls fs)"
| "validateFields _ _ = None"

definition ValidateCron :: "string \<Rightarrow> cron_error option" where
  "ValidateCron expr =
     (if expr = [] then None
      else let fs = str_fields expr
           in if length fs \<noteq> 5 then Some (FieldCount (length fs))
              else validateFields cron_limits fs)"

section \<open>What a cron expression means\<close>

datatype cron_atom = Star | Every int | Between int int | At int

type_synonym cron_schedule = "cron_atom list list"

fun atom_sem :: "cron_atom \<Rightarrow> int \<Rightarrow> bool" where
  "atom_sem Star v = True"
| "atom_sem (Every n) v = (v mod n = 0)"
| "atom_sem (Between lo hi) v = (lo \<le> v \<and> v \<le> hi)"
| "atom_sem (At n) v = (v = n)"

fun atom_ok :: "int \<Rightarrow> int \<Rightarrow> cron_atom \<Rightarrow> bool" where
  "atom_ok mn mx Star = True"
| "atom_ok mn mx (Every n) = (0 < n \<and> n \<le> mx)"
| "atom_ok mn mx (Between lo hi) = (mn \<le> lo \<and> lo \<le> hi \<and> hi \<le> mx)"
| "atom_ok mn mx (At n) = (mn \<le> n \<and> n \<le> mx)"

definition time_fields :: "cron_time \<Rightarrow> int list" where
  "time_fields t = [ct_minute t, ct_hour t, ct_dom t, ct_month t, ct_dow t]"

definition time_ok :: "cron_time \<Rightarrow> bool" where
  "time_ok t = list_all2 (\<lambda>(_, mn, mx) v. mn \<le> v \<and> v \<le> mx) cron_limits (time_fields t)"

definition field_sem :: "cron_atom list \<Rightarrow> int \<Rightarrow> bool" where
  "field_sem as v = list_ex (\<lambda>a. atom_sem a v) as"

definition schedule_sem :: "cron_schedule \<Rightarrow> cron_time \<Rightarrow> bool" where
  "schedule_sem sch t = list_all2 field_sem sch (time_fields t)"

definition schedule_ok :: "cron_schedule \<Rightarrow> bool" where
  "schedule_ok sch =
     list_all2 (\<lambda>(_, mn, mx) as. as \<noteq> [] \<and> list_all (atom_ok mn mx) as) cron_limits sch"

fun render_atom :: "cron_atom \<Rightarrow> string" where
  "render_atom Star = ''*''"
| "render_atom (Every n) = ''*/'' @ itoa n"
| "render_atom (Between lo hi) = itoa lo @ ''-'' @ itoa hi"
| "render_atom (At n) = itoa n"

definition render_field :: "cron_atom list \<Rightarrow> string" where
  "render_field as = str_join '','' (map render_atom as)"

definition render_schedule :: "cron_schedule \<Rightarrow> string" where
  "render_schedule sch = str_join '' '' (map render_field sch)"

section \<open>Rendered atoms\<close>

lemma digits_head:
  "nat_digits n @ t \<noteq> ''*''" "\<not> has_prefix (nat_digits n @ t) ''*/''"
proof -
  obtain c cs where e: "nat_digits n = c # cs" by (cases "nat_digits n") auto
  then have "c \<noteq> CHR ''*''" using nat_digits_chars [of c n] by auto
  with e show "nat_digits n @ t \<noteq> ''*''" "\<not> has_prefix (nat_digits n @ t) ''*/''"
    by (simp_all add: has_prefix_def)
qed

lemmas digits_head0 = digits_head [of _ "[]", simplified]

lemma digits_no_sign: "CHR ''-'' \<notin> set (nat_digits n)" "CHR ''/'' \<notin> set (nat_digits n)"
  "CHR '','' \<notin> set (nat_digits n)"
  by (rule nat_digits_not_in; simp)+

lemma atoi_itoa_small: "0 \<le> i \<Longrightarrow> i \<le> 59 \<Longrightarrow> atoi (itoa i) = Some i"
  by (rule atoi_itoa) (simp add: in_int64_def min_int64_def max_int64_def)

lemma split_range:
  "0 \<le> lo \<Longrightarrow> splitn (CHR ''-'') 2 (itoa lo @ CHR ''-'' # b) = [itoa lo, b]"
  by (simp add: itoa_nonneg digits_no_sign splitn_two_sep)

lemma render_part:
  assumes "atom_ok mn mx a" "0 \<le> mn" "mx \<le> 59"
  shows "validateCronPart (render_atom a) mn mx = None"
    and "0 \<le> v \<Longrightarrow> cronPartMatches (render_atom a) v mn mx = atom_sem a v"
proof -
  have "validateCronPart (render_atom a) mn mx = None \<and>
    (0 \<le> v \<longrightarrow> cronPartMatches (render_atom a) v mn mx = atom_sem a v)"
  proof (cases a)
    case Star
    then show ?thesis by (simp add: validateCronPart_def cronPartMatches_def)
  next
    case (Every n)
    with assms show ?thesis
      by (simp add: validateCronPart_def cronPartMatches_def has_prefix_def atoi_itoa_small
          go_mod_nonneg)
  next
    case (Between lo hi)
    with assms show ?thesis
      using digits_head [of "nat lo"]
      by (simp add: validateCronPart_def cronPartMatches_def str_contains_char split_range
          atoi_itoa_small itoa_nonneg [of lo, symmetric])
  next
    case (At n)
    with assms show ?thesis
      using digits_head0 [of "nat n"] digits_no_sign [of "nat n"]
      by (simp add: validateCronPart_def cronPartMatches_def str_contains_char
          atoi_itoa_small itoa_nonneg [of n, symmetric] eq_commute)
  qed
  then show "validateCronPart (render_atom a) mn mx = None"
    and "0 \<le> v \<Longrightarrow> cronPartMatches (render_atom a) v mn mx = atom_sem a v" by blast+
qed

lemma render_atom_chars:
  assumes "atom_ok mn mx a" "0 \<le> mn" "c \<in> set (render_atom a)"
  shows "\<not> is_space c \<and> c \<noteq> CHR '',''"
proof -
  have d: "\<not> is_space x \<and> x \<noteq> CHR '',''" if "x \<in> set (nat_digits n)" for x n
    using that nat_digits_nospace digits_no_sign(3) by blast
  show ?thesis
    using assms d by (cases a) (auto simp: itoa_nonneg is_space_def)
qed

lemma render_atom_ne: "render_atom a \<noteq> []"
  by (cases a) (simp_all add: itoa_def)

lemma str_join_set: "c \<in> set (str_join sep ws) \<Longrightarrow> c \<in> set sep \<or> (\<exists>w \<in> set ws. c \<in> set w)"
  by (induction sep ws rule: str_join.induct) auto

lemma str_join_Nil_iff: "\<forall>w \<in> set ws. w \<noteq> [] \<Longrightarrow> str_join sep ws = [] \<longleftrightarrow> ws = []"
  by (induction sep ws rule: str_join.induct) auto

lemma render_field_word:
  assumes "list_all (atom_ok mn mx) as" "as \<noteq> []" "0 \<le> mn"
  shows "render_field as \<noteq> [] \<and> (\<forall>c \<in> set (render_field as). \<not> is_space c)"
proof
  show "render_field as \<noteq> []"
    using assms(2) by (simp add: render_field_def str_join_Nil_iff render_atom_ne)
  show "\<forall>c \<in> set (render_field as). \<not> is_space c"
  proof
    fix c assume "c \<in> set (render_field as)"
    then have "c = CHR '','' \<or> (\<exists>a \<in> set as. c \<in> set (render_atom a))"
      using str_join_set by (fastforce simp: render_field_def)
    then show "\<not> is_space c"
      using assms(1,3) render_atom_chars by (fastforce simp: list_all_iff is_space_def)
  qed
qed

lemma split_render_field:
  assumes "list_all (atom_ok mn mx) as" "as \<noteq> []" "0 \<le> mn"
  shows "split_on (CHR '','') (render_field as) = map render_atom as"
proof -
  have "\<forall>w \<in> set (map render_atom as). CHR '','' \<notin> set w"
    using assms(1,3) render_atom_chars by (fastforce simp: list_all_iff)
  with assms(2) show ?thesis by (simp add: render_field_def split_on_str_join)
qed

lemma trim_render_atom: "atom_ok mn mx a \<Longrightarrow> 0 \<le> mn \<Longrightarrow> trim_space (render_atom a) = render_atom a"
  using render_atom_chars by (blast intro: trim_space_nospace)

lemma validateParts_None_iff:
  "validateParts ps mn mx = None \<longleftrightarrow> (\<forall>p \<in> set ps. validateCronPart (trim_space p) mn mx = None)"
  by (induction ps) (auto split: option.splits)

lemma render_field_correct:
  assumes "list_all (atom_ok mn mx) as" "as \<noteq> []" "0 \<le> mn" "mx \<le> 59"
  shows "validateCronField (render_field as) mn mx = None"
    and "0 \<le> v \<Longrightarrow> cronFieldMatches (render_field as) v mn mx = field_sem as v"
proof -
  have sp: "split_on (CHR '','') (render_field as) = map render_atom as"
    using assms by (intro split_render_field)
  have a: "\<And>a. a \<in> set as \<Longrightarrow> atom_ok mn mx a" using assms(1) by (simp add: list_all_iff)
  show "validateCronField (render_field as) mn mx = None"
    using a assms render_part(1) [of mn mx] trim_render_atom [of mn mx]
    by (simp add: validateCronField_def sp validateParts_None_iff)
  show "cronFieldMatches (render_field as) v mn mx = field_sem as v" if "0 \<le> v"
    using a assms that render_part(2) [of mn mx] trim_render_atom [of mn mx]
    by (simp add: cronFieldMatches_def sp field_sem_def list_ex_iff)
qed

section \<open>Accepted parts\<close>

lemma atoi_no_slash: "atoi s = Some i \<Longrightarrow> CHR ''/'' \<notin> set s"
proof
  assume a: "atoi s = Some i" and "CHR ''/'' \<in> set s"
  then obtain c cs where s: "s = c # cs" by (cases s) auto
  show False
  proof (cases "CHR ''/'' \<in> set cs")
    case True
    then show False using a s atoi_bad_char [of "CHR ''/''" s] by (simp add: digit_val_def)
  next
    case False
    with \<open>CHR ''/'' \<in> set s\<close> s have "s = CHR ''/'' # cs" by simp
    with a show False by (simp add: atoi_def parse_uint_def digit_val_def)
  qed
qed

lemma accepted_part:
  assumes "validateCronPart p mn mx = None" "0 \<le> mn"
  shows "\<exists>a. atom_ok mn mx a \<and> (\<forall>v \<ge> 0. cronPartMatches p v mn mx = atom_sem a v)"
proof -
  consider (star) "p = ''*''" | (step) "p \<noteq> ''*''" "has_prefix p ''*/''"
    | (range) "p \<noteq> ''*''" "\<not> has_prefix p ''*/''" "str_contains p ''-''"
    | (num) "p \<noteq> ''*''" "\<not> has_prefix p ''*/''" "\<not> str_contains p ''-''" by blast
  then show ?thesis
  proof cases
    case star
    then have "atom_ok mn mx Star \<and> (\<forall>v \<ge> 0. cronPartMatches p v mn mx = atom_sem Star v)"
      by (simp add: cronPartMatches_def)
    then show ?thesis ..
  next
    case step
    with assms obtain s where "atoi (drop 2 p) = Some s" "0 < s" "s \<le> mx"
      by (auto simp: validateCronPart_def split: option.splits if_splits)
    with step have "atom_ok mn mx (Every s) \<and>
        (\<forall>v \<ge> 0. cronPartMatches p v mn mx = atom_sem (Every s) v)"
      by (simp add: cronPartMatches_def go_mod_nonneg)
    then show ?thesis ..
  next
    case range
    then have "CHR ''-'' \<in> set p" by (simp add: str_contains_char)
    then obtain x y where xy: "splitn (CHR ''-'') 2 p = [x, y]" using length_splitn_two by blast
    with range assms obtain lo hi where "atoi x = Some lo" "atoi y = Some hi"
      "mn \<le> lo" "hi \<le> mx" "lo \<le> hi"
      by (auto simp: validateCronPart_def split: option.splits if_splits)
    with range xy have "atom_ok mn mx (Between lo hi) \<and>
        (\<forall>v \<ge> 0. cronPartMatches p v mn mx = atom_sem (Between lo hi) v)"
      by (simp add: cronPartMatches_def)
    then show ?thesis ..
  next
    case num
    with assms obtain n where n: "atoi p = Some n" "mn \<le> n" "n \<le> mx"
      by (auto simp: validateCronPart_def split: option.splits if_splits)
    then have "\<not> str_contains p ''/''" using atoi_no_slash by (simp add: str_contains_char)
    with num n have "atom_ok mn mx (At n) \<and>
        (\<forall>v \<ge> 0. cronPartMatches p v mn mx = atom_sem (At n) v)"
      by (simp add: cronPartMatches_def)
    then show ?thesis ..
  qed
qed

lemma accepted_field:
  assumes "validateCronField f mn mx = None" "0 \<le> mn"
  shows "\<exists>as. as \<noteq> [] \<and> list_all (atom_ok mn mx) as \<and>
    (\<forall>v \<ge> 0. cronFieldMatches f v mn mx = field_sem as v)"
proof -
  let ?R = "\<lambda>p a. atom_ok mn mx a \<and> (\<forall>v \<ge> 0. cronPartMatches (trim_space p) v mn mx = atom_sem a v)"
  let ?ps = "split_on (CHR '','') f"
  have "\<forall>p \<in> set ?ps. \<exists>a. ?R p a"
    using assms accepted_part by (simp add: validateCronField_def validateParts_None_iff)
  then obtain g where g: "\<forall>p \<in> set ?ps. ?R p (g p)" by metis
  have "map g ?ps \<noteq> [] \<and> list_all (atom_ok mn mx) (map g ?ps) \<and>
    (\<forall>v \<ge> 0. cronFieldMatches f v mn mx = field_sem (map g ?ps) v)"
    using g by (simp add: cronFieldMatches_def field_sem_def list_ex_iff list_all_iff)
  then show ?thesis by blast
qed

section \<open>The properties\<close>

text \<open>
  C11. For every well-formed schedule, the text that writes it down is accepted by
  \<^verbatim>\<open>ValidateCron\<close>, and \<^verbatim>\<open>cronMatches\<close> fires on it at exactly the times the schedule
  denotes: stars, steps, ranges and lists mean what cron says they mean.
\<close>

theorem cron_matches_rendered_schedule:
  assumes "schedule_ok sch" and "time_ok t"
  shows "ValidateCron (render_schedule sch) = None \<and>
    cronMatches (render_schedule sch) t = schedule_sem sch t"
proof -
  obtain a b c d e where s: "sch = [a, b, c, d, e]"
    using assms(1) by (auto simp: schedule_ok_def cron_limits_def list_all2_Cons1)
  have ok: "list_all (atom_ok 0 59) a" "a \<noteq> []" "list_all (atom_ok 0 23) b" "b \<noteq> []"
    "list_all (atom_ok 1 31) c" "c \<noteq> []" "list_all (atom_ok 1 12) d" "d \<noteq> []"
    "list_all (atom_ok 0 6) e" "e \<noteq> []"
    using assms(1) by (simp_all add: s schedule_ok_def cron_limits_def)
  have w: "\<forall>w \<in> set (map render_field sch). w \<noteq> [] \<and> (\<forall>x \<in> set w. \<not> is_space x)"
    using render_field_word ok by (simp add: s)
  then have f: "str_fields (render_schedule sch) = map render_field sch"
    unfolding render_schedule_def by (rule str_fields_join)
  have ne: "render_schedule sch \<noteq> []"
    using w unfolding render_schedule_def by (subst str_join_Nil_iff) (auto simp: s)
  have nn: "0 \<le> ct_minute t" "0 \<le> ct_hour t" "0 \<le> ct_dom t" "0 \<le> ct_month t" "0 \<le> ct_dow t"
    using assms(2) by (auto simp: time_ok_def cron_limits_def time_fields_def)
  show ?thesis
    using ok nn f ne by (simp add: ValidateCron_def cronMatches_def s cron_limits_def
        render_field_correct schedule_sem_def time_fields_def)
qed

definition cron_example :: cron_schedule where
  "cron_example = [[Every 15], [At 0, At 12], [Between 1 7], [Star], [At 5]]"

definition cron_example_time :: cron_time where
  "cron_example_time = \<lparr>ct_minute = 45, ct_hour = 12, ct_dom = 3, ct_month = 2, ct_dow = 5\<rparr>"

theorem cron_matches_rendered_schedule_witness:
  "render_schedule cron_example = ''*/15 0,12 1-7 * 5'' \<and>
   ValidateCron ''*/15 0,12 1-7 * 5'' = None \<and> cronMatches ''*/15 0,12 1-7 * 5'' cron_example_time"
proof -
  have ok: "schedule_ok cron_example" by code_simp
  have t: "time_ok cron_example_time" by code_simp
  have r: "render_schedule cron_example = ''*/15 0,12 1-7 * 5''" by code_simp
  have "schedule_sem cron_example cron_example_time" by code_simp
  with cron_matches_rendered_schedule [OF ok t] r show ?thesis by simp
qed

text \<open>
  C10. Validation is sound: whatever non-empty expression \<^verbatim>\<open>ValidateCron\<close> accepts denotes
  a well-formed schedule, and the scheduler fires on it exactly as that schedule says.
\<close>

theorem accepted_cron_has_a_schedule:
  assumes "ValidateCron expr = None" and "expr \<noteq> []"
  shows "\<exists>sch. schedule_ok sch \<and> (\<forall>t. time_ok t \<longrightarrow> cronMatches expr t = schedule_sem sch t)"
proof -
  obtain f0 f1 f2 f3 f4 where f: "str_fields expr = [f0, f1, f2, f3, f4]"
    using assms by (auto simp: ValidateCron_def Let_def length_Suc_conv numeral_eq_Suc split: if_splits)
  have v: "validateCronField f0 0 59 = None" "validateCronField f1 0 23 = None"
    "validateCronField f2 1 31 = None" "validateCronField f3 1 12 = None"
    "validateCronField f4 0 6 = None"
    using assms f by (auto simp: ValidateCron_def cron_limits_def split: option.splits)
  let ?R = "\<lambda>f mn mx as. as \<noteq> [] \<and> list_all (atom_ok mn mx) as \<and>
    (\<forall>v \<ge> 0. cronFieldMatches f v mn mx = field_sem as v)"
  obtain a where a: "?R f0 0 59 a" using accepted_field [OF v(1)] by blast
  obtain b where b: "?R f1 0 23 b" using accepted_field [OF v(2)] by blast
  obtain c where c: "?R f2 1 31 c" using accepted_field [OF v(3)] by auto
  obtain d where d: "?R f3 1 12 d" using accepted_field [OF v(4)] by auto
  obtain e where e: "?R f4 0 6 e" using accepted_field [OF v(5)] by blast
  note r = a b c d e
  have "schedule_ok [a, b, c, d, e]" using r by (simp add: schedule_ok_def cron_limits_def)
  moreover have "cronMatches expr t = schedule_sem [a, b, c, d, e] t" if "time_ok t" for t
    using r that by (auto simp: cronMatches_def f schedule_sem_def time_fields_def time_ok_def cron_limits_def)
  ultimately show ?thesis by blast
qed

theorem accepted_cron_has_a_schedule_witness:
  "\<exists>sch. schedule_ok sch \<and>
    (\<forall>t. time_ok t \<longrightarrow> cronMatches ''0 +3,007 * 1-12 */2'' t = schedule_sem sch t)"
  by (rule accepted_cron_has_a_schedule) code_simp+

text \<open>
  The form "N-M/S" that the parser's comments and the README announce never fires:
  the branch for plain ranges comes first and cannot read "M/S" as a number, so the
  branch for a range with a step is dead. The validator rejects the form as well.
\<close>

theorem cron_range_step_never_matches:
  "\<not> cronPartMatches (nat_digits lo @ ''-'' @ nat_digits hi @ ''/'' @ nat_digits s) value mn mx \<and>
   validateCronPart (nat_digits lo @ ''-'' @ nat_digits hi @ ''/'' @ nat_digits s) mn mx \<noteq> None"
proof -
  let ?b = "nat_digits hi @ ''/'' @ nat_digits s"
  have "CHR ''/'' \<in> set (tl ?b)" by (cases "nat_digits hi") auto
  then have "atoi ?b = None" by (rule atoi_bad_char) (simp add: digit_val_def)
  then show ?thesis
    using digits_head [of lo] digits_no_sign [of lo]
    by (simp add: cronPartMatches_def validateCronPart_def str_contains_char splitn_two_sep
        split: option.splits)
qed

end
