(* ===== verification/Log_Buffer.thy ===== *)
theory Log_Buffer
  imports Go_Prelude
begin

text \<open>
  The console log of the master (\<^verbatim>\<open>internal/master/log_buffer.go\<close>): the ring buffer that
  keeps the latest lines of each instance, and the broadcast of a line to the buffer and
  to the channel the WebSocket hub reads. The locale \<open>bounded_log\<close> is what a log that
  keeps its latest \<open>cap\<close> lines promises; the ring buffer interprets it.
\<close>

section \<open>The ring buffer\<close>

record LogRingBuffer =
  rb_lines :: "string list"
  rb_pos :: nat
  rb_full :: bool
  rb_size :: nat

definition NewLogRingBuffer :: "nat \<Rightarrow> LogRingBuffer" where
  "NewLogRingBuffer n = \<lparr>rb_lines = replicate n [], rb_pos = 0, rb_full = False, rb_size = n\<rparr>"

text \<open>\<open>None\<close> is the panic of an index out of range.\<close>

definition rb_Add :: "string \<Rightarrow> LogRingBuffer \<Rightarrow> LogRingBuffer option" where
  "rb_Add line rb =
     (if rb_pos rb \<ge> length (rb_lines rb) then None
      else
        let rb1 = rb\<lparr>rb_lines := (rb_lines rb)[rb_pos rb := line]\<rparr>;
            rb2 = rb1\<lparr>rb_pos := rb_pos rb1 + 1\<rparr>
        in Some (if rb_pos rb2 \<ge> rb_size rb2 then rb2\<lparr>rb_pos := 0, rb_full := True\<rparr> else rb2))"

definition rb_Lines :: "LogRingBuffer \<Rightarrow> string list" where
  "rb_Lines rb =
     (if \<not> rb_full rb then take (rb_pos rb) (rb_lines rb)
      else drop (rb_pos rb) (rb_lines rb) @ take (rb_pos rb) (rb_lines rb))"

section \<open>Broadcasting\<close>

record LogBroadcast =
  lb_InstanceID :: string
  lb_Line :: string
  lb_Timestamp :: instant

record log_state =
  logBuffers :: "(string, LogRingBuffer) gomap"
  logBroadcast :: "LogBroadcast list" \<comment> \<open>the buffered channel, oldest first\<close>

definition new_log_state :: log_state where
  "new_log_state = \<lparr>logBuffers = [], logBroadcast = []\<rparr>"

definition log_buffer_cap :: nat where
  "log_buffer_cap = 500"

definition log_channel_cap :: nat where
  "log_channel_cap = 1000"

definition BroadcastLog :: "string \<Rightarrow> string \<Rightarrow> instant \<Rightarrow> log_state \<Rightarrow> log_state option" where
  "BroadcastLog instanceID line now s =
     (let buf = (case map_get (logBuffers s) instanceID of
                   Some b \<Rightarrow> b
                 | None \<Rightarrow> NewLogRingBuffer log_buffer_cap)
      in case rb_Add line buf of
           None \<Rightarrow> None
         | Some buf' \<Rightarrow>
             let s1 = s\<lparr>logBuffers := map_put instanceID buf' (logBuffers s)\<rparr>
             in if length (logBroadcast s1) < log_channel_cap
                then Some (s1\<lparr>logBroadcast := logBroadcast s1 @
                       [\<lparr>lb_InstanceID = instanceID, lb_Line = line, lb_Timestamp = now\<rparr>]\<rparr>)
                else Some s1)"

definition GetLogHistory :: "string \<Rightarrow> log_state \<Rightarrow> string list" where
  "GetLogHistory instanceID s =
     (case map_get (logBuffers s) instanceID of None \<Rightarrow> [] | Some buf \<Rightarrow> rb_Lines buf)"

text \<open>A run of the master: lines arriving for instances, in order.\<close>

fun broadcast_all :: "(string \<times> string \<times> instant) list \<Rightarrow> log_state \<Rightarrow> log_state option" where
  "broadcast_all [] s = Some s"
| "broadcast_all ((i, l, t) # es) s = Option.bind (BroadcastLog i l t s) (broadcast_all es)"

section \<open>A log that keeps its latest lines\<close>

locale bounded_log =
  fixes addl :: "'l \<Rightarrow> 'b \<Rightarrow> 'b option"
    and linesl :: "'b \<Rightarrow> 'l list"
    and invl :: "'b \<Rightarrow> bool"
    and capl :: nat
  assumes add_ok: "invl b \<Longrightarrow> \<exists>b'. addl l b = Some b' \<and> invl b' \<and>
      linesl b' = take_last capl (linesl b @ [l])"
    and lines_cap: "invl b \<Longrightarrow> length (linesl b) \<le> capl"
begin

lemma add_all_ok:
  assumes "invl b"
  shows "\<exists>b'. foldl (\<lambda>r l. Option.bind r (addl l)) (Some b) ls = Some b' \<and> invl b' \<and>
    linesl b' = take_last capl (linesl b @ ls)"
  using assms
proof (induction ls arbitrary: b)
  case Nil
  then show ?case using lines_cap by simp
next
  case (Cons l ls)
  obtain c where c: "addl l b = Some c" "invl c" "linesl c = take_last capl (linesl b @ [l])"
    using add_ok [OF Cons.prems] by blast
  obtain d where "foldl (\<lambda>r l. Option.bind r (addl l)) (Some c) ls = Some d" "invl d"
    "linesl d = take_last capl (linesl c @ ls)"
    using Cons.IH [OF c(2)] by blast
  with c show ?case by (simp add: take_last_append_take_last)
qed

end

section \<open>The ring buffer is such a log\<close>

definition rb_inv :: "nat \<Rightarrow> LogRingBuffer \<Rightarrow> bool" where
  "rb_inv n rb \<longleftrightarrow> rb_size rb = n \<and> length (rb_lines rb) = n \<and> rb_pos rb < n"

lemma rb_inv_New: "0 < n \<Longrightarrow> rb_inv n (NewLogRingBuffer n)"
  by (simp add: rb_inv_def NewLogRingBuffer_def)

lemma rb_Lines_New [simp]: "rb_Lines (NewLogRingBuffer n) = []"
  by (simp add: rb_Lines_def NewLogRingBuffer_def)

lemma rb_Lines_length: "rb_inv n rb \<Longrightarrow> length (rb_Lines rb) \<le> n"
  by (auto simp: rb_Lines_def rb_inv_def)

lemma rb_Add_ok:
  assumes "rb_inv n rb"
  shows "\<exists>rb'. rb_Add l rb = Some rb' \<and> rb_inv n rb' \<and>
    rb_Lines rb' = take_last n (rb_Lines rb @ [l])"
proof -
  let ?xs = "rb_lines rb" and ?p = "rb_pos rb"
  have inv: "length ?xs = n" "?p < n" "rb_size rb = n" using assms by (simp_all add: rb_inv_def)
  have upd: "?xs[?p := l] = take ?p ?xs @ [l] @ drop (Suc ?p) ?xs"
    using inv by (simp add: upd_conv_take_nth_drop)
  have old: "drop ?p ?xs = ?xs ! ?p # drop (Suc ?p) ?xs" using inv by (simp add: Cons_nth_drop_Suc)
  show ?thesis
  proof (cases "Suc ?p < n")
    case True
    with inv upd old show ?thesis
      by (cases "rb_full rb") (simp_all add: rb_Add_def Let_def rb_inv_def rb_Lines_def take_last_def)
  next
    case False
    with inv have "n = Suc ?p" by simp
    with inv upd old show ?thesis
      by (cases "rb_full rb") (simp_all add: rb_Add_def Let_def rb_inv_def rb_Lines_def take_last_def)
  qed
qed

interpretation ring: bounded_log rb_Add rb_Lines "rb_inv n" n for n
  by unfold_locales (use rb_Add_ok rb_Lines_length in blast)+

section \<open>The broadcast keeps one ring per instance\<close>

definition log_state_ok :: "log_state \<Rightarrow> bool" where
  "log_state_ok s \<longleftrightarrow> map_ok (logBuffers s) \<and>
     (\<forall>i b. map_get (logBuffers s) i = Some b \<longrightarrow> rb_inv log_buffer_cap b) \<and>
     length (logBroadcast s) \<le> log_channel_cap"

lemma log_state_ok_new [simp]: "log_state_ok new_log_state"
  by (simp add: log_state_ok_def new_log_state_def)

lemma BroadcastLog_ok:
  assumes "log_state_ok s"
  shows "\<exists>s'. BroadcastLog i l t s = Some s' \<and> log_state_ok s' \<and>
    (\<forall>j. GetLogHistory j s' =
       (if j = i then take_last log_buffer_cap (GetLogHistory i s @ [l]) else GetLogHistory j s))"
proof -
  define buf where "buf = (case map_get (logBuffers s) i of Some b \<Rightarrow> b
    | None \<Rightarrow> NewLogRingBuffer log_buffer_cap)"
  have "rb_inv log_buffer_cap buf"
    using assms rb_inv_New [of log_buffer_cap]
    by (auto simp: buf_def log_state_ok_def log_buffer_cap_def split: option.splits)
  then obtain b' where b': "rb_Add l buf = Some b'" "rb_inv log_buffer_cap b'"
    "rb_Lines b' = take_last log_buffer_cap (rb_Lines buf @ [l])"
    using rb_Add_ok by blast
  have h: "GetLogHistory i s = rb_Lines buf"
    by (simp add: GetLogHistory_def buf_def split: option.splits)
  have e: "BroadcastLog i l t s =
    Some (s\<lparr>logBuffers := map_put i b' (logBuffers s),
            logBroadcast := if length (logBroadcast s) < log_channel_cap
              then logBroadcast s @ [\<lparr>lb_InstanceID = i, lb_Line = l, lb_Timestamp = t\<rparr>]
              else logBroadcast s\<rparr>)"
    using b'(1) by (simp add: BroadcastLog_def buf_def [symmetric])
  show ?thesis
    unfolding e using assms b' h
    by (auto simp: log_state_ok_def GetLogHistory_def go_map_simps)
qed

lemma broadcast_all_ok:
  "log_state_ok s \<Longrightarrow> \<exists>s'. broadcast_all es s = Some s' \<and> log_state_ok s' \<and>
    (\<forall>i. GetLogHistory i s' =
       take_last 500 (GetLogHistory i s @ [l. (j, l, t) \<leftarrow> es, j = i]))"
proof (induction es arbitrary: s)
  case Nil
  then have "length (GetLogHistory i s) \<le> 500" for i
    using rb_Lines_length by (fastforce simp: GetLogHistory_def log_state_ok_def log_buffer_cap_def
        split: option.splits)
  with Nil show ?case by simp
next
  case (Cons e es)
  obtain i l t where e: "e = (i, l, t)" by (cases e)
  obtain s1 where s1: "BroadcastLog i l t s = Some s1" "log_state_ok s1"
    "\<And>j. GetLogHistory j s1 =
       (if j = i then take_last 500 (GetLogHistory i s @ [l]) else GetLogHistory j s)"
    using BroadcastLog_ok [OF Cons.prems, of i l t] by (auto simp: log_buffer_cap_def)
  show ?case
    using Cons.IH [OF s1(2)] s1(1) by (auto simp: e s1(3) take_last_append_take_last)
qed

section \<open>The properties\<close>

text \<open>
  C31. The ring buffer never panics and shows exactly the latest \<open>n\<close> lines in the order
  they were added, however many were added: wrapping around loses the oldest line and
  nothing else.
\<close>

theorem ring_buffer_keeps_latest:
  assumes "0 < n"
  shows "\<exists>rb. foldl (\<lambda>r l. Option.bind r (rb_Add l)) (Some (NewLogRingBuffer n)) ls = Some rb \<and>
    rb_Lines rb = take_last n ls"
  using ring.add_all_ok [OF rb_inv_New [OF assms], of ls] by auto

theorem ring_buffer_keeps_latest_witness:
  "\<exists>rb. foldl (\<lambda>r l. Option.bind r (rb_Add l)) (Some (NewLogRingBuffer 2)) [''a'', ''b'', ''c''] = Some rb \<and>
    rb_Lines rb = [''b'', ''c'']"
  using ring_buffer_keeps_latest [of 2 "[''a'', ''b'', ''c'']"] by (simp add: take_last_def)

text \<open>
  After any sequence of broadcasts, the history replayed for an instance is the last
  500 lines that were broadcast for it, in order and without a line of another instance;
  no broadcast panics, and the channel to the hub never exceeds its 1000 slots. (The
  README announces a replay of 1000 lines.)
\<close>

theorem history_is_latest_500:
  "\<exists>s. broadcast_all es new_log_state = Some s \<and> length (logBroadcast s) \<le> 1000 \<and>
     (\<forall>i. GetLogHistory i s = take_last 500 [l. (j, l, t) \<leftarrow> es, j = i])"
  using broadcast_all_ok [OF log_state_ok_new, of es]
  by (auto simp: log_state_ok_def log_channel_cap_def GetLogHistory_def new_log_state_def)

end
