(* ===== verification/Config.thy ===== *)
theory Config
  imports Go_Strings
begin

text \<open>
  The configuration of master and agent (\<^verbatim>\<open>internal/common/config.go\<close>): the records the
  YAML files are read into, and the defaults filled in afterwards. Reading the YAML text
  itself is done by a library. \<^verbatim>\<open>ServerProperties\<close>, which no code reads, is left out.
\<close>

record InstanceDef =
  idType :: string
  idName :: string
  idPort :: int
  idWorkDir :: string
  idServerJar :: string
  idMemoryMin :: string
  idMemoryMax :: string
  idJavaPath :: string
  idAutoStart :: bool
  idAutoRestart :: bool
  idRestartDelaySec :: int
  idStopCommand :: string
  idJVMArgs :: "string list"
  idRCONEnabled :: bool
  idRCONPort :: int
  idRCONPassword :: string
  idAcceptEULA :: bool
  idServiceVersion :: string
  idJavaVersion :: string
  idCustomDockerfile :: string
  idCustomCompose :: string
  idNetworkName :: string
  idDockerMemory :: string
  idDockerCPUs :: string

record AgentConfig =
  acID :: string
  acName :: string
  acMasterAddr :: string
  acGRPCAddr :: string
  acJavaPath :: string
  acBackupDir :: string
  acBackupMaxCount :: int
  acInstances :: "InstanceDef list"
  acLogLevel :: string
  acLogFormat :: string

record SyncMappingCfg =
  smName :: string
  smSrc :: string
  smDest :: string
  smTargets :: "string list"
  smExclude :: "string list"

record MasterConfig =
  mcHTTPAddr :: string
  mcGRPCAddr :: string
  mcDatabasePath :: string
  mcDebounceMs :: int
  mcMappings :: "SyncMappingCfg list"
  mcSourceDir :: string
  mcLogLevel :: string
  mcLogFormat :: string

text \<open>\<^verbatim>\<open>if x == "" { x = d }\<close>, the idiom of every default.\<close>

definition str_default :: "string \<Rightarrow> string \<Rightarrow> string" where
  "str_default d s = (if s = '''' then d else s)"

definition default_instance :: "string \<Rightarrow> InstanceDef \<Rightarrow> InstanceDef" where
  "default_instance javaPath inst =
     inst\<lparr>idType := str_default ''minecraft'' (idType inst),
          idServerJar := str_default ''server.jar'' (idServerJar inst),
          idMemoryMin := str_default ''512M'' (idMemoryMin inst),
          idMemoryMax := str_default ''1024M'' (idMemoryMax inst),
          idJavaPath := str_default javaPath (idJavaPath inst),
          idStopCommand := str_default ''stop'' (idStopCommand inst),
          idRestartDelaySec := (if idRestartDelaySec inst \<le> 0 then 10 else idRestartDelaySec inst),
          idPort := (if idPort inst = 0 then 25565 else idPort inst)\<rparr>"

definition setAgentDefaults :: "string \<Rightarrow> AgentConfig \<Rightarrow> AgentConfig" where
  "setAgentDefaults hostname cfg =
     (let cfg1 = cfg\<lparr>acName := str_default hostname (acName cfg),
                acMasterAddr := str_default ''localhost:9090'' (acMasterAddr cfg),
                acGRPCAddr := str_default '':9091'' (acGRPCAddr cfg),
                acJavaPath := str_default ''java'' (acJavaPath cfg),
                acBackupDir := str_default ''./backups'' (acBackupDir cfg),
                acBackupMaxCount := (if acBackupMaxCount cfg \<le> 0 then 10 else acBackupMaxCount cfg),
                acLogLevel := str_default ''info'' (acLogLevel cfg),
                acLogFormat := str_default ''text'' (acLogFormat cfg)\<rparr>
      in cfg1\<lparr>acInstances := map (default_instance (acJavaPath cfg1)) (acInstances cfg1)\<rparr>)"

definition default_mapping :: "string \<Rightarrow> SyncMappingCfg" where
  "default_mapping src =
     \<lparr>smName = ''default'', smSrc = src, smDest = ''.'', smTargets = [''*''], smExclude = []\<rparr>"

definition setMasterDefaults :: "MasterConfig \<Rightarrow> MasterConfig" where
  "setMasterDefaults cfg =
     (let cfg1 = cfg\<lparr>mcHTTPAddr := str_default '':8080'' (mcHTTPAddr cfg),
                mcGRPCAddr := str_default '':9090'' (mcGRPCAddr cfg),
                mcDatabasePath := str_default ''./data/craftstack.db'' (mcDatabasePath cfg),
                mcDebounceMs := (if mcDebounceMs cfg \<le> 0 then 500 else mcDebounceMs cfg)\<rparr>;
          cfg2 = (if mcMappings cfg1 = [] \<and> mcSourceDir cfg1 \<noteq> ''''
                  then cfg1\<lparr>mcMappings := [default_mapping (mcSourceDir cfg1)]\<rparr> else cfg1);
          cfg3 = (if mcMappings cfg2 = []
                  then cfg2\<lparr>mcMappings := [default_mapping ''./deploy'']\<rparr> else cfg2)
      in cfg3\<lparr>mcLogLevel := str_default ''info'' (mcLogLevel cfg3),
              mcLogFormat := str_default ''text'' (mcLogFormat cfg3)\<rparr>)"

text \<open>An instance as the examples of the other theories use it.\<close>

definition example_instance :: "string \<Rightarrow> string \<Rightarrow> InstanceDef" where
  "example_instance name workDir =
     default_instance ''java''
       \<lparr>idType = '''', idName = name, idPort = 0, idWorkDir = workDir, idServerJar = '''',
        idMemoryMin = '''', idMemoryMax = '''', idJavaPath = '''', idAutoStart = True,
        idAutoRestart = True, idRestartDelaySec = 0, idStopCommand = '''', idJVMArgs = [],
        idRCONEnabled = False, idRCONPort = 0, idRCONPassword = '''', idAcceptEULA = True,
        idServiceVersion = '''', idJavaVersion = '''', idCustomDockerfile = '''',
        idCustomCompose = '''', idNetworkName = '''', idDockerMemory = '''', idDockerCPUs = ''''\<rparr>"

section \<open>What a defaulted configuration guarantees\<close>

definition instance_complete :: "InstanceDef \<Rightarrow> bool" where
  "instance_complete i \<longleftrightarrow>
     idType i \<noteq> '''' \<and> idServerJar i \<noteq> '''' \<and> idMemoryMin i \<noteq> '''' \<and> idMemoryMax i \<noteq> '''' \<and>
     idJavaPath i \<noteq> '''' \<and> idStopCommand i \<noteq> '''' \<and> 0 < idRestartDelaySec i \<and> idPort i \<noteq> 0"

definition agent_complete :: "AgentConfig \<Rightarrow> bool" where
  "agent_complete c \<longleftrightarrow>
     acMasterAddr c \<noteq> '''' \<and> acGRPCAddr c \<noteq> '''' \<and> acJavaPath c \<noteq> '''' \<and> acBackupDir c \<noteq> '''' \<and>
     0 < acBackupMaxCount c \<and> acLogLevel c \<noteq> '''' \<and> acLogFormat c \<noteq> '''' \<and>
     list_all instance_complete (acInstances c)"

lemma str_default_simps [simp]:
  "str_default d [] = d" "s \<noteq> [] \<Longrightarrow> str_default d s = s" "d \<noteq> [] \<Longrightarrow> str_default d s \<noteq> []"
  "str_default d (str_default d s) = str_default d s"
  by (simp_all add: str_default_def)

lemma default_instance_complete: "javaPath \<noteq> [] \<Longrightarrow> instance_complete (default_instance javaPath i)"
  by (simp add: instance_complete_def default_instance_def)

lemma default_instance_id: "instance_complete i \<Longrightarrow> default_instance p i = i"
  by (simp add: instance_complete_def default_instance_def)

text \<open>
  Filling in the defaults leaves no setting the agent needs empty, changes nothing in a
  configuration that is already complete, and so changes nothing the second time.
\<close>

theorem agent_defaults_complete:
  "agent_complete (setAgentDefaults h cfg) \<and>
   setAgentDefaults h (setAgentDefaults h cfg) = setAgentDefaults h cfg"
proof -
  let ?j = "str_default ''java'' (acJavaPath cfg)"
  have "map (default_instance ?j) (map (default_instance ?j) (acInstances cfg)) =
    map (default_instance ?j) (acInstances cfg)"
    by (simp add: default_instance_id default_instance_complete)
  then show ?thesis
    by (simp add: agent_complete_def setAgentDefaults_def Let_def list_all_iff
        default_instance_complete default_instance_id)
qed

lemma master_defaults_fields:
  "mcMappings (setMasterDefaults cfg) =
     (if mcMappings cfg \<noteq> [] then mcMappings cfg
      else if mcSourceDir cfg \<noteq> [] then [default_mapping (mcSourceDir cfg)]
      else [default_mapping ''./deploy''])"
  "mcSourceDir (setMasterDefaults cfg) = mcSourceDir cfg"
  "mcHTTPAddr (setMasterDefaults cfg) = str_default '':8080'' (mcHTTPAddr cfg)"
  "mcGRPCAddr (setMasterDefaults cfg) = str_default '':9090'' (mcGRPCAddr cfg)"
  "mcDatabasePath (setMasterDefaults cfg) = str_default ''./data/craftstack.db'' (mcDatabasePath cfg)"
  "mcDebounceMs (setMasterDefaults cfg) = (if mcDebounceMs cfg \<le> 0 then 500 else mcDebounceMs cfg)"
  "mcLogLevel (setMasterDefaults cfg) = str_default ''info'' (mcLogLevel cfg)"
  "mcLogFormat (setMasterDefaults cfg) = str_default ''text'' (mcLogFormat cfg)"
  unfolding setMasterDefaults_def Let_def by simp_all

text \<open>
  C7. After the defaults the master always watches at least one folder: the configured
  mappings if there are any, else the old \<^verbatim>\<open>source_dir\<close>, else \<^verbatim>\<open>./deploy\<close>; a default
  mapping goes to every agent.
\<close>

theorem master_defaults_mappings:
  "mcMappings (setMasterDefaults cfg) =
     (if mcMappings cfg \<noteq> [] then mcMappings cfg
      else if mcSourceDir cfg \<noteq> '''' then [default_mapping (mcSourceDir cfg)]
      else [default_mapping ''./deploy'']) \<and>
   setMasterDefaults (setMasterDefaults cfg) = setMasterDefaults cfg \<and>
   0 < mcDebounceMs (setMasterDefaults cfg)"
proof -
  have "setMasterDefaults (setMasterDefaults cfg) = setMasterDefaults cfg"
    by (rule MasterConfig.equality) (simp_all add: master_defaults_fields)
  then show ?thesis by (simp add: master_defaults_fields)
qed

end
