(* ===== verification/Auto_Restart.thy ===== *)
theory Auto_Restart
  imports Config
begin

text \<open>
  The crash watchdog of the agent (\<^verbatim>\<open>internal/agent/auto_restart.go\<close>). Every five seconds
  \<^verbatim>\<open>autoRestartLoop\<close> looks at every instance; a crashed one with auto-restart is started
  again after an exponential backoff, and given up after five attempts in a row. One tick
  is \<open>autoRestartTick\<close>; it returns what the loop hands to goroutines and to the log. The
  five process states are those of \<^verbatim>\<open>internal/agent/process/java.go\<close>.
\<close>

datatype State = StateStopped | StateStarting | StateRunning | StateStopping | StateCrashed

record restart_state =
  crashCounts :: "(string, int) gomap"
  lastAttempt :: "(string, instant) gomap"

definition restart_init :: restart_state where
  "restart_init = \<lparr>crashCounts = [], lastAttempt = []\<rparr>"

datatype restart_out =
    RestartAfter string duration \<comment> \<open>the goroutine that waits and calls \<^verbatim>\<open>ControlInstance(id, "start")\<close>\<close>
  | AbortLogged string

record observed =
  obID :: string
  obState :: State
  obDef :: "InstanceDef option"

definition maxCrashCount :: int where
  "maxCrashCount = 5"

definition crash_count :: "restart_state \<Rightarrow> string \<Rightarrow> int" where
  "crash_count rs i = (case map_get (crashCounts rs) i of None \<Rightarrow> 0 | Some n \<Rightarrow> n)"

text \<open>\<^verbatim>\<open>baseDelay * (1 << uint(count))\<close> on int64 durations, at most five minutes.\<close>

definition restart_backoff :: "int \<Rightarrow> int \<Rightarrow> duration" where
  "restart_backoff delaySec count =
     (let baseDelay = wrap64 (delaySec * second_ns);
          backoff = wrap64 (baseDelay * wrap64 (2 ^ nat count))
      in if backoff > 5 * minute_ns then 5 * minute_ns else backoff)"

definition restart_instance ::
  "instant \<Rightarrow> observed \<Rightarrow> restart_state \<Rightarrow> restart_state \<times> restart_out list" where
  "restart_instance now ob rs =
     (case obDef ob of
        None \<Rightarrow> (rs, [])
      | Some def \<Rightarrow>
          if \<not> idAutoRestart def then (rs, [])
          else if obState ob \<noteq> StateCrashed then
            (if obState ob = StateRunning
             then (rs\<lparr>crashCounts := map_put (obID ob) 0 (crashCounts rs)\<rparr>, [])
             else (rs, []))
          else
            let count = crash_count rs (obID ob)
            in if count \<ge> maxCrashCount then
                 (if count = maxCrashCount
                  then (rs\<lparr>crashCounts := map_put (obID ob) (count + 1) (crashCounts rs)\<rparr>,
                        [AbortLogged (obID ob)])
                  else (rs, []))
               else
                 let backoff = restart_backoff (idRestartDelaySec def) count
                 in (case map_get (lastAttempt rs) (obID ob) of
                       Some prev \<Rightarrow> if now - prev < backoff then (rs, []) else
                         (\<lparr>crashCounts = map_put (obID ob) (count + 1) (crashCounts rs),
                           lastAttempt = map_put (obID ob) now (lastAttempt rs)\<rparr>,
                          [RestartAfter (obID ob) backoff])
                     | None \<Rightarrow>
                         (\<lparr>crashCounts = map_put (obID ob) (count + 1) (crashCounts rs),
                           lastAttempt = map_put (obID ob) now (lastAttempt rs)\<rparr>,
                          [RestartAfter (obID ob) backoff])))"

fun autoRestartTick ::
  "instant \<Rightarrow> observed list \<Rightarrow> restart_state \<Rightarrow> restart_state \<times> restart_out list" where
  "autoRestartTick now [] rs = (rs, [])"
| "autoRestartTick now (ob # obs) rs =
     (let (rs1, o1) = restart_instance now ob rs;
          (rs2, o2) = autoRestartTick now obs rs1
      in (rs2, o1 @ o2))"

fun autoRestartLoop ::
  "(instant \<times> observed list) list \<Rightarrow> restart_state \<Rightarrow> restart_state \<times> restart_out list" where
  "autoRestartLoop [] rs = (rs, [])"
| "autoRestartLoop ((now, obs) # ticks) rs =
     (let (rs1, o1) = autoRestartTick now obs rs;
          (rs2, o2) = autoRestartLoop ticks rs1
      in (rs2, o1 @ o2))"

section \<open>Counting attempts\<close>

fun is_restart_of :: "string \<Rightarrow> restart_out \<Rightarrow> bool" where
  "is_restart_of i (RestartAfter j d) = (i = j)"
| "is_restart_of i (AbortLogged j) = False"

definition restarts_of :: "string \<Rightarrow> restart_out list \<Rightarrow> nat" where
  "restarts_of i os = length (filter (is_restart_of i) os)"

lemma restarts_of_append [simp]: "restarts_of i (a @ b) = restarts_of i a + restarts_of i b"
  by (simp add: restarts_of_def)

lemma restarts_of_Nil [simp]: "restarts_of i [] = 0"
  by (simp add: restarts_of_def)

definition attempts_left :: "restart_state \<Rightarrow> string \<Rightarrow> nat" where
  "attempts_left rs i = nat (maxCrashCount - crash_count rs i)"

lemma crash_count_upd:
  "crash_count (rs\<lparr>crashCounts := map_put j n (crashCounts rs)\<rparr>) i =
     (if i = j then n else crash_count rs i)"
  "crash_count \<lparr>crashCounts = map_put j n (crashCounts rs), lastAttempt = la\<rparr> i =
     (if i = j then n else crash_count rs i)"
  by (simp_all add: crash_count_def go_map_simps)

lemma restart_instance_attempts:
  assumes "obID ob = i \<Longrightarrow> obState ob \<noteq> StateRunning" and "0 \<le> crash_count rs i"
    and "restart_instance now ob rs = (rs', os)"
  shows "restarts_of i os + attempts_left rs' i \<le> attempts_left rs i \<and> 0 \<le> crash_count rs' i"
  using assms
  by (auto simp: restart_instance_def Let_def attempts_left_def crash_count_upd restarts_of_def
      maxCrashCount_def split: option.splits if_splits)

lemma autoRestartTick_attempts:
  assumes "\<forall>ob \<in> set obs. obID ob = i \<longrightarrow> obState ob \<noteq> StateRunning" and "0 \<le> crash_count rs i"
    and "autoRestartTick now obs rs = (rs', os)"
  shows "restarts_of i os + attempts_left rs' i \<le> attempts_left rs i \<and> 0 \<le> crash_count rs' i"
  using assms
proof (induction obs arbitrary: rs rs' os)
  case Nil
  then show ?case by simp
next
  case (Cons ob obs)
  obtain rs1 o1 where s1: "restart_instance now ob rs = (rs1, o1)" by fastforce
  obtain rs2 o2 where s2: "autoRestartTick now obs rs1 = (rs2, o2)" by fastforce
  have h: "restarts_of i o1 + attempts_left rs1 i \<le> attempts_left rs i" "0 \<le> crash_count rs1 i"
    using restart_instance_attempts [OF _ Cons.prems(2) s1] Cons.prems(1) by auto
  show ?case
    using Cons.IH [OF _ h(2) s2] h Cons.prems s1 s2 by fastforce
qed

lemma autoRestartLoop_attempts:
  assumes "\<forall>(now, obs) \<in> set ticks. \<forall>ob \<in> set obs. obID ob = i \<longrightarrow> obState ob \<noteq> StateRunning"
    and "0 \<le> crash_count rs i"
    and "autoRestartLoop ticks rs = (rs', os)"
  shows "restarts_of i os + attempts_left rs' i \<le> attempts_left rs i"
  using assms
proof (induction ticks arbitrary: rs rs' os)
  case Nil
  then show ?case by simp
next
  case (Cons t ticks)
  obtain now obs where t: "t = (now, obs)" by (cases t)
  obtain rs1 o1 where s1: "autoRestartTick now obs rs = (rs1, o1)" by fastforce
  obtain rs2 o2 where s2: "autoRestartLoop ticks rs1 = (rs2, o2)" by fastforce
  have h: "restarts_of i o1 + attempts_left rs1 i \<le> attempts_left rs i" "0 \<le> crash_count rs1 i"
    using autoRestartTick_attempts [OF _ Cons.prems(2) s1] Cons.prems(1) t by auto
  show ?case
    using Cons.IH [OF _ h(2) s2] h Cons.prems s1 s2 t by fastforce
qed

section \<open>The properties\<close>

text \<open>
  C29. A crash loop is cut off: however many ticks pass, an instance that is never seen
  running in between is restarted at most five times.
\<close>

theorem at_most_five_restarts:
  assumes "\<forall>(now, obs) \<in> set ticks. \<forall>ob \<in> set obs. obID ob = i \<longrightarrow> obState ob \<noteq> StateRunning"
  shows "restarts_of i (snd (autoRestartLoop ticks restart_init)) \<le> 5"
proof -
  obtain rs os where s: "autoRestartLoop ticks restart_init = (rs, os)" by fastforce
  have "restarts_of i os + attempts_left rs i \<le> attempts_left restart_init i"
    by (rule autoRestartLoop_attempts [OF assms _ s]) (simp add: crash_count_def restart_init_def)
  with s show ?thesis by (simp add: attempts_left_def crash_count_def restart_init_def maxCrashCount_def)
qed

definition crashed_def :: InstanceDef where
  "crashed_def = example_instance ''mc'' ''w''"

definition crashed_ob :: observed where
  "crashed_ob = \<lparr>obID = ''mc'', obState = StateCrashed, obDef = Some crashed_def\<rparr>"

text \<open>The bound is reached: twelve ticks six minutes apart restart a crashing instance five times.\<close>

definition crash_ticks :: "(instant \<times> observed list) list" where
  "crash_ticks = map (\<lambda>k. (int k * 360000000000, [crashed_ob])) [0..<12]"

theorem at_most_five_restarts_witness:
  "restarts_of ''mc'' (snd (autoRestartLoop crash_ticks restart_init)) \<le> 5 \<and>
   restarts_of ''mc'' (snd (autoRestartLoop crash_ticks restart_init)) = 5"
proof -
  have "\<forall>(now, obs) \<in> set crash_ticks. \<forall>ob \<in> set obs. obID ob = ''mc'' \<longrightarrow> obState ob \<noteq> StateRunning"
    by (auto simp: crash_ticks_def crashed_ob_def)
  from at_most_five_restarts [OF this]
  have "restarts_of ''mc'' (snd (autoRestartLoop crash_ticks restart_init)) \<le> 5" .
  moreover have "restarts_of ''mc'' (snd (autoRestartLoop crash_ticks restart_init)) = 5"
    by code_simp
  ultimately show ?thesis by blast
qed

text \<open>
  C5. The backoff is the exponential one: with a delay of at most 576460752 seconds the
  wait before attempt \<open>count\<close> is \<open>delay * 2 ^ count\<close> seconds, never more than five
  minutes, and no intermediate product overflows.
\<close>

theorem backoff_is_exponential:
  assumes "0 \<le> delay" "delay \<le> 576460752" "0 \<le> count" "count < maxCrashCount"
  shows "restart_backoff delay count = min (delay * 2 ^ nat count * second_ns) (5 * minute_ns)"
proof -
  define p :: int where "p = 2 ^ nat count"
  have "nat count \<le> 4" using assms(3,4) by (simp add: maxCrashCount_def)
  then have p: "p \<le> 2 ^ 4" "1 \<le> p"
    unfolding p_def by (rule power_increasing) simp_all
  define q where "q = delay * p"
  have q: "q \<le> 576460752 * 2 ^ 4" "0 \<le> q"
    unfolding q_def by (rule mult_mono) (use assms(1,2) p in simp_all)
  have e: "delay * second_ns * p = q * second_ns" by (simp add: q_def mult_ac)
  have "in_int64 (delay * second_ns)" "in_int64 p" "in_int64 (q * second_ns)"
    using assms(1,2) p q by (simp_all add: in_int64_def min_int64_def max_int64_def second_ns_def)
  then have "restart_backoff delay count = min (q * second_ns) (5 * minute_ns)"
    by (simp add: restart_backoff_def wrap64_id Let_def min_def e flip: p_def)
  then show ?thesis by (simp add: q_def p_def)
qed

theorem backoff_is_exponential_witness:
  "restart_backoff 10 3 = 80 * second_ns \<and> restart_backoff 10 4 = 160 * second_ns \<and>
   restart_backoff 40 4 = 300 * second_ns"
  using backoff_is_exponential [of 10 3] backoff_is_exponential [of 10 4] backoff_is_exponential [of 40 4]
  by (simp add: maxCrashCount_def duration_defs)

text \<open>
  Without that bound the product wraps: with the largest delay the protocol's int32
  field can carry, the fourth attempt computes a negative backoff, which the check against
  the last attempt never delays.
\<close>

theorem backoff_overflows: "restart_backoff (2 ^ 31 - 1) 3 < 0"
  by code_simp

end
