(* ===== verification/Go_Paths.thy ===== *)
theory Go_Paths
  imports Go_Strings
begin

text \<open>
  The functions of \<^verbatim>\<open>path/filepath\<close> the program uses, on Unix paths: \<open>fp_clean\<close>,
  \<open>fp_join\<close>, \<open>fp_abs\<close>, \<open>fp_dir\<close>, \<open>fp_base\<close>, \<open>fp_rel\<close>. A path is read as the list of its
  components; \<open>clean_step\<close> is the lexical treatment of one component. The lemmas say that
  a cleaned absolute path is the text of a list of proper names (\<open>proper_name\<close>), so that
  the components of two such paths can be compared instead of their characters.
\<close>

definition is_abs :: "string \<Rightarrow> bool" where
  "is_abs p \<longleftrightarrow> has_prefix p ''/''"

definition clean_step :: "bool \<Rightarrow> string \<Rightarrow> string list \<Rightarrow> string list" where
  "clean_step rooted c out =
     (if c = [] \<or> c = ''.'' then out
      else if c = ''..'' then
        (case out of
           [] \<Rightarrow> if rooted then [] else [c]
         | t # ts \<Rightarrow> if t = ''..'' then c # out else ts)
      else c # out)"

definition clean_comps :: "bool \<Rightarrow> string \<Rightarrow> string list" where
  "clean_comps rooted p = rev (fold (clean_step rooted) (split_on CHR ''/'' p) [])"

definition abs_text :: "string list \<Rightarrow> string" where
  "abs_text cs = CHR ''/'' # str_join ''/'' cs"

definition fp_clean :: "string \<Rightarrow> string" where
  "fp_clean p =
     (if is_abs p then abs_text (clean_comps True p)
      else case clean_comps False p of [] \<Rightarrow> ''.'' | cs \<Rightarrow> str_join ''/'' cs)"

fun fp_join :: "string list \<Rightarrow> string" where
  "fp_join [] = []"
| "fp_join (e # es) = (if e = [] then fp_join es else fp_clean (str_join ''/'' (e # es)))"

text \<open>\<^verbatim>\<open>filepath.Abs\<close> in a process whose working directory is \<open>cwd\<close>.\<close>

definition fp_abs :: "string \<Rightarrow> string \<Rightarrow> string" where
  "fp_abs cwd p = (if is_abs p then fp_clean p else fp_join [cwd, p])"

definition upto_last_slash :: "string \<Rightarrow> string" where
  "upto_last_slash p = (case last_index CHR ''/'' p of None \<Rightarrow> [] | Some i \<Rightarrow> take (Suc i) p)"

definition fp_dir :: "string \<Rightarrow> string" where
  "fp_dir p = fp_clean (upto_last_slash p)"

definition strip_slashes :: "string \<Rightarrow> string" where
  "strip_slashes p = rev (dropWhile (\<lambda>c. c = CHR ''/'') (rev p))"

definition fp_base :: "string \<Rightarrow> string" where
  "fp_base p =
     (if p = [] then ''.''
      else let s = strip_slashes p
           in if s = [] then ''/'' else last (split_on CHR ''/'' s))"

fun drop_common :: "string list \<Rightarrow> string list \<Rightarrow> string list \<times> string list" where
  "drop_common (a # as) (b # bs) = (if a = b then drop_common as bs else (a # as, b # bs))"
| "drop_common as bs = (as, bs)"

text \<open>\<^verbatim>\<open>filepath.Rel\<close>: None is its error.\<close>

definition fp_rel :: "string \<Rightarrow> string \<Rightarrow> string option" where
  "fp_rel base targ =
     (if is_abs base \<noteq> is_abs targ then None
      else let (b, t) = drop_common (clean_comps (is_abs base) base) (clean_comps (is_abs targ) targ)
           in if b \<noteq> [] \<and> hd b = ''..'' then None
              else case map (\<lambda>_. ''..'') b @ t of [] \<Rightarrow> Some ''.'' | cs \<Rightarrow> Some (str_join ''/'' cs))"

section \<open>Proper names\<close>

definition proper_name :: "string \<Rightarrow> bool" where
  "proper_name c \<longleftrightarrow> c \<noteq> [] \<and> c \<noteq> ''.'' \<and> c \<noteq> ''..'' \<and> CHR ''/'' \<notin> set c"

lemma split_on_append: "split_on c (a @ c # b) = split_on c a @ split_on c b"
proof (induction a)
  case Nil
  then show ?case by simp
next
  case (Cons x a)
  obtain p ps where "split_on c a = p # ps" by (cases "split_on c a") auto
  with Cons show ?case by simp
qed

lemma clean_step_rooted:
  assumes "\<forall>c \<in> set out. proper_name c" "CHR ''/'' \<notin> set c"
  shows "\<forall>d \<in> set (clean_step True c out). proper_name d"
proof (cases "c = [] \<or> c = ''.'' \<or> c = ''..''")
  case True
  then show ?thesis using assms(1) by (cases out) (auto simp: clean_step_def)
next
  case False
  then have "proper_name c" using assms(2) by (simp add: proper_name_def)
  then show ?thesis using False assms(1) by (simp add: clean_step_def)
qed

lemma fold_clean_rooted:
  assumes "\<forall>c \<in> set out. proper_name c" "\<forall>c \<in> set cs. CHR ''/'' \<notin> set c"
  shows "\<forall>d \<in> set (fold (clean_step True) cs out). proper_name d"
  using assms
proof (induction cs arbitrary: out)
  case (Cons c cs)
  then show ?case using clean_step_rooted by (metis fold_simps(2) list.set_intros)
qed simp

lemma clean_comps_rooted: "\<forall>c \<in> set (clean_comps True p). proper_name c"
  unfolding clean_comps_def set_rev
  by (rule fold_clean_rooted) (auto dest: split_on_no_sep_in)

lemma fold_clean_proper:
  "\<forall>c \<in> set cs. proper_name c \<Longrightarrow> fold (clean_step r) cs out = rev cs @ out"
  by (induction cs arbitrary: out) (auto simp: clean_step_def proper_name_def)

lemma split_on_join_proper:
  "\<forall>c \<in> set cs. proper_name c \<Longrightarrow> cs \<noteq> [] \<Longrightarrow> split_on CHR ''/'' (str_join ''/'' cs) = cs"
  by (rule split_on_str_join) (auto simp: proper_name_def)

lemma clean_step_Nil [simp]: "clean_step r [] out = out"
  by (simp add: clean_step_def)

lemma clean_comps_Nil [simp]: "clean_comps r [] = []"
  by (simp add: clean_comps_def)

lemma clean_comps_slash [simp]: "clean_comps r (CHR ''/'' # p) = clean_comps r p"
  by (simp add: clean_comps_def)

lemma clean_comps_join:
  "\<forall>c \<in> set cs. proper_name c \<Longrightarrow> clean_comps r (str_join ''/'' cs) = cs"
  by (cases "cs = []") (simp_all add: clean_comps_def split_on_join_proper fold_clean_proper)

lemma clean_comps_abs_text [simp]:
  "\<forall>c \<in> set cs. proper_name c \<Longrightarrow> clean_comps r (abs_text cs) = cs"
  by (simp add: abs_text_def clean_comps_join)

lemma abs_text_is_abs [simp]: "is_abs (abs_text cs)"
  by (simp add: abs_text_def is_abs_def has_prefix_def)

lemma fp_clean_abs: "is_abs p \<Longrightarrow> fp_clean p = abs_text (clean_comps True p)"
  by (simp add: fp_clean_def)

lemma fp_clean_abs_text: "\<forall>c \<in> set cs. proper_name c \<Longrightarrow> fp_clean (abs_text cs) = abs_text cs"
  by (simp add: fp_clean_abs)

lemma fp_clean_idem_abs: "is_abs p \<Longrightarrow> fp_clean (fp_clean p) = fp_clean p"
  by (simp add: fp_clean_abs clean_comps_rooted)

lemma is_abs_fp_clean: "is_abs p \<Longrightarrow> is_abs (fp_clean p)"
  by (simp add: fp_clean_abs)

lemma is_abs_append: "is_abs p \<Longrightarrow> is_abs (p @ q)"
  by (auto simp: is_abs_def has_prefix_iff)

lemma is_abs_ne: "is_abs p \<Longrightarrow> p \<noteq> []"
  by (auto simp: is_abs_def has_prefix_iff)

lemma fold_clean_append:
  "clean_comps r (a @ CHR ''/'' # b) = rev (fold (clean_step r) (split_on CHR ''/'' b) (rev (clean_comps r a)))"
  by (simp add: clean_comps_def split_on_append)

lemma abs_text_inject:
  assumes "\<forall>c \<in> set a. proper_name c" "\<forall>c \<in> set b. proper_name c"
  shows "abs_text a = abs_text b \<longleftrightarrow> a = b"
  using assms by (metis clean_comps_abs_text)

section \<open>Joining a name to a directory\<close>

lemma fp_join_two:
  "is_abs a \<Longrightarrow> fp_join [a, b] = abs_text (clean_comps True (a @ CHR ''/'' # b))"
  by (simp add: is_abs_ne fp_clean_abs is_abs_append)

lemma fp_join_is_abs: "is_abs a \<Longrightarrow> is_abs (fp_join [a, b])"
  by (simp add: fp_join_two del: fp_join.simps)

lemma fp_abs_abs_text:
  "is_abs cwd \<Longrightarrow> fp_abs cwd p = abs_text (clean_comps True (if is_abs p then p else cwd @ CHR ''/'' # p))"
  by (simp add: fp_abs_def fp_clean_abs fp_join_two del: fp_join.simps)

lemma fp_join_name:
  assumes "\<forall>c \<in> set cs. proper_name c" "proper_name n"
  shows "fp_join [abs_text cs, n] = abs_text (cs @ [n])"
proof -
  have s: "split_on CHR ''/'' n = [n]" using assms(2) by (simp add: split_on_nosep proper_name_def)
  have "clean_step True n out = n # out" for out
    using assms(2) by (simp add: clean_step_def proper_name_def)
  then show ?thesis
    by (simp add: fp_join_two fold_clean_append assms(1) s del: fp_join.simps)
qed

text \<open>What the lexical cleaning leaves when the relative part never climbs.\<close>

lemma fold_clean_depth:
  assumes "fold (clean_step False) cs [] = out" "''..'' \<notin> set out"
  shows "fold (clean_step True) cs base = out @ base"
  using assms
proof (induction cs arbitrary: out rule: rev_induct)
  case Nil
  then show ?case by simp
next
  case (snoc c cs)
  define mid where "mid = fold (clean_step False) cs []"
  have out: "out = clean_step False c mid" using snoc.prems(1) by (simp add: mid_def)
  have mid: "''..'' \<notin> set mid"
    using snoc.prems(2) by (auto simp: out clean_step_def split: if_splits list.splits)
  have "fold (clean_step True) cs base = mid @ base"
    by (rule snoc.IH) (simp_all add: mid_def [symmetric] mid)
  then have "fold (clean_step True) (cs @ [c]) base = clean_step True c (mid @ base)" by simp
  also have "\<dots> = out @ base"
    unfolding out using snoc.prems(2) [unfolded out] mid by (cases mid) (auto simp: clean_step_def)
  finally show ?case .
qed

lemma clean_comps_under:
  assumes "''..'' \<notin> set (clean_comps False b)"
  shows "clean_comps True (a @ CHR ''/'' # b) = clean_comps True a @ clean_comps False b"
  using fold_clean_depth [OF refl, of "split_on CHR ''/'' b" "rev (clean_comps True a)"] assms
  by (simp add: fold_clean_append) (simp add: clean_comps_def)

section \<open>Lexical containment\<close>

text \<open>
  \<open>below d p\<close>: the path \<open>p\<close> is \<open>d\<close> or lies under it, compared name by name. For cleaned
  absolute paths that is what the text comparison with a trailing separator decides; the
  comparison without one also accepts siblings whose name starts with the directory's.
\<close>

definition below :: "string list \<Rightarrow> string list \<Rightarrow> bool" where
  "below d p \<longleftrightarrow> take (length d) p = d"

lemma below_iff: "below d p \<longleftrightarrow> (\<exists>r. p = d @ r)"
  unfolding below_def by (metis append_eq_conv_conj append_take_drop_id)

lemma below_refl [simp]: "below d d"
  by (simp add: below_def)

lemma below_append [simp]: "below d (d @ r)"
  by (simp add: below_def)

lemma below_Nil [simp]: "below [] p"
  by (simp add: below_def)

lemma below_trans: "below a b \<Longrightarrow> below b c \<Longrightarrow> below a c"
  by (auto simp: below_iff)

lemma below_antisym: "below a b \<Longrightarrow> below b a \<Longrightarrow> a = b"
  by (auto simp: below_iff)

lemma below_length: "below a b \<Longrightarrow> length a \<le> length b"
  by (auto simp: below_iff)

lemma below_snoc: "below d (p @ [c]) \<longleftrightarrow> d = p @ [c] \<or> below d p"
  unfolding below_iff
  by (metis append.assoc append_Nil2 butlast_append butlast_snoc)

lemma below_total: "below a p \<Longrightarrow> below b p \<Longrightarrow> below a b \<or> below b a"
  unfolding below_iff by (metis append_eq_append_conv2)

lemma str_join_append:
  "a \<noteq> [] \<Longrightarrow> b \<noteq> [] \<Longrightarrow> str_join s (a @ b) = str_join s a @ s @ str_join s b"
proof (induction a rule: induct_list012)
  case (2 x)
  then show ?case by (cases b) auto
qed auto

lemma abs_text_append:
  "a \<noteq> [] \<Longrightarrow> b \<noteq> [] \<Longrightarrow> abs_text (a @ b) = abs_text a @ CHR ''/'' # str_join ''/'' b"
  by (simp add: abs_text_def str_join_append)

lemma text_below:
  assumes "\<forall>c \<in> set d. proper_name c" "\<forall>c \<in> set p. proper_name c" "d \<noteq> []"
  shows "(has_prefix (abs_text p) (abs_text d @ ''/'') \<or> abs_text p = abs_text d) \<longleftrightarrow> below d p"
    (is "?l \<longleftrightarrow> ?r")
proof
  assume ?r
  then obtain r where r: "p = d @ r" by (auto simp: below_iff)
  then show ?l using assms(3) by (cases "r = []") (auto simp: abs_text_append has_prefix_iff)
next
  assume l: ?l
  show ?r
  proof (cases "abs_text p = abs_text d")
    case True
    then show ?thesis using abs_text_inject assms by force
  next
    case False
    then obtain t where "abs_text p = abs_text d @ CHR ''/'' # t"
      using l by (auto simp: has_prefix_iff)
    then have "split_on CHR ''/'' (abs_text p) = split_on CHR ''/'' (abs_text d) @ split_on CHR ''/'' t"
      by (simp add: split_on_append)
    moreover have "p \<noteq> []"
      using \<open>abs_text p = _\<close> assms(3) by (cases d; cases "tl d") (auto simp: abs_text_def)
    ultimately have "p = d @ split_on CHR ''/'' t"
      using assms by (simp add: abs_text_def split_on_join_proper)
    then show ?thesis by (simp add: below_iff)
  qed
qed

lemma proper_ne: "proper_name c \<Longrightarrow> c \<noteq> []"
  by (simp add: proper_name_def)

lemma str_join_proper_ne: "\<forall>c \<in> set d. proper_name c \<Longrightarrow> d \<noteq> [] \<Longrightarrow> str_join s d \<noteq> []"
  by (induction d rule: induct_list012) (auto dest: proper_ne)

lemma slash_split:
  "\<exists>u v. t = u @ v \<and> CHR ''/'' \<notin> set u \<and> (v = [] \<or> (\<exists>w. v = CHR ''/'' # w))"
proof (cases "CHR ''/'' \<in> set t")
  case True
  then obtain a b where "t = a @ CHR ''/'' # b" "CHR ''/'' \<notin> set a" by (meson split_list_first)
  then show ?thesis by blast
next
  case False
  then show ?thesis by (intro exI [of _ t] exI [of _ "[]"]) simp
qed

text \<open>The comparison without a separator: the last name of the directory may be extended.\<close>

lemma text_prefix:
  assumes d: "\<forall>c \<in> set d. proper_name c" and p: "\<forall>c \<in> set p. proper_name c" and ne: "d \<noteq> []"
    and l: "has_prefix (abs_text p) (abs_text d)"
  shows "below d p \<or> (\<exists>ext r. ext \<noteq> [] \<and> p = butlast d @ (last d @ ext) # r)"
proof -
  obtain t where t: "abs_text p = abs_text d @ t" using l by (auto simp: has_prefix_iff)
  obtain u v where tv: "t = u @ v" "CHR ''/'' \<notin> set u" "v = [] \<or> (\<exists>w. v = CHR ''/'' # w)"
    using slash_split by blast
  define d' where "d' = butlast d @ [last d @ u]"
  have "p = [] \<Longrightarrow> str_join ''/'' d = []" using t by (simp add: abs_text_def)
  then have nes: "p \<noteq> []" using str_join_proper_ne [OF d ne] by blast
  have noslash: "\<forall>c \<in> set d'. CHR ''/'' \<notin> set c"
  proof -
    have "last d \<in> set d" using ne by simp
    then have "CHR ''/'' \<notin> set (last d @ u)" using d tv(2) by (simp add: proper_name_def)
    moreover have "\<forall>c \<in> set (butlast d). CHR ''/'' \<notin> set c"
      using d by (meson in_set_butlastD proper_name_def)
    ultimately show ?thesis by (simp add: d'_def)
  qed
  have ext: "str_join ''/'' d @ u = str_join ''/'' d'"
  proof (cases "butlast d = []")
    case True
    then show ?thesis using ne by (cases d) (auto simp: d'_def split: if_splits)
  next
    case False
    then have "str_join ''/'' (butlast d @ [last d]) = str_join ''/'' (butlast d) @ ''/'' @ last d"
      by (subst str_join_append) auto
    then show ?thesis using False ne by (simp add: d'_def str_join_append)
  qed
  have sd': "split_on CHR ''/'' (str_join ''/'' d') = d'"
    by (rule split_on_str_join) (use noslash in \<open>auto simp: d'_def\<close>)
  have e: "str_join ''/'' p = str_join ''/'' d' @ v"
    using t tv(1) by (simp add: abs_text_def flip: ext)
  have "split_on CHR ''/'' (str_join ''/'' p) = p" using p nes by (rule split_on_join_proper)
  moreover have "\<exists>r. split_on CHR ''/'' (str_join ''/'' d' @ v) = d' @ r"
    using tv(3) sd' by (auto simp: split_on_append)
  ultimately obtain r where r: "p = d' @ r" using e by auto
  show ?thesis
  proof (cases "u = []")
    case True
    then have "p = d @ r" using r ne by (simp add: d'_def)
    then show ?thesis by simp
  next
    case False
    then show ?thesis using r by (auto simp: d'_def)
  qed
qed

lemma last_index_None: "c \<notin> set s \<Longrightarrow> last_index c s = None"
  by (induction s) auto

lemma last_index_append: "c \<notin> set b \<Longrightarrow> last_index c (a @ c # b) = Some (length a)"
  by (induction a) (auto simp: last_index_None)

lemma upto_last_slash_append:
  "CHR ''/'' \<notin> set b \<Longrightarrow> upto_last_slash (a @ CHR ''/'' # b) = a @ ''/''"
  by (simp add: upto_last_slash_def last_index_append)

lemma clean_comps_trailing [simp]: "clean_comps r (a @ ''/'') = clean_comps r a"
  using fold_clean_append [of r a "[]"] by simp

lemma fp_dir_abs_text:
  assumes "\<forall>c \<in> set (cs @ [n]). proper_name c"
  shows "fp_dir (abs_text (cs @ [n])) = abs_text cs"
proof -
  have n: "CHR ''/'' \<notin> set n" using assms by (simp add: proper_name_def)
  have e: "abs_text (cs @ [n]) = (if cs = [] then [] else abs_text cs) @ CHR ''/'' # n"
    by (cases "cs = []") (simp_all add: abs_text_append, simp add: abs_text_def)
  show ?thesis
  proof (cases "cs = []")
    case True
    then have "abs_text (cs @ [n]) = [] @ CHR ''/'' # n" by (simp add: abs_text_def)
    then have "fp_dir (abs_text (cs @ [n])) = fp_clean ''/''"
      unfolding fp_dir_def by (metis append_Nil n upto_last_slash_append)
    also have "\<dots> = abs_text cs" using True
      by (simp add: fp_clean_def is_abs_def has_prefix_def)
    finally show ?thesis .
  next
    case False
    have "fp_dir (abs_text (cs @ [n])) = fp_clean (abs_text cs @ ''/'')"
      using False e n by (simp add: fp_dir_def upto_last_slash_append)
    also have "\<dots> = abs_text cs"
      using assms by (simp add: fp_clean_abs is_abs_append)
    finally show ?thesis .
  qed
qed

lemma fp_base_abs_text:
  assumes "\<forall>c \<in> set (cs @ [n]). proper_name c"
  shows "fp_base (abs_text (cs @ [n])) = n"
proof -
  have pn: "proper_name n" using assms by simp
  obtain m k where n: "n = m @ [k]" "k \<noteq> CHR ''/''"
    using pn by (cases n rule: rev_cases) (auto simp: proper_name_def)
  have e: "abs_text (cs @ [n]) = (if cs = [] then [] else abs_text cs) @ CHR ''/'' # n"
    by (cases "cs = []") (simp_all add: abs_text_append, simp add: abs_text_def)
  have s: "strip_slashes (abs_text (cs @ [n])) = abs_text (cs @ [n])"
    unfolding e using n by (simp add: strip_slashes_def)
  have "last (split_on CHR ''/'' (abs_text (cs @ [n]))) = n"
    unfolding e using pn by (simp add: split_on_append split_on_nosep proper_name_def)
  then show ?thesis unfolding fp_base_def Let_def s by (simp add: e)
qed

section \<open>Relative paths\<close>

text \<open>A cleaned relative path climbs first and then descends.\<close>

lemma clean_step_shape:
  assumes "out = rev ps @ replicate k ''..''" "\<forall>c \<in> set ps. proper_name c" "CHR ''/'' \<notin> set c"
  shows "\<exists>ps' k'. clean_step False c out = rev ps' @ replicate k' ''..'' \<and> (\<forall>d \<in> set ps'. proper_name d)"
proof -
  consider "c = [] \<or> c = ''.''" | "c = ''..''" "ps = []" | "c = ''..''" "ps \<noteq> []" | "proper_name c"
    using assms(3) by (auto simp: proper_name_def)
  then show ?thesis
  proof cases
    case 1
    then show ?thesis using assms by (auto simp: clean_step_def)
  next
    case 2
    then have "clean_step False c out = rev [] @ replicate (Suc k) ''..''"
      using assms(1) by (cases k) (auto simp: clean_step_def)
    then show ?thesis by (intro exI [of _ "[]"] exI [of _ "Suc k"]) simp
  next
    case 3
    then obtain qs q where ps: "ps = qs @ [q]" by (cases ps rule: rev_cases) auto
    then have "proper_name q" using assms(2) by simp
    then have "q \<noteq> ''..''" by (simp add: proper_name_def)
    then have "clean_step False c out = rev qs @ replicate k ''..''"
      using 3 assms(1) ps by (simp add: clean_step_def)
    then show ?thesis using assms(2) ps by auto
  next
    case 4
    then have "clean_step False c out = rev (ps @ [c]) @ replicate k ''..''"
      using assms(1) by (simp add: clean_step_def proper_name_def)
    then show ?thesis using assms(2) 4 by (intro exI [of _ "ps @ [c]"] exI [of _ k]) simp
  qed
qed

lemma fold_clean_shape:
  assumes "\<forall>c \<in> set cs. CHR ''/'' \<notin> set c" "out = rev ps @ replicate k ''..''" "\<forall>c \<in> set ps. proper_name c"
  shows "\<exists>ps' k'. fold (clean_step False) cs out = rev ps' @ replicate k' ''..'' \<and> (\<forall>d \<in> set ps'. proper_name d)"
  using assms
proof (induction cs arbitrary: out ps k)
  case Nil
  then show ?case by auto
next
  case (Cons c cs)
  obtain ps' k' where "clean_step False c out = rev ps' @ replicate k' ''..''" "\<forall>d \<in> set ps'. proper_name d"
    using clean_step_shape [OF Cons.prems(2,3), of c] Cons.prems(1) by auto
  then show ?case using Cons.IH Cons.prems(1) by auto
qed

lemma clean_comps_shape:
  "\<exists>k ps. clean_comps False p = replicate k ''..'' @ ps \<and> (\<forall>d \<in> set ps. proper_name d)"
proof -
  obtain ps k where "fold (clean_step False) (split_on CHR ''/'' p) [] = rev ps @ replicate k ''..''"
    "\<forall>d \<in> set ps. proper_name d"
    using fold_clean_shape [of "split_on CHR ''/'' p" "[]" "[]" 0] by (auto dest: split_on_no_sep_in)
  then show ?thesis by (auto simp: clean_comps_def)
qed

lemma fold_clean_climb: "fold (clean_step False) (replicate k ''..'') (replicate j ''..'') = replicate (k + j) ''..''"
proof (induction k arbitrary: j)
  case (Suc k)
  have "clean_step False ''..'' (replicate j ''..'') = replicate (Suc j) ''..''"
    by (cases j) (simp_all add: clean_step_def)
  then show ?case using Suc [of "Suc j"] by simp
qed simp

lemma no_slash_comps: "c \<in> set (clean_comps False p) \<Longrightarrow> CHR ''/'' \<notin> set c"
proof -
  assume "c \<in> set (clean_comps False p)"
  moreover obtain k ps where "clean_comps False p = replicate k ''..'' @ ps" "\<forall>d \<in> set ps. proper_name d"
    using clean_comps_shape by blast
  ultimately have "c = ''..'' \<or> proper_name c" by auto
  then show ?thesis by (auto simp: proper_name_def)
qed

lemma split_on_clean_comps:
  "clean_comps False p \<noteq> [] \<Longrightarrow>
    split_on CHR ''/'' (str_join ''/'' (clean_comps False p)) = clean_comps False p"
  by (rule split_on_str_join) (auto dest: no_slash_comps)

lemma clean_comps_idem: "clean_comps False (str_join ''/'' (clean_comps False p)) = clean_comps False p"
proof (cases "clean_comps False p = []")
  case False
  obtain k ps where s: "clean_comps False p = replicate k ''..'' @ ps" "\<forall>d \<in> set ps. proper_name d"
    using clean_comps_shape by blast
  have "fold (clean_step False) (replicate k ''..'' @ ps) [] = rev ps @ replicate k ''..''"
    using fold_clean_climb [of k 0] fold_clean_proper [OF s(2)] by simp
  then have "rev (fold (clean_step False) (clean_comps False p) []) = clean_comps False p"
    unfolding s(1) by simp
  then show ?thesis
    unfolding clean_comps_def [of False "str_join ''/'' (clean_comps False p)"] split_on_clean_comps [OF False] .
qed simp

definition rel_text :: "string list \<Rightarrow> string" where
  "rel_text cs = (if cs = [] then ''.'' else str_join ''/'' cs)"

lemma fp_clean_rel: "\<not> is_abs p \<Longrightarrow> fp_clean p = rel_text (clean_comps False p)"
  by (simp add: fp_clean_def rel_text_def split: list.splits)

lemma clean_comps_rel_text: "clean_comps False (rel_text (clean_comps False p)) = clean_comps False p"
proof (cases "clean_comps False p = []")
  case True
  then show ?thesis by (simp add: rel_text_def) (simp add: clean_comps_def clean_step_def)
qed (simp add: rel_text_def clean_comps_idem)

lemma str_join_not_abs:
  assumes "cs \<noteq> []" "\<forall>c \<in> set cs. c \<noteq> [] \<and> CHR ''/'' \<notin> set c"
  shows "\<not> is_abs (str_join ''/'' cs)"
proof -
  obtain c r where "cs = c # r" using assms(1) by (cases cs) auto
  moreover obtain x y where "c = x # y" "x \<noteq> CHR ''/''"
    using assms(2) calculation by (cases c) auto
  ultimately show ?thesis by (cases r) (auto simp: is_abs_def has_prefix_def)
qed

lemma clean_comps_ne: "c \<in> set (clean_comps False p) \<Longrightarrow> c \<noteq> []"
proof -
  assume "c \<in> set (clean_comps False p)"
  moreover obtain k ps where "clean_comps False p = replicate k ''..'' @ ps" "\<forall>d \<in> set ps. proper_name d"
    using clean_comps_shape by blast
  ultimately have "c = ''..'' \<or> proper_name c" by auto
  then show ?thesis by (auto simp: proper_name_def)
qed

lemma rel_text_not_abs: "\<not> is_abs (rel_text (clean_comps False p))"
  using str_join_not_abs [of "clean_comps False p"] clean_comps_ne no_slash_comps
  by (auto simp: rel_text_def is_abs_def has_prefix_def)

lemma fp_clean_idem: "fp_clean (fp_clean p) = fp_clean p"
proof (cases "is_abs p")
  case True
  then show ?thesis by (rule fp_clean_idem_abs)
next
  case False
  then show ?thesis by (simp add: fp_clean_rel rel_text_not_abs clean_comps_rel_text)
qed

lemma fp_join_clean: "t \<noteq> [] \<Longrightarrow> fp_join [t, n] = fp_clean (t @ CHR ''/'' # n)"
  by simp

declare fp_join.simps [simp del]

end
