(* ===== verification/File_System.thy ===== *)
theory File_System
  imports Go_Paths "HOL-Library.List_Lexorder" "HOL-Library.Char_ord"
begin

text \<open>
  The operating system's files as the agent and the master use them: a Go map from the
  components of an absolute path to a directory or a file, with the calls of package
  \<^verbatim>\<open>os\<close>. There are no symbolic links; permission bits are kept, not enforced; the umask
  is 0. A call that fails leaves the files as they were. The frame lemmas bound what each
  call can change, which the interface \<open>confined\<close> at the end composes.
\<close>

type_synonym path = "string list"

datatype fnode = DirNode (node_mode: nat) | FileNode (node_mode: nat) (node_data: bytes)

type_synonym fs = "(path, fnode) gomap"

datatype os_error = ENOENT | ENOTDIR | EISDIR | EEXIST | ENOTEMPTY | EINVAL

definition is_dir_node :: "fnode \<Rightarrow> bool" where
  "is_dir_node n \<longleftrightarrow> (case n of DirNode m \<Rightarrow> True | FileNode m b \<Rightarrow> False)"

definition fs_get :: "fs \<Rightarrow> path \<Rightarrow> fnode option" where
  "fs_get f p = (if p = [] then Some (DirNode 493) else map_get f p)"

definition fs_is_dir :: "fs \<Rightarrow> path \<Rightarrow> bool" where
  "fs_is_dir f p \<longleftrightarrow> (case fs_get f p of Some (DirNode m) \<Rightarrow> True | _ \<Rightarrow> False)"

definition os_stat :: "fs \<Rightarrow> path \<Rightarrow> os_error + fnode" where
  "os_stat f p = (case fs_get f p of None \<Rightarrow> Inl ENOENT | Some n \<Rightarrow> Inr n)"

definition os_read_file :: "fs \<Rightarrow> path \<Rightarrow> os_error + bytes" where
  "os_read_file f p =
     (case fs_get f p of
        None \<Rightarrow> Inl ENOENT
      | Some (DirNode m) \<Rightarrow> Inl EISDIR
      | Some (FileNode m b) \<Rightarrow> Inr b)"

text \<open>\<^verbatim>\<open>os.WriteFile\<close>, and \<^verbatim>\<open>os.OpenFile\<close> with create and truncate followed by the writes: the
  mode only counts for a new file.\<close>

definition os_write_file :: "path \<Rightarrow> bytes \<Rightarrow> nat \<Rightarrow> fs \<Rightarrow> os_error + fs" where
  "os_write_file p b mode f =
     (case fs_get f p of
        Some (DirNode m) \<Rightarrow> Inl EISDIR
      | Some (FileNode m b') \<Rightarrow> Inr (map_put p (FileNode m b) f)
      | None \<Rightarrow> if fs_is_dir f (butlast p) then Inr (map_put p (FileNode mode b) f) else Inl ENOENT)"

fun mkdir_from :: "nat \<Rightarrow> path \<Rightarrow> path \<Rightarrow> fs \<Rightarrow> os_error + fs" where
  "mkdir_from mode pre [] f = Inr f"
| "mkdir_from mode pre (c # cs) f =
     (case map_get f (pre @ [c]) of
        None \<Rightarrow> mkdir_from mode (pre @ [c]) cs (map_put (pre @ [c]) (DirNode mode) f)
      | Some (DirNode m) \<Rightarrow> mkdir_from mode (pre @ [c]) cs f
      | Some (FileNode m b) \<Rightarrow> Inl ENOTDIR)"

definition os_mkdir_all :: "path \<Rightarrow> nat \<Rightarrow> fs \<Rightarrow> os_error + fs" where
  "os_mkdir_all p mode f = mkdir_from mode [] p f"

definition fs_children :: "fs \<Rightarrow> path \<Rightarrow> string list" where
  "fs_children f p =
     map last (filter (\<lambda>q. q \<noteq> [] \<and> butlast q = p) (map fst f))"

definition os_read_dir :: "fs \<Rightarrow> path \<Rightarrow> os_error + string list" where
  "os_read_dir f p =
     (case fs_get f p of
        None \<Rightarrow> Inl ENOENT
      | Some (FileNode m b) \<Rightarrow> Inl ENOTDIR
      | Some (DirNode m) \<Rightarrow> Inr (sort (fs_children f p)))"

definition os_remove :: "path \<Rightarrow> fs \<Rightarrow> os_error + fs" where
  "os_remove p f =
     (case fs_get f p of
        None \<Rightarrow> Inl ENOENT
      | Some (FileNode m b) \<Rightarrow> Inr (map_del p f)
      | Some (DirNode m) \<Rightarrow>
          if p = [] then Inl EINVAL
          else if fs_children f p = [] then Inr (map_del p f) else Inl ENOTEMPTY)"

definition os_remove_all :: "path \<Rightarrow> fs \<Rightarrow> os_error + fs" where
  "os_remove_all p f = Inr (filter (\<lambda>(q, n). \<not> below p q) f)"

definition move_key :: "path \<Rightarrow> path \<Rightarrow> path \<Rightarrow> path" where
  "move_key old new q = (if below old q then new @ drop (length old) q else q)"

definition os_rename :: "path \<Rightarrow> path \<Rightarrow> fs \<Rightarrow> os_error + fs" where
  "os_rename old new f =
     (case fs_get f old of
        None \<Rightarrow> Inl ENOENT
      | Some n \<Rightarrow>
          if fs_is_dir f new then Inl EEXIST
          else if old = new then Inr f
          else if \<not> fs_is_dir f (butlast new) then Inl ENOENT
          else if is_dir_node n \<and> fs_get f new \<noteq> None then Inl ENOTDIR
          else if below old new then Inl EINVAL
          else Inr (map (\<lambda>(q, m). (move_key old new q, m)) (map_del new f)))"

text \<open>A file system is well-formed when every entry is the only one of its path, has a
  proper name, and stands in a directory.\<close>

definition fs_ok :: "fs \<Rightarrow> bool" where
  "fs_ok f \<longleftrightarrow> map_ok f \<and>
     list_all (\<lambda>(p, n). p \<noteq> [] \<and> list_all proper_name p \<and> fs_is_dir f (butlast p)) f"

section \<open>Lemmas\<close>

lemma fs_get_put: "p \<noteq> [] \<Longrightarrow> fs_get (map_put p n f) q = (if q = p then Some n else fs_get f q)"
  by (simp add: fs_get_def go_map_simps)

lemma fs_get_del: "p \<noteq> [] \<Longrightarrow> fs_get (map_del p f) q = (if q = p then None else fs_get f q)"
  by (simp add: fs_get_def go_map_simps)

lemma fs_get_Nil [simp]: "fs_get f [] = Some (DirNode 493)"
  by (simp add: fs_get_def)

lemma fs_is_dir_Nil [simp]: "fs_is_dir f []"
  by (simp add: fs_is_dir_def)

lemma fs_is_dir_put: "p \<noteq> [] \<Longrightarrow> fs_is_dir (map_put p n f) q = (if q = p then is_dir_node n else fs_is_dir f q)"
  by (auto simp: fs_is_dir_def fs_get_put is_dir_node_def split: fnode.splits)

lemma fs_ok_parent: "fs_ok f \<Longrightarrow> fs_get f p = Some n \<Longrightarrow> fs_is_dir f (butlast p)"
  by (cases "p = []") (auto simp: fs_ok_def fs_get_def list_all_iff dest!: map_get_SomeD)

lemma fs_ok_proper: "fs_ok f \<Longrightarrow> fs_get f p = Some n \<Longrightarrow> \<forall>c \<in> set p. proper_name c"
  by (cases "p = []") (auto simp: fs_ok_def fs_get_def list_all_iff dest!: map_get_SomeD)

lemma fs_ok_iff:
  "fs_ok f \<longleftrightarrow> map_ok f \<and> (\<forall>p n. map_get f p = Some n \<longrightarrow>
     p \<noteq> [] \<and> (\<forall>c \<in> set p. proper_name c) \<and> fs_is_dir f (butlast p))"
  unfolding fs_ok_def list_all_iff using map_get_in_iff by fastforce

lemma fs_ok_put:
  assumes "fs_ok f" "p \<noteq> []" "\<forall>c \<in> set p. proper_name c" "fs_is_dir f (butlast p)"
    and "fs_is_dir f p \<Longrightarrow> is_dir_node n"
  shows "fs_ok (map_put p n f)"
proof -
  have "fs_is_dir (map_put p n f) (butlast q)" if "q = p \<or> map_get f q = Some m" for q m
    using that assms by (auto simp: fs_is_dir_put fs_ok_iff split: if_splits)
  then show ?thesis using assms by (auto simp: fs_ok_iff go_map_simps)
qed

lemma os_write_file_Inr:
  assumes "os_write_file p b m f = Inr f'"
  shows "p \<noteq> [] \<and> \<not> fs_is_dir f p \<and> (\<exists>m'. f' = map_put p (FileNode m' b) f) \<and>
    (fs_get f p \<noteq> None \<or> fs_is_dir f (butlast p))"
proof (cases "fs_get f p")
  case None
  then show ?thesis using assms
    by (auto simp: os_write_file_def fs_is_dir_def fs_get_def split: if_splits)
next
  case (Some n)
  then show ?thesis using assms by (cases n) (auto simp: os_write_file_def fs_is_dir_def)
qed

lemma os_write_file_ok:
  assumes "fs_ok f" "\<forall>c \<in> set p. proper_name c" "os_write_file p b m f = Inr f'"
  shows "fs_ok f'"
proof -
  obtain n where f': "f' = map_put p n f" "\<not> fs_is_dir f p" "fs_is_dir f (butlast p)" "p \<noteq> []"
    using os_write_file_Inr [OF assms(3)] fs_ok_parent [OF assms(1)] by blast
  then show ?thesis using fs_ok_put [OF assms(1) \<open>p \<noteq> []\<close> assms(2)] by blast
qed

lemma os_write_file_get:
  assumes "os_write_file p b m f = Inr f'"
  shows "p \<noteq> []" "q \<noteq> p \<Longrightarrow> fs_get f' q = fs_get f q" "os_read_file f' p = Inr b"
  using os_write_file_Inr [OF assms] by (auto simp: fs_get_put os_read_file_def)

lemma mkdir_from_spec:
  assumes "mkdir_from mode pre cs f = Inr f'" "fs_is_dir f pre"
  shows "fs_is_dir f' (pre @ cs) \<and>
    (\<forall>q. fs_get f' q = fs_get f q \<or>
      (fs_get f q = None \<and> fs_get f' q = Some (DirNode mode) \<and> below q (pre @ cs) \<and> pre \<noteq> q \<and> below pre q))"
  using assms
proof (induction mode pre cs f rule: mkdir_from.induct)
  case (1 mode pre f)
  then show ?case by simp
next
  case (2 mode pre c cs f)
  show ?case
  proof (cases "map_get f (pre @ [c])")
    case None
    let ?f = "map_put (pre @ [c]) (DirNode mode) f"
    have d: "fs_is_dir ?f (pre @ [c])" by (simp add: fs_is_dir_put is_dir_node_def)
    have r: "mkdir_from mode (pre @ [c]) cs ?f = Inr f'" using 2(3) None by simp
    note ih = 2(1) [OF None r d]
    show ?thesis
    proof (intro conjI allI)
      show "fs_is_dir f' (pre @ c # cs)" using ih by simp
      fix q
      show "fs_get f' q = fs_get f q \<or>
        (fs_get f q = None \<and> fs_get f' q = Some (DirNode mode) \<and> below q (pre @ c # cs) \<and> pre \<noteq> q \<and> below pre q)"
      proof (cases "q = pre @ [c]")
        case True
        have "fs_get ?f q = Some (DirNode mode)" by (simp add: True fs_get_put)
        then have "fs_get f' q = Some (DirNode mode)" using ih by (metis True below_refl)
        moreover have "fs_get f q = None" using None True by (simp add: fs_get_def)
        ultimately show ?thesis using True by (simp add: below_def)
      next
        case False
        then have e: "fs_get ?f q = fs_get f q" by (simp add: fs_get_put)
        from ih have "fs_get f' q = fs_get ?f q \<or>
          (fs_get ?f q = None \<and> fs_get f' q = Some (DirNode mode) \<and> below q (pre @ c # cs) \<and> below (pre @ [c]) q)"
          by fastforce
        then show ?thesis unfolding e by (auto simp: below_iff)
      qed
    qed
  next
    case (Some n)
    show ?thesis
    proof (cases n)
      case (DirNode m)
      then have "fs_is_dir f (pre @ [c])" using Some by (simp add: fs_is_dir_def fs_get_def)
      then have "fs_is_dir f' ((pre @ [c]) @ cs) \<and>
        (\<forall>q. fs_get f' q = fs_get f q \<or> (fs_get f q = None \<and> fs_get f' q = Some (DirNode mode) \<and>
           below q ((pre @ [c]) @ cs) \<and> pre @ [c] \<noteq> q \<and> below (pre @ [c]) q))"
        using 2(2) [OF Some DirNode] 2(3) Some DirNode by simp
      then show ?thesis by (simp add: below_iff) (metis append_Cons append_self_conv list.discI)
    next
      case (FileNode m b)
      then show ?thesis using 2(3) Some by simp
    qed
  qed
qed

lemma os_mkdir_all_spec:
  assumes "os_mkdir_all p mode f = Inr f'"
  shows "fs_is_dir f' p"
    and "fs_get f' q = fs_get f q \<or>
      (fs_get f q = None \<and> fs_get f' q = Some (DirNode mode) \<and> below q p)"
    and "fs_get f q = Some n \<Longrightarrow> fs_get f' q = Some n"
proof -
  have m: "mkdir_from mode [] p f = Inr f'" using assms by (simp add: os_mkdir_all_def)
  note spec = mkdir_from_spec [OF m fs_is_dir_Nil, simplified]
  show "fs_is_dir f' p" using spec by blast
  have q: "fs_get f' q = fs_get f q \<or>
      (fs_get f q = None \<and> fs_get f' q = Some (DirNode mode) \<and> below q p)" for q
    using spec by blast
  then show "fs_get f' q = fs_get f q \<or>
      (fs_get f q = None \<and> fs_get f' q = Some (DirNode mode) \<and> below q p)" .
  show "fs_get f q = Some n \<Longrightarrow> fs_get f' q = Some n" using q [of q] by auto
qed

lemma mkdir_from_ok:
  assumes "mkdir_from mode pre cs f = Inr f'" "fs_ok f" "fs_is_dir f pre" "\<forall>c \<in> set (pre @ cs). proper_name c"
  shows "fs_ok f'"
  using assms
proof (induction mode pre cs f rule: mkdir_from.induct)
  case (2 mode pre c cs f)
  show ?case
  proof (cases "map_get f (pre @ [c])")
    case None
    have ok: "fs_ok (map_put (pre @ [c]) (DirNode mode) f)"
      by (rule fs_ok_put) (use 2 None in \<open>simp_all add: is_dir_node_def\<close>)
    show ?thesis
      by (rule 2(1) [OF None _ ok]) (use 2 None in \<open>simp_all add: fs_is_dir_put is_dir_node_def\<close>)
  next
    case (Some n)
    show ?thesis
    proof (cases n)
      case (DirNode m)
      then have "fs_is_dir f (pre @ [c])" using Some by (simp add: fs_is_dir_def fs_get_def)
      then show ?thesis using 2(2) [OF Some DirNode] 2 Some DirNode by simp
    next
      case (FileNode m b)
      then show ?thesis using 2 Some by simp
    qed
  qed
qed simp

lemma os_mkdir_all_ok:
  "os_mkdir_all p mode f = Inr f' \<Longrightarrow> fs_ok f \<Longrightarrow> \<forall>c \<in> set p. proper_name c \<Longrightarrow> fs_ok f'"
  using mkdir_from_ok [of mode "[]" p f f'] by (simp add: os_mkdir_all_def)

lemma fs_children_iff:
  assumes "fs_ok f"
  shows "c \<in> set (fs_children f p) \<longleftrightarrow> fs_get f (p @ [c]) \<noteq> None"
proof
  assume "c \<in> set (fs_children f p)"
  then obtain q where q: "q \<in> fst ` set f" "q \<noteq> []" "butlast q = p" "c = last q"
    by (auto simp: fs_children_def)
  then have "q = p @ [c]" by (metis append_butlast_last_id)
  then show "fs_get f (p @ [c]) \<noteq> None"
    using q(1) by (auto simp: fs_get_def map_get_None_iff)
next
  assume "fs_get f (p @ [c]) \<noteq> None"
  then have "p @ [c] \<in> fst ` set f" by (auto simp: fs_get_def map_get_None_iff)
  then show "c \<in> set (fs_children f p)"
    unfolding fs_children_def by (auto intro!: image_eqI [where x = "p @ [c]"])
qed

lemma os_remove_get:
  assumes "os_remove p f = Inr f'"
  shows "p \<noteq> []" "fs_get f' q = (if q = p then None else fs_get f q)"
  using assms
  by (auto simp: os_remove_def fs_get_def go_map_simps split: option.splits fnode.splits if_splits)

lemma map_get_filter_key: "map_get (filter (\<lambda>(q, n). P q) m) k = (if P k then map_get m k else None)"
  by (induction m) (auto simp: map_get_def)

lemma os_remove_all_get:
  assumes "os_remove_all p f = Inr f'" "p \<noteq> []"
  shows "fs_get f' q = (if below p q then None else fs_get f q)"
  using assms by (auto simp: os_remove_all_def fs_get_def map_get_filter_key below_def)

lemma map_get_map_keys:
  assumes "\<And>q. q \<in> fst ` set m \<Longrightarrow> g q = k \<longleftrightarrow> q = k'"
  shows "map_get (map (\<lambda>(q, n). (g q, n)) m) k = map_get m k'"
  using assms by (induction m) (force simp: map_get_def)+


lemma os_rename_Inr:
  assumes "os_rename old new f = Inr f'" "old \<noteq> new"
  shows "\<not> below old new" "f' = map (\<lambda>(q, m). (move_key old new q, m)) (map_del new f)"
    "new \<noteq> []" "old \<noteq> []" "\<not> fs_is_dir f new"
proof -
  have "\<not> fs_is_dir f new \<and> \<not> below old new \<and> f' = map (\<lambda>(q, m). (move_key old new q, m)) (map_del new f)"
    using assms by (simp add: os_rename_def split: option.splits if_splits)
  then show "\<not> below old new" "f' = map (\<lambda>(q, m). (move_key old new q, m)) (map_del new f)"
    "new \<noteq> []" "old \<noteq> []" "\<not> fs_is_dir f new"
    by auto
qed

lemma fs_ok_no_file_below:
  assumes "fs_ok f" "\<not> fs_is_dir f p" "fs_get f q = Some n" "below p q"
  shows "q = p"
  using assms(3,4)
proof (induction q arbitrary: n rule: rev_induct)
  case Nil
  then show ?case by (simp add: below_def)
next
  case (snoc c q)
  show ?case
  proof (rule ccontr)
    assume "q @ [c] \<noteq> p"
    then have b: "below p q" using snoc.prems(2) by (auto simp: below_snoc)
    have d: "fs_is_dir f q" using fs_ok_parent [OF assms(1) snoc.prems(1)] by simp
    then obtain m where "fs_get f q = Some m" by (auto simp: fs_is_dir_def split: option.splits)
    then have "q = p" using snoc.IH b by blast
    then show False using d assms(2) by simp
  qed
qed

text \<open>Renaming moves the tree at \<open>old\<close> to \<open>new\<close> and touches nothing else.\<close>

lemma os_rename_get:
  assumes r: "os_rename old new f = Inr f'" and ne: "old \<noteq> new" and ok: "fs_ok f"
  shows "fs_get f' (new @ t) = fs_get f (old @ t)"
    and "\<not> below new q \<Longrightarrow> fs_get f' q = (if below old q then None else fs_get f q)"
proof -
  note i = os_rename_Inr [OF r ne]
  have keys: "below new q \<Longrightarrow> q \<notin> fst ` set (map_del new f)" for q
  proof
    assume b: "below new q" and q: "q \<in> fst ` set (map_del new f)"
    then have "q \<noteq> new" "q \<in> fst ` set f" by (auto simp: keys_map_del)
    then obtain n where "fs_get f q = Some n"
      using i(3) b by (metis below_def fs_get_def map_get_None_iff not_None_eq take_Nil)
    then show False using fs_ok_no_file_below [OF ok i(5) _ b] \<open>q \<noteq> new\<close> by blast
  qed
  have mk: "move_key old new q = new @ t \<longleftrightarrow> q = old @ t" if "q \<in> fst ` set (map_del new f)" for q t
    using keys [of q] that by (auto simp: move_key_def below_iff)
  have "\<not> below new (old @ t)" if "fs_get f (old @ t) \<noteq> None" for t
    using fs_ok_no_file_below [OF ok i(5), of "old @ t"] that i(1) by auto
  then have "fs_get (map_del new f) (old @ t) = fs_get f (old @ t)" for t
    using i(3) by (metis below_refl fs_get_del)
  moreover have "fs_get f' (new @ t) = fs_get (map_del new f) (old @ t)"
    unfolding i(2) using map_get_map_keys [OF mk] i(3,4) by (simp add: fs_get_def)
  ultimately show "fs_get f' (new @ t) = fs_get f (old @ t)" by simp
  show "fs_get f' q = (if below old q then None else fs_get f q)" if nb: "\<not> below new q"
  proof (cases "below old q")
    case True
    have "q \<notin> fst ` set f'" unfolding i(2) using True nb
      by (auto simp: move_key_def split: if_splits)
    then have "map_get f' q = None" by (simp add: map_get_None_iff)
    moreover have "q \<noteq> []" using True i(4) by (auto simp: below_def)
    ultimately show ?thesis using True by (simp add: fs_get_def)
  next
    case False
    have "move_key old new k = q \<longleftrightarrow> k = q" for k
      using nb False by (auto simp: move_key_def)
    then have "map_get f' q = map_get (map_del new f) q"
      unfolding i(2) by (rule map_get_map_keys)
    then show ?thesis using False nb i(3) by (auto simp: fs_get_def go_map_simps)
  qed
qed

section \<open>Confinement\<close>

text \<open>
  An operation is confined to a region when every path outside the region reads the same
  before and after it. Confinement is what a handler promises its caller; a sequence of
  confined operations is confined.
\<close>

definition same_outside :: "(path \<Rightarrow> bool) \<Rightarrow> fs \<Rightarrow> fs \<Rightarrow> bool" where
  "same_outside R f f' \<longleftrightarrow> (\<forall>q. \<not> R q \<longrightarrow> fs_get f' q = fs_get f q)"

locale confined =
  fixes run :: "'i \<Rightarrow> fs \<Rightarrow> fs"
    and region :: "path \<Rightarrow> bool"
    and inv :: "fs \<Rightarrow> bool"
  assumes step_outside: "inv f \<Longrightarrow> same_outside region f (run i f)"
    and step_inv: "inv f \<Longrightarrow> inv (run i f)"
begin

lemma many_outside:
  assumes "inv f"
  shows "same_outside region f (fold run is f) \<and> inv (fold run is f)"
  using assms
proof (induction "is" arbitrary: f)
  case Nil
  then show ?case by (simp add: same_outside_def)
next
  case (Cons i "is")
  have s: "same_outside region f (run i f)" "inv (run i f)"
    using Cons.prems by (auto intro: step_outside step_inv)
  then show ?case using Cons.IH [OF s(2)] by (simp add: same_outside_def)
qed

end

lemma same_outside_refl [simp]: "same_outside R f f"
  by (simp add: same_outside_def)

lemma same_outside_trans: "same_outside R f g \<Longrightarrow> same_outside R g h \<Longrightarrow> same_outside R f h"
  by (simp add: same_outside_def)

lemma same_outside_mono: "same_outside R f g \<Longrightarrow> (\<And>q. R q \<Longrightarrow> S q) \<Longrightarrow> same_outside S f g"
  by (auto simp: same_outside_def)

lemma os_write_file_outside: "os_write_file p b m f = Inr f' \<Longrightarrow> R p \<Longrightarrow> same_outside R f f'"
  by (auto simp: same_outside_def dest: os_write_file_get(2))

lemma os_mkdir_all_outside:
  assumes "os_mkdir_all p m f = Inr f'" "\<And>q. below q p \<Longrightarrow> R q \<or> fs_get f q \<noteq> None"
  shows "same_outside R f f'"
  unfolding same_outside_def using os_mkdir_all_spec(2) [OF assms(1)] assms(2) by metis

lemma os_remove_ok:
  assumes ok: "fs_ok f" and r: "os_remove p f = Inr f'"
  shows "fs_ok f'"
proof -
  have f': "f' = map_del p f" and p: "p \<noteq> []" and leaf: "fs_is_dir f p \<Longrightarrow> fs_children f p = []"
    using r by (auto simp: os_remove_def fs_is_dir_def split: option.splits fnode.splits if_splits)
  have "fs_is_dir f' (butlast q)" if q: "map_get f q = Some n" "q \<noteq> p" for q n
  proof -
    have qn: "q \<noteq> []" using ok q(1) by (auto simp: fs_ok_iff)
    have d: "fs_is_dir f (butlast q)" using ok q(1) by (auto simp: fs_ok_iff)
    have "butlast q \<noteq> p"
    proof
      assume e: "butlast q = p"
      then have "fs_get f (p @ [last q]) \<noteq> None" using qn q(1) by (auto simp: fs_get_def)
      then have "fs_children f p \<noteq> []" using fs_children_iff [OF ok] by force
      then show False using leaf d e by simp
    qed
    then show ?thesis using d by (simp add: f' fs_is_dir_def fs_get_del [OF p])
  qed
  then show ?thesis using ok by (auto simp: fs_ok_iff f' go_map_simps split: if_splits)
qed

lemma os_remove_all_ok:
  assumes ok: "fs_ok f" and r: "os_remove_all p f = Inr f'" and p: "p \<noteq> []"
  shows "fs_ok f'"
proof -
  have g: "fs_get f' q = (if below p q then None else fs_get f q)" for q
    by (rule os_remove_all_get [OF r p])
  have f': "f' = filter (\<lambda>(q, n). \<not> below p q) f" using r by (simp add: os_remove_all_def)
  have "map_ok f'" using ok by (simp add: f' fs_ok_def map_ok_def distinct_map_filter)
  moreover have "q \<noteq> [] \<and> (\<forall>c \<in> set q. proper_name c) \<and> fs_is_dir f' (butlast q)"
    if q: "map_get f' q = Some n" for q n
  proof -
    have nb: "\<not> below p q" "map_get f q = Some n"
      using q by (auto simp: f' map_get_filter_key split: if_splits)
    then have h: "q \<noteq> []" "\<forall>c \<in> set q. proper_name c" "fs_is_dir f (butlast q)"
      using ok by (auto simp: fs_ok_iff)
    have "\<not> below p (butlast q)" using nb(1) h(1) by (metis append_butlast_last_id below_snoc)
    then show ?thesis using h by (simp add: fs_is_dir_def g)
  qed
  ultimately show ?thesis by (auto simp: fs_ok_iff)
qed

lemma os_rename_ok:
  assumes ok: "fs_ok f" and r: "os_rename old new f = Inr f'" and pn: "\<forall>c \<in> set new. proper_name c"
  shows "fs_ok f'"
proof (cases "old = new")
  case True
  then show ?thesis using ok r by (simp add: os_rename_def split: option.splits if_splits)
next
  case ne: False
  note i = os_rename_Inr [OF r ne] and g = os_rename_get [OF r ne ok]
  have par: "fs_is_dir f (butlast new)"
    using r ne by (simp add: os_rename_def split: option.splits if_splits)
  have inj: "inj_on (move_key old new) (fst ` set (map_del new f))"
  proof (rule inj_onI)
    fix a b assume a: "a \<in> fst ` set (map_del new f)" and b: "b \<in> fst ` set (map_del new f)"
      and e: "move_key old new a = move_key old new b"
    have nb: "\<not> below new q" if "q \<in> fst ` set (map_del new f)" for q
    proof
      assume bl: "below new q"
      have q: "q \<in> fst ` set f" "q \<noteq> new" using that by (auto simp: keys_map_del)
      then obtain n where "map_get f q = Some n" by (metis map_get_None_iff not_None_eq)
      then have "fs_get f q = Some n" using i(3) bl by (auto simp: fs_get_def below_def)
      then show False using fs_ok_no_file_below [OF ok i(5) _ bl] q(2) by blast
    qed
    show "a = b" using e nb [OF a] nb [OF b]
      by (auto simp: move_key_def below_iff split: if_splits)
  qed
  have "map fst f' = map (move_key old new) (map fst (map_del new f))"
    unfolding i(2) by (simp add: case_prod_beta o_def)
  moreover have "distinct (map fst (map_del new f))" using ok by (simp add: fs_ok_def flip: map_ok_def)
  ultimately have "map_ok f'" using inj by (simp add: map_ok_def distinct_map comp_inj_on)
  moreover have "q \<noteq> [] \<and> (\<forall>c \<in> set q. proper_name c) \<and> fs_is_dir f' (butlast q)"
    if q: "map_get f' q = Some n" for q n
  proof -
    have "q \<in> fst ` set f'" using q by (metis map_get_None_iff option.discI)
    then have qn: "q \<noteq> []" unfolding i(2) using ok i(3)
      by (auto simp: move_key_def keys_map_del fs_ok_def list_all_iff map_del_def split: if_splits)
    then have gq: "fs_get f' q = Some n" using q by (simp add: fs_get_def)
    have up: "fs_is_dir f' p" if "\<not> below new p" "\<not> below old p" "fs_is_dir f p" for p
      using that by (simp add: fs_is_dir_def g(2))
    show ?thesis
    proof (cases "below new q")
      case True
      then obtain t where t: "q = new @ t" by (auto simp: below_iff)
      then have o: "fs_get f (old @ t) = Some n" using gq g(1) by simp
      have pt: "\<forall>c \<in> set (old @ t). proper_name c" using fs_ok_proper [OF ok o] .
      have "fs_is_dir f' (butlast q)"
      proof (cases "t = []")
        case True
        have "\<not> below new (butlast new)" using i(3) below_length [of new "butlast new"] by (cases new rule: rev_cases) auto
        moreover have "\<not> below old (butlast new)"
          using i(1,3) by (metis append_butlast_last_id below_snoc)
        ultimately show ?thesis using True t up par by simp
      next
        case False
        have "fs_is_dir f (old @ butlast t)" using fs_ok_parent [OF ok o] False by (simp add: butlast_append)
        then show ?thesis using t False by (simp add: fs_is_dir_def g(1) butlast_append)
      qed
      then show ?thesis using qn t pn pt by auto
    next
      case False
      then have fq: "fs_get f q = Some n" "\<not> below old q" using gq g(2) by (auto split: if_splits)
      have "\<not> below new (butlast q)" "\<not> below old (butlast q)"
        using False fq(2) qn by (metis append_butlast_last_id below_snoc)+
      then show ?thesis using up fs_ok_parent [OF ok fq(1)] fs_ok_proper [OF ok fq(1)] qn by blast
    qed
  qed
  ultimately show ?thesis by (auto simp: fs_ok_iff)
qed

lemma os_remove_outside: "os_remove p f = Inr f' \<Longrightarrow> R p \<Longrightarrow> same_outside R f f'"
  by (auto simp: same_outside_def os_remove_get(2))

lemma os_remove_all_outside:
  "os_remove_all p f = Inr f' \<Longrightarrow> p \<noteq> [] \<Longrightarrow> (\<And>r. R (p @ r)) \<Longrightarrow> same_outside R f f'"
  by (auto simp: same_outside_def os_remove_all_get below_iff)

lemma os_rename_outside:
  assumes "os_rename old new f = Inr f'" "fs_ok f" "\<And>r. R (old @ r)" "\<And>r. R (new @ r)"
  shows "same_outside R f f'"
proof (cases "old = new")
  case True
  then show ?thesis using assms by (simp add: os_rename_def split: option.splits if_splits)
next
  case False
  then show ?thesis
    unfolding same_outside_def using assms(3,4) os_rename_get(2) [OF assms(1) False assms(2)]
    by (metis below_iff)
qed

lemma os_write_file_files:
  "os_write_file p b m f = Inr f' \<Longrightarrow> fs_is_dir f' q = fs_is_dir f q"
  using os_write_file_Inr [of p b m f f'] by (auto simp: fs_is_dir_put is_dir_node_def split: if_splits)

lemma os_mkdir_all_dirs: "os_mkdir_all p m f = Inr f' \<Longrightarrow> fs_is_dir f q \<Longrightarrow> fs_is_dir f' q"
  using os_mkdir_all_spec(2) [of p m f f' q] by (auto simp: fs_is_dir_def split: option.splits)

lemma fs_ok_ancestors: "fs_ok f \<Longrightarrow> fs_get f p \<noteq> None \<Longrightarrow> below q p \<Longrightarrow> fs_get f q \<noteq> None"
proof (induction p rule: rev_induct)
  case Nil
  then show ?case by (simp add: below_def)
next
  case (snoc c p)
  have "fs_is_dir f p" using fs_ok_parent snoc.prems by force
  then have "fs_get f p \<noteq> None" by (auto simp: fs_is_dir_def split: option.splits)
  then show ?case using snoc by (auto simp: below_snoc)
qed

end
