(* ===== verification/File_Service.thy ===== *)
theory File_Service
  imports File_System Config
begin

text \<open>
  The agent's file manager (\<^verbatim>\<open>internal/agent/grpc_file_service.go\<close>): the resolution of a
  request path inside an instance's working directory, and the seven handlers. A handler
  returns its response or error with the new files; \<open>serve\<close> dispatches a request. The
  instance definitions are the agent's map; \<open>cwd\<close> is the working directory of the process.
\<close>

datatype file_error =
    InstanceNotFound | WorkDirUnset | AccessReject
  | OsFail os_error | DirectoryRead | WorkDirDelete
  | SameSrcDst | DstExists | CopyIntoItself
  | CopyFuel \<comment> \<open>never returned, see \<open>copy_file_total\<close>\<close>

type_synonym inst_defs = "(string, InstanceDef) gomap"

record FileEntry =
  feName :: string
  fePath :: string
  feIsDir :: bool
  feSize :: nat
  fePermissions :: string

record ReadFileResponse =
  rrPath :: string
  rrContent :: bytes
  rrSize :: nat
  rrTruncated :: bool

definition maxReadFileSize :: nat where
  "maxReadFileSize = 200 * 1024 * 1024"

text \<open>An absolute path's components, the key of the file system.\<close>

definition to_path :: "string \<Rightarrow> path" where
  "to_path s = clean_comps True s"

definition resolveInstancePath ::
  "string \<Rightarrow> inst_defs \<Rightarrow> string \<Rightarrow> string \<Rightarrow> file_error + string" where
  "resolveInstancePath cwd defs instanceID relPath =
     (case map_get defs instanceID of
        None \<Rightarrow> Inl InstanceNotFound
      | Some def \<Rightarrow>
          let workDir = idWorkDir def
          in if workDir = '''' then Inl WorkDirUnset
             else let absWorkDir = fp_abs cwd workDir;
                      cleaned = fp_clean relPath
                  in if cleaned = ''.'' \<or> cleaned = '''' then Inr absWorkDir
                     else let target = fp_join [absWorkDir, cleaned];
                              absTarget = fp_abs cwd target
                          in if \<not> has_prefix absTarget absWorkDir then Inl AccessReject
                             else Inr absTarget)"

definition perm_bit :: "nat \<Rightarrow> nat \<Rightarrow> char \<Rightarrow> char" where
  "perm_bit mode k c = (if odd (mode div 2 ^ k) then c else CHR ''-'')"

definition perm_string :: "nat \<Rightarrow> string" where
  "perm_string mode = CHR ''-'' # map (\<lambda>(k, c). perm_bit mode k c)
     [(8, CHR ''r''), (7, CHR ''w''), (6, CHR ''x''), (5, CHR ''r''), (4, CHR ''w''), (3, CHR ''x''),
      (2, CHR ''r''), (1, CHR ''w''), (0, CHR ''x'')]"

text \<open>\<open>dirSize\<close> is what the system reports as the size of a directory.\<close>

definition node_size :: "nat \<Rightarrow> fnode \<Rightarrow> nat" where
  "node_size dirSize n = (case n of DirNode m \<Rightarrow> dirSize | FileNode m b \<Rightarrow> length b)"

definition list_entry :: "nat \<Rightarrow> string \<Rightarrow> fs \<Rightarrow> path \<Rightarrow> string \<Rightarrow> FileEntry list" where
  "list_entry dirSize reqPath f dir name =
     (case fs_get f (dir @ [name]) of
        None \<Rightarrow> []
      | Some info \<Rightarrow>
          [\<lparr>feName = name,
            fePath = (if reqPath = '''' \<or> reqPath = ''.'' then name else fp_join [reqPath, name]),
            feIsDir = is_dir_node info,
            feSize = node_size dirSize info,
            fePermissions = perm_string (node_mode info)\<rparr>])"

definition ListDirectory ::
  "nat \<Rightarrow> string \<Rightarrow> inst_defs \<Rightarrow> string \<Rightarrow> string \<Rightarrow> fs \<Rightarrow> file_error + string \<times> FileEntry list" where
  "ListDirectory dirSize cwd defs inst reqPath f =
     (case resolveInstancePath cwd defs inst reqPath of
        Inl e \<Rightarrow> Inl e
      | Inr dirPath \<Rightarrow>
          (case os_read_dir f (to_path dirPath) of
             Inl e \<Rightarrow> Inl (OsFail e)
           | Inr entries \<Rightarrow>
               Inr (reqPath, concat (map (list_entry dirSize reqPath f (to_path dirPath)) entries))))"

definition ReadFile :: "string \<Rightarrow> inst_defs \<Rightarrow> string \<Rightarrow> string \<Rightarrow> fs \<Rightarrow> file_error + ReadFileResponse" where
  "ReadFile cwd defs inst reqPath f =
     (case resolveInstancePath cwd defs inst reqPath of
        Inl e \<Rightarrow> Inl e
      | Inr filePath \<Rightarrow>
          (case os_stat f (to_path filePath) of
             Inl e \<Rightarrow> Inl (OsFail e)
           | Inr info \<Rightarrow>
               if is_dir_node info then Inl DirectoryRead
               else (case os_read_file f (to_path filePath) of
                       Inl e \<Rightarrow> Inl (OsFail e)
                     | Inr content \<Rightarrow>
                         Inr \<lparr>rrPath = reqPath,
                              rrContent = (if length content > maxReadFileSize
                                           then take maxReadFileSize content else content),
                              rrSize = node_size 0 info,
                              rrTruncated = (length content > maxReadFileSize)\<rparr>)))"

definition WriteFile ::
  "string \<Rightarrow> inst_defs \<Rightarrow> string \<Rightarrow> string \<Rightarrow> bytes \<Rightarrow> bool \<Rightarrow> fs \<Rightarrow> (file_error + unit) \<times> fs" where
  "WriteFile cwd defs inst reqPath content createDirs f =
     (case resolveInstancePath cwd defs inst reqPath of
        Inl e \<Rightarrow> (Inl e, f)
      | Inr filePath \<Rightarrow>
          (case (if createDirs then os_mkdir_all (to_path (fp_dir filePath)) 493 f else Inr f) of
             Inl e \<Rightarrow> (Inl (OsFail e), f)
           | Inr f1 \<Rightarrow>
               (case os_write_file (to_path filePath) content 420 f1 of
                  Inl e \<Rightarrow> (Inl (OsFail e), f1)
                | Inr f2 \<Rightarrow> (Inr (), f2))))"

definition DeleteFile ::
  "string \<Rightarrow> inst_defs \<Rightarrow> string \<Rightarrow> string \<Rightarrow> bool \<Rightarrow> fs \<Rightarrow> (file_error + unit) \<times> fs" where
  "DeleteFile cwd defs inst reqPath recursive f =
     (case resolveInstancePath cwd defs inst reqPath of
        Inl e \<Rightarrow> (Inl e, f)
      | Inr filePath \<Rightarrow>
          let absWorkDir = (case map_get defs inst of None \<Rightarrow> '''' | Some def \<Rightarrow> fp_abs cwd (idWorkDir def))
          in if filePath = absWorkDir then (Inl WorkDirDelete, f)
             else (case os_stat f (to_path filePath) of
                     Inl e \<Rightarrow> (Inl (OsFail e), f)
                   | Inr info \<Rightarrow>
                       (case (if is_dir_node info \<and> recursive
                              then os_remove_all (to_path filePath) f
                              else os_remove (to_path filePath) f) of
                          Inl e \<Rightarrow> (Inl (OsFail e), f)
                        | Inr f1 \<Rightarrow> (Inr (), f1))))"

definition CreateDirectory ::
  "string \<Rightarrow> inst_defs \<Rightarrow> string \<Rightarrow> string \<Rightarrow> fs \<Rightarrow> (file_error + unit) \<times> fs" where
  "CreateDirectory cwd defs inst reqPath f =
     (case resolveInstancePath cwd defs inst reqPath of
        Inl e \<Rightarrow> (Inl e, f)
      | Inr dirPath \<Rightarrow>
          (case os_mkdir_all (to_path dirPath) 493 f of
             Inl e \<Rightarrow> (Inl (OsFail e), f)
           | Inr f1 \<Rightarrow> (Inr (), f1)))"

definition RenameFile ::
  "string \<Rightarrow> inst_defs \<Rightarrow> string \<Rightarrow> string \<Rightarrow> string \<Rightarrow> fs \<Rightarrow> (file_error + unit) \<times> fs" where
  "RenameFile cwd defs inst oldP newP f =
     (case resolveInstancePath cwd defs inst oldP of
        Inl e \<Rightarrow> (Inl e, f)
      | Inr oldPath \<Rightarrow>
          (case resolveInstancePath cwd defs inst newP of
             Inl e \<Rightarrow> (Inl e, f)
           | Inr newPath \<Rightarrow>
               (case os_rename (to_path oldPath) (to_path newPath) f of
                  Inl e \<Rightarrow> (Inl (OsFail e), f)
                | Inr f1 \<Rightarrow> (Inr (), f1))))"

text \<open>
  \<^verbatim>\<open>copyPath\<close> recurses over a directory that the copying itself may change, so the model
  carries fuel; None is running out of it. A failing copy keeps what was copied before it.
\<close>

fun copyPath :: "nat \<Rightarrow> path \<Rightarrow> path \<Rightarrow> fnode \<Rightarrow> fs \<Rightarrow> (os_error option \<times> fs) option"
and copyEntries :: "nat \<Rightarrow> path \<Rightarrow> path \<Rightarrow> string list \<Rightarrow> fs \<Rightarrow> (os_error option \<times> fs) option" where
  "copyPath 0 src dst srcInfo f = None"
| "copyPath (Suc n) src dst srcInfo f =
     (if is_dir_node srcInfo then
        (case os_mkdir_all dst (node_mode srcInfo) f of
           Inl e \<Rightarrow> Some (Some e, f)
         | Inr f1 \<Rightarrow>
             (case os_read_dir f1 src of
                Inl e \<Rightarrow> Some (Some e, f1)
              | Inr entries \<Rightarrow> copyEntries n src dst entries f1))
      else
        (case os_read_file f src of
           Inl e \<Rightarrow> Some (Some e, f)
         | Inr content \<Rightarrow>
             (case os_mkdir_all (butlast dst) 493 f of
                Inl e \<Rightarrow> Some (Some e, f)
              | Inr f1 \<Rightarrow>
                  (case os_write_file dst content (node_mode srcInfo) f1 of
                     Inl e \<Rightarrow> Some (Some e, f1)
                   | Inr f2 \<Rightarrow> Some (None, f2)))))"
| "copyEntries n src dst [] f = Some (None, f)"
| "copyEntries n src dst (e # es) f =
     (case fs_get f (src @ [e]) of
        None \<Rightarrow> Some (Some ENOENT, f)
      | Some si \<Rightarrow>
          (case copyPath n (src @ [e]) (dst @ [e]) si f of
             None \<Rightarrow> None
           | Some (Some err, f1) \<Rightarrow> Some (Some err, f1)
           | Some (None, f1) \<Rightarrow> copyEntries n src dst es f1))"

text \<open>Enough fuel: one more than the length of the longest path there is.\<close>

definition copy_fuel :: "fs \<Rightarrow> nat" where
  "copy_fuel f = Suc (fold max (map (length \<circ> fst) f) 0)"

definition CopyFile ::
  "string \<Rightarrow> inst_defs \<Rightarrow> string \<Rightarrow> string \<Rightarrow> string \<Rightarrow> bool \<Rightarrow> fs \<Rightarrow> (file_error + unit) \<times> fs" where
  "CopyFile cwd defs inst srcP dstP overwrite f =
     (case resolveInstancePath cwd defs inst srcP of
        Inl e \<Rightarrow> (Inl e, f)
      | Inr src \<Rightarrow>
          (case resolveInstancePath cwd defs inst dstP of
             Inl e \<Rightarrow> (Inl e, f)
           | Inr dst \<Rightarrow>
               if src = dst then (Inl SameSrcDst, f)
               else if \<not> overwrite \<and> fs_get f (to_path dst) \<noteq> None then (Inl DstExists, f)
               else (case os_stat f (to_path src) of
                       Inl e \<Rightarrow> (Inl (OsFail e), f)
                     | Inr srcInfo \<Rightarrow>
                         if has_prefix (dst @ ''/'') (src @ ''/'') then (Inl CopyIntoItself, f)
                         else (case copyPath (copy_fuel f) (to_path src) (to_path dst) srcInfo f of
                                 None \<Rightarrow> (Inl CopyFuel, f)
                               | Some (Some e, f1) \<Rightarrow> (Inl (OsFail e), f1)
                               | Some (None, f1) \<Rightarrow> (Inr (), f1)))))"

datatype file_req =
    ListReq string | ReadReq string | WriteReq string bytes bool | DeleteReq string bool
  | MkdirReq string | RenameReq string string | CopyReq string string bool

text \<open>The effect of a request on the files, whatever it answers.\<close>

fun serve :: "string \<Rightarrow> inst_defs \<Rightarrow> string \<Rightarrow> file_req \<Rightarrow> fs \<Rightarrow> fs" where
  "serve cwd defs i (ListReq p) f = f"
| "serve cwd defs i (ReadReq p) f = f"
| "serve cwd defs i (WriteReq p b c) f = snd (WriteFile cwd defs i p b c f)"
| "serve cwd defs i (DeleteReq p r) f = snd (DeleteFile cwd defs i p r f)"
| "serve cwd defs i (MkdirReq p) f = snd (CreateDirectory cwd defs i p f)"
| "serve cwd defs i (RenameReq a b) f = snd (RenameFile cwd defs i a b f)"
| "serve cwd defs i (CopyReq a b ow) f = snd (CopyFile cwd defs i a b ow f)"

section \<open>Resolving a request path\<close>

text \<open>The text comparison of \<^verbatim>\<open>resolveInstancePath\<close>, on components.\<close>

definition accepted :: "path \<Rightarrow> path \<Rightarrow> bool" where
  "accepted w p \<longleftrightarrow> has_prefix (abs_text p) (abs_text w)"

definition no_climb :: "string \<Rightarrow> bool" where
  "no_climb rel \<longleftrightarrow> is_abs rel \<or> ''..'' \<notin> set (clean_comps False rel)"

definition work_path :: "string \<Rightarrow> InstanceDef \<Rightarrow> path" where
  "work_path cwd def = to_path (fp_abs cwd (idWorkDir def))"

lemma to_path_abs_text [simp]: "\<forall>c \<in> set p. proper_name c \<Longrightarrow> to_path (abs_text p) = p"
  by (simp add: to_path_def)

lemma to_path_proper: "\<forall>c \<in> set (to_path s). proper_name c"
  by (simp add: to_path_def clean_comps_rooted)

lemma fp_abs_work:
  assumes "is_abs cwd"
  shows "fp_abs cwd (idWorkDir def) = abs_text (work_path cwd def)"
    and "\<forall>c \<in> set (work_path cwd def). proper_name c"
  using assms by (simp_all add: work_path_def fp_abs_abs_text to_path_proper clean_comps_rooted)

lemma fold_clean_unrooted:
  assumes "\<forall>c \<in> set out. proper_name c \<or> c = ''..''" "\<forall>c \<in> set cs. CHR ''/'' \<notin> set c"
  shows "\<forall>c \<in> set (fold (clean_step False) cs out). proper_name c \<or> c = ''..''"
  using assms
proof (induction cs arbitrary: out)
  case (Cons c cs)
  have "\<forall>d \<in> set (clean_step False c out). proper_name d \<or> d = ''..''"
  proof (cases "c = [] \<or> c = ''.'' \<or> c = ''..''")
    case True
    then show ?thesis using Cons.prems(1) by (cases out) (auto simp: clean_step_def)
  next
    case False
    then have "proper_name c" using Cons.prems(2) by (simp add: proper_name_def)
    then show ?thesis using False Cons.prems(1) by (simp add: clean_step_def)
  qed
  then show ?case using Cons by simp
qed simp

lemma no_climb_proper:
  assumes "no_climb rel"
  shows "\<forall>c \<in> set (clean_comps (is_abs rel) rel). proper_name c"
proof (cases "is_abs rel")
  case True
  then show ?thesis by (simp add: clean_comps_rooted)
next
  case False
  have "\<forall>c \<in> set (clean_comps False rel). proper_name c \<or> c = ''..''"
    unfolding clean_comps_def set_rev
    by (rule fold_clean_unrooted) (auto dest: split_on_no_sep_in)
  then show ?thesis using False assms by (auto simp: no_climb_def)
qed

lemma clean_comps_fp_clean:
  assumes "no_climb rel"
  shows "clean_comps False (fp_clean rel) = clean_comps (is_abs rel) rel"
proof (cases "is_abs rel")
  case True
  then show ?thesis by (simp add: fp_clean_abs clean_comps_rooted)
next
  case False
  have p: "\<forall>c \<in> set (clean_comps False rel). proper_name c" using no_climb_proper [OF assms] False by simp
  show ?thesis
  proof (cases "clean_comps False rel")
    case Nil
    then show ?thesis using False by (simp add: fp_clean_def) (simp add: clean_comps_def clean_step_def)
  next
    case (Cons c cs)
    then show ?thesis using False p by (simp add: fp_clean_def clean_comps_join)
  qed
qed

lemma fp_join_work:
  assumes "\<forall>c \<in> set w. proper_name c" "no_climb rel"
  shows "fp_join [abs_text w, fp_clean rel] = abs_text (w @ clean_comps (is_abs rel) rel)"
proof -
  have "''..'' \<notin> set (clean_comps False (fp_clean rel))"
    using no_climb_proper [OF assms(2)] unfolding clean_comps_fp_clean [OF assms(2)]
    by (auto simp: proper_name_def)
  then show ?thesis
    using assms by (simp add: fp_join_two clean_comps_under clean_comps_fp_clean)
qed

lemma abs_text_prefix: "has_prefix (abs_text (w @ r)) (abs_text w)"
proof (cases "w = [] \<or> r = []")
  case True
  then show ?thesis by (auto simp: abs_text_def has_prefix_iff)
next
  case False
  then show ?thesis by (simp add: abs_text_append has_prefix_iff)
qed

lemma fp_clean_dot:
  assumes "no_climb rel" "fp_clean rel = ''.'' \<or> fp_clean rel = ''''"
  shows "clean_comps (is_abs rel) rel = []"
  using clean_comps_fp_clean [OF assms(1)] assms(2)
  by (auto simp: clean_comps_def clean_step_def)

lemma resolve_no_climb:
  assumes cwd: "is_abs cwd" and def: "map_get defs i = Some def" "idWorkDir def \<noteq> ''''"
    and nc: "no_climb rel"
  shows "resolveInstancePath cwd defs i rel = Inr (abs_text (work_path cwd def @ clean_comps (is_abs rel) rel))"
proof -
  note w = fp_abs_work [OF cwd, of def]
  have p: "\<forall>c \<in> set (work_path cwd def @ clean_comps (is_abs rel) rel). proper_name c"
    using w(2) no_climb_proper [OF nc] by auto
  show ?thesis
  proof (cases "fp_clean rel = ''.'' \<or> fp_clean rel = ''''")
    case True
    then show ?thesis
      using fp_clean_dot [OF nc True] def by (simp add: resolveInstancePath_def Let_def w(1))
  next
    case False
    have "fp_abs cwd (abs_text (work_path cwd def @ clean_comps (is_abs rel) rel)) =
        abs_text (work_path cwd def @ clean_comps (is_abs rel) rel)"
      using p by (simp add: fp_abs_def fp_clean_abs_text)
    then show ?thesis
      using def False
      by (simp add: resolveInstancePath_def Let_def w(1) fp_join_work [OF w(2) nc]
          abs_text_prefix)
  qed
qed

lemma resolve_accepted:
  assumes cwd: "is_abs cwd" and def: "map_get defs i = Some def"
    and r: "resolveInstancePath cwd defs i rel = Inr s"
  shows "\<exists>p. s = abs_text p \<and> (\<forall>c \<in> set p. proper_name c) \<and> accepted (work_path cwd def) p"
proof (cases "fp_clean rel = ''.'' \<or> fp_clean rel = ''''")
  case True
  then have "s = abs_text (work_path cwd def)"
    using r def fp_abs_work [OF cwd, of def]
    by (auto simp: resolveInstancePath_def Let_def split: if_splits)
  then show ?thesis using fp_abs_work(2) [OF cwd] by (auto simp: accepted_def has_prefix_def)
next
  case False
  let ?t = "fp_join [abs_text (work_path cwd def), fp_clean rel]"
  have "s = fp_abs cwd ?t" "has_prefix s (abs_text (work_path cwd def))"
    using r def False fp_abs_work(1) [OF cwd, of def]
    by (auto simp: resolveInstancePath_def Let_def  split: if_splits)
  moreover have "fp_abs cwd ?t = abs_text (clean_comps True ?t)"
    using fp_join_is_abs [of "abs_text (work_path cwd def)"]
    by (simp add: fp_abs_def fp_clean_abs)
  ultimately show ?thesis by (metis accepted_def clean_comps_rooted)
qed

lemma accepted_iff:
  assumes "\<forall>c \<in> set w. proper_name c" "\<forall>c \<in> set p. proper_name c" "w \<noteq> []"
  shows "accepted w p \<longleftrightarrow> below w p \<or> (\<exists>ext r. ext \<noteq> [] \<and> p = butlast w @ (last w @ ext) # r)"
proof
  assume "accepted w p"
  then show "below w p \<or> (\<exists>ext r. ext \<noteq> [] \<and> p = butlast w @ (last w @ ext) # r)"
    using text_prefix [OF assms] by (simp add: accepted_def)
next
  assume "below w p \<or> (\<exists>ext r. ext \<noteq> [] \<and> p = butlast w @ (last w @ ext) # r)"
  then show "accepted w p"
  proof
    assume "below w p"
    then show ?thesis by (auto simp: accepted_def below_iff abs_text_prefix)
  next
    assume "\<exists>ext r. ext \<noteq> [] \<and> p = butlast w @ (last w @ ext) # r"
    then obtain ext r where p: "p = (butlast w @ [last w @ ext]) @ r" by auto
    have "abs_text (butlast w @ [last w @ ext]) = abs_text (butlast w @ [last w]) @ ext"
      by (cases "butlast w = []") (simp_all add: abs_text_append, simp add: abs_text_def)
    then have "abs_text (butlast w @ [last w @ ext]) = abs_text w @ ext" using assms(3) by simp
    moreover obtain t where "abs_text p = abs_text (butlast w @ [last w @ ext]) @ t"
      using abs_text_prefix [of "butlast w @ [last w @ ext]" r] p by (auto simp: has_prefix_iff)
    ultimately show ?thesis by (auto simp: accepted_def has_prefix_iff)
  qed
qed

section \<open>What a request can change\<close>

definition proper_path :: "path \<Rightarrow> bool" where
  "proper_path p \<longleftrightarrow> (\<forall>c \<in> set p. proper_name c)"

text \<open>A region that contains what is below its members, and whose members' other ancestors exist.\<close>

definition region_ok :: "(path \<Rightarrow> bool) \<Rightarrow> fs \<Rightarrow> bool" where
  "region_ok R f \<longleftrightarrow> (\<forall>p r. R p \<longrightarrow> R (p @ r)) \<and>
     (\<forall>p q. R p \<longrightarrow> proper_path p \<longrightarrow> below q p \<longrightarrow> R q \<or> fs_get f q \<noteq> None)"

lemma region_ok_same: "same_outside R f f' \<Longrightarrow> region_ok R f \<Longrightarrow> region_ok R f'"
  unfolding region_ok_def same_outside_def by metis

lemma region_down: "region_ok R f \<Longrightarrow> R p \<Longrightarrow> R (p @ r)"
  by (simp add: region_ok_def)

lemma mkdir_region:
  assumes "os_mkdir_all q m f = Inr f'" "region_ok R f" "R p" "proper_path p" "below q p" "fs_ok f"
  shows "same_outside R f f' \<and> fs_ok f' \<and> region_ok R f'"
proof -
  have "R x \<or> fs_get f x \<noteq> None" if "below x q" for x
    using assms(2-5) below_trans [OF that assms(5)] unfolding region_ok_def by blast
  then have "same_outside R f f'" by (rule os_mkdir_all_outside [OF assms(1)])
  moreover have "fs_ok f'"
    by (rule os_mkdir_all_ok [OF assms(1,6)]) (use assms(4,5) in \<open>auto simp: proper_path_def below_iff\<close>)
  ultimately show ?thesis using region_ok_same assms(2) by blast
qed

lemma below_butlast: "below (butlast p) p"
  by (cases p rule: rev_cases) simp_all

lemma copy_region:
  "copyPath n src dst info f = Some (r, f') \<Longrightarrow> region_ok R f \<Longrightarrow> R dst \<Longrightarrow> proper_path dst \<Longrightarrow> fs_ok f \<Longrightarrow>
     same_outside R f f' \<and> fs_ok f'"
  "copyEntries n src dst es f = Some (r, f') \<Longrightarrow> region_ok R f \<Longrightarrow> R dst \<Longrightarrow> proper_path dst \<Longrightarrow> fs_ok f \<Longrightarrow>
     same_outside R f f' \<and> fs_ok f'"
proof (induction n src dst info f and n src dst es f arbitrary: r f' and r f'
    rule: copyPath_copyEntries.induct)
  case (2 n src dst info f)
  show ?case
  proof (cases "is_dir_node info")
    case dir: True
    show ?thesis
    proof (cases "os_mkdir_all dst (node_mode info) f")
      case (Inl e)
      then show ?thesis using 2 dir by simp
    next
      case (Inr f1)
      have m: "same_outside R f f1 \<and> fs_ok f1 \<and> region_ok R f1"
        by (rule mkdir_region [OF Inr 2(3,4,5) _ 2(6)]) simp
      show ?thesis
      proof (cases "os_read_dir f1 src")
        case (Inl e)
        then show ?thesis using 2 dir Inr m by simp
      next
        case entries: (Inr es)
        then show ?thesis
          using 2(1) [OF dir Inr entries] 2(2,4,5) dir Inr m by (auto intro: same_outside_trans)
      qed
    qed
  next
    case fil: False
    show ?thesis
    proof (cases "os_read_file f src")
      case (Inl e)
      then show ?thesis using 2 fil by simp
    next
      case content: (Inr b)
      show ?thesis
      proof (cases "os_mkdir_all (butlast dst) 493 f")
        case (Inl e)
        then show ?thesis using 2 fil content by simp
      next
        case (Inr f1)
        have m: "same_outside R f f1 \<and> fs_ok f1 \<and> region_ok R f1"
          by (rule mkdir_region [OF Inr 2(3,4,5) below_butlast 2(6)])
        show ?thesis
        proof (cases "os_write_file dst b (node_mode info) f1")
          case (Inl e)
          then show ?thesis using 2 fil content Inr m by simp
        next
          case w: (Inr f2)
          have "same_outside R f1 f2" using os_write_file_outside [OF w] 2(4) by blast
          moreover have "fs_ok f2" using os_write_file_ok [OF _ _ w] m 2(5) by (simp add: proper_path_def)
          ultimately show ?thesis using 2(2) fil content Inr w m by (auto intro: same_outside_trans)
        qed
      qed
    qed
  qed
next
  case (4 n src dst e es f)
  show ?case
  proof (cases "fs_get f (src @ [e])")
    case None
    then show ?thesis using 4 by simp
  next
    case (Some si)
    have pe: "proper_path (dst @ [e])"
      using 4(6) fs_ok_proper [OF 4(7) Some] by (simp add: proper_path_def)
    have re: "R (dst @ [e])" using 4(4,5) by (rule region_down)
    obtain r1 f1 where c: "copyPath n (src @ [e]) (dst @ [e]) si f = Some (r1, f1)"
      using 4(3) Some by (auto split: option.splits)
    note m = 4(1) [OF Some c 4(4) re pe 4(7)]
    show ?thesis
    proof (cases r1)
      case None
      then have "copyEntries n src dst es f1 = Some (r, f')" using 4(3) Some c by simp
      then show ?thesis
        using 4(2) [OF Some c refl None] m region_ok_same [of R f f1] 4(4-6)
        by (auto intro: same_outside_trans)
    next
      case (Some err)
      then show ?thesis using 4(3) \<open>fs_get f (src @ [e]) = Some si\<close> c m by simp
    qed
  qed
qed simp_all

fun req_paths :: "file_req \<Rightarrow> string list" where
  "req_paths (ListReq p) = [p]"
| "req_paths (ReadReq p) = [p]"
| "req_paths (WriteReq p b c) = [p]"
| "req_paths (DeleteReq p r) = [p]"
| "req_paths (MkdirReq p) = [p]"
| "req_paths (RenameReq a b) = [a, b]"
| "req_paths (CopyReq a b ow) = [a, b]"

lemma fp_dir_path:
  assumes "\<forall>c \<in> set p. proper_name c"
  shows "to_path (fp_dir (abs_text p)) = butlast p"
proof (cases p rule: rev_cases)
  case Nil
  have "to_path (fp_dir ''/'') = []" by code_simp
  then show ?thesis using Nil by (simp add: abs_text_def)
next
  case (snoc cs n)
  then have "fp_dir (abs_text p) = abs_text cs" using assms by (simp add: fp_dir_abs_text)
  then show ?thesis using snoc assms by simp
qed

text \<open>One handler after the other: a resolved path in the region keeps the change in it.\<close>

definition resolves_in :: "string \<Rightarrow> inst_defs \<Rightarrow> string \<Rightarrow> (path \<Rightarrow> bool) \<Rightarrow> string \<Rightarrow> bool" where
  "resolves_in cwd defs i R rel \<longleftrightarrow>
     (\<forall>s. resolveInstancePath cwd defs i rel = Inr s \<longrightarrow> R (to_path s))"

lemma resolved_path:
  assumes "is_abs cwd" "resolveInstancePath cwd defs i rel = Inr s" "resolves_in cwd defs i R rel"
  shows "\<exists>p. s = abs_text p \<and> proper_path p \<and> to_path s = p \<and> R p"
proof -
  obtain def where "map_get defs i = Some def"
    using assms(2) by (auto simp: resolveInstancePath_def split: option.splits)
  from resolve_accepted [OF assms(1) this assms(2)] show ?thesis
    using assms(2,3) by (auto simp: resolves_in_def proper_path_def)
qed

lemma write_region:
  assumes c: "is_abs cwd" and R: "region_ok R f" and ok: "fs_ok f" and r: "resolves_in cwd defs i R rel"
  shows "same_outside R f (snd (WriteFile cwd defs i rel b mk f)) \<and> fs_ok (snd (WriteFile cwd defs i rel b mk f))"
proof (cases "resolveInstancePath cwd defs i rel")
  case (Inl e)
  then show ?thesis using ok by (simp add: WriteFile_def)
next
  case (Inr s)
  obtain p where p: "s = abs_text p" "proper_path p" "to_path s = p" "R p"
    using resolved_path [OF c Inr r] by blast
  have d: "to_path (fp_dir s) = butlast p" using p fp_dir_path by (simp add: proper_path_def)
  define mkd where "mkd = (if mk then os_mkdir_all (butlast p) 493 f else Inr f)"
  have W: "WriteFile cwd defs i rel b mk f =
      (case mkd of Inl e \<Rightarrow> (Inl (OsFail e), f)
       | Inr f1 \<Rightarrow> (case os_write_file p b 420 f1 of
                      Inl e \<Rightarrow> (Inl (OsFail e), f1) | Inr f2 \<Rightarrow> (Inr (), f2)))"
    unfolding WriteFile_def Inr sum.case p(3) d mkd_def by (rule refl)
  show ?thesis
  proof (cases mkd)
    case (Inl e)
    then show ?thesis using ok by (simp add: W)
  next
    case (Inr f1)
    have m: "same_outside R f f1 \<and> fs_ok f1"
      using Inr R ok mkdir_region [OF _ R p(4,2) below_butlast ok]
      by (cases mk) (auto simp: mkd_def)
    show ?thesis
    proof (cases "os_write_file p b 420 f1")
      case (Inl e)
      then show ?thesis using m by (simp add: W Inr)
    next
      case w: (Inr f2)
      have "fs_ok f2" using os_write_file_ok [OF _ _ w] m p(2) by (simp add: proper_path_def)
      then show ?thesis
        using m os_write_file_outside [OF w, of R] p(4) by (auto simp: W Inr w intro: same_outside_trans)
    qed
  qed
qed

lemma delete_region:
  assumes c: "is_abs cwd" and R: "region_ok R f" and ok: "fs_ok f" and r: "resolves_in cwd defs i R rel"
  shows "same_outside R f (snd (DeleteFile cwd defs i rel rc f)) \<and> fs_ok (snd (DeleteFile cwd defs i rel rc f))"
proof (cases "resolveInstancePath cwd defs i rel")
  case (Inl e)
  then show ?thesis using ok by (simp add: DeleteFile_def)
next
  case (Inr s)
  obtain p where p: "s = abs_text p" "proper_path p" "to_path s = p" "R p"
    using resolved_path [OF c Inr r] by blast
  obtain def where def: "map_get defs i = Some def"
    using Inr by (auto simp: resolveInstancePath_def split: option.splits)
  have acc: "accepted (work_path cwd def) p"
    using resolve_accepted [OF c def Inr] p by (metis abs_text_inject proper_path_def)
  have ne: "p \<noteq> []" if "s \<noteq> fp_abs cwd (idWorkDir def)"
  proof
    assume "p = []"
    then have "abs_text (work_path cwd def) = ''/''"
      using acc by (auto simp: accepted_def abs_text_def has_prefix_iff)
    then show False using that p(1) \<open>p = []\<close> fp_abs_work(1) [OF c] by (simp add: abs_text_def)
  qed
  have one: "same_outside R f f1 \<and> fs_ok f1" if "os_remove p f = Inr f1" for f1
    using os_remove_outside [OF that, of R] os_remove_ok [OF ok that] p(4) by simp
  have all: "same_outside R f f1 \<and> fs_ok f1"
    if "os_remove_all p f = Inr f1" "s \<noteq> fp_abs cwd (idWorkDir def)" for f1
    using os_remove_all_outside [OF that(1) ne [OF that(2)], of R] os_remove_all_ok [OF ok that(1) ne [OF that(2)]]
      region_down [OF R p(4)] by blast
  show ?thesis
    using ok one all
    by (simp add: DeleteFile_def Inr p(3) def Let_def split: sum.splits)
qed

lemma mkdirs_region:
  assumes c: "is_abs cwd" and R: "region_ok R f" and ok: "fs_ok f" and r: "resolves_in cwd defs i R rel"
  shows "same_outside R f (snd (CreateDirectory cwd defs i rel f)) \<and> fs_ok (snd (CreateDirectory cwd defs i rel f))"
proof (cases "resolveInstancePath cwd defs i rel")
  case (Inl e)
  then show ?thesis using ok by (simp add: CreateDirectory_def)
next
  case (Inr s)
  obtain p where p: "s = abs_text p" "proper_path p" "to_path s = p" "R p"
    using resolved_path [OF c Inr r] by blast
  show ?thesis
    using ok mkdir_region [OF _ R p(4,2) below_refl ok]
    by (auto simp: CreateDirectory_def Inr p(3) split: sum.splits)
qed

lemma rename_region:
  assumes c: "is_abs cwd" and R: "region_ok R f" and ok: "fs_ok f"
    and r: "resolves_in cwd defs i R a" "resolves_in cwd defs i R b"
  shows "same_outside R f (snd (RenameFile cwd defs i a b f)) \<and> fs_ok (snd (RenameFile cwd defs i a b f))"
proof (cases "resolveInstancePath cwd defs i a")
  case (Inl e)
  then show ?thesis using ok by (simp add: RenameFile_def)
next
  case a: (Inr s)
  obtain p where p: "to_path s = p" "R p" using resolved_path [OF c a r(1)] by blast
  show ?thesis
  proof (cases "resolveInstancePath cwd defs i b")
    case (Inl e)
    then show ?thesis using ok a by (simp add: RenameFile_def)
  next
    case b: (Inr t)
    obtain q where q: "to_path t = q" "R q" "proper_path q" using resolved_path [OF c b r(2)] by blast
    show ?thesis
    proof (cases "os_rename p q f")
      case (Inl e)
      then show ?thesis using ok by (simp add: RenameFile_def a b p q)
    next
      case (Inr f1)
      have "same_outside R f f1"
        by (rule os_rename_outside [OF Inr ok]) (use region_down [OF R] p(2) q(2) in blast)+
      moreover have "fs_ok f1" using os_rename_ok [OF ok Inr] q(3) by (simp add: proper_path_def)
      ultimately show ?thesis by (simp add: RenameFile_def a b p(1) q(1) Inr)
    qed
  qed
qed

lemma copyfile_region:
  assumes c: "is_abs cwd" and R: "region_ok R f" and ok: "fs_ok f" and r: "resolves_in cwd defs i R b"
  shows "same_outside R f (snd (CopyFile cwd defs i a b ow f)) \<and> fs_ok (snd (CopyFile cwd defs i a b ow f))"
proof (cases "resolveInstancePath cwd defs i a")
  case (Inl e)
  then show ?thesis using ok by (simp add: CopyFile_def)
next
  case a: (Inr s)
  show ?thesis
  proof (cases "resolveInstancePath cwd defs i b")
    case (Inl e)
    then show ?thesis using ok a by (simp add: CopyFile_def)
  next
    case b: (Inr t)
    obtain q where q: "to_path t = q" "R q" "proper_path q" using resolved_path [OF c b r] by blast
    have "same_outside R f f1 \<and> fs_ok f1"
      if "copyPath (copy_fuel f) (to_path s) q info f = Some (x, f1)" for info x f1
      using copy_region(1) [OF that R q(2,3) ok] .
    then show ?thesis
      using ok by (simp add: CopyFile_def a b q(1) split: sum.splits option.splits)
  qed
qed

lemma serve_region:
  assumes "is_abs cwd" "region_ok R f" "fs_ok f" "\<forall>rel \<in> set (req_paths q). resolves_in cwd defs i R rel"
  shows "same_outside R f (serve cwd defs i q f) \<and> fs_ok (serve cwd defs i q f)"
  using assms
  by (cases q) (auto intro!: write_region delete_region mkdirs_region rename_region copyfile_region
      simp: write_region delete_region mkdirs_region rename_region copyfile_region)

section \<open>The service as a confined operation\<close>

lemma accepted_region:
  assumes w: "\<forall>c \<in> set w. proper_name c" "w \<noteq> []" and ok: "fs_ok f" "fs_is_dir f (butlast w)"
  shows "region_ok (accepted w) f"
  unfolding region_ok_def
proof (intro conjI allI impI)
  fix p r assume "accepted w p"
  then show "accepted w (p @ r)"
    using abs_text_prefix [of p r] by (auto simp: accepted_def has_prefix_iff)
next
  fix p q assume a: "accepted w p" and p: "proper_path p" and q: "below q p"
  have pq: "\<forall>c \<in> set q. proper_name c" using p q by (auto simp: proper_path_def below_iff)
  have ex: "fs_get f q \<noteq> None" if "below q (butlast w)"
    using fs_ok_ancestors [OF ok(1) _ that] ok(2) by (auto simp: fs_is_dir_def split: option.splits)
  from a consider "below w p" | x r where "x \<noteq> []" "p = butlast w @ (last w @ x) # r"
    using accepted_iff [OF w(1) _ w(2), of p] p by (auto simp: proper_path_def)
  then show "accepted w q \<or> fs_get f q \<noteq> None"
  proof cases
    case 1
    then consider "below w q" | "below q w" using below_total q by blast
    then show ?thesis
    proof cases
      case 1
      then show ?thesis using accepted_iff [OF w(1) pq w(2)] by blast
    next
      case 2
      then have "q = w \<or> below q (butlast w)" using w(2) by (metis append_butlast_last_id below_snoc)
      then show ?thesis using ex by (auto simp: accepted_def has_prefix_def)
    qed
  next
    case (2 x r)
    have "below (butlast w) p" using 2 by simp
    then consider "below q (butlast w)" | t where "q = butlast w @ t" "t \<noteq> []"
      using below_total [OF q \<open>below (butlast w) p\<close>] by (metis append_Nil2 below_iff below_refl)
    then show ?thesis
    proof cases
      case (2 t)
      then obtain t' where "t = (last w @ x) # t'"
        using q \<open>p = _\<close> by (cases t) (auto simp: below_iff)
      then show ?thesis using accepted_iff [OF w(1) pq w(2)] 2 \<open>x \<noteq> []\<close> by blast
    qed (use ex in blast)
  qed
qed

lemma below_region:
  assumes "\<forall>c \<in> set w. proper_name c" "w \<noteq> []" "fs_ok f" "fs_is_dir f (butlast w)"
  shows "region_ok (below w) f"
proof -
  have "below w q \<or> fs_get f q \<noteq> None" if "below w p" "below q p" for p q
  proof -
    have "below q w \<Longrightarrow> q = w \<or> below q (butlast w)"
      using assms(2) by (metis append_butlast_last_id below_snoc)
    then show ?thesis
      using below_total [OF that] fs_ok_ancestors [OF assms(3), of "butlast w" q] assms(4)
      by (auto simp: fs_is_dir_def split: option.splits)
  qed
  then show ?thesis by (auto simp: region_ok_def below_iff)
qed

definition svc_region :: "string \<Rightarrow> inst_defs \<Rightarrow> string \<Rightarrow> path \<Rightarrow> bool" where
  "svc_region cwd defs i p =
     (case map_get defs i of None \<Rightarrow> False | Some def \<Rightarrow> accepted (work_path cwd def) p)"

definition svc_inv :: "string \<Rightarrow> inst_defs \<Rightarrow> string \<Rightarrow> fs \<Rightarrow> bool" where
  "svc_inv cwd defs i f \<longleftrightarrow> is_abs cwd \<and> fs_ok f \<and>
     (case map_get defs i of
        None \<Rightarrow> True
      | Some def \<Rightarrow> work_path cwd def \<noteq> [] \<and> fs_is_dir f (butlast (work_path cwd def)))"

lemma accepted_not_parent:
  assumes "w \<noteq> []" "\<forall>c \<in> set w. proper_name c" "below p (butlast w)"
  shows "\<not> accepted w p"
proof
  assume a: "accepted w p"
  obtain r where r: "w = p @ r" "r \<noteq> []"
    using assms(1,3) by (cases w rule: rev_cases) (auto simp: below_iff)
  have rne: "str_join ''/'' r \<noteq> []" using str_join_proper_ne [of r] r assms(2) by simp
  obtain t where "abs_text p = abs_text w @ t" using a by (auto simp: accepted_def has_prefix_iff)
  moreover have "length (abs_text p) < length (abs_text w)"
    using r rne by (cases "p = []") (simp_all add: abs_text_append, simp add: abs_text_def)
  ultimately show False by simp
qed

interpretation filesvc: confined "serve cwd defs i" "svc_region cwd defs i" "svc_inv cwd defs i"
  for cwd defs i
proof unfold_locales
  fix f q
  assume inv: "svc_inv cwd defs i f"
  have "same_outside (svc_region cwd defs i) f (serve cwd defs i q f) \<and>
    svc_inv cwd defs i (serve cwd defs i q f)"
  proof (cases "map_get defs i")
    case None
    then have "resolves_in cwd defs i R rel" for R rel
      by (simp add: resolves_in_def resolveInstancePath_def)
    then have "same_outside (\<lambda>p. False) f (serve cwd defs i q f) \<and> fs_ok (serve cwd defs i q f)"
      by (intro serve_region) (use inv in \<open>auto simp: svc_inv_def region_ok_def\<close>)
    then show ?thesis using inv None by (simp add: svc_inv_def svc_region_def same_outside_def)
  next
    case (Some def)
    let ?w = "work_path cwd def"
    have h: "is_abs cwd" "fs_ok f" "?w \<noteq> []" "fs_is_dir f (butlast ?w)"
      using inv Some by (auto simp: svc_inv_def)
    note pw = fp_abs_work(2) [OF h(1), of def]
    have "resolves_in cwd defs i (accepted ?w) rel" for rel
      using resolve_accepted [OF h(1) Some] by (fastforce simp: resolves_in_def)
    then have s: "same_outside (accepted ?w) f (serve cwd defs i q f) \<and> fs_ok (serve cwd defs i q f)"
      by (intro serve_region accepted_region) (use h pw in auto)
    have "\<not> accepted ?w (butlast ?w)" using accepted_not_parent [OF h(3) pw] by simp
    then have "fs_is_dir (serve cwd defs i q f) (butlast ?w)"
      using s h(4) by (simp add: same_outside_def fs_is_dir_def)
    then show ?thesis using s h Some by (simp add: svc_inv_def svc_region_def [abs_def])
  qed
  then show "same_outside (svc_region cwd defs i) f (serve cwd defs i q f)"
    and "svc_inv cwd defs i (serve cwd defs i q f)" by blast+
qed

section \<open>Copying a tree\<close>

definition depth_le :: "fs \<Rightarrow> path \<Rightarrow> nat \<Rightarrow> bool" where
  "depth_le f src n \<longleftrightarrow> (\<forall>q. below src q \<longrightarrow> fs_get f q \<noteq> None \<longrightarrow> length q \<le> length src + n)"

definition new_keys :: "fs \<Rightarrow> fs \<Rightarrow> path \<Rightarrow> nat \<Rightarrow> bool" where
  "new_keys f f' dst n \<longleftrightarrow>
     (\<forall>q. fs_get f' q \<noteq> None \<longrightarrow>
        fs_get f q \<noteq> None \<or> below q dst \<or> (below dst q \<and> length q \<le> length dst + n))"

lemma new_keys_refl [simp]: "new_keys f f dst n"
  by (simp add: new_keys_def)

lemma new_keys_trans: "new_keys f g dst n \<Longrightarrow> new_keys g h dst n \<Longrightarrow> new_keys f h dst n"
  unfolding new_keys_def by metis

lemma new_keys_child: "new_keys f g (dst @ [c]) n \<Longrightarrow> new_keys f g dst (Suc n)"
proof -
  assume a: "new_keys f g (dst @ [c]) n"
  have "below q (dst @ [c]) \<Longrightarrow> below q dst \<or> (below dst q \<and> length q \<le> length dst + Suc n)" for q
    by (auto simp: below_snoc)
  moreover have "below (dst @ [c]) q \<Longrightarrow> below dst q" for q by (auto simp: below_iff)
  ultimately show ?thesis using a unfolding new_keys_def by fastforce
qed

lemma new_keys_mkdir:
  assumes "os_mkdir_all p m f = Inr f'" "below p dst"
  shows "new_keys f f' dst n"
  unfolding new_keys_def using os_mkdir_all_spec(2) [OF assms(1)] below_trans assms(2) by metis

lemma new_keys_write: "os_write_file dst b m f = Inr f' \<Longrightarrow> new_keys f f' dst n"
  unfolding new_keys_def using os_write_file_get(2) [of dst b m f f'] below_refl by metis

lemma depth_le_new:
  assumes "depth_le f src n" "new_keys f f' dst n" "\<not> below src dst"
  shows "depth_le f' src n"
  unfolding depth_le_def
proof (intro allI impI)
  fix q assume s: "below src q" and q: "fs_get f' q \<noteq> None"
  from assms(2) q consider "fs_get f q \<noteq> None" | "below q dst" | "below dst q" "length q \<le> length dst + n"
    by (auto simp: new_keys_def)
  then show "length q \<le> length src + n"
  proof cases
    case 1
    then show ?thesis using assms(1) s by (simp add: depth_le_def)
  next
    case 2
    then show ?thesis using below_trans [OF s] assms(3) by blast
  next
    case 3
    then have "below dst src" using below_total [OF s] assms(3) by blast
    then show ?thesis using 3 below_length by fastforce
  qed
qed

lemma depth_le_child: "depth_le f src (Suc n) \<Longrightarrow> depth_le f (src @ [c]) n"
  unfolding depth_le_def by (auto simp: below_iff)

lemma not_below_child: "\<not> below src dst \<Longrightarrow> \<not> below (src @ [c]) (dst @ [c])"
  by (metis append1_eq_conv below_append below_refl below_snoc below_trans)

lemma copyPath_leaf:
  assumes "\<not> is_dir_node info"
  shows "\<exists>r f'. copyPath (Suc n) src dst info f = Some (r, f') \<and> new_keys f f' dst k"
proof (cases "os_read_file f src")
  case (Inl e)
  then show ?thesis using assms by simp
next
  case b: (Inr b)
  show ?thesis
  proof (cases "os_mkdir_all (butlast dst) 493 f")
    case (Inl e)
    then show ?thesis using assms b by simp
  next
    case m: (Inr f1)
    note k1 = new_keys_mkdir [OF m below_butlast, of k]
    show ?thesis
    proof (cases "os_write_file dst b (node_mode info) f1")
      case (Inl e)
      then show ?thesis using assms b m k1 by simp
    next
      case (Inr f2)
      then show ?thesis
        using assms b m new_keys_trans [OF k1 new_keys_write [OF Inr, of k]] by simp
    qed
  qed
qed

text \<open>With fuel for the depth of the source below it, copying ends.\<close>

lemma copyPath_ends:
  assumes "depth_le f src n" "\<not> below src dst" "fs_ok f" "proper_path dst"
  shows "\<exists>r f'. copyPath (Suc n) src dst info f = Some (r, f') \<and> new_keys f f' dst n"
  using assms
proof (induction n arbitrary: f src dst info)
  case 0
  show ?case
  proof (cases "is_dir_node info")
    case dir: True
    have "fs_children f1 src = []" if m: "os_mkdir_all dst (node_mode info) f = Inr f1" for f1
    proof -
      have ok1: "fs_ok f1" using os_mkdir_all_ok [OF m] 0 by (simp add: proper_path_def)
      have "depth_le f1 src 0" by (rule depth_le_new [OF 0(1) new_keys_mkdir [OF m below_refl] 0(2)])
      then have "fs_get f1 (src @ [c]) = None" for c by (force simp: depth_le_def)
      then have "c \<notin> set (fs_children f1 src)" for c using fs_children_iff [OF ok1] by simp
      then show ?thesis by (cases "fs_children f1 src") auto
    qed
    then show ?thesis
      using dir new_keys_mkdir [OF _ below_refl, of dst "node_mode info" f]
      by (cases "os_mkdir_all dst (node_mode info) f")
        (auto simp: os_read_dir_def split: option.splits fnode.splits)
  qed (rule copyPath_leaf)
next
  case (Suc n)
  have entries: "\<exists>r f'. copyEntries (Suc n) src dst es f = Some (r, f') \<and> new_keys f f' dst (Suc n)"
    if "depth_le f src (Suc n)" "fs_ok f" for es f
    using that
  proof (induction es arbitrary: f)
    case Nil
    then show ?case by simp
  next
    case (Cons e es)
    show ?case
    proof (cases "fs_get f (src @ [e])")
      case None
      then show ?thesis by simp
    next
      case (Some si)
      have pe: "proper_path (dst @ [e])"
        using Suc.prems(4) fs_ok_proper [OF Cons.prems(2) Some] by (simp add: proper_path_def)
      from Suc.IH [OF depth_le_child [OF Cons.prems(1)] not_below_child [OF Suc.prems(2)] Cons.prems(2) pe]
      obtain r f1 where c: "copyPath (Suc n) (src @ [e]) (dst @ [e]) si f = Some (r, f1)"
        and k: "new_keys f f1 (dst @ [e]) n" by blast
      have k': "new_keys f f1 dst (Suc n)" by (rule new_keys_child [OF k])
      have d: "depth_le f1 src (Suc n)" by (rule depth_le_new [OF Cons.prems(1) k' Suc.prems(2)])
      have ok: "fs_ok f1"
        using copy_region(1) [OF c, of "\<lambda>_. True"] pe Cons.prems(2) by (simp add: region_ok_def)
      from Cons.IH [OF d ok] show ?thesis
        using Some c k' by (cases r) (auto intro: new_keys_trans)
    qed
  qed
  show ?case
  proof (cases "is_dir_node info")
    case dir: True
    show ?thesis
    proof (cases "os_mkdir_all dst (node_mode info) f")
      case (Inl e)
      then show ?thesis using dir by simp
    next
      case (Inr f1)
      have ok1: "fs_ok f1" using os_mkdir_all_ok [OF Inr] Suc.prems by (simp add: proper_path_def)
      have k: "new_keys f f1 dst (Suc n)" by (rule new_keys_mkdir [OF Inr below_refl])
      have "depth_le f1 src (Suc n)" by (rule depth_le_new [OF Suc.prems(1) k Suc.prems(2)])
      note e = entries [OF this ok1]
      show ?thesis
      proof (cases "os_read_dir f1 src")
        case (Inl x)
        then show ?thesis using dir Inr k by simp
      next
        case es: (Inr es)
        obtain r f' where c: "copyEntries (Suc n) src dst es f1 = Some (r, f')" and k1: "new_keys f1 f' dst (Suc n)"
          using e by blast
        show ?thesis using dir Inr es c new_keys_trans [OF k k1] by simp
      qed
    qed
  qed (rule copyPath_leaf)
qed

lemma fold_max_start: "a \<le> fold max xs (a :: nat)"
proof (induction xs arbitrary: a)
  case (Cons y ys)
  show ?case using Cons [of "max y a"] by simp
qed simp

lemma fold_max_ge: "x \<in> set xs \<Longrightarrow> x \<le> fold max xs (a :: nat)"
proof (induction xs arbitrary: a)
  case (Cons y ys)
  show ?case using Cons fold_max_start [of "max y a" ys] by auto
qed simp

lemma copy_fuel_depth: "\<exists>n. copy_fuel f = Suc n \<and> depth_le f src n"
proof -
  have "length q \<le> fold max (map (length \<circ> fst) f) 0" if "fs_get f q \<noteq> None" for q
  proof (cases "q = []")
    case False
    then have "q \<in> fst ` set f" using that by (simp add: fs_get_def map_get_None_iff)
    then show ?thesis by (intro fold_max_ge) auto
  qed simp
  then show ?thesis unfolding copy_fuel_def depth_le_def by (auto intro: trans_le_add2)
qed

text \<open>
  What copying leaves untouched: it replaces data only below the destination, and removes
  nothing.
\<close>

lemma copy_keeps:
  "copyPath n src dst info f = Some (r, f') \<Longrightarrow> \<not> below dst q \<Longrightarrow> fs_get f q = Some x \<Longrightarrow> fs_get f' q = Some x"
  "copyEntries n src dst es f = Some (r, f') \<Longrightarrow> \<forall>e \<in> set es. \<not> below (dst @ [e]) q \<Longrightarrow>
     fs_get f q = Some x \<Longrightarrow> fs_get f' q = Some x"
proof (induction n src dst info f and n src dst es f arbitrary: r f' and r f'
    rule: copyPath_copyEntries.induct)
  case (2 n src dst info f)
  have ne: "\<forall>e \<in> set es. \<not> below (dst @ [e]) q" for es using 2(3) by (auto simp: below_iff)
  have "q \<noteq> dst" using 2(3) by auto
  note mk = os_mkdir_all_spec(3) [OF _ 2(4)] and wr = os_write_file_get(2) [OF _ \<open>q \<noteq> dst\<close>]
  show ?case
  proof (cases "is_dir_node info")
    case True
    then show ?thesis
      using 2(1) [OF True _ _ _ ne] 2(2,4) mk by (auto split: sum.splits)
  next
    case False
    then show ?thesis using 2(2,4) mk by (auto split: sum.splits simp: wr)
  qed
next
  case (4 n src dst e es f)
  show ?case
  proof (cases "fs_get f (src @ [e])")
    case None
    then show ?thesis using 4 by simp
  next
    case (Some si)
    obtain r1 f1 where c: "copyPath n (src @ [e]) (dst @ [e]) si f = Some (r1, f1)"
      using 4(3) Some by (auto split: option.splits)
    have k: "fs_get f1 q = Some x" by (rule 4(1) [OF Some c]) (use 4 in auto)
    show ?thesis
      using 4(2) [OF Some c refl] 4(3,4) k Some c by (cases r1) auto
  qed
qed simp_all

fun same_content :: "fnode \<Rightarrow> fnode \<Rightarrow> bool" where
  "same_content (FileNode m b) (FileNode m' b') \<longleftrightarrow> b = b'"
| "same_content (DirNode m) (DirNode m') \<longleftrightarrow> True"
| "same_content _ _ \<longleftrightarrow> False"

definition apart :: "path \<Rightarrow> path \<Rightarrow> bool" where
  "apart p q \<longleftrightarrow> \<not> below p q \<and> \<not> below q p"

lemma apart_append: "apart p q \<Longrightarrow> \<not> below q (p @ t)"
  unfolding apart_def using below_append below_total by blast

lemma apart_child: "apart p q \<Longrightarrow> apart (p @ [c]) (q @ [c])"
  unfolding apart_def using not_below_child by blast

lemma distinct_fs_children:
  assumes "fs_ok f"
  shows "distinct (fs_children f p)"
proof -
  have "inj_on last {q. q \<noteq> [] \<and> butlast q = p}"
    by (rule inj_onI) (metis (mono_tags, lifting) append_butlast_last_id mem_Collect_eq)
  then have "inj_on last (set (filter (\<lambda>q. q \<noteq> [] \<and> butlast q = p) (map fst f)))"
    by (rule inj_on_subset) auto
  moreover have "distinct (map fst f)" using assms by (simp add: fs_ok_def map_ok_def)
  ultimately show ?thesis unfolding fs_children_def by (simp add: distinct_map)
qed

lemma copy_copies:
  "copyPath n src dst info f = Some (None, f') \<Longrightarrow> apart src dst \<Longrightarrow> fs_ok f \<Longrightarrow> proper_path dst \<Longrightarrow>
     fs_get f src = Some info \<Longrightarrow> fs_get f (src @ t) = Some x \<Longrightarrow>
     \<exists>y. fs_get f' (dst @ t) = Some y \<and> same_content x y"
  "copyEntries n src dst es f = Some (None, f') \<Longrightarrow> distinct es \<Longrightarrow> apart src dst \<Longrightarrow> fs_ok f \<Longrightarrow>
     proper_path dst \<Longrightarrow> e \<in> set es \<Longrightarrow> fs_get f (src @ e # t) = Some x \<Longrightarrow>
     \<exists>y. fs_get f' (dst @ e # t) = Some y \<and> same_content x y"
proof (induction n src dst info f and n src dst es f arbitrary: t x f' and e t x f'
    rule: copyPath_copyEntries.induct)
  case (2 n src dst info f)
  have far: "\<not> below dst (src @ t)" by (rule apart_append [OF 2(3)])
  show ?case
  proof (cases info)
    case (DirNode m)
    then have dir: "is_dir_node info" by (simp add: is_dir_node_def)
    obtain f1 where m: "os_mkdir_all dst (node_mode info) f = Inr f1"
      using 2(2) dir by (auto split: sum.splits)
    obtain es where es: "os_read_dir f1 src = Inr es"
      using 2(2) dir m by (auto split: sum.splits)
    have c: "copyEntries n src dst es f1 = Some (None, f')" using 2(2) dir m es by simp
    have ok1: "fs_ok f1" using os_mkdir_all_ok [OF m 2(4)] 2(5) by (simp add: proper_path_def)
    have ch: "distinct es" "set es = set (fs_children f1 src)"
      using es distinct_fs_children [OF ok1] by (auto simp: os_read_dir_def split: option.splits fnode.splits)
    have x1: "fs_get f1 (src @ t) = Some x" using os_mkdir_all_spec(3) [OF m 2(7)] .
    show ?thesis
    proof (cases t)
      case Nil
      obtain m' where "fs_get f1 dst = Some (DirNode m')"
        using os_mkdir_all_spec(1) [OF m] by (auto simp: fs_is_dir_def split: option.splits fnode.splits)
      moreover have "\<forall>e \<in> set es. \<not> below (dst @ [e]) dst" using below_length by fastforce
      ultimately have "fs_get f' dst = Some (DirNode m')" using copy_keeps(2) [OF c] by blast
      then show ?thesis using Nil 2(6,7) DirNode by auto
    next
      case (Cons e t')
      have "fs_get f1 (src @ [e]) \<noteq> None"
        by (rule fs_ok_ancestors [OF ok1, of "src @ t"]) (use x1 Cons in \<open>auto simp: below_iff\<close>)
      then have "e \<in> set es" using fs_children_iff [OF ok1] ch(2) by blast
      from 2(1) [OF dir m es c ch(1) 2(3) ok1 2(5) this] show ?thesis using x1 Cons by simp
    qed
  next
    case (FileNode m b)
    then have fil: "\<not> is_dir_node info" by (simp add: is_dir_node_def)
    have b: "os_read_file f src = Inr b" using 2(6) FileNode by (simp add: os_read_file_def)
    obtain f1 where m: "os_mkdir_all (butlast dst) 493 f = Inr f1"
      using 2(2) fil b by (auto split: sum.splits)
    have w: "os_write_file dst b (node_mode info) f1 = Inr f'"
      using 2(2) fil b m by (auto split: sum.splits)
    have "src @ t = src"
      by (rule fs_ok_no_file_below [OF 2(4) _ 2(7)]) (use 2(6) FileNode in \<open>simp_all add: fs_is_dir_def\<close>)
    moreover have "\<exists>m'. fs_get f' dst = Some (FileNode m' b)"
      using os_write_file_get(3) [OF w] by (auto simp: os_read_file_def split: option.splits fnode.splits)
    ultimately show ?thesis using 2(6,7) FileNode by auto
  qed
next
  case (4 n src dst e' es f)
  obtain si where si: "fs_get f (src @ [e']) = Some si" using 4(3) by (auto split: option.splits)
  obtain f1 where c: "copyPath n (src @ [e']) (dst @ [e']) si f = Some (None, f1)"
    and c2: "copyEntries n src dst es f1 = Some (None, f')"
    using 4(3) si by (auto split: option.splits)
  have pe: "proper_path (dst @ [e'])"
    using 4(7) fs_ok_proper [OF 4(6) si] by (simp add: proper_path_def)
  show ?case
  proof (cases "e = e'")
    case True
    have "\<exists>y. fs_get f1 ((dst @ [e']) @ t) = Some y \<and> same_content x y"
      by (rule 4(1) [OF si c apart_child [OF 4(5)] 4(6) pe si]) (use 4(9) True in simp)
    then obtain y where y: "fs_get f1 (dst @ e' # t) = Some y" "same_content x y" by auto
    have "\<forall>d \<in> set es. \<not> below (dst @ [d]) (dst @ e' # t)" using 4(4) by (auto simp: below_iff)
    then show ?thesis using copy_keeps(2) [OF c2 _ y(1)] y(2) True by blast
  next
    case False
    have ok1: "fs_ok f1"
      using copy_region(1) [OF c, of "\<lambda>_. True"] pe 4(6) by (simp add: region_ok_def)
    have "\<not> below (dst @ [e']) (src @ e # t)" using apart_append [OF 4(5)] by (auto simp: below_iff)
    then have "fs_get f1 (src @ e # t) = Some x" using copy_keeps(1) [OF c _ 4(9)] by blast
    then show ?thesis using 4(2) [OF si c refl refl c2 _ 4(5) ok1 4(7)] 4(4,8) False by simp
  qed
qed simp_all

section \<open>The properties\<close>

definition example_defs :: inst_defs where
  "example_defs = [(''survival'', example_instance ''survival'' ''survival''),
                   (''survival2'', example_instance ''survival2'' ''survival2'')]"

definition example_fs :: fs where
  "example_fs =
     [([''srv''], DirNode 493), ([''srv'', ''survival''], DirNode 493),
      ([''srv'', ''survival'', ''a''], DirNode 493),
      ([''srv'', ''survival'', ''a'', ''x''], FileNode 420 [1, 2]),
      ([''srv'', ''survival2''], DirNode 493),
      ([''srv'', ''survival2'', ''world''], FileNode 420 [7])]"

lemma serve_inside:
  assumes cwd: "is_abs cwd" and def: "map_get defs i = Some def" "idWorkDir def \<noteq> ''''"
    and fs: "fs_ok f" "work_path cwd def \<noteq> []" "fs_is_dir f (butlast (work_path cwd def))"
    and nc: "list_all no_climb (req_paths q)"
  shows "same_outside (below (work_path cwd def)) f (serve cwd defs i q f) \<and>
    fs_ok (serve cwd defs i q f)"
proof (rule serve_region [OF cwd below_region fs(1)])
  show "\<forall>rel \<in> set (req_paths q). resolves_in cwd defs i (below (work_path cwd def)) rel"
  proof
    fix rel assume "rel \<in> set (req_paths q)"
    then have n: "no_climb rel" using nc by (simp add: list_all_iff)
    have "\<forall>c \<in> set (work_path cwd def @ clean_comps (is_abs rel) rel). proper_name c"
      using no_climb_proper [OF n] fp_abs_work(2) [OF cwd, of def] by auto
    then show "resolves_in cwd defs i (below (work_path cwd def)) rel"
      unfolding resolves_in_def resolve_no_climb [OF cwd def n] by simp
  qed
qed (use fp_abs_work(2) [OF cwd] fs in auto)



text \<open>
  Whatever sequence of requests an instance's file manager is given, paths that climb
  included, the only files that can change are in the working directory or in a sibling
  whose name begins with the name of the working directory.
\<close>

theorem file_service_region:
  assumes "svc_inv cwd defs i f" "map_get defs i = Some def" "proper_path q"
    and "fs_get (fold (serve cwd defs i) reqs f) q \<noteq> fs_get f q"
  shows "below (work_path cwd def) q \<or>
    (\<exists>ext r. ext \<noteq> [] \<and>
       q = butlast (work_path cwd def) @ (last (work_path cwd def) @ ext) # r)"
proof -
  have "is_abs cwd" "work_path cwd def \<noteq> []" using assms(1,2) by (auto simp: svc_inv_def)
  moreover have "accepted (work_path cwd def) q"
    using filesvc.many_outside [OF assms(1), of reqs] assms(2,4)
    by (auto simp: same_outside_def svc_region_def)
  ultimately show ?thesis
    using accepted_iff [OF fp_abs_work(2)] assms(3) by (simp add: proper_path_def)
qed

theorem file_service_region_witness:
  "below (work_path ''/srv'' (example_instance ''survival'' ''survival'')) [''srv'', ''survival'', ''b''] \<or>
   (\<exists>ext r. ext \<noteq> [] \<and> [''srv'', ''survival'', ''b''] =
      butlast (work_path ''/srv'' (example_instance ''survival'' ''survival'')) @
      (last (work_path ''/srv'' (example_instance ''survival'' ''survival'')) @ ext) # r)"
proof (rule file_service_region [where i = "''survival''" and f = example_fs and
      reqs = "[RenameReq ''a'' ''b'', DeleteReq ''../../etc'' True]"])
  show "svc_inv ''/srv'' example_defs ''survival'' example_fs" by code_simp
  show "map_get example_defs ''survival'' = Some (example_instance ''survival'' ''survival'')" by code_simp
  show "proper_path [''srv'', ''survival'', ''b'']" by code_simp
  show "fs_get (fold (serve ''/srv'' example_defs ''survival'')
      [RenameReq ''a'' ''b'', DeleteReq ''../../etc'' True] example_fs) [''srv'', ''survival'', ''b''] \<noteq>
    fs_get example_fs [''srv'', ''survival'', ''b'']" by code_simp
qed

text \<open>
  C7. The second case happens: the prefix test has no path separator, so a request to
  instance \<^verbatim>\<open>survival\<close> deletes a file of instance \<^verbatim>\<open>survival2\<close>.
\<close>

theorem path_check_admits_sibling:
  "DeleteFile ''/srv'' example_defs ''survival'' ''../survival2/world'' False example_fs =
     (Inr (), map_del [''srv'', ''survival2'', ''world''] example_fs)"
  by code_simp

lemma copy_guard:
  assumes "proper_path p" "proper_path q" "p \<noteq> []"
  shows "has_prefix (abs_text q @ ''/'') (abs_text p @ ''/'') \<longleftrightarrow> below p q"
proof -
  have "has_prefix (abs_text q @ ''/'') (abs_text p @ ''/'') \<longleftrightarrow>
    has_prefix (abs_text q) (abs_text p @ ''/'') \<or> abs_text q = abs_text p" (is "?l \<longleftrightarrow> ?r")
  proof
    assume ?l
    then obtain t where t: "abs_text q @ ''/'' = abs_text p @ ''/'' @ t" by (auto simp: has_prefix_iff)
    then show ?r by (cases t rule: rev_cases) (auto simp: has_prefix_iff)
  next
    assume ?r
    then show ?l by (auto simp: has_prefix_iff)
  qed
  then show ?thesis using text_below [of p q] assms by (simp add: proper_path_def)
qed

lemma resolved_ne:
  assumes "is_abs cwd" "map_get defs i = Some def" "work_path cwd def \<noteq> []"
    and "resolveInstancePath cwd defs i rel = Inr s"
  shows "\<exists>p. s = abs_text p \<and> proper_path p \<and> to_path s = p \<and> p \<noteq> []"
proof -
  obtain p where p: "s = abs_text p" "\<forall>c \<in> set p. proper_name c" "accepted (work_path cwd def) p"
    using resolve_accepted [OF assms(1,2,4)] by blast
  have "p \<noteq> []"
    using accepted_not_parent [OF assms(3) fp_abs_work(2) [OF assms(1)], of "[]"] p(3) by auto
  then show ?thesis using p by (auto simp: proper_path_def)
qed

text \<open>The copy a request that passes the guards performs, on components.\<close>

lemma CopyFile_run:
  assumes cwd: "is_abs cwd" and def: "map_get defs i = Some def"
    and fs: "fs_ok f" "work_path cwd def \<noteq> []"
    and r: "resolveInstancePath cwd defs i a = Inr s" "resolveInstancePath cwd defs i b = Inr t"
  shows "fst (CopyFile cwd defs i a b ow f) \<noteq> Inl CopyFuel \<and>
    (fst (CopyFile cwd defs i a b ow f) = Inr () \<longrightarrow>
       \<not> below (to_path s) (to_path t) \<and>
       (\<exists>info. fs_get f (to_path s) = Some info \<and>
          copyPath (copy_fuel f) (to_path s) (to_path t) info f =
            Some (None, snd (CopyFile cwd defs i a b ow f))))"
proof -
  obtain p where p: "s = abs_text p" "proper_path p" "to_path s = p" "p \<noteq> []"
    using resolved_ne [OF cwd def fs(2) r(1)] by blast
  obtain q where q: "t = abs_text q" "proper_path q" "to_path t = q" "q \<noteq> []"
    using resolved_ne [OF cwd def fs(2) r(2)] by blast
  note guard = copy_guard [OF p(2) q(2) p(4)]
  have ends: "False" if "copyPath (copy_fuel f) p q info f = None" "\<not> below p q" for info
    using copy_fuel_depth [of f p] copyPath_ends [OF _ that(2) fs(1) q(2)] that(1)
    by (metis option.distinct(1))
  show ?thesis
    unfolding CopyFile_def r sum.case p(3) q(3) unfolding p(1) q(1) guard os_stat_def
    by (auto split: option.splits dest: ends)
qed



text \<open>
  A copy that reports success has copied the whole tree: with a source that is not
  inside the destination, every file and directory of the source is found at the same
  place under the destination with the same content, and the source is unchanged.
\<close>

theorem copy_file_copies:
  assumes cwd: "is_abs cwd" and def: "map_get defs i = Some def"
    and fs: "fs_ok f" "work_path cwd def \<noteq> []"
    and r: "resolveInstancePath cwd defs i a = Inr s" "resolveInstancePath cwd defs i b = Inr t"
    and ok: "CopyFile cwd defs i a b ow f = (Inr (), f')" and out: "\<not> below (to_path t) (to_path s)"
    and x: "fs_get f (to_path s @ rel) = Some x"
  shows "fs_get f' (to_path s @ rel) = Some x \<and>
    (\<exists>y. fs_get f' (to_path t @ rel) = Some y \<and> same_content x y)"
proof -
  obtain info where info: "fs_get f (to_path s) = Some info"
    and c: "copyPath (copy_fuel f) (to_path s) (to_path t) info f = Some (None, f')"
    and nb: "\<not> below (to_path s) (to_path t)"
    using CopyFile_run [OF cwd def fs r, of ow] ok by auto
  have ap: "apart (to_path s) (to_path t)" using nb out by (simp add: apart_def)
  have pt: "proper_path (to_path t)" by (simp add: proper_path_def to_path_proper)
  from copy_copies(1) [OF c ap fs(1) pt info x] copy_keeps(1) [OF c apart_append [OF ap] x]
  show ?thesis by blast
qed

theorem copy_file_copies_witness:
  "\<exists>y. fs_get (snd (CopyFile ''/srv'' example_defs ''survival'' ''a'' ''b/c'' True example_fs))
     [''srv'', ''survival'', ''b'', ''c'', ''x''] = Some y \<and> same_content (FileNode 420 [1, 2]) y"
proof -
  let ?f = "snd (CopyFile ''/srv'' example_defs ''survival'' ''a'' ''b/c'' True example_fs)"
  have "fs_get ?f (to_path ''/srv/survival/a'' @ [''x'']) = Some (FileNode 420 [1, 2]) \<and>
    (\<exists>y. fs_get ?f (to_path ''/srv/survival/b/c'' @ [''x'']) = Some y \<and>
       same_content (FileNode 420 [1, 2]) y)"
  proof (rule copy_file_copies [where cwd = "''/srv''" and defs = example_defs and i = "''survival''"
        and def = "example_instance ''survival'' ''survival''" and a = "''a''" and b = "''b/c''"
        and ow = True and f = example_fs])
    show "CopyFile ''/srv'' example_defs ''survival'' ''a'' ''b/c'' True example_fs = (Inr (), ?f)"
      by code_simp
  qed (code_simp+)
  moreover have "to_path ''/srv/survival/b/c'' @ [''x''] = [''srv'', ''survival'', ''b'', ''c'', ''x'']"
    by code_simp
  ultimately show ?thesis by metis
qed

text \<open>
  What is written is what is read: after a successful write, reading the same path of
  the same instance returns the content, cut to the first 200 MiB and then marked as
  truncated, with the full size.
\<close>

theorem write_then_read:
  assumes "WriteFile cwd defs i p content mk f = (Inr (), f')"
  shows "ReadFile cwd defs i p f' =
    Inr \<lparr>rrPath = p, rrContent = take maxReadFileSize content, rrSize = length content,
         rrTruncated = (length content > maxReadFileSize)\<rparr>"
proof -
  obtain s where s: "resolveInstancePath cwd defs i p = Inr s"
    using assms by (auto simp: WriteFile_def split: sum.splits)
  obtain f1 where w: "os_write_file (to_path s) content 420 f1 = Inr f'"
    using assms by (auto simp: WriteFile_def s split: sum.splits)
  obtain m where "fs_get f' (to_path s) = Some (FileNode m content)"
    using os_write_file_get(3) [OF w] by (auto simp: os_read_file_def split: option.splits fnode.splits)
  then show ?thesis
    by (simp add: ReadFile_def s os_stat_def os_read_file_def is_dir_node_def node_size_def)
qed

theorem write_then_read_witness:
  "ReadFile ''/srv'' example_defs ''survival'' ''n/y''
     (snd (WriteFile ''/srv'' example_defs ''survival'' ''n/y'' [3, 4] True example_fs)) =
   Inr \<lparr>rrPath = ''n/y'', rrContent = [3, 4], rrSize = 2, rrTruncated = False\<rparr>"
proof -
  have w: "WriteFile ''/srv'' example_defs ''survival'' ''n/y'' [3, 4] True example_fs =
    (Inr (), snd (WriteFile ''/srv'' example_defs ''survival'' ''n/y'' [3, 4] True example_fs))"
    by code_simp
  show ?thesis using write_then_read [OF w] by (simp add: maxReadFileSize_def)
qed

end
