(* ===== verification/Archives.thy ===== *)
theory Archives
  imports File_Service
begin

text \<open>
  Zip archives on the agent: creating, restoring and pruning backups
  (\<^verbatim>\<open>internal/agent/backup/backup.go\<close>) and unpacking an uploaded server
  (\<^verbatim>\<open>extractServerZip\<close> of \<^verbatim>\<open>internal/agent/util.go\<close>). An archive is the list of its entries;
  the coding of an archive as bytes and the SHA-256 sum are the parameters \<open>zipEnc\<close>,
  \<open>zipDec\<close> and \<open>sha\<close>. A call that fails half-way keeps what it wrote before.
\<close>

record zip_entry =
  zeName :: string
  zeIsDir :: bool
  zeMode :: nat
  zeData :: bytes

text \<open>The file a path names in a process with working directory \<open>cwd\<close>.\<close>

definition os_path :: "string \<Rightarrow> string \<Rightarrow> path" where
  "os_path cwd s = to_path (if is_abs s then s else cwd @ CHR ''/'' # s)"

datatype backup_error =
    BkOs os_error | BkOpenZip | BkInvalidEntry string | BkRel | BkWalkFuel

section \<open>Restoring a backup\<close>

definition zip_slip :: "string \<Rightarrow> string \<Rightarrow> bool" where
  "zip_slip destPath targetDir \<longleftrightarrow>
     \<not> has_prefix (fp_clean destPath) (fp_clean targetDir @ ''/'') \<and>
     fp_clean destPath \<noteq> fp_clean targetDir"

definition restore_entry :: "string \<Rightarrow> string \<Rightarrow> zip_entry \<Rightarrow> fs \<Rightarrow> backup_error option \<times> fs" where
  "restore_entry cwd targetDir e f =
     (let destPath = fp_join [targetDir, zeName e]
      in if zip_slip destPath targetDir then (Some (BkInvalidEntry (zeName e)), f)
         else if zeIsDir e then
           (None, case os_mkdir_all (os_path cwd destPath) 493 f of Inl err \<Rightarrow> f | Inr f1 \<Rightarrow> f1)
         else
           (case os_mkdir_all (os_path cwd (fp_dir destPath)) 493 f of
              Inl err \<Rightarrow> (Some (BkOs err), f)
            | Inr f1 \<Rightarrow>
                (case os_write_file (os_path cwd destPath) (zeData e) (zeMode e) f1 of
                   Inl err \<Rightarrow> (Some (BkOs err), f1)
                 | Inr f2 \<Rightarrow> (None, f2))))"

fun restore_entries :: "string \<Rightarrow> string \<Rightarrow> zip_entry list \<Rightarrow> fs \<Rightarrow> backup_error option \<times> fs" where
  "restore_entries cwd targetDir [] f = (None, f)"
| "restore_entries cwd targetDir (e # es) f =
     (case restore_entry cwd targetDir e f of
        (Some err, f1) \<Rightarrow> (Some err, f1)
      | (None, f1) \<Rightarrow> restore_entries cwd targetDir es f1)"

definition RestoreBackup ::
  "(bytes \<Rightarrow> zip_entry list option) \<Rightarrow> string \<Rightarrow> string \<Rightarrow> string \<Rightarrow> fs \<Rightarrow> backup_error option \<times> fs" where
  "RestoreBackup zipDec cwd backupPath targetDir f =
     (case os_read_file f (os_path cwd backupPath) of
        Inl err \<Rightarrow> (Some (BkOs err), f)
      | Inr b \<Rightarrow>
          (case zipDec b of
             None \<Rightarrow> (Some BkOpenZip, f)
           | Some es \<Rightarrow> restore_entries cwd targetDir es f))"

section \<open>Creating a backup\<close>

text \<open>\<^verbatim>\<open>filepath.Walk\<close> with the callback of \<^verbatim>\<open>CreateBackup\<close>, collecting the zip entries; fuel bounds
  the depth. \<open>WalkSkip\<close> is \<^verbatim>\<open>filepath.SkipDir\<close>: it ends the directory it is returned in.\<close>

datatype walk_end = WalkOk | WalkSkip | WalkErr backup_error

definition backup_fn ::
  "string \<Rightarrow> string \<Rightarrow> string \<Rightarrow> fnode \<Rightarrow> walk_end \<times> zip_entry list" where
  "backup_fn backupDir sourceDir path info =
     (if has_prefix path backupDir then (WalkSkip, [])
      else case fp_rel sourceDir path of
             None \<Rightarrow> (WalkErr BkRel, [])
           | Some relPath \<Rightarrow>
               (case info of
                  DirNode m \<Rightarrow> (WalkOk, [])
                | FileNode m b \<Rightarrow> (WalkOk, [\<lparr>zeName = relPath, zeIsDir = False, zeMode = m, zeData = b\<rparr>])))"

primrec walk_names ::
  "(string \<Rightarrow> fnode \<Rightarrow> walk_end \<times> zip_entry list) \<Rightarrow> (string \<Rightarrow> fnode option) \<Rightarrow> string \<Rightarrow> string list \<Rightarrow>
   walk_end \<times> zip_entry list" where
  "walk_names walk lstat path [] = (WalkOk, [])"
| "walk_names walk lstat path (c # cs) =
     (let filename = fp_join [path, c]
      in case lstat filename of
           None \<Rightarrow> (WalkErr (BkOs ENOENT), [])
         | Some info \<Rightarrow>
             (let (r, es) = walk filename info
              in if r = WalkOk \<or> (r = WalkSkip \<and> is_dir_node info)
                 then (let (r', es') = walk_names walk lstat path cs in (r', es @ es'))
                 else (r, es)))"

primrec walk_dir ::
  "nat \<Rightarrow> string \<Rightarrow> string \<Rightarrow> string \<Rightarrow> fs \<Rightarrow> string \<Rightarrow> fnode \<Rightarrow> walk_end \<times> zip_entry list" where
  "walk_dir 0 cwd backupDir sourceDir f path info = (WalkErr BkWalkFuel, [])"
| "walk_dir (Suc n) cwd backupDir sourceDir f path info =
     (let (r, es) = backup_fn backupDir sourceDir path info
      in if r \<noteq> WalkOk \<or> \<not> is_dir_node info then (r, es)
         else case os_read_dir f (os_path cwd path) of
                Inl e \<Rightarrow> (WalkErr (BkOs e), [])
              | Inr names \<Rightarrow>
                  walk_names (walk_dir n cwd backupDir sourceDir f)
                    (\<lambda>p. fs_get f (os_path cwd p)) path names)"

record backup_result =
  brFilePath :: string
  brFileSize :: nat
  brChecksum :: string

definition CreateBackup ::
  "(zip_entry list \<Rightarrow> bytes) \<Rightarrow> (bytes \<Rightarrow> string) \<Rightarrow> string \<Rightarrow> string \<Rightarrow> string \<Rightarrow> string \<Rightarrow> string \<Rightarrow> string \<Rightarrow>
   fs \<Rightarrow> (backup_error + backup_result) \<times> fs" where
  "CreateBackup zipEnc sha cwd backupDir instanceID sourceDir label timestamp f =
     (case os_mkdir_all (os_path cwd backupDir) 493 f of
        Inl e \<Rightarrow> (Inl (BkOs e), f)
      | Inr f1 \<Rightarrow>
          let backupPath = fp_join [backupDir, instanceID @ ''_'' @ label @ ''_'' @ timestamp @ ''.zip'']
          in case os_write_file (os_path cwd backupPath) [] 438 f1 of
               Inl e \<Rightarrow> (Inl (BkOs e), f1)
             | Inr f2 \<Rightarrow>
                 (case (case fs_get f2 (os_path cwd sourceDir) of
                          None \<Rightarrow> (WalkErr (BkOs ENOENT), [])
                        | Some info \<Rightarrow> walk_dir (copy_fuel f2) cwd backupDir sourceDir f2 sourceDir info) of
                    (WalkErr e, es) \<Rightarrow>
                      (Inl e, case os_remove (os_path cwd backupPath) f2 of Inl x \<Rightarrow> f2 | Inr f3 \<Rightarrow> f3)
                  | (r, es) \<Rightarrow>
                      (case os_write_file (os_path cwd backupPath) (zipEnc es) 438 f2 of
                         Inl e \<Rightarrow> (Inl (BkOs e), f2)
                       | Inr f3 \<Rightarrow>
                           (Inr \<lparr>brFilePath = backupPath, brFileSize = length (zipEnc es),
                                 brChecksum = sha (zipEnc es)\<rparr>, f3))))"

section \<open>Retention\<close>

text \<open>\<^verbatim>\<open>filepath.Glob\<close> on \<^verbatim>\<open>instanceID + "_*.zip"\<close>, for an identifier without pattern characters;
  \<open>mtime\<close> is the modification time of a file.\<close>

definition backup_glob :: "string \<Rightarrow> string \<Rightarrow> bool" where
  "backup_glob instanceID name \<longleftrightarrow>
     has_prefix name (instanceID @ ''_'') \<and> has_suffix name ''.zip'' \<and> length instanceID + 5 \<le> length name"

definition retention_matches :: "path \<Rightarrow> string \<Rightarrow> fs \<Rightarrow> string list" where
  "retention_matches dir instanceID f = sort (filter (backup_glob instanceID) (fs_children f dir))"

fun delete_all :: "path \<Rightarrow> string list \<Rightarrow> fs \<Rightarrow> string list \<times> fs" where
  "delete_all dir [] f = ([], f)"
| "delete_all dir (n # ns) f =
     (case os_remove (dir @ [n]) f of
        Inl e \<Rightarrow> delete_all dir ns f
      | Inr f1 \<Rightarrow> (let (ds, f2) = delete_all dir ns f1 in (n # ds, f2)))"

definition EnforceRetention ::
  "(string \<Rightarrow> int) \<Rightarrow> string \<Rightarrow> string \<Rightarrow> nat \<Rightarrow> string \<Rightarrow> fs \<Rightarrow> string list \<times> fs" where
  "EnforceRetention mtime cwd backupDir maxCount instanceID f =
     (let dir = os_path cwd backupDir;
          matches = retention_matches dir instanceID f
      in if length matches \<le> maxCount then ([], f)
         else (let (deleted, f') = delete_all dir (drop maxCount (sort_key (\<lambda>n. - mtime n) matches)) f
               in (map (\<lambda>n. fp_join [backupDir, n]) deleted, f')))"

section \<open>Unpacking an uploaded server\<close>

fun zip_root :: "zip_entry \<Rightarrow> string list" where
  "zip_root e = (case splitn CHR ''/'' 2 (zeName e) of
     [a, b] \<Rightarrow> [a]
   | _ \<Rightarrow> if zeIsDir e then [] else [''__ROOT_FILE__''])"

definition strip_prefix :: "zip_entry list \<Rightarrow> string" where
  "strip_prefix es =
     (case remdups (concat (map zip_root es)) of
        [k] \<Rightarrow> if k = ''__ROOT_FILE__'' then '''' else k @ ''/''
      | _ \<Rightarrow> '''')"

definition stripped :: "string \<Rightarrow> string \<Rightarrow> string option" where
  "stripped pre name =
     (if pre = '''' then Some name
      else if has_prefix name pre then Some (trim_prefix name pre) else None)"

definition extract_entry ::
  "string \<Rightarrow> string \<Rightarrow> string \<Rightarrow> zip_entry \<Rightarrow> fs \<Rightarrow> backup_error option \<times> string \<times> fs" where
  "extract_entry cwd targetDir name e f =
     (let destPath = fp_join [targetDir, name]
      in if \<not> has_prefix (fp_clean destPath) (fp_clean targetDir) then (None, '''', f)
         else if zeIsDir e then
           (case os_mkdir_all (os_path cwd destPath) 493 f of
              Inl err \<Rightarrow> (Some (BkOs err), '''', f) | Inr f1 \<Rightarrow> (None, '''', f1))
         else
           (case os_mkdir_all (os_path cwd (fp_dir destPath)) 493 f of
              Inl err \<Rightarrow> (Some (BkOs err), '''', f)
            | Inr f1 \<Rightarrow>
                (case os_write_file (os_path cwd destPath) (zeData e) (zeMode e) f1 of
                   Inl err \<Rightarrow> (Some (BkOs err), '''', f1)
                 | Inr f2 \<Rightarrow>
                     (None, if has_suffix (to_lower name) ''.jar'' \<and> \<not> str_contains name ''/'' then name else '''',
                      f2))))"

fun extract_entries ::
  "string \<Rightarrow> string \<Rightarrow> string \<Rightarrow> string \<Rightarrow> zip_entry list \<Rightarrow> fs \<Rightarrow> (backup_error + string) \<times> fs" where
  "extract_entries cwd targetDir pre jar [] f = (Inr jar, f)"
| "extract_entries cwd targetDir pre jar (e # es) f =
     (case stripped pre (zeName e) of
        None \<Rightarrow> extract_entries cwd targetDir pre jar es f
      | Some name \<Rightarrow>
          if name = '''' then extract_entries cwd targetDir pre jar es f
          else (case extract_entry cwd targetDir name e f of
                  (Some err, j, f1) \<Rightarrow> (Inl err, f1)
                | (None, j, f1) \<Rightarrow>
                    extract_entries cwd targetDir pre (if j = '''' then jar else j) es f1))"

definition extractServerZip ::
  "(bytes \<Rightarrow> zip_entry list option) \<Rightarrow> string \<Rightarrow> bytes \<Rightarrow> string \<Rightarrow> fs \<Rightarrow> (backup_error + string) \<times> fs" where
  "extractServerZip zipDec cwd zipData targetDir f =
     (case zipDec zipData of
        None \<Rightarrow> (Inl BkOpenZip, f)
      | Some es \<Rightarrow> extract_entries cwd targetDir (strip_prefix es) '''' es f)"

section \<open>Where an archive entry goes\<close>

definition comps :: "string \<Rightarrow> string list" where
  "comps p = clean_comps (is_abs p) p"

definition path_text :: "bool \<Rightarrow> string list \<Rightarrow> string" where
  "path_text ab cs = (if ab then abs_text cs else rel_text cs)"

definition os_base :: "string \<Rightarrow> bool \<Rightarrow> path" where
  "os_base cwd ab = (if ab then [] else to_path cwd)"

lemma fp_clean_text: "fp_clean p = path_text (is_abs p) (comps p)"
  by (simp add: path_text_def comps_def fp_clean_abs fp_clean_rel)

lemma fp_join_text:
  assumes "t \<noteq> []"
  shows "fp_join [t, n] = path_text (is_abs t) (clean_comps (is_abs t) (t @ CHR ''/'' # n))"
proof -
  have "is_abs (t @ CHR ''/'' # n) = is_abs t"
    using assms by (cases t) (auto simp: is_abs_def has_prefix_def)
  then show ?thesis using assms by (simp add: fp_join_clean fp_clean_text comps_def)
qed

lemma fp_clean_join: "t \<noteq> [] \<Longrightarrow> fp_clean (fp_join [t, n]) = fp_join [t, n]"
  by (simp add: fp_join_clean fp_clean_idem)

lemma os_path_text:
  assumes "\<forall>c \<in> set cs. proper_name c"
  shows "os_path cwd (path_text ab cs) = os_base cwd ab @ cs"
proof (cases ab)
  case True
  then show ?thesis using assms by (simp add: os_path_def path_text_def os_base_def)
next
  case ab: False
  have c: "clean_comps False (rel_text cs) = cs"
  proof (cases "cs = []")
    case True
    then show ?thesis by (simp add: rel_text_def) (simp add: clean_comps_def clean_step_def)
  qed (simp add: rel_text_def clean_comps_join [OF assms])
  have na: "\<not> is_abs (rel_text cs)"
    using str_join_not_abs [of cs] assms by (auto simp: rel_text_def proper_name_def is_abs_def has_prefix_def)
  have "''..'' \<notin> set cs" using assms by (auto simp: proper_name_def)
  then have "to_path (cwd @ CHR ''/'' # rel_text cs) = to_path cwd @ cs"
    using clean_comps_under [of "rel_text cs" cwd] c by (simp add: to_path_def)
  then show ?thesis using ab na by (simp add: os_path_def path_text_def os_base_def)
qed

lemma fp_dir_text:
  assumes "\<forall>c \<in> set (cs @ [n]). proper_name c"
  shows "fp_dir (path_text ab (cs @ [n])) = path_text ab cs"
proof (cases ab)
  case True
  then show ?thesis using fp_dir_abs_text [OF assms] by (simp add: path_text_def)
next
  case False
  have n: "CHR ''/'' \<notin> set n" using assms by (simp add: proper_name_def)
  have p: "\<forall>c \<in> set cs. proper_name c" using assms by simp
  show ?thesis
  proof (cases "cs = []")
    case True
    then have "fp_dir (path_text ab (cs @ [n])) = fp_clean []"
      using False n by (simp add: path_text_def rel_text_def fp_dir_def upto_last_slash_def last_index_None)
    also have "\<dots> = path_text ab cs"
      using False True by (simp add: fp_clean_rel is_abs_def has_prefix_def path_text_def)
    finally show ?thesis .
  next
    case ne: False
    have "fp_dir (path_text ab (cs @ [n])) = fp_clean (str_join ''/'' cs @ ''/'')"
      using False ne n by (simp add: path_text_def rel_text_def fp_dir_def str_join_append upto_last_slash_append)
    also have "\<dots> = rel_text (clean_comps False (str_join ''/'' cs @ ''/''))"
    proof (rule fp_clean_rel)
      have "\<not> is_abs (str_join ''/'' cs)"
        using str_join_not_abs [OF ne] p by (auto simp: proper_name_def)
      moreover have "str_join ''/'' cs \<noteq> []" using str_join_proper_ne [OF p ne] .
      ultimately show "\<not> is_abs (str_join ''/'' cs @ ''/'')"
        by (cases "str_join ''/'' cs") (auto simp: is_abs_def has_prefix_def)
    qed
    also have "\<dots> = path_text ab cs" using False p by (simp add: path_text_def clean_comps_join)
    finally show ?thesis .
  qed
qed

text \<open>What the check of \<^verbatim>\<open>RestoreBackup\<close> lets through, for a target that does not climb.\<close>

lemma zip_slip_contained:
  assumes t: "no_climb target" "comps target \<noteq> []" "target \<noteq> []"
    and ok: "\<not> zip_slip (fp_join [target, name]) target"
  shows "\<exists>r. fp_join [target, name] = path_text (is_abs target) (comps target @ r) \<and>
    (\<forall>c \<in> set (comps target @ r). proper_name c)"
proof -
  let ?d = "clean_comps (is_abs target) (target @ CHR ''/'' # name)"
  have pt: "\<forall>c \<in> set (comps target). proper_name c" using no_climb_proper [OF t(1)] by (simp add: comps_def)
  have j: "fp_join [target, name] = path_text (is_abs target) ?d" by (rule fp_join_text [OF t(3)])
  have chk: "has_prefix (path_text (is_abs target) ?d) (path_text (is_abs target) (comps target) @ ''/'') \<or>
      path_text (is_abs target) ?d = path_text (is_abs target) (comps target)"
    using ok fp_clean_join [OF t(3), of name] unfolding zip_slip_def j by (simp add: fp_clean_text [of target])
  have "\<exists>r. ?d = comps target @ r \<and> (\<forall>c \<in> set ?d. proper_name c)"
  proof (cases "is_abs target")
    case True
    have pd: "\<forall>c \<in> set ?d. proper_name c" using True by (simp add: clean_comps_rooted)
    have "below (comps target) ?d"
      using text_below [OF pt pd t(2)] chk True by (simp add: path_text_def)
    then show ?thesis using pd by (auto simp: below_iff)
  next
    case False
    obtain k ps where s: "?d = replicate k ''..'' @ ps" "\<forall>c \<in> set ps. proper_name c"
      using clean_comps_shape [of "target @ CHR ''/'' # name"] False by auto
    have tt: "split_on CHR ''/'' (str_join ''/'' (comps target)) = comps target"
      by (rule split_on_join_proper [OF pt t(2)])
    have rt: "path_text (is_abs target) (comps target) = str_join ''/'' (comps target)"
      using False t(2) by (simp add: path_text_def rel_text_def)
    have dne: "?d \<noteq> []"
    proof
      assume "?d = []"
      then have c: "has_prefix ''.'' (str_join ''/'' (comps target) @ ''/'') \<or> ''.'' = str_join ''/'' (comps target)"
        using chk rt False by (simp add: path_text_def rel_text_def)
      then have "str_join ''/'' (comps target) = ''.''"
        using str_join_proper_ne [OF pt t(2)]
        by (cases "str_join ''/'' (comps target)") (auto simp: has_prefix_iff)
      then have "comps target = [''.'']" using tt by simp
      then show False using pt by (simp add: proper_name_def)
    qed
    have dd: "split_on CHR ''/'' (str_join ''/'' ?d) = ?d"
      using split_on_clean_comps [of "target @ CHR ''/'' # name"] dne False by simp
    have rd: "path_text (is_abs target) ?d = str_join ''/'' ?d"
      using False dne by (simp add: path_text_def rel_text_def)
    have "\<exists>r. ?d = comps target @ r"
    proof -
      from chk consider x where "str_join ''/'' ?d = str_join ''/'' (comps target) @ CHR ''/'' # x"
        | "str_join ''/'' ?d = str_join ''/'' (comps target)"
        unfolding rt rd by (auto simp: has_prefix_iff)
      then show ?thesis
      proof cases
        case 1
        then have "?d = comps target @ split_on CHR ''/'' x"
          using dd tt by (metis split_on_append)
        then show ?thesis by blast
      next
        case 2
        then show ?thesis using dd tt by (metis append_Nil2)
      qed
    qed
    then obtain r where r: "?d = comps target @ r" by blast
    have "k = 0"
    proof (rule ccontr)
      assume "k \<noteq> 0"
      then have "hd ?d = ''..''" using s(1) by (cases k) auto
      then have "hd (comps target) = ''..''" using r t(2) by simp
      then show False using pt t(2) by (metis hd_in_set proper_name_def)
    qed
    then show ?thesis using r s by auto
  qed
  then show ?thesis using j by auto
qed

section \<open>Restoring stays inside the target\<close>

definition target_ok :: "string \<Rightarrow> bool" where
  "target_ok t \<longleftrightarrow> t \<noteq> [] \<and> no_climb t \<and> comps t \<noteq> []"

lemma os_path_target:
  assumes "target_ok t"
  shows "os_path cwd t = os_base cwd (is_abs t) @ comps t"
proof (cases "is_abs t")
  case True
  then show ?thesis by (simp add: os_path_def os_base_def comps_def to_path_def)
next
  case False
  have "''..'' \<notin> set (clean_comps False t)" using assms False by (simp add: target_ok_def no_climb_def)
  then show ?thesis
    using False clean_comps_under [of t cwd] by (simp add: os_path_def os_base_def comps_def to_path_def)
qed

lemma target_proper: "target_ok t \<Longrightarrow> \<forall>c \<in> set (comps t). proper_name c"
  using no_climb_proper [of t] by (simp add: target_ok_def comps_def)

lemma os_base_proper: "\<forall>c \<in> set (os_base cwd ab). proper_name c"
  by (simp add: os_base_def to_path_proper)

text \<open>Where an entry that passes the check is written.\<close>

lemma restore_dest:
  assumes "target_ok t" "\<not> zip_slip (fp_join [t, name]) t"
  shows "\<exists>r. proper_path (os_path cwd t @ r) \<and> os_path cwd (fp_join [t, name]) = os_path cwd t @ r \<and>
    below (os_path cwd (fp_dir (fp_join [t, name]))) (os_path cwd t @ r)"
proof -
  obtain r where r: "fp_join [t, name] = path_text (is_abs t) (comps t @ r)"
    "\<forall>c \<in> set (comps t @ r). proper_name c"
    using zip_slip_contained [OF _ _ _ assms(2)] assms(1) by (auto simp: target_ok_def)
  have d: "os_path cwd (fp_join [t, name]) = os_path cwd t @ r"
    using os_path_text [OF r(2)] by (simp add: r(1) os_path_target [OF assms(1)])
  obtain cs n where cn: "comps t @ r = cs @ [n]"
    using assms(1) by (cases "comps t @ r" rule: rev_cases) (auto simp: target_ok_def)
  have "os_path cwd (fp_dir (fp_join [t, name])) = os_base cwd (is_abs t) @ cs"
    using r(2) os_path_text [of cs] by (simp only: r(1) cn) (simp add: fp_dir_text)
  moreover have "os_path cwd t @ r = (os_base cwd (is_abs t) @ cs) @ [n]"
    using cn by (simp add: os_path_target [OF assms(1)])
  ultimately have "below (os_path cwd (fp_dir (fp_join [t, name]))) (os_path cwd t @ r)"
    by (metis below_append)
  moreover have "proper_path (os_path cwd t @ r)"
    using r(2) os_base_proper [of cwd "is_abs t"] by (auto simp: proper_path_def os_path_target [OF assms(1)])
  ultimately show ?thesis using d by blast
qed

lemma restore_entry_region:
  assumes t: "target_ok t" and R: "region_ok (below (os_path cwd t)) f" and ok: "fs_ok f"
  shows "same_outside (below (os_path cwd t)) f (snd (restore_entry cwd t e f)) \<and>
    fs_ok (snd (restore_entry cwd t e f))"
proof (cases "zip_slip (fp_join [t, zeName e]) t")
  case True
  then show ?thesis using ok by (simp add: restore_entry_def Let_def)
next
  case False
  obtain r where r: "proper_path (os_path cwd t @ r)"
    "os_path cwd (fp_join [t, zeName e]) = os_path cwd t @ r"
    "below (os_path cwd (fp_dir (fp_join [t, zeName e]))) (os_path cwd t @ r)"
    using restore_dest [OF t False] by blast
  note mk = mkdir_region [OF _ R below_append r(1) _ ok]
  show ?thesis
  proof (cases "zeIsDir e")
    case True
    then show ?thesis
      using ok False mk [OF _ below_refl]
      by (simp add: restore_entry_def Let_def r(2) del: fp_join.simps split: sum.splits)
  next
    case nd: False
    show ?thesis
    proof (cases "os_mkdir_all (os_path cwd (fp_dir (fp_join [t, zeName e]))) 493 f")
      case (Inl err)
      then show ?thesis using ok nd False by (simp add: restore_entry_def Let_def)
    next
      case m: (Inr f1)
      note m1 = mk [OF m r(3)]
      show ?thesis
      proof (cases "os_write_file (os_path cwd t @ r) (zeData e) (zeMode e) f1")
        case (Inl err)
        then show ?thesis
          using m1 nd False by (simp add: restore_entry_def Let_def m r(2))
      next
        case (Inr f2)
        have "fs_ok f2" using os_write_file_ok [OF _ _ Inr] m1 r(1) by (simp add: proper_path_def)
        moreover have "same_outside (below (os_path cwd t)) f f2"
          using m1 os_write_file_outside [OF Inr, of "below (os_path cwd t)"]
          by (auto intro: same_outside_trans)
        ultimately show ?thesis
          using nd False Inr by (simp add: restore_entry_def Let_def m r(2))
      qed
    qed
  qed
qed

definition restore_inv :: "string \<Rightarrow> string \<Rightarrow> fs \<Rightarrow> bool" where
  "restore_inv cwd t f \<longleftrightarrow> target_ok t \<and> fs_ok f \<and> fs_is_dir f (butlast (os_path cwd t))"

interpretation restore: confined "\<lambda>e f. snd (restore_entry cwd t e f)" "below (os_path cwd t)" "restore_inv cwd t"
  for cwd t
proof unfold_locales
  fix f e
  assume inv: "restore_inv cwd t f"
  then have t: "target_ok t" and ok: "fs_ok f" "fs_is_dir f (butlast (os_path cwd t))"
    by (auto simp: restore_inv_def)
  have ne: "os_path cwd t \<noteq> []" using t by (simp add: os_path_target target_ok_def)
  have p: "\<forall>c \<in> set (os_path cwd t). proper_name c" by (simp add: os_path_def to_path_proper)
  note s = restore_entry_region [OF t below_region [OF p ne ok] ok(1), of e]
  then show "same_outside (below (os_path cwd t)) f (snd (restore_entry cwd t e f))" by blast
  have "\<not> below (os_path cwd t) (butlast (os_path cwd t))"
    using ne below_length [of "os_path cwd t" "butlast (os_path cwd t)"]
    by (cases "os_path cwd t" rule: rev_cases) auto
  then have "fs_is_dir (snd (restore_entry cwd t e f)) (butlast (os_path cwd t))"
    using s ok(2) by (simp add: same_outside_def fs_is_dir_def)
  then show "restore_inv cwd t (snd (restore_entry cwd t e f))" using s t by (simp add: restore_inv_def)
qed

lemma restore_entries_fold:
  "\<exists>done. snd (restore_entries cwd t es f) = fold (\<lambda>e f. snd (restore_entry cwd t e f)) done f"
proof (induction es arbitrary: f)
  case Nil
  show ?case by (rule exI [of _ "[]"]) simp
next
  case (Cons e es)
  obtain r f1 where e: "restore_entry cwd t e f = (r, f1)" by fastforce
  show ?case
  proof (cases r)
    case None
    obtain d where "snd (restore_entries cwd t es f1) = fold (\<lambda>e f. snd (restore_entry cwd t e f)) d f1"
      using Cons by blast
    then show ?thesis using e None by (intro exI [of _ "e # d"]) simp
  next
    case (Some err)
    then show ?thesis using e by (intro exI [of _ "[e]"]) simp
  qed
qed

text \<open>
  C17. Restoring a backup cannot reach outside the instance: whatever bytes the archive
  holds, whatever its entry names are, and also when the restore fails half-way, no file
  outside the target directory changes. The target may be absolute or relative, but not
  climb or be the root or the current directory.
\<close>

theorem restore_stays_inside:
  assumes "target_ok targetDir" "fs_ok f" "fs_is_dir f (butlast (os_path cwd targetDir))"
  shows "same_outside (below (os_path cwd targetDir)) f
    (snd (RestoreBackup zipDec cwd backupPath targetDir f))"
proof -
  have inv: "restore_inv cwd targetDir f" using assms by (simp add: restore_inv_def)
  have "same_outside (below (os_path cwd targetDir)) f (snd (restore_entries cwd targetDir es f))" for es
    using restore_entries_fold [of cwd targetDir es f] restore.many_outside [OF inv] by metis
  then show ?thesis by (simp add: RestoreBackup_def split: sum.splits option.splits)
qed

definition evil_zip :: "zip_entry list" where
  "evil_zip = [\<lparr>zeName = ''world/level.dat'', zeIsDir = False, zeMode = 420, zeData = [9]\<rparr>,
               \<lparr>zeName = ''../survival2/world'', zeIsDir = False, zeMode = 420, zeData = [6, 6]\<rparr>]"

definition backup_fs :: fs where
  "backup_fs = ([''srv'', ''b.zip''], FileNode 420 [0]) # example_fs"

theorem restore_stays_inside_witness:
  "same_outside (below [''srv'', ''survival'']) backup_fs
     (snd (RestoreBackup (\<lambda>b. Some evil_zip) ''/srv'' ''b.zip'' ''survival'' backup_fs)) \<and>
   fst (RestoreBackup (\<lambda>b. Some evil_zip) ''/srv'' ''b.zip'' ''survival'' backup_fs) =
     Some (BkInvalidEntry ''../survival2/world'')"
proof -
  have w: "os_path ''/srv'' ''survival'' = [''srv'', ''survival'']" by code_simp
  have "same_outside (below (os_path ''/srv'' ''survival'')) backup_fs
     (snd (RestoreBackup (\<lambda>b. Some evil_zip) ''/srv'' ''b.zip'' ''survival'' backup_fs))"
    by (rule restore_stays_inside) (code_simp+)
  moreover have "fst (RestoreBackup (\<lambda>b. Some evil_zip) ''/srv'' ''b.zip'' ''survival'' backup_fs) =
     Some (BkInvalidEntry ''../survival2/world'')" by code_simp
  ultimately show ?thesis by (simp add: w)
qed

text \<open>The unpacking of an uploaded server compares without the separator, and the same archive
  entry is written into the other instance's directory.\<close>

theorem server_zip_escapes:
  "fs_get (snd (extractServerZip (\<lambda>b. Some evil_zip) ''/srv'' [0] ''survival'' backup_fs))
     [''srv'', ''survival2'', ''world''] = Some (FileNode 420 [6, 6])"
  by code_simp

section \<open>A backup holds every file, and restoring brings it back\<close>

definition file_entry :: "string list \<Rightarrow> nat \<Rightarrow> bytes \<Rightarrow> zip_entry" where
  "file_entry t m b = \<lparr>zeName = rel_text t, zeIsDir = False, zeMode = m, zeData = b\<rparr>"

lemma is_abs_path_text:
  assumes "\<forall>c \<in> set cs. proper_name c"
  shows "is_abs (path_text ab cs) = ab"
  using str_join_not_abs [of cs] assms
  by (auto simp: path_text_def rel_text_def proper_name_def is_abs_def has_prefix_def abs_text_def)

lemma comps_path_text:
  assumes "\<forall>c \<in> set cs. proper_name c"
  shows "comps (path_text ab cs) = cs"
proof (cases ab)
  case True
  then show ?thesis using assms by (simp add: comps_def path_text_def)
next
  case False
  have "clean_comps False (rel_text cs) = cs"
  proof (cases "cs = []")
    case True
    then show ?thesis by (simp add: rel_text_def) (simp add: clean_comps_def clean_step_def)
  qed (simp add: rel_text_def clean_comps_join [OF assms])
  then show ?thesis using False is_abs_path_text [OF assms, of ab] by (simp add: comps_def path_text_def)
qed

lemma drop_common_prefix: "drop_common s (s @ t) = ([], t)"
  by (induction s) (cases t, simp_all)

lemma fp_rel_below:
  assumes "\<forall>c \<in> set (s @ t). proper_name c"
  shows "fp_rel (path_text ab s) (path_text ab (s @ t)) = Some (rel_text t)"
proof -
  have p: "\<forall>c \<in> set s. proper_name c" using assms by simp
  have "comps (path_text ab s) = s" "comps (path_text ab (s @ t)) = s @ t"
    using comps_path_text [OF p] comps_path_text [OF assms] by blast+
  then show ?thesis
    using is_abs_path_text [OF p, of ab] is_abs_path_text [OF assms, of ab]
    by (simp add: fp_rel_def comps_def drop_common_prefix rel_text_def split: list.splits)
qed

lemma fp_join_path_text:
  assumes "\<forall>c \<in> set (cs @ [n]). proper_name c"
  shows "fp_join [path_text ab cs, n] = path_text ab (cs @ [n])"
proof -
  let ?p = "path_text ab cs"
  have p: "\<forall>c \<in> set cs. proper_name c" using assms by simp
  have ne: "?p \<noteq> []" using str_join_proper_ne [OF p] by (auto simp: path_text_def rel_text_def abs_text_def)
  have s: "split_on CHR ''/'' n = [n]" using assms by (simp add: split_on_nosep proper_name_def)
  have "clean_step ab n out = n # out" for out using assms by (simp add: clean_step_def proper_name_def)
  then have "clean_comps ab (?p @ CHR ''/'' # n) = comps ?p @ [n]"
    using is_abs_path_text [OF p, of ab] by (simp add: fold_clean_append s comps_def)
  then show ?thesis
    using fp_join_text [OF ne, of n] is_abs_path_text [OF p, of ab] comps_path_text [OF p] by simp
qed

text \<open>
  The walk over a tree none of whose paths is skipped ends, and collects exactly the files
  of the tree.
\<close>

definition entries_below :: "fs \<Rightarrow> path \<Rightarrow> string list \<Rightarrow> zip_entry set" where
  "entries_below f p t = {file_entry (t @ u) m b | u m b. fs_get f (p @ u) = Some (FileNode m b)}"

lemma entries_below_dir:
  assumes "fs_ok f" "fs_get f p = Some (DirNode m)"
  shows "entries_below f p t = (\<Union>c \<in> set (fs_children f p). entries_below f (p @ [c]) (t @ [c]))"
proof (intro set_eqI iffI)
  fix e assume "e \<in> entries_below f p t"
  then obtain u m' b where u: "e = file_entry (t @ u) m' b" "fs_get f (p @ u) = Some (FileNode m' b)"
    by (auto simp: entries_below_def)
  then obtain c v where v: "u = c # v" using assms(2) by (cases u) auto
  have "fs_get f (p @ [c]) \<noteq> None"
    by (rule fs_ok_ancestors [OF assms(1), of "p @ u"]) (use u v in \<open>auto simp: below_iff\<close>)
  then have "c \<in> set (fs_children f p)" using fs_children_iff [OF assms(1)] by blast
  then show "e \<in> (\<Union>c \<in> set (fs_children f p). entries_below f (p @ [c]) (t @ [c]))"
    using u v by (fastforce simp: entries_below_def)
next
  fix e assume "e \<in> (\<Union>c \<in> set (fs_children f p). entries_below f (p @ [c]) (t @ [c]))"
  then obtain c u m' b where "e = file_entry ((t @ [c]) @ u) m' b" "fs_get f ((p @ [c]) @ u) = Some (FileNode m' b)"
    by (auto simp: entries_below_def)
  then show "e \<in> entries_below f p t" by (force simp: entries_below_def)
qed

lemma walk_collects:
  assumes ok: "fs_ok f" and s: "\<forall>c \<in> set (s @ t). proper_name c"
    and info: "fs_get f (os_base cwd ab @ s @ t) = Some info"
    and depth: "depth_le f (os_base cwd ab @ s @ t) n"
    and noskip: "\<And>u. \<not> has_prefix (path_text ab (s @ u)) backupDir"
  shows "\<exists>es. walk_dir (Suc n) cwd backupDir (path_text ab s) f (path_text ab (s @ t)) info = (WalkOk, es) \<and>
    set es = entries_below f (os_base cwd ab @ s @ t) t"
  using s info depth
proof (induction n arbitrary: t info)
  case (0 t info)
  have fn: "backup_fn backupDir (path_text ab s) (path_text ab (s @ t)) info =
    (WalkOk, case info of DirNode m \<Rightarrow> [] | FileNode m b \<Rightarrow> [file_entry t m b])"
    using noskip [of t] fp_rel_below [OF 0(1)] by (simp add: backup_fn_def file_entry_def split: fnode.splits)
  have leaf: "fs_get f (os_base cwd ab @ s @ t @ u) = None" if "u \<noteq> []" for u
  proof (rule ccontr)
    assume "fs_get f (os_base cwd ab @ s @ t @ u) \<noteq> None"
    then have "length (os_base cwd ab @ s @ t @ u) \<le> length (os_base cwd ab @ s @ t) + 0"
      using 0(3) unfolding depth_le_def by (metis append.assoc below_append)
    then show False using that by simp
  qed
  have eb: "entries_below f (os_base cwd ab @ s @ t) t =
      (case info of DirNode m \<Rightarrow> {} | FileNode m b \<Rightarrow> {file_entry t m b})"
  proof -
    have "fs_get f (os_base cwd ab @ s @ t @ u) = Some (FileNode m b) \<longleftrightarrow> u = [] \<and> info = FileNode m b" for u m b
      using leaf [of u] 0(2) by (cases "u = []") auto
    then show ?thesis by (auto simp: entries_below_def split: fnode.splits)
  qed
  show ?case
  proof (cases info)
    case (DirNode m)
    have "fs_children f (os_base cwd ab @ s @ t) = []"
      using leaf fs_children_iff [OF ok, of _ "os_base cwd ab @ s @ t"]
      by (cases "fs_children f (os_base cwd ab @ s @ t)") auto
    then have "os_read_dir f (os_path cwd (path_text ab (s @ t))) = Inr []"
      using 0(2) DirNode by (simp add: os_read_dir_def os_path_text [OF 0(1)])
    then show ?thesis using fn eb DirNode by (simp add: is_dir_node_def)
  next
    case (FileNode m b)
    then show ?thesis using fn eb by (simp add: is_dir_node_def)
  qed
next
  case (Suc n t info)
  have fn: "backup_fn backupDir (path_text ab s) (path_text ab (s @ t)) info =
    (WalkOk, case info of DirNode m \<Rightarrow> [] | FileNode m b \<Rightarrow> [file_entry t m b])"
    using noskip [of t] fp_rel_below [OF Suc.prems(1)]
    by (simp add: backup_fn_def file_entry_def split: fnode.splits)
  show ?case
  proof (cases info)
    case (FileNode m b)
    have "u = []" if "fs_get f (os_base cwd ab @ s @ t @ u) = Some x" for u x
      using fs_ok_no_file_below [OF ok, of "os_base cwd ab @ s @ t" "os_base cwd ab @ s @ t @ u" x]
        that Suc.prems(2) FileNode by (simp add: fs_is_dir_def below_def)
    then have "fs_get f (os_base cwd ab @ s @ t @ u) = Some (FileNode m' b') \<longleftrightarrow> u = [] \<and> m' = m \<and> b' = b"
      for u m' b' using Suc.prems(2) FileNode by (metis append_Nil2 fnode.inject(2) option.inject)
    then have "entries_below f (os_base cwd ab @ s @ t) t = {file_entry t m b}"
      by (auto simp: entries_below_def)
    then show ?thesis using fn FileNode by (simp add: is_dir_node_def)
  next
    case (DirNode m)
    let ?p = "os_base cwd ab @ s @ t"
    let ?walk = "walk_dir (Suc n) cwd backupDir (path_text ab s) f"
    let ?lstat = "\<lambda>p. fs_get f (os_path cwd p)"
    have names: "\<exists>es. walk_names ?walk ?lstat (path_text ab (s @ t)) cs = (WalkOk, es) \<and>
        set es = (\<Union>c \<in> set cs. entries_below f (?p @ [c]) (t @ [c]))"
      if "set cs \<subseteq> set (fs_children f ?p)" for cs
      using that
    proof (induction cs)
      case Nil
      then show ?case by simp
    next
      case (Cons c cs)
      then obtain ci where ci: "fs_get f (?p @ [c]) = Some ci"
        using fs_children_iff [OF ok, of c ?p] by auto
      have pc: "\<forall>d \<in> set (s @ t @ [c]). proper_name d"
        using fs_ok_proper [OF ok ci] by simp
      have j: "fp_join [path_text ab (s @ t), c] = path_text ab (s @ t @ [c])"
        using fp_join_path_text [of "s @ t" c ab] pc by simp
      have l: "?lstat (path_text ab (s @ t @ [c])) = Some ci"
        using ci by (simp add: os_path_text [OF pc])
      have "depth_le f (os_base cwd ab @ s @ t @ [c]) n"
        using depth_le_child [OF Suc.prems(3), of c] by simp
      from Suc.IH [OF pc _ this, of ci] obtain es where
        es: "?walk (path_text ab (s @ t @ [c])) ci = (WalkOk, es)"
          "set es = entries_below f (os_base cwd ab @ s @ t @ [c]) (t @ [c])"
        using ci by auto
      obtain es' where es': "walk_names ?walk ?lstat (path_text ab (s @ t)) cs = (WalkOk, es')"
        "set es' = (\<Union>c \<in> set cs. entries_below f (?p @ [c]) (t @ [c]))"
        using Cons.IH Cons.prems by (meson order.trans set_subset_Cons)
      show ?case using es es' l by (simp add: j Let_def del: walk_dir.simps)
    qed
    have "set (sort (fs_children f ?p)) \<subseteq> set (fs_children f ?p)" by simp
    from names [OF this]
    obtain es where "walk_names ?walk ?lstat (path_text ab (s @ t)) (sort (fs_children f ?p)) = (WalkOk, es)"
      "set es = (\<Union>c \<in> set (sort (fs_children f ?p)). entries_below f (?p @ [c]) (t @ [c]))"
      by blast
    moreover have "os_read_dir f (os_path cwd (path_text ab (s @ t))) = Inr (sort (fs_children f ?p))"
      using Suc.prems(2) DirNode by (simp add: os_read_dir_def os_path_text [OF Suc.prems(1)])
    ultimately show ?thesis
      using fn DirNode entries_below_dir [OF ok, of ?p m t] Suc.prems(2)
      by (subst walk_dir.simps) (simp add: is_dir_node_def del: walk_dir.simps)
  qed
qed

definition file_entries :: "zip_entry list \<Rightarrow> bool" where
  "file_entries es \<longleftrightarrow>
     (\<forall>e \<in> set es. \<exists>t m b. e = file_entry t m b \<and> t \<noteq> [] \<and> (\<forall>c \<in> set t. proper_name c)) \<and>
     (\<forall>t m b m' b'. file_entry t m b \<in> set es \<longrightarrow> file_entry t m' b' \<in> set es \<longrightarrow> b = b')"

lemma os_read_file_iff: "os_read_file f q = Inr c \<longleftrightarrow> (\<exists>m. fs_get f q = Some (FileNode m c))"
  by (auto simp: os_read_file_def split: option.splits fnode.splits)

lemma restore_file_entry:
  assumes T: "target_ok T" and t: "\<forall>c \<in> set t. proper_name c" "t \<noteq> []"
    and r: "restore_entry cwd T (file_entry t m b) f = (None, f1)"
  shows "os_read_file f1 (os_path cwd T @ t) = Inr b"
    and "q \<noteq> os_path cwd T @ t \<Longrightarrow> os_read_file f q = Inr c \<Longrightarrow> os_read_file f1 q = Inr c"
proof -
  have "T \<noteq> []" using T by (simp add: target_ok_def)
  have "clean_comps (is_abs T) (T @ CHR ''/'' # rel_text t) = comps T @ t"
    using t by (simp add: fold_clean_append rel_text_def split_on_join_proper fold_clean_proper comps_def)
  then have j: "fp_join [T, rel_text t] = path_text (is_abs T) (comps T @ t)"
    using fp_join_text [OF \<open>T \<noteq> []\<close>, of "rel_text t"] by simp
  have p: "\<forall>c \<in> set (comps T @ t). proper_name c" using target_proper [OF T] t by auto
  have d: "os_path cwd (fp_join [T, rel_text t]) = os_path cwd T @ t"
    using os_path_text [OF p] by (simp add: j os_path_target [OF T])
  obtain f0 where m: "os_mkdir_all (os_path cwd (fp_dir (fp_join [T, rel_text t]))) 493 f = Inr f0"
    and w: "os_write_file (os_path cwd T @ t) b m f0 = Inr f1"
    using r d by (auto simp: restore_entry_def file_entry_def Let_def split: if_splits sum.splits)
  show "os_read_file f1 (os_path cwd T @ t) = Inr b" by (rule os_write_file_get(3) [OF w])
  show "os_read_file f1 q = Inr c" if "q \<noteq> os_path cwd T @ t" "os_read_file f q = Inr c"
    using that os_mkdir_all_spec(3) [OF m, of q] os_write_file_get(2) [OF w, of q]
    by (auto simp: os_read_file_iff)
qed

lemma restore_entries_keep:
  assumes "target_ok T" "file_entries es" "restore_entries cwd T es f = (None, f')"
    and "os_read_file f q = Inr c" "\<And>t m b. file_entry t m b \<in> set es \<Longrightarrow> q = os_path cwd T @ t \<Longrightarrow> b = c"
  shows "os_read_file f' q = Inr c"
  using assms(2-5)
proof (induction es arbitrary: f)
  case (Cons e es)
  obtain t m b where e: "e = file_entry t m b" "t \<noteq> []" "\<forall>c \<in> set t. proper_name c"
    using Cons.prems(1) by (auto simp: file_entries_def)
  obtain f1 where f1: "restore_entry cwd T e f = (None, f1)" "restore_entries cwd T es f1 = (None, f')"
    using Cons.prems(2) by (auto split: prod.splits option.splits)
  have k: "os_read_file f1 q = Inr c"
  proof (cases "q = os_path cwd T @ t")
    case True
    then show ?thesis
      using restore_file_entry(1) [OF assms(1) e(3,2)] f1(1) e(1) Cons.prems(4) [of t m b] by simp
  next
    case False
    then show ?thesis using restore_file_entry(2) [OF assms(1) e(3,2)] f1(1) e(1) Cons.prems(3) by blast
  qed
  have fe: "file_entries es" using Cons.prems(1) by (auto simp: file_entries_def)
  show ?case
  proof (rule Cons.IH [OF fe f1(2) k])
    fix t1 m1 b1 assume "file_entry t1 m1 b1 \<in> set es" "q = os_path cwd T @ t1"
    then show "b1 = c" using Cons.prems(4) [of t1 m1 b1] by simp
  qed
qed simp

lemma restore_entries_all:
  assumes "target_ok T" "file_entries es" "restore_entries cwd T es f = (None, f')"
    and "file_entry t m b \<in> set es" "t \<noteq> []" "\<forall>c \<in> set t. proper_name c"
  shows "os_read_file f' (os_path cwd T @ t) = Inr b"
  using assms(2-4)
proof (induction es arbitrary: f)
  case (Cons e es)
  obtain f1 where f1: "restore_entry cwd T e f = (None, f1)" "restore_entries cwd T es f1 = (None, f')"
    using Cons.prems(2) by (auto split: prod.splits option.splits)
  have fe: "file_entries es" using Cons.prems(1) by (auto simp: file_entries_def)
  show ?case
  proof (cases "file_entry t m b \<in> set es")
    case True
    then show ?thesis using Cons.IH [OF fe f1(2)] by blast
  next
    case False
    then have e: "e = file_entry t m b" using Cons.prems(3) by simp
    have "os_read_file f1 (os_path cwd T @ t) = Inr b"
      using restore_file_entry(1) [OF assms(1,6,5)] f1(1) e by blast
    then show ?thesis
    proof (rule restore_entries_keep [OF assms(1) fe f1(2)])
      fix t' m' b' assume "file_entry t' m' b' \<in> set es" "os_path cwd T @ t = os_path cwd T @ t'"
      then show "b' = b" using Cons.prems(1,3) unfolding file_entries_def
        by (metis list.set_intros(2) same_append_eq)
    qed
  qed
qed simp

text \<open>The entries of a walk are such entries.\<close>

lemma walk_file_entries:
  assumes "fs_ok f" "fs_get f p = Some (DirNode m)" "set es = entries_below f p []"
  shows "file_entries es"
  unfolding file_entries_def
proof (intro conjI ballI allI impI)
  fix e assume "e \<in> set es"
  then obtain u m' b where u: "e = file_entry u m' b" "fs_get f (p @ u) = Some (FileNode m' b)"
    using assms(3) by (auto simp: entries_below_def)
  moreover have "\<forall>c \<in> set u. proper_name c" using fs_ok_proper [OF assms(1) u(2)] by simp
  moreover have "u \<noteq> []" using u(2) assms(2) by auto
  ultimately show "\<exists>t m b. e = file_entry t m b \<and> t \<noteq> [] \<and> (\<forall>c \<in> set t. proper_name c)" by blast
next
  fix t m1 b m2 b' assume a: "file_entry t m1 b \<in> set es" and b: "file_entry t m2 b' \<in> set es"
  obtain u where u: "rel_text t = rel_text u" "fs_get f (p @ u) = Some (FileNode m1 b)"
    using a assms(3) by (auto simp: entries_below_def file_entry_def)
  obtain v where v: "rel_text t = rel_text v" "fs_get f (p @ v) = Some (FileNode m2 b')"
    using b assms(3) by (auto simp: entries_below_def file_entry_def)
  have ne: "u \<noteq> []" "v \<noteq> []" using u(2) v(2) assms(2) by auto
  have p: "\<forall>c \<in> set u. proper_name c" "\<forall>c \<in> set v. proper_name c"
    using fs_ok_proper [OF assms(1) u(2)] fs_ok_proper [OF assms(1) v(2)] by simp_all
  have "str_join ''/'' u = str_join ''/'' v" using u(1) v(1) ne by (simp add: rel_text_def)
  then have "u = v"
    using split_on_join_proper [OF p(1) ne(1)] split_on_join_proper [OF p(2) ne(2)] by metis
  then show "b = b'" using u(2) v(2) by simp
qed

lemma noskip_prefix:
  assumes "\<not> has_prefix (path_text ab s) bd" "\<not> has_prefix bd (path_text ab s)" "s \<noteq> []"
  shows "\<not> has_prefix (path_text ab (s @ u)) bd"
proof
  assume h: "has_prefix (path_text ab (s @ u)) bd"
  obtain x where "path_text ab (s @ u) = path_text ab s @ x"
    using assms(3) by (cases "u = []") (auto simp: path_text_def rel_text_def abs_text_append str_join_append)
  then obtain y where "path_text ab s @ x = bd @ y" using h by (auto simp: has_prefix_iff)
  then show False using assms(1,2) by (auto simp: has_prefix_iff append_eq_append_conv2)
qed

lemma restores_backup:
  assumes zip: "\<And>es. zipDec (zipEnc es) = Some es"
    and fs: "fs_ok f"
    and src: "target_ok sourceDir" "fp_clean sourceDir = sourceDir" "fs_is_dir f (os_path cwd sourceDir)"
    and out: "\<not> has_prefix sourceDir backupDir" "\<not> has_prefix backupDir sourceDir"
      "\<not> below (os_path cwd sourceDir) (os_path cwd backupPath)"
    and create: "CreateBackup zipEnc sha cwd backupDir inst sourceDir label ts f = (Inr res, f')"
    and path: "backupPath = brFilePath res"
    and later: "os_read_file g (os_path cwd backupPath) = os_read_file f' (os_path cwd backupPath)"
    and restore: "target_ok target" "RestoreBackup zipDec cwd backupPath target g = (None, g')"
    and old: "os_read_file f (os_path cwd sourceDir @ u) = Inr b"
  shows "os_read_file g' (os_path cwd target @ u) = Inr b"
proof -
  let ?S = "os_path cwd sourceDir" and ?B = "os_path cwd backupPath"
  obtain f1 where f1: "os_mkdir_all (os_path cwd backupDir) 493 f = Inr f1"
    using create by (auto simp: CreateBackup_def split: sum.splits)
  have bp: "backupPath = fp_join [backupDir, inst @ ''_'' @ label @ ''_'' @ ts @ ''.zip'']"
    using create f1 unfolding path by (auto simp: CreateBackup_def Let_def split: sum.splits prod.splits walk_end.splits)
  obtain f2 where f2: "os_write_file ?B [] 438 f1 = Inr f2"
    using create f1 unfolding bp by (auto simp: CreateBackup_def Let_def split: sum.splits)
  have ok2: "fs_ok f2"
    using os_write_file_ok [OF os_mkdir_all_ok [OF f1 fs] _ f2] by (simp add: os_path_def to_path_proper)
  have keep: "fs_get f2 (?S @ v) = Some n" if "fs_get f (?S @ v) = Some n" for v n
    using os_mkdir_all_spec(3) [OF f1 that] os_write_file_get(2) [OF f2, of "?S @ v"] out(3)
    by (metis below_append)
  obtain dm where dm: "fs_get f2 ?S = Some (DirNode dm)"
    using src(3) keep [of "[]"] by (auto simp: fs_is_dir_def split: option.splits fnode.splits)
  have st: "sourceDir = path_text (is_abs sourceDir) (comps sourceDir)"
    using src(2) fp_clean_text [of sourceDir] by simp
  have cs: "comps sourceDir \<noteq> []" using src(1) by (simp add: target_ok_def)
  note S = os_path_target [OF src(1), of cwd]
  have noskip: "\<not> has_prefix (path_text (is_abs sourceDir) (comps sourceDir @ v)) backupDir" for v
    by (rule noskip_prefix [OF _ _ cs]) (use out(1,2) st in simp_all)
  obtain n where n: "copy_fuel f2 = Suc n" "depth_le f2 ?S n" using copy_fuel_depth by blast
  obtain es where es: "walk_dir (copy_fuel f2) cwd backupDir sourceDir f2 sourceDir (DirNode dm) = (WalkOk, es)"
    "set es = entries_below f2 ?S []"
    using walk_collects [OF ok2, of "comps sourceDir" "[]" cwd "is_abs sourceDir" "DirNode dm" n backupDir]
      target_proper [OF src(1)] dm n noskip st S by auto
  obtain f3 where f3: "os_write_file ?B (zipEnc es) 438 f2 = Inr f3" "f' = f3"
    using create f1 f2 dm es(1) unfolding bp by (auto simp: CreateBackup_def Let_def split: sum.splits)
  have "os_read_file g ?B = Inr (zipEnc es)" using os_write_file_get(3) [OF f3(1)] later f3(2) by simp
  then have r: "restore_entries cwd target es g = (None, g')"
    using restore(2) zip [of es] by (simp add: RestoreBackup_def)
  obtain m where m: "fs_get f2 (?S @ u) = Some (FileNode m b)"
    using old keep by (auto simp: os_read_file_iff)
  then have e: "file_entry u m b \<in> set es" unfolding es(2) by (auto simp: entries_below_def)
  have "u \<noteq> []" using m dm by auto
  moreover have "\<forall>c \<in> set u. proper_name c" using fs_ok_proper [OF ok2 m] by simp
  ultimately show ?thesis
    using restore_entries_all [OF restore(1) walk_file_entries [OF ok2 dm es(2)] r e] by blast
qed

text \<open>
  C16. Backup and restore are inverse: when a backup of an instance's directory is created
  and later restored, with any changes to the files in between as long as the archive is
  still there, every file of the directory at the time of the backup has its content back
  at the same place under the restore target. The archive coding is only assumed to give
  back what was put in; the directory must not have a path that begins with the text of the
  backup directory, which the walk would skip.
\<close>

theorem backup_restore_roundtrip:
  assumes zip: "\<And>es. zipDec (zipEnc es) = Some es"
    and fs: "fs_ok f"
    and src: "target_ok sourceDir" "fp_clean sourceDir = sourceDir" "fs_is_dir f (os_path cwd sourceDir)"
    and out: "\<not> has_prefix sourceDir backupDir" "\<not> has_prefix backupDir sourceDir"
      "\<not> below (os_path cwd sourceDir) (os_path cwd backupPath)"
    and create: "CreateBackup zipEnc sha cwd backupDir inst sourceDir label ts f = (Inr res, f')"
    and path: "backupPath = brFilePath res"
    and later: "os_read_file g (os_path cwd backupPath) = os_read_file f' (os_path cwd backupPath)"
    and restore: "target_ok target" "RestoreBackup zipDec cwd backupPath target g = (None, g')"
    and old: "os_read_file f (os_path cwd sourceDir @ u) = Inr b"
  shows "os_read_file g' (os_path cwd target @ u) = Inr b"
  by (rule restores_backup [OF zip fs src out create path later restore old])

text \<open>An archive coding with that law, for the example: numbers in unary, lists with their length.\<close>

definition nat_enc :: "nat \<Rightarrow> bytes" where
  "nat_enc n = replicate n 1 @ [0]"

fun nat_dec :: "bytes \<Rightarrow> (nat \<times> bytes) option" where
  "nat_dec [] = None"
| "nat_dec (x # xs) =
     (if x = 0 then Some (0, xs) else map_option (\<lambda>(n, r). (Suc n, r)) (nat_dec xs))"

lemma nat_dec_enc: "nat_dec (nat_enc n @ r) = Some (n, r)"
  by (induction n) (simp_all add: nat_enc_def)

fun many_dec :: "(bytes \<Rightarrow> ('a \<times> bytes) option) \<Rightarrow> nat \<Rightarrow> bytes \<Rightarrow> ('a list \<times> bytes) option" where
  "many_dec d 0 b = Some ([], b)"
| "many_dec d (Suc n) b =
     (case d b of None \<Rightarrow> None
      | Some (x, r) \<Rightarrow> map_option (\<lambda>(xs, r'). (x # xs, r')) (many_dec d n r))"

definition list_enc :: "('a \<Rightarrow> bytes) \<Rightarrow> 'a list \<Rightarrow> bytes" where
  "list_enc e xs = nat_enc (length xs) @ concat (map e xs)"

definition list_dec :: "(bytes \<Rightarrow> ('a \<times> bytes) option) \<Rightarrow> bytes \<Rightarrow> ('a list \<times> bytes) option" where
  "list_dec d b = (case nat_dec b of None \<Rightarrow> None | Some (n, r) \<Rightarrow> many_dec d n r)"

lemma list_dec_enc:
  assumes "\<And>x r. d (e x @ r) = Some (x, r)"
  shows "list_dec d (list_enc e xs @ r) = Some (xs, r)"
proof -
  have "many_dec d (length xs) (concat (map e xs) @ r) = Some (xs, r)"
    by (induction xs) (simp_all add: assms)
  then show ?thesis by (simp add: list_dec_def list_enc_def nat_dec_enc)
qed

definition entry_enc :: "zip_entry \<Rightarrow> bytes" where
  "entry_enc e = list_enc (\<lambda>c. nat_enc (of_char c)) (zeName e) @ nat_enc (if zeIsDir e then 1 else 0) @
     nat_enc (zeMode e) @ list_enc (\<lambda>w. nat_enc (unat w)) (zeData e)"

definition entry_dec :: "bytes \<Rightarrow> (zip_entry \<times> bytes) option" where
  "entry_dec b =
     (case list_dec (\<lambda>b. map_option (apfst char_of) (nat_dec b)) b of None \<Rightarrow> None | Some (name, b1) \<Rightarrow>
      (case nat_dec b1 of None \<Rightarrow> None | Some (d, b2) \<Rightarrow>
       (case nat_dec b2 of None \<Rightarrow> None | Some (m, b3) \<Rightarrow>
        (case list_dec (\<lambda>b. map_option (apfst word_of_nat) (nat_dec b)) b3 of None \<Rightarrow> None
         | Some (dat, b4) \<Rightarrow> Some (\<lparr>zeName = name, zeIsDir = (d = 1), zeMode = m, zeData = dat\<rparr>, b4)))))"

lemma entry_dec_enc: "entry_dec (entry_enc e @ r) = Some (e, r)"
proof -
  have n: "list_dec (\<lambda>b. map_option (apfst char_of) (nat_dec b)) (list_enc (\<lambda>c. nat_enc (of_char c)) s @ r) =
    Some (s :: string, r)" for s r
    by (rule list_dec_enc) (simp add: nat_dec_enc)
  have d: "list_dec (\<lambda>b. map_option (apfst word_of_nat) (nat_dec b)) (list_enc (\<lambda>w. nat_enc (unat w)) s @ r) =
    Some (s :: bytes, r)" for s r
    by (rule list_dec_enc) (simp add: nat_dec_enc)
  show ?thesis by (simp add: entry_enc_def entry_dec_def n d nat_dec_enc)
qed

definition plain_zip :: "zip_entry list \<Rightarrow> bytes" where
  "plain_zip = list_enc entry_enc"

definition plain_unzip :: "bytes \<Rightarrow> zip_entry list option" where
  "plain_unzip b = map_option fst (list_dec entry_dec b)"

lemma plain_unzip_zip: "plain_unzip (plain_zip es) = Some es"
  using list_dec_enc [OF entry_dec_enc, of es "[]"] by (simp add: plain_unzip_def plain_zip_def)

definition backed_up :: "(backup_error + backup_result) \<times> fs" where
  "backed_up = CreateBackup plain_zip (\<lambda>b. ''sum'') ''/srv'' ''bk'' ''i'' ''survival'' ''m'' ''t'' example_fs"

theorem backup_restore_roundtrip_witness:
  "os_read_file (snd (RestoreBackup plain_unzip ''/srv'' ''bk/i_m_t.zip'' ''new'' (snd backed_up)))
     [''srv'', ''new'', ''a'', ''x''] = Inr [1, 2]"
proof -
  let ?res = "\<lparr>brFilePath = ''bk/i_m_t.zip'', brFileSize = 703, brChecksum = ''sum''\<rparr>"
  let ?g = "snd (RestoreBackup plain_unzip ''/srv'' ''bk/i_m_t.zip'' ''new'' (snd backed_up))"
  have "os_read_file ?g (os_path ''/srv'' ''new'' @ [''a'', ''x'']) = Inr [1, 2]"
  proof (rule backup_restore_roundtrip [where zipEnc = plain_zip and zipDec = plain_unzip and f = example_fs
        and cwd = "''/srv''" and sourceDir = "''survival''" and backupDir = "''bk''" and inst = "''i''"
        and label = "''m''" and ts = "''t''" and sha = "\<lambda>b. ''sum''" and f' = "snd backed_up"
        and g = "snd backed_up" and backupPath = "''bk/i_m_t.zip''" and res = ?res])
    show "plain_unzip (plain_zip es) = Some es" for es by (rule plain_unzip_zip)
    show "CreateBackup plain_zip (\<lambda>b. ''sum'') ''/srv'' ''bk'' ''i'' ''survival'' ''m'' ''t'' example_fs =
      (Inr ?res, snd backed_up)" by code_simp
    show "RestoreBackup plain_unzip ''/srv'' ''bk/i_m_t.zip'' ''new'' (snd backed_up) = (None, ?g)"
      by code_simp
  qed (code_simp+)
  moreover have "os_path ''/srv'' ''new'' @ [''a'', ''x''] = [''srv'', ''new'', ''a'', ''x'']" by code_simp
  ultimately show ?thesis by metis
qed

section \<open>Retention keeps the newest\<close>

lemma delete_all_files:
  assumes "distinct ns" "\<forall>n \<in> set ns. \<exists>m b. fs_get f (dir @ [n]) = Some (FileNode m b)"
  shows "\<exists>f'. delete_all dir ns f = (ns, f') \<and>
    (\<forall>q. fs_get f' q = (if q \<in> (\<lambda>n. dir @ [n]) ` set ns then None else fs_get f q))"
  using assms
proof (induction ns arbitrary: f)
  case Nil
  then show ?case by simp
next
  case (Cons n ns)
  obtain m b where n: "fs_get f (dir @ [n]) = Some (FileNode m b)" using Cons.prems(2) by auto
  then have r: "os_remove (dir @ [n]) f = Inr (map_del (dir @ [n]) f)" by (simp add: os_remove_def)
  note g = os_remove_get(2) [OF r]
  have "\<exists>f'. delete_all dir ns (map_del (dir @ [n]) f) = (ns, f') \<and>
    (\<forall>q. fs_get f' q = (if q \<in> (\<lambda>n. dir @ [n]) ` set ns then None else fs_get (map_del (dir @ [n]) f) q))"
    by (rule Cons.IH) (use Cons.prems in \<open>auto simp: g\<close>)
  then show ?case using r by (auto simp: g)
qed

lemma sort_key_take_drop:
  fixes k :: "'a \<Rightarrow> int"
  assumes "x \<in> set (take n (sort_key k xs))" "y \<in> set (drop n (sort_key k xs))"
  shows "k x \<le> k y"
proof -
  have "sorted (map k (take n (sort_key k xs) @ drop n (sort_key k xs)))" by simp
  then show ?thesis unfolding map_append sorted_append using assms by auto
qed

definition kept_backups :: "path \<Rightarrow> string \<Rightarrow> fs \<Rightarrow> fs \<Rightarrow> string list" where
  "kept_backups dir inst f f' = filter (\<lambda>n. fs_get f' (dir @ [n]) \<noteq> None) (retention_matches dir inst f)"

text \<open>
  Retention keeps the newest backups: of the archives that match an instance it leaves
  the allowed number (or all there are, if fewer), no deleted one is newer than a kept one,
  and no other file is touched.
\<close>

theorem retention_keeps_newest:
  assumes ok: "fs_ok f"
    and files: "\<forall>n \<in> set (retention_matches (os_path cwd bd) inst f).
      \<exists>m b. fs_get f (os_path cwd bd @ [n]) = Some (FileNode m b)"
    and r: "EnforceRetention mtime cwd bd maxCount inst f = (del, f')"
  shows "length (kept_backups (os_path cwd bd) inst f f') =
      min maxCount (length (retention_matches (os_path cwd bd) inst f)) \<and>
    (\<forall>k \<in> set (kept_backups (os_path cwd bd) inst f f').
       \<forall>d \<in> set (retention_matches (os_path cwd bd) inst f) - set (kept_backups (os_path cwd bd) inst f f').
         mtime d \<le> mtime k) \<and>
    (\<forall>q. q \<notin> (\<lambda>n. os_path cwd bd @ [n]) ` set (retention_matches (os_path cwd bd) inst f) \<longrightarrow>
       fs_get f' q = fs_get f q)"
proof (cases "length (retention_matches (os_path cwd bd) inst f) \<le> maxCount")
  case True
  then have "f' = f" using r by (simp add: EnforceRetention_def)
  moreover have "kept_backups (os_path cwd bd) inst f f = retention_matches (os_path cwd bd) inst f"
    using files unfolding kept_backups_def by (auto intro!: filter_True)
  ultimately show ?thesis using True by simp
next
  case False
  define dir ms s where "dir = os_path cwd bd" and "ms = retention_matches dir inst f"
    and "s = sort_key (\<lambda>n. - mtime n) ms"
  have dist: "distinct ms" using distinct_fs_children [OF ok] by (simp add: ms_def retention_matches_def)
  have ds: "distinct s" "set s = set ms" "length s = length ms" using dist by (simp_all add: s_def)
  have "\<exists>f1. delete_all dir (drop maxCount s) f = (drop maxCount s, f1) \<and>
    (\<forall>q. fs_get f1 q = (if q \<in> (\<lambda>n. dir @ [n]) ` set (drop maxCount s) then None else fs_get f q))"
    by (rule delete_all_files)
      (use files ds dir_def ms_def in \<open>auto dest: in_set_dropD\<close>)
  moreover have "f' = snd (delete_all dir (drop maxCount s) f)"
    using r False by (simp add: EnforceRetention_def Let_def dir_def ms_def s_def case_prod_beta)
  ultimately have g: "fs_get f' q = (if q \<in> (\<lambda>n. dir @ [n]) ` set (drop maxCount s) then None else fs_get f q)"
    for q by auto
  have kept: "set (kept_backups dir inst f f') = set (take maxCount s)"
  proof -
    have "n \<in> set ms \<Longrightarrow> fs_get f' (dir @ [n]) \<noteq> None \<longleftrightarrow> n \<notin> set (drop maxCount s)" for n
      using files by (auto simp: g dir_def ms_def)
    moreover have "set ms = set (take maxCount s) \<union> set (drop maxCount s)"
      using ds(2) by (metis append_take_drop_id set_append)
    moreover have "set (take maxCount s) \<inter> set (drop maxCount s) = {}"
      using ds(1) by (simp add: set_take_disj_set_drop_if_distinct)
    ultimately show ?thesis unfolding kept_backups_def ms_def [symmetric] by auto
  qed
  have "distinct (kept_backups dir inst f f')" using dist by (simp add: kept_backups_def ms_def)
  then have "length (kept_backups dir inst f f') = length (take maxCount s)"
    using kept ds(1) by (metis distinct_card distinct_take)
  moreover have "mtime d \<le> mtime k"
    if "k \<in> set (take maxCount s)" "d \<in> set ms - set (take maxCount s)" for k d
  proof -
    have "d \<in> set (drop maxCount s)" using that(2) ds(2) by (metis DiffE UnE append_take_drop_id set_append)
    then show ?thesis using sort_key_take_drop [of k maxCount "\<lambda>n. - mtime n" ms d] that(1) by (simp add: s_def)
  qed
  moreover have "fs_get f' q = fs_get f q" if "q \<notin> (\<lambda>n. dir @ [n]) ` set ms" for q
    using that ds(2) by (auto simp: g dest: in_set_dropD)
  ultimately show ?thesis
    using False ds(3) kept unfolding dir_def [symmetric] ms_def [symmetric] by simp
qed

definition retention_fs :: fs where
  "retention_fs = [([''bk''], DirNode 493), ([''bk'', ''a_m_1.zip''], FileNode 420 []),
     ([''bk'', ''a_m_2.zip''], FileNode 420 []), ([''bk'', ''a_m_3.zip''], FileNode 420 []),
     ([''bk'', ''a_b_m_0.zip''], FileNode 420 [])]"

definition age_of :: "string \<Rightarrow> int" where
  "age_of n = of_char (last (butlast (butlast (butlast (butlast n)))))"

theorem retention_keeps_newest_witness:
  "length (kept_backups [''bk''] ''a_m'' retention_fs (snd (EnforceRetention age_of ''/'' ''bk'' 2 ''a_m'' retention_fs))) = 2 \<and>
   fst (EnforceRetention age_of ''/'' ''bk'' 2 ''a_m'' retention_fs) = [''bk/a_m_1.zip'']"
proof -
  have p: "os_path ''/'' ''bk'' = [''bk'']" by code_simp
  have m: "retention_matches [''bk''] ''a_m'' retention_fs = [''a_m_1.zip'', ''a_m_2.zip'', ''a_m_3.zip'']"
    by code_simp
  have f: "\<forall>n \<in> set [''a_m_1.zip'', ''a_m_2.zip'', ''a_m_3.zip''].
      \<exists>m b. fs_get retention_fs ([''bk''] @ [n]) = Some (FileNode m b)"
    by (simp add: retention_fs_def fs_get_def map_get_def)
  have ok: "fs_ok retention_fs" by code_simp
  have "length (kept_backups [''bk''] ''a_m'' retention_fs (snd (EnforceRetention age_of ''/'' ''bk'' 2 ''a_m'' retention_fs))) =
      min 2 (length (retention_matches [''bk''] ''a_m'' retention_fs))"
    using retention_keeps_newest [of retention_fs "''/''" "''bk''" "''a_m''" age_of 2
        "fst (EnforceRetention age_of ''/'' ''bk'' 2 ''a_m'' retention_fs)"
        "snd (EnforceRetention age_of ''/'' ''bk'' 2 ''a_m'' retention_fs)"] ok f
    unfolding p m by simp
  moreover have "fst (EnforceRetention age_of ''/'' ''bk'' 2 ''a_m'' retention_fs) = [''bk/a_m_1.zip'']"
    by code_simp
  ultimately show ?thesis by (simp add: m)
qed

text \<open>The pattern of instance \<^verbatim>\<open>a\<close> also matches the archives of instance \<^verbatim>\<open>a_b\<close>, so enforcing one
  instance's limit deletes the other's only backup.\<close>

theorem retention_deletes_other_instance:
  "fst (EnforceRetention age_of ''/'' ''bk'' 3 ''a'' retention_fs) = [''bk/a_b_m_0.zip'']"
  by code_simp

text \<open>The walk skips every path that begins with the text of the backup directory: with
  backups in \<^verbatim>\<open>surv\<close> the backup of \<^verbatim>\<open>survival\<close> succeeds and is empty.\<close>

theorem backup_silently_empty:
  "fst (CreateBackup plain_zip (\<lambda>b. ''sum'') ''/srv'' ''surv'' ''i'' ''survival'' ''m'' ''t'' example_fs) =
     Inr \<lparr>brFilePath = ''surv/i_m_t.zip'', brFileSize = length (plain_zip []), brChecksum = ''sum''\<rparr>"
  by code_simp

end
