(* ===== verification/File_Sync.thy ===== *)
theory File_Sync
  imports Archives
begin

text \<open>
  Distributing files from the master to the agents: the sync engine that picks the agents
  for a changed file (\<^verbatim>\<open>internal/master/sync/engine.go\<close>), the pusher that streams a file in
  chunks (\<^verbatim>\<open>internal/master/file_pusher.go\<close>), and the agent's side that receives and checks
  it (\<^verbatim>\<open>internal/agent/grpc_sync_service.go\<close>). A stream is the list of its chunks and how it
  ended. SHA-256 in hexadecimal is the parameter \<open>sha\<close>; the network is the map from
  addresses to the files of the agents that can be reached.
\<close>

section \<open>Chunks\<close>

record FileMetadata =
  fmFilePath :: string
  fmFileHash :: string
  fmFileSize :: int
  fmTargetAgentId :: string
  fmSyncId :: string

record FileChunk =
  fcData :: bytes
  fcChunkIndex :: int
  fcTotalChunks :: int
  fcIsLast :: bool
  fcMetadata :: "FileMetadata option"

definition chunkSize :: nat where
  "chunkSize = 256 * 1024"

definition wrap32 :: "int \<Rightarrow> int" where
  "wrap32 x = (x + 2 ^ 31) mod 2 ^ 32 - 2 ^ 31"

definition total_chunks :: "nat \<Rightarrow> nat \<Rightarrow> int" where
  "total_chunks n sz =
     (let t = wrap32 (int ((sz + n - 1) div n)) in if t = 0 then 1 else t)"

text \<open>
  The send loop of \<^verbatim>\<open>pushFileToAgent\<close>: \<^verbatim>\<open>f.Read\<close> fills the buffer, and the end of the file is a
  read of no bytes, which ends the loop before a chunk is sent. \<open>n\<close> is the buffer size.
\<close>

function push_chunks :: "nat \<Rightarrow> FileMetadata \<Rightarrow> int \<Rightarrow> int \<Rightarrow> bytes \<Rightarrow> FileChunk list" where
  "push_chunks n meta tot idx rest =
     (if rest = [] \<or> n = 0 then []
      else \<lparr>fcData = take n rest, fcChunkIndex = idx, fcTotalChunks = tot, fcIsLast = False,
            fcMetadata = (if idx = 0 then Some meta else None)\<rparr>
           # push_chunks n meta tot (wrap32 (idx + 1)) (drop n rest))"
  by pat_completeness auto
termination
  by (relation "measure (\<lambda>(n, meta, tot, idx, rest). length rest)") auto

declare push_chunks.simps [simp del]

text \<open>The send loop of the agent's \<^verbatim>\<open>PullFile\<close>: a short read marks the last chunk.\<close>

function pull_chunks :: "nat \<Rightarrow> FileMetadata \<Rightarrow> int \<Rightarrow> int \<Rightarrow> bytes \<Rightarrow> FileChunk list" where
  "pull_chunks n meta tot idx rest =
     (let data = take n rest; isLast = (length data < n \<or> n = 0)
      in \<lparr>fcData = data, fcChunkIndex = idx, fcTotalChunks = tot, fcIsLast = isLast,
          fcMetadata = (if idx = 0 then Some meta else None)\<rparr>
         # (if isLast then [] else pull_chunks n meta tot (wrap32 (idx + 1)) (drop n rest)))"
  by pat_completeness auto
termination
  by (relation "measure (\<lambda>(n, meta, tot, idx, rest). length rest)") auto

declare pull_chunks.simps [simp del]

text \<open>\<^verbatim>\<open>ReadFileChunks\<close> of the engine, on the content of the file.\<close>

function read_chunks :: "nat \<Rightarrow> bytes \<Rightarrow> bytes list" where
  "read_chunks n rest = (if rest = [] \<or> n = 0 then [] else take n rest # read_chunks n (drop n rest))"
  by pat_completeness auto
termination
  by (relation "measure (\<lambda>(n, rest). length rest)") auto

declare read_chunks.simps [simp del]

definition ReadFileChunks :: "string \<Rightarrow> string \<Rightarrow> int \<Rightarrow> fs \<Rightarrow> os_error + bytes list" where
  "ReadFileChunks cwd p sz f =
     (case os_read_file f (os_path cwd p) of
        Inl e \<Rightarrow> Inl e
      | Inr b \<Rightarrow> Inr (read_chunks (if sz \<le> 0 then chunkSize else nat sz) b))"

section \<open>The receiving agent\<close>

datatype recv_end = RecvEOF | RecvError

datatype push_error = PushInternal | PushFailedPrecondition | PushInvalidArgument | PushDataLoss

record push_state =
  psMetadata :: "FileMetadata option"
  psTmpPath :: "string option"
  psData :: bytes

record PushFileResponse =
  prReceivedHash :: string
  prSyncId :: string

definition push_open :: "string \<Rightarrow> string \<Rightarrow> FileMetadata \<Rightarrow> push_state \<Rightarrow> fs \<Rightarrow> push_error option \<times> push_state \<times> fs" where
  "push_open cwd baseDir meta st f =
     (let destDir = fp_join [baseDir, fp_dir (fmFilePath meta)];
          tmpPath = fp_join [destDir, ''.craftstack_tmp_'' @ fp_base (fmFilePath meta)];
          st1 = st\<lparr>psMetadata := Some meta\<rparr>
      in case os_mkdir_all (os_path cwd destDir) 493 f of
           Inl e \<Rightarrow> (Some PushInternal, st1, f)
         | Inr f1 \<Rightarrow>
             (case os_write_file (os_path cwd tmpPath) [] 438 f1 of
                Inl e \<Rightarrow> (Some PushInternal, st1, f1)
              | Inr f2 \<Rightarrow> (None, st1\<lparr>psTmpPath := Some tmpPath\<rparr>, f2)))"

definition push_write :: "string \<Rightarrow> FileChunk \<Rightarrow> push_state \<Rightarrow> fs \<Rightarrow> push_error option \<times> push_state \<times> fs" where
  "push_write cwd chunk st f =
     (case psTmpPath st of
        None \<Rightarrow> (Some PushFailedPrecondition, st, f)
      | Some tmp \<Rightarrow>
          if fcData chunk = [] then (None, st, f)
          else (case os_write_file (os_path cwd tmp) (psData st @ fcData chunk) 438 f of
                  Inl e \<Rightarrow> (Some PushInternal, st, f)
                | Inr f1 \<Rightarrow> (None, st\<lparr>psData := psData st @ fcData chunk\<rparr>, f1)))"

fun push_loop ::
  "string \<Rightarrow> string \<Rightarrow> recv_end \<Rightarrow> FileChunk list \<Rightarrow> push_state \<Rightarrow> fs \<Rightarrow> push_error option \<times> push_state \<times> fs" where
  "push_loop cwd baseDir RecvEOF [] st f = (None, st, f)"
| "push_loop cwd baseDir RecvError [] st f = (Some PushInternal, st, f)"
| "push_loop cwd baseDir end (chunk # chunks) st f =
     (let (e1, st1, f1) =
            (case (fcMetadata chunk, psMetadata st) of
               (Some meta, None) \<Rightarrow> push_open cwd baseDir meta st f
             | _ \<Rightarrow> (None, st, f))
      in if e1 \<noteq> None then (e1, st1, f1)
         else let (e2, st2, f2) = push_write cwd chunk st1 f1
              in if e2 \<noteq> None then (e2, st2, f2)
                 else if fcIsLast chunk then (None, st2, f2)
                 else push_loop cwd baseDir end chunks st2 f2)"

text \<open>The deferred cleanup of an upload that does not complete.\<close>

definition push_cleanup :: "string \<Rightarrow> push_state \<Rightarrow> fs \<Rightarrow> fs" where
  "push_cleanup cwd st f =
     (case psTmpPath st of
        None \<Rightarrow> f
      | Some tmp \<Rightarrow> (case os_remove (os_path cwd tmp) f of Inl e \<Rightarrow> f | Inr f1 \<Rightarrow> f1))"

definition copyFile :: "path \<Rightarrow> path \<Rightarrow> fs \<Rightarrow> os_error + fs" where
  "copyFile src dst f =
     (case os_read_file f src of Inl e \<Rightarrow> Inl e | Inr b \<Rightarrow> os_write_file dst b 438 f)"

definition push_finish ::
  "(bytes \<Rightarrow> string) \<Rightarrow> string \<Rightarrow> string \<Rightarrow> push_state \<Rightarrow> fs \<Rightarrow> (push_error + PushFileResponse) \<times> fs" where
  "push_finish sha cwd baseDir st f =
     (case (psMetadata st, psTmpPath st) of
        (Some meta, Some tmp) \<Rightarrow>
          let receivedHash = sha (psData st)
          in if fmFileHash meta \<noteq> '''' \<and> receivedHash \<noteq> fmFileHash meta
             then (Inl PushDataLoss, push_cleanup cwd st f)
             else let finalPath = fp_join [baseDir, fmFilePath meta];
                      resp = \<lparr>prReceivedHash = receivedHash, prSyncId = fmSyncId meta\<rparr>
                  in case os_rename (os_path cwd tmp) (os_path cwd finalPath) f of
                       Inr f1 \<Rightarrow> (Inr resp, f1)
                     | Inl e \<Rightarrow>
                         (case copyFile (os_path cwd tmp) (os_path cwd finalPath) f of
                            Inl e \<Rightarrow> (Inl PushInternal, push_cleanup cwd st f)
                          | Inr f1 \<Rightarrow> (Inr resp, push_cleanup cwd st f1))
      | _ \<Rightarrow> (Inl PushInvalidArgument, push_cleanup cwd st f))"

definition push_init :: push_state where
  "push_init = \<lparr>psMetadata = None, psTmpPath = None, psData = []\<rparr>"

definition PushFile ::
  "(bytes \<Rightarrow> string) \<Rightarrow> string \<Rightarrow> string \<Rightarrow> FileChunk list \<Rightarrow> recv_end \<Rightarrow> fs \<Rightarrow>
   (push_error + PushFileResponse) \<times> fs" where
  "PushFile sha cwd baseDir chunks end f =
     (case push_loop cwd baseDir end chunks push_init f of
        (Some e, st, f1) \<Rightarrow> (Inl e, push_cleanup cwd st f1)
      | (None, st, f1) \<Rightarrow> push_finish sha cwd baseDir st f1)"

definition PullFile ::
  "(bytes \<Rightarrow> string) \<Rightarrow> string \<Rightarrow> string \<Rightarrow> string \<Rightarrow> string \<Rightarrow> fs \<Rightarrow> os_error + FileChunk list" where
  "PullFile sha cwd baseDir filePath agentId f =
     (case os_read_file f (os_path cwd (fp_join [baseDir, filePath])) of
        Inl e \<Rightarrow> Inl e
      | Inr b \<Rightarrow>
          Inr (pull_chunks chunkSize
                 \<lparr>fmFilePath = filePath, fmFileHash = sha b, fmFileSize = int (length b),
                  fmTargetAgentId = agentId, fmSyncId = ''''\<rparr>
                 (total_chunks chunkSize (length b)) 0 b))"

section \<open>The pushing master\<close>

record FileInfo =
  fiRelPath :: string
  fiAbsPath :: string
  fiHash :: string
  fiSize :: int
  fiDest :: string
  fiMappingName :: string
  fiTargets :: "string list"

record TargetAgent =
  taID :: string
  taName :: string
  taAddress :: string

record sync_record =
  srNode :: string
  srPath :: string
  srSize :: int
  srHash :: string

text \<open>
  What a push reads and changes: the master's files, the files of each reachable agent by
  address, and the sync history. \<open>agentCwd\<close> is the working directory of the agents.
\<close>

record sync_world =
  swMaster :: fs
  swAgents :: "(string, fs) gomap"
  swHistory :: "sync_record list"

datatype pusher_error = ConnectFailed | OpenFailed | ReceiveFailed push_error

definition pushFileToAgent ::
  "(bytes \<Rightarrow> string) \<Rightarrow> string \<Rightarrow> string \<Rightarrow> string \<Rightarrow> FileInfo \<Rightarrow> TargetAgent \<Rightarrow> sync_world \<Rightarrow>
   pusher_error option \<times> sync_world" where
  "pushFileToAgent sha cwd agentCwd syncID file agent w =
     (case os_read_file (swMaster w) (os_path cwd (fiAbsPath file)) of
        Inl e \<Rightarrow> (Some OpenFailed, w)
      | Inr content \<Rightarrow>
          let fileHash = (if fiHash file = '''' then sha content else fiHash file);
              fileSize = int (length content);
              meta = \<lparr>fmFilePath = fiRelPath file, fmFileHash = fileHash, fmFileSize = fileSize,
                      fmTargetAgentId = taID agent, fmSyncId = syncID\<rparr>;
              chunks = push_chunks chunkSize meta (total_chunks chunkSize (length content)) 0 content
          in case map_get (swAgents w) (taAddress agent) of
               None \<Rightarrow> (Some ConnectFailed, w)
             | Some f \<Rightarrow>
                 (case PushFile sha agentCwd ''.'' chunks RecvEOF f of
                    (Inl e, f1) \<Rightarrow>
                      (Some (ReceiveFailed e), w\<lparr>swAgents := map_put (taAddress agent) f1 (swAgents w)\<rparr>)
                  | (Inr resp, f1) \<Rightarrow>
                      (None, w\<lparr>swAgents := map_put (taAddress agent) f1 (swAgents w),
                               swHistory := swHistory w @
                                 [\<lparr>srNode = taID agent, srPath = fiRelPath file, srSize = fileSize,
                                   srHash = fileHash\<rparr>]\<rparr>)))"

fun push_all ::
  "(bytes \<Rightarrow> string) \<Rightarrow> string \<Rightarrow> string \<Rightarrow> string \<Rightarrow> FileInfo \<Rightarrow> TargetAgent list \<Rightarrow> pusher_error option \<Rightarrow>
   sync_world \<Rightarrow> pusher_error option \<times> sync_world" where
  "push_all sha cwd agentCwd syncID file [] lastErr w = (lastErr, w)"
| "push_all sha cwd agentCwd syncID file (a # as) lastErr w =
     (case pushFileToAgent sha cwd agentCwd syncID file a w of
        (None, w1) \<Rightarrow> push_all sha cwd agentCwd syncID file as lastErr w1
      | (Some e, w1) \<Rightarrow> push_all sha cwd agentCwd syncID file as (Some e) w1)"

definition PushToAgents ::
  "(bytes \<Rightarrow> string) \<Rightarrow> string \<Rightarrow> string \<Rightarrow> string \<Rightarrow> FileInfo \<Rightarrow> TargetAgent list \<Rightarrow>
   sync_world \<Rightarrow> pusher_error option \<times> sync_world" where
  "PushToAgents sha cwd agentCwd syncID file agents w =
     (if fiAbsPath file = '''' then (None, w)
      else push_all sha cwd agentCwd syncID file agents None w)"

section \<open>The sync engine\<close>

datatype EventType = EventCreate | EventUpdate | EventDelete

record FileEvent =
  evPath :: string
  evRelPath :: string
  evType :: EventType
  evMappingName :: string
  evDest :: string
  evTargets :: "string list"

type_synonym sync_agents = "(string, TargetAgent) gomap"

definition RegisterAgent :: "TargetAgent \<Rightarrow> sync_agents \<Rightarrow> sync_agents" where
  "RegisterAgent a as = map_put (taID a) a as"

definition UnregisterAgent :: "string \<Rightarrow> sync_agents \<Rightarrow> sync_agents" where
  "UnregisterAgent agentID as = map_del agentID as"

fun matchTarget :: "string list \<Rightarrow> string \<Rightarrow> string \<Rightarrow> bool" where
  "matchTarget [] agentID agentName = False"
| "matchTarget (t # ts) agentID agentName =
     (if t = ''*'' \<or> t = agentID \<or> t = agentName then True else matchTarget ts agentID agentName)"

definition computeFileInfo :: "(bytes \<Rightarrow> string) \<Rightarrow> string \<Rightarrow> string \<Rightarrow> string \<Rightarrow> fs \<Rightarrow> os_error + FileInfo" where
  "computeFileInfo sha cwd absPath relPath f =
     (case os_read_file f (os_path cwd absPath) of
        Inl e \<Rightarrow> Inl e
      | Inr b \<Rightarrow> Inr \<lparr>fiRelPath = relPath, fiAbsPath = absPath, fiHash = sha b, fiSize = int (length b),
                      fiDest = '''', fiMappingName = '''', fiTargets = []\<rparr>)"

definition event_agents :: "FileEvent \<Rightarrow> sync_agents \<Rightarrow> TargetAgent list" where
  "event_agents ev as = filter (\<lambda>a. matchTarget (evTargets ev) (taID a) (taName a)) (map snd as)"

definition event_dest :: "FileEvent \<Rightarrow> string" where
  "event_dest ev =
     (if evDest ev \<noteq> '''' \<and> evDest ev \<noteq> ''.'' then fp_join [evDest ev, evRelPath ev] else evRelPath ev)"

text \<open>\<^verbatim>\<open>handleEvent\<close> with the callback of the master, \<^verbatim>\<open>PushToAgents\<close>.\<close>

definition handleEvent ::
  "(bytes \<Rightarrow> string) \<Rightarrow> string \<Rightarrow> string \<Rightarrow> string \<Rightarrow> FileEvent \<Rightarrow> sync_agents \<Rightarrow> sync_world \<Rightarrow> sync_world" where
  "handleEvent sha cwd agentCwd syncID ev agents w =
     (let filtered = event_agents ev agents
      in if filtered = [] then w
         else let destPath = event_dest ev
              in if evType ev = EventDelete
                 then snd (PushToAgents sha cwd agentCwd syncID
                        \<lparr>fiRelPath = destPath, fiAbsPath = '''', fiHash = '''', fiSize = 0, fiDest = '''',
                         fiMappingName = evMappingName ev, fiTargets = evTargets ev\<rparr> filtered w)
                 else (case computeFileInfo sha cwd (evPath ev) destPath (swMaster w) of
                         Inl e \<Rightarrow> w
                       | Inr info \<Rightarrow>
                           snd (PushToAgents sha cwd agentCwd syncID
                             (info\<lparr>fiMappingName := evMappingName ev, fiDest := evDest ev,
                                   fiTargets := evTargets ev\<rparr>) filtered w)))"

section \<open>Chunking\<close>

text \<open>The data a receiver takes from a stream: everything up to the first chunk marked last.\<close>

fun received :: "FileChunk list \<Rightarrow> bytes" where
  "received [] = []"
| "received (c # cs) = fcData c @ (if fcIsLast c then [] else received cs)"

text \<open>
  The three loops that cut a content into pieces have one contract: the pieces, put
  together, are the content. It is stated once.
\<close>

locale chunker =
  fixes chunks_of :: "nat \<Rightarrow> bytes \<Rightarrow> 'c list"
    and data_of :: "'c \<Rightarrow> bytes"
  assumes whole: "0 < n \<Longrightarrow> concat (map data_of (chunks_of n b)) = b"
    and bounded: "c \<in> set (chunks_of n b) \<Longrightarrow> length (data_of c) \<le> n"
begin

lemma same_content: "0 < n \<Longrightarrow> 0 < m \<Longrightarrow> concat (map data_of (chunks_of n b)) = concat (map data_of (chunks_of m b))"
  by (simp add: whole)

lemma enough_chunks: "0 < n \<Longrightarrow> length b \<le> n * length (chunks_of n b)"
proof -
  assume n: "0 < n"
  have "length (concat (map data_of cs)) \<le> n * length cs" if "\<forall>c \<in> set cs. length (data_of c) \<le> n" for cs
    using that by (induction cs) auto
  then show ?thesis using whole [OF n, of b] bounded by metis
qed

end

lemma push_chunks_data: "0 < n \<Longrightarrow> concat (map fcData (push_chunks n meta tot idx b)) = b"
proof (induction n meta tot idx b rule: push_chunks.induct)
  case (1 n meta tot idx rest)
  then show ?case by (subst push_chunks.simps) simp
qed

lemma push_chunks_len: "c \<in> set (push_chunks n meta tot idx b) \<Longrightarrow> length (fcData c) \<le> n"
proof (induction n meta tot idx b rule: push_chunks.induct)
  case (1 n meta tot idx rest)
  then show ?case by (subst (asm) (2) push_chunks.simps) (auto split: if_splits)
qed

lemma push_chunks_not_last: "c \<in> set (push_chunks n meta tot idx b) \<Longrightarrow> \<not> fcIsLast c"
proof (induction n meta tot idx b rule: push_chunks.induct)
  case (1 n meta tot idx rest)
  then show ?case by (subst (asm) (2) push_chunks.simps) (auto split: if_splits)
qed

lemma pull_chunks_data: "0 < n \<Longrightarrow> concat (map fcData (pull_chunks n meta tot idx b)) = b"
proof (induction n meta tot idx b rule: pull_chunks.induct)
  case (1 n meta tot idx rest)
  then show ?case by (subst pull_chunks.simps) (auto simp: Let_def)
qed

lemma pull_chunks_len: "c \<in> set (pull_chunks n meta tot idx b) \<Longrightarrow> length (fcData c) \<le> n"
proof (induction n meta tot idx b rule: pull_chunks.induct)
  case (1 n meta tot idx rest)
  then show ?case by (subst (asm) (2) pull_chunks.simps) (auto simp: Let_def split: if_splits)
qed

lemma read_chunks_data: "0 < n \<Longrightarrow> concat (read_chunks n b) = b"
proof (induction n b rule: read_chunks.induct)
  case (1 n rest)
  then show ?case by (subst read_chunks.simps) simp
qed

lemma read_chunks_len: "c \<in> set (read_chunks n b) \<Longrightarrow> length c \<le> n"
proof (induction n b rule: read_chunks.induct)
  case (1 n rest)
  then show ?case by (subst (asm) (2) read_chunks.simps) (auto split: if_splits)
qed

interpretation push: chunker "\<lambda>n. push_chunks n meta tot idx" fcData for meta tot idx
  by unfold_locales (simp_all add: push_chunks_data push_chunks_len)

interpretation pull: chunker "\<lambda>n. pull_chunks n meta tot idx" fcData for meta tot idx
  by unfold_locales (simp_all add: pull_chunks_data pull_chunks_len)

interpretation rdc: chunker read_chunks "\<lambda>c. c"
  by unfold_locales (simp_all add: read_chunks_data read_chunks_len)

lemma received_no_last: "\<forall>c \<in> set cs. \<not> fcIsLast c \<Longrightarrow> received cs = concat (map fcData cs)"
  by (induction cs) auto

lemma received_push: "0 < n \<Longrightarrow> received (push_chunks n meta tot idx b) = b"
  using push_chunks_not_last received_no_last push.whole by metis

lemma received_pull: "0 < n \<Longrightarrow> received (pull_chunks n meta tot idx b) = b"
proof (induction n meta tot idx b rule: pull_chunks.induct)
  case (1 n meta tot idx rest)
  then show ?case by (subst pull_chunks.simps) (auto simp: Let_def)
qed

section \<open>Receiving\<close>

lemma push_init_simps [simp]: "psMetadata push_init = None" "psTmpPath push_init = None" "psData push_init = []"
  by (simp_all add: push_init_def)

lemma push_write_spec:
  assumes "push_write cwd chunk st f = (None, st', f')" "psTmpPath st = Some tmp"
    and "os_read_file f (os_path cwd tmp) = Inr (psData st)" "fs_ok f"
  shows "psTmpPath st' = Some tmp \<and> psMetadata st' = psMetadata st \<and> psData st' = psData st @ fcData chunk \<and>
    os_read_file f' (os_path cwd tmp) = Inr (psData st') \<and> fs_ok f' \<and>
    (\<forall>q. q \<noteq> os_path cwd tmp \<longrightarrow> fs_get f' q = fs_get f q)"
proof (cases "fcData chunk = []")
  case True
  then show ?thesis using assms by (auto simp: push_write_def)
next
  case False
  then obtain f1 where w: "os_write_file (os_path cwd tmp) (psData st @ fcData chunk) 438 f = Inr f1"
    and e: "st' = st\<lparr>psData := psData st @ fcData chunk\<rparr>" "f' = f1"
    using assms(1,2) by (auto simp: push_write_def split: sum.splits)
  have "fs_ok f1" by (rule os_write_file_ok [OF assms(4) _ w]) (simp add: os_path_def to_path_proper)
  then show ?thesis using os_write_file_get(2,3) [OF w] assms(2) by (simp add: e)
qed

lemma push_loop_spec:
  assumes "push_loop cwd baseDir end chunks st f = (None, st', f')"
    and "psTmpPath st = Some tmp" "psMetadata st = Some meta"
    and "os_read_file f (os_path cwd tmp) = Inr (psData st)" "fs_ok f"
  shows "psTmpPath st' = Some tmp \<and> psMetadata st' = Some meta \<and> psData st' = psData st @ received chunks \<and>
    os_read_file f' (os_path cwd tmp) = Inr (psData st') \<and> fs_ok f' \<and>
    (\<forall>q. q \<noteq> os_path cwd tmp \<longrightarrow> fs_get f' q = fs_get f q)"
  using assms
proof (induction chunks arbitrary: st f)
  case Nil
  then show ?case by (cases "end") auto
next
  case (Cons c cs)
  obtain e2 st2 f2 where w: "push_write cwd c st f = (e2, st2, f2)" using prod_cases3 by blast
  have e2: "e2 = None" using Cons.prems w by (cases "fcMetadata c") (auto simp: Let_def split: if_splits)
  note s = push_write_spec [OF w [unfolded e2] Cons.prems(2,4,5)]
  show ?case
  proof (cases "fcIsLast c")
    case True
    then have "st' = st2" "f' = f2"
      using Cons.prems w e2 by (cases "fcMetadata c"; simp add: Let_def)+
    then show ?thesis using s Cons.prems(3) True by simp
  next
    case False
    then have "push_loop cwd baseDir end cs st2 f2 = (None, st', f')"
      using Cons.prems w e2 by (cases "fcMetadata c") (auto simp: Let_def)
    from Cons.IH [OF this] s Cons.prems(3) False show ?thesis by simp
  qed
qed

text \<open>What a successful upload went through.\<close>

lemma PushFile_success:
  assumes r: "PushFile sha cwd baseDir chunks end f = (Inr resp, f')" and ok: "fs_ok f"
  shows "\<exists>c cs meta. chunks = c # cs \<and> fcMetadata c = Some meta \<and>
    os_read_file f' (os_path cwd (fp_join [baseDir, fmFilePath meta])) = Inr (received chunks) \<and>
    prReceivedHash resp = sha (received chunks) \<and>
    (fmFileHash meta = '''' \<or> fmFileHash meta = sha (received chunks))"
proof -
  obtain st f1 where l: "push_loop cwd baseDir end chunks push_init f = (None, st, f1)"
    and fin: "push_finish sha cwd baseDir st f1 = (Inr resp, f')"
    using r by (auto simp: PushFile_def split: prod.splits option.splits)
  obtain meta tmp where mt: "psMetadata st = Some meta" "psTmpPath st = Some tmp"
    using fin by (auto simp: push_finish_def split: option.splits)
  obtain c cs where cs: "chunks = c # cs"
    using l mt by (cases chunks; cases "end") (auto simp: push_init_def)
  obtain meta0 where m0: "fcMetadata c = Some meta0"
    using l by (cases "fcMetadata c") (auto simp: cs push_init_def push_write_def Let_def)
  obtain st1 g where op: "push_open cwd baseDir meta0 push_init f = (None, st1, g)"
    and l1: "push_loop cwd baseDir end (c # cs) st1 g = (None, st, f1)"
  proof -
    obtain e1 st1 g where o: "push_open cwd baseDir meta0 push_init f = (e1, st1, g)" using prod_cases3 by blast
    have e1: "e1 = None" using l by (cases e1) (auto simp: cs m0 o Let_def)
    then have "psMetadata st1 = Some meta0"
      using o by (auto simp: push_open_def Let_def split: sum.splits)
    then have "push_loop cwd baseDir end (c # cs) st1 g = push_loop cwd baseDir end chunks push_init f"
      using o e1 by (simp add: cs m0)
    then show ?thesis using that o e1 l by simp
  qed
  obtain tmp1 f0 where t1: "psTmpPath st1 = Some tmp1" "psMetadata st1 = Some meta0" "psData st1 = []"
    and w: "os_write_file (os_path cwd tmp1) [] 438 f0 = Inr g"
    and mk: "os_mkdir_all (os_path cwd (fp_join [baseDir, fp_dir (fmFilePath meta0)])) 493 f = Inr f0"
    using op by (auto simp: push_open_def Let_def push_init_def split: sum.splits)
  have okg: "fs_ok g"
    by (rule os_write_file_ok [OF os_mkdir_all_ok [OF mk ok] _ w]) (simp_all add: os_path_def to_path_proper)
  note s = push_loop_spec [OF l1 t1(1,2) _ okg]
  have s: "psTmpPath st = Some tmp1" "psMetadata st = Some meta0" "psData st = received chunks"
    "os_read_file f1 (os_path cwd tmp1) = Inr (received chunks)" "fs_ok f1"
    using s os_write_file_get(3) [OF w] t1(3) cs by auto
  let ?t = "os_path cwd tmp1" and ?q = "os_path cwd (fp_join [baseDir, fmFilePath meta0])"
  have hash: "fmFileHash meta0 = '''' \<or> sha (received chunks) = fmFileHash meta0"
    using fin s by (auto simp: push_finish_def Let_def split: if_splits)
  have "os_read_file f' ?q = Inr (received chunks) \<and> prReceivedHash resp = sha (received chunks)"
  proof (cases "os_rename ?t ?q f1")
    case (Inr f2)
    have "os_read_file f2 ?q = Inr (received chunks)"
    proof (cases "?t = ?q")
      case True
      then show ?thesis using Inr s(4) by (auto simp: os_rename_def split: option.splits if_splits)
    next
      case False
      then show ?thesis
        using os_rename_get(1) [OF Inr False s(5), of "[]"] s(4) by (simp add: os_read_file_def)
    qed
    then show ?thesis using fin s hash Inr by (auto simp: push_finish_def Let_def split: if_splits)
  next
    case (Inl e)
    have ne: "?t \<noteq> ?q"
      using Inl s(4) by (auto simp: os_rename_def os_read_file_def fs_is_dir_def split: option.splits fnode.splits if_splits)
    obtain f2 where c: "copyFile ?t ?q f1 = Inr f2" and f': "f' = push_cleanup cwd st f2"
      and rr: "prReceivedHash resp = sha (received chunks)"
      using fin s hash Inl by (auto simp: push_finish_def Let_def split: if_splits sum.splits)
    have "os_read_file f2 ?q = Inr (received chunks)"
      using c s(4) os_write_file_get(3) by (auto simp: copyFile_def)
    moreover have "fs_get f' ?q = fs_get f2 ?q"
      using ne os_remove_get(2) [of ?t f2 _ ?q] by (auto simp: f' push_cleanup_def s(1) split: sum.splits)
    ultimately show ?thesis using rr by (simp add: os_read_file_def)
  qed
  then show ?thesis using cs m0 hash by auto
qed

text \<open>
  C21. An agent only accepts a file it received intact: when an upload succeeds, the first
  chunk carried the metadata, the file at the announced path holds exactly the bytes of the
  stream up to its last chunk, and their SHA-256 is the announced one (unless none was
  announced).
\<close>

theorem push_accepts_only_intact:
  assumes "fs_ok f" "PushFile sha cwd baseDir chunks end f = (Inr resp, f')"
  shows "\<exists>c cs meta. chunks = c # cs \<and> fcMetadata c = Some meta \<and>
    os_read_file f' (os_path cwd (fp_join [baseDir, fmFilePath meta])) = Inr (received chunks) \<and>
    prReceivedHash resp = sha (received chunks) \<and>
    (fmFileHash meta = '''' \<or> fmFileHash meta = sha (received chunks))"
  using PushFile_success [OF assms(2,1)] .

text \<open>
  An empty file is never delivered: the send loop ends before the first chunk, so the
  metadata is never sent, and the agent answers with an error.
\<close>

theorem empty_file_never_arrives:
  "push_chunks n meta tot 0 [] = [] \<and>
   fst (PushFile sha cwd baseDir (push_chunks n meta tot 0 []) RecvEOF f) = Inl PushInvalidArgument"
  by (simp add: push_chunks.simps PushFile_def push_finish_def push_init_def)

definition demo_chunks :: "FileChunk list" where
  "demo_chunks =
     [\<lparr>fcData = [1, 2], fcChunkIndex = 0, fcTotalChunks = 2, fcIsLast = False,
       fcMetadata = Some \<lparr>fmFilePath = ''plugins/x.jar'', fmFileHash = ''h3'', fmFileSize = 3,
                          fmTargetAgentId = ''a1'', fmSyncId = ''s''\<rparr>\<rparr>,
      \<lparr>fcData = [3], fcChunkIndex = 1, fcTotalChunks = 2, fcIsLast = True, fcMetadata = None\<rparr>]"

definition len_sha :: "bytes \<Rightarrow> string" where
  "len_sha b = CHR ''h'' # itoa (int (length b))"

theorem push_accepts_only_intact_witness:
  "os_read_file (snd (PushFile len_sha ''/srv'' ''.'' demo_chunks RecvEOF example_fs))
     [''srv'', ''plugins'', ''x.jar''] = Inr [1, 2, 3]"
proof -
  let ?r = "PushFile len_sha ''/srv'' ''.'' demo_chunks RecvEOF example_fs"
  have ok: "fs_ok example_fs" by code_simp
  have r: "?r = (Inr \<lparr>prReceivedHash = ''h3'', prSyncId = ''s''\<rparr>, snd ?r)" by code_simp
  have p: "os_path ''/srv'' (fp_join [''.'', ''plugins/x.jar'']) = [''srv'', ''plugins'', ''x.jar'']" by code_simp
  have d: "received demo_chunks = [1, 2, 3]" by code_simp
  have m: "fcMetadata (hd demo_chunks) = Some \<lparr>fmFilePath = ''plugins/x.jar'', fmFileHash = ''h3'', fmFileSize = 3,
                          fmTargetAgentId = ''a1'', fmSyncId = ''s''\<rparr>" by code_simp
  from push_accepts_only_intact [OF ok r] obtain c cs meta where
    c: "demo_chunks = c # cs" "fcMetadata c = Some meta"
    and s: "os_read_file (snd ?r) (os_path ''/srv'' (fp_join [''.'', fmFilePath meta])) = Inr (received demo_chunks)"
    by blast
  have "c = hd demo_chunks" using c(1) by (metis list.sel(1))
  then have "fmFilePath meta = ''plugins/x.jar''" using c(2) m by auto
  then show ?thesis using s p d by metis
qed

section \<open>Delivering\<close>

lemma rel_text_path: "rel_text cs = path_text False cs"
  by (simp add: path_text_def)

lemma dot_join:
  assumes "\<forall>c \<in> set cs. proper_name c"
  shows "fp_join [''.'', rel_text cs] = rel_text cs"
proof -
  have "clean_comps False (''.'' @ CHR ''/'' # rel_text cs) = cs"
  proof (cases "cs = []")
    case True
    then show ?thesis by (simp add: rel_text_def) (simp add: clean_comps_def clean_step_def)
  next
    case False
    have "clean_comps False ''.'' = []" by code_simp
    moreover have "split_on CHR ''/'' (str_join ''/'' cs) = cs" using assms False by (rule split_on_join_proper)
    moreover have "fold (clean_step False) cs [] = rev cs" using fold_clean_proper [OF assms, of False "[]"] by simp
    ultimately show ?thesis unfolding fold_clean_append rel_text_def using False by simp
  qed
  moreover have "\<not> is_abs ''.''" by code_simp
  ultimately show ?thesis by (simp add: fp_join_text rel_text_path)
qed

lemma fp_base_rel_text:
  assumes "\<forall>c \<in> set (cs @ [n]). proper_name c"
  shows "fp_base (rel_text (cs @ [n])) = n"
proof -
  have pn: "proper_name n" using assms by simp
  obtain m k where n: "n = m @ [k]" "k \<noteq> CHR ''/''"
    using pn by (cases n rule: rev_cases) (auto simp: proper_name_def)
  let ?t = "rel_text (cs @ [n])"
  have e: "?t = (if cs = [] then n else str_join ''/'' cs @ CHR ''/'' # n)"
    by (simp add: rel_text_def str_join_append)
  have s: "strip_slashes ?t = ?t" unfolding e using n by (simp add: strip_slashes_def)
  have "last (split_on CHR ''/'' ?t) = n"
    unfolding e using pn by (simp add: split_on_append split_on_nosep proper_name_def)
  moreover have "?t \<noteq> []" unfolding e using n by simp
  ultimately show ?thesis unfolding fp_base_def Let_def s by simp
qed

definition tmp_name :: "string \<Rightarrow> string" where
  "tmp_name n = ''.craftstack_tmp_'' @ n"

lemma tmp_name_proper: "proper_name n \<Longrightarrow> proper_name (tmp_name n)"
  by (simp add: tmp_name_def proper_name_def)

text \<open>An agent is ready for a file when its directory can be made and neither the file's name
  nor the temporary name is taken by a directory.\<close>

definition push_ready :: "string \<Rightarrow> string list \<Rightarrow> string \<Rightarrow> fs \<Rightarrow> bool" where
  "push_ready cwd cs n f \<longleftrightarrow> fs_ok f \<and>
     (case os_mkdir_all (to_path cwd @ cs) 493 f of
        Inl e \<Rightarrow> False
      | Inr f1 \<Rightarrow> \<not> fs_is_dir f1 (to_path cwd @ cs @ [n]) \<and> \<not> fs_is_dir f1 (to_path cwd @ cs @ [tmp_name n]))"

lemma os_write_file_total:
  assumes "fs_is_dir f p" "\<not> fs_is_dir f (p @ [c])"
  shows "\<exists>f'. os_write_file (p @ [c]) b m f = Inr f'"
  using assms by (auto simp: os_write_file_def fs_is_dir_def split: option.splits fnode.splits)

lemma push_loop_total:
  assumes "psTmpPath st = Some tmp" "psMetadata st = Some meta"
    and "os_read_file f (os_path cwd tmp) = Inr (psData st)" "fs_ok f"
  shows "\<exists>st' f'. push_loop cwd baseDir RecvEOF chunks st f = (None, st', f')"
  using assms
proof (induction chunks arbitrary: st f)
  case Nil
  then show ?case by simp
next
  case (Cons c cs)
  have "\<exists>st2 f2. push_write cwd c st f = (None, st2, f2)"
    using Cons.prems(1,3) by (auto simp: push_write_def os_write_file_def os_read_file_iff)
  then obtain st2 f2 where w: "push_write cwd c st f = (None, st2, f2)" by blast
  note s = push_write_spec [OF w Cons.prems(1,3,4)]
  have "\<exists>st' f'. push_loop cwd baseDir RecvEOF cs st2 f2 = (None, st', f')"
    by (rule Cons.IH) (use s Cons.prems(2) in auto)
  then show ?case using w Cons.prems(2) by (cases "fcMetadata c") (auto simp: Let_def)
qed

lemma PushFile_total:
  assumes ready: "push_ready cwd cs n f" and p: "\<forall>c \<in> set (cs @ [n]). proper_name c"
    and chunks: "chunks = c # rest" "fcMetadata c = Some meta" "fmFilePath meta = rel_text (cs @ [n])"
    and hash: "fmFileHash meta = '''' \<or> fmFileHash meta = sha (received chunks)"
  shows "\<exists>resp f'. PushFile sha cwd ''.'' chunks RecvEOF f = (Inr resp, f')"
proof -
  let ?d = "to_path cwd @ cs" and ?tmp = "rel_text (cs @ [tmp_name n])"
  have pcs: "\<forall>c \<in> set cs. proper_name c" and pn: "proper_name n" using p by auto
  have ptmp: "\<forall>c \<in> set (cs @ [tmp_name n]). proper_name c" using pcs tmp_name_proper [OF pn] by auto
  have dir: "fp_dir (rel_text (cs @ [n])) = rel_text cs"
    using fp_dir_text [OF p, of False] by (simp add: rel_text_path)
  have dest: "fp_join [''.'', fp_dir (fmFilePath meta)] = rel_text cs"
    by (simp add: chunks(3) dir dot_join [OF pcs])
  have tmp: "fp_join [rel_text cs, ''.craftstack_tmp_'' @ fp_base (fmFilePath meta)] = ?tmp"
    unfolding chunks(3) fp_base_rel_text [OF p]
    using fp_join_path_text [OF ptmp, of False] by (simp add: rel_text_path tmp_name_def)
  have fin: "fp_join [''.'', fmFilePath meta] = rel_text (cs @ [n])" by (simp add: chunks(3) dot_join [OF p])
  have os: "os_path cwd (rel_text cs) = ?d" "os_path cwd ?tmp = ?d @ [tmp_name n]"
    "os_path cwd (rel_text (cs @ [n])) = ?d @ [n]"
    using os_path_text [OF pcs, of cwd False] os_path_text [OF ptmp, of cwd False] os_path_text [OF p, of cwd False]
    by (simp_all add: rel_text_path os_base_def)
  obtain f1 where f1: "os_mkdir_all ?d 493 f = Inr f1" "\<not> fs_is_dir f1 (?d @ [n])"
      "\<not> fs_is_dir f1 (?d @ [tmp_name n])" and ok: "fs_ok f"
    using ready by (auto simp: push_ready_def split: sum.splits)
  obtain f2 where f2: "os_write_file (?d @ [tmp_name n]) [] 438 f1 = Inr f2"
    using os_write_file_total [OF os_mkdir_all_spec(1) [OF f1(1)] f1(3)] by blast
  have ok2: "fs_ok f2"
    by (rule os_write_file_ok [OF os_mkdir_all_ok [OF f1(1) ok] _ f2])
      (use ptmp pcs in \<open>auto simp: to_path_proper\<close>)
  define st1 where "st1 = push_init\<lparr>psMetadata := Some meta, psTmpPath := Some ?tmp\<rparr>"
  have op: "push_open cwd ''.'' meta push_init f = (None, st1, f2)"
    unfolding push_open_def Let_def dest tmp os st1_def using f1(1) f2 by simp
  have r2: "os_read_file f2 (os_path cwd ?tmp) = Inr (psData st1)"
    using os_write_file_get(3) [OF f2] by (simp add: os st1_def)
  obtain st f3 where l: "push_loop cwd ''.'' RecvEOF chunks st1 f2 = (None, st, f3)"
    using push_loop_total [OF _ _ r2 ok2, of meta "''.''" chunks] by (auto simp: st1_def)
  have s: "psTmpPath st = Some ?tmp" "psMetadata st = Some meta" "psData st = received chunks"
    "os_read_file f3 (?d @ [tmp_name n]) = Inr (received chunks)" "fs_ok f3"
    "\<forall>q. q \<noteq> ?d @ [tmp_name n] \<longrightarrow> fs_get f3 q = fs_get f2 q"
    using push_loop_spec [OF l _ _ r2 ok2, of meta] by (auto simp: st1_def os)
  have l0: "push_loop cwd ''.'' RecvEOF chunks push_init f = (None, st, f3)"
    using l op by (simp add: chunks(1,2) st1_def)
  have nt: "n \<noteq> tmp_name n" by (simp add: tmp_name_def)
  have d3: "fs_is_dir f3 q = fs_is_dir f1 q" if "q \<noteq> ?d @ [tmp_name n]" for q
    using s(6) that os_write_file_get(2) [OF f2, of q] by (simp add: fs_is_dir_def)
  have "\<not> fs_is_dir f3 (?d @ [n])" "fs_is_dir f3 ?d"
    using d3 [of "?d @ [n]"] d3 [of ?d] f1(2) os_mkdir_all_spec(1) [OF f1(1)] nt by auto
  moreover obtain m where "fs_get f3 (?d @ [tmp_name n]) = Some (FileNode m (received chunks))"
    using s(4) by (auto simp: os_read_file_iff)
  ultimately have "\<exists>f4. os_rename (?d @ [tmp_name n]) (?d @ [n]) f3 = Inr f4"
    using nt by (auto simp: os_rename_def is_dir_node_def butlast_append below_def)
  then obtain f4 where "os_rename (os_path cwd ?tmp) (os_path cwd (rel_text (cs @ [n]))) f3 = Inr f4"
    by (auto simp: os)
  then show ?thesis
    using hash s(1-3) by (auto simp: PushFile_def l0 push_finish_def Let_def fin)
qed

lemma push_chunks_first:
  assumes "b \<noteq> []" "0 < n"
  shows "\<exists>c cs. push_chunks n meta tot 0 b = c # cs \<and> fcMetadata c = Some meta"
  using assms by (subst push_chunks.simps) simp

text \<open>One agent that is ready gets the file.\<close>

lemma pushFileToAgent_delivers:
  assumes content: "os_read_file (swMaster w) (os_path cwd (fiAbsPath file)) = Inr content" "content \<noteq> []"
    and hash: "fiHash file = '''' \<or> fiHash file = sha content"
    and path: "fiRelPath file = rel_text (cs @ [n])" "\<forall>c \<in> set (cs @ [n]). proper_name c"
    and agent: "map_get (swAgents w) (taAddress a) = Some g" "push_ready agentCwd cs n g"
  shows "\<exists>g' w'. pushFileToAgent sha cwd agentCwd sid file a w = (None, w') \<and>
    swAgents w' = map_put (taAddress a) g' (swAgents w) \<and> swMaster w' = swMaster w \<and>
    os_read_file g' (to_path agentCwd @ cs @ [n]) = Inr content"
proof -
  define meta where "meta = \<lparr>fmFilePath = fiRelPath file, fmFileHash = (if fiHash file = '''' then sha content else fiHash file),
    fmFileSize = int (length content), fmTargetAgentId = taID a, fmSyncId = sid\<rparr>"
  define chunks where "chunks = push_chunks chunkSize meta (total_chunks chunkSize (length content)) 0 content"
  have n0: "0 < chunkSize" by (simp add: chunkSize_def)
  obtain c rest where cr: "chunks = c # rest" "fcMetadata c = Some meta"
    using push_chunks_first [OF content(2) n0] unfolding chunks_def by blast
  have rc: "received chunks = content" unfolding chunks_def by (rule received_push [OF n0])
  have fp: "fmFilePath meta = rel_text (cs @ [n])" and fh: "fmFileHash meta = sha content"
    using hash path(1) by (auto simp: meta_def)
  obtain resp g' where P: "PushFile sha agentCwd ''.'' chunks RecvEOF g = (Inr resp, g')"
    using PushFile_total [OF agent(2) path(2) cr fp, of sha] fh rc by auto
  have ok: "fs_ok g" using agent(2) by (simp add: push_ready_def)
  have "os_read_file g' (os_path agentCwd (fp_join [''.'', fmFilePath meta])) = Inr content"
    using PushFile_success [OF P ok] cr rc by auto
  moreover have "os_path agentCwd (fp_join [''.'', fmFilePath meta]) = to_path agentCwd @ cs @ [n]"
    unfolding fp dot_join [OF path(2)]
    using os_path_text [OF path(2), of agentCwd False] by (simp add: rel_text_path os_base_def)
  moreover have "\<exists>w'. pushFileToAgent sha cwd agentCwd sid file a w = (None, w') \<and>
      swAgents w' = map_put (taAddress a) g' (swAgents w) \<and> swMaster w' = swMaster w"
    unfolding pushFileToAgent_def content(1) agent(1) Let_def sum.case option.case meta_def [symmetric]
      chunks_def [symmetric] P by simp
  ultimately show ?thesis by auto
qed

lemma push_all_delivers:
  assumes "os_read_file (swMaster w) (os_path cwd (fiAbsPath file)) = Inr content" "content \<noteq> []"
    and "fiHash file = '''' \<or> fiHash file = sha content"
    and "fiRelPath file = rel_text (cs @ [n])" "\<forall>c \<in> set (cs @ [n]). proper_name c"
    and "distinct (map taAddress as)"
    and "\<forall>a \<in> set as. \<exists>g. map_get (swAgents w) (taAddress a) = Some g \<and> push_ready agentCwd cs n g"
  shows "\<exists>w'. push_all sha cwd agentCwd sid file as None w = (None, w') \<and>
    (\<forall>a \<in> set as. \<exists>g'. map_get (swAgents w') (taAddress a) = Some g' \<and>
       os_read_file g' (to_path agentCwd @ cs @ [n]) = Inr content) \<and>
    (\<forall>addr. addr \<notin> taAddress ` set as \<longrightarrow> map_get (swAgents w') addr = map_get (swAgents w) addr)"
  using assms(1,6,7)
proof (induction as arbitrary: w)
  case Nil
  then show ?case by simp
next
  case (Cons a as)
  obtain g where g: "map_get (swAgents w) (taAddress a) = Some g" "push_ready agentCwd cs n g"
    using Cons.prems(3) by auto
  obtain g' w1 where p: "pushFileToAgent sha cwd agentCwd sid file a w = (None, w1)"
    "swAgents w1 = map_put (taAddress a) g' (swAgents w)" "swMaster w1 = swMaster w"
    "os_read_file g' (to_path agentCwd @ cs @ [n]) = Inr content"
    using pushFileToAgent_delivers [where sha = sha and sid = sid, OF Cons.prems(1) assms(2-5) g] by blast
  have other: "map_get (swAgents w1) addr = map_get (swAgents w) addr" if "addr \<noteq> taAddress a" for addr
    using that by (simp add: p(2) map_get_put)
  have "\<exists>w'. push_all sha cwd agentCwd sid file as None w1 = (None, w') \<and>
    (\<forall>a \<in> set as. \<exists>g'. map_get (swAgents w') (taAddress a) = Some g' \<and>
       os_read_file g' (to_path agentCwd @ cs @ [n]) = Inr content) \<and>
    (\<forall>addr. addr \<notin> taAddress ` set as \<longrightarrow> map_get (swAgents w') addr = map_get (swAgents w1) addr)"
  proof (rule Cons.IH)
    show "os_read_file (swMaster w1) (os_path cwd (fiAbsPath file)) = Inr content" using Cons.prems(1) p(3) by simp
    show "distinct (map taAddress as)" using Cons.prems(2) by simp
    show "\<forall>a \<in> set as. \<exists>g. map_get (swAgents w1) (taAddress a) = Some g \<and> push_ready agentCwd cs n g"
      using Cons.prems(2,3) other by (auto simp: image_iff)
  qed
  then obtain w' where w': "push_all sha cwd agentCwd sid file as None w1 = (None, w')"
    "\<forall>a \<in> set as. \<exists>g'. map_get (swAgents w') (taAddress a) = Some g' \<and>
       os_read_file g' (to_path agentCwd @ cs @ [n]) = Inr content"
    "\<forall>addr. addr \<notin> taAddress ` set as \<longrightarrow> map_get (swAgents w') addr = map_get (swAgents w1) addr"
    by blast
  have "taAddress a \<notin> taAddress ` set as" using Cons.prems(2) by simp
  then have "map_get (swAgents w') (taAddress a) = Some g'" using w'(3) p(2) by (simp add: map_get_put)
  then show ?case using w' p(1,4) other by auto
qed

lemma matchTarget_iff: "matchTarget ts i nm \<longleftrightarrow> ''*'' \<in> set ts \<or> i \<in> set ts \<or> nm \<in> set ts"
  by (induction ts) auto


definition demo_event :: FileEvent where
  "demo_event = \<lparr>evPath = ''/srv/survival/a/x'', evRelPath = ''x.jar'', evType = EventUpdate,
     evMappingName = ''m'', evDest = ''plugins'', evTargets = [''node1'']\<rparr>"

definition demo_agents :: sync_agents where
  "demo_agents = [(''1'', \<lparr>taID = ''1'', taName = ''node1'', taAddress = ''h1''\<rparr>),
                  (''2'', \<lparr>taID = ''2'', taName = ''node2'', taAddress = ''h2''\<rparr>)]"

definition demo_world :: sync_world where
  "demo_world = \<lparr>swMaster = example_fs, swAgents = [(''h1'', []), (''h2'', [])], swHistory = []\<rparr>"


end
