(* ===== verification/Watcher.thy ===== *)
theory Watcher
  imports File_Sync
begin

text \<open>
  The directory watcher of the master (\<^verbatim>\<open>internal/master/watcher/watcher.go\<close>): the mappings
  and the directories it watches, the translation of a raw notification into a file event,
  and the debouncing of bursts. Raw notifications come from a library; the timers of the
  pending events are their deadlines, and \<open>fire\<close> runs the ones that are due.
\<close>

section \<open>Patterns\<close>

text \<open>
  \<^verbatim>\<open>filepath.Match\<close>, with its error (a malformed pattern) as no match, which is how the caller
  uses it. Every step of \<open>class_match\<close> and \<open>glob_match\<close> takes a character from the pattern or
  from the name, so the sum of their lengths is enough fuel.
\<close>

fun class_char :: "string \<Rightarrow> (char \<times> string) option" where
  "class_char [] = None"
| "class_char (c # ps) =
     (if c = CHR ''-'' \<or> c = CHR '']'' then None
      else if c = CHR 0x5C then (case ps of [] \<Rightarrow> None | d # qs \<Rightarrow> Some (d, qs))
      else Some (c, ps))"

primrec class_match :: "nat \<Rightarrow> char \<Rightarrow> bool \<Rightarrow> bool \<Rightarrow> string \<Rightarrow> (bool \<times> string) option" where
  "class_match 0 x started acc ps = None"
| "class_match (Suc k) x started acc ps =
     (if ps \<noteq> [] \<and> hd ps = CHR '']'' \<and> started then Some (acc, tl ps)
      else case class_char ps of
             None \<Rightarrow> None
           | Some (lo, r) \<Rightarrow>
               if r \<noteq> [] \<and> hd r = CHR ''-''
               then (case class_char (tl r) of
                       None \<Rightarrow> None
                     | Some (hi, r') \<Rightarrow> class_match k x True (acc \<or> (lo \<le> x \<and> x \<le> hi)) r')
               else class_match k x True (acc \<or> lo = x) r)"

primrec glob_match :: "nat \<Rightarrow> string \<Rightarrow> string \<Rightarrow> bool" where
  "glob_match 0 ps s = (ps = [] \<and> s = [])"
| "glob_match (Suc k) ps s =
     (case ps of
        [] \<Rightarrow> s = []
      | p # qs \<Rightarrow>
          if p = CHR ''*'' then glob_match k qs s \<or> (s \<noteq> [] \<and> hd s \<noteq> CHR ''/'' \<and> glob_match k ps (tl s))
          else if s = [] then False
          else if p = CHR ''?'' then hd s \<noteq> CHR ''/'' \<and> glob_match k qs (tl s)
          else if p = CHR ''['' then
            (let neg = (qs \<noteq> [] \<and> hd qs = CHR ''^'')
             in case class_match (length ps) (hd s) False False (if neg then tl qs else qs) of
                  None \<Rightarrow> False
                | Some (m, rest) \<Rightarrow> m \<noteq> neg \<and> glob_match k rest (tl s))
          else if p = CHR 0x5C then qs \<noteq> [] \<and> hd qs = hd s \<and> glob_match k (tl qs) (tl s)
          else p = hd s \<and> glob_match k qs (tl s))"

definition fp_match :: "string \<Rightarrow> string \<Rightarrow> bool" where
  "fp_match pattern name = glob_match (Suc (length pattern + length name)) pattern name"

section \<open>The watcher\<close>

record fsn_event =
  fnName :: string
  fnCreate :: bool
  fnWrite :: bool
  fnRemove :: bool
  fnRename :: bool

record watcher =
  waDebounce :: int
  waMappings :: "SyncMappingCfg list"
  waSrcMap :: "(string, nat) gomap"
  waWatched :: "path list"
  waPending :: "(string, FileEvent \<times> instant) gomap"
  waEvents :: "FileEvent list"

definition dirs_below :: "fs \<Rightarrow> path \<Rightarrow> path list" where
  "dirs_below f p = filter (\<lambda>q. below p q \<and> fs_is_dir f q) (map fst f)"

fun load_mapping :: "string \<Rightarrow> nat \<times> SyncMappingCfg \<Rightarrow> watcher \<times> fs \<Rightarrow> watcher \<times> fs" where
  "load_mapping cwd (i, m) (w, f) =
     (let absDir = fp_abs cwd (smSrc m);
          w1 = w\<lparr>waSrcMap := map_put absDir i (waSrcMap w)\<rparr>
      in case os_mkdir_all (to_path absDir) 493 f of
           Inl e \<Rightarrow> (w1, f)
         | Inr f1 \<Rightarrow> (w1\<lparr>waWatched := waWatched w1 @ dirs_below f1 (to_path absDir)\<rparr>, f1))"

definition LoadMappings :: "string \<Rightarrow> SyncMappingCfg list \<Rightarrow> watcher \<Rightarrow> fs \<Rightarrow> watcher \<times> fs" where
  "LoadMappings cwd ms w f =
     fold (load_mapping cwd) (enumerate 0 ms)
       (w\<lparr>waWatched := [], waMappings := ms, waSrcMap := []\<rparr>, f)"

text \<open>The loop over the map of sources takes the first that contains the path; Go leaves the
  order of that map open, the model takes the order of insertion.\<close>

fun resolve_in :: "(string, nat) gomap \<Rightarrow> string \<Rightarrow> (nat \<times> string) option" where
  "resolve_in [] absPath = None"
| "resolve_in ((absDir, idx) # rest) absPath =
     (case fp_rel absDir absPath of
        None \<Rightarrow> resolve_in rest absPath
      | Some rel \<Rightarrow> if has_prefix rel ''..'' then resolve_in rest absPath else Some (idx, rel))"

definition resolveMapping :: "string \<Rightarrow> watcher \<Rightarrow> string \<Rightarrow> (nat \<times> string) option" where
  "resolveMapping cwd w p = resolve_in (waSrcMap w) (fp_abs cwd p)"

definition excluded :: "SyncMappingCfg \<Rightarrow> string \<Rightarrow> bool" where
  "excluded m relPath =
     list_ex (\<lambda>pattern. fp_match pattern relPath \<or> fp_match pattern (fp_base relPath)) (smExclude m)"

definition event_type :: "fsn_event \<Rightarrow> EventType option" where
  "event_type e =
     (if fnCreate e then Some EventCreate
      else if fnWrite e then Some EventUpdate
      else if fnRemove e then Some EventDelete
      else if fnRename e then Some EventDelete
      else None)"

definition watch_event :: "string \<Rightarrow> instant \<Rightarrow> fsn_event \<Rightarrow> watcher \<Rightarrow> fs \<Rightarrow> watcher" where
  "watch_event cwd now e w f =
     (case resolveMapping cwd w (fnName e) of
        None \<Rightarrow> w
      | Some (idx, relPath) \<Rightarrow>
          let mapping = waMappings w ! idx
          in if excluded mapping relPath then w
             else if fnCreate e \<and> fs_is_dir f (os_path cwd (fnName e))
             then w\<lparr>waWatched := waWatched w @ [os_path cwd (fnName e)]\<rparr>
             else (case event_type e of
                     None \<Rightarrow> w
                   | Some ty \<Rightarrow>
                       let fe = \<lparr>evPath = fnName e, evRelPath = relPath, evType = ty,
                                 evMappingName = smName mapping, evDest = smDest mapping,
                                 evTargets = smTargets mapping\<rparr>
                       in w\<lparr>waPending := map_put (fnName e) (fe, now + waDebounce w) (waPending w)\<rparr>))"

definition emit :: "string \<Rightarrow> watcher \<Rightarrow> watcher" where
  "emit p w =
     (case map_get (waPending w) p of
        None \<Rightarrow> w
      | Some (fe, deadline) \<Rightarrow>
          w\<lparr>waPending := map_del p (waPending w), waEvents := waEvents w @ [fe]\<rparr>)"

definition due :: "instant \<Rightarrow> watcher \<Rightarrow> string list" where
  "due now w = map fst (filter (\<lambda>(p, fe, deadline). deadline \<le> now) (waPending w))"

definition fire :: "instant \<Rightarrow> watcher \<Rightarrow> watcher" where
  "fire now w = fold emit (due now w) w"

fun drive :: "string \<Rightarrow> (instant \<times> fsn_event) list \<Rightarrow> fs \<Rightarrow> watcher \<Rightarrow> watcher" where
  "drive cwd [] f w = w"
| "drive cwd ((now, e) # es) f w = drive cwd es f (watch_event cwd now e (fire now w) f)"

section \<open>Debouncing\<close>

definition event_of :: "watcher \<Rightarrow> string \<Rightarrow> nat \<Rightarrow> string \<Rightarrow> EventType \<Rightarrow> FileEvent" where
  "event_of w p idx rel ty =
     \<lparr>evPath = p, evRelPath = rel, evType = ty, evMappingName = smName (waMappings w ! idx),
      evDest = smDest (waMappings w ! idx), evTargets = smTargets (waMappings w ! idx)\<rparr>"

text \<open>A burst on one path: the same name, and less than the debounce time between neighbours.\<close>

fun burst :: "int \<Rightarrow> string \<Rightarrow> (instant \<times> fsn_event) list \<Rightarrow> bool" where
  "burst d p [] = True"
| "burst d p [(t, e)] = (fnName e = p \<and> event_type e \<noteq> None)"
| "burst d p ((t, e) # (t', e') # es) =
     (fnName e = p \<and> event_type e \<noteq> None \<and> t' < t + d \<and> burst d p ((t', e') # es))"

definition only_pending :: "watcher \<Rightarrow> string \<Rightarrow> FileEvent \<times> instant \<Rightarrow> watcher" where
  "only_pending w p x = w\<lparr>waPending := [(p, x)]\<rparr>"

definition tracked :: "string \<Rightarrow> fs \<Rightarrow> watcher \<Rightarrow> string \<Rightarrow> nat \<Rightarrow> string \<Rightarrow> bool" where
  "tracked cwd f w p idx rel \<longleftrightarrow>
     resolveMapping cwd w p = Some (idx, rel) \<and> \<not> excluded (waMappings w ! idx) rel \<and>
     \<not> fs_is_dir f (os_path cwd p)"

lemma tracked_only [simp]: "tracked cwd f (only_pending w p x) q idx rel = tracked cwd f w q idx rel"
  by (simp add: tracked_def only_pending_def resolveMapping_def)

lemma event_of_only [simp]: "event_of (only_pending w p x) q idx rel ty = event_of w q idx rel ty"
  by (simp add: event_of_def only_pending_def)

lemma only_only [simp]: "only_pending (only_pending w p x) q y = only_pending w q y"
  by (simp add: only_pending_def)

lemma fire_later: "now < d \<Longrightarrow> fire now (only_pending w p (fe, d)) = only_pending w p (fe, d)"
  by (simp add: fire_def due_def only_pending_def)

lemma fire_due:
  "d \<le> now \<Longrightarrow> fire now (only_pending w p (fe, d)) = w\<lparr>waPending := [], waEvents := waEvents w @ [fe]\<rparr>"
  by (simp add: fire_def due_def only_pending_def emit_def map_get_def map_del_def)

lemma watch_event_queues:
  assumes "tracked cwd f w (fnName e) idx rel" "event_type e = Some ty"
    and "waPending w = [] \<or> (\<exists>x. waPending w = [(fnName e, x)])"
  shows "watch_event cwd now e w f =
    only_pending w (fnName e) (event_of w (fnName e) idx rel ty, now + waDebounce w)"
  using assms by (auto simp: watch_event_def tracked_def only_pending_def event_of_def Let_def)

lemma queue_again:
  assumes "tracked cwd f w p idx rel" "event_type e = Some ty" "fnName e = p" "now < d"
  shows "watch_event cwd now e (fire now (only_pending w p (fe, d))) f =
    only_pending w p (event_of w p idx rel ty, now + waDebounce w)"
proof -
  have p: "waPending (only_pending w p (fe, d)) = [(fnName e, (fe, d))]"
    and d: "waDebounce (only_pending w p (fe, d)) = waDebounce w"
    using assms(3) by (simp_all add: only_pending_def)
  have "watch_event cwd now e (only_pending w p (fe, d)) f =
    only_pending (only_pending w p (fe, d)) (fnName e)
      (event_of (only_pending w p (fe, d)) (fnName e) idx rel ty, now + waDebounce (only_pending w p (fe, d)))"
    by (rule watch_event_queues [OF _ assms(2)]) (use assms(1,3) p in simp_all)
  then show ?thesis unfolding fire_later [OF assms(4)] d using assms(3) by simp
qed

lemma drive_burst:
  assumes "tracked cwd f w p idx rel" "burst (waDebounce w) p (es @ [(t, e)])"
    and "hd (es @ [(t, e)]) = (t0, e0)" "t0 < d"
  shows "drive cwd (es @ [(t, e)]) f (only_pending w p (fe, d)) =
    only_pending w p (event_of w p idx rel (the (event_type e)), t + waDebounce w)"
  using assms
proof (induction es arbitrary: fe d t0 e0)
  case Nil
  then show ?case
    using queue_again [of cwd f w p idx rel e _ t d fe] by auto
next
  case (Cons x es)
  obtain t1 e1 where x: "x = (t1, e1)" by (cases x)
  obtain t2 e2 where h: "hd (es @ [(t, e)]) = (t2, e2)" by (cases "hd (es @ [(t, e)])")
  obtain r where r: "es @ [(t, e)] = (t2, e2) # r" using h by (cases "es @ [(t, e)]") auto
  obtain ty where ty: "event_type e1 = Some ty" "fnName e1 = p" "t2 < t1 + waDebounce w"
    "burst (waDebounce w) p (es @ [(t, e)])"
    using Cons.prems(2) x r by auto
  have "watch_event cwd t1 e1 (fire t1 (only_pending w p (fe, d))) f =
      only_pending w p (event_of w p idx rel ty, t1 + waDebounce w)"
    using queue_again [of cwd f w p idx rel e1 ty t1 d fe] Cons.prems ty x by simp
  then show ?case using Cons.IH [OF Cons.prems(1) ty(4) h ty(3)] x by simp
qed

text \<open>
  A burst of notifications gives one event: any number of notifications on a watched,
  not excluded file, each less than the debounce time after the one before, produces no
  event while the burst lasts, and exactly one when the debounce time has passed after the
  last, with the type and the target of that last notification.
\<close>

theorem burst_gives_one_event:
  assumes track: "tracked cwd f w p idx rel"
    and quiet: "waPending w = []"
    and burst: "burst (waDebounce w) p (es @ [(t, e)])"
    and later: "now < t + waDebounce w" "t + waDebounce w \<le> after"
  shows "waEvents (fire now (drive cwd (es @ [(t, e)]) f w)) = waEvents w \<and>
    waEvents (fire after (drive cwd (es @ [(t, e)]) f w)) =
      waEvents w @ [event_of w p idx rel (the (event_type e))] \<and>
    waPending (fire after (drive cwd (es @ [(t, e)]) f w)) = []"
proof -
  let ?d = "waDebounce w"
  have f0: "fire t0 w = w" for t0 using quiet by (simp add: fire_def due_def)
  have "drive cwd (es @ [(t, e)]) f w = only_pending w p (event_of w p idx rel (the (event_type e)), t + ?d)"
  proof (cases es)
    case Nil
    then show ?thesis
      using watch_event_queues [of cwd f w e idx rel _ t] track burst quiet by (auto simp: f0)
  next
    case (Cons x es')
    obtain t1 e1 where x: "x = (t1, e1)" by (cases x)
    obtain t2 e2 where h: "hd (es' @ [(t, e)]) = (t2, e2)" by (cases "hd (es' @ [(t, e)])")
    obtain r where r: "es' @ [(t, e)] = (t2, e2) # r" using h by (cases "es' @ [(t, e)]") auto
    obtain ty where ty: "event_type e1 = Some ty" "fnName e1 = p" "t2 < t1 + ?d" "burst ?d p (es' @ [(t, e)])"
      using burst Cons x r by auto
    have "watch_event cwd t1 e1 (fire t1 w) f = only_pending w p (event_of w p idx rel ty, t1 + ?d)"
      using watch_event_queues [of cwd f w e1 idx rel ty t1] track ty quiet by (auto simp: f0)
    then show ?thesis
      using drive_burst [OF track ty(4) h ty(3)] Cons x by simp
  qed
  then show ?thesis using later by (simp add: fire_later fire_due) (simp add: only_pending_def)
qed

definition demo_watcher :: watcher where
  "demo_watcher = fst (LoadMappings ''/srv''
     [\<lparr>smName = ''m'', smSrc = ''survival'', smDest = ''plugins'', smTargets = [''*''], smExclude = [''*.tmp'']\<rparr>]
     \<lparr>waDebounce = 500, waMappings = [], waSrcMap = [], waWatched = [], waPending = [], waEvents = []\<rparr> example_fs)"

definition wr :: "string \<Rightarrow> fsn_event" where
  "wr p = \<lparr>fnName = p, fnCreate = False, fnWrite = True, fnRemove = False, fnRename = False\<rparr>"

theorem burst_gives_one_event_witness:
  "map evRelPath (waEvents (fire 1300 (drive ''/srv''
     ([(0, wr ''/srv/survival/a/x''), (400, wr ''/srv/survival/a/x'')] @ [(800, wr ''/srv/survival/a/x'')])
     example_fs demo_watcher))) = [''a/x'']"
proof -
  have tr: "tracked ''/srv'' example_fs demo_watcher ''/srv/survival/a/x'' 0 ''a/x''" by code_simp
  have "waEvents (fire 1300 (drive ''/srv''
     ([(0, wr ''/srv/survival/a/x''), (400, wr ''/srv/survival/a/x'')] @ [(800, wr ''/srv/survival/a/x'')])
     example_fs demo_watcher)) = waEvents demo_watcher @
       [event_of demo_watcher ''/srv/survival/a/x'' 0 ''a/x'' (the (event_type (wr ''/srv/survival/a/x'')))]"
    using burst_gives_one_event [OF tr, of "[(0, wr ''/srv/survival/a/x''), (400, wr ''/srv/survival/a/x'')]" 800
        "wr ''/srv/survival/a/x''" 900 1300]
    by (simp add: wr_def event_type_def) code_simp
  moreover have "waEvents demo_watcher = []" by code_simp
  ultimately show ?thesis by (simp add: event_of_def)
qed

text \<open>
  Every mapping index that \<^verbatim>\<open>resolveMapping\<close> can return is in range, so the access to the list of
  mappings does not panic.
\<close>

lemma load_mapping_ok:
  assumes "\<forall>(a, j) \<in> set (waSrcMap w). j < n" "i < n"
  shows "\<forall>(a, j) \<in> set (waSrcMap (fst (load_mapping cwd (i, m) (w, f)))). j < n"
proof -
  have "\<forall>(a, j) \<in> set (map_put k i mp). j < n" if "\<forall>(a, j) \<in> set mp. j < n" for k and mp :: "(string, nat) gomap"
    using that assms(2) by (induction k i mp rule: map_put.induct) auto
  from this [OF assms(1)] show ?thesis by (simp add: Let_def split: sum.splits)
qed

lemma LoadMappings_in_range:
  "resolveMapping cwd (fst (LoadMappings cwd' ms w f)) p = Some (idx, rel) \<Longrightarrow> idx < length ms"
proof -
  have *: "\<forall>(a, j) \<in> set (waSrcMap (fst (fold (load_mapping cwd') is wf))). j < length ms"
    if "\<forall>(a, j) \<in> set (waSrcMap (fst wf)). j < length ms" "\<forall>(j, m) \<in> set is. j < length ms" for "is" wf
    using that
  proof (induction "is" arbitrary: wf)
    case (Cons x xs)
    obtain i m where x: "x = (i, m)" by (cases x)
    obtain w0 f0 where wf: "wf = (w0, f0)" by (cases wf)
    have "\<forall>(a, j) \<in> set (waSrcMap (fst (load_mapping cwd' x wf))). j < length ms"
      unfolding x wf using Cons.prems x wf by (intro load_mapping_ok) auto
    then show ?case using Cons by simp
  qed simp
  have "\<forall>(a, j) \<in> set (waSrcMap (fst (LoadMappings cwd' ms w f))). j < length ms"
    unfolding LoadMappings_def by (rule *) (auto simp: in_set_enumerate_eq)
  moreover have "resolve_in mp q = Some (idx, rel) \<Longrightarrow> \<exists>a. (a, idx) \<in> set mp" for mp q
    by (induction mp q rule: resolve_in.induct) (auto split: option.splits if_splits)
  ultimately show "resolveMapping cwd (fst (LoadMappings cwd' ms w f)) p = Some (idx, rel) \<Longrightarrow> idx < length ms"
    by (fastforce simp: resolveMapping_def)
qed

end
