(* ===== verification/Process_Lifecycle.thy ===== *)
theory Process_Lifecycle
  imports Auto_Restart
begin

text \<open>
  The life of a container under the agent (\<^verbatim>\<open>internal/agent/process/docker.go\<close>). The methods
  \<^verbatim>\<open>Start\<close>, \<^verbatim>\<open>Stop\<close>, \<^verbatim>\<open>Kill\<close> and \<^verbatim>\<open>RefreshState\<close> are called from gRPC handlers and goroutines and
  interleave with the \<^verbatim>\<open>waitForExit\<close> goroutine each start leaves behind; the mutex protects
  single sections only. An action of the model is one such section or one call of the
  docker command line; \<open>dstep\<close> is what it does, None when it cannot happen. The two
  channels \<^verbatim>\<open>stopCh\<close> and \<^verbatim>\<open>logCh\<close>, made together and closed together, are a generation number;
  closing a generation twice is the panic of a closed channel.
\<close>

section \<open>The state\<close>

datatype call =
    StartBegun    \<comment> \<open>\<^verbatim>\<open>Start\<close> has set the state to starting and runs \<^verbatim>\<open>docker start\<close>\<close>
  | StartDone     \<comment> \<open>\<^verbatim>\<open>docker start\<close> succeeded, the second section is next\<close>
  | StartSpawn    \<comment> \<open>the channels are made, log streaming and the waiter are not yet started\<close>
  | StopChecked   \<comment> \<open>\<^verbatim>\<open>Stop\<close> has seen the state running\<close>
  | StopSent      \<comment> \<open>\<^verbatim>\<open>Stop\<close> has set the state to stopping and runs \<^verbatim>\<open>docker stop\<close>\<close>
  | StopWaiting nat \<comment> \<open>\<^verbatim>\<open>Stop\<close> waits for this generation to be closed\<close>
  | KillBegun     \<comment> \<open>\<^verbatim>\<open>Kill\<close> runs \<^verbatim>\<open>docker kill\<close>\<close>
  | KillSent      \<comment> \<open>\<^verbatim>\<open>docker kill\<close> returned, the section that sets the state is next\<close>

datatype waiter =
    Blocked       \<comment> \<open>in \<^verbatim>\<open>docker wait\<close>\<close>
  | Draining int  \<comment> \<open>\<^verbatim>\<open>docker wait\<close> returned this exit code, waiting for the log streams\<close>
  | Closing nat   \<comment> \<open>the state is set, this generation is to be closed\<close>

record dproc =
  dpState :: State
  dpPid :: int
  dpGen :: nat
  dpNextGen :: nat
  dpClosed :: "nat list"
  dpStreams :: nat
  dpCalls :: "call list"
  dpWaiters :: "waiter list"
  dpUp :: bool \<comment> \<open>the container runs\<close>
  dpLastExit :: int
  dpPanicked :: bool

definition NewDocker :: dproc where
  "NewDocker = \<lparr>dpState = StateStopped, dpPid = 0, dpGen = 0, dpNextGen = 1, dpClosed = [], dpStreams = 0,
     dpCalls = [], dpWaiters = [], dpUp = False, dpLastExit = 0, dpPanicked = False\<rparr>"

datatype dact =
    ACallStart | AStartOk | AStartFail | AStartFinish int | AStartSpawn
  | ACallStop | AStopMark | AStopOk int | AStopFail | AStopDone nat | AStopTimeout nat
  | ACallKill | AKillDocker | AKillFinish
  | AExit int | AStreamEnd | AWaitReturn | AWaitError | AWaitLock int | AWaitClose nat
  | ARefresh int

section \<open>The sections of the methods\<close>

definition Start_check :: "dproc \<Rightarrow> dproc option" where
  "Start_check d =
     (if dpState d = StateRunning \<or> dpState d = StateStarting then Some d
      else Some (d\<lparr>dpState := StateStarting, dpCalls := StartBegun # dpCalls d\<rparr>))"

definition replace_call :: "call \<Rightarrow> call list \<Rightarrow> dproc \<Rightarrow> dproc option" where
  "replace_call c cs d =
     (if c \<in> set (dpCalls d) then Some (d\<lparr>dpCalls := cs @ remove1 c (dpCalls d)\<rparr>) else None)"

definition Start_failed :: "dproc \<Rightarrow> dproc option" where
  "Start_failed d = map_option (\<lambda>d. d\<lparr>dpState := StateStopped\<rparr>) (replace_call StartBegun [] d)"

definition Start_docker :: "dproc \<Rightarrow> dproc option" where
  "Start_docker d = map_option (\<lambda>d. d\<lparr>dpUp := True\<rparr>) (replace_call StartBegun [StartDone] d)"

definition new_channels :: "int \<Rightarrow> dproc \<Rightarrow> dproc" where
  "new_channels pid d =
     d\<lparr>dpState := StateRunning, dpPid := pid, dpGen := dpNextGen d, dpNextGen := Suc (dpNextGen d)\<rparr>"

definition Start_running :: "int \<Rightarrow> dproc \<Rightarrow> dproc option" where
  "Start_running pid d = map_option (new_channels pid) (replace_call StartDone [StartSpawn] d)"

definition Start_spawn :: "dproc \<Rightarrow> dproc option" where
  "Start_spawn d =
     map_option (\<lambda>d. d\<lparr>dpStreams := Suc (dpStreams d), dpWaiters := Blocked # dpWaiters d\<rparr>)
       (replace_call StartSpawn [] d)"

definition Stop_check :: "dproc \<Rightarrow> dproc option" where
  "Stop_check d =
     (if dpState d \<noteq> StateRunning then Some d else Some (d\<lparr>dpCalls := StopChecked # dpCalls d\<rparr>))"

definition Stop_mark :: "dproc \<Rightarrow> dproc option" where
  "Stop_mark d = map_option (\<lambda>d. d\<lparr>dpState := StateStopping\<rparr>) (replace_call StopChecked [StopSent] d)"

text \<open>The container has stopped when \<^verbatim>\<open>docker stop\<close> succeeds.\<close>

definition exit_container :: "int \<Rightarrow> dproc \<Rightarrow> dproc" where
  "exit_container c d = (if dpUp d then d\<lparr>dpUp := False, dpLastExit := c\<rparr> else d)"

definition Stop_docker :: "int \<Rightarrow> dproc \<Rightarrow> dproc option" where
  "Stop_docker c d = map_option (exit_container c) (replace_call StopSent [StopWaiting (dpGen d)] d)"

definition Stop_kill :: "dproc \<Rightarrow> dproc option" where
  "Stop_kill d = replace_call StopSent [KillBegun] d"

definition Stop_done :: "nat \<Rightarrow> dproc \<Rightarrow> dproc option" where
  "Stop_done g d = (if g \<in> set (dpClosed d) then replace_call (StopWaiting g) [] d else None)"

definition Stop_timeout :: "nat \<Rightarrow> dproc \<Rightarrow> dproc option" where
  "Stop_timeout g d = replace_call (StopWaiting g) [KillBegun] d"

definition Kill_docker :: "dproc \<Rightarrow> dproc option" where
  "Kill_docker d = map_option (exit_container 137) (replace_call KillBegun [KillSent] d)"

definition Kill_state :: "dproc \<Rightarrow> dproc option" where
  "Kill_state d =
     map_option (\<lambda>d. d\<lparr>dpState := StateStopped, dpPid := 0\<rparr>) (replace_call KillSent [] d)"

definition replace_waiter :: "waiter \<Rightarrow> waiter list \<Rightarrow> dproc \<Rightarrow> dproc option" where
  "replace_waiter w ws d =
     (if w \<in> set (dpWaiters d) then Some (d\<lparr>dpWaiters := ws @ remove1 w (dpWaiters d)\<rparr>) else None)"

text \<open>\<^verbatim>\<open>docker wait\<close> returns the exit code of a container that does not run, or fails.\<close>

definition waitForExit_return :: "dproc \<Rightarrow> dproc option" where
  "waitForExit_return d =
     (if dpUp d then None else replace_waiter Blocked [Draining (dpLastExit d)] d)"

definition waitForExit_error :: "dproc \<Rightarrow> dproc option" where
  "waitForExit_error d = replace_waiter Blocked [Draining 0] d"

definition exit_state :: "int \<Rightarrow> State \<Rightarrow> State" where
  "exit_state exitCode prevState =
     (if exitCode \<noteq> 0 \<and> prevState \<noteq> StateStopping then StateCrashed else StateStopped)"

definition waitForExit_lock :: "int \<Rightarrow> dproc \<Rightarrow> dproc option" where
  "waitForExit_lock c d =
     (if dpStreams d \<noteq> 0 then None
      else map_option (\<lambda>d. d\<lparr>dpState := exit_state c (dpState d), dpPid := 0\<rparr>)
             (replace_waiter (Draining c) [Closing (dpGen d)] d))"

definition waitForExit_close :: "nat \<Rightarrow> dproc \<Rightarrow> dproc option" where
  "waitForExit_close g d =
     map_option (\<lambda>d. if g \<in> set (dpClosed d) then d\<lparr>dpPanicked := True\<rparr> else d\<lparr>dpClosed := g # dpClosed d\<rparr>)
       (replace_waiter (Closing g) [] d)"

definition RefreshState :: "int \<Rightarrow> dproc \<Rightarrow> dproc option" where
  "RefreshState pid d =
     (if dpUp d then Some ((new_channels pid d)\<lparr>dpCalls := StartSpawn # dpCalls d\<rparr>)
      else Some (d\<lparr>dpState := StateStopped\<rparr>))"

fun dstep :: "dact \<Rightarrow> dproc \<Rightarrow> dproc option" where
  "dstep ACallStart d = Start_check d"
| "dstep AStartOk d = Start_docker d"
| "dstep AStartFail d = Start_failed d"
| "dstep (AStartFinish pid) d = Start_running pid d"
| "dstep AStartSpawn d = Start_spawn d"
| "dstep ACallStop d = Stop_check d"
| "dstep AStopMark d = Stop_mark d"
| "dstep (AStopOk c) d = Stop_docker c d"
| "dstep AStopFail d = Stop_kill d"
| "dstep (AStopDone g) d = Stop_done g d"
| "dstep (AStopTimeout g) d = Stop_timeout g d"
| "dstep ACallKill d = Some (d\<lparr>dpCalls := KillBegun # dpCalls d\<rparr>)"
| "dstep AKillDocker d = Kill_docker d"
| "dstep AKillFinish d = Kill_state d"
| "dstep (AExit c) d = (if dpUp d then Some (exit_container c d) else None)"
| "dstep AStreamEnd d = (if dpStreams d = 0 then None else Some (d\<lparr>dpStreams := dpStreams d - 1\<rparr>))"
| "dstep AWaitReturn d = waitForExit_return d"
| "dstep AWaitError d = waitForExit_error d"
| "dstep (AWaitLock c) d = waitForExit_lock c d"
| "dstep (AWaitClose g) d = waitForExit_close g d"
| "dstep (ARefresh pid) d = RefreshState pid d"

text \<open>Every interleaving, as far as no close has panicked.\<close>

inductive dreach :: "dproc \<Rightarrow> bool" where
  dreach_init: "dreach NewDocker"
| dreach_step: "dreach d \<Longrightarrow> \<not> dpPanicked d \<Longrightarrow> dstep a d = Some d' \<Longrightarrow> dreach d'"

fun drun :: "dact list \<Rightarrow> dproc \<Rightarrow> dproc option" where
  "drun [] d = Some d"
| "drun (a # as) d = (if dpPanicked d then None else case dstep a d of None \<Rightarrow> None | Some d' \<Rightarrow> drun as d')"

lemma drun_reach: "dreach d \<Longrightarrow> drun as d = Some d' \<Longrightarrow> dreach d'"
  by (induction as arbitrary: d) (auto split: if_splits option.splits intro: dreach_step)

section \<open>Starts that wait for the previous run to be over\<close>

fun is_start :: "call \<Rightarrow> bool" where
  "is_start StartBegun = True"
| "is_start StartDone = True"
| "is_start StartSpawn = True"
| "is_start _ = False"

definition idle :: "dproc \<Rightarrow> bool" where
  "idle d \<longleftrightarrow> dpWaiters d = [] \<and> filter is_start (dpCalls d) = []"

fun starts :: "dact \<Rightarrow> bool" where
  "starts ACallStart = True"
| "starts (ARefresh pid) = True"
| "starts _ = False"

inductive sreach :: "dproc \<Rightarrow> bool" where
  sreach_init: "sreach NewDocker"
| sreach_step: "sreach d \<Longrightarrow> dstep a d = Some d' \<Longrightarrow> (starts a \<Longrightarrow> idle d) \<Longrightarrow> sreach d'"

inductive_cases sreachE: "sreach d"

definition sphase :: "State \<Rightarrow> nat \<Rightarrow> nat list \<Rightarrow> call list \<Rightarrow> waiter list \<Rightarrow> bool" where
  "sphase s g closed st ws \<longleftrightarrow>
     (case (st, ws) of
        ([], []) \<Rightarrow> s \<noteq> StateRunning
      | ([c], []) \<Rightarrow> (if c = StartSpawn then g \<notin> set closed else s \<noteq> StateRunning)
      | ([], [w]) \<Rightarrow> g \<notin> set closed \<and> (case w of Closing g' \<Rightarrow> g' = g \<and> s \<noteq> StateRunning | _ \<Rightarrow> True)
      | _ \<Rightarrow> False)"

definition sinv :: "dproc \<Rightarrow> bool" where
  "sinv d \<longleftrightarrow> \<not> dpPanicked d \<and> dpGen d < dpNextGen d \<and> (\<forall>g \<in> set (dpClosed d). g < dpNextGen d) \<and>
     sphase (dpState d) (dpGen d) (dpClosed d) (filter is_start (dpCalls d)) (dpWaiters d)"

lemma sphase_cases:
  assumes "sphase s g closed st ws"
  obtains "st = []" "ws = []" "s \<noteq> StateRunning"
  | c where "st = [c]" "ws = []" "c = StartSpawn \<Longrightarrow> g \<notin> set closed" "c \<noteq> StartSpawn \<Longrightarrow> s \<noteq> StateRunning"
  | w where "st = []" "ws = [w]" "g \<notin> set closed" "\<And>g'. w = Closing g' \<Longrightarrow> g' = g \<and> s \<noteq> StateRunning"
  using assms unfolding sphase_def by (auto split: list.splits if_splits waiter.splits)

lemma sphase_state:
  assumes "sphase s g closed st ws" "s' \<noteq> StateRunning"
  shows "sphase s' g closed st ws"
  using assms unfolding sphase_def by (auto split: list.splits if_splits waiter.splits)

lemma replace_other_call:
  assumes "replace_call c cs d = Some d'" "\<not> is_start c" "filter is_start cs = []"
  shows "filter is_start (dpCalls d') = filter is_start (dpCalls d)"
proof -
  have "d' = d\<lparr>dpCalls := cs @ remove1 c (dpCalls d)\<rparr>"
    using assms(1) by (auto simp: replace_call_def split: if_splits)
  moreover have "c \<notin> set (filter is_start (dpCalls d))" using assms(2) by simp
  ultimately show ?thesis using assms(3) by (simp add: filter_remove1 remove1_idem)
qed

lemma replace_call_fields:
  assumes "replace_call c cs d = Some d'"
  shows "dpState d' = dpState d" "dpGen d' = dpGen d" "dpNextGen d' = dpNextGen d" "dpClosed d' = dpClosed d"
    "dpWaiters d' = dpWaiters d" "dpPanicked d' = dpPanicked d" "dpUp d' = dpUp d" "dpStreams d' = dpStreams d"
    "c \<in> set (dpCalls d)" "filter is_start (dpCalls d') = filter is_start cs @ remove1 c (filter is_start (dpCalls d))"
  using assms by (auto simp: replace_call_def filter_remove1 split: if_splits)

lemma replace_waiter_fields:
  assumes "replace_waiter w ws d = Some d'"
  shows "dpState d' = dpState d" "dpGen d' = dpGen d" "dpNextGen d' = dpNextGen d" "dpClosed d' = dpClosed d"
    "dpCalls d' = dpCalls d" "dpPanicked d' = dpPanicked d" "dpWaiters d' = ws @ remove1 w (dpWaiters d)"
    "w \<in> set (dpWaiters d)"
  using assms by (auto simp: replace_waiter_def split: if_splits)

lemma exit_container_fields [simp]:
  "dpState (exit_container c d) = dpState d" "dpGen (exit_container c d) = dpGen d"
  "dpNextGen (exit_container c d) = dpNextGen d" "dpClosed (exit_container c d) = dpClosed d"
  "dpCalls (exit_container c d) = dpCalls d" "dpWaiters (exit_container c d) = dpWaiters d"
  "dpPanicked (exit_container c d) = dpPanicked d"
  by (simp_all add: exit_container_def)

lemma sinv_waiters:
  assumes "sinv d" "w \<in> set (dpWaiters d)"
  shows "dpWaiters d = [w]" "filter is_start (dpCalls d) = []" "dpGen d \<notin> set (dpClosed d)"
    "\<And>g. w = Closing g \<Longrightarrow> g = dpGen d \<and> dpState d \<noteq> StateRunning"
  using assms by (auto simp: sinv_def elim!: sphase_cases)

lemma sinv_starter:
  assumes "sinv d" "c \<in> set (dpCalls d)" "is_start c"
  shows "filter is_start (dpCalls d) = [c]" "dpWaiters d = []"
    "c = StartSpawn \<Longrightarrow> dpGen d \<notin> set (dpClosed d)" "c \<noteq> StartSpawn \<Longrightarrow> dpState d \<noteq> StateRunning"
proof -
  define st where "st = filter is_start (dpCalls d)"
  have c: "c \<in> set st" using assms(2,3) by (simp add: st_def)
  have "sphase (dpState d) (dpGen d) (dpClosed d) st (dpWaiters d)" using assms(1) by (simp add: sinv_def st_def)
  then have "st = [c] \<and> dpWaiters d = [] \<and>
      (c = StartSpawn \<longrightarrow> dpGen d \<notin> set (dpClosed d)) \<and> (c \<noteq> StartSpawn \<longrightarrow> dpState d \<noteq> StateRunning)"
    by (rule sphase_cases) (use c in auto)
  then show "filter is_start (dpCalls d) = [c]" "dpWaiters d = []"
    "c = StartSpawn \<Longrightarrow> dpGen d \<notin> set (dpClosed d)" "c \<noteq> StartSpawn \<Longrightarrow> dpState d \<noteq> StateRunning"
    unfolding st_def by blast+
qed

text \<open>A section that changes neither the starters, the waiters nor the channels keeps the invariant.\<close>

lemma sinv_keep:
  assumes "sinv d" "dpPanicked d' = dpPanicked d" "dpGen d' = dpGen d" "dpNextGen d' = dpNextGen d"
    and "dpClosed d' = dpClosed d" "dpWaiters d' = dpWaiters d"
    and "filter is_start (dpCalls d') = filter is_start (dpCalls d)"
    and "dpState d' = dpState d \<or> dpState d' \<noteq> StateRunning"
  shows "sinv d'"
proof -
  have "sphase (dpState d') (dpGen d) (dpClosed d) (filter is_start (dpCalls d)) (dpWaiters d)"
    using assms(1,8) sphase_state by (auto simp: sinv_def)
  then show ?thesis using assms by (simp add: sinv_def)
qed

lemma sinv_calls:
  assumes "sinv d" "replace_call c cs d = Some e" "\<not> is_start c" "filter is_start cs = []"
    and "d' = e\<lparr>dpState := s, dpPid := p\<rparr>" "s = dpState d \<or> s \<noteq> StateRunning"
  shows "sinv d'"
  by (rule sinv_keep [OF assms(1)])
    (use assms replace_other_call [OF assms(2-4)] replace_call_fields [OF assms(2)] in auto)

lemma sinv_step:
  assumes inv: "sinv d" and step: "dstep a d = Some d'" and ser: "starts a \<Longrightarrow> idle d"
  shows "sinv d'"
proof (cases a)
  case ACallStart
  then show ?thesis
    using step ser inv by (auto simp: Start_check_def idle_def sinv_def sphase_def split: if_splits)
next
  case AStartOk
  then obtain e where e: "replace_call StartBegun [StartDone] d = Some e" "d' = e\<lparr>dpUp := True\<rparr>"
    using step by (auto simp: Start_docker_def)
  note f = replace_call_fields [OF e(1)]
  note s = sinv_starter [OF inv f(9)]
  show ?thesis using f s inv unfolding e(2) by (simp add: sinv_def sphase_def)
next
  case AStartFail
  then obtain e where e: "replace_call StartBegun [] d = Some e" "d' = e\<lparr>dpState := StateStopped\<rparr>"
    using step by (auto simp: Start_failed_def)
  note f = replace_call_fields [OF e(1)]
  note s = sinv_starter [OF inv f(9)]
  show ?thesis using f s inv unfolding e(2) by (simp add: sinv_def sphase_def)
next
  case (AStartFinish pid)
  then obtain e where e: "replace_call StartDone [StartSpawn] d = Some e" "d' = new_channels pid e"
    using step by (auto simp: Start_running_def)
  note f = replace_call_fields [OF e(1)]
  note s = sinv_starter [OF inv f(9)]
  show ?thesis using f s inv unfolding e(2) by (auto simp: sinv_def sphase_def new_channels_def)
next
  case AStartSpawn
  then obtain e where e: "replace_call StartSpawn [] d = Some e"
    "d' = e\<lparr>dpStreams := Suc (dpStreams e), dpWaiters := Blocked # dpWaiters e\<rparr>"
    using step by (auto simp: Start_spawn_def)
  note f = replace_call_fields [OF e(1)]
  note s = sinv_starter [OF inv f(9)]
  show ?thesis using f s inv unfolding e(2) by (simp add: sinv_def sphase_def)
next
  case ACallStop
  then show ?thesis
    using step by (auto simp: Stop_check_def split: if_splits intro!: sinv_keep [OF inv])
next
  case AStopMark
  then obtain e where e: "replace_call StopChecked [StopSent] d = Some e" "d' = e\<lparr>dpState := StateStopping\<rparr>"
    using step by (auto simp: Stop_mark_def)
  show ?thesis by (rule sinv_calls [OF inv e(1), where s = StateStopping and p = "dpPid e"]) (simp_all add: e(2))
next
  case (AStopOk c)
  then obtain e where e: "replace_call StopSent [StopWaiting (dpGen d)] d = Some e" "d' = exit_container c e"
    using step by (auto simp: Stop_docker_def)
  show ?thesis
    by (rule sinv_keep [OF inv]) (use replace_other_call [OF e(1)] replace_call_fields [OF e(1)] e(2) in simp_all)
next
  case AStopFail
  then have e: "replace_call StopSent [KillBegun] d = Some d'" using step by (simp add: Stop_kill_def)
  show ?thesis
    by (rule sinv_keep [OF inv]) (use replace_other_call [OF e] replace_call_fields [OF e] in simp_all)
next
  case (AStopDone g)
  then have e: "replace_call (StopWaiting g) [] d = Some d'" using step by (auto simp: Stop_done_def split: if_splits)
  show ?thesis
    by (rule sinv_keep [OF inv]) (use replace_other_call [OF e] replace_call_fields [OF e] in simp_all)
next
  case (AStopTimeout g)
  then have e: "replace_call (StopWaiting g) [KillBegun] d = Some d'" using step by (simp add: Stop_timeout_def)
  show ?thesis
    by (rule sinv_keep [OF inv]) (use replace_other_call [OF e] replace_call_fields [OF e] in simp_all)
next
  case ACallKill
  then show ?thesis using step by (auto intro!: sinv_keep [OF inv])
next
  case AKillDocker
  then obtain e where e: "replace_call KillBegun [KillSent] d = Some e" "d' = exit_container 137 e"
    using step by (auto simp: Kill_docker_def)
  show ?thesis
    by (rule sinv_keep [OF inv]) (use replace_other_call [OF e(1)] replace_call_fields [OF e(1)] e(2) in simp_all)
next
  case AKillFinish
  then obtain e where e: "replace_call KillSent [] d = Some e" "d' = e\<lparr>dpState := StateStopped, dpPid := 0\<rparr>"
    using step by (auto simp: Kill_state_def)
  show ?thesis by (rule sinv_calls [OF inv e(1) _ _ e(2)]) simp_all
next
  case (AExit c)
  then show ?thesis using step by (auto split: if_splits intro!: sinv_keep [OF inv])
next
  case AStreamEnd
  then show ?thesis using step by (auto split: if_splits intro!: sinv_keep [OF inv])
next
  case AWaitReturn
  then have e: "replace_waiter Blocked [Draining (dpLastExit d)] d = Some d'"
    using step by (auto simp: waitForExit_return_def split: if_splits)
  note f = replace_waiter_fields [OF e]
  show ?thesis using f sinv_waiters [OF inv f(8)] inv by (simp add: sinv_def sphase_def)
next
  case AWaitError
  then have e: "replace_waiter Blocked [Draining 0] d = Some d'" using step by (simp add: waitForExit_error_def)
  note f = replace_waiter_fields [OF e]
  show ?thesis using f sinv_waiters [OF inv f(8)] inv by (simp add: sinv_def sphase_def)
next
  case (AWaitLock c)
  then obtain e where e: "replace_waiter (Draining c) [Closing (dpGen d)] d = Some e"
    "d' = e\<lparr>dpState := exit_state c (dpState e), dpPid := 0\<rparr>"
    using step by (auto simp: waitForExit_lock_def split: if_splits)
  note f = replace_waiter_fields [OF e(1)]
  show ?thesis
    using f sinv_waiters [OF inv f(8)] inv unfolding e(2) by (simp add: sinv_def sphase_def exit_state_def)
next
  case (AWaitClose g)
  then obtain e where e: "replace_waiter (Closing g) [] d = Some e"
    "d' = (if g \<in> set (dpClosed e) then e\<lparr>dpPanicked := True\<rparr> else e\<lparr>dpClosed := g # dpClosed e\<rparr>)"
    using step by (auto simp: waitForExit_close_def)
  note f = replace_waiter_fields [OF e(1)]
  note w = sinv_waiters [OF inv f(8)]
  show ?thesis using f w(1-3) w(4) [OF refl] inv unfolding e(2) by (auto simp: sinv_def sphase_def)
next
  case (ARefresh pid)
  then show ?thesis
    using step ser inv
    by (auto simp: RefreshState_def new_channels_def idle_def sinv_def sphase_def less_SucI split: if_splits)
qed

lemma sreach_sinv: "sreach d \<Longrightarrow> sinv d"
proof (induction rule: sreach.induct)
  case sreach_init
  show ?case by (simp add: sinv_def NewDocker_def sphase_def)
next
  case (sreach_step d a d')
  then show ?case using sinv_step by blast
qed

section \<open>The properties of the life cycle\<close>


text \<open>A run of such actions, for the examples.\<close>

fun srun :: "dact list \<Rightarrow> dproc \<Rightarrow> dproc option" where
  "srun [] d = Some d"
| "srun (a # as) d =
     (if starts a \<and> \<not> idle d then None else case dstep a d of None \<Rightarrow> None | Some d' \<Rightarrow> srun as d')"

lemma srun_reach: "sreach d \<Longrightarrow> srun as d = Some d' \<Longrightarrow> sreach d'"
  by (induction as arbitrary: d) (auto split: if_splits option.splits intro: sreach_step)

definition start_acts :: "dact list" where
  "start_acts = [ACallStart, AStartOk, AStartFinish 77, AStartSpawn]"

definition stop_acts :: "dact list" where
  "stop_acts = [ACallStop, AStopMark, AStopOk 143, AWaitReturn, AStreamEnd, AWaitLock 143, AWaitClose 1, AStopDone 1]"


text \<open>
  C32. Nothing in the code makes a start wait: \<^verbatim>\<open>Start\<close> is refused only in the states running and
  starting, so a start during a stop is let through while the container still runs. It
  makes new channels and a second waiter, and when the container exits both waiters close
  the same channels: the agent panics.
\<close>

theorem start_while_stopping_panics:
  "\<exists>d. dreach d \<and> dpPanicked d"
proof -
  let ?as = "start_acts @ [ACallStop, AStopMark] @ start_acts @
    [AStopOk 0, AWaitReturn, AWaitReturn, AStreamEnd, AStreamEnd, AWaitLock 0, AWaitLock 0,
     AWaitClose 2, AWaitClose 2]"
  have "drun ?as NewDocker = Some (the (drun ?as NewDocker))" by code_simp
  then have "dreach (the (drun ?as NewDocker))" by (rule drun_reach [OF dreach_init])
  moreover have "dpPanicked (the (drun ?as NewDocker))" by code_simp
  ultimately show ?thesis by blast
qed

definition kill_acts :: "dact list" where
  "kill_acts = [ACallKill, AKillDocker, AKillFinish, AWaitReturn, AStreamEnd, AWaitLock 137, AWaitClose 1]"

text \<open>
  C20. A kill on request is taken for a crash: \<^verbatim>\<open>Kill\<close> sets the state stopped, and then the waiter,
  which sees exit code 137 and a state other than stopping, sets it to crashed. The crash
  watchdog starts the instance again.
\<close>

theorem kill_ends_as_crash:
  "(let d = the (srun (start_acts @ kill_acts) NewDocker)
    in sreach d \<and> dpState d = StateCrashed \<and> dpCalls d = [] \<and> dpWaiters d = [] \<and> \<not> dpUp d \<and>
       snd (restart_instance now
         \<lparr>obID = ''mc'', obState = dpState d, obDef = Some (example_instance ''mc'' ''w'')\<rparr> restart_init) =
       [RestartAfter ''mc'' (10 * second_ns)])"
proof -
  let ?d = "the (srun (start_acts @ kill_acts) NewDocker)"
  have "srun (start_acts @ kill_acts) NewDocker = Some ?d" by code_simp
  then have r: "sreach ?d" by (rule srun_reach [OF sreach_init])
  have s: "dpState ?d = StateCrashed" "dpCalls ?d = []" "dpWaiters ?d = []" "\<not> dpUp ?d" by code_simp+
  have a: "idAutoRestart (example_instance ''mc'' ''w'')" "idRestartDelaySec (example_instance ''mc'' ''w'') = 10"
    by code_simp+
  have b: "restart_backoff 10 0 = 10 * second_ns" by code_simp
  show ?thesis
    unfolding Let_def using r s a b
    by (simp add: restart_instance_def restart_init_def crash_count_def maxCrashCount_def)
qed

text \<open>A crash that comes between the two sections of \<^verbatim>\<open>Stop\<close> leaves the state at stopping for good:
  every call and waiter is done, and the watchdog does not see a crash.\<close>

theorem stop_race_sticks:
  "(let d = the (srun (start_acts @ [ACallStop, AExit 1, AWaitReturn, AStreamEnd, AWaitLock 1, AWaitClose 1,
         AStopMark, AStopOk 0, AStopDone 1]) NewDocker)
    in dpState d = StateStopping \<and> dpCalls d = [] \<and> dpWaiters d = [] \<and> \<not> dpUp d)"
  by code_simp

end
