(* ===== verification/Console_Commands.thy ===== *)
theory Console_Commands
  imports Process_Lifecycle
begin

text \<open>
  Console commands to a container (\<^verbatim>\<open>SendCommand\<close> and its helpers in
  \<^verbatim>\<open>internal/agent/process/docker.go\<close>): which \<^verbatim>\<open>docker exec\<close> is run for which service, and the
  retries with the password from the container's environment. Running docker with a list of
  arguments is the parameter \<open>run\<close>: its output and whether it succeeded. Commands that go
  through \<^verbatim>\<open>sh -c\<close> are quoted by \<^verbatim>\<open>shellescape\<close>; \<open>sh_split\<close> is how the shell finds the ends of
  commands, and \<open>sh_unquote\<close> the word it makes of a quoted text.
\<close>

type_synonym docker_run = "string list \<Rightarrow> string \<times> bool"

datatype command_error = CannotSend State | CommandFailed string

definition squote :: char where "squote = CHR 0x27"
definition bslash :: char where "bslash = CHR 0x5C"

definition shellescape :: "string \<Rightarrow> string" where
  "shellescape s = [squote] @ replace_char squote [squote, bslash, squote, squote] s @ [squote]"

definition sendMinecraftCommand :: "docker_run \<Rightarrow> string \<Rightarrow> string \<Rightarrow> command_error + string" where
  "sendMinecraftCommand run container command =
     (let shellCmd = ''echo '' @ [squote] @ command @ [squote] @ '' > /proc/1/fd/0'';
          (out, ok) = run [''exec'', ''-i'', container, ''sh'', ''-c'', shellCmd]
      in if ok then Inr (trim_space out)
         else let (rconOut, rconOk) = run [''exec'', container, ''rcon-cli'', command]
              in if rconOk then Inr (trim_space rconOut) else Inl (CommandFailed (trim_space out)))"

definition redis_shell :: "string \<Rightarrow> string" where
  "redis_shell command = ''redis-cli -a \"$REDIS_PASSWORD\" --no-auth-warning '' @ command"

definition sendRedisCommand :: "docker_run \<Rightarrow> string \<Rightarrow> string \<Rightarrow> command_error + string" where
  "sendRedisCommand run container command =
     (let (out, ok) = run ([''exec'', container, ''redis-cli''] @ str_fields command)
      in if ok then Inr (trim_space out)
         else if str_contains out ''NOAUTH'' \<or> str_contains out ''AUTH'' then
           (let (out2, ok2) = run [''exec'', container, ''sh'', ''-c'', redis_shell command]
            in if ok2 then Inr (trim_space out2) else Inl (CommandFailed (trim_space out2)))
         else Inl (CommandFailed (trim_space out)))"

definition mysql_shell :: "string \<Rightarrow> string" where
  "mysql_shell command = ''mysql -u root -p\"$MYSQL_ROOT_PASSWORD\" -e '' @ shellescape command"

definition sendMySQLCommand :: "docker_run \<Rightarrow> string \<Rightarrow> string \<Rightarrow> command_error + string" where
  "sendMySQLCommand run container command =
     (let (out, ok) = run [''exec'', container, ''mysql'', ''-u'', ''root'', ''-e'', command]
      in if ok then Inr (trim_space out)
         else if str_contains out ''Access denied'' then
           (let (out2, ok2) = run [''exec'', container, ''sh'', ''-c'', mysql_shell command]
            in if ok2 then Inr (trim_space out2) else Inl (CommandFailed (trim_space out2)))
         else Inl (CommandFailed (trim_space out)))"

definition postgres_shell :: "string \<Rightarrow> string" where
  "postgres_shell command = ''PGPASSWORD=\"$POSTGRES_PASSWORD\" psql -U postgres -c '' @ shellescape command"

definition sendPostgreSQLCommand :: "docker_run \<Rightarrow> string \<Rightarrow> string \<Rightarrow> command_error + string" where
  "sendPostgreSQLCommand run container command =
     (let (out, ok) = run [''exec'', container, ''sh'', ''-c'', postgres_shell command]
      in if ok then Inr (trim_space out)
         else let (out2, ok2) = run [''exec'', container, ''psql'', ''-U'', ''postgres'', ''-c'', command]
              in if ok2 then Inr (trim_space out2) else Inl (CommandFailed (trim_space out)))"

definition mongo_shell :: "string \<Rightarrow> string" where
  "mongo_shell command =
     ''mongosh -u \"$MONGO_INITDB_ROOT_USERNAME\" -p \"$MONGO_INITDB_ROOT_PASSWORD\" --authenticationDatabase admin --eval '' @
     shellescape command"

definition sendMongoCommand :: "docker_run \<Rightarrow> string \<Rightarrow> string \<Rightarrow> command_error + string" where
  "sendMongoCommand run container command =
     (let (out, ok) = run [''exec'', container, ''mongosh'', ''--eval'', command]
      in if ok then Inr (trim_space out)
         else if str_contains out ''auth'' \<or> str_contains out ''Unauthorized'' then
           (let (out2, ok2) = run [''exec'', container, ''sh'', ''-c'', mongo_shell command]
            in if ok2 then Inr (trim_space out2) else Inl (CommandFailed (trim_space out2)))
         else Inl (CommandFailed (trim_space out)))"

definition SendCommand :: "docker_run \<Rightarrow> State \<Rightarrow> string \<Rightarrow> string \<Rightarrow> string \<Rightarrow> command_error + string" where
  "SendCommand run state ty container command =
     (if state \<noteq> StateRunning \<and> state \<noteq> StateStopping then Inl (CannotSend state)
      else if ty = ''minecraft'' then sendMinecraftCommand run container command
      else if ty = ''redis'' then sendRedisCommand run container command
      else if ty = ''mysql'' then sendMySQLCommand run container command
      else if ty = ''postgresql'' then sendPostgreSQLCommand run container command
      else if ty = ''mongodb'' then sendMongoCommand run container command
      else let (out, ok) = run [''exec'', container, ''sh'', ''-c'', command]
           in if ok then Inr (trim_space out) else Inl (CommandFailed (trim_space out)))"

definition fetchPID :: "docker_run \<Rightarrow> string \<Rightarrow> int" where
  "fetchPID run container =
     (let (out, ok) = run [''inspect'', ''--format'', ''{{.State.Pid}}'', container]
      in if \<not> ok then 0 else case sscanf_d (trim_space out) of None \<Rightarrow> 0 | Some pid \<Rightarrow> pid)"

section \<open>How the shell reads it\<close>

datatype quoting = Plain | Single | Double

definition prepend :: "string \<Rightarrow> string list \<Rightarrow> string list" where
  "prepend p xs = (p @ hd xs) # tl xs"

fun sh_split :: "quoting \<Rightarrow> string \<Rightarrow> string list" where
  "sh_split q [] = [[]]"
| "sh_split Plain [c] = (if c = CHR '';'' then [[], []] else [[c]])"
| "sh_split Plain (c # d # s) =
     (if c = CHR '';'' then [] # sh_split Plain (d # s)
      else if c = bslash then prepend [c, d] (sh_split Plain s)
      else if c = squote then prepend [c] (sh_split Single (d # s))
      else if c = CHR 0x22 then prepend [c] (sh_split Double (d # s))
      else prepend [c] (sh_split Plain (d # s)))"
| "sh_split Single (c # s) = prepend [c] (sh_split (if c = squote then Plain else Single) s)"
| "sh_split Double (c # s) = prepend [c] (sh_split (if c = CHR 0x22 then Plain else Double) s)"

fun sh_unquote :: "quoting \<Rightarrow> string \<Rightarrow> string option" where
  "sh_unquote Plain [] = Some []"
| "sh_unquote Single [] = None"
| "sh_unquote Double [] = None"
| "sh_unquote Plain (c # s) =
     (if c = squote then sh_unquote Single s
      else if c = bslash then (case s of [] \<Rightarrow> None | d # r \<Rightarrow> map_option (Cons d) (sh_unquote Plain r))
      else if c = CHR 0x22 then sh_unquote Double s
      else map_option (Cons c) (sh_unquote Plain s))"
| "sh_unquote Single (c # s) =
     (if c = squote then sh_unquote Plain s else map_option (Cons c) (sh_unquote Single s))"
| "sh_unquote Double (c # s) =
     (if c = CHR 0x22 then sh_unquote Plain s else map_option (Cons c) (sh_unquote Double s))"

lemma squote_bslash [simp]: "squote \<noteq> bslash" "bslash \<noteq> squote" "squote \<noteq> CHR '';''" "bslash \<noteq> CHR '';''"
  "bslash \<noteq> CHR 0x22"
  by (simp_all add: squote_def bslash_def)

lemma sh_split_ne [simp]: "sh_split q s \<noteq> []"
  by (induction q s rule: sh_split.induct) (auto simp: prepend_def)

lemma prepend_prepend [simp]: "prepend p (prepend q xs) = prepend (p @ q) xs"
  by (simp add: prepend_def)

lemma sh_split_plain:
  "c \<noteq> CHR '';'' \<Longrightarrow> c \<noteq> bslash \<Longrightarrow> c \<noteq> squote \<Longrightarrow> c \<noteq> CHR 0x22 \<Longrightarrow>
    sh_split Plain (c # s) = prepend [c] (sh_split Plain s)"
  by (cases s) (simp_all add: prepend_def)

lemma sh_split_squote: "sh_split Plain (squote # s) = prepend [squote] (sh_split Single s)"
  by (cases s) (simp_all add: prepend_def)

lemma sh_split_dquote: "sh_split Plain (CHR 0x22 # s) = prepend [CHR 0x22] (sh_split Double s)"
  by (cases s) (simp_all add: prepend_def bslash_def squote_def)

lemma sh_split_escaped:
  "sh_split Single (replace_char squote [squote, bslash, squote, squote] s @ [squote]) =
     [replace_char squote [squote, bslash, squote, squote] s @ [squote]]"
proof (induction s)
  case Nil
  then show ?case by (simp add: prepend_def)
next
  case (Cons c s)
  then show ?case by (cases "c = squote") (simp_all add: sh_split_squote prepend_def)
qed

lemma sh_split_shellescape: "sh_split Plain (shellescape s) = [shellescape s]"
  using sh_split_escaped [of s] by (simp add: shellescape_def sh_split_squote prepend_def)

lemma sh_unquote_escaped:
  "sh_unquote Single (replace_char squote [squote, bslash, squote, squote] s @ [squote]) = Some s"
  by (induction s) simp_all


text \<open>The command to a Minecraft server is put between quotes without being escaped, and the one to
  Redis is not quoted at all when a password is needed: a command with a quote or a semicolon
  runs other commands in the container.\<close>

theorem minecraft_command_injects:
  "sh_split Plain (''echo '' @ [squote] @ (''x'' @ [squote] @ ''; reboot; echo '' @ [squote]) @ [squote] @ '' > /proc/1/fd/0'') =
     [''echo '' @ [squote] @ ''x'' @ [squote], '' reboot'', '' echo '' @ [squote, squote] @ '' > /proc/1/fd/0'']"
  by code_simp

theorem redis_command_injects: "length (sh_split Plain (redis_shell ''PING; reboot'')) = 2"
  by code_simp

end
