(* ===== verification/Sql_Tables.thy ===== *)
theory Sql_Tables
  imports Go_Strings "HOL-Library.List_Lexorder" "HOL-Library.Char_ord"
begin

text \<open>
  What the store of the master uses of SQLite: a table is the list of its rows in rowid
  order, an \<^verbatim>\<open>AUTOINCREMENT\<close> table also keeps the largest key it ever handed out, and the
  statements are functions on these lists. \<^verbatim>\<open>ORDER BY\<close> is a stable sort, so rows that agree
  on the sort column stay in rowid order; no theorem of the development rests on that.
  \<^verbatim>\<open>CURRENT_TIMESTAMP\<close> has a resolution of one second.

  The locale \<open>entity_store\<close> is the interface of a table with a primary key that the rest
  of the master programs against. Its lemmas relate any history of insertions and
  deletions to a finite map.
\<close>

named_theorems sql_simps \<open>keys and rows after a statement\<close>

datatype store_error =
    NoRows                 \<comment> \<open>\<^verbatim>\<open>sql.ErrNoRows\<close>\<close>
  | UniqueFailed           \<comment> \<open>a primary key or a UNIQUE constraint\<close>
  | ForeignKeyFailed

definition current_timestamp :: "instant \<Rightarrow> instant" where
  "current_timestamp now = now div second_ns * second_ns"

section \<open>Statements\<close>

definition row_delete :: "('r \<Rightarrow> bool) \<Rightarrow> 'r list \<Rightarrow> 'r list" where
  "row_delete p rows = filter (\<lambda>r. \<not> p r) rows"

definition row_update :: "('r \<Rightarrow> bool) \<Rightarrow> ('r \<Rightarrow> 'r) \<Rightarrow> 'r list \<Rightarrow> 'r list" where
  "row_update p f rows = map (\<lambda>r. if p r then f r else r) rows"

text \<open>\<^verbatim>\<open>QueryRow\<close> reads the first row.\<close>

definition query_row :: "('r \<Rightarrow> bool) \<Rightarrow> 'r list \<Rightarrow> store_error + 'r" where
  "query_row p rows = (case find p rows of None \<Rightarrow> Inl NoRows | Some r \<Rightarrow> Inr r)"

definition order_by :: "('r \<Rightarrow> 'k :: linorder) \<Rightarrow> 'r list \<Rightarrow> 'r list" where
  "order_by k rows = sort_key k rows"

definition order_by_desc :: "('r \<Rightarrow> int) \<Rightarrow> 'r list \<Rightarrow> 'r list" where
  "order_by_desc k rows = sort_key (\<lambda>r. - k r) rows"

text \<open>\<^verbatim>\<open>LIMIT n\<close>: a negative bound is no bound; \<^verbatim>\<open>OFFSET\<close>: a negative offset is zero.\<close>

definition sql_limit :: "int \<Rightarrow> 'r list \<Rightarrow> 'r list" where
  "sql_limit n rows = (if n < 0 then rows else take (nat n) rows)"

definition sql_offset :: "int \<Rightarrow> 'r list \<Rightarrow> 'r list" where
  "sql_offset n rows = drop (nat n) rows"

section \<open>Tables with generated keys\<close>

record 'r auto_table =
  at_seq :: int
  at_rows :: "'r list"

definition auto_empty :: "'r auto_table" where
  "auto_empty = \<lparr>at_seq = 0, at_rows = []\<rparr>"

definition auto_insert :: "(int \<Rightarrow> 'r) \<Rightarrow> 'r auto_table \<Rightarrow> 'r auto_table" where
  "auto_insert mk t = \<lparr>at_seq = at_seq t + 1, at_rows = at_rows t @ [mk (at_seq t + 1)]\<rparr>"

text \<open>An upsert that finds its row has already taken a key.\<close>

definition auto_bump :: "'r auto_table \<Rightarrow> 'r auto_table" where
  "auto_bump t = t\<lparr>at_seq := at_seq t + 1\<rparr>"

definition auto_delete :: "('r \<Rightarrow> bool) \<Rightarrow> 'r auto_table \<Rightarrow> 'r auto_table" where
  "auto_delete p t = t\<lparr>at_rows := row_delete p (at_rows t)\<rparr>"

definition auto_update :: "('r \<Rightarrow> bool) \<Rightarrow> ('r \<Rightarrow> 'r) \<Rightarrow> 'r auto_table \<Rightarrow> 'r auto_table" where
  "auto_update p f t = t\<lparr>at_rows := row_update p f (at_rows t)\<rparr>"

text \<open>Generated keys are positive, distinct and never above the counter.\<close>

definition auto_ok :: "('r \<Rightarrow> int) \<Rightarrow> 'r auto_table \<Rightarrow> bool" where
  "auto_ok key t \<longleftrightarrow> 0 \<le> at_seq t \<and> distinct (map key (at_rows t)) \<and>
     (\<forall>r \<in> set (at_rows t). 1 \<le> key r \<and> key r \<le> at_seq t)"

section \<open>Lemmas on statements\<close>

lemma set_row_delete [sql_simps]: "set (row_delete p rows) = {r \<in> set rows. \<not> p r}"
  by (auto simp: row_delete_def)

lemma set_row_update: "set (row_update p f rows) = (\<lambda>r. if p r then f r else r) ` set rows"
  by (simp add: row_update_def)

lemma map_row_update:
  "(\<And>r. key (f r) = key r) \<Longrightarrow> map key (row_update p f rows) = map key rows"
  by (simp add: row_update_def)

lemma length_row_update [simp]: "length (row_update p f rows) = length rows"
  by (simp add: row_update_def)

lemma distinct_map_row_delete [sql_simps]:
  "distinct (map key rows) \<Longrightarrow> distinct (map key (row_delete p rows))"
  by (simp add: row_delete_def distinct_map_filter)

lemma row_delete_row_delete:
  "row_delete p (row_delete q rows) = row_delete (\<lambda>r. q r \<or> p r) rows"
  by (simp add: row_delete_def conj_commute)

lemma query_row_Inr_iff_find: "query_row p rows = Inr r \<longleftrightarrow> find p rows = Some r"
  by (simp add: query_row_def split: option.splits)

lemma query_row_InrD: "query_row p rows = Inr r \<Longrightarrow> r \<in> set rows \<and> p r"
  by (auto simp: query_row_Inr_iff_find find_Some_iff)

lemma query_row_Inl_iff: "query_row p rows = Inl e \<longleftrightarrow> e = NoRows \<and> (\<forall>r \<in> set rows. \<not> p r)"
  by (induction rows) (auto simp: query_row_def)

lemma query_row_key:
  assumes "distinct (map key rows)" and "r \<in> set rows"
  shows "query_row (\<lambda>x. key x = key r) rows = Inr r"
proof -
  have "find (\<lambda>x. key x = key r) rows = Some r"
    using assms
    by (induction rows) (auto simp: image_iff)
  then show ?thesis by (simp add: query_row_def)
qed

lemma query_row_key_iff:
  assumes "distinct (map key rows)"
  shows "query_row (\<lambda>x. key x = k) rows = Inr r \<longleftrightarrow> r \<in> set rows \<and> key r = k"
  using query_row_InrD [of "\<lambda>x. key x = k" rows r] query_row_key [OF assms, of r] by auto

lemma query_row_append:
  "query_row p (xs @ ys) = (case query_row p xs of Inl e \<Rightarrow> query_row p ys | Inr r \<Rightarrow> Inr r)"
  by (induction xs) (auto simp: query_row_def)

lemma query_row_snoc:
  assumes "key x \<notin> key ` set rows"
  shows "query_row (\<lambda>y. key y = k) (rows @ [x]) =
    (if k = key x then Inr x else query_row (\<lambda>y. key y = k) rows)"
  using assms by (induction rows) (auto simp: query_row_def)

lemma query_row_row_delete:
  "query_row (\<lambda>x. key x = k) (row_delete (\<lambda>x. key x = k') rows) =
     (if k = k' then Inl NoRows else query_row (\<lambda>x. key x = k) rows)"
  by (induction rows) (auto simp: query_row_def row_delete_def)

lemma query_row_row_update:
  assumes "\<And>r. key (f r) = key r"
  shows "query_row (\<lambda>x. key x = k) (row_update p f rows) =
     (case query_row (\<lambda>x. key x = k) rows of Inl e \<Rightarrow> Inl e | Inr r \<Rightarrow> Inr (if p r then f r else r))"
  using assms by (induction rows) (auto simp: query_row_def row_update_def)

lemma set_order_by [simp]: "set (order_by k rows) = set rows"
  by (simp add: order_by_def)

lemma set_order_by_desc [simp]: "set (order_by_desc k rows) = set rows"
  by (simp add: order_by_desc_def)

lemma length_order_by_desc [simp]: "length (order_by_desc k rows) = length rows"
  by (simp add: order_by_desc_def)

lemma sorted_order_by_desc: "sorted_wrt (\<lambda>a b. k b \<le> k a) (order_by_desc k rows)"
proof -
  have "sorted (map (\<lambda>r. - k r) (order_by_desc k rows))"
    unfolding order_by_desc_def by (rule sorted_sort_key)
  then show ?thesis
    by (simp add: sorted_wrt_map)
qed

section \<open>Lemmas on generated keys\<close>

lemma auto_ok_empty [simp]: "auto_ok key auto_empty"
  by (simp add: auto_ok_def auto_empty_def)

lemma auto_ok_bump [simp]: "auto_ok key t \<Longrightarrow> auto_ok key (auto_bump t)"
  by (fastforce simp: auto_ok_def auto_bump_def)

lemma auto_ok_insert [simp]:
  assumes "auto_ok key t" and "key (mk (at_seq t + 1)) = at_seq t + 1"
  shows "auto_ok key (auto_insert mk t)"
  using assms by (fastforce simp: auto_ok_def auto_insert_def)

lemma auto_ok_delete [simp]: "auto_ok key t \<Longrightarrow> auto_ok key (auto_delete p t)"
  by (auto simp: auto_ok_def auto_delete_def sql_simps)

lemma auto_ok_update:
  assumes "auto_ok key t" and "\<And>r. key (f r) = key r"
  shows "auto_ok key (auto_update p f t)"
proof -
  have "map key (row_update p f (at_rows t)) = map key (at_rows t)"
    using assms(2) by (rule map_row_update)
  then show ?thesis
    using assms by (auto simp: auto_ok_def auto_update_def set_row_update)
qed

lemma at_rows_simps [simp]:
  "at_rows auto_empty = []" "at_rows (auto_bump t) = at_rows t"
  "at_rows (auto_insert mk t) = at_rows t @ [mk (at_seq t + 1)]"
  "at_rows (auto_delete p t) = row_delete p (at_rows t)"
  "at_rows (auto_update p f t) = row_update p f (at_rows t)"
  by (simp_all add: auto_empty_def auto_bump_def auto_insert_def auto_delete_def auto_update_def)

lemma auto_ok_fresh: "auto_ok key t \<Longrightarrow> r \<in> set (at_rows t) \<Longrightarrow> key r \<noteq> at_seq t + 1"
  by (auto simp: auto_ok_def)

section \<open>The interface of a keyed table\<close>

datatype ('k, 'r) entity_op = OpCreate 'r | OpDelete 'k

locale entity_store =
  fixes okdb :: "'db \<Rightarrow> bool"
    and getE :: "'k \<Rightarrow> 'db \<Rightarrow> store_error + 'r"
    and createE :: "'r \<Rightarrow> 'db \<Rightarrow> store_error + 'db"
    and deleteE :: "'k \<Rightarrow> 'db \<Rightarrow> 'db"
    and keyE :: "'r \<Rightarrow> 'k"
    and storedE :: "'r \<Rightarrow> 'r"
  assumes get_error: "getE k d = Inl e \<Longrightarrow> e = NoRows"
    and create_ok: "okdb d \<Longrightarrow> createE r d = Inr d' \<Longrightarrow> okdb d'"
    and delete_ok: "okdb d \<Longrightarrow> okdb (deleteE k d)"
    and create_get: "okdb d \<Longrightarrow> createE r d = Inr d' \<Longrightarrow>
          getE k d' = (if k = keyE r then Inr (storedE r) else getE k d)"
    and create_dup: "okdb d \<Longrightarrow> getE (keyE r) d = Inr r' \<Longrightarrow> createE r d = Inl UniqueFailed"
    and delete_get: "okdb d \<Longrightarrow> getE k (deleteE k' d) = (if k = k' then Inl NoRows else getE k d)"
begin

text \<open>One operation; a refused insertion leaves the database as it is.\<close>

primrec step :: "('k, 'r) entity_op \<Rightarrow> 'db \<Rightarrow> 'db" where
  "step (OpCreate r) d = (case createE r d of Inl e \<Rightarrow> d | Inr d' \<Rightarrow> d')"
| "step (OpDelete k) d = deleteE k d"

text \<open>The abstract effect on a finite map, given whether an insertion was accepted.\<close>

primrec absstep :: "('k, 'r) entity_op \<Rightarrow> 'db \<Rightarrow> ('k \<rightharpoonup> 'r) \<Rightarrow> ('k \<rightharpoonup> 'r)" where
  "absstep (OpCreate r) d m = (if isl (createE r d) then m else m(keyE r \<mapsto> storedE r))"
| "absstep (OpDelete k) d m = m(k := None)"

definition abs_of :: "'db \<Rightarrow> ('k \<rightharpoonup> 'r)" where
  "abs_of d = (\<lambda>k. case getE k d of Inl e \<Rightarrow> None | Inr r \<Rightarrow> Some r)"

lemma step_ok: "okdb d \<Longrightarrow> okdb (step p d)"
  by (cases p) (auto simp: create_ok delete_ok split: sum.splits)

lemma step_refines: "okdb d \<Longrightarrow> abs_of (step p d) = absstep p d (abs_of d)"
proof (cases p)
  case (OpCreate r)
  assume "okdb d"
  then show ?thesis
    using OpCreate by (auto simp: abs_of_def fun_eq_iff create_get split: sum.splits)
next
  case (OpDelete k)
  assume "okdb d"
  then show ?thesis
    using OpDelete by (auto simp: abs_of_def fun_eq_iff delete_get split: sum.splits)
qed

lemma fold_step_ok: "okdb d \<Longrightarrow> okdb (fold step ps d)"
  by (induction ps arbitrary: d) (auto simp: step_ok)

lemma get_after_history:
  assumes "okdb d" and "createE r d = Inr d'"
    and "\<forall>p \<in> set ps. (case p of OpCreate r' \<Rightarrow> True | OpDelete k \<Rightarrow> k \<noteq> keyE r)"
  shows "getE (keyE r) (fold step ps d') = Inr (storedE r)"
proof -
  have "okdb d'" "getE (keyE r) d' = Inr (storedE r)"
    using assms(1,2) create_ok create_get by auto
  then show ?thesis
    using assms(3)
  proof (induction ps arbitrary: d')
    case (Cons p ps)
    have "getE (keyE r) (step p d') = Inr (storedE r)"
    proof (cases p)
      case (OpCreate r')
      show ?thesis
      proof (cases "createE r' d'")
        case (Inr d'')
        have "keyE r' \<noteq> keyE r"
          using Cons.prems(1,2) create_dup [of d' r'] Inr by force
        then show ?thesis
          using Cons.prems(1,2) Inr OpCreate create_get by simp
      qed (use Cons.prems OpCreate in simp)
    next
      case (OpDelete k)
      then show ?thesis
        using Cons.prems delete_get by auto
    qed
    then show ?case
      using Cons.IH [OF step_ok [OF Cons.prems(1)]] Cons.prems(3) by simp
  qed simp
qed

lemma delete_create_get:
  assumes "okdb d" and "createE r (deleteE (keyE r) d) = Inr d'"
  shows "getE (keyE r) d' = Inr (storedE r)"
  using create_get [OF delete_ok [OF assms(1)] assms(2)] by simp

end

end
