(* ===== verification/Store_Schema.thy ===== *)
theory Store_Schema
  imports Sql_Tables Complex_Main
begin

text \<open>
  The database of the master (\<^verbatim>\<open>internal/master/store\<close>): one record per table with the
  fields of the Go struct its rows are scanned into, the database as the record of its
  tables, the runner of the migrations, and the invariant \<open>db_ok\<close>: primary keys, UNIQUE
  constraints and foreign keys as \<^verbatim>\<open>migrations.go\<close> declares them. A nullable column is an
  option. Percentages (\<^verbatim>\<open>REAL\<close>, \<^verbatim>\<open>float64\<close>) are rationals.
\<close>

section \<open>Rows\<close>

record Node =
  nID :: string
  nName :: string
  nAddress :: string
  nStatus :: string
  nCPUCores :: int
  nMemoryMB :: int
  nOSInfo :: string
  nCreatedAt :: instant
  nUpdatedAt :: instant
  nWGPublicKey :: string
  nWGPrivateKey :: string
  nWGAddress :: string
  nWGEndpoint :: string
  nWGListenPort :: int
  nDockerSubnet :: string

record Instance =
  iID :: string
  iNodeID :: string
  iName :: string
  iPort :: int
  iMemoryMin :: string
  iMemoryMax :: string
  iJavaPath :: string
  iServerJar :: string
  iWorkDir :: string
  iStatus :: string
  iPID :: "int option"
  iRCONPort :: "int option"
  iRCONPassword :: "string option"
  iCreatedAt :: instant
  iUpdatedAt :: instant
  iAutoStart :: bool
  iAutoRestart :: bool
  iRestartDelaySec :: int
  iStopCommand :: string
  iJVMArgs :: string
  iAcceptEULA :: bool
  iInstanceType :: string
  iServiceVersion :: string
  iMySQLRootPassword :: string
  iMySQLDataDir :: string
  iMySQLExtraArgs :: string
  iPGPassword :: string
  iPGDataDir :: string
  iPGExtraArgs :: string
  iMongoAdminUser :: string
  iMongoAdminPassword :: string
  iMongoDataDir :: string
  iMongoExtraArgs :: string
  iRedisPassword :: string
  iRedisDataDir :: string
  iRedisExtraArgs :: string
  iKafkaBrokerID :: int
  iKafkaDataDir :: string
  iKafkaExtraArgs :: string
  iBackupEnabled :: bool
  iBackupCron :: string
  iBackupMaxCount :: int
  iBackupLastAt :: "instant option"
  iJavaVersion :: string
  iCustomDockerfile :: string
  iCustomCompose :: string
  iDockerMemory :: string
  iDockerCPUs :: string

record SyncRecord =
  rID :: int
  rInstanceID :: "string option"
  rNodeID :: "string option"
  rFilePath :: string
  rFileSize :: int
  rFileHash :: string
  rAction :: string
  rStatus :: string
  rErrorMsg :: "string option"
  rSyncedAt :: instant

record Backup =
  bID :: int
  bInstanceID :: string
  bFilePath :: string
  bFileSize :: int
  bChecksum :: string
  bTriggerType :: string
  bStatus :: string
  bCreatedAt :: instant

record SyncMapping =
  mID :: int
  mName :: string
  mSrc :: string
  mDest :: string
  mTargets :: string
  mExclude :: string
  mEnabled :: bool
  mSourceAgentID :: string
  mSourceInstanceID :: string
  mSourcePath :: string
  mCreatedAt :: instant
  mUpdatedAt :: instant

record SyncTarget =
  tID :: int
  tMappingID :: int
  tAgentID :: string
  tInstanceID :: string
  tDestPath :: string
  tEnabled :: bool
  tCreatedAt :: instant

record Network =
  wID :: string
  wName :: string
  wDriver :: string
  wSubnet :: string
  wGateway :: string
  wNodeID :: string
  wCreatedAt :: instant
  wUpdatedAt :: instant

record InstanceNetwork =
  xID :: int
  xInstanceID :: string
  xNetworkID :: string
  xAlias :: string
  xIPAddress :: string
  xCreatedAt :: instant

record MeshNetwork =
  hID :: string
  hName :: string
  hWGCIDR :: string
  hDockerCIDR :: string
  hDomain :: string
  hEnabled :: bool
  hCreatedAt :: instant
  hUpdatedAt :: instant

record DNSRecord =
  eID :: int
  eMeshID :: string
  eName :: string
  eFQDN :: string
  eIPAddress :: string
  eInstanceID :: string
  eNodeID :: string
  eCreatedAt :: instant

record User =
  uID :: int
  uUsername :: string
  uPasswordHash :: string
  uRole :: string
  uApproved :: bool
  uCreatedAt :: instant
  uUpdatedAt :: instant

record AuditLog =
  aID :: int
  aTimestamp :: instant
  aUserID :: "int option"
  aUsername :: string
  aAction :: string
  aTargetType :: string
  aTargetID :: string
  aTargetName :: string
  aFieldName :: string
  aOldValue :: string
  aNewValue :: string
  aDetail :: string
  aRolledBack :: bool
  aCreatedAt :: instant

record InstanceMetricRecord =
  kID :: int
  kInstanceID :: string
  kCPUPercent :: rat
  kMemoryUsedMB :: int
  kMemoryLimitMB :: int
  kNetRxBytes :: int
  kNetTxBytes :: int
  kBlockReadBytes :: int
  kBlockWriteBytes :: int
  kRecordedAt :: instant

section \<open>The database\<close>

record DB =
  nodes :: "Node list"
  instances :: "Instance list"
  sync_history :: "SyncRecord auto_table"
  backups :: "Backup auto_table"
  sync_mappings :: "SyncMapping auto_table"
  sync_targets :: "SyncTarget auto_table"
  networks :: "Network list"
  instance_networks :: "InstanceNetwork auto_table"
  mesh_networks :: "MeshNetwork list"
  dns_records :: "DNSRecord auto_table"
  users :: "User auto_table"
  audit_logs :: "AuditLog auto_table"
  instance_metrics :: "InstanceMetricRecord auto_table"

text \<open>After the migrations the tables are empty but for the default mesh network.\<close>

definition default_mesh :: "instant \<Rightarrow> MeshNetwork" where
  "default_mesh now =
     \<lparr>hID = ''default'', hName = ''default'', hWGCIDR = ''10.10.0.0/16'',
      hDockerCIDR = ''172.30.0.0/16'', hDomain = ''craftstack.internal'', hEnabled = True,
      hCreatedAt = current_timestamp now, hUpdatedAt = current_timestamp now\<rparr>"

definition migrated_db :: "instant \<Rightarrow> DB" where
  "migrated_db now =
     \<lparr>nodes = [], instances = [], sync_history = auto_empty, backups = auto_empty,
      sync_mappings = auto_empty, sync_targets = auto_empty, networks = [],
      instance_networks = auto_empty, mesh_networks = [default_mesh now],
      dns_records = auto_empty, users = auto_empty, audit_logs = auto_empty,
      instance_metrics = auto_empty\<rparr>"

section \<open>The runner of the migrations\<close>

text \<open>
  \<^verbatim>\<open>migrate\<close> applies, in the order of the list, every migration whose version is above the
  largest recorded one, each in its own transaction: the statements of the migration and
  the record of its version take effect together or not at all. What the statements do to
  the schema is the parameter \<open>exec\<close>. The result is the schema, the recorded versions and
  the version that failed, if one did.
\<close>

record 's migration_state =
  ms_schema :: 's
  ms_versions :: "int list"

definition current_version :: "'s migration_state \<Rightarrow> int" where
  "current_version st = fold max (ms_versions st) 0"

definition apply_migration ::
  "(int \<Rightarrow> 's \<Rightarrow> 's option) \<Rightarrow> int \<Rightarrow> 's migration_state \<Rightarrow> 's migration_state option" where
  "apply_migration exec v st =
     (case exec v (ms_schema st) of
        None \<Rightarrow> None
      | Some s' \<Rightarrow>
          if v \<in> set (ms_versions st) then None
          else Some \<lparr>ms_schema = s', ms_versions = ms_versions st @ [v]\<rparr>)"

fun run_migrations ::
  "(int \<Rightarrow> 's \<Rightarrow> 's option) \<Rightarrow> int \<Rightarrow> int list \<Rightarrow> 's migration_state
   \<Rightarrow> 's migration_state \<times> int option" where
  "run_migrations exec current [] st = (st, None)"
| "run_migrations exec current (v # vs) st =
     (if v \<le> current then run_migrations exec current vs st
      else case apply_migration exec v st of
        None \<Rightarrow> (st, Some v)
      | Some st' \<Rightarrow> run_migrations exec current vs st')"

definition getMigrations :: "(int \<times> string) list" where
  "getMigrations =
     [(1, ''init''), (2, ''sync_mappings''), (3, ''sync_targets_and_source''),
      (4, ''instance_config_fields''), (5, ''instance_type_and_service_columns''),
      (6, ''docker_networks''), (7, ''backup_schedule''),
      (8, ''java_version_and_docker_customization''), (9, ''wireguard_mesh_network''),
      (10, ''users_auth''), (11, ''docker_resource_limits''), (12, ''audit_logs''),
      (13, ''instance_metrics'')]"

definition migrate ::
  "(int \<Rightarrow> 's \<Rightarrow> 's option) \<Rightarrow> 's migration_state \<Rightarrow> 's migration_state \<times> int option" where
  "migrate exec st = run_migrations exec (current_version st) (map fst getMigrations) st"

section \<open>The invariant\<close>

definition node_ids :: "DB \<Rightarrow> string set" where
  "node_ids d = nID ` set (nodes d)"

definition instance_ids :: "DB \<Rightarrow> string set" where
  "instance_ids d = iID ` set (instances d)"

definition keys_ok :: "DB \<Rightarrow> bool" where
  "keys_ok d \<longleftrightarrow>
     distinct (map nID (nodes d)) \<and> distinct (map iID (instances d)) \<and>
     distinct (map wID (networks d)) \<and> distinct (map wName (networks d)) \<and>
     distinct (map hID (mesh_networks d)) \<and> distinct (map hName (mesh_networks d))"

definition auto_keys_ok :: "DB \<Rightarrow> bool" where
  "auto_keys_ok d \<longleftrightarrow>
     auto_ok rID (sync_history d) \<and> auto_ok bID (backups d) \<and> auto_ok mID (sync_mappings d) \<and>
     auto_ok tID (sync_targets d) \<and> auto_ok xID (instance_networks d) \<and>
     auto_ok eID (dns_records d) \<and> auto_ok uID (users d) \<and> auto_ok aID (audit_logs d) \<and>
     auto_ok kID (instance_metrics d)"

definition unique_ok :: "DB \<Rightarrow> bool" where
  "unique_ok d \<longleftrightarrow>
     distinct (map (\<lambda>x. (xInstanceID x, xNetworkID x)) (at_rows (instance_networks d))) \<and>
     distinct (map (\<lambda>r. (eMeshID r, eFQDN r)) (at_rows (dns_records d))) \<and>
     distinct (map uUsername (at_rows (users d)))"

definition foreign_keys_ok :: "DB \<Rightarrow> bool" where
  "foreign_keys_ok d \<longleftrightarrow>
     (\<forall>i \<in> set (instances d). iNodeID i \<in> node_ids d) \<and>
     (\<forall>r \<in> set (at_rows (sync_history d)).
        set_option (rInstanceID r) \<subseteq> instance_ids d \<and> set_option (rNodeID r) \<subseteq> node_ids d) \<and>
     (\<forall>b \<in> set (at_rows (backups d)). bInstanceID b \<in> instance_ids d) \<and>
     (\<forall>t \<in> set (at_rows (sync_targets d)).
        tMappingID t \<in> mID ` set (at_rows (sync_mappings d))) \<and>
     (\<forall>x \<in> set (at_rows (instance_networks d)).
        xInstanceID x \<in> instance_ids d \<and> xNetworkID x \<in> wID ` set (networks d)) \<and>
     (\<forall>r \<in> set (at_rows (dns_records d)). eMeshID r \<in> hID ` set (mesh_networks d))"

definition db_ok :: "DB \<Rightarrow> bool" where
  "db_ok d \<longleftrightarrow> keys_ok d \<and> auto_keys_ok d \<and> unique_ok d \<and> foreign_keys_ok d"

lemmas db_ok_defs = db_ok_def keys_ok_def auto_keys_ok_def unique_ok_def foreign_keys_ok_def
  node_ids_def instance_ids_def

lemma migrated_db_ok: "db_ok (migrated_db now)"
  by (simp add: db_ok_defs migrated_db_def)

section \<open>Migrations run once\<close>

lemma fold_max_bound: "(b :: int) \<le> fold max vs b \<and> (\<forall>v \<in> set vs. v \<le> fold max vs b)"
  by (induction vs arbitrary: b) (auto, (meson dual_order.trans max.cobounded1 max.cobounded2)+)

lemma fold_max_in: "fold max vs (b :: int) \<in> insert b (set vs)"
proof (induction vs arbitrary: b)
  case (Cons v vs)
  show ?case
    using Cons.IH [of "max v b"] by (auto simp: max_def split: if_splits)
qed simp

text \<open>Executing a list of migrations from scratch.\<close>

fun exec_all :: "(int \<Rightarrow> 's \<Rightarrow> 's option) \<Rightarrow> int list \<Rightarrow> 's \<Rightarrow> 's option" where
  "exec_all exec [] s = Some s"
| "exec_all exec (v # vs) s = (case exec v s of None \<Rightarrow> None | Some s' \<Rightarrow> exec_all exec vs s')"

lemma exec_all_append:
  "exec_all exec (xs @ ys) s =
     (case exec_all exec xs s of None \<Rightarrow> None | Some s' \<Rightarrow> exec_all exec ys s')"
  by (induction xs arbitrary: s) (auto split: option.splits)

definition all_versions :: "int list" where
  "all_versions = map fst getMigrations"

definition recorded :: "(int \<Rightarrow> 's \<Rightarrow> 's option) \<Rightarrow> 's \<Rightarrow> nat \<Rightarrow> 's migration_state \<Rightarrow> bool" where
  "recorded exec s0 k st \<longleftrightarrow> k \<le> length all_versions \<and>
     ms_versions st = take k all_versions \<and> exec_all exec (ms_versions st) s0 = Some (ms_schema st)"

lemma all_versions_upto: "all_versions = [1..13]"
  by (simp add: all_versions_def getMigrations_def upto.simps)

lemma nth_all_versions: "k < 13 \<Longrightarrow> all_versions ! k = int k + 1"
  by (simp add: all_versions_upto nth_upto)

lemma length_all_versions [simp]: "length all_versions = 13"
  by (simp add: all_versions_upto)

lemma take_all_versions: "k \<le> 13 \<Longrightarrow> take k all_versions = [1..int k]"
  by (rule nth_equalityI) (auto simp: nth_all_versions nth_upto)

lemma recorded_version: "recorded exec s0 k st \<Longrightarrow> current_version st = int k"
proof -
  assume "recorded exec s0 k st"
  then have k: "ms_versions st = [1..int k]"
    by (simp add: recorded_def take_all_versions)
  show ?thesis
  proof (cases "k = 0")
    case False
    have "fold max [1..int k] 0 \<in> insert 0 (set [1..int k])"
      by (rule fold_max_in)
    moreover have "int k \<le> fold max [1..int k] 0"
      using fold_max_bound [of 0 "[1..int k]"] False by auto
    ultimately show ?thesis
      using k by (auto simp: current_version_def)
  qed (simp add: current_version_def k)
qed

lemma run_migrations_skip:
  "\<forall>v \<in> set vs. v \<le> current \<Longrightarrow> run_migrations exec current (vs @ ws) st = run_migrations exec current ws st"
  by (induction vs) auto

lemma apply_migration_recorded:
  assumes "recorded exec s0 k st" and "k < 13"
  shows "case apply_migration exec (int k + 1) st of
      None \<Rightarrow> exec (int k + 1) (ms_schema st) = None
    | Some st' \<Rightarrow> recorded exec s0 (Suc k) st'"
proof -
  have "take (Suc k) all_versions = take k all_versions @ [int k + 1]"
    using assms(2) by (simp add: take_Suc_conv_app_nth nth_all_versions)
  then show ?thesis
    using assms
    by (auto simp: apply_migration_def recorded_def exec_all_append take_all_versions
        split: option.splits)
qed

lemma run_migrations_recorded:
  assumes "recorded exec s0 k st" and "current \<le> int k" and "n = 13 - k"
    and "run_migrations exec current (drop k all_versions) st = (st', res)"
  shows "\<exists>k' \<ge> k. recorded exec s0 k' st' \<and>
    (case res of None \<Rightarrow> k' = 13 | Some v \<Rightarrow> k' < 13 \<and> v = int k' + 1 \<and> exec v (ms_schema st') = None)"
  using assms
proof (induction n arbitrary: k st)
  case 0
  then have "k = 13" by (simp add: recorded_def)
  then show ?case using 0 by auto
next
  case (Suc n)
  then have k: "k < 13" by simp
  have d: "drop k all_versions = (int k + 1) # drop (Suc k) all_versions"
    using k by (simp add: Cons_nth_drop_Suc [symmetric] nth_all_versions)
  show ?case
  proof (cases "apply_migration exec (int k + 1) st")
    case None
    then show ?thesis
      using Suc.prems apply_migration_recorded [OF Suc.prems(1) k] d by auto
  next
    case (Some st1)
    then have "recorded exec s0 (Suc k) st1"
      using apply_migration_recorded [OF Suc.prems(1) k] by simp
    then have "\<exists>k' \<ge> Suc k. recorded exec s0 k' st' \<and>
        (case res of None \<Rightarrow> k' = 13 | Some v \<Rightarrow> k' < 13 \<and> v = int k' + 1 \<and> exec v (ms_schema st') = None)"
      using Suc.IH [of "Suc k" st1] Suc.prems d Some by simp
    then show ?thesis by (meson Suc_leD)
  qed
qed

text \<open>
  Starting from a database on which some first part of the migrations has been
  executed and recorded, the runner executes the missing ones in order, each exactly once.
  If one fails, everything before it stays recorded and the schema is what the recorded
  ones give, so a later start resumes at the failed one; if none fails all thirteen are
  recorded, and starting again changes nothing.
\<close>

theorem migrate_resumes:
  assumes "recorded exec s0 k st" and "migrate exec st = (st', res)"
  shows "\<exists>k' \<ge> k. recorded exec s0 k' st' \<and>
      (case res of
         None \<Rightarrow> k' = 13 \<and> migrate exec st' = (st', None)
       | Some v \<Rightarrow> k' < 13 \<and> v = all_versions ! k' \<and> exec v (ms_schema st') = None)"
proof -
  have run: "migrate exec s = run_migrations exec (int j) (drop j all_versions) s"
    if "recorded exec s0 j s" for s j
  proof -
    have "\<forall>v \<in> set (take j all_versions). v \<le> int j"
      using that by (simp add: recorded_def take_all_versions)
    then have "run_migrations exec (int j) (take j all_versions @ drop j all_versions) s =
        run_migrations exec (int j) (drop j all_versions) s"
      by (rule run_migrations_skip)
    then show ?thesis
      by (simp add: migrate_def recorded_version [OF that] all_versions_def)
  qed
  obtain k' where k': "k \<le> k'" "recorded exec s0 k' st'"
    "case res of None \<Rightarrow> k' = 13 | Some v \<Rightarrow> k' < 13 \<and> v = int k' + 1 \<and> exec v (ms_schema st') = None"
    using run_migrations_recorded [OF assms(1) order.refl refl, of st' res] assms(2) run [OF assms(1)]
    by auto
  show ?thesis
  proof (cases res)
    case None
    then have "k' = 13" using k'(3) by simp
    then have "migrate exec st' = (st', None)"
      using run [OF k'(2)] by simp
    then show ?thesis using k' None by auto
  next
    case (Some v)
    show ?thesis using k' Some by (auto simp: nth_all_versions)
  qed
qed



definition demo_exec :: "int \<Rightarrow> int list \<Rightarrow> int list option" where
  "demo_exec v s = (if v = 4 then None else Some (v # s))"

theorem migrate_resumes_witness:
  "recorded demo_exec [] 0 \<lparr>ms_schema = [], ms_versions = []\<rparr> \<and>
   migrate demo_exec \<lparr>ms_schema = [], ms_versions = []\<rparr> =
     (\<lparr>ms_schema = [3, 2, 1], ms_versions = [1, 2, 3]\<rparr>, Some 4) \<and>
   (\<exists>k' \<ge> 0. recorded demo_exec [] k' \<lparr>ms_schema = [3, 2, 1], ms_versions = [1, 2, 3]\<rparr> \<and>
      k' < 13 \<and> 4 = all_versions ! k' \<and> demo_exec 4 [3, 2, 1] = None)"
proof -
  have r: "recorded demo_exec [] 0 \<lparr>ms_schema = [], ms_versions = []\<rparr>"
    by (simp add: recorded_def)
  have m: "migrate demo_exec \<lparr>ms_schema = [], ms_versions = []\<rparr> =
     (\<lparr>ms_schema = [3, 2, 1], ms_versions = [1, 2, 3]\<rparr>, Some 4)"
    by (simp add: migrate_def getMigrations_def current_version_def apply_migration_def demo_exec_def)
  show ?thesis
    using r m migrate_resumes [OF r m] by simp
qed

end
