(* ===== verification/Store.thy ===== *)
theory Store
  imports Store_Schema
begin

text \<open>
  The operations of the master's database (\<^verbatim>\<open>internal/master/store/*.go\<close>), one definition
  per method of \<^verbatim>\<open>DB\<close>. A method that a constraint can refuse returns a sum; a method
  whose statement cannot be refused returns the database or the rows. Failures of the
  disk or of the driver are not modelled. \<open>now\<close> is the clock of the server.
\<close>

section \<open>Nodes\<close>

definition new_node :: "instant \<Rightarrow> Node \<Rightarrow> Node" where
  "new_node now n =
     n\<lparr>nCreatedAt := current_timestamp now, nUpdatedAt := current_timestamp now,
       nWGPublicKey := '''', nWGPrivateKey := '''', nWGAddress := '''', nWGEndpoint := '''',
       nWGListenPort := 51820, nDockerSubnet := ''''\<rparr>"

definition CreateNode :: "instant \<Rightarrow> Node \<Rightarrow> DB \<Rightarrow> store_error + DB" where
  "CreateNode now n d =
     (if nID n \<in> node_ids d then Inl UniqueFailed
      else Inr (d\<lparr>nodes := nodes d @ [new_node now n]\<rparr>))"

definition GetNode :: "string \<Rightarrow> DB \<Rightarrow> store_error + Node" where
  "GetNode i d = query_row (\<lambda>n. nID n = i) (nodes d)"

definition ListNodes :: "DB \<Rightarrow> Node list" where
  "ListNodes d = order_by nName (nodes d)"

definition UpdateNodeStatus :: "instant \<Rightarrow> string \<Rightarrow> string \<Rightarrow> DB \<Rightarrow> DB" where
  "UpdateNodeStatus now i status d =
     d\<lparr>nodes := row_update (\<lambda>n. nID n = i)
         (\<lambda>n. n\<lparr>nStatus := status, nUpdatedAt := current_timestamp now\<rparr>) (nodes d)\<rparr>"

definition UpsertNode :: "instant \<Rightarrow> Node \<Rightarrow> DB \<Rightarrow> DB" where
  "UpsertNode now n d =
     (if nID n \<in> node_ids d
      then d\<lparr>nodes := row_update (\<lambda>r. nID r = nID n)
               (\<lambda>r. r\<lparr>nName := nName n, nAddress := nAddress n, nStatus := nStatus n,
                      nCPUCores := nCPUCores n, nMemoryMB := nMemoryMB n, nOSInfo := nOSInfo n,
                      nUpdatedAt := current_timestamp now\<rparr>) (nodes d)\<rparr>
      else d\<lparr>nodes := nodes d @ [new_node now n]\<rparr>)"

definition ResetAllStatus :: "instant \<Rightarrow> DB \<Rightarrow> DB" where
  "ResetAllStatus now d =
     d\<lparr>nodes := row_update (\<lambda>n. True)
         (\<lambda>n. n\<lparr>nStatus := ''offline'', nUpdatedAt := current_timestamp now\<rparr>) (nodes d),
       instances := row_update (\<lambda>i. True)
         (\<lambda>i. i\<lparr>iStatus := ''stopped'', iPID := None, iUpdatedAt := current_timestamp now\<rparr>)
         (instances d)\<rparr>"

text \<open>
  Deleting instances, with what the foreign keys say: backups and network memberships go
  with the instance, the history keeps its rows and forgets the instance.
\<close>

definition delete_instances :: "(Instance \<Rightarrow> bool) \<Rightarrow> DB \<Rightarrow> DB" where
  "delete_instances p d =
     (let gone = set (map iID (filter p (instances d))) in
      d\<lparr>instances := row_delete p (instances d),
        sync_history := auto_update (\<lambda>r. \<exists>i \<in> set_option (rInstanceID r). i \<in> gone)
          (\<lambda>r. r\<lparr>rInstanceID := None\<rparr>) (sync_history d),
        backups := auto_delete (\<lambda>b. bInstanceID b \<in> gone) (backups d),
        instance_networks := auto_delete (\<lambda>x. xInstanceID x \<in> gone) (instance_networks d)\<rparr>)"

definition DeleteNode :: "string \<Rightarrow> DB \<Rightarrow> DB" where
  "DeleteNode i d =
     (let d1 = delete_instances (\<lambda>inst. iNodeID inst = i) d in
      d1\<lparr>nodes := row_delete (\<lambda>n. nID n = i) (nodes d1),
         sync_history := auto_update (\<lambda>r. rNodeID r = Some i) (\<lambda>r. r\<lparr>rNodeID := None\<rparr>)
           (sync_history d1)\<rparr>)"

definition UpdateNodeWireGuard ::
  "instant \<Rightarrow> string \<Rightarrow> string \<Rightarrow> string \<Rightarrow> string \<Rightarrow> string \<Rightarrow> int \<Rightarrow> string \<Rightarrow> DB \<Rightarrow> DB" where
  "UpdateNodeWireGuard now i pubKey privKey address endpoint listenPort dockerSubnet d =
     d\<lparr>nodes := row_update (\<lambda>n. nID n = i)
         (\<lambda>n. n\<lparr>nWGPublicKey := pubKey, nWGPrivateKey := privKey, nWGAddress := address,
                nWGEndpoint := endpoint, nWGListenPort := listenPort,
                nDockerSubnet := dockerSubnet, nUpdatedAt := current_timestamp now\<rparr>) (nodes d)\<rparr>"

definition ListNodesWithWireGuard :: "DB \<Rightarrow> Node list" where
  "ListNodesWithWireGuard d = order_by nName (filter (\<lambda>n. nWGPublicKey n \<noteq> '''') (nodes d))"

text \<open>
  SQLite's \<^verbatim>\<open>REPLACE\<close>, and \<^verbatim>\<open>CAST(.. AS INTEGER)\<close>, which reads the longest number at the
  start of the text and is 0 if there is none.
\<close>

function sql_replace :: "string \<Rightarrow> string \<Rightarrow> string \<Rightarrow> string" where
  "sql_replace old new [] = []"
| "sql_replace old new (c # cs) =
     (if old \<noteq> [] \<and> has_prefix (c # cs) old
      then new @ sql_replace old new (drop (length old) (c # cs))
      else c # sql_replace old new cs)"
  by pat_completeness auto
termination
  by (relation "measure (\<lambda>(old, new, s). length s)") (auto simp: neq_Nil_conv)

definition cast_integer :: "string \<Rightarrow> int" where
  "cast_integer s = (case sscanf_d s of None \<Rightarrow> 0 | Some i \<Rightarrow> i)"

definition wg_index :: "string \<Rightarrow> int" where
  "wg_index addr = cast_integer (sql_replace ''/16'' '''' (sql_replace ''10.10.0.'' '''' addr))"

definition NextWGIndex :: "DB \<Rightarrow> int" where
  "NextWGIndex d =
     (case map (\<lambda>n. wg_index (nWGAddress n)) (filter (\<lambda>n. nWGAddress n \<noteq> '''') (nodes d)) of
        [] \<Rightarrow> 0 | i # is \<Rightarrow> fold max is i) + 1"

section \<open>Instances\<close>

definition JVMArgsList :: "Instance \<Rightarrow> string list" where
  "JVMArgsList i =
     (if iJVMArgs i = '''' then []
      else filter (\<lambda>a. a \<noteq> '''') (map trim_space (split_on (CHR 0x0A) (iJVMArgs i))))"

definition SetJVMArgsList :: "string list \<Rightarrow> Instance \<Rightarrow> Instance" where
  "SetJVMArgsList as i = i\<lparr>iJVMArgs := str_join [CHR 0x0A] as\<rparr>"

definition IsMinecraft :: "Instance \<Rightarrow> bool" where
  "IsMinecraft i \<longleftrightarrow> iInstanceType i = '''' \<or> iInstanceType i = ''minecraft''"

definition IsJavaBased :: "Instance \<Rightarrow> bool" where
  "IsJavaBased i \<longleftrightarrow> IsMinecraft i \<or> iInstanceType i = ''kafka''"

definition default_type :: "Instance \<Rightarrow> Instance" where
  "default_type i = (if iInstanceType i = '''' then i\<lparr>iInstanceType := ''minecraft''\<rparr> else i)"

text \<open>Columns that the INSERT does not name keep their defaults.\<close>

definition new_instance :: "instant \<Rightarrow> Instance \<Rightarrow> Instance" where
  "new_instance now i =
     (default_type i)\<lparr>iPID := None, iBackupLastAt := None,
        iCreatedAt := current_timestamp now, iUpdatedAt := current_timestamp now\<rparr>"

definition CreateInstance :: "instant \<Rightarrow> Instance \<Rightarrow> DB \<Rightarrow> store_error + DB" where
  "CreateInstance now i d =
     (if iID i \<in> instance_ids d then Inl UniqueFailed
      else if iNodeID i \<notin> node_ids d then Inl ForeignKeyFailed
      else Inr (d\<lparr>instances := instances d @ [new_instance now i]\<rparr>))"

definition GetInstance :: "string \<Rightarrow> DB \<Rightarrow> store_error + Instance" where
  "GetInstance i d = query_row (\<lambda>r. iID r = i) (instances d)"

definition ListInstances :: "string \<Rightarrow> DB \<Rightarrow> Instance list" where
  "ListInstances nodeID d =
     order_by iName
       (if nodeID \<noteq> '''' then filter (\<lambda>i. iNodeID i = nodeID) (instances d) else instances d)"

definition ListInstancesByType :: "string \<Rightarrow> DB \<Rightarrow> Instance list" where
  "ListInstancesByType ty d = order_by iName (filter (\<lambda>i. iInstanceType i = ty) (instances d))"

definition UpdateInstanceStatus :: "instant \<Rightarrow> string \<Rightarrow> string \<Rightarrow> int option \<Rightarrow> DB \<Rightarrow> DB" where
  "UpdateInstanceStatus now i status pid d =
     d\<lparr>instances := row_update (\<lambda>r. iID r = i)
         (\<lambda>r. r\<lparr>iStatus := status, iPID := pid, iUpdatedAt := current_timestamp now\<rparr>)
         (instances d)\<rparr>"

definition UpsertInstance :: "instant \<Rightarrow> Instance \<Rightarrow> DB \<Rightarrow> store_error + DB" where
  "UpsertInstance now i d =
     (if iID i \<in> instance_ids d
      then Inr (d\<lparr>instances := row_update (\<lambda>r. iID r = iID i)
             (\<lambda>r. r\<lparr>iStatus := iStatus i, iUpdatedAt := current_timestamp now\<rparr>) (instances d)\<rparr>)
      else if iNodeID i \<notin> node_ids d then Inl ForeignKeyFailed
      else Inr (d\<lparr>instances := instances d @
             [(new_instance now i)\<lparr>iRCONPort := None, iRCONPassword := None\<rparr>]\<rparr>))"

text \<open>\<^verbatim>\<open>UpdateInstance\<close> writes every column but the ones kept here.\<close>

definition updated_instance :: "instant \<Rightarrow> Instance \<Rightarrow> Instance \<Rightarrow> Instance" where
  "updated_instance now i r =
     i\<lparr>iID := iID r, iNodeID := iNodeID r, iStatus := iStatus r, iPID := iPID r,
       iRCONPort := iRCONPort r, iRCONPassword := iRCONPassword r,
       iBackupLastAt := iBackupLastAt r, iCreatedAt := iCreatedAt r,
       iUpdatedAt := current_timestamp now\<rparr>"

definition UpdateInstance :: "instant \<Rightarrow> Instance \<Rightarrow> DB \<Rightarrow> DB" where
  "UpdateInstance now i d =
     d\<lparr>instances := row_update (\<lambda>r. iID r = iID i) (updated_instance now i) (instances d)\<rparr>"

definition UpdateBackupLastAt :: "instant \<Rightarrow> string \<Rightarrow> instant \<Rightarrow> DB \<Rightarrow> DB" where
  "UpdateBackupLastAt now i t d =
     d\<lparr>instances := row_update (\<lambda>r. iID r = i)
         (\<lambda>r. r\<lparr>iBackupLastAt := Some t, iUpdatedAt := current_timestamp now\<rparr>) (instances d)\<rparr>"

definition ListBackupEnabledInstances :: "DB \<Rightarrow> Instance list" where
  "ListBackupEnabledInstances d = order_by iName (filter iBackupEnabled (instances d))"

definition DeleteInstance :: "string \<Rightarrow> DB \<Rightarrow> DB" where
  "DeleteInstance i d = delete_instances (\<lambda>r. iID r = i) d"

section \<open>Synchronisation history and backups\<close>

definition CreateSyncRecord :: "instant \<Rightarrow> SyncRecord \<Rightarrow> DB \<Rightarrow> store_error + DB" where
  "CreateSyncRecord now r d =
     (if set_option (rInstanceID r) \<subseteq> instance_ids d \<and> set_option (rNodeID r) \<subseteq> node_ids d
      then Inr (d\<lparr>sync_history := auto_insert
             (\<lambda>i. r\<lparr>rID := i, rSyncedAt := current_timestamp now\<rparr>) (sync_history d)\<rparr>)
      else Inl ForeignKeyFailed)"

definition UpdateSyncStatus :: "instant \<Rightarrow> int \<Rightarrow> string \<Rightarrow> string option \<Rightarrow> DB \<Rightarrow> DB" where
  "UpdateSyncStatus now i status errMsg d =
     d\<lparr>sync_history := auto_update (\<lambda>r. rID r = i)
         (\<lambda>r. r\<lparr>rStatus := status, rErrorMsg := errMsg, rSyncedAt := current_timestamp now\<rparr>)
         (sync_history d)\<rparr>"

definition ListSyncHistory :: "int \<Rightarrow> DB \<Rightarrow> SyncRecord list" where
  "ListSyncHistory n d =
     sql_limit (if n \<le> 0 then 100 else n) (order_by_desc rSyncedAt (at_rows (sync_history d)))"

definition ListSyncHistoryByNode :: "string \<Rightarrow> int \<Rightarrow> DB \<Rightarrow> SyncRecord list" where
  "ListSyncHistoryByNode nodeID n d =
     sql_limit (if n \<le> 0 then 50 else n)
       (order_by_desc rSyncedAt (filter (\<lambda>r. rNodeID r = Some nodeID) (at_rows (sync_history d))))"

definition DB_CreateBackup :: "instant \<Rightarrow> Backup \<Rightarrow> DB \<Rightarrow> store_error + DB" where
  "DB_CreateBackup now b d =
     (if bInstanceID b \<in> instance_ids d
      then Inr (d\<lparr>backups := auto_insert
             (\<lambda>i. b\<lparr>bID := i, bCreatedAt := current_timestamp now\<rparr>) (backups d)\<rparr>)
      else Inl ForeignKeyFailed)"

definition instance_backups :: "string \<Rightarrow> DB \<Rightarrow> Backup list" where
  "instance_backups i d =
     order_by_desc bCreatedAt (filter (\<lambda>b. bInstanceID b = i) (at_rows (backups d)))"

definition ListBackups :: "string \<Rightarrow> int \<Rightarrow> DB \<Rightarrow> Backup list" where
  "ListBackups i n d = sql_limit (if n \<le> 0 then 50 else n) (instance_backups i d)"

definition CountBackups :: "string \<Rightarrow> DB \<Rightarrow> int" where
  "CountBackups i d = int (length (filter (\<lambda>b. bInstanceID b = i) (at_rows (backups d))))"

definition DeleteOldestBackups :: "string \<Rightarrow> int \<Rightarrow> DB \<Rightarrow> DB \<times> string list" where
  "DeleteOldestBackups i maxCount d =
     (let paths = map bFilePath (sql_offset maxCount (instance_backups i d));
          kept = set (map bID (sql_limit maxCount (instance_backups i d)))
      in (if paths \<noteq> []
          then d\<lparr>backups := auto_delete (\<lambda>b. bInstanceID b = i \<and> bID b \<notin> kept) (backups d)\<rparr>
          else d, paths))"

section \<open>Synchronisation mappings and targets\<close>

definition IsAgentSource :: "SyncMapping \<Rightarrow> bool" where
  "IsAgentSource m \<longleftrightarrow> mSourceAgentID m \<noteq> '''' \<and> mSourceInstanceID m \<noteq> ''''"

definition comma_list :: "string \<Rightarrow> string list" where
  "comma_list s = filter (\<lambda>p. p \<noteq> '''') (map trim_space (split_on (CHR '','') s))"

definition TargetList :: "SyncMapping \<Rightarrow> string list" where
  "TargetList m =
     (if mTargets m = '''' \<or> mTargets m = ''*'' then [''*'']
      else if comma_list (mTargets m) = [] then [''*''] else comma_list (mTargets m))"

definition ExcludeList :: "SyncMapping \<Rightarrow> string list" where
  "ExcludeList m = (if mExclude m = '''' then [] else comma_list (mExclude m))"

definition CreateSyncMapping :: "instant \<Rightarrow> SyncMapping \<Rightarrow> DB \<Rightarrow> DB \<times> int" where
  "CreateSyncMapping now m d =
     (d\<lparr>sync_mappings := auto_insert
          (\<lambda>i. m\<lparr>mID := i, mCreatedAt := current_timestamp now, mUpdatedAt := current_timestamp now\<rparr>)
          (sync_mappings d)\<rparr>,
      at_seq (sync_mappings d) + 1)"

definition UpdateSyncMapping :: "instant \<Rightarrow> SyncMapping \<Rightarrow> DB \<Rightarrow> DB" where
  "UpdateSyncMapping now m d =
     d\<lparr>sync_mappings := auto_update (\<lambda>r. mID r = mID m)
         (\<lambda>r. m\<lparr>mID := mID r, mCreatedAt := mCreatedAt r, mUpdatedAt := current_timestamp now\<rparr>)
         (sync_mappings d)\<rparr>"

definition DeleteSyncMapping :: "int \<Rightarrow> DB \<Rightarrow> DB" where
  "DeleteSyncMapping i d =
     d\<lparr>sync_mappings := auto_delete (\<lambda>m. mID m = i) (sync_mappings d),
       sync_targets := auto_delete (\<lambda>t. tMappingID t = i) (sync_targets d)\<rparr>"

definition GetSyncMapping :: "int \<Rightarrow> DB \<Rightarrow> store_error + SyncMapping" where
  "GetSyncMapping i d = query_row (\<lambda>m. mID m = i) (at_rows (sync_mappings d))"

definition ListSyncMappings :: "DB \<Rightarrow> SyncMapping list" where
  "ListSyncMappings d = order_by mID (at_rows (sync_mappings d))"

definition ListEnabledSyncMappings :: "DB \<Rightarrow> SyncMapping list" where
  "ListEnabledSyncMappings d = order_by mID (filter mEnabled (at_rows (sync_mappings d)))"

definition CreateSyncTarget :: "instant \<Rightarrow> SyncTarget \<Rightarrow> DB \<Rightarrow> store_error + DB" where
  "CreateSyncTarget now t d =
     (if tMappingID t \<in> mID ` set (at_rows (sync_mappings d))
      then Inr (d\<lparr>sync_targets := auto_insert
             (\<lambda>i. t\<lparr>tID := i, tCreatedAt := current_timestamp now\<rparr>) (sync_targets d)\<rparr>)
      else Inl ForeignKeyFailed)"

definition UpdateSyncTarget :: "SyncTarget \<Rightarrow> DB \<Rightarrow> DB" where
  "UpdateSyncTarget t d =
     d\<lparr>sync_targets := auto_update (\<lambda>r. tID r = tID t)
         (\<lambda>r. r\<lparr>tDestPath := tDestPath t, tEnabled := tEnabled t\<rparr>) (sync_targets d)\<rparr>"

definition DeleteSyncTarget :: "int \<Rightarrow> DB \<Rightarrow> DB" where
  "DeleteSyncTarget i d = d\<lparr>sync_targets := auto_delete (\<lambda>t. tID t = i) (sync_targets d)\<rparr>"

definition ListSyncTargets :: "int \<Rightarrow> DB \<Rightarrow> SyncTarget list" where
  "ListSyncTargets m d = order_by tID (filter (\<lambda>t. tMappingID t = m) (at_rows (sync_targets d)))"

definition ListEnabledSyncTargets :: "int \<Rightarrow> DB \<Rightarrow> SyncTarget list" where
  "ListEnabledSyncTargets m d =
     order_by tID (filter (\<lambda>t. tMappingID t = m \<and> tEnabled t) (at_rows (sync_targets d)))"

text \<open>The loop of \<^verbatim>\<open>BulkSetSyncTargets\<close>; an error leaves through the deferred rollback.\<close>

definition bulk_target :: "int \<Rightarrow> SyncTarget \<Rightarrow> SyncTarget" where
  "bulk_target m t =
     t\<lparr>tMappingID := m, tDestPath := (if tDestPath t = '''' then ''.'' else tDestPath t)\<rparr>"

fun bulk_insert :: "instant \<Rightarrow> int \<Rightarrow> SyncTarget list \<Rightarrow> DB \<Rightarrow> store_error + DB" where
  "bulk_insert now m [] d = Inr d"
| "bulk_insert now m (t # ts) d =
     (case CreateSyncTarget now (bulk_target m t) d of
        Inl e \<Rightarrow> Inl e | Inr d' \<Rightarrow> bulk_insert now m ts d')"

definition BulkSetSyncTargets ::
  "instant \<Rightarrow> int \<Rightarrow> SyncTarget list \<Rightarrow> DB \<Rightarrow> DB \<times> store_error option" where
  "BulkSetSyncTargets now m ts d =
     (case bulk_insert now m ts
             (d\<lparr>sync_targets := auto_delete (\<lambda>t. tMappingID t = m) (sync_targets d)\<rparr>) of
        Inl e \<Rightarrow> (d, Some e) | Inr d' \<Rightarrow> (d', None))"

section \<open>Networks, mesh and DNS\<close>

definition new_network :: "instant \<Rightarrow> Network \<Rightarrow> Network" where
  "new_network now n =
     n\<lparr>wCreatedAt := current_timestamp now, wUpdatedAt := current_timestamp now\<rparr>"

definition CreateNetwork :: "instant \<Rightarrow> Network \<Rightarrow> DB \<Rightarrow> store_error + DB" where
  "CreateNetwork now n d =
     (if wID n \<in> wID ` set (networks d) \<or> wName n \<in> wName ` set (networks d)
      then Inl UniqueFailed
      else Inr (d\<lparr>networks := networks d @ [new_network now n]\<rparr>))"

definition GetNetwork :: "string \<Rightarrow> DB \<Rightarrow> store_error + Network" where
  "GetNetwork i d = query_row (\<lambda>n. wID n = i) (networks d)"

definition GetNetworkByName :: "string \<Rightarrow> DB \<Rightarrow> store_error + Network" where
  "GetNetworkByName name d = query_row (\<lambda>n. wName n = name) (networks d)"

definition ListNetworks :: "string \<Rightarrow> DB \<Rightarrow> Network list" where
  "ListNetworks nodeID d =
     order_by wName
       (if nodeID \<noteq> '''' then filter (\<lambda>n. wNodeID n = nodeID) (networks d) else networks d)"

definition DeleteNetwork :: "string \<Rightarrow> DB \<Rightarrow> DB" where
  "DeleteNetwork i d =
     d\<lparr>networks := row_delete (\<lambda>n. wID n = i) (networks d),
       instance_networks := auto_delete (\<lambda>x. xNetworkID x = i) (instance_networks d)\<rparr>"

definition AddInstanceToNetwork ::
  "instant \<Rightarrow> string \<Rightarrow> string \<Rightarrow> string \<Rightarrow> string \<Rightarrow> DB \<Rightarrow> store_error + DB" where
  "AddInstanceToNetwork now i w alias ip d =
     (if \<exists>x \<in> set (at_rows (instance_networks d)). xInstanceID x = i \<and> xNetworkID x = w
      then Inr (d\<lparr>instance_networks := auto_update (\<lambda>x. xInstanceID x = i \<and> xNetworkID x = w)
             (\<lambda>x. x\<lparr>xAlias := alias, xIPAddress := ip\<rparr>) (auto_bump (instance_networks d))\<rparr>)
      else if i \<notin> instance_ids d \<or> w \<notin> wID ` set (networks d) then Inl ForeignKeyFailed
      else Inr (d\<lparr>instance_networks := auto_insert
             (\<lambda>n. \<lparr>xID = n, xInstanceID = i, xNetworkID = w, xAlias = alias, xIPAddress = ip,
                   xCreatedAt = current_timestamp now\<rparr>) (instance_networks d)\<rparr>))"

definition RemoveInstanceFromNetwork :: "string \<Rightarrow> string \<Rightarrow> DB \<Rightarrow> DB" where
  "RemoveInstanceFromNetwork i w d =
     d\<lparr>instance_networks :=
         auto_delete (\<lambda>x. xInstanceID x = i \<and> xNetworkID x = w) (instance_networks d)\<rparr>"

definition ListInstanceNetworks :: "string \<Rightarrow> DB \<Rightarrow> InstanceNetwork list" where
  "ListInstanceNetworks i d =
     order_by xCreatedAt (filter (\<lambda>x. xInstanceID x = i) (at_rows (instance_networks d)))"

definition ListNetworkInstances :: "string \<Rightarrow> DB \<Rightarrow> InstanceNetwork list" where
  "ListNetworkInstances w d =
     order_by xCreatedAt (filter (\<lambda>x. xNetworkID x = w) (at_rows (instance_networks d)))"

definition CountNetworkInstances :: "string \<Rightarrow> DB \<Rightarrow> int" where
  "CountNetworkInstances w d =
     int (length (filter (\<lambda>x. xNetworkID x = w) (at_rows (instance_networks d))))"

definition GetMeshNetwork :: "string \<Rightarrow> DB \<Rightarrow> store_error + MeshNetwork" where
  "GetMeshNetwork i d = query_row (\<lambda>m. hID m = i) (mesh_networks d)"

definition GetDefaultMesh :: "DB \<Rightarrow> store_error + MeshNetwork" where
  "GetDefaultMesh d = GetMeshNetwork ''default'' d"

definition ListMeshNetworks :: "DB \<Rightarrow> MeshNetwork list" where
  "ListMeshNetworks d = order_by hName (mesh_networks d)"

definition UpsertDNSRecord :: "instant \<Rightarrow> DNSRecord \<Rightarrow> DB \<Rightarrow> store_error + DB" where
  "UpsertDNSRecord now r d =
     (if \<exists>x \<in> set (at_rows (dns_records d)). eMeshID x = eMeshID r \<and> eFQDN x = eFQDN r
      then Inr (d\<lparr>dns_records := auto_update (\<lambda>x. eMeshID x = eMeshID r \<and> eFQDN x = eFQDN r)
             (\<lambda>x. x\<lparr>eIPAddress := eIPAddress r, eInstanceID := eInstanceID r, eNodeID := eNodeID r\<rparr>)
             (auto_bump (dns_records d))\<rparr>)
      else if eMeshID r \<notin> hID ` set (mesh_networks d) then Inl ForeignKeyFailed
      else Inr (d\<lparr>dns_records := auto_insert
             (\<lambda>n. r\<lparr>eID := n, eCreatedAt := current_timestamp now\<rparr>) (dns_records d)\<rparr>))"

definition DeleteDNSRecordByInstance :: "string \<Rightarrow> DB \<Rightarrow> DB" where
  "DeleteDNSRecordByInstance i d =
     d\<lparr>dns_records := auto_delete (\<lambda>r. eInstanceID r = i) (dns_records d)\<rparr>"

definition ListDNSRecords :: "string \<Rightarrow> DB \<Rightarrow> DNSRecord list" where
  "ListDNSRecords m d =
     order_by eFQDN
       (if m \<noteq> '''' then filter (\<lambda>r. eMeshID r = m) (at_rows (dns_records d))
        else at_rows (dns_records d))"

section \<open>Users\<close>

definition ValidRoles :: "string list" where
  "ValidRoles = [''admin'', ''editor'', ''viewer'']"

definition CreateUser :: "instant \<Rightarrow> User \<Rightarrow> DB \<Rightarrow> store_error + DB" where
  "CreateUser now u d =
     (if uUsername u \<in> uUsername ` set (at_rows (users d)) then Inl UniqueFailed
      else Inr (d\<lparr>users := auto_insert
             (\<lambda>i. u\<lparr>uID := i, uCreatedAt := current_timestamp now, uUpdatedAt := current_timestamp now\<rparr>)
             (users d)\<rparr>))"

definition GetUserByUsername :: "string \<Rightarrow> DB \<Rightarrow> store_error + User" where
  "GetUserByUsername name d = query_row (\<lambda>u. uUsername u = name) (at_rows (users d))"

definition GetUserByID :: "int \<Rightarrow> DB \<Rightarrow> store_error + User" where
  "GetUserByID i d = query_row (\<lambda>u. uID u = i) (at_rows (users d))"

definition ListUsers :: "DB \<Rightarrow> User list" where
  "ListUsers d = order_by uCreatedAt (at_rows (users d))"

definition UpdateUserPassword :: "instant \<Rightarrow> int \<Rightarrow> string \<Rightarrow> DB \<Rightarrow> DB" where
  "UpdateUserPassword now i hash d =
     d\<lparr>users := auto_update (\<lambda>u. uID u = i)
         (\<lambda>u. u\<lparr>uPasswordHash := hash, uUpdatedAt := current_timestamp now\<rparr>) (users d)\<rparr>"

definition UpdateUsername :: "instant \<Rightarrow> int \<Rightarrow> string \<Rightarrow> DB \<Rightarrow> store_error + DB" where
  "UpdateUsername now i name d =
     (if (\<exists>u \<in> set (at_rows (users d)). uID u = i) \<and>
         (\<exists>u \<in> set (at_rows (users d)). uID u \<noteq> i \<and> uUsername u = name)
      then Inl UniqueFailed
      else Inr (d\<lparr>users := auto_update (\<lambda>u. uID u = i)
             (\<lambda>u. u\<lparr>uUsername := name, uUpdatedAt := current_timestamp now\<rparr>) (users d)\<rparr>))"

definition UpdateUserRole :: "instant \<Rightarrow> int \<Rightarrow> string \<Rightarrow> DB \<Rightarrow> DB" where
  "UpdateUserRole now i role d =
     d\<lparr>users := auto_update (\<lambda>u. uID u = i)
         (\<lambda>u. u\<lparr>uRole := role, uUpdatedAt := current_timestamp now\<rparr>) (users d)\<rparr>"

definition ApproveUser :: "instant \<Rightarrow> int \<Rightarrow> DB \<Rightarrow> DB" where
  "ApproveUser now i d =
     d\<lparr>users := auto_update (\<lambda>u. uID u = i)
         (\<lambda>u. u\<lparr>uApproved := True, uUpdatedAt := current_timestamp now\<rparr>) (users d)\<rparr>"

definition RejectUser :: "int \<Rightarrow> DB \<Rightarrow> DB" where
  "RejectUser i d = d\<lparr>users := auto_delete (\<lambda>u. uID u = i) (users d)\<rparr>"

definition DeleteUser :: "int \<Rightarrow> DB \<Rightarrow> DB" where
  "DeleteUser i d = d\<lparr>users := auto_delete (\<lambda>u. uID u = i) (users d)\<rparr>"

definition CountUsers :: "DB \<Rightarrow> int" where
  "CountUsers d = int (length (at_rows (users d)))"

text \<open>\<^verbatim>\<open>hex.EncodeToString\<close>.\<close>

definition hex_digit :: "nat \<Rightarrow> char" where
  "hex_digit n = (if n < 10 then char_of (48 + n) else char_of (87 + n))"

definition hex_encode :: "bytes \<Rightarrow> string" where
  "hex_encode bs = concat (map (\<lambda>b. [hex_digit (unat b div 16), hex_digit (unat b mod 16)]) bs)"

text \<open>
  \<^verbatim>\<open>EnsureAdminUser\<close>: \<open>rnd\<close> is what the random source delivers, \<open>bcrypt\<close> the hash of the
  password library. The result is the password to be shown, empty if none was set.
\<close>

definition EnsureAdminUser ::
  "instant \<Rightarrow> bytes option \<Rightarrow> (string \<Rightarrow> string option) \<Rightarrow> DB \<Rightarrow> DB \<times> string" where
  "EnsureAdminUser now rnd bcrypt d =
     (if CountUsers d > 0 then (d, '''')
      else
        let randomBytes = (case rnd of Some bs \<Rightarrow> bs
                           | None \<Rightarrow> map (\<lambda>c. of_nat (of_char c)) ''admin1234'');
            password = hex_encode randomBytes
        in case bcrypt password of
             None \<Rightarrow> (d, '''')
           | Some hash \<Rightarrow>
               (case CreateUser now
                       \<lparr>uID = 0, uUsername = ''admin'', uPasswordHash = hash, uRole = ''admin'',
                        uApproved = True, uCreatedAt = 0, uUpdatedAt = 0\<rparr> d of
                  Inl e \<Rightarrow> (d, '''') | Inr d' \<Rightarrow> (d', password)))"

section \<open>Audit log and metrics\<close>

definition CreateAuditLog :: "instant \<Rightarrow> AuditLog \<Rightarrow> DB \<Rightarrow> DB" where
  "CreateAuditLog now l d =
     d\<lparr>audit_logs := auto_insert
         (\<lambda>i. l\<lparr>aID := i, aTimestamp := current_timestamp now, aRolledBack := False,
                aCreatedAt := current_timestamp now\<rparr>) (audit_logs d)\<rparr>"

definition ListAuditLogs :: "int \<Rightarrow> int \<Rightarrow> DB \<Rightarrow> AuditLog list" where
  "ListAuditLogs n off d =
     (let rows = order_by_desc aTimestamp (at_rows (audit_logs d)) in
      if n > 0 then sql_limit n (sql_offset off rows) else rows)"

definition ListAuditLogsByTarget :: "string \<Rightarrow> string \<Rightarrow> int \<Rightarrow> DB \<Rightarrow> AuditLog list" where
  "ListAuditLogsByTarget ty i n d =
     sql_limit n (order_by_desc aTimestamp
       (filter (\<lambda>l. aTargetType l = ty \<and> aTargetID l = i) (at_rows (audit_logs d))))"

definition GetAuditLog :: "int \<Rightarrow> DB \<Rightarrow> store_error + AuditLog" where
  "GetAuditLog i d = query_row (\<lambda>l. aID l = i) (at_rows (audit_logs d))"

definition MarkAuditLogRolledBack :: "int \<Rightarrow> DB \<Rightarrow> DB" where
  "MarkAuditLogRolledBack i d =
     d\<lparr>audit_logs := auto_update (\<lambda>l. aID l = i) (\<lambda>l. l\<lparr>aRolledBack := True\<rparr>) (audit_logs d)\<rparr>"

definition CountAuditLogs :: "DB \<Rightarrow> int" where
  "CountAuditLogs d = int (length (at_rows (audit_logs d)))"

definition InsertInstanceMetrics :: "instant \<Rightarrow> InstanceMetricRecord \<Rightarrow> DB \<Rightarrow> DB" where
  "InsertInstanceMetrics now m d =
     d\<lparr>instance_metrics := auto_insert
         (\<lambda>i. m\<lparr>kID := i, kRecordedAt := current_timestamp now\<rparr>) (instance_metrics d)\<rparr>"

definition ListInstanceMetrics :: "string \<Rightarrow> int \<Rightarrow> DB \<Rightarrow> InstanceMetricRecord list" where
  "ListInstanceMetrics i n d =
     rev (sql_limit (if n \<le> 0 then 60 else n)
       (order_by_desc kRecordedAt
          (filter (\<lambda>r. kInstanceID r = i) (at_rows (instance_metrics d)))))"

definition PruneInstanceMetrics :: "instant \<Rightarrow> duration \<Rightarrow> DB \<Rightarrow> DB \<times> int" where
  "PruneInstanceMetrics now maxAge d =
     (d\<lparr>instance_metrics := auto_delete (\<lambda>r. kRecordedAt r < now - maxAge) (instance_metrics d)\<rparr>,
      int (length (filter (\<lambda>r. kRecordedAt r < now - maxAge) (at_rows (instance_metrics d)))))"

end
