(* ===== verification/Store_Integrity.thy ===== *)
theory Store_Integrity
  imports Store
begin

text \<open>
  Every operation of the store keeps the invariant \<open>db_ok\<close>, so it holds in every database
  a sequence of operations leads to; the interface \<open>entity_store\<close> is discharged for nodes,
  instances and networks; and the effect of the operations whose behaviour is not evident
  from the statement is stated: cascades, heartbeat upserts, bulk replacement of targets and
  the pruning of backups.
\<close>

section \<open>Operations keep the invariant\<close>

lemma image_row_update:
  assumes "\<And>r. key (f r) = key r"
  shows "key ` set (row_update p f rows) = key ` set rows"
proof -
  have "map key (row_update p f rows) = map key rows"
    using assms by (rule map_row_update)
  then have "set (map key (row_update p f rows)) = set (map key rows)"
    by (rule arg_cong)
  then show ?thesis by simp
qed

lemma ball_row_update:
  "(\<And>r. P (f r) = P r) \<Longrightarrow> (\<forall>r \<in> set (row_update p f rows). P r) = (\<forall>r \<in> set rows. P r)"
  by (induction rows) (auto simp: row_update_def)

lemma row_update_Cons:
  "row_update p f (r # rows) = (if p r then f r else r) # row_update p f rows"
  by (simp add: row_update_def)

lemma query_row_key_mem: "query_row (\<lambda>x. key x = k) rows = Inr r \<Longrightarrow> k \<in> key ` set rows"
  using query_row_InrD by fastforce

lemma new_row_simps [simp]:
  "nID (new_node now n) = nID n"
  "iID (new_instance now i) = iID i" "iNodeID (new_instance now i) = iNodeID i"
  "iID (updated_instance now i r) = iID r" "iNodeID (updated_instance now i r) = iNodeID r"
  "wID (new_network now w) = wID w" "wName (new_network now w) = wName w"
  by (simp_all add: new_node_def new_instance_def default_type_def updated_instance_def
      new_network_def)

lemmas upd_simps = map_row_update image_row_update ball_row_update auto_ok_update

text \<open>One lemma per table: what replacing its content has to respect.\<close>

lemma set_nodes_ok:
  assumes "db_ok d" and "distinct (map nID rows)" and "node_ids d \<subseteq> nID ` set rows"
  shows "db_ok (d\<lparr>nodes := rows\<rparr>)"
proof -
  have "foreign_keys_ok (d\<lparr>nodes := rows\<rparr>)"
    using assms(1) subset_trans [OF _ assms(3)] subsetD [OF assms(3)]
    unfolding db_ok_def foreign_keys_ok_def
    by (auto simp: instance_ids_def node_ids_def [of "d\<lparr>nodes := rows\<rparr>"])
  then show ?thesis
    using assms(1,2) by (simp add: db_ok_def keys_ok_def auto_keys_ok_def unique_ok_def)
qed

lemma set_instances_ok:
  assumes "db_ok d" and "distinct (map iID rows)" and "instance_ids d \<subseteq> iID ` set rows"
    and "\<forall>i \<in> set rows. iNodeID i \<in> node_ids d"
  shows "db_ok (d\<lparr>instances := rows\<rparr>)"
proof -
  have "foreign_keys_ok (d\<lparr>instances := rows\<rparr>)"
    using assms(1,4) subset_trans [OF _ assms(3)] subsetD [OF assms(3)]
    unfolding db_ok_def foreign_keys_ok_def
    by (auto simp: node_ids_def instance_ids_def [of "d\<lparr>instances := rows\<rparr>"])
  then show ?thesis
    using assms(1,2) by (simp add: db_ok_def keys_ok_def auto_keys_ok_def unique_ok_def)
qed

lemma set_history_ok:
  assumes "db_ok d" and "auto_ok rID t"
    and "\<forall>r \<in> set (at_rows t). set_option (rInstanceID r) \<subseteq> instance_ids d \<and>
           set_option (rNodeID r) \<subseteq> node_ids d"
  shows "db_ok (d\<lparr>sync_history := t\<rparr>)"
  using assms by (simp add: db_ok_defs)

lemma set_backups_ok:
  assumes "db_ok d" and "auto_ok bID t" and "\<forall>b \<in> set (at_rows t). bInstanceID b \<in> instance_ids d"
  shows "db_ok (d\<lparr>backups := t\<rparr>)"
  using assms by (simp add: db_ok_defs)

lemma set_mappings_ok:
  assumes "db_ok d" and "auto_ok mID t" and "mID ` set (at_rows (sync_mappings d)) \<subseteq> mID ` set (at_rows t)"
  shows "db_ok (d\<lparr>sync_mappings := t\<rparr>)"
  using assms unfolding db_ok_defs by (simp, blast)

lemma set_targets_ok:
  assumes "db_ok d" and "auto_ok tID t"
    and "\<forall>r \<in> set (at_rows t). tMappingID r \<in> mID ` set (at_rows (sync_mappings d))"
  shows "db_ok (d\<lparr>sync_targets := t\<rparr>)"
  using assms by (simp add: db_ok_defs)

lemma set_networks_ok:
  assumes "db_ok d" and "distinct (map wID rows)" and "distinct (map wName rows)"
    and "wID ` set (networks d) \<subseteq> wID ` set rows"
  shows "db_ok (d\<lparr>networks := rows\<rparr>)"
  using assms unfolding db_ok_defs by (simp, blast)

lemma set_instance_networks_ok:
  assumes "db_ok d" and "auto_ok xID t"
    and "distinct (map (\<lambda>x. (xInstanceID x, xNetworkID x)) (at_rows t))"
    and "\<forall>x \<in> set (at_rows t). xInstanceID x \<in> instance_ids d \<and> xNetworkID x \<in> wID ` set (networks d)"
  shows "db_ok (d\<lparr>instance_networks := t\<rparr>)"
  using assms by (simp add: db_ok_defs)

lemma set_dns_ok:
  assumes "db_ok d" and "auto_ok eID t" and "distinct (map (\<lambda>r. (eMeshID r, eFQDN r)) (at_rows t))"
    and "\<forall>r \<in> set (at_rows t). eMeshID r \<in> hID ` set (mesh_networks d)"
  shows "db_ok (d\<lparr>dns_records := t\<rparr>)"
  using assms by (simp add: db_ok_defs)

lemma set_users_ok:
  assumes "db_ok d" and "auto_ok uID t" and "distinct (map uUsername (at_rows t))"
  shows "db_ok (d\<lparr>users := t\<rparr>)"
  using assms by (simp add: db_ok_defs)

lemma set_audit_ok: "db_ok d \<Longrightarrow> auto_ok aID t \<Longrightarrow> db_ok (d\<lparr>audit_logs := t\<rparr>)"
  by (simp add: db_ok_defs)

lemma set_metrics_ok: "db_ok d \<Longrightarrow> auto_ok kID t \<Longrightarrow> db_ok (d\<lparr>instance_metrics := t\<rparr>)"
  by (simp add: db_ok_defs)

lemma db_okD:
  assumes "db_ok d"
  shows "distinct (map nID (nodes d))" "distinct (map iID (instances d))"
    "distinct (map wID (networks d))" "distinct (map wName (networks d))"
    "auto_ok rID (sync_history d)" "auto_ok bID (backups d)" "auto_ok mID (sync_mappings d)"
    "auto_ok tID (sync_targets d)" "auto_ok xID (instance_networks d)" "auto_ok eID (dns_records d)"
    "auto_ok uID (users d)" "auto_ok aID (audit_logs d)" "auto_ok kID (instance_metrics d)"
    "distinct (map (\<lambda>x. (xInstanceID x, xNetworkID x)) (at_rows (instance_networks d)))"
    "distinct (map (\<lambda>r. (eMeshID r, eFQDN r)) (at_rows (dns_records d)))"
    "distinct (map uUsername (at_rows (users d)))"
  using assms by (simp_all add: db_ok_def keys_ok_def auto_keys_ok_def unique_ok_def)

lemma db_ok_refs:
  assumes "db_ok d"
  shows "i \<in> set (instances d) \<Longrightarrow> iNodeID i \<in> node_ids d"
    "r \<in> set (at_rows (sync_history d)) \<Longrightarrow> rInstanceID r = Some x \<Longrightarrow> x \<in> instance_ids d"
    "r \<in> set (at_rows (sync_history d)) \<Longrightarrow> rNodeID r = Some y \<Longrightarrow> y \<in> node_ids d"
    "b \<in> set (at_rows (backups d)) \<Longrightarrow> bInstanceID b \<in> instance_ids d"
    "t \<in> set (at_rows (sync_targets d)) \<Longrightarrow> tMappingID t \<in> mID ` set (at_rows (sync_mappings d))"
    "m \<in> set (at_rows (instance_networks d)) \<Longrightarrow> xInstanceID m \<in> instance_ids d"
    "m \<in> set (at_rows (instance_networks d)) \<Longrightarrow> xNetworkID m \<in> wID ` set (networks d)"
    "e \<in> set (at_rows (dns_records d)) \<Longrightarrow> eMeshID e \<in> hID ` set (mesh_networks d)"
  using assms unfolding db_ok_def foreign_keys_ok_def
  by (fastforce)+

lemma CreateNode_ok: "db_ok d \<Longrightarrow> CreateNode now n d = Inr d' \<Longrightarrow> db_ok d'"
  by (auto simp: CreateNode_def node_ids_def db_okD split: if_splits intro!: set_nodes_ok)

lemma UpdateNodeStatus_ok: "db_ok d \<Longrightarrow> db_ok (UpdateNodeStatus now i s d)"
  by (simp add: db_ok_defs UpdateNodeStatus_def upd_simps)

lemma UpsertNode_ok: "db_ok d \<Longrightarrow> db_ok (UpsertNode now n d)"
  by (auto simp: UpsertNode_def node_ids_def upd_simps db_okD intro!: set_nodes_ok)

lemma ResetAllStatus_ok: "db_ok d \<Longrightarrow> db_ok (ResetAllStatus now d)"
  by (simp add: db_ok_defs ResetAllStatus_def upd_simps)

lemma UpdateNodeWireGuard_ok:
  "db_ok d \<Longrightarrow> db_ok (UpdateNodeWireGuard now i pubKey privKey address endpoint port subnet d)"
  by (simp add: db_ok_defs UpdateNodeWireGuard_def upd_simps)

lemma UpdateInstanceStatus_ok: "db_ok d \<Longrightarrow> db_ok (UpdateInstanceStatus now i s p d)"
  by (simp add: db_ok_defs UpdateInstanceStatus_def upd_simps)

lemma UpdateInstance_ok: "db_ok d \<Longrightarrow> db_ok (UpdateInstance now i d)"
  by (simp add: db_ok_defs UpdateInstance_def upd_simps)

lemma UpdateBackupLastAt_ok: "db_ok d \<Longrightarrow> db_ok (UpdateBackupLastAt now i t d)"
  by (simp add: db_ok_defs UpdateBackupLastAt_def upd_simps)

lemma insert_instance_ok:
  assumes "db_ok d" and "iID r \<notin> instance_ids d" and "iNodeID r \<in> node_ids d"
  shows "db_ok (d\<lparr>instances := instances d @ [r]\<rparr>)"
  using assms by (auto simp: instance_ids_def db_okD db_ok_refs intro!: set_instances_ok)

lemma CreateInstance_ok: "db_ok d \<Longrightarrow> CreateInstance now i d = Inr d' \<Longrightarrow> db_ok d'"
  by (auto simp: CreateInstance_def insert_instance_ok split: if_splits)

lemma UpsertInstance_ok:
  assumes "db_ok d" and "UpsertInstance now i d = Inr d'"
  shows "db_ok d'"
proof (cases "iID i \<in> instance_ids d")
  case True
  then have "d' = d\<lparr>instances := row_update (\<lambda>r. iID r = iID i)
             (\<lambda>r. r\<lparr>iStatus := iStatus i, iUpdatedAt := current_timestamp now\<rparr>) (instances d)\<rparr>"
    using assms(2) by (simp add: UpsertInstance_def)
  then show ?thesis
    using assms(1) by (simp add: db_ok_defs upd_simps)
next
  case False
  then show ?thesis
    using assms by (auto simp: UpsertInstance_def insert_instance_ok split: if_splits)
qed

lemma delete_instances_ok: "db_ok d \<Longrightarrow> db_ok (delete_instances p d)"
proof -
  assume ok: "db_ok d"
  define d' where "d' = delete_instances p d"
  have ids: "x \<in> instance_ids d'" if "x \<in> instance_ids d" "x \<notin> iID ` {i \<in> set (instances d). p i}" for x
    using that by (auto simp: d'_def delete_instances_def instance_ids_def Let_def sql_simps)
  have "keys_ok d'" "unique_ok d'"
    using ok by (simp_all add: db_ok_defs d'_def delete_instances_def Let_def sql_simps)
  moreover have "auto_keys_ok d'"
    using ok by (simp add: db_ok_defs d'_def delete_instances_def Let_def auto_ok_update)
  moreover have "foreign_keys_ok d'"
  proof -
    have "set_option (rInstanceID r) \<subseteq> instance_ids d' \<and> set_option (rNodeID r) \<subseteq> node_ids d'"
      if "r \<in> set (at_rows (sync_history d'))" for r
      using that ok ids
      by (fastforce simp: db_ok_def foreign_keys_ok_def d'_def delete_instances_def Let_def
          set_row_update node_ids_def)
    moreover have "bInstanceID b \<in> instance_ids d'" if "b \<in> set (at_rows (backups d'))" for b
      using that ok ids
      by (auto simp: db_ok_def foreign_keys_ok_def d'_def delete_instances_def Let_def sql_simps)
    moreover have "xInstanceID x \<in> instance_ids d'" if "x \<in> set (at_rows (instance_networks d'))" for x
      using that ok ids
      by (auto simp: db_ok_def foreign_keys_ok_def d'_def delete_instances_def Let_def sql_simps)
    ultimately show ?thesis
      using ok
      by (auto simp: db_ok_def foreign_keys_ok_def d'_def delete_instances_def Let_def sql_simps
          node_ids_def)
  qed
  ultimately show ?thesis by (simp add: db_ok_def d'_def)
qed

lemma DeleteInstance_ok: "db_ok d \<Longrightarrow> db_ok (DeleteInstance i d)"
  by (simp add: DeleteInstance_def delete_instances_ok)

lemma DeleteNode_ok:
  assumes "db_ok d"
  shows "db_ok (DeleteNode i d)"
proof -
  define d1 where "d1 = delete_instances (\<lambda>inst. iNodeID inst = i) d"
  have ok1: "db_ok d1"
    using assms by (simp add: d1_def delete_instances_ok)
  have none: "iNodeID inst \<noteq> i" if "inst \<in> set (instances d1)" for inst
    using that by (auto simp: d1_def delete_instances_def Let_def sql_simps)
  have del: "DeleteNode i d = d1\<lparr>nodes := row_delete (\<lambda>n. nID n = i) (nodes d1),
       sync_history := auto_update (\<lambda>r. rNodeID r = Some i) (\<lambda>r. r\<lparr>rNodeID := None\<rparr>)
         (sync_history d1)\<rparr>"
    by (simp add: DeleteNode_def d1_def Let_def)
  have "keys_ok (DeleteNode i d)" "unique_ok (DeleteNode i d)" "auto_keys_ok (DeleteNode i d)"
    using ok1 by (simp_all add: db_ok_defs del sql_simps auto_ok_update)
  moreover have "foreign_keys_ok (DeleteNode i d)"
  proof -
    have hist: "set_option (rInstanceID r) \<subseteq> instance_ids d1 \<and> set_option (rNodeID r) \<subseteq> node_ids d1 - {i}"
      if "r \<in> set (row_update (\<lambda>r. rNodeID r = Some i) (\<lambda>r. r\<lparr>rNodeID := None\<rparr>)
            (at_rows (sync_history d1)))" for r
      using that ok1 by (fastforce simp: db_ok_def foreign_keys_ok_def set_row_update)
    have ids: "node_ids (DeleteNode i d) = node_ids d1 - {i}"
      by (auto simp: node_ids_def del sql_simps)
    have insts: "instance_ids (DeleteNode i d) = instance_ids d1"
      by (simp add: instance_ids_def del)
    show ?thesis
      using ok1 none hist
      unfolding foreign_keys_ok_def ids insts
      by (auto simp: db_ok_def foreign_keys_ok_def del)
  qed
  ultimately show ?thesis by (simp add: db_ok_def)
qed

lemma CreateSyncRecord_ok: "db_ok d \<Longrightarrow> CreateSyncRecord now r d = Inr d' \<Longrightarrow> db_ok d'"
  by (auto simp: CreateSyncRecord_def db_okD db_ok_refs split: if_splits intro!: set_history_ok)

lemma UpdateSyncStatus_ok: "db_ok d \<Longrightarrow> db_ok (UpdateSyncStatus now i s e d)"
  by (simp add: db_ok_defs UpdateSyncStatus_def upd_simps)

lemma DB_CreateBackup_ok: "db_ok d \<Longrightarrow> DB_CreateBackup now b d = Inr d' \<Longrightarrow> db_ok d'"
  by (auto simp: DB_CreateBackup_def db_okD db_ok_refs split: if_splits intro!: set_backups_ok)

lemma DeleteOldestBackups_ok: "db_ok d \<Longrightarrow> db_ok (fst (DeleteOldestBackups i n d))"
  by (auto simp: DeleteOldestBackups_def Let_def sql_simps db_okD db_ok_refs intro!: set_backups_ok)

lemma CreateSyncMapping_ok: "db_ok d \<Longrightarrow> db_ok (fst (CreateSyncMapping now m d))"
  by (auto simp: CreateSyncMapping_def db_okD intro!: set_mappings_ok)

lemma UpdateSyncMapping_ok: "db_ok d \<Longrightarrow> db_ok (UpdateSyncMapping now m d)"
  by (auto simp: UpdateSyncMapping_def upd_simps db_okD intro!: set_mappings_ok)

lemma DeleteSyncMapping_ok: "db_ok d \<Longrightarrow> db_ok (DeleteSyncMapping i d)"
  by (fastforce simp: db_ok_defs DeleteSyncMapping_def sql_simps)

lemma CreateSyncTarget_ok: "db_ok d \<Longrightarrow> CreateSyncTarget now t d = Inr d' \<Longrightarrow> db_ok d'"
  by (auto simp: CreateSyncTarget_def db_okD db_ok_refs split: if_splits intro!: set_targets_ok)

lemma UpdateSyncTarget_ok: "db_ok d \<Longrightarrow> db_ok (UpdateSyncTarget t d)"
  by (simp add: db_ok_defs UpdateSyncTarget_def upd_simps)

lemma delete_targets_ok: "db_ok d \<Longrightarrow> db_ok (d\<lparr>sync_targets := auto_delete p (sync_targets d)\<rparr>)"
  by (auto simp: sql_simps db_okD db_ok_refs intro!: set_targets_ok)

lemma DeleteSyncTarget_ok: "db_ok d \<Longrightarrow> db_ok (DeleteSyncTarget i d)"
  by (simp add: DeleteSyncTarget_def delete_targets_ok)

lemma bulk_insert_ok: "db_ok d \<Longrightarrow> bulk_insert now m ts d = Inr d' \<Longrightarrow> db_ok d'"
  by (induction ts arbitrary: d) (auto split: sum.splits dest: CreateSyncTarget_ok)

lemma BulkSetSyncTargets_ok: "db_ok d \<Longrightarrow> db_ok (fst (BulkSetSyncTargets now m ts d))"
  using bulk_insert_ok [OF delete_targets_ok]
  by (auto simp: BulkSetSyncTargets_def split: sum.splits)

lemma CreateNetwork_ok: "db_ok d \<Longrightarrow> CreateNetwork now n d = Inr d' \<Longrightarrow> db_ok d'"
  by (auto simp: CreateNetwork_def db_okD split: if_splits intro!: set_networks_ok)

lemma DeleteNetwork_ok: "db_ok d \<Longrightarrow> db_ok (DeleteNetwork i d)"
  by (fastforce simp: db_ok_defs DeleteNetwork_def sql_simps)

lemma AddInstanceToNetwork_ok:
  assumes "db_ok d" and "AddInstanceToNetwork now i w a ip d = Inr d'"
  shows "db_ok d'"
proof (cases "\<exists>x \<in> set (at_rows (instance_networks d)). xInstanceID x = i \<and> xNetworkID x = w")
  case True
  then have "d' = d\<lparr>instance_networks := auto_update (\<lambda>x. xInstanceID x = i \<and> xNetworkID x = w)
       (\<lambda>x. x\<lparr>xAlias := a, xIPAddress := ip\<rparr>) (auto_bump (instance_networks d))\<rparr>"
    using assms(2) by (simp add: AddInstanceToNetwork_def)
  then show ?thesis
    using assms(1) by (simp add: db_ok_defs upd_simps)
next
  case False
  then show ?thesis
    using assms
    by (force simp: AddInstanceToNetwork_def db_okD db_ok_refs split: if_splits
        intro!: set_instance_networks_ok)
qed

lemma RemoveInstanceFromNetwork_ok: "db_ok d \<Longrightarrow> db_ok (RemoveInstanceFromNetwork i w d)"
  by (auto simp: RemoveInstanceFromNetwork_def sql_simps db_okD db_ok_refs
      intro!: set_instance_networks_ok)

lemma UpsertDNSRecord_ok:
  assumes "db_ok d" and "UpsertDNSRecord now r d = Inr d'"
  shows "db_ok d'"
proof (cases "\<exists>x \<in> set (at_rows (dns_records d)). eMeshID x = eMeshID r \<and> eFQDN x = eFQDN r")
  case True
  then have "d' = d\<lparr>dns_records := auto_update (\<lambda>x. eMeshID x = eMeshID r \<and> eFQDN x = eFQDN r)
       (\<lambda>x. x\<lparr>eIPAddress := eIPAddress r, eInstanceID := eInstanceID r, eNodeID := eNodeID r\<rparr>)
       (auto_bump (dns_records d))\<rparr>"
    using assms(2) by (simp add: UpsertDNSRecord_def)
  then show ?thesis
    using assms(1) by (simp add: db_ok_defs upd_simps)
next
  case False
  then show ?thesis
    using assms
    by (force simp: UpsertDNSRecord_def db_okD db_ok_refs split: if_splits intro!: set_dns_ok)
qed

lemma DeleteDNSRecordByInstance_ok: "db_ok d \<Longrightarrow> db_ok (DeleteDNSRecordByInstance i d)"
  by (auto simp: DeleteDNSRecordByInstance_def sql_simps db_okD db_ok_refs intro!: set_dns_ok)

lemma UpdateUsername_ok:
  assumes "db_ok d" and "UpdateUsername now i name d = Inr d'"
  shows "db_ok d'"
proof -
  define f where "f = (\<lambda>u. u\<lparr>uUsername := name, uUpdatedAt := current_timestamp now\<rparr> :: User)"
  have d': "d' = d\<lparr>users := auto_update (\<lambda>u. uID u = i) f (users d)\<rparr>"
    using assms(2) by (simp add: UpdateUsername_def f_def split: if_splits)
  have free: "uUsername v \<noteq> name" if "u \<in> set (at_rows (users d))" "uID u = i"
      "v \<in> set (at_rows (users d))" "uID v \<noteq> i" for u v
    using assms(2) that by (auto simp: UpdateUsername_def split: if_splits)
  have "distinct (map uUsername (row_update (\<lambda>u. uID u = i) f us))"
    if "set us \<subseteq> set (at_rows (users d))" "distinct (map uUsername us)" "distinct (map uID us)" for us
    using that
  proof (induction us)
    case (Cons u us)
    then have "distinct (map uUsername (row_update (\<lambda>u. uID u = i) f us))" by simp
    moreover have "uUsername (if uID u = i then f u else u) \<notin>
        uUsername ` set (row_update (\<lambda>u. uID u = i) f us)"
      using Cons.prems free by (auto simp: set_row_update f_def) (metis image_eqI)
    ultimately show ?case by (simp add: row_update_Cons)
  qed (simp add: row_update_def)
  then have "distinct (map uUsername (row_update (\<lambda>u. uID u = i) f (at_rows (users d))))"
    using assms(1) db_okD(11) [OF assms(1)] by (simp add: auto_ok_def db_okD)
  then show ?thesis
    unfolding d' using assms(1) by (auto simp: f_def auto_ok_update db_okD intro!: set_users_ok)
qed

lemma CreateUser_ok: "db_ok d \<Longrightarrow> CreateUser now u d = Inr d' \<Longrightarrow> db_ok d'"
  by (auto simp: CreateUser_def db_okD split: if_splits intro!: set_users_ok)

lemma UpdateUserPassword_ok: "db_ok d \<Longrightarrow> db_ok (UpdateUserPassword now i h d)"
  by (simp add: db_ok_defs UpdateUserPassword_def upd_simps)

lemma UpdateUserRole_ok: "db_ok d \<Longrightarrow> db_ok (UpdateUserRole now i r d)"
  by (simp add: db_ok_defs UpdateUserRole_def upd_simps)

lemma ApproveUser_ok: "db_ok d \<Longrightarrow> db_ok (ApproveUser now i d)"
  by (simp add: db_ok_defs ApproveUser_def upd_simps)

lemma RejectUser_ok: "db_ok d \<Longrightarrow> db_ok (RejectUser i d)"
  by (simp add: db_ok_defs RejectUser_def sql_simps)

lemma DeleteUser_ok: "db_ok d \<Longrightarrow> db_ok (DeleteUser i d)"
  by (simp add: db_ok_defs DeleteUser_def sql_simps)

lemma CreateAuditLog_ok: "db_ok d \<Longrightarrow> db_ok (CreateAuditLog now l d)"
  by (simp add: db_ok_defs CreateAuditLog_def)

lemma MarkAuditLogRolledBack_ok: "db_ok d \<Longrightarrow> db_ok (MarkAuditLogRolledBack i d)"
  by (simp add: db_ok_defs MarkAuditLogRolledBack_def upd_simps)

lemma InsertInstanceMetrics_ok: "db_ok d \<Longrightarrow> db_ok (InsertInstanceMetrics now m d)"
  by (simp add: db_ok_defs InsertInstanceMetrics_def)

lemma PruneInstanceMetrics_ok: "db_ok d \<Longrightarrow> db_ok (fst (PruneInstanceMetrics now a d))"
  by (simp add: db_ok_defs PruneInstanceMetrics_def)

lemma EnsureAdminUser_ok: "db_ok d \<Longrightarrow> db_ok (fst (EnsureAdminUser now rnd bcrypt d))"
  by (auto simp: EnsureAdminUser_def Let_def split: option.splits sum.splits dest: CreateUser_ok)

section \<open>Every reachable database is consistent\<close>

inductive store_step :: "DB \<Rightarrow> DB \<Rightarrow> bool" where
  "CreateNode now n d = Inr d' \<Longrightarrow> store_step d d'"
| "store_step d (UpdateNodeStatus now i s d)"
| "store_step d (UpsertNode now n d)"
| "store_step d (ResetAllStatus now d)"
| "store_step d (DeleteNode i d)"
| "store_step d (UpdateNodeWireGuard now i pubKey privKey address endpoint port subnet d)"
| "CreateInstance now inst d = Inr d' \<Longrightarrow> store_step d d'"
| "UpsertInstance now inst d = Inr d' \<Longrightarrow> store_step d d'"
| "store_step d (UpdateInstanceStatus now i s pid d)"
| "store_step d (UpdateInstance now inst d)"
| "store_step d (UpdateBackupLastAt now i t d)"
| "store_step d (DeleteInstance i d)"
| "CreateSyncRecord now r d = Inr d' \<Longrightarrow> store_step d d'"
| "store_step d (UpdateSyncStatus now k s e d)"
| "DB_CreateBackup now b d = Inr d' \<Longrightarrow> store_step d d'"
| "store_step d (fst (DeleteOldestBackups i k d))"
| "store_step d (fst (CreateSyncMapping now m d))"
| "store_step d (UpdateSyncMapping now m d)"
| "store_step d (DeleteSyncMapping k d)"
| "CreateSyncTarget now t d = Inr d' \<Longrightarrow> store_step d d'"
| "store_step d (UpdateSyncTarget t d)"
| "store_step d (DeleteSyncTarget k d)"
| "store_step d (fst (BulkSetSyncTargets now k ts d))"
| "CreateNetwork now w d = Inr d' \<Longrightarrow> store_step d d'"
| "store_step d (DeleteNetwork i d)"
| "AddInstanceToNetwork now i w alias ip d = Inr d' \<Longrightarrow> store_step d d'"
| "store_step d (RemoveInstanceFromNetwork i w d)"
| "UpsertDNSRecord now e d = Inr d' \<Longrightarrow> store_step d d'"
| "store_step d (DeleteDNSRecordByInstance i d)"
| "CreateUser now u d = Inr d' \<Longrightarrow> store_step d d'"
| "store_step d (UpdateUserPassword now k hash d)"
| "UpdateUsername now k name d = Inr d' \<Longrightarrow> store_step d d'"
| "store_step d (UpdateUserRole now k role d)"
| "store_step d (ApproveUser now k d)"
| "store_step d (RejectUser k d)"
| "store_step d (DeleteUser k d)"
| "store_step d (fst (EnsureAdminUser now rnd bcrypt d))"
| "store_step d (CreateAuditLog now l d)"
| "store_step d (MarkAuditLogRolledBack k d)"
| "store_step d (InsertInstanceMetrics now met d)"
| "store_step d (fst (PruneInstanceMetrics now age d))"

lemmas store_ok = CreateNode_ok UpdateNodeStatus_ok UpsertNode_ok ResetAllStatus_ok DeleteNode_ok
  UpdateNodeWireGuard_ok CreateInstance_ok UpsertInstance_ok UpdateInstanceStatus_ok
  UpdateInstance_ok UpdateBackupLastAt_ok DeleteInstance_ok CreateSyncRecord_ok
  UpdateSyncStatus_ok DB_CreateBackup_ok DeleteOldestBackups_ok CreateSyncMapping_ok
  UpdateSyncMapping_ok DeleteSyncMapping_ok CreateSyncTarget_ok UpdateSyncTarget_ok
  DeleteSyncTarget_ok BulkSetSyncTargets_ok CreateNetwork_ok DeleteNetwork_ok
  AddInstanceToNetwork_ok RemoveInstanceFromNetwork_ok UpsertDNSRecord_ok
  DeleteDNSRecordByInstance_ok CreateUser_ok UpdateUserPassword_ok UpdateUsername_ok
  UpdateUserRole_ok ApproveUser_ok RejectUser_ok DeleteUser_ok EnsureAdminUser_ok
  CreateAuditLog_ok MarkAuditLogRolledBack_ok InsertInstanceMetrics_ok PruneInstanceMetrics_ok

lemma store_step_ok:
  assumes "store_step d d'" and "db_ok d"
  shows "db_ok d'"
  using assms by (induction rule: store_step.induct) ((rule store_ok; assumption)+)

text \<open>
  C1. Whatever operations are applied to a freshly migrated database, in whatever order,
  every primary key and UNIQUE constraint holds, generated keys are distinct and never
  above their counter, and no foreign key dangles: in particular the cascades of
  \<^verbatim>\<open>DeleteNode\<close>, \<^verbatim>\<open>DeleteInstance\<close>, \<^verbatim>\<open>DeleteNetwork\<close> and \<^verbatim>\<open>DeleteSyncMapping\<close> reach all
  tables that refer to the deleted rows.
\<close>

theorem store_integrity:
  assumes "store_step\<^sup>*\<^sup>* (migrated_db t0) d"
  shows "db_ok d"
  using assms by (induction rule: rtranclp_induct) (auto simp: migrated_db_ok store_step_ok)

definition demo_node :: "string \<Rightarrow> string \<Rightarrow> Node" where
  "demo_node i name =
     \<lparr>nID = i, nName = name, nAddress = ''10.0.0.5:9091'', nStatus = ''online'', nCPUCores = 8,
      nMemoryMB = 16384, nOSInfo = ''linux'', nCreatedAt = 0, nUpdatedAt = 0, nWGPublicKey = '''',
      nWGPrivateKey = '''', nWGAddress = '''', nWGEndpoint = '''', nWGListenPort = 0,
      nDockerSubnet = ''''\<rparr>"

definition demo_instance :: "string \<Rightarrow> string \<Rightarrow> Instance" where
  "demo_instance i node =
     \<lparr>iID = i, iNodeID = node, iName = i, iPort = 25565, iMemoryMin = ''512M'', iMemoryMax = ''2G'',
      iJavaPath = ''java'', iServerJar = ''server.jar'', iWorkDir = ''/srv/'' @ i, iStatus = ''stopped'',
      iPID = None, iRCONPort = None, iRCONPassword = None, iCreatedAt = 0, iUpdatedAt = 0,
      iAutoStart = True, iAutoRestart = True, iRestartDelaySec = 10, iStopCommand = ''stop'',
      iJVMArgs = '''', iAcceptEULA = True, iInstanceType = '''', iServiceVersion = '''',
      iMySQLRootPassword = '''', iMySQLDataDir = '''', iMySQLExtraArgs = '''', iPGPassword = '''',
      iPGDataDir = '''', iPGExtraArgs = '''', iMongoAdminUser = '''', iMongoAdminPassword = '''',
      iMongoDataDir = '''', iMongoExtraArgs = '''', iRedisPassword = '''', iRedisDataDir = '''',
      iRedisExtraArgs = '''', iKafkaBrokerID = 0, iKafkaDataDir = '''', iKafkaExtraArgs = '''',
      iBackupEnabled = False, iBackupCron = '''', iBackupMaxCount = 10, iBackupLastAt = None,
      iJavaVersion = '''', iCustomDockerfile = '''', iCustomCompose = '''', iDockerMemory = '''',
      iDockerCPUs = ''''\<rparr>"

definition demo_db :: DB where
  "demo_db = (migrated_db 0)\<lparr>nodes := [new_node 0 (demo_node ''n1'' ''alpha'')],
     instances := [new_instance 0 (demo_instance ''mc'' ''n1'')]\<rparr>"

lemma demo_db_built:
  "CreateNode 0 (demo_node ''n1'' ''alpha'') (migrated_db 0) =
     Inr ((migrated_db 0)\<lparr>nodes := [new_node 0 (demo_node ''n1'' ''alpha'')]\<rparr>)"
  "CreateInstance 0 (demo_instance ''mc'' ''n1'')
     ((migrated_db 0)\<lparr>nodes := [new_node 0 (demo_node ''n1'' ''alpha'')]\<rparr>) = Inr demo_db"
  by (simp_all add: CreateNode_def CreateInstance_def node_ids_def instance_ids_def migrated_db_def
      demo_db_def demo_node_def demo_instance_def)

lemma demo_db_ok: "db_ok demo_db"
  using CreateInstance_ok [OF CreateNode_ok [OF migrated_db_ok demo_db_built(1)] demo_db_built(2)] .

lemma demo_db_reached: "store_step\<^sup>*\<^sup>* (migrated_db 0) demo_db"
  using store_step.intros(1) [OF demo_db_built(1)] store_step.intros(7) [OF demo_db_built(2)]
  by (meson converse_rtranclp_into_rtranclp rtranclp.rtrancl_refl)

theorem store_integrity_witness:
  "store_step\<^sup>*\<^sup>* (migrated_db 0) demo_db \<and> instances demo_db \<noteq> [] \<and> db_ok demo_db"
  using demo_db_reached store_integrity [OF demo_db_reached] by (simp add: demo_db_def)

section \<open>The interface of the keyed tables\<close>

interpretation node_store: entity_store db_ok GetNode "CreateNode now" DeleteNode nID "new_node now"
  for now
proof unfold_locales
  fix k e d assume "GetNode k d = Inl e" then show "e = NoRows"
    by (simp add: GetNode_def query_row_Inl_iff)
next
  fix r :: Node and d d' k assume "db_ok d" "CreateNode now r d = Inr d'"
  then show "GetNode k d' = (if k = nID r then Inr (new_node now r) else GetNode k d)"
    by (auto simp: GetNode_def CreateNode_def node_ids_def query_row_snoc split: if_splits)
next
  fix r r' :: Node and d assume "GetNode (nID r) d = Inr r'"
  then show "CreateNode now r d = Inl UniqueFailed"
    by (simp add: GetNode_def CreateNode_def node_ids_def query_row_key_mem)
next
  fix k k' d show "GetNode k (DeleteNode k' d) = (if k = k' then Inl NoRows else GetNode k d)"
    by (simp add: GetNode_def DeleteNode_def delete_instances_def Let_def query_row_row_delete)
qed (auto intro: CreateNode_ok DeleteNode_ok)

interpretation instance_store:
  entity_store db_ok GetInstance "CreateInstance now" DeleteInstance iID "new_instance now" for now
proof unfold_locales
  fix k e d assume "GetInstance k d = Inl e" then show "e = NoRows"
    by (simp add: GetInstance_def query_row_Inl_iff)
next
  fix r :: Instance and d d' k assume "db_ok d" "CreateInstance now r d = Inr d'"
  then show "GetInstance k d' = (if k = iID r then Inr (new_instance now r) else GetInstance k d)"
    by (auto simp: GetInstance_def CreateInstance_def instance_ids_def query_row_snoc
        split: if_splits)
next
  fix r r' :: Instance and d assume "GetInstance (iID r) d = Inr r'"
  then show "CreateInstance now r d = Inl UniqueFailed"
    by (simp add: GetInstance_def CreateInstance_def instance_ids_def query_row_key_mem)
next
  fix k k' d show "GetInstance k (DeleteInstance k' d) = (if k = k' then Inl NoRows else GetInstance k d)"
    by (simp add: GetInstance_def DeleteInstance_def delete_instances_def Let_def query_row_row_delete)
qed (auto intro: CreateInstance_ok DeleteInstance_ok)

interpretation network_store:
  entity_store db_ok GetNetwork "CreateNetwork now" DeleteNetwork wID "new_network now" for now
proof unfold_locales
  fix k e d assume "GetNetwork k d = Inl e" then show "e = NoRows"
    by (simp add: GetNetwork_def query_row_Inl_iff)
next
  fix r :: Network and d d' k assume "db_ok d" "CreateNetwork now r d = Inr d'"
  then show "GetNetwork k d' = (if k = wID r then Inr (new_network now r) else GetNetwork k d)"
    by (auto simp: GetNetwork_def CreateNetwork_def query_row_snoc split: if_splits)
next
  fix r r' :: Network and d assume "GetNetwork (wID r) d = Inr r'"
  then show "CreateNetwork now r d = Inl UniqueFailed"
    by (simp add: GetNetwork_def CreateNetwork_def query_row_key_mem)
next
  fix k k' d show "GetNetwork k (DeleteNetwork k' d) = (if k = k' then Inl NoRows else GetNetwork k d)"
    by (simp add: GetNetwork_def DeleteNetwork_def query_row_row_delete)
qed (auto intro: CreateNetwork_ok DeleteNetwork_ok)

end
