(* ===== verification/Store_Properties.thy ===== *)
theory Store_Properties
  imports Store_Integrity "HOL-Library.Multiset"
begin

text \<open>
  What the less evident operations of the store do: the cascade of \<^verbatim>\<open>DeleteNode\<close>, the
  transactional replacement of synchronisation targets, the pruning of backup records and
  the JVM arguments of an instance as text and as list.
\<close>

section \<open>Pruning backup records\<close>

lemma DeleteOldestBackups_rows:
  assumes "db_ok d" and "0 \<le> n" and "DeleteOldestBackups i n d = (d', paths)"
  shows "at_rows (backups d') = filter (\<lambda>b. bInstanceID b = i \<longrightarrow>
      b \<in> set (take (nat n) (instance_backups i d))) (at_rows (backups d))"
proof -
  let ?L = "instance_backups i d"
  have setL: "set ?L = {b \<in> set (at_rows (backups d)). bInstanceID b = i}"
    by (auto simp: instance_backups_def)
  have inj: "inj_on bID (set (at_rows (backups d)))"
    using db_okD(6) [OF assms(1)] by (simp add: auto_ok_def distinct_map)
  have kept: "bID b \<in> bID ` set (take (nat n) ?L) \<longleftrightarrow> b \<in> set (take (nat n) ?L)"
    if "b \<in> set (at_rows (backups d))" for b
    using inj_on_image_mem_iff [OF inj that] setL set_take_subset [of "nat n" ?L] by auto
  have keep_all: "set (take (nat n) ?L) = set ?L" if "drop (nat n) ?L = []"
    using that by simp
  show ?thesis
  proof (cases "drop (nat n) ?L = []")
    case True
    then have "d' = d"
      using assms(3) by (auto simp: DeleteOldestBackups_def Let_def sql_offset_def)
    then show ?thesis
      using keep_all [OF True] setL by (auto simp: filter_id_conv)
  next
    case False
    then have "at_rows (backups d') = row_delete (\<lambda>b. bInstanceID b = i \<and>
        bID b \<notin> bID ` set (take (nat n) ?L)) (at_rows (backups d))"
      using assms(2,3)
      by (auto simp: DeleteOldestBackups_def Let_def sql_offset_def sql_limit_def)
    then show ?thesis
      using kept by (auto simp: row_delete_def cong: filter_cong)
  qed
qed

lemma pruned_backups:
  assumes "db_ok d" and "0 \<le> n" and "DeleteOldestBackups i n d = (d', paths)"
  defines "old \<equiv> filter (\<lambda>b. bInstanceID b = i) (at_rows (backups d))"
    and "new \<equiv> filter (\<lambda>b. bInstanceID b = i) (at_rows (backups d'))"
  shows "int (length new) = min n (int (length old)) \<and> set new \<subseteq> set old \<and>
    (\<forall>b \<in> set new. \<forall>c \<in> set old - set new. bCreatedAt c \<le> bCreatedAt b) \<and>
    mset paths + image_mset bFilePath (mset new) = image_mset bFilePath (mset old) \<and>
    filter (\<lambda>b. bInstanceID b \<noteq> i) (at_rows (backups d')) =
      filter (\<lambda>b. bInstanceID b \<noteq> i) (at_rows (backups d))"
proof -
  define L where "L = instance_backups i d"
  define K where "K = take (nat n) L"
  have rows: "at_rows (backups d') =
      filter (\<lambda>b. bInstanceID b = i \<longrightarrow> b \<in> set K) (at_rows (backups d))"
    using DeleteOldestBackups_rows [OF assms(1-3)] by (simp add: K_def L_def)
  have msL: "mset L = mset old"
    by (simp add: L_def instance_backups_def order_by_desc_def old_def)
  have new: "new = filter (\<lambda>b. b \<in> set K) old"
    by (simp add: new_def old_def rows) (rule filter_cong; auto)
  have "distinct (at_rows (backups d))"
    using db_okD(6) [OF assms(1)] by (simp add: auto_ok_def distinct_map)
  then have dold: "distinct old" by (simp add: old_def)
  then have dL: "distinct L" using msL by (metis mset_eq_imp_distinct_iff)
  have setK: "set K \<subseteq> set old"
    using msL set_take_subset [of "nat n" L] by (metis K_def set_mset_mset)
  have "set new = set K" using setK by (auto simp: new)
  then have msK: "mset new = mset K"
    using dold dL by (intro set_eq_iff_mset_eq_distinct [THEN iffD1]) (auto simp: new K_def)
  have LK: "mset L = mset K + mset (drop (nat n) L)"
    by (metis K_def append_take_drop_id mset_append)
  have paths: "paths = map bFilePath (drop (nat n) L)"
    using assms(3) by (auto simp: DeleteOldestBackups_def Let_def sql_offset_def L_def)
  have "int (length new) = min n (int (length old))"
  proof -
    have "length new = length K" "length L = length old"
      using msK msL by (metis size_mset)+
    then show ?thesis using assms(2) by (simp add: K_def)
  qed
  moreover have "\<forall>b \<in> set new. \<forall>c \<in> set old - set new. bCreatedAt c \<le> bCreatedAt b"
  proof (intro ballI)
    fix b c assume b: "b \<in> set new" and c: "c \<in> set old - set new"
    have "c \<in> set (drop (nat n) L)"
    proof -
      have "c \<in> set L" using c msL by (metis DiffD1 set_mset_mset)
      moreover have "c \<notin> set K" using c \<open>set new = set K\<close> by simp
      ultimately show ?thesis
        by (metis K_def Un_iff append_take_drop_id set_append)
    qed
    moreover have "sorted_wrt (\<lambda>a b. bCreatedAt b \<le> bCreatedAt a) (K @ drop (nat n) L)"
      using sorted_order_by_desc by (simp add: K_def L_def instance_backups_def)
    ultimately show "bCreatedAt c \<le> bCreatedAt b"
      using b \<open>set new = set K\<close> by (simp add: sorted_wrt_append)
  qed
  moreover have "mset paths + image_mset bFilePath (mset new) = image_mset bFilePath (mset old)"
    using LK msK msL by (simp add: paths add.commute)
  moreover have "set new \<subseteq> set old" by (simp add: new)
  ultimately show ?thesis by (simp add: rows cong: conj_cong) (auto intro!: filter_cong)
qed

text \<open>
  Pruning the backup records of an instance keeps exactly the allowed number of its
  newest records: none that is removed is newer than one that stays. The returned paths
  are those of the removed records, and the records of other instances are untouched.
\<close>

theorem oldest_backups_pruned:
  assumes "db_ok d" and "0 \<le> n" and "DeleteOldestBackups i n d = (d', paths)"
  defines "old \<equiv> filter (\<lambda>b. bInstanceID b = i) (at_rows (backups d))"
    and "new \<equiv> filter (\<lambda>b. bInstanceID b = i) (at_rows (backups d'))"
  shows "int (length new) = min n (int (length old)) \<and> set new \<subseteq> set old \<and>
    (\<forall>b \<in> set new. \<forall>c \<in> set old - set new. bCreatedAt c \<le> bCreatedAt b) \<and>
    mset paths + image_mset bFilePath (mset new) = image_mset bFilePath (mset old) \<and>
    filter (\<lambda>b. bInstanceID b \<noteq> i) (at_rows (backups d')) =
      filter (\<lambda>b. bInstanceID b \<noteq> i) (at_rows (backups d))"
  unfolding old_def new_def by (rule pruned_backups [OF assms(1-3)])

definition demo_backup :: "int \<Rightarrow> instant \<Rightarrow> Backup" where
  "demo_backup i t = \<lparr>bID = i, bInstanceID = ''mc'', bFilePath = replicate (nat i) CHR ''x'', bFileSize = 1,
     bChecksum = ''c'', bTriggerType = ''manual'', bStatus = ''completed'', bCreatedAt = t\<rparr>"

definition backup_db :: DB where
  "backup_db = demo_db\<lparr>backups := \<lparr>at_seq = 3,
     at_rows = [demo_backup 1 20, demo_backup 2 10, demo_backup 3 30]\<rparr>\<rparr>"

lemma backup_db_ok: "db_ok backup_db"
  using set_backups_ok [OF demo_db_ok,
      of "\<lparr>at_seq = 3, at_rows = [demo_backup 1 20, demo_backup 2 10, demo_backup 3 30]\<rparr>"]
  by (simp add: backup_db_def demo_backup_def auto_ok_def instance_ids_def demo_db_def
      demo_instance_def)

theorem oldest_backups_pruned_witness:
  "db_ok backup_db \<and> snd (DeleteOldestBackups ''mc'' 2 backup_db) = [''xx''] \<and>
   length (filter (\<lambda>b. bInstanceID b = ''mc'')
     (at_rows (backups (fst (DeleteOldestBackups ''mc'' 2 backup_db))))) = 2"
proof -
  have p: "snd (DeleteOldestBackups ''mc'' 2 backup_db) = [''xx'']"
    by (simp add: DeleteOldestBackups_def backup_db_def demo_backup_def instance_backups_def
        order_by_desc_def sql_offset_def Let_def numeral_2_eq_2)
  have "length (filter (\<lambda>b. bInstanceID b = ''mc'') (at_rows (backups backup_db))) = 3"
    by (simp add: backup_db_def demo_backup_def)
  then show ?thesis
    using oldest_backups_pruned [OF backup_db_ok _ surjective_pairing, of 2 "''mc''"]
      backup_db_ok p by simp
qed

section \<open>Removing a node\<close>

lemma delete_instances_rows:
  assumes "db_ok d"
  shows "x \<in> instance_ids d \<Longrightarrow>
    x \<in> instance_ids (delete_instances p d) \<longleftrightarrow> x \<notin> set (map iID (filter p (instances d)))"
proof -
  assume "x \<in> instance_ids d"
  then obtain i where i: "i \<in> set (instances d)" "iID i = x" by (auto simp: instance_ids_def)
  have inj: "inj_on iID (set (instances d))"
    using db_okD(2) [OF assms] by (simp add: distinct_map)
  have "x \<in> instance_ids (delete_instances p d) \<longleftrightarrow> \<not> p i"
    using i inj by (auto simp: instance_ids_def delete_instances_def Let_def sql_simps inj_on_def)
  moreover have "x \<in> set (map iID (filter p (instances d))) \<longleftrightarrow> p i"
    using i inj by (auto simp: inj_on_def)
  ultimately show ?thesis by simp
qed

text \<open>
  Removing a node removes exactly its instances, and with them exactly the backup
  records and network memberships that referred to one of them; the synchronisation history
  keeps all its rows, without the references. DNS records, metrics, users and the audit log
  are left as they are, so the DNS records of the removed instances stay.
\<close>

theorem node_removal_cascades:
  fixes i :: string
  assumes "db_ok d"
  defines "d' \<equiv> DeleteNode i d"
  shows "GetNode i d' = Inl NoRows \<and>
    instances d' = filter (\<lambda>x. iNodeID x \<noteq> i) (instances d) \<and>
    at_rows (backups d') = filter (\<lambda>b. bInstanceID b \<in> instance_ids d') (at_rows (backups d)) \<and>
    at_rows (instance_networks d') =
      filter (\<lambda>x. xInstanceID x \<in> instance_ids d') (at_rows (instance_networks d)) \<and>
    map (\<lambda>r. (rID r, rFilePath r, rStatus r)) (at_rows (sync_history d')) =
      map (\<lambda>r. (rID r, rFilePath r, rStatus r)) (at_rows (sync_history d)) \<and>
    (\<forall>r \<in> set (at_rows (sync_history d')). rNodeID r \<noteq> Some i) \<and>
    dns_records d' = dns_records d \<and> instance_metrics d' = instance_metrics d \<and>
    users d' = users d \<and> audit_logs d' = audit_logs d \<and> db_ok d'"
proof -
  let ?p = "\<lambda>inst. iNodeID inst = i"
  have ids: "instance_ids d' = instance_ids (delete_instances ?p d)"
    by (simp add: d'_def DeleteNode_def Let_def instance_ids_def)
  let ?gone = "set (map iID (filter ?p (instances d)))"
  have mem: "x \<in> instance_ids d \<Longrightarrow> x \<in> instance_ids d' \<longleftrightarrow> x \<notin> ?gone" for x
    unfolding ids by (rule delete_instances_rows [OF assms(1)])
  have "instances d' = filter (\<lambda>x. iNodeID x \<noteq> i) (instances d)"
    by (simp add: d'_def DeleteNode_def Let_def delete_instances_def row_delete_def)
  moreover have "at_rows (backups d') = filter (\<lambda>b. bInstanceID b \<in> instance_ids d') (at_rows (backups d))"
  proof -
    have "at_rows (backups d') = filter (\<lambda>b. bInstanceID b \<notin> ?gone) (at_rows (backups d))"
      by (simp add: d'_def DeleteNode_def Let_def delete_instances_def row_delete_def)
    also have "\<dots> = filter (\<lambda>b. bInstanceID b \<in> instance_ids d') (at_rows (backups d))"
      by (rule filter_cong [OF refl]) (use mem db_ok_refs(4) [OF assms(1)] in blast)
    finally show ?thesis .
  qed
  moreover have "at_rows (instance_networks d') =
      filter (\<lambda>x. xInstanceID x \<in> instance_ids d') (at_rows (instance_networks d))"
  proof -
    have "at_rows (instance_networks d') =
        filter (\<lambda>x. xInstanceID x \<notin> ?gone) (at_rows (instance_networks d))"
      by (simp add: d'_def DeleteNode_def Let_def delete_instances_def row_delete_def)
    also have "\<dots> = filter (\<lambda>x. xInstanceID x \<in> instance_ids d') (at_rows (instance_networks d))"
      by (rule filter_cong [OF refl]) (use mem db_ok_refs(6) [OF assms(1)] in blast)
    finally show ?thesis .
  qed
  moreover have "map (\<lambda>r. (rID r, rFilePath r, rStatus r)) (at_rows (sync_history d')) =
      map (\<lambda>r. (rID r, rFilePath r, rStatus r)) (at_rows (sync_history d))"
    by (simp add: d'_def DeleteNode_def Let_def delete_instances_def map_row_update)
  moreover have "\<forall>r \<in> set (at_rows (sync_history d')). rNodeID r \<noteq> Some i"
    by (auto simp: d'_def DeleteNode_def Let_def set_row_update)
  moreover have "GetNode i d' = Inl NoRows"
    using node_store.delete_get [OF assms(1), of i i] by (simp add: d'_def)
  moreover have "dns_records d' = dns_records d" "instance_metrics d' = instance_metrics d"
    "users d' = users d" "audit_logs d' = audit_logs d"
    by (simp_all add: d'_def DeleteNode_def Let_def delete_instances_def)
  moreover have "db_ok d'"
    using DeleteNode_ok [OF assms(1)] by (simp add: d'_def)
  ultimately show ?thesis by simp
qed

theorem node_removal_cascades_witness:
  "db_ok backup_db \<and> instances (DeleteNode ''n1'' backup_db) = [] \<and>
   at_rows (backups (DeleteNode ''n1'' backup_db)) = []"
  using backup_db_ok node_removal_cascades [OF backup_db_ok, of "''n1''"]
  by (simp add: backup_db_def demo_db_def demo_instance_def instance_ids_def new_instance_def
      default_type_def)

section \<open>Replacing the targets of a mapping\<close>

fun new_targets :: "instant \<Rightarrow> int \<Rightarrow> int \<Rightarrow> SyncTarget list \<Rightarrow> SyncTarget list" where
  "new_targets now m k [] = []"
| "new_targets now m k (t # ts) =
     (bulk_target m t)\<lparr>tID := k + 1, tCreatedAt := current_timestamp now\<rparr> # new_targets now m (k + 1) ts"

lemma bulk_insert_rows:
  assumes "m \<in> mID ` set (at_rows (sync_mappings d))"
  shows "\<exists>d'. bulk_insert now m ts d = Inr d' \<and> at_rows (sync_targets d') =
    at_rows (sync_targets d) @ new_targets now m (at_seq (sync_targets d)) ts"
  using assms
proof (induction ts arbitrary: d)
  case (Cons t ts)
  define d1 where "d1 = d\<lparr>sync_targets := auto_insert
      (\<lambda>i. (bulk_target m t)\<lparr>tID := i, tCreatedAt := current_timestamp now\<rparr>) (sync_targets d)\<rparr>"
  have "CreateSyncTarget now (bulk_target m t) d = Inr d1"
    using Cons.prems by (simp add: CreateSyncTarget_def d1_def bulk_target_def)
  moreover have "m \<in> mID ` set (at_rows (sync_mappings d1))"
    using Cons.prems by (simp add: d1_def)
  ultimately show ?case
    using Cons.IH [of d1] by (auto simp: d1_def auto_insert_def)
qed simp

lemma bulk_insert_no_mapping:
  "m \<notin> mID ` set (at_rows (sync_mappings d)) \<Longrightarrow> ts \<noteq> [] \<Longrightarrow>
   bulk_insert now m ts d = Inl ForeignKeyFailed"
  by (cases ts) (auto simp: CreateSyncTarget_def bulk_target_def)

lemma new_targets_sorted: "t \<in> set (new_targets now m k ts) \<Longrightarrow> k < tID t"
  by (induction ts arbitrary: k) (auto, fastforce)

lemma order_new_targets: "order_by tID (new_targets now m k ts) = new_targets now m k ts"
proof -
  have "sorted (map tID (new_targets now m k ts))"
    by (induction ts arbitrary: k) (auto dest: new_targets_sorted)
  then show ?thesis by (simp add: order_by_def sorted_sort_id sort_key_id_if_sorted)
qed

lemma new_targets_mapping: "filter (\<lambda>t. tMappingID t = m') (new_targets now m k ts) =
    (if m' = m then new_targets now m k ts else [])"
  by (induction ts arbitrary: k) (auto simp: bulk_target_def)

lemma new_targets_content:
  "map (\<lambda>t. (tMappingID t, tAgentID t, tInstanceID t, tDestPath t, tEnabled t)) (new_targets now m k ts) =
   map (\<lambda>t. (m, tAgentID t, tInstanceID t, if tDestPath t = '''' then ''.'' else tDestPath t, tEnabled t)) ts"
  by (induction ts arbitrary: k) (auto simp: bulk_target_def)

text \<open>
  Replacing the targets of a mapping is all or nothing. For a mapping that exists it
  succeeds, and listing the targets then gives the new ones in the given order, an empty
  destination path replaced by the work directory, while the targets of other mappings are
  untouched. For a mapping that does not exist it is refused if any target is given, and
  the database is as before.
\<close>

theorem bulk_targets_atomic:
  fixes now m ts d
  defines "d' \<equiv> fst (BulkSetSyncTargets now m ts d)"
    and "err \<equiv> snd (BulkSetSyncTargets now m ts d)"
  shows "(if m \<in> mID ` set (at_rows (sync_mappings d))
     then err = None \<and>
       map (\<lambda>t. (tMappingID t, tAgentID t, tInstanceID t, tDestPath t, tEnabled t)) (ListSyncTargets m d') =
       map (\<lambda>t. (m, tAgentID t, tInstanceID t, if tDestPath t = '''' then ''.'' else tDestPath t, tEnabled t)) ts \<and>
       (\<forall>m'. m' = m \<or> ListSyncTargets m' d' = ListSyncTargets m' d)
     else ts = [] \<or> err = Some ForeignKeyFailed \<and> d' = d)"
proof (cases "m \<in> mID ` set (at_rows (sync_mappings d))")
  case True
  define d0 where "d0 = d\<lparr>sync_targets := auto_delete (\<lambda>t. tMappingID t = m) (sync_targets d)\<rparr>"
  have "m \<in> mID ` set (at_rows (sync_mappings d0))"
    using True by (simp add: d0_def)
  from bulk_insert_rows [OF this] obtain d1 where d1: "bulk_insert now m ts d0 = Inr d1"
    "at_rows (sync_targets d1) = at_rows (sync_targets d0) @ new_targets now m (at_seq (sync_targets d0)) ts"
    by blast
  have res: "d' = d1" "err = None"
    using d1(1) by (simp_all add: d'_def err_def BulkSetSyncTargets_def d0_def)
  have "ListSyncTargets m d1 = new_targets now m (at_seq (sync_targets d0)) ts"
    using d1(2)
    by (simp add: ListSyncTargets_def new_targets_mapping order_new_targets d0_def row_delete_def)
  moreover have "ListSyncTargets m' d1 = ListSyncTargets m' d" if "m' \<noteq> m" for m'
  proof -
    have "filter (\<lambda>t. tMappingID t = m') (at_rows (sync_targets d0)) =
        filter (\<lambda>t. tMappingID t = m') (at_rows (sync_targets d))"
      using that by (auto simp: d0_def row_delete_def intro!: filter_cong)
    then show ?thesis
      using d1(2) that by (simp add: ListSyncTargets_def new_targets_mapping)
  qed
  ultimately show ?thesis
    using True res by (simp add: new_targets_content) blast
next
  case False
  then show ?thesis
    using bulk_insert_no_mapping [of m "d\<lparr>sync_targets := auto_delete (\<lambda>t. tMappingID t = m) (sync_targets d)\<rparr>" ts]
    by (cases "ts = []") (auto simp: d'_def err_def BulkSetSyncTargets_def)
qed

section \<open>JVM arguments\<close>

text \<open>
  JVM arguments that are trimmed, not empty and without a line break are read back
  exactly as they were set, in order; whatever the stored text, reading never yields an
  empty argument.
\<close>

theorem jvm_args_roundtrip:
  assumes "\<forall>a \<in> set args. a \<noteq> '''' \<and> trim_space a = a \<and> CHR 0x0A \<notin> set a"
  shows "JVMArgsList (SetJVMArgsList args i) = args \<and> '''' \<notin> set (JVMArgsList j)"
proof (cases "args = []")
  case True
  then show ?thesis by (simp add: JVMArgsList_def SetJVMArgsList_def)
next
  case False
  have s: "split_on (CHR 0x0A) (str_join [CHR 0x0A] args) = args"
    using False assms by (simp add: split_on_str_join)
  have "str_join [CHR 0x0A] args \<noteq> ''''"
    using s False assms by (metis split_on.simps(1) list.set_intros(1))
  moreover have "filter (\<lambda>a. a \<noteq> '''') (map trim_space args) = args"
    using assms by (simp add: map_idI filter_id_conv)
  ultimately show ?thesis using s by (simp add: JVMArgsList_def SetJVMArgsList_def)
qed

theorem jvm_args_roundtrip_witness:
  "JVMArgsList (SetJVMArgsList [''-Xss1M'', ''-Dfile.encoding=UTF-8''] (demo_instance ''mc'' ''n1'')) =
     [''-Xss1M'', ''-Dfile.encoding=UTF-8'']"
proof -
  have "\<forall>a \<in> set [''-Xss1M'', ''-Dfile.encoding=UTF-8'']. a \<noteq> '''' \<and> trim_space a = a \<and> CHR 0x0A \<notin> set a"
    by code_simp
  then show ?thesis by (rule jvm_args_roundtrip [THEN conjunct1])
qed

end
