(* ===== verification/Master_Registry.thy ===== *)
theory Master_Registry
  imports Store_Properties File_Sync
begin

text \<open>
  The master's view of its agents (\<^verbatim>\<open>server.go\<close>, \<^verbatim>\<open>metrics_cache.go\<close> and
  \<^verbatim>\<open>grpc_agent_service.go\<close>): the connected agents, the owner of each instance, the caches
  of metrics, the registry of the sync engine and the database, changed by registrations,
  heartbeats and the periodic health check. Each handler holds the locks it takes for its
  whole effect on a map, so a run of the master is a sequence of these operations.
  Percentages are exact rationals; Go rounds them to \<^verbatim>\<open>float64\<close>.
\<close>

record ConnectedAgent =
  caID :: string
  caName :: string
  caAddress :: string
  caLastSeen :: instant
  caStatus :: string

record CachedInstanceMetrics =
  ciCPUPercent :: rat
  ciMemoryUsedMB :: int
  ciMemoryLimitMB :: int
  ciNetRxBytes :: int
  ciNetTxBytes :: int
  ciBlockReadBytes :: int
  ciBlockWriteBytes :: int
  ciUpdatedAt :: instant

record CachedNodeMetrics =
  cnCPUPercent :: rat
  cnMemPercent :: rat
  cnMemUsedMB :: int
  cnMemTotalMB :: int
  cnDiskPercent :: rat
  cnDiskUsedMB :: int
  cnDiskTotalMB :: int
  cnUpdatedAt :: instant

record GRPCServer =
  gsDB :: DB
  gsSync :: sync_agents
  gsAgents :: "(string, ConnectedAgent) gomap"
  gsOwners :: "(string, string) gomap"
  gsNodeMetrics :: "(string, CachedNodeMetrics) gomap"
  gsInstMetrics :: "(string, CachedInstanceMetrics) gomap"

definition NewGRPCServer :: "DB \<Rightarrow> GRPCServer" where
  "NewGRPCServer d =
     \<lparr>gsDB = d, gsSync = [], gsAgents = [], gsOwners = [], gsNodeMetrics = [], gsInstMetrics = []\<rparr>"

section \<open>Agents\<close>

definition GetAgent :: "string \<Rightarrow> GRPCServer \<Rightarrow> ConnectedAgent option" where
  "GetAgent i s = map_get (gsAgents s) i"

definition ListAgents :: "GRPCServer \<Rightarrow> ConnectedAgent list" where
  "ListAgents s = map snd (gsAgents s)"

definition ListAgentIDs :: "GRPCServer \<Rightarrow> string list" where
  "ListAgentIDs s = map fst (gsAgents s)"

definition IsAgentOnline :: "string \<Rightarrow> GRPCServer \<Rightarrow> bool" where
  "IsAgentOnline i s =
     (case map_get (gsAgents s) i of None \<Rightarrow> False | Some a \<Rightarrow> caStatus a = ''online'')"

definition GetAgentAddress :: "string \<Rightarrow> GRPCServer \<Rightarrow> string option" where
  "GetAgentAddress i s = map_option caAddress (map_get (gsAgents s) i)"

text \<open>A node as \<^verbatim>\<open>UpsertNode\<close> gets it; the other fields are zero and not written.\<close>

definition node_row :: "string \<Rightarrow> string \<Rightarrow> string \<Rightarrow> int \<Rightarrow> int \<Rightarrow> string \<Rightarrow> Node" where
  "node_row i name address cores mem osInfo =
     \<lparr>nID = i, nName = name, nAddress = address, nStatus = ''online'', nCPUCores = cores,
      nMemoryMB = mem, nOSInfo = osInfo, nCreatedAt = 0, nUpdatedAt = 0, nWGPublicKey = '''',
      nWGPrivateKey = '''', nWGAddress = '''', nWGEndpoint = '''', nWGListenPort = 0,
      nDockerSubnet = ''''\<rparr>"

definition RegisterAgentConnection ::
  "instant \<Rightarrow> string \<Rightarrow> string \<Rightarrow> string \<Rightarrow> GRPCServer \<Rightarrow> GRPCServer" where
  "RegisterAgentConnection now i name address s =
     s\<lparr>gsAgents := map_put i \<lparr>caID = i, caName = name, caAddress = address, caLastSeen = now,
                             caStatus = ''online''\<rparr> (gsAgents s),
       gsSync := RegisterAgent \<lparr>taID = i, taName = name, taAddress = address\<rparr> (gsSync s),
       gsDB := UpsertNode now (node_row i name address 0 0 '''') (gsDB s)\<rparr>"

definition UpdateAgentHeartbeat :: "instant \<Rightarrow> string \<Rightarrow> GRPCServer \<Rightarrow> GRPCServer" where
  "UpdateAgentHeartbeat now i s =
     s\<lparr>gsAgents := (case map_get (gsAgents s) i of
          None \<Rightarrow> gsAgents s
        | Some a \<Rightarrow> map_put i (a\<lparr>caLastSeen := now, caStatus := ''online''\<rparr>) (gsAgents s)),
       gsDB := UpdateNodeStatus now i ''online'' (gsDB s)\<rparr>"

text \<open>One pass of \<^verbatim>\<open>healthCheckLoop\<close>.\<close>

definition agent_timeout :: duration where
  "agent_timeout = 90 * second_ns"

definition mark_offline :: "instant \<Rightarrow> string \<Rightarrow> DB \<Rightarrow> DB" where
  "mark_offline now i d =
     (let d1 = UpdateNodeStatus now i ''offline'' d in
      fold (\<lambda>inst. UpdateInstanceStatus now (iID inst) ''offline'' None) (ListInstances i d1) d1)"

definition check_agent :: "instant \<Rightarrow> string \<times> ConnectedAgent \<Rightarrow> GRPCServer \<Rightarrow> GRPCServer" where
  "check_agent now p s =
     (if agent_timeout < now - caLastSeen (snd p)
      then s\<lparr>gsAgents := map_put (fst p) ((snd p)\<lparr>caStatus := ''offline''\<rparr>) (gsAgents s),
             gsDB := mark_offline now (fst p) (gsDB s),
             gsSync := UnregisterAgent (fst p) (gsSync s)\<rparr>
      else s)"

definition healthCheck :: "instant \<Rightarrow> GRPCServer \<Rightarrow> GRPCServer" where
  "healthCheck now s = fold (check_agent now) (gsAgents s) s"

definition instanceMetricsPrune :: "instant \<Rightarrow> GRPCServer \<Rightarrow> GRPCServer" where
  "instanceMetricsPrune now s = s\<lparr>gsDB := fst (PruneInstanceMetrics now (24 * hour_ns) (gsDB s))\<rparr>"

section \<open>Caches\<close>

definition UpdateNodeMetrics :: "instant \<Rightarrow> string \<Rightarrow> CachedNodeMetrics \<Rightarrow> GRPCServer \<Rightarrow> GRPCServer" where
  "UpdateNodeMetrics now i m s =
     s\<lparr>gsNodeMetrics := map_put i (m\<lparr>cnUpdatedAt := now\<rparr>) (gsNodeMetrics s)\<rparr>"

definition GetNodeMetrics :: "string \<Rightarrow> GRPCServer \<Rightarrow> CachedNodeMetrics option" where
  "GetNodeMetrics i s = map_get (gsNodeMetrics s) i"

definition UpdateInstanceMetrics ::
  "instant \<Rightarrow> string \<Rightarrow> CachedInstanceMetrics \<Rightarrow> GRPCServer \<Rightarrow> GRPCServer" where
  "UpdateInstanceMetrics now i m s =
     s\<lparr>gsInstMetrics := map_put i (m\<lparr>ciUpdatedAt := now\<rparr>) (gsInstMetrics s)\<rparr>"

definition GetInstanceMetrics :: "string \<Rightarrow> GRPCServer \<Rightarrow> CachedInstanceMetrics option" where
  "GetInstanceMetrics i s = map_get (gsInstMetrics s) i"

definition UpdateInstanceOwner :: "string \<Rightarrow> string \<Rightarrow> GRPCServer \<Rightarrow> GRPCServer" where
  "UpdateInstanceOwner i agentID s = s\<lparr>gsOwners := map_put i agentID (gsOwners s)\<rparr>"

definition GetInstanceOwner :: "string \<Rightarrow> GRPCServer \<Rightarrow> string option" where
  "GetInstanceOwner i s = map_get (gsOwners s) i"

section \<open>Instance states on the wire\<close>

datatype InstanceState =
    INSTANCE_STATE_UNKNOWN | INSTANCE_STATE_STOPPED | INSTANCE_STATE_STARTING
  | INSTANCE_STATE_RUNNING | INSTANCE_STATE_STOPPING | INSTANCE_STATE_CRASHED

fun instanceStateToString :: "InstanceState \<Rightarrow> string" where
  "instanceStateToString INSTANCE_STATE_STOPPED = ''stopped''"
| "instanceStateToString INSTANCE_STATE_STARTING = ''starting''"
| "instanceStateToString INSTANCE_STATE_RUNNING = ''running''"
| "instanceStateToString INSTANCE_STATE_STOPPING = ''stopping''"
| "instanceStateToString INSTANCE_STATE_CRASHED = ''crashed''"
| "instanceStateToString INSTANCE_STATE_UNKNOWN = ''unknown''"

definition stringToInstanceState :: "string \<Rightarrow> InstanceState" where
  "stringToInstanceState s =
     (if s = ''stopped'' then INSTANCE_STATE_STOPPED
      else if s = ''starting'' then INSTANCE_STATE_STARTING
      else if s = ''running'' then INSTANCE_STATE_RUNNING
      else if s = ''stopping'' then INSTANCE_STATE_STOPPING
      else if s = ''crashed'' then INSTANCE_STATE_CRASHED
      else INSTANCE_STATE_UNKNOWN)"

section \<open>What an agent is told to run\<close>

record InstanceConfig =
  icInstanceId :: string
  icName :: string
  icPort :: int
  icMemoryMin :: string
  icMemoryMax :: string
  icServerJar :: string
  icWorkDir :: string
  icJavaPath :: string
  icAutoStart :: bool
  icAutoRestart :: bool
  icRestartDelaySec :: int
  icStopCommand :: string
  icJvmArgs :: "string list"
  icAcceptEula :: bool
  icInstanceType :: string
  icServiceVersion :: string
  icJavaVersion :: string
  icCustomDockerfile :: string
  icCustomCompose :: string
  icNetworkName :: string
  icDockerMemory :: string
  icDockerCpus :: string

text \<open>The conversion \<^verbatim>\<open>int32(x)\<close>.\<close>

definition wrap32 :: "int \<Rightarrow> int" where
  "wrap32 x = (x + 2 ^ 31) mod 2 ^ 32 - 2 ^ 31"

definition network_name :: "string \<Rightarrow> DB \<Rightarrow> string" where
  "network_name i d =
     (case ListInstanceNetworks i d of
        [] \<Rightarrow> ''''
      | x # xs \<Rightarrow> (case GetNetwork (xNetworkID x) d of Inl e \<Rightarrow> '''' | Inr n \<Rightarrow> wName n))"

definition instance_config :: "DB \<Rightarrow> Instance \<Rightarrow> InstanceConfig" where
  "instance_config d inst =
     \<lparr>icInstanceId = iID inst, icName = iName inst, icPort = wrap32 (iPort inst),
      icMemoryMin = iMemoryMin inst, icMemoryMax = iMemoryMax inst, icServerJar = iServerJar inst,
      icWorkDir = iWorkDir inst, icJavaPath = iJavaPath inst, icAutoStart = iAutoStart inst,
      icAutoRestart = iAutoRestart inst, icRestartDelaySec = wrap32 (iRestartDelaySec inst),
      icStopCommand = iStopCommand inst, icJvmArgs = JVMArgsList inst,
      icAcceptEula = iAcceptEULA inst,
      icInstanceType = (if iInstanceType inst = '''' then ''minecraft'' else iInstanceType inst),
      icServiceVersion = iServiceVersion inst, icJavaVersion = iJavaVersion inst,
      icCustomDockerfile = iCustomDockerfile inst, icCustomCompose = iCustomCompose inst,
      icNetworkName = network_name (iID inst) d, icDockerMemory = iDockerMemory inst,
      icDockerCpus = iDockerCPUs inst\<rparr>"

definition buildAssignedInstances :: "string \<Rightarrow> DB \<Rightarrow> InstanceConfig list" where
  "buildAssignedInstances agentID d = map (instance_config d) (ListInstances agentID d)"

section \<open>Registration and heartbeat\<close>

record RegisterAgentRequest =
  raAgentId :: string
  raName :: string
  raAddress :: string
  raCpuCores :: int
  raMemoryMb :: int
  raOsInfo :: string

definition remove_stale :: "RegisterAgentRequest \<Rightarrow> DB \<Rightarrow> DB" where
  "remove_stale req d =
     fold (\<lambda>n. if nName n = raName req \<and> nID n \<noteq> raAgentId req then DeleteNode (nID n) else id)
       (ListNodes d) d"

definition svc_RegisterAgent ::
  "instant \<Rightarrow> RegisterAgentRequest \<Rightarrow> GRPCServer \<Rightarrow> GRPCServer \<times> InstanceConfig list" where
  "svc_RegisterAgent now req s =
     (let s1 = s\<lparr>gsDB := remove_stale req (gsDB s)\<rparr>;
          s2 = RegisterAgentConnection now (raAgentId req) (raName req) (raAddress req) s1;
          s3 = s2\<lparr>gsDB := UpsertNode now (node_row (raAgentId req) (raName req) (raAddress req)
                   (raCpuCores req) (raMemoryMb req) (raOsInfo req)) (gsDB s2)\<rparr>
      in (s3, buildAssignedInstances (raAgentId req) (gsDB s3)))"

record InstanceStatus =
  isInstanceId :: string
  isState :: InstanceState
  isCpuPercent :: rat
  isMemoryUsedMb :: int
  isMemoryLimitMb :: int
  isNetRxBytes :: int
  isNetTxBytes :: int
  isBlockReadBytes :: int
  isBlockWriteBytes :: int

record AgentStatus =
  asCpuUsagePercent :: rat
  asMemoryUsagePercent :: rat
  asMemoryUsedMb :: int
  asMemoryTotalMb :: int
  asDiskTotalMb :: int
  asDiskUsedMb :: int

record HeartbeatRequest =
  hrAgentId :: string
  hrInstances :: "InstanceStatus list"
  hrStatus :: "AgentStatus option"

definition cached_metrics :: "InstanceStatus \<Rightarrow> CachedInstanceMetrics" where
  "cached_metrics i =
     \<lparr>ciCPUPercent = isCpuPercent i, ciMemoryUsedMB = isMemoryUsedMb i,
      ciMemoryLimitMB = isMemoryLimitMb i, ciNetRxBytes = isNetRxBytes i,
      ciNetTxBytes = isNetTxBytes i, ciBlockReadBytes = isBlockReadBytes i,
      ciBlockWriteBytes = isBlockWriteBytes i, ciUpdatedAt = 0\<rparr>"

definition metric_row :: "InstanceStatus \<Rightarrow> InstanceMetricRecord" where
  "metric_row i =
     \<lparr>kID = 0, kInstanceID = isInstanceId i, kCPUPercent = isCpuPercent i,
      kMemoryUsedMB = isMemoryUsedMb i, kMemoryLimitMB = isMemoryLimitMb i,
      kNetRxBytes = isNetRxBytes i, kNetTxBytes = isNetTxBytes i,
      kBlockReadBytes = isBlockReadBytes i, kBlockWriteBytes = isBlockWriteBytes i,
      kRecordedAt = 0\<rparr>"

definition heartbeat_instance :: "instant \<Rightarrow> string \<Rightarrow> InstanceStatus \<Rightarrow> GRPCServer \<Rightarrow> GRPCServer" where
  "heartbeat_instance now agentID i s =
     (let s1 = UpdateInstanceOwner (isInstanceId i) agentID s;
          s2 = s1\<lparr>gsDB := UpdateInstanceStatus now (isInstanceId i)
                          (instanceStateToString (isState i)) None (gsDB s1)\<rparr>
      in if 0 < isCpuPercent i \<or> 0 < isMemoryUsedMb i
         then let s3 = UpdateInstanceMetrics now (isInstanceId i) (cached_metrics i) s2
              in s3\<lparr>gsDB := InsertInstanceMetrics now (metric_row i) (gsDB s3)\<rparr>
         else s2)"

definition trunc_rat :: "rat \<Rightarrow> int" where
  "trunc_rat r = (if 0 \<le> r then \<lfloor>r\<rfloor> else \<lceil>r\<rceil>)"

definition node_metrics :: "AgentStatus \<Rightarrow> CachedNodeMetrics" where
  "node_metrics st =
     \<lparr>cnCPUPercent = asCpuUsagePercent st, cnMemPercent = asMemoryUsagePercent st,
      cnMemUsedMB = asMemoryUsedMb st,
      cnMemTotalMB = (if asMemoryTotalMb st = 0 \<and> 0 < asMemoryUsagePercent st
        then trunc_rat (of_int (asMemoryUsedMb st) / asMemoryUsagePercent st * 100)
        else asMemoryTotalMb st),
      cnDiskPercent = (if 0 < asDiskTotalMb st
        then of_int (asDiskUsedMb st) / of_int (asDiskTotalMb st) * 100 else 0),
      cnDiskUsedMB = asDiskUsedMb st, cnDiskTotalMB = asDiskTotalMb st, cnUpdatedAt = 0\<rparr>"

text \<open>One message of the stream \<^verbatim>\<open>Heartbeat\<close>, up to the response.\<close>

definition heartbeat ::
  "instant \<Rightarrow> HeartbeatRequest \<Rightarrow> GRPCServer \<Rightarrow> GRPCServer \<times> InstanceConfig list" where
  "heartbeat now req s =
     (let s1 = UpdateAgentHeartbeat now (hrAgentId req) s;
          s2 = fold (heartbeat_instance now (hrAgentId req)) (hrInstances req) s1;
          s3 = (case hrStatus req of
                  None \<Rightarrow> s2
                | Some st \<Rightarrow> UpdateNodeMetrics now (hrAgentId req) (node_metrics st) s2)
      in (s3, buildAssignedInstances (hrAgentId req) (gsDB s3)))"

text \<open>
  \<^verbatim>\<open>ControlInstance\<close> forwards a command to the agent; \<open>call\<close> is the remote call to an
  address, \<open>None\<close> if it fails.
\<close>

datatype control_response = ControlRefused string | ControlReply bool string InstanceState

definition forward_control ::
  "(string \<Rightarrow> (bool \<times> string \<times> InstanceState) option) \<Rightarrow> string \<Rightarrow> GRPCServer \<Rightarrow> control_response" where
  "forward_control call agentID s =
     (case GetAgent agentID s of
        None \<Rightarrow> ControlRefused ''the agent offline''
      | Some a \<Rightarrow> (case call (caAddress a) of
            None \<Rightarrow> ControlRefused ''command forward failed''
          | Some (ok, msg, st) \<Rightarrow> ControlReply ok msg st))"

definition svc_ListInstances :: "string \<Rightarrow> GRPCServer \<Rightarrow> (string \<times> string \<times> InstanceState \<times> string) list" where
  "svc_ListInstances agentID s =
     map (\<lambda>i. (iID i, iName i, stringToInstanceState (iStatus i),
               if iInstanceType i = '''' then ''minecraft'' else iInstanceType i))
       (ListInstances agentID (gsDB s))"

section \<open>The registry stays consistent\<close>

text \<open>
  The sync engine only knows agents that are connected and online, under the address and
  the name they registered with.
\<close>

definition registry_ok :: "GRPCServer \<Rightarrow> bool" where
  "registry_ok s \<longleftrightarrow> map_ok (gsAgents s) \<and> map_ok (gsSync s) \<and> db_ok (gsDB s) \<and>
     (\<forall>i a. map_get (gsAgents s) i = Some a \<longrightarrow> caID a = i) \<and>
     (\<forall>i t. map_get (gsSync s) i = Some t \<longrightarrow> taID t = i \<and>
        (\<exists>a. map_get (gsAgents s) i = Some a \<and> caStatus a = ''online'' \<and>
             caAddress a = taAddress t \<and> caName a = taName t))"

lemma registry_okD:
  assumes "registry_ok s"
  shows "map_ok (gsAgents s)" "map_ok (gsSync s)" "db_ok (gsDB s)"
    "map_get (gsAgents s) i = Some a \<Longrightarrow> caID a = i"
    "map_get (gsSync s) i = Some t \<Longrightarrow> taID t = i \<and>
        (\<exists>a. map_get (gsAgents s) i = Some a \<and> caStatus a = ''online'' \<and>
             caAddress a = taAddress t \<and> caName a = taName t)"
  using assms by (auto simp: registry_ok_def)

lemma registry_ok_db: "registry_ok s \<Longrightarrow> db_ok d \<Longrightarrow> registry_ok (s\<lparr>gsDB := d\<rparr>)"
  by (simp add: registry_ok_def)

lemma registry_ok_caches [simp]:
  "registry_ok (s\<lparr>gsOwners := x\<rparr>) = registry_ok s"
  "registry_ok (s\<lparr>gsNodeMetrics := y\<rparr>) = registry_ok s"
  "registry_ok (s\<lparr>gsInstMetrics := z\<rparr>) = registry_ok s"
  by (simp_all add: registry_ok_def)

lemma RegisterAgentConnection_ok:
  "registry_ok s \<Longrightarrow> registry_ok (RegisterAgentConnection now i name address s)"
  by (auto simp: registry_ok_def RegisterAgentConnection_def RegisterAgent_def UpsertNode_ok
      go_map_simps)

lemma UpdateAgentHeartbeat_ok: "registry_ok s \<Longrightarrow> registry_ok (UpdateAgentHeartbeat now i s)"
  by (fastforce simp: registry_ok_def UpdateAgentHeartbeat_def UpdateNodeStatus_ok go_map_simps
      split: option.splits)

lemma fold_db_ok: "(\<And>x d. db_ok d \<Longrightarrow> db_ok (f x d)) \<Longrightarrow> db_ok d \<Longrightarrow> db_ok (fold f xs d)"
  by (induction xs arbitrary: d) auto

lemma mark_offline_ok: "db_ok d \<Longrightarrow> db_ok (mark_offline now i d)"
  by (simp add: mark_offline_def Let_def fold_db_ok UpdateInstanceStatus_ok UpdateNodeStatus_ok)

lemma check_agent_ok:
  assumes "registry_ok s" and "caID (snd p) = fst p"
  shows "registry_ok (check_agent now p s)"
  using assms
  by (auto simp: registry_ok_def check_agent_def UnregisterAgent_def mark_offline_ok go_map_simps)

lemma fold_check_agent_ok:
  "registry_ok s \<Longrightarrow> \<forall>p \<in> set ps. caID (snd p) = fst p \<Longrightarrow> registry_ok (fold (check_agent now) ps s)"
  by (induction ps arbitrary: s) (auto simp: check_agent_ok)

lemma registry_ids: "registry_ok s \<Longrightarrow> \<forall>p \<in> set (gsAgents s). caID (snd p) = fst p"
  by (auto simp: registry_ok_def map_get_in_iff)

lemma healthCheck_ok: "registry_ok s \<Longrightarrow> registry_ok (healthCheck now s)"
  by (simp add: healthCheck_def fold_check_agent_ok registry_ids)

lemma heartbeat_instance_ok: "registry_ok s \<Longrightarrow> registry_ok (heartbeat_instance now a i s)"
  by (auto simp: heartbeat_instance_def Let_def UpdateInstanceOwner_def UpdateInstanceMetrics_def
      intro!: registry_ok_db InsertInstanceMetrics_ok UpdateInstanceStatus_ok registry_okD)

lemma fold_heartbeat_instance_ok: "registry_ok s \<Longrightarrow> registry_ok (fold (heartbeat_instance now a) is s)"
  by (induction "is" arbitrary: s) (auto simp: heartbeat_instance_ok)

lemma heartbeat_ok: "registry_ok s \<Longrightarrow> registry_ok (fst (heartbeat now req s))"
  by (auto simp: heartbeat_def Let_def UpdateNodeMetrics_def fold_heartbeat_instance_ok
      UpdateAgentHeartbeat_ok split: option.splits)

lemma remove_stale_ok: "db_ok d \<Longrightarrow> db_ok (remove_stale req d)"
  by (auto simp: remove_stale_def intro!: fold_db_ok DeleteNode_ok)

lemma svc_RegisterAgent_ok: "registry_ok s \<Longrightarrow> registry_ok (fst (svc_RegisterAgent now req s))"
  by (auto simp: svc_RegisterAgent_def Let_def
      intro!: registry_ok_db RegisterAgentConnection_ok UpsertNode_ok remove_stale_ok registry_okD)

inductive registry_step :: "GRPCServer \<Rightarrow> GRPCServer \<Rightarrow> bool" where
  register: "registry_step s (fst (svc_RegisterAgent now req s))"
| beat: "registry_step s (fst (heartbeat now hreq s))"
| health: "registry_step s (healthCheck now s)"
| prune: "registry_step s (instanceMetricsPrune now s)"
| store: "store_step (gsDB s) d \<Longrightarrow> registry_step s (s\<lparr>gsDB := d\<rparr>)"

lemma registry_step_ok: "registry_step s s' \<Longrightarrow> registry_ok s \<Longrightarrow> registry_ok s'"
  by (induction rule: registry_step.induct)
    (auto simp: svc_RegisterAgent_ok heartbeat_ok healthCheck_ok instanceMetricsPrune_def
      intro!: registry_ok_db PruneInstanceMetrics_ok registry_okD elim: store_step_ok)

lemma registry_ok_new: "registry_ok (NewGRPCServer (migrated_db t0))"
  by (simp add: registry_ok_def NewGRPCServer_def migrated_db_ok)

text \<open>
  C2. In every state the master reaches from its start through registrations, heartbeats,
  health checks and changes of the database, an agent the sync engine delivers files to is
  connected and online with the same name and address, and the database is consistent.
\<close>

theorem registry_consistent:
  assumes "registry_step\<^sup>*\<^sup>* (NewGRPCServer (migrated_db t0)) s"
    and "t \<in> set (map snd (gsSync s))"
  shows "db_ok (gsDB s) \<and> IsAgentOnline (taID t) s \<and> GetAgentAddress (taID t) s = Some (taAddress t)"
proof -
  have "registry_ok s"
    using assms(1)
    by (induction rule: rtranclp_induct) (simp_all add: registry_ok_new registry_step_ok)
  obtain i where "(i, t) \<in> set (gsSync s)"
    using assms(2) by auto
  then have "map_get (gsSync s) i = Some t"
    using map_get_in_iff [OF registry_okD(2) [OF \<open>registry_ok s\<close>]] by simp
  from registry_okD(5) [OF \<open>registry_ok s\<close> this] show ?thesis
    using registry_okD(3) [OF \<open>registry_ok s\<close>]
    by (auto simp: IsAgentOnline_def GetAgentAddress_def)
qed

definition demo_request :: "string \<Rightarrow> RegisterAgentRequest" where
  "demo_request i = \<lparr>raAgentId = i, raName = ''alpha'', raAddress = ''10.0.0.5:9091'',
     raCpuCores = 8, raMemoryMb = 16384, raOsInfo = ''linux/amd64''\<rparr>"

theorem registry_consistent_witness:
  "(let s = fst (svc_RegisterAgent 0 (demo_request ''n1'') (NewGRPCServer (migrated_db 0)))
    in registry_step\<^sup>*\<^sup>* (NewGRPCServer (migrated_db 0)) s \<and> gsSync s \<noteq> [] \<and> IsAgentOnline ''n1'' s)"
proof -
  let ?s = "fst (svc_RegisterAgent 0 (demo_request ''n1'') (NewGRPCServer (migrated_db 0)))"
  have r: "registry_step\<^sup>*\<^sup>* (NewGRPCServer (migrated_db 0)) ?s"
    by (rule r_into_rtranclp) (rule registry_step.register)
  have sync: "map snd (gsSync ?s) = [\<lparr>taID = ''n1'', taName = ''alpha'', taAddress = ''10.0.0.5:9091''\<rparr>]"
    by (simp add: svc_RegisterAgent_def Let_def RegisterAgentConnection_def RegisterAgent_def
        NewGRPCServer_def demo_request_def)
  then have "IsAgentOnline ''n1'' ?s"
    using registry_consistent [OF r, of "\<lparr>taID = ''n1'', taName = ''alpha'', taAddress = ''10.0.0.5:9091''\<rparr>"]
    by simp
  moreover have "gsSync ?s \<noteq> []" using sync by auto
  ultimately show ?thesis using r by (simp add: Let_def)
qed

section \<open>Registration\<close>

lemma DeleteNode_nodes [simp]: "nodes (DeleteNode i d) = filter (\<lambda>n. nID n \<noteq> i) (nodes d)"
  by (simp add: DeleteNode_def Let_def delete_instances_def row_delete_def)

lemma DeleteNode_instances [simp]:
  "instances (DeleteNode i d) = filter (\<lambda>x. iNodeID x \<noteq> i) (instances d)"
  by (simp add: DeleteNode_def Let_def delete_instances_def row_delete_def)

lemma UpsertNode_instances [simp]: "instances (UpsertNode now n d) = instances d"
  by (simp add: UpsertNode_def)

definition stale_ids :: "RegisterAgentRequest \<Rightarrow> DB \<Rightarrow> string set" where
  "stale_ids req d = {nID n | n. n \<in> set (nodes d) \<and> nName n = raName req \<and> nID n \<noteq> raAgentId req}"

lemma fold_remove_stale:
  "instances (fold (\<lambda>n. if P n then DeleteNode (nID n) else id) ns d) =
     filter (\<lambda>x. \<forall>n \<in> set ns. P n \<longrightarrow> iNodeID x \<noteq> nID n) (instances d)"
  by (induction ns arbitrary: d) (auto intro!: filter_cong)

lemma remove_stale_instances:
  "instances (remove_stale req d) = filter (\<lambda>x. iNodeID x \<notin> stale_ids req d) (instances d)"
  unfolding remove_stale_def fold_remove_stale
  by (rule filter_cong) (auto simp: stale_ids_def ListNodes_def)

lemma svc_RegisterAgent_instances:
  "instances (gsDB (fst (svc_RegisterAgent now req s))) =
     filter (\<lambda>x. iNodeID x \<notin> stale_ids req (gsDB s)) (instances (gsDB s))"
  by (simp add: svc_RegisterAgent_def Let_def RegisterAgentConnection_def remove_stale_instances)

text \<open>
  Registering an agent makes it known and online and keeps every instance, except those
  of other nodes with the same name: an agent that comes back under a new identifier loses
  all its instances, which are deleted from the database with their backup records, and
  starts with an empty list.
\<close>

theorem registration_effect:
  fixes now :: instant
  assumes "registry_ok s" and "raAgentId req \<noteq> ''''"
  defines "s' \<equiv> fst (svc_RegisterAgent now req s)"
    and "stale \<equiv> {nID n | n. n \<in> set (nodes (gsDB s)) \<and> nName n = raName req \<and> nID n \<noteq> raAgentId req}"
  shows "IsAgentOnline (raAgentId req) s' \<and> GetAgentAddress (raAgentId req) s' = Some (raAddress req) \<and>
    instances (gsDB s') = filter (\<lambda>x. iNodeID x \<notin> stale) (instances (gsDB s)) \<and>
    (\<forall>b \<in> set (at_rows (backups (gsDB s'))). \<exists>x \<in> set (instances (gsDB s')). iID x = bInstanceID b) \<and>
    set (map icInstanceId (snd (svc_RegisterAgent now req s))) =
      {iID x | x. x \<in> set (instances (gsDB s)) \<and> iNodeID x = raAgentId req}"
proof -
  have insts: "instances (gsDB s') = filter (\<lambda>x. iNodeID x \<notin> stale) (instances (gsDB s))"
    using svc_RegisterAgent_instances [of now req s] by (simp add: s'_def stale_def stale_ids_def)
  have "registry_ok s'"
    using assms(1) by (simp add: s'_def svc_RegisterAgent_ok)
  then have "\<forall>b \<in> set (at_rows (backups (gsDB s'))). \<exists>x \<in> set (instances (gsDB s')). iID x = bInstanceID b"
    using db_ok_refs(4) [OF registry_okD(3)] by (fastforce simp: instance_ids_def)
  moreover have "set (map icInstanceId (snd (svc_RegisterAgent now req s))) =
      iID ` set (ListInstances (raAgentId req) (gsDB s'))"
    by (simp add: svc_RegisterAgent_def s'_def Let_def buildAssignedInstances_def instance_config_def
        image_image)
  then have "set (map icInstanceId (snd (svc_RegisterAgent now req s))) =
      {iID x | x. x \<in> set (instances (gsDB s)) \<and> iNodeID x = raAgentId req}"
    using assms(2) insts by (auto simp: ListInstances_def stale_def)
  moreover have "IsAgentOnline (raAgentId req) s'" "GetAgentAddress (raAgentId req) s' = Some (raAddress req)"
    by (simp_all add: s'_def svc_RegisterAgent_def Let_def RegisterAgentConnection_def IsAgentOnline_def
        GetAgentAddress_def go_map_simps)
  ultimately show ?thesis using insts by simp
qed

theorem registration_effect_witness:
  "(let s' = fst (svc_RegisterAgent 1 (demo_request ''n2'') (NewGRPCServer demo_db))
    in instances demo_db \<noteq> [] \<and> instances (gsDB s') = [] \<and> IsAgentOnline ''n2'' s')"
proof -
  have ok: "registry_ok (NewGRPCServer demo_db)"
    using demo_db_ok by (simp add: registry_ok_def NewGRPCServer_def)
  show ?thesis
    using registration_effect [OF ok, of "demo_request ''n2''" 1]
    by (simp add: Let_def demo_request_def NewGRPCServer_def demo_db_def demo_node_def demo_instance_def
        new_node_def new_instance_def default_type_def)
qed

section \<open>The health check\<close>

abbreviation offline_row :: "instant \<Rightarrow> Instance \<Rightarrow> Instance" where
  "offline_row now r \<equiv> r\<lparr>iStatus := ''offline'', iPID := None, iUpdatedAt := current_timestamp now\<rparr>"

lemma fold_UpdateInstanceStatus:
  "instances (fold (\<lambda>inst. UpdateInstanceStatus now (iID inst) ''offline'' None) xs d) =
     map (\<lambda>r. if iID r \<in> iID ` set xs then offline_row now r else r) (instances d)"
proof (induction xs arbitrary: d)
  case (Cons x xs)
  show ?case
    by (simp only: fold_Cons comp_apply Cons.IH) (simp add: UpdateInstanceStatus_def row_update_def)
qed simp

lemma mark_offline_instances:
  assumes "db_ok d" and "i \<noteq> ''''"
  shows "instances (mark_offline now i d) =
    map (\<lambda>r. if iNodeID r = i then offline_row now r else r) (instances d)"
proof -
  let ?d1 = "UpdateNodeStatus now i ''offline'' d"
  have same: "instances ?d1 = instances d" by (simp add: UpdateNodeStatus_def)
  have inj: "inj_on iID (set (instances d))"
    using db_okD(2) [OF assms(1)] by (simp add: distinct_map)
  have "iID r \<in> iID ` set (ListInstances i ?d1) \<longleftrightarrow> iNodeID r = i" if "r \<in> set (instances d)" for r
    using that assms(2) inj by (auto simp: ListInstances_def same inj_on_def)
  then show ?thesis
    by (simp add: mark_offline_def Let_def fold_UpdateInstanceStatus same)
qed

lemma check_agent_fields:
  fixes now :: instant
  assumes "registry_ok s" and "fst p \<noteq> ''''"
  defines "late \<equiv> agent_timeout < now - caLastSeen (snd p)"
  shows "gsAgents (check_agent now p s) =
      (if late then map_put (fst p) ((snd p)\<lparr>caStatus := ''offline''\<rparr>) (gsAgents s) else gsAgents s)"
    and "gsSync (check_agent now p s) = (if late then map_del (fst p) (gsSync s) else gsSync s)"
    and "instances (gsDB (check_agent now p s)) =
      map (\<lambda>r. if iNodeID r = fst p \<and> late then offline_row now r else r) (instances (gsDB s))"
  using mark_offline_instances [OF registry_okD(3) [OF assms(1)] assms(2)]
  by (auto simp: check_agent_def late_def UnregisterAgent_def intro!: map_idI [symmetric])

definition late_ids :: "instant \<Rightarrow> (string, ConnectedAgent) gomap \<Rightarrow> string set" where
  "late_ids now ps = {i. \<exists>a. (i, a) \<in> set ps \<and> agent_timeout < now - caLastSeen a}"

lemma fold_check_agent:
  fixes now :: instant
  assumes "registry_ok s" and "'''' \<notin> fst ` set ps" and "map_ok ps"
    and "\<forall>p \<in> set ps. caID (snd p) = fst p \<and> map_get (gsAgents s) (fst p) = Some (snd p)"
  defines "s' \<equiv> fold (check_agent now) ps s"
  shows "map_get (gsAgents s') i =
      (if i \<in> late_ids now ps then map_option (caStatus_update (\<lambda>_. ''offline'')) (map_get (gsAgents s) i)
       else map_get (gsAgents s) i) \<and>
    map_get (gsSync s') i = (if i \<in> late_ids now ps then None else map_get (gsSync s) i) \<and>
    instances (gsDB s') =
      map (\<lambda>r. if iNodeID r \<in> late_ids now ps then offline_row now r else r) (instances (gsDB s))"
  using assms(1-4) unfolding s'_def
proof (induction ps arbitrary: s)
  case Nil
  then show ?case by (simp add: late_ids_def)
next
  case (Cons p ps)
  define s1 where "s1 = check_agent now p s"
  have ne: "fst p \<noteq> ''''" using Cons.prems(2) by auto
  note f = check_agent_fields [OF Cons.prems(1) ne, of now, folded s1_def]
  have ok1: "registry_ok s1"
    using Cons.prems(1,4) by (simp add: s1_def check_agent_ok)
  have notin: "fst p \<notin> fst ` set ps" and okps: "map_ok ps"
    using Cons.prems(3) by (simp_all add: map_ok_def)
  have agents1: "\<forall>q \<in> set ps. caID (snd q) = fst q \<and> map_get (gsAgents s1) (fst q) = Some (snd q)"
    using Cons.prems(4) notin f(1) by (auto simp: go_map_simps image_iff)
  have late: "late_ids now (p # ps) =
      (if agent_timeout < now - caLastSeen (snd p) then insert (fst p) (late_ids now ps) else late_ids now ps)"
    by (cases p) (auto simp: late_ids_def)
  have pin: "map_get (gsAgents s) (fst p) = Some (snd p)" using Cons.prems(4) by simp
  have "fst p \<notin> late_ids now ps" using notin by (auto simp: late_ids_def) (metis fst_conv image_eqI)
  then show ?case
    using Cons.IH [OF ok1 _ okps agents1] Cons.prems(2) pin
    by (auto simp: s1_def [symmetric] f late go_map_simps)
qed

lemma health_check_lemma:
  fixes now :: instant
  assumes "registry_ok s" and "'''' \<notin> set (ListAgentIDs s)"
  defines "s' \<equiv> healthCheck now s"
    and "dead \<equiv> {i. \<exists>a. GetAgent i s = Some a \<and> agent_timeout < now - caLastSeen a}"
  shows "(\<forall>i. IsAgentOnline i s' \<longleftrightarrow> IsAgentOnline i s \<and> i \<notin> dead) \<and>
    (\<forall>i. map_get (gsSync s') i = (if i \<in> dead then None else map_get (gsSync s) i)) \<and>
    instances (gsDB s') =
      map (\<lambda>r. if iNodeID r \<in> dead then offline_row now r else r) (instances (gsDB s))"
proof -
  have ok: "map_ok (gsAgents s)" using assms(1) by (rule registry_okD)
  have "\<forall>p \<in> set (gsAgents s). caID (snd p) = fst p \<and> map_get (gsAgents s) (fst p) = Some (snd p)"
    using registry_ids [OF assms(1)] map_get_in_iff [OF ok] by force
  moreover have "'''' \<notin> fst ` set (gsAgents s)" using assms(2) by (simp add: ListAgentIDs_def)
  moreover have "dead = late_ids now (gsAgents s)"
    using map_get_in_iff [OF ok] by (auto simp: dead_def late_ids_def GetAgent_def)
  ultimately show ?thesis
    using fold_check_agent [OF assms(1) _ ok] unfolding s'_def healthCheck_def
    by (auto simp: IsAgentOnline_def split: option.splits)
qed

lemma healthCheck_known:
  assumes "registry_ok s" and "'''' \<notin> set (ListAgentIDs s)"
  shows "GetAgent i (healthCheck now s) = None \<longleftrightarrow> GetAgent i s = None"
proof -
  have ok: "map_ok (gsAgents s)" using assms(1) by (rule registry_okD)
  have "\<forall>p \<in> set (gsAgents s). caID (snd p) = fst p \<and> map_get (gsAgents s) (fst p) = Some (snd p)"
    using registry_ids [OF assms(1)] map_get_in_iff [OF ok] by force
  moreover have "'''' \<notin> fst ` set (gsAgents s)" using assms(2) by (simp add: ListAgentIDs_def)
  ultimately show ?thesis
    using fold_check_agent [OF assms(1) _ ok] by (simp add: healthCheck_def GetAgent_def)
qed

text \<open>
  After a health check exactly those agents are online that were online and have been
  heard of in the last 90 seconds. The others no longer receive files, all instances of
  their nodes are recorded as offline, and no other instance is changed.
\<close>

theorem health_check_effect:
  fixes now :: instant
  assumes "registry_ok s" and "'''' \<notin> set (ListAgentIDs s)"
  defines "s' \<equiv> healthCheck now s"
    and "dead \<equiv> {i. \<exists>a. GetAgent i s = Some a \<and> agent_timeout < now - caLastSeen a}"
  shows "(\<forall>i. IsAgentOnline i s' \<longleftrightarrow> IsAgentOnline i s \<and> i \<notin> dead) \<and>
    (\<forall>i. map_get (gsSync s') i = (if i \<in> dead then None else map_get (gsSync s) i)) \<and>
    instances (gsDB s') =
      map (\<lambda>r. if iNodeID r \<in> dead then offline_row now r else r) (instances (gsDB s))"
  unfolding s'_def dead_def by (rule health_check_lemma [OF assms(1,2)])

theorem health_check_effect_witness:
  "(let s = fst (svc_RegisterAgent 0 (demo_request ''n1'') (NewGRPCServer demo_db));
        s' = healthCheck (100 * second_ns) s
    in IsAgentOnline ''n1'' s \<and> \<not> IsAgentOnline ''n1'' s')"
proof -
  define s where "s = fst (svc_RegisterAgent 0 (demo_request ''n1'') (NewGRPCServer demo_db))"
  have ok: "registry_ok s"
    unfolding s_def by (rule svc_RegisterAgent_ok) (simp add: registry_ok_def NewGRPCServer_def demo_db_ok)
  have agents: "gsAgents s = [(''n1'', \<lparr>caID = ''n1'', caName = ''alpha'', caAddress = ''10.0.0.5:9091'',
      caLastSeen = 0, caStatus = ''online''\<rparr>)]"
    by (simp add: s_def svc_RegisterAgent_def Let_def RegisterAgentConnection_def NewGRPCServer_def
        demo_request_def)
  have "IsAgentOnline ''n1'' s" by (simp add: IsAgentOnline_def agents map_get_def)
  moreover have "\<not> IsAgentOnline ''n1'' (healthCheck (100 * second_ns) s)"
    using health_check_effect [OF ok, of "100 * second_ns"]
    by (simp add: ListAgentIDs_def GetAgent_def agents map_get_def agent_timeout_def second_ns_def)
  ultimately show ?thesis by (simp add: Let_def s_def)
qed

section \<open>Heartbeats\<close>

lemma heartbeat_instance_fields [simp]:
  "gsAgents (heartbeat_instance now a i s) = gsAgents s"
  "gsSync (heartbeat_instance now a i s) = gsSync s"
  by (simp_all add: heartbeat_instance_def Let_def UpdateInstanceOwner_def UpdateInstanceMetrics_def)

lemma fold_heartbeat_instance_fields [simp]:
  "gsAgents (fold (heartbeat_instance now a) is s) = gsAgents s"
  "gsSync (fold (heartbeat_instance now a) is s) = gsSync s"
  by (induction "is" arbitrary: s) simp_all

lemma heartbeat_fields:
  "gsSync (fst (heartbeat now req s)) = gsSync s"
  "gsAgents (fst (heartbeat now req s)) = gsAgents (UpdateAgentHeartbeat now (hrAgentId req) s)"
  by (auto simp: heartbeat_def Let_def UpdateNodeMetrics_def UpdateAgentHeartbeat_def split: option.splits)

lemma heartbeat_online:
  "IsAgentOnline i (fst (heartbeat now req s)) \<longleftrightarrow>
     (if i = hrAgentId req then GetAgent i s \<noteq> None else IsAgentOnline i s)"
  by (auto simp: IsAgentOnline_def heartbeat_fields UpdateAgentHeartbeat_def GetAgent_def go_map_simps
      split: option.splits)

lemma heartbeats_fields:
  "gsSync (fold (\<lambda>(t, r). fst \<circ> heartbeat t r) beats s) = gsSync s"
  by (induction beats arbitrary: s) (auto simp: heartbeat_fields)

text \<open>
  An agent that was silent for more than 90 seconds is dropped from the sync engine by
  the health check. Its later heartbeats, however many, make it online again but never put
  it back: although online, it is a target of no file event.
\<close>

theorem timed_out_agent_not_resynced:
  assumes "registry_ok s" and "'''' \<notin> set (ListAgentIDs s)"
    and "GetAgent i s = Some a" and "agent_timeout < now - caLastSeen a"
  shows "\<not> IsAgentOnline i (healthCheck now s) \<and>
    IsAgentOnline i (fst (heartbeat t \<lparr>hrAgentId = i, hrInstances = is, hrStatus = st\<rparr>
      (fold (\<lambda>(t, r). fst \<circ> heartbeat t r) beats (healthCheck now s)))) \<and>
    i \<notin> taID ` set (event_agents ev (gsSync (fst (heartbeat t \<lparr>hrAgentId = i, hrInstances = is, hrStatus = st\<rparr>
      (fold (\<lambda>(t, r). fst \<circ> heartbeat t r) beats (healthCheck now s))))))"
proof -
  let ?s1 = "healthCheck now s"
  let ?s2 = "fold (\<lambda>(t, r). fst \<circ> heartbeat t r) beats ?s1"
  note eff = health_check_lemma [OF assms(1,2), of now]
  have dead: "\<not> IsAgentOnline i ?s1" "map_get (gsSync ?s1) i = None"
    using eff assms(3,4) by auto
  have known1: "GetAgent i ?s1 \<noteq> None"
    using healthCheck_known [OF assms(1,2)] assms(3) by simp
  have "GetAgent i ?s2 \<noteq> None"
    using known1
    by (induction beats arbitrary: s rule: rev_induct)
      (auto simp: GetAgent_def heartbeat_fields UpdateAgentHeartbeat_def go_map_simps split: option.splits)
  moreover have "i \<notin> taID ` set (event_agents ev (gsSync ?s2))"
  proof
    assume "i \<in> taID ` set (event_agents ev (gsSync ?s2))"
    then obtain k tt where kt: "(k, tt) \<in> set (gsSync ?s1)" "taID tt = i"
      by (auto simp: event_agents_def heartbeats_fields)
    have ok1: "registry_ok ?s1" using assms(1) by (rule healthCheck_ok)
    have "map_get (gsSync ?s1) k = Some tt"
      using kt(1) map_get_in_iff [OF registry_okD(2) [OF ok1]] by simp
    then show False
      using registry_okD(5) [OF ok1, of k tt] kt(2) dead(2) by auto
  qed
  ultimately show ?thesis
    using dead(1) by (simp add: heartbeat_online heartbeat_fields)
qed

definition demo_event :: FileEvent where
  "demo_event = \<lparr>evPath = ''a'', evRelPath = ''a'', evType = EventCreate, evMappingName = ''m'',
     evDest = ''.'', evTargets = [''*'']\<rparr>"

theorem timed_out_agent_not_resynced_witness:
  "(let s1 = healthCheck (100 * second_ns)
               (fst (svc_RegisterAgent 0 (demo_request ''n1'') (NewGRPCServer demo_db)));
        s2 = fst (heartbeat (110 * second_ns) \<lparr>hrAgentId = ''n1'', hrInstances = [], hrStatus = None\<rparr> s1)
    in \<not> IsAgentOnline ''n1'' s1 \<and> IsAgentOnline ''n1'' s2 \<and>
       ''n1'' \<notin> taID ` set (event_agents demo_event (gsSync s2)))"
proof -
  define s where "s = fst (svc_RegisterAgent 0 (demo_request ''n1'') (NewGRPCServer demo_db))"
  have ok: "registry_ok s"
    unfolding s_def by (rule svc_RegisterAgent_ok) (simp add: registry_ok_def NewGRPCServer_def demo_db_ok)
  have agents: "gsAgents s = [(''n1'', \<lparr>caID = ''n1'', caName = ''alpha'', caAddress = ''10.0.0.5:9091'',
      caLastSeen = 0, caStatus = ''online''\<rparr>)]"
    by (simp add: s_def svc_RegisterAgent_def Let_def RegisterAgentConnection_def NewGRPCServer_def
        demo_request_def)
  show ?thesis
    using timed_out_agent_not_resynced [OF ok, of "''n1''" _ "100 * second_ns" "110 * second_ns" "[]" None "[]" demo_event]
    by (simp add: ListAgentIDs_def GetAgent_def agents map_get_def agent_timeout_def second_ns_def
        Let_def s_def [symmetric])
qed

definition reported_status :: "InstanceStatus list \<Rightarrow> string \<Rightarrow> string \<Rightarrow> string" where
  "reported_status reps i old =
     (case find (\<lambda>r. isInstanceId r = i) (rev reps) of
        None \<Rightarrow> old | Some r \<Rightarrow> instanceStateToString (isState r))"

lemma heartbeat_instance_rows:
  "instances (gsDB (heartbeat_instance now a i s)) =
     row_update (\<lambda>r. iID r = isInstanceId i)
       (\<lambda>r. r\<lparr>iStatus := instanceStateToString (isState i), iPID := None, iUpdatedAt := current_timestamp now\<rparr>)
       (instances (gsDB s))"
  by (simp add: heartbeat_instance_def Let_def UpdateInstanceOwner_def UpdateInstanceMetrics_def
      UpdateInstanceStatus_def InsertInstanceMetrics_def)

lemma reported_status_snoc:
  "reported_status (reps @ [r]) i old =
     (if isInstanceId r = i then instanceStateToString (isState r) else reported_status reps i old)"
  by (simp add: reported_status_def)

lemma fold_heartbeat_rows:
  fixes now :: instant
  defines "strip \<equiv> (\<lambda>r. r\<lparr>iStatus := '''', iPID := None, iUpdatedAt := 0\<rparr> :: Instance)"
  shows "map (\<lambda>r. (strip r, iStatus r)) (instances (gsDB (fold (heartbeat_instance now a) reps s))) =
    map (\<lambda>r. (strip r, reported_status reps (iID r) (iStatus r))) (instances (gsDB s))"
proof (induction reps rule: rev_induct)
  case Nil
  then show ?case by (simp add: reported_status_def)
next
  case (snoc r reps)
  let ?rows = "instances (gsDB (fold (heartbeat_instance now a) reps s))"
  define g where "g = (\<lambda>(q :: Instance, st). (q, if isInstanceId r = iID q
      then instanceStateToString (isState r) else st))"
  have "map (\<lambda>r. (strip r, iStatus r)) (instances (gsDB (fold (heartbeat_instance now a) (reps @ [r]) s))) =
      map g (map (\<lambda>r. (strip r, iStatus r)) ?rows)"
    by (simp add: heartbeat_instance_rows row_update_def g_def strip_def)
  also have "\<dots> = map g (map (\<lambda>r. (strip r, reported_status reps (iID r) (iStatus r))) (instances (gsDB s)))"
    by (simp only: snoc.IH)
  also have "\<dots> = map (\<lambda>x. (strip x, reported_status (reps @ [r]) (iID x) (iStatus x))) (instances (gsDB s))"
    by (simp add: g_def strip_def reported_status_snoc)
  finally show ?case .
qed

text \<open>
  A heartbeat records for every instance it reports the state it reports, and leaves
  everything else the database holds about instances as it was: no configuration is
  overwritten. The answer assigns the agent exactly the instances of its node.
\<close>

theorem heartbeat_only_updates_status:
  fixes now :: instant and s :: GRPCServer
  assumes "hrAgentId req \<noteq> ''''"
  defines "d \<equiv> gsDB s" and "d' \<equiv> gsDB (fst (heartbeat now req s))"
    and "strip \<equiv> (\<lambda>r. r\<lparr>iStatus := '''', iPID := None, iUpdatedAt := 0\<rparr> :: Instance)"
  shows "map (\<lambda>r. (strip r, iStatus r)) (instances d') =
      map (\<lambda>r. (strip r, reported_status (hrInstances req) (iID r) (iStatus r))) (instances d) \<and>
    set (map icInstanceId (snd (heartbeat now req s))) =
      {iID x | x. x \<in> set (instances d) \<and> iNodeID x = hrAgentId req}"
proof -
  define s1 where "s1 = UpdateAgentHeartbeat now (hrAgentId req) s"
  have "instances (gsDB s1) = instances d"
    by (simp add: s1_def d_def UpdateAgentHeartbeat_def UpdateNodeStatus_def)
  moreover have d': "d' = gsDB (fold (heartbeat_instance now (hrAgentId req)) (hrInstances req) s1)"
    by (simp add: d'_def heartbeat_def Let_def s1_def UpdateNodeMetrics_def split: option.splits)
  ultimately have rows: "map (\<lambda>r. (strip r, iStatus r)) (instances d') =
      map (\<lambda>r. (strip r, reported_status (hrInstances req) (iID r) (iStatus r))) (instances d)"
    using fold_heartbeat_rows [of now "hrAgentId req" "hrInstances req" s1] by (simp add: strip_def)
  then have "map (\<lambda>p. (iID (fst p), iNodeID (fst p))) (map (\<lambda>r. (strip r, iStatus r)) (instances d')) =
      map (\<lambda>p. (iID (fst p), iNodeID (fst p)))
        (map (\<lambda>r. (strip r, reported_status (hrInstances req) (iID r) (iStatus r))) (instances d))"
    by (rule arg_cong)
  then have "map (\<lambda>r. (iID r, iNodeID r)) (instances d') = map (\<lambda>r. (iID r, iNodeID r)) (instances d)"
    by (simp add: strip_def o_def)
  then have "set (map (\<lambda>r. (iID r, iNodeID r)) (instances d')) = set (map (\<lambda>r. (iID r, iNodeID r)) (instances d))"
    by (rule arg_cong)
  then have ids: "{iID x | x. x \<in> set (instances d') \<and> iNodeID x = k} =
      {iID x | x. x \<in> set (instances d) \<and> iNodeID x = k}" for k
    by (auto simp: set_eq_iff image_iff) metis+
  have "snd (heartbeat now req s) = buildAssignedInstances (hrAgentId req) d'"
    by (simp add: heartbeat_def Let_def d'_def)
  then have "set (map icInstanceId (snd (heartbeat now req s))) = iID ` set (ListInstances (hrAgentId req) d')"
    by (simp add: buildAssignedInstances_def instance_config_def image_image)
  also have "\<dots> = {iID x | x. x \<in> set (instances d') \<and> iNodeID x = hrAgentId req}"
    using assms(1) by (auto simp: ListInstances_def)
  finally show ?thesis using rows ids by simp
qed

theorem heartbeat_only_updates_status_witness:
  "(let s = NewGRPCServer demo_db;
        r = \<lparr>isInstanceId = ''mc'', isState = INSTANCE_STATE_RUNNING, isCpuPercent = 0, isMemoryUsedMb = 0,
             isMemoryLimitMb = 0, isNetRxBytes = 0, isNetTxBytes = 0, isBlockReadBytes = 0, isBlockWriteBytes = 0\<rparr>;
        d' = gsDB (fst (heartbeat 5 \<lparr>hrAgentId = ''n1'', hrInstances = [r], hrStatus = None\<rparr> s))
    in map iStatus (instances d') = [''running''] \<and> map iStatus (instances demo_db) = [''stopped''])"
proof -
  have "map iStatus (instances demo_db) = [''stopped'']" "map iID (instances demo_db) = [''mc'']"
    by (simp_all add: demo_db_def demo_instance_def new_instance_def default_type_def)
  moreover have "map snd (map (\<lambda>r. (r\<lparr>iStatus := '''', iPID := None, iUpdatedAt := 0\<rparr>, iStatus r)) xs) = map iStatus xs"
    for xs by simp
  ultimately show ?thesis
    using heartbeat_only_updates_status [where req = "\<lparr>hrAgentId = ''n1'', hrInstances = [\<lparr>isInstanceId = ''mc'',
        isState = INSTANCE_STATE_RUNNING, isCpuPercent = 0, isMemoryUsedMb = 0, isMemoryLimitMb = 0,
        isNetRxBytes = 0, isNetTxBytes = 0, isBlockReadBytes = 0, isBlockWriteBytes = 0\<rparr>], hrStatus = None\<rparr>"
        and s = "NewGRPCServer demo_db" and now = 5]
    by (auto simp: Let_def NewGRPCServer_def reported_status_def map_eq_Cons_conv)
qed

end
