(* ===== verification/Backup_Scheduler.thy ===== *)
theory Backup_Scheduler
  imports Master_Registry Cron
begin

text \<open>
  The scheduled backups of the master (\<^verbatim>\<open>internal/master/scheduler.go\<close>, type
  \<^verbatim>\<open>BackupScheduler\<close>): which instances are due at a tick, and what a backup run does to the
  database. The wall clock in local time is the parameter \<open>civil\<close>, the remote call to the
  agent the parameter \<open>call\<close>; it is \<open>None\<close> when the connection or the call fails.
\<close>

record BackupResponse =
  brSuccess :: bool
  brFilePath :: string
  brFileSize :: int
  brChecksum :: string

definition duplicate_window :: duration where
  "duplicate_window = 90 * second_ns"

definition backup_due :: "(instant \<Rightarrow> cron_time) \<Rightarrow> instant \<Rightarrow> Instance \<Rightarrow> bool" where
  "backup_due civil now inst \<longleftrightarrow>
     iBackupCron inst \<noteq> '''' \<and> cronMatches (iBackupCron inst) (civil now) \<and>
     (case iBackupLastAt inst of None \<Rightarrow> True | Some t \<Rightarrow> \<not> now - t < duplicate_window)"

text \<open>\<^verbatim>\<open>tick\<close>: the instances a backup run is started for.\<close>

definition tick :: "(instant \<Rightarrow> cron_time) \<Rightarrow> instant \<Rightarrow> DB \<Rightarrow> Instance list" where
  "tick civil now d = filter (backup_due civil now) (ListBackupEnabledInstances d)"

definition backup_row :: "string \<Rightarrow> BackupResponse \<Rightarrow> Backup" where
  "backup_row i resp =
     \<lparr>bID = 0, bInstanceID = i, bFilePath = brFilePath resp, bFileSize = brFileSize resp,
      bChecksum = brChecksum resp, bTriggerType = ''scheduled'', bStatus = ''completed'',
      bCreatedAt = 0\<rparr>"

text \<open>The bookkeeping after a successful call; a refused insertion is only logged.\<close>

definition record_backup :: "instant \<Rightarrow> Instance \<Rightarrow> BackupResponse \<Rightarrow> DB \<Rightarrow> DB" where
  "record_backup now inst resp d =
     (let d1 = (case DB_CreateBackup now (backup_row (iID inst) resp) d of Inl e \<Rightarrow> d | Inr d' \<Rightarrow> d');
          d2 = UpdateBackupLastAt now (iID inst) now d1
      in if 0 < iBackupMaxCount inst then fst (DeleteOldestBackups (iID inst) (iBackupMaxCount inst) d2)
         else d2)"

definition runBackup ::
  "(string \<Rightarrow> string \<Rightarrow> string \<Rightarrow> BackupResponse option) \<Rightarrow> instant \<Rightarrow> Instance \<Rightarrow> GRPCServer \<Rightarrow> GRPCServer" where
  "runBackup call now inst s =
     (case GetInstanceOwner (iID inst) s of
        None \<Rightarrow> s
      | Some agentID \<Rightarrow>
          if \<not> IsAgentOnline agentID s then s
          else case GetAgentAddress agentID s of
            None \<Rightarrow> s
          | Some addr \<Rightarrow>
              (case call addr agentID (iID inst) of
                 None \<Rightarrow> s
               | Some resp \<Rightarrow>
                   if \<not> brSuccess resp then s
                   else s\<lparr>gsDB := record_backup now inst resp (gsDB s)\<rparr>))"

section \<open>What a run leaves behind\<close>

lemma record_backup_ok: "db_ok d \<Longrightarrow> db_ok (record_backup now inst resp d)"
  by (auto simp: record_backup_def Let_def intro!: DeleteOldestBackups_ok UpdateBackupLastAt_ok
      split: sum.splits dest: DB_CreateBackup_ok)

lemma runBackup_ok: "registry_ok s \<Longrightarrow> registry_ok (runBackup call now inst s)"
  by (auto simp: runBackup_def record_backup_ok registry_okD(3)
      intro!: registry_ok_db split: option.splits)

lemma DeleteOldestBackups_instances: "instances (fst (DeleteOldestBackups i n d)) = instances d"
  by (simp add: DeleteOldestBackups_def Let_def)

lemma record_backup_instances:
  "instances (record_backup now inst resp d) =
     row_update (\<lambda>r. iID r = iID inst)
       (\<lambda>r. r\<lparr>iBackupLastAt := Some now, iUpdatedAt := current_timestamp now\<rparr>) (instances d)"
  by (simp add: record_backup_def Let_def DeleteOldestBackups_instances UpdateBackupLastAt_def
      DB_CreateBackup_def split: sum.splits)

lemma DeleteOldestBackups_count:
  assumes "db_ok d" and "0 \<le> n"
  shows "CountBackups i (fst (DeleteOldestBackups i n d)) = min n (CountBackups i d)"
  using pruned_backups [OF assms surjective_pairing, of i] by (simp add: CountBackups_def)

lemma record_backup_count:
  assumes "db_ok d" and "iID inst \<in> instance_ids d"
  shows "CountBackups (iID inst) (record_backup now inst resp d) =
    (if 0 < iBackupMaxCount inst then min (iBackupMaxCount inst) (CountBackups (iID inst) d + 1)
     else CountBackups (iID inst) d + 1)"
proof -
  obtain d1 where d1: "DB_CreateBackup now (backup_row (iID inst) resp) d = Inr d1"
    using assms(2) by (simp add: DB_CreateBackup_def backup_row_def)
  define d2 where "d2 = UpdateBackupLastAt now (iID inst) now d1"
  have "CountBackups (iID inst) d2 = CountBackups (iID inst) d + 1"
    using d1 assms(2)
    by (auto simp: d2_def CountBackups_def UpdateBackupLastAt_def DB_CreateBackup_def backup_row_def)
  moreover have "db_ok d2"
    using DB_CreateBackup_ok [OF assms(1) d1] by (simp add: d2_def UpdateBackupLastAt_ok)
  ultimately show ?thesis
    using d1 by (simp add: record_backup_def Let_def d2_def [symmetric] DeleteOldestBackups_count)
qed

lemma not_due_after_backup:
  assumes "now' - now < duplicate_window"
    and "inst' \<in> set (tick civil now' (record_backup now inst resp d))"
  shows "iID inst' \<noteq> iID inst"
  using assms
  by (auto simp: tick_def ListBackupEnabledInstances_def record_backup_instances set_row_update
      backup_due_def split: if_splits)

text \<open>
  A scheduled run that the agent answers with success leaves one completed record more,
  cut to the allowed number of newest records, notes the time, and is not started again in
  the following 90 seconds. If the owner of the instance is unknown or offline, or the call
  fails or reports failure, nothing is changed.
\<close>

theorem scheduled_backup_effect:
  fixes call :: "string \<Rightarrow> string \<Rightarrow> string \<Rightarrow> BackupResponse option" and now :: instant
  assumes "registry_ok s" and "iID inst \<in> instance_ids (gsDB s)"
  defines "s' \<equiv> runBackup call now inst s" and "i \<equiv> iID inst"
  shows "(case Option.bind (GetInstanceOwner i s) (\<lambda>a. if IsAgentOnline a s
              then Option.bind (GetAgentAddress a s) (\<lambda>addr. call addr a i) else None) of
       Some resp \<Rightarrow>
         if brSuccess resp
         then CountBackups i (gsDB s') = (if 0 < iBackupMaxCount inst
                then min (iBackupMaxCount inst) (CountBackups i (gsDB s) + 1)
                else CountBackups i (gsDB s) + 1) \<and>
              (\<forall>r \<in> set (instances (gsDB s')). iID r \<noteq> i \<or> iBackupLastAt r = Some now) \<and>
              (\<forall>now' civil. now' \<ge> now + duplicate_window \<or> i \<notin> iID ` set (tick civil now' (gsDB s')))
         else s' = s
     | None \<Rightarrow> s' = s)"
proof -
  let ?o = "Option.bind (GetInstanceOwner i s) (\<lambda>a. if IsAgentOnline a s
              then Option.bind (GetAgentAddress a s) (\<lambda>addr. call addr a i) else None)"
  have run: "s' = (case ?o of Some resp \<Rightarrow> if brSuccess resp
      then s\<lparr>gsDB := record_backup now inst resp (gsDB s)\<rparr> else s | None \<Rightarrow> s)"
    by (auto simp: s'_def i_def runBackup_def split: option.splits)
  show ?thesis
  proof (cases ?o)
    case None
    then show ?thesis using run by simp
  next
    case (Some resp)
    have "\<forall>r \<in> set (instances (record_backup now inst resp (gsDB s))). iID r \<noteq> i \<or> iBackupLastAt r = Some now"
      by (auto simp: record_backup_instances set_row_update i_def)
    moreover have "now' \<ge> now + duplicate_window \<or>
        i \<notin> iID ` set (tick civil now' (record_backup now inst resp (gsDB s)))" for now' civil
      using not_due_after_backup [of now' now _ civil inst resp "gsDB s"] by (force simp: i_def)
    ultimately show ?thesis
      using run Some record_backup_count [OF registry_okD(3) [OF assms(1)] assms(2)]
      by (simp add: i_def)
  qed
qed

definition demo_response :: BackupResponse where
  "demo_response = \<lparr>brSuccess = True, brFilePath = ''b.zip'', brFileSize = 9, brChecksum = ''c''\<rparr>"

theorem scheduled_backup_effect_witness:
  "(let s = UpdateInstanceOwner ''mc'' ''n1''
              (fst (svc_RegisterAgent 0 (demo_request ''n1'') (NewGRPCServer demo_db)));
        s' = runBackup (\<lambda>addr a i. Some demo_response) 7 (demo_instance ''mc'' ''n1'') s
    in CountBackups ''mc'' (gsDB s) = 0 \<and> CountBackups ''mc'' (gsDB s') = 1)"
proof -
  define s where "s = UpdateInstanceOwner ''mc'' ''n1''
      (fst (svc_RegisterAgent 0 (demo_request ''n1'') (NewGRPCServer demo_db)))"
  have start: "registry_ok (NewGRPCServer demo_db)"
    by (simp add: registry_ok_def NewGRPCServer_def demo_db_ok)
  have ok: "registry_ok s"
    by (simp add: s_def UpdateInstanceOwner_def svc_RegisterAgent_ok start)
  have insts: "instances (gsDB s) = instances demo_db"
    by (simp add: s_def UpdateInstanceOwner_def svc_RegisterAgent_instances)
       (simp add: NewGRPCServer_def stale_ids_def demo_db_def demo_instance_def demo_request_def
         demo_node_def new_node_def new_instance_def default_type_def)
  have mem: "iID (demo_instance ''mc'' ''n1'') \<in> instance_ids (gsDB s)"
    by (simp add: instance_ids_def insts) (simp add: demo_db_def)
  have owner: "GetInstanceOwner ''mc'' s = Some ''n1''" "IsAgentOnline ''n1'' s"
      "GetAgentAddress ''n1'' s = Some ''10.0.0.5:9091''"
    by (simp_all add: s_def UpdateInstanceOwner_def GetInstanceOwner_def svc_RegisterAgent_def Let_def
        RegisterAgentConnection_def IsAgentOnline_def GetAgentAddress_def NewGRPCServer_def
        demo_request_def map_get_def)
  have zero: "CountBackups ''mc'' (gsDB s) = 0"
    by (simp add: s_def UpdateInstanceOwner_def CountBackups_def svc_RegisterAgent_def Let_def
        RegisterAgentConnection_def UpsertNode_def NewGRPCServer_def remove_stale_def ListNodes_def
        order_by_def demo_db_def demo_request_def demo_node_def new_node_def migrated_db_def)
  have i: "iID (demo_instance ''mc'' ''n1'') = ''mc''" "iBackupMaxCount (demo_instance ''mc'' ''n1'') = 10"
    by (simp_all add: demo_instance_def)
  show ?thesis
    using scheduled_backup_effect [OF ok mem, where call = "\<lambda>addr a i. Some demo_response" and now = 7] owner zero
    by (simp add: i Let_def s_def [symmetric] demo_response_def)
qed

end
