(* ===== verification/Base64.thy ===== *)
theory Base64
  imports Go_Strings
begin

text \<open>
  The standard encoding of package \<^verbatim>\<open>encoding/base64\<close>, in which the web server takes and
  sends file contents: three bytes are four letters, the last group is padded. Decoding
  skips line ends and ignores the unused bits of the last letter.
\<close>

section \<open>Letters\<close>

definition b64_char :: "nat \<Rightarrow> char" where
  "b64_char n =
     (if n < 26 then char_of (n + 65) else if n < 52 then char_of (n + 71)
      else if n < 62 then digit_char (n - 52) else if n = 62 then CHR ''+'' else CHR ''/'')"

definition b64_val :: "char \<Rightarrow> nat option" where
  "b64_val c =
     (let k = (of_char c :: nat) in
      if 65 \<le> k \<and> k \<le> 90 then Some (k - 65)
      else if 97 \<le> k \<and> k \<le> 122 then Some (k - 71)
      else if 48 \<le> k \<and> k \<le> 57 then Some (k + 4)
      else if k = 43 then Some 62 else if k = 47 then Some 63 else None)"

definition b64_letters :: "nat \<Rightarrow> string" where
  "b64_letters n = map b64_char [n div 262144, n div 4096 mod 64, n div 64 mod 64, n mod 64]"

fun b64_encode :: "bytes \<Rightarrow> string" where
  "b64_encode [] = ''''"
| "b64_encode [a] = take 2 (b64_letters (unat a * 65536)) @ ''==''"
| "b64_encode [a, b] = take 3 (b64_letters (unat a * 65536 + unat b * 256)) @ ''=''"
| "b64_encode (a # b # c # r) = b64_letters (unat a * 65536 + unat b * 256 + unat c) @ b64_encode r"

definition b64_number :: "string \<Rightarrow> nat option" where
  "b64_number s =
     fold (\<lambda>c acc. case (acc, b64_val c) of (Some n, Some v) \<Rightarrow> Some (64 * n + v) | _ \<Rightarrow> None) s (Some 0)"

definition byte_of :: "nat \<Rightarrow> 8 word" where
  "byte_of n = word_of_nat n"

fun b64_groups :: "string \<Rightarrow> bytes option" where
  "b64_groups [] = Some []"
| "b64_groups (c1 # c2 # c3 # c4 # r) =
     (if c3 = CHR ''='' \<and> c4 = CHR ''='' \<and> r = []
      then map_option (\<lambda>n. [byte_of (n div 16)]) (b64_number [c1, c2])
      else if c4 = CHR ''='' \<and> r = []
      then map_option (\<lambda>n. [byte_of (n div 1024), byte_of (n div 4)]) (b64_number [c1, c2, c3])
      else (case b64_number [c1, c2, c3, c4] of
              None \<Rightarrow> None
            | Some n \<Rightarrow> map_option (\<lambda>bs. byte_of (n div 65536) # byte_of (n div 256) # byte_of n # bs) (b64_groups r)))"
| "b64_groups s = None"

text \<open>\<^verbatim>\<open>base64.StdEncoding.DecodeString\<close>, \<open>None\<close> for corrupt input.\<close>

definition b64_decode :: "string \<Rightarrow> bytes option" where
  "b64_decode s = b64_groups (filter (\<lambda>c. c \<noteq> CHR 0x0A \<and> c \<noteq> CHR 0x0D) s)"

section \<open>Decoding undoes encoding\<close>

lemma b64_char_code:
  assumes "n < 64"
  shows "(of_char (b64_char n) :: nat) =
    (if n < 26 then n + 65 else if n < 52 then n + 71 else if n < 62 then n - 4 else if n = 62 then 43 else 47)"
  using assms by (simp add: b64_char_def digit_char_def)

lemma b64_val_char [simp]:
  assumes "n < 64"
  shows "b64_val (b64_char n) = Some n" "b64_char n \<noteq> CHR ''=''" "b64_char n \<noteq> CHR 0x0A" "b64_char n \<noteq> CHR 0x0D"
proof -
  show "b64_val (b64_char n) = Some n" using assms by (auto simp: b64_val_def b64_char_code Let_def)
  have "(of_char (b64_char n) :: nat) \<noteq> 61" "(of_char (b64_char n) :: nat) \<noteq> 10" "(of_char (b64_char n) :: nat) \<noteq> 13"
    using assms by (auto simp: b64_char_code)
  then show "b64_char n \<noteq> CHR ''=''" "b64_char n \<noteq> CHR 0x0A" "b64_char n \<noteq> CHR 0x0D" by auto
qed

lemma b64_letters_less:
  assumes "n < 16777216"
  shows "n div 262144 < 64" "n div 4096 mod 64 < 64" "n div 64 mod 64 < 64" "n mod 64 < (64 :: nat)"
  using assms by (simp_all add: less_mult_imp_div_less)

lemma byte_digits:
  fixes a b c :: "8 word"
  shows "unat a * 65536 + unat b * 256 + unat c < 16777216"
    and "(unat a * 65536 + unat b * 256 + unat c) div 65536 = unat a"
    and "(unat a * 65536 + unat b * 256 + unat c) div 256 = unat a * 256 + unat b"
proof -
  have u: "unat x < 256" for x :: "8 word" using unsigned_less [of x, where ?'a = nat] by simp
  show "unat a * 65536 + unat b * 256 + unat c < 16777216" using u [of a] u [of b] u [of c] by simp
  have n: "unat a * 65536 + unat b * 256 + unat c = (unat a * 256 + unat b) * 256 + unat c" by simp
  show d: "(unat a * 65536 + unat b * 256 + unat c) div 256 = unat a * 256 + unat b"
    unfolding n using u [of c] by simp
  have "(unat a * 65536 + unat b * 256 + unat c) div 65536 = (unat a * 256 + unat b) div 256"
    unfolding d [symmetric] by (simp add: div_mult2_eq [symmetric])
  then show "(unat a * 65536 + unat b * 256 + unat c) div 65536 = unat a" using u [of b] by simp
qed

lemma byte_of_unat:
  fixes a b c :: "8 word"
  shows "byte_of (unat a) = a" "byte_of (unat a * 256 + unat b) = b"
    "byte_of (unat a * 65536 + unat b * 256 + unat c) = c"
proof -
  have z: "(256 :: 8 word) = 0" "(65536 :: 8 word) = 0" by simp_all
  show "byte_of (unat a) = a" "byte_of (unat a * 256 + unat b) = b"
    "byte_of (unat a * 65536 + unat b * 256 + unat c) = c"
    by (simp_all add: byte_of_def z)
qed

lemma b64_number_letters:
  assumes "n < 16777216"
  shows "b64_number (b64_letters n) = Some n" "b64_number (take 3 (b64_letters n)) = Some (n div 64)"
    "b64_number (take 2 (b64_letters n)) = Some (n div 4096)"
proof -
  have d: "n div 262144 = n div 64 div 64 div 64" "n div 4096 = n div 64 div 64"
    by (simp_all add: div_mult2_eq [symmetric])
  have "64 * (n div 262144) + n div 4096 mod 64 = n div 4096" unfolding d by simp
  moreover have "64 * (n div 4096) + n div 64 mod 64 = n div 64" unfolding d by simp
  moreover have "64 * (n div 64) + n mod 64 = n" by simp
  ultimately show "b64_number (b64_letters n) = Some n" "b64_number (take 3 (b64_letters n)) = Some (n div 64)"
    "b64_number (take 2 (b64_letters n)) = Some (n div 4096)"
    using b64_letters_less [OF assms]
    by (simp_all add: b64_number_def b64_letters_def numeral_2_eq_2 numeral_3_eq_3 del: mult_Suc mult_Suc_right)
qed

text \<open>Four letters of a number, as the list they are.\<close>

lemma b64_letters_list:
  assumes "n < 16777216"
  obtains c1 c2 c3 c4 where "b64_letters n = [c1, c2, c3, c4]"
    "\<forall>c \<in> {c1, c2, c3, c4}. c \<noteq> CHR ''='' \<and> c \<noteq> CHR 0x0A \<and> c \<noteq> CHR 0x0D"
  using that b64_letters_less [OF assms] by (force simp: b64_letters_def)

lemma b64_letters_plain: "n < 16777216 \<Longrightarrow> c \<in> set (b64_letters n) \<Longrightarrow> c \<noteq> CHR 0x0A \<and> c \<noteq> CHR 0x0D"
  by (erule b64_letters_list) auto

lemma b64_encode_plain: "c \<in> set (b64_encode bs) \<Longrightarrow> c \<noteq> CHR 0x0A \<and> c \<noteq> CHR 0x0D"
proof (induction bs rule: b64_encode.induct)
  case (2 a)
  then show ?case
    using b64_letters_plain [of "unat a * 65536" c] byte_digits(1) [of a 0 0] by (auto dest!: in_set_takeD)
next
  case (3 a b)
  then show ?case
    using b64_letters_plain [of "unat a * 65536 + unat b * 256" c] byte_digits(1) [of a b 0]
    by (auto dest!: in_set_takeD)
next
  case (4 a b c' r)
  then show ?case using b64_letters_plain [OF byte_digits(1), of c a b c'] by auto
qed simp

lemma b64_encode_no_breaks: "filter (\<lambda>c. c \<noteq> CHR 0x0A \<and> c \<noteq> CHR 0x0D) (b64_encode bs) = b64_encode bs"
  by (rule filter_True) (use b64_encode_plain in blast)

lemma b64_groups_encode: "b64_groups (b64_encode bs) = Some bs"
proof (induction bs rule: b64_encode.induct)
  case (2 a)
  have n: "unat a * 65536 < 16777216" using byte_digits(1) [of a 0 0] by simp
  obtain c1 c2 c3 c4 where c: "b64_letters (unat a * 65536) = [c1, c2, c3, c4]" using b64_letters_list [OF n] .
  have "b64_number [c1, c2] = Some (unat a * 65536 div 4096)" using b64_number_letters(3) [OF n] c by simp
  then show ?case using c by (simp add: byte_of_unat)
next
  case (3 a b)
  have n: "unat a * 65536 + unat b * 256 < 16777216" using byte_digits(1) [of a b 0] by simp
  obtain c1 c2 c3 c4 where c: "b64_letters (unat a * 65536 + unat b * 256) = [c1, c2, c3, c4]" "c3 \<noteq> CHR ''=''"
    using b64_letters_list [OF n] by (metis insertCI)
  have "b64_number [c1, c2, c3] = Some ((unat a * 65536 + unat b * 256) div 64)"
    using b64_number_letters(2) [OF n] c by simp
  moreover have "(unat a * 65536 + unat b * 256) div 64 div 1024 = unat a"
    "(unat a * 65536 + unat b * 256) div 64 div 4 = unat a * 256 + unat b"
    using byte_digits(2,3) [of a b 0] by (simp_all add: div_mult2_eq [symmetric])
  ultimately show ?case using c byte_of_unat(2) [of a b] by (simp add: byte_of_unat mult.commute)
next
  case (4 a b c r)
  let ?n = "unat a * 65536 + unat b * 256 + unat c"
  note n = byte_digits(1) [of a b c]
  obtain c1 c2 c3 c4 where c: "b64_letters ?n = [c1, c2, c3, c4]" "c3 \<noteq> CHR ''=''" "c4 \<noteq> CHR ''=''"
    using b64_letters_list [OF n] by (metis insertCI)
  have "b64_number [c1, c2, c3, c4] = Some ?n" using b64_number_letters(1) [OF n] c by simp
  then show ?case using c 4 by (simp add: byte_digits(2,3) byte_of_unat)
qed simp

lemma b64_decode_encode [simp]: "b64_decode (b64_encode bs) = Some bs"
  by (simp add: b64_decode_def b64_encode_no_breaks b64_groups_encode)

end
