(* ===== verification/Mesh.thy ===== *)
theory Mesh
  imports Master_Registry Base64
begin

unbundle bit_operations_syntax

text \<open>
  The WireGuard mesh of the master (\<^verbatim>\<open>internal/master/mesh.go\<close>): the assignment of keys,
  addresses and Docker subnets to nodes, the peer lists pushed to the agents, and the DNS
  records of instances. The random source, the scalar multiplication of the curve library
  and the remote calls are parameters. Configurations pushed to agents are the values of
  the definitions, in the order they are sent.
\<close>

section \<open>Keys\<close>

definition clamp_key :: "bytes \<Rightarrow> bytes" where
  "clamp_key k = k[0 := (k ! 0) AND 248, 31 := ((k ! 31) AND 127) OR 64]"

text \<open>
  \<open>rnd\<close> is what the random source delivers for the 32 bytes asked for, \<open>x25519\<close> the
  product of the scalar with the base point.
\<close>

definition generateWireGuardKeyPair ::
  "(bytes \<Rightarrow> bytes option) \<Rightarrow> bytes option \<Rightarrow> (string \<times> string) option" where
  "generateWireGuardKeyPair x25519 rnd =
     (case rnd of
        None \<Rightarrow> None
      | Some privBytes \<Rightarrow>
          (case x25519 (clamp_key privBytes) of
             None \<Rightarrow> None
           | Some pubBytes \<Rightarrow> Some (b64_encode (clamp_key privBytes), b64_encode pubBytes)))"

section \<open>Assignment at registration\<close>

definition deriveEndpoint :: "string \<Rightarrow> int \<Rightarrow> string" where
  "deriveEndpoint grpcAddr wgPort =
     (let host = (case last_index (CHR '':'') grpcAddr of
                    None \<Rightarrow> grpcAddr
                  | Some idx \<Rightarrow> if 0 < idx then take idx grpcAddr else grpcAddr)
      in if host = '''' \<or> host = ''0.0.0.0'' \<or> host = ''::'' then ''''
         else host @ '':'' @ itoa wgPort)"

definition wg_addr :: "int \<Rightarrow> string" where
  "wg_addr idx = ''10.10.0.'' @ itoa idx @ ''/16''"

definition docker_subnet :: "int \<Rightarrow> string" where
  "docker_subnet idx = ''172.30.'' @ itoa idx @ ''.0/24''"

text \<open>
  The assignment in two steps, as two handlers may interleave them: an index is read, and
  later the settings made from it are written.
\<close>

definition assign_wireguard ::
  "instant \<Rightarrow> Node \<Rightarrow> string \<times> string \<Rightarrow> int \<Rightarrow> DB \<Rightarrow> DB" where
  "assign_wireguard now node keys idx d =
     UpdateNodeWireGuard now (nID node) (snd keys) (fst keys) (wg_addr idx)
       (deriveEndpoint (nAddress node) 51820) 51820 (docker_subnet idx) d"

text \<open>
  \<open>installed\<close> answers for \<^verbatim>\<open>ensureWireGuardInstalled\<close>. The flag says whether the
  configuration is pushed to all agents afterwards.
\<close>

definition OnAgentRegistered ::
  "(string \<Rightarrow> bool) \<Rightarrow> (bytes \<Rightarrow> bytes option) \<Rightarrow> bytes option \<Rightarrow> instant \<Rightarrow> string \<Rightarrow> string \<Rightarrow> DB \<Rightarrow>
   DB \<times> bool" where
  "OnAgentRegistered installed x25519 rnd now agentID agentGRPCAddr d =
     (case GetNode agentID d of
        Inl e \<Rightarrow> (d, False)
      | Inr node \<Rightarrow>
          (case GetDefaultMesh d of
             Inl e \<Rightarrow> (d, False)
           | Inr mesh \<Rightarrow>
               if \<not> hEnabled mesh then (d, False)
               else if nWGPublicKey node \<noteq> '''' then (d, True)
               else if \<not> installed agentGRPCAddr then (d, False)
               else (case generateWireGuardKeyPair x25519 rnd of
                       None \<Rightarrow> (d, False)
                     | Some keys \<Rightarrow> (assign_wireguard now node keys (NextWGIndex d) d, True))))"

section \<open>Configuration of the agents\<close>

record WireGuardPeer =
  wpPublicKey :: string
  wpEndpoint :: string
  wpAllowedIps :: "string list"
  wpKeepalive :: int

record ConfigureWireGuardRequest =
  cwPrivateKey :: string
  cwAddress :: string
  cwListenPort :: int
  cwPeers :: "WireGuardPeer list"
  cwDnsListenIp :: string

definition wg_ip :: "Node \<Rightarrow> string" where
  "wg_ip n = hd (split_on (CHR ''/'') (nWGAddress n))"

definition allowed_ips :: "Node \<Rightarrow> string list" where
  "allowed_ips n = (wg_ip n @ ''/32'') # (if nDockerSubnet n \<noteq> '''' then [nDockerSubnet n] else [])"

definition buildPeersFor :: "string \<Rightarrow> Node list \<Rightarrow> WireGuardPeer list" where
  "buildPeersFor nodeID allNodes =
     map (\<lambda>n. \<lparr>wpPublicKey = nWGPublicKey n, wpEndpoint = nWGEndpoint n,
               wpAllowedIps = allowed_ips n, wpKeepalive = 25\<rparr>)
       (filter (\<lambda>n. \<not> (nID n = nodeID \<or> nWGPublicKey n = '''')) allNodes)"

definition pushConfigToAgent ::
  "GRPCServer \<Rightarrow> Node \<Rightarrow> WireGuardPeer list \<Rightarrow> (string \<times> ConfigureWireGuardRequest) option" where
  "pushConfigToAgent s node peers =
     map_option (\<lambda>agentAddr. (agentAddr,
        \<lparr>cwPrivateKey = nWGPrivateKey node, cwAddress = nWGAddress node,
         cwListenPort = wrap32 (nWGListenPort node), cwPeers = peers, cwDnsListenIp = wg_ip node\<rparr>))
       (GetAgentAddress (nID node) s)"

definition PushConfigToAllAgents :: "GRPCServer \<Rightarrow> (string \<times> ConfigureWireGuardRequest) list" where
  "PushConfigToAllAgents s =
     (let ns = ListNodesWithWireGuard (gsDB s) in
      List.map_filter (\<lambda>node. if \<not> IsAgentOnline (nID node) s then None
                              else pushConfigToAgent s node (buildPeersFor (nID node) ns)) ns)"

section \<open>DNS records\<close>

definition BuildDNSRecords :: "DB \<Rightarrow> DNSRecord list" where
  "BuildDNSRecords d =
     (case GetDefaultMesh d of
        Inl e \<Rightarrow> []
      | Inr mesh \<Rightarrow> if \<not> hEnabled mesh then [] else ListDNSRecords (hID mesh) d)"

definition RegisterInstanceDNS :: "instant \<Rightarrow> Instance \<Rightarrow> DB \<Rightarrow> DB" where
  "RegisterInstanceDNS now inst d =
     (case GetDefaultMesh d of
        Inl e \<Rightarrow> d
      | Inr mesh \<Rightarrow>
          if \<not> hEnabled mesh then d
          else (case ListInstanceNetworks (iID inst) d of
                  [] \<Rightarrow> d
                | x # xs \<Rightarrow>
                    let dnsName = (if xAlias x \<noteq> '''' then xAlias x else iName inst)
                    in if xIPAddress x = '''' then d
                       else (case UpsertDNSRecord now
                               \<lparr>eID = 0, eMeshID = hID mesh, eName = dnsName,
                                eFQDN = dnsName @ ''.'' @ hDomain mesh, eIPAddress = xIPAddress x,
                                eInstanceID = iID inst, eNodeID = iNodeID inst, eCreatedAt = 0\<rparr> d of
                               Inl e \<Rightarrow> d
                             | Inr d' \<Rightarrow> d')))"

definition UnregisterInstanceDNS :: "string \<Rightarrow> DB \<Rightarrow> DB" where
  "UnregisterInstanceDNS instanceID d = DeleteDNSRecordByInstance instanceID d"

section \<open>Reading an assigned address back\<close>

lemma sql_replace_free: "\<not> str_contains s old \<Longrightarrow> sql_replace old new s = s"
  by (induction s) (auto simp: has_prefix_def)

lemma sql_replace_prefix: "old \<noteq> [] \<Longrightarrow> sql_replace old new (old @ s) = new @ sql_replace old new s"
  by (cases old) (auto simp: has_prefix_iff)

lemma sql_replace_suffix:
  "x \<notin> set a \<Longrightarrow> sql_replace (x # old) new (a @ x # old) = a @ new"
  by (induction a) (auto simp: has_prefix_iff)

lemma cast_integer_itoa:
  assumes "0 \<le> i" and "i \<le> max_int64"
  shows "cast_integer (itoa i) = i"
proof -
  obtain c cs where e: "nat_digits (nat i) = c # cs" by (cases "nat_digits (nat i)") auto
  have sp: "\<not> is_space c" using nat_digits_nospace [of c "nat i"] e by simp
  have "\<forall>x \<in> set (c # cs). digit_val x \<noteq> None"
    using set_nat_digits [of _ "nat i"] e by fastforce
  then have "takeWhile (\<lambda>x. digit_val x \<noteq> None) (c # cs) = c # cs"
    by (simp only: takeWhile_eq_all_conv)
  then have "scan_uint (c # cs) = Some i"
    using parse_uint_nat_digits [of "nat i"] assms(1) unfolding e scan_uint_def by simp
  then show ?thesis
    using assms e sp hd_nat_digits [OF e]
    by (simp add: cast_integer_def itoa_nonneg sscanf_d_def trim_left_def int64_opt_def
        in_int64_def min_int64_def)
qed

lemma wg_index_wg_addr:
  assumes "0 \<le> i" and "i \<le> max_int64"
  shows "wg_index (wg_addr i) = i"
proof -
  have dot: "CHR ''.'' \<notin> set (itoa i @ ''/16'')" and slash: "CHR ''/'' \<notin> set (itoa i)"
    using assms by (simp_all add: itoa_nonneg nat_digits_not_in)
  have "\<not> str_contains (itoa i @ ''/16'') ''10.10.0.''"
  proof
    assume "str_contains (itoa i @ ''/16'') ''10.10.0.''"
    then obtain a b where "itoa i @ ''/16'' = a @ ''10.10.0.'' @ b" by (auto simp: str_contains_iff)
    then have "CHR ''.'' \<in> set (itoa i @ ''/16'')" by simp
    with dot show False by contradiction
  qed
  then have "sql_replace ''10.10.0.'' '''' (wg_addr i) = itoa i @ ''/16''"
    unfolding wg_addr_def by (subst sql_replace_prefix) (simp_all add: sql_replace_free)
  moreover have "sql_replace ''/16'' '''' (itoa i @ ''/16'') = itoa i"
    using sql_replace_suffix [OF slash] by simp
  ultimately show ?thesis
    using assms by (simp add: wg_index_def cast_integer_itoa)
qed

lemma itoa_eq: "0 \<le> i \<Longrightarrow> 0 \<le> j \<Longrightarrow> itoa i = itoa j \<longleftrightarrow> i = j"
  by (simp add: itoa_nonneg eq_nat_nat_iff)

lemma b64_encode_ne: "bs \<noteq> [] \<Longrightarrow> b64_encode bs \<noteq> ''''"
  by (cases bs rule: b64_encode.cases) (auto simp: b64_letters_def)

lemma generated_key_ne:
  assumes "generateWireGuardKeyPair x25519 rnd = Some keys" and "\<forall>k q. x25519 k = Some q \<longrightarrow> length q = 32"
  shows "snd keys \<noteq> ''''"
proof -
  obtain k q where "x25519 k = Some q" "snd keys = b64_encode q"
    using assms(1) by (auto simp: generateWireGuardKeyPair_def split: option.splits)
  moreover from this have "length q = 32" using assms(2) by blast
  ultimately show ?thesis
    using b64_encode_ne [of q] by (cases q) auto
qed

section \<open>Addresses and routes are unambiguous\<close>

text \<open>
  What the columns of a node look like after at most \<open>k\<close> assignments: nothing is set, or
  the address and the subnet come from one index between 1 and \<open>k\<close>.
\<close>

definition assigned :: "int \<Rightarrow> Node \<Rightarrow> bool" where
  "assigned i n \<longleftrightarrow> nWGPublicKey n \<noteq> '''' \<and> nWGAddress n = wg_addr i \<and> nDockerSubnet n = docker_subnet i"

definition node_mesh_ok :: "nat \<Rightarrow> Node \<Rightarrow> bool" where
  "node_mesh_ok k n \<longleftrightarrow>
     nWGPublicKey n = '''' \<and> nWGAddress n = '''' \<or> (\<exists>i. 1 \<le> i \<and> i \<le> int k \<and> assigned i n)"

definition mesh_ok :: "nat \<Rightarrow> DB \<Rightarrow> bool" where
  "mesh_ok k d \<longleftrightarrow> distinct (map nID (nodes d)) \<and> (\<forall>n \<in> set (nodes d). node_mesh_ok k n) \<and>
     distinct (filter (\<lambda>a. a \<noteq> '''') (map nWGAddress (nodes d)))"

text \<open>
  The steps of the master on the node table: every operation of the database that writes
  it, with the mesh the only caller of \<^const>\<open>UpdateNodeWireGuard\<close>, and operations on
  other tables.
\<close>

inductive mesh_step :: "(bytes \<Rightarrow> bytes option) \<Rightarrow> DB \<Rightarrow> DB \<Rightarrow> bool" for x25519 where
  "mesh_step x25519 d (fst (OnAgentRegistered installed x25519 rnd now agentID addr d))"
| "mesh_step x25519 d (UpsertNode now n d)"
| "CreateNode now n d = Inr d' \<Longrightarrow> mesh_step x25519 d d'"
| "mesh_step x25519 d (UpdateNodeStatus now i st d)"
| "mesh_step x25519 d (ResetAllStatus now d)"
| "mesh_step x25519 d (DeleteNode i d)"
| "nodes d' = nodes d \<Longrightarrow> mesh_step x25519 d d'"

lemma wg_addr_ne [simp]: "wg_addr i \<noteq> ''''" "'''' \<noteq> wg_addr i"
  by (simp_all add: wg_addr_def)

lemma wg_addr_eq: "0 \<le> i \<Longrightarrow> 0 \<le> j \<Longrightarrow> wg_addr i = wg_addr j \<longleftrightarrow> i = j"
  by (simp add: wg_addr_def itoa_eq)

lemma docker_subnet_eq: "0 \<le> i \<Longrightarrow> 0 \<le> j \<Longrightarrow> docker_subnet i = docker_subnet j \<longleftrightarrow> i = j"
  by (simp add: docker_subnet_def itoa_eq)

lemma node_mesh_ok_mono: "node_mesh_ok k n \<Longrightarrow> k \<le> k' \<Longrightarrow> node_mesh_ok k' n"
  by (force simp: node_mesh_ok_def)

lemma mesh_ok_mono: "mesh_ok k d \<Longrightarrow> k \<le> k' \<Longrightarrow> mesh_ok k' d"
  using node_mesh_ok_mono by (auto simp: mesh_ok_def)

text \<open>Writing rows without touching the mesh columns, adding a blank row, deleting rows.\<close>

lemma mesh_ok_rows:
  assumes "mesh_ok k d" and "nodes d' = row_update p f (nodes d)"
    and "\<And>n. nID (f n) = nID n" "\<And>n. nWGPublicKey (f n) = nWGPublicKey n"
      "\<And>n. nWGAddress (f n) = nWGAddress n" "\<And>n. nDockerSubnet (f n) = nDockerSubnet n"
  shows "mesh_ok k d'"
proof -
  define g where "g = (\<lambda>n. if p n then f n else n)"
  have e: "nodes d' = map g (nodes d)"
    using assms(2) by (simp add: row_update_def g_def)
  have g: "nID (g n) = nID n" "nWGAddress (g n) = nWGAddress n" "node_mesh_ok k (g n) = node_mesh_ok k n" for n
    using assms(3-6) by (simp_all add: g_def node_mesh_ok_def assigned_def)
  show ?thesis
    using assms(1) by (simp add: e g mesh_ok_def comp_def)
qed

lemma mesh_ok_new_node:
  assumes "mesh_ok k d" and "nID n \<notin> node_ids d" and "nodes d' = nodes d @ [new_node now n]"
  shows "mesh_ok k d'"
  using assms by (simp add: mesh_ok_def node_mesh_ok_def new_node_def node_ids_def)

lemma distinct_filter_map_filter:
  "distinct (filter P (map f xs)) \<Longrightarrow> distinct (filter P (map f (filter Q xs)))"
  by (induction xs) auto

lemma mesh_ok_delete:
  assumes "mesh_ok k d" and "nodes d' = row_delete p (nodes d)"
  shows "mesh_ok k d'"
  using assms by (simp add: mesh_ok_def row_delete_def distinct_map_filter distinct_filter_map_filter)

lemma distinct_assign:
  assumes "distinct (map nID ns)" and "distinct (filter P (map nWGAddress ns))" and "a \<notin> nWGAddress ` set ns"
  shows "distinct (filter P (map (\<lambda>n. if nID n = i then a else nWGAddress n) ns))"
  using assms
proof (induction ns)
  case (Cons n ns)
  show ?case
  proof (cases "nID n = i")
    case True
    have "map (\<lambda>n. if nID n = i then a else nWGAddress n) ns = map nWGAddress ns"
      using Cons.prems(1) True by (intro map_cong) (force simp: image_iff)+
    moreover have "distinct (filter P (map nWGAddress ns))" "a \<notin> nWGAddress ` set ns"
      using Cons.prems(2,3) by (auto split: if_splits)
    ultimately show ?thesis using True unfolding list.map by (simp only:) auto
  next
    case False
    have "nWGAddress n \<notin> set (filter P (map (\<lambda>n. if nID n = i then a else nWGAddress n) ns))" if "P (nWGAddress n)"
      using Cons.prems(2,3) that by (auto split: if_splits)
    moreover have "distinct (filter P (map nWGAddress ns))"
      using Cons.prems(2) by (simp split: if_splits)
    then have "distinct (filter P (map (\<lambda>n. if nID n = i then a else nWGAddress n) ns))"
      using Cons.IH Cons.prems(1,3) by simp
    ultimately show ?thesis using False by simp
  qed
qed simp

lemma next_index:
  assumes "mesh_ok k d" and "int k < max_int64"
  shows "1 \<le> NextWGIndex d" and "NextWGIndex d \<le> int k + 1"
    and "n \<in> set (nodes d) \<Longrightarrow> assigned i n \<Longrightarrow> 1 \<le> i \<Longrightarrow> i \<le> int k \<Longrightarrow> i < NextWGIndex d"
proof -
  define vs where "vs = map (\<lambda>n. wg_index (nWGAddress n)) (filter (\<lambda>n. nWGAddress n \<noteq> '''') (nodes d))"
  have range: "1 \<le> v \<and> v \<le> int k" if "v \<in> set vs" for v
  proof -
    obtain n where n: "n \<in> set (nodes d)" "nWGAddress n \<noteq> ''''" "v = wg_index (nWGAddress n)"
      using \<open>v \<in> set vs\<close> by (auto simp: vs_def)
    moreover from n(1) have "node_mesh_ok k n" using assms(1) by (simp add: mesh_ok_def)
    ultimately obtain i where "1 \<le> i" "i \<le> int k" "v = wg_index (wg_addr i)"
      by (auto simp: node_mesh_ok_def assigned_def)
    then show ?thesis using assms(2) by (simp add: wg_index_wg_addr)
  qed
  have N: "NextWGIndex d = (case vs of [] \<Rightarrow> 0 | i # is \<Rightarrow> fold max is i) + 1"
    by (simp add: NextWGIndex_def vs_def)
  have "NextWGIndex d - 1 \<in> insert 0 (set vs)"
    using N fold_max_in [of "tl vs" "hd vs"] by (cases vs) auto
  then have "NextWGIndex d = 1 \<or> 1 \<le> NextWGIndex d - 1 \<and> NextWGIndex d - 1 \<le> int k"
    using range [of "NextWGIndex d - 1"] by (elim insertE) simp_all
  then show "1 \<le> NextWGIndex d" "NextWGIndex d \<le> int k + 1"
    by linarith+
  assume "n \<in> set (nodes d)" "assigned i n" "1 \<le> i" "i \<le> int k"
  then have "i \<in> set vs"
    using assms(2) wg_index_wg_addr [of i] wg_addr_ne(1) [of i]
    unfolding vs_def assigned_def set_map set_filter by (intro image_eqI [of _ _ n]) simp_all
  then show "i < NextWGIndex d"
    using N fold_max_bound [of "hd vs" "tl vs"] by (cases vs) auto
qed

lemma assign_mesh_ok:
  assumes ok: "mesh_ok k d" and k: "int k < max_int64" and keys: "snd keys \<noteq> ''''"
  shows "mesh_ok (Suc k) (assign_wireguard now node keys (NextWGIndex d) d)"
proof -
  let ?i = "NextWGIndex d"
  define f where "f = (\<lambda>n :: Node. if nID n = nID node then n\<lparr>nWGPublicKey := snd keys, nWGPrivateKey := fst keys,
    nWGAddress := wg_addr ?i, nWGEndpoint := deriveEndpoint (nAddress node) 51820, nWGListenPort := 51820,
    nDockerSubnet := docker_subnet ?i, nUpdatedAt := current_timestamp now\<rparr> else n)"
  have rows: "nodes (assign_wireguard now node keys ?i d) = map f (nodes d)"
    by (simp add: assign_wireguard_def UpdateNodeWireGuard_def row_update_def f_def)
  have id: "nID (f n) = nID n" for n by (simp add: f_def)
  have node: "node_mesh_ok (Suc k) (f n)" if "n \<in> set (nodes d)" for n
  proof (cases "nID n = nID node")
    case True
    then have "assigned ?i (f n)" using keys by (simp add: f_def assigned_def)
    then show ?thesis using next_index(1,2) [OF ok k] by (auto simp: node_mesh_ok_def)
  next
    case False
    then show ?thesis using ok that node_mesh_ok_mono [of k n "Suc k"] by (simp add: f_def mesh_ok_def)
  qed
  have fresh: "nWGAddress n \<noteq> wg_addr ?i" if "n \<in> set (nodes d)" for n
  proof
    assume a: "nWGAddress n = wg_addr ?i"
    have "node_mesh_ok k n" using ok that by (simp add: mesh_ok_def)
    then obtain j where "1 \<le> j" "j \<le> int k" "assigned j n" using a by (auto simp: node_mesh_ok_def)
    then show False
      using next_index(3) [OF ok k that, of j] next_index(1) [OF ok k] a by (simp add: assigned_def wg_addr_eq)
  qed
  have addr: "map nWGAddress (map f (nodes d)) =
      map (\<lambda>n. if nID n = nID node then wg_addr ?i else nWGAddress n) (nodes d)"
    by (simp add: f_def)
  have "distinct (filter (\<lambda>a. a \<noteq> '''') (map nWGAddress (map f (nodes d))))"
    unfolding addr by (rule distinct_assign) (use ok fresh in \<open>simp_all add: mesh_ok_def image_iff, metis\<close>)
  then show ?thesis
    using ok node unfolding mesh_ok_def rows by (simp add: id comp_def)
qed

lemma OnAgentRegistered_mesh_ok:
  assumes "mesh_ok k d" and "int k < max_int64" and "\<forall>b q. x25519 b = Some q \<longrightarrow> length q = 32"
  shows "mesh_ok (Suc k) (fst (OnAgentRegistered installed x25519 rnd now a addr d))"
  using assms mesh_ok_mono [OF assms(1), of "Suc k"]
  by (auto simp: OnAgentRegistered_def intro!: assign_mesh_ok dest: generated_key_ne
      split: sum.splits option.splits)

lemma mesh_step_ok:
  assumes "mesh_step x25519 d d'" and "mesh_ok k d" and "int k < max_int64"
    and "\<forall>b q. x25519 b = Some q \<longrightarrow> length q = 32"
  shows "mesh_ok (Suc k) d'"
  using assms(1)
proof cases
  case 1
  then show ?thesis using OnAgentRegistered_mesh_ok [OF assms(2-4)] by simp
next
  case (2 now n)
  have "mesh_ok k d'"
  proof (cases "nID n \<in> node_ids d")
    case True
    then show ?thesis
      unfolding 2 UpsertNode_def by (auto intro!: mesh_ok_rows [OF assms(2)])
  next
    case False
    then show ?thesis
      using mesh_ok_new_node [OF assms(2) False] 2 by (simp add: UpsertNode_def)
  qed
  then show ?thesis by (simp add: mesh_ok_mono)
next
  case (3 now n)
  then have "mesh_ok k d'"
    using mesh_ok_new_node [OF assms(2)] by (auto simp: CreateNode_def split: if_splits)
  then show ?thesis by (simp add: mesh_ok_mono)
next
  case (4 now i st)
  have "mesh_ok k d'"
    unfolding 4 UpdateNodeStatus_def by (rule mesh_ok_rows [OF assms(2)], simp) simp_all
  then show ?thesis by (simp add: mesh_ok_mono)
next
  case (5 now)
  have "mesh_ok k d'"
    unfolding 5 ResetAllStatus_def by (rule mesh_ok_rows [OF assms(2)], simp) simp_all
  then show ?thesis by (simp add: mesh_ok_mono)
next
  case (6 i)
  have "mesh_ok k d'"
    unfolding 6 DeleteNode_def
    by (rule mesh_ok_delete [OF assms(2)]) (simp add: delete_instances_def Let_def)
  then show ?thesis by (simp add: mesh_ok_mono)
next
  case 7
  then have "mesh_ok k d'" using assms(2) by (simp add: mesh_ok_def)
  then show ?thesis by (simp add: mesh_ok_mono)
qed

lemma mesh_steps_ok:
  assumes "(mesh_step x25519 ^^ k) (migrated_db t0) d" and "int k < max_int64"
    and "\<forall>b q. x25519 b = Some q \<longrightarrow> length q = 32"
  shows "mesh_ok k d"
  using assms(1,2)
proof (induction k arbitrary: d)
  case 0
  then have "d = migrated_db t0" by simp
  then show ?case by (simp add: mesh_ok_def migrated_db_def)
next
  case (Suc k)
  then obtain d0 where "(mesh_step x25519 ^^ k) (migrated_db t0) d0" "mesh_step x25519 d0 d" by auto
  with Suc show ?case using mesh_step_ok [OF _ _ _ assms(3)] by simp
qed

lemma distinct_concat_filter: "distinct (concat (map f xs)) \<Longrightarrow> distinct (concat (map f (filter P xs)))"
  by (induction xs) auto

lemma distinct_concat_disjoint:
  assumes "distinct (concat (map f xs))" and "x \<in> set xs" "y \<in> set xs" "x \<noteq> y"
  shows "set (f x) \<inter> set (f y) = {}"
  using assms by (induction xs) auto

lemma distinct_map_order_by: "distinct (map f (order_by k xs)) \<longleftrightarrow> distinct (map f xs)"
proof -
  have "mset (map f (order_by k xs)) = mset (map f xs)" by (simp add: order_by_def)
  then show ?thesis by (rule mset_eq_imp_distinct_iff)
qed

lemma wg_ip_assigned: "0 \<le> i \<Longrightarrow> assigned i n \<Longrightarrow> wg_ip n = ''10.10.0.'' @ itoa i"
proof -
  assume a: "0 \<le> i" "assigned i n"
  then have "CHR ''/'' \<notin> set (''10.10.0.'' @ itoa i)" by (simp add: itoa_nonneg nat_digits_not_in)
  then have "split_on (CHR ''/'') ((''10.10.0.'' @ itoa i) @ CHR ''/'' # ''16'') =
      (''10.10.0.'' @ itoa i) # split_on (CHR ''/'') ''16''"
    by (rule split_on_append_sep)
  then show ?thesis using a by (simp add: wg_ip_def assigned_def wg_addr_def)
qed

lemma allowed_ips_assigned:
  "0 \<le> i \<Longrightarrow> assigned i n \<Longrightarrow> allowed_ips n = [''10.10.0.'' @ itoa i @ ''/32'', docker_subnet i]"
  using wg_ip_assigned [of i n] by (simp add: allowed_ips_def assigned_def docker_subnet_def)

lemma allowed_ips_distinct:
  assumes "\<And>n. n \<in> set ns \<Longrightarrow> 0 \<le> idx n \<and> assigned (idx n) n" and "distinct (map idx ns)"
  shows "distinct (concat (map allowed_ips ns))"
  using assms
proof (induction ns)
  case (Cons n ns)
  have "set (allowed_ips n) \<inter> set (allowed_ips m) = {}" if "m \<in> set ns" for m
  proof -
    have "idx n \<noteq> idx m" using Cons.prems(2) that by (auto simp: image_iff)
    then show ?thesis
      using Cons.prems(1) [of n] Cons.prems(1) [of m] that
      by (auto simp: allowed_ips_assigned [of "idx n"] allowed_ips_assigned [of "idx m"] docker_subnet_def itoa_eq)
  qed
  moreover have "distinct (allowed_ips n)"
    using Cons.prems(1) [of n] by (simp add: allowed_ips_assigned [of "idx n"] docker_subnet_def)
  ultimately show ?case using Cons by auto
qed simp

text \<open>The nodes that have settings, with their indices.\<close>

lemma mesh_indices:
  assumes "mesh_ok k d"
  obtains idx where "\<And>n. n \<in> set (ListNodesWithWireGuard d) \<Longrightarrow> 0 \<le> idx n \<and> assigned (idx n) n"
    and "distinct (map idx (ListNodesWithWireGuard d))"
proof -
  let ?ns = "ListNodesWithWireGuard d"
  have sub: "set ?ns \<subseteq> set (nodes d)" "\<And>n. n \<in> set ?ns \<Longrightarrow> nWGPublicKey n \<noteq> ''''"
    by (auto simp: ListNodesWithWireGuard_def order_by_def)
  have "\<exists>i. 0 \<le> i \<and> assigned i n" if "n \<in> set ?ns" for n
  proof -
    have "node_mesh_ok k n" using assms sub(1) that by (auto simp: mesh_ok_def)
    then obtain i where "1 \<le> i" "assigned i n" using sub(2) [OF \<open>n \<in> set ?ns\<close>] by (auto simp: node_mesh_ok_def)
    then show ?thesis by (intro exI [of _ i]) simp
  qed
  then obtain idx where idx: "\<And>n. n \<in> set ?ns \<Longrightarrow> 0 \<le> idx n \<and> assigned (idx n) n" by metis
  have keyed: "filter (\<lambda>n. nWGPublicKey n \<noteq> '''') xs = filter (\<lambda>n. nWGAddress n \<noteq> '''') xs"
    if "\<forall>n \<in> set xs. node_mesh_ok k n" for xs
  proof (rule filter_cong [OF refl])
    fix n assume "n \<in> set xs"
    then have "node_mesh_ok k n" using that by simp
    then show "(nWGPublicKey n \<noteq> '''') = (nWGAddress n \<noteq> '''')"
      by (auto simp: node_mesh_ok_def assigned_def)
  qed
  have "distinct (map nWGAddress (filter (\<lambda>n. nWGPublicKey n \<noteq> '''') (nodes d)))"
    using assms keyed [of "nodes d"] by (simp add: mesh_ok_def filter_map comp_def)
  then have "distinct (map nWGAddress ?ns)"
    by (simp add: ListNodesWithWireGuard_def distinct_map_order_by)
  moreover have "map nWGAddress ?ns = map (\<lambda>n. wg_addr (idx n)) ?ns"
    using idx by (auto simp: assigned_def)
  ultimately have "distinct (map wg_addr (map idx ?ns))" by (simp add: comp_def)
  then have "distinct (map idx ?ns)" unfolding distinct_map [of wg_addr] by blast
  with idx that show thesis by blast
qed


definition demo_register :: "(bytes \<Rightarrow> bytes option) \<Rightarrow> string \<Rightarrow> string \<Rightarrow> DB \<Rightarrow> DB" where
  "demo_register x25519 i name d =
     fst (OnAgentRegistered (\<lambda>_. True) x25519 (Some (replicate 32 7)) 0 i '''' (UpsertNode 0 (demo_node i name) d))"

definition demo_mesh :: "(bytes \<Rightarrow> bytes option) \<Rightarrow> DB" where
  "demo_mesh x25519 = demo_register x25519 ''n2'' ''beta'' (demo_register x25519 ''n1'' ''alpha'' (migrated_db 0))"

lemma demo_mesh_steps: "(mesh_step x25519 ^^ Suc (Suc (Suc (Suc 0)))) (migrated_db 0) (demo_mesh x25519)"
  unfolding demo_mesh_def demo_register_def
  by (rule relpowp_Suc_I relpowp_0_I mesh_step.intros(1,2))+

lemma demo_mesh_nodes:
  assumes "generateWireGuardKeyPair x25519 (Some (replicate 32 7)) = Some (priv, pub)" and "pub \<noteq> ''''"
  shows "nWGAddress ` set (ListNodesWithWireGuard (demo_mesh x25519)) = {''10.10.0.1/16'', ''10.10.0.2/16''}"
proof -
  let ?set = "\<lambda>i name idx. (new_node 0 (demo_node i name))\<lparr>nWGPublicKey := pub, nWGPrivateKey := priv,
    nWGAddress := wg_addr idx, nWGEndpoint := deriveEndpoint ''10.0.0.5:9091'' 51820, nWGListenPort := 51820,
    nDockerSubnet := docker_subnet idx, nUpdatedAt := current_timestamp 0\<rparr>"
  have reg: "nodes (demo_register x25519 i name d) = nodes d @ [?set i name (NextWGIndex d)] \<and>
      mesh_networks (demo_register x25519 i name d) = mesh_networks d"
    if "i \<notin> node_ids d" "mesh_networks d = [default_mesh 0]" for i name d
  proof -
    let ?n = "new_node 0 (demo_node i name)"
    have up: "UpsertNode 0 (demo_node i name) d = d\<lparr>nodes := nodes d @ [?n]\<rparr>"
      using that(1) by (simp add: UpsertNode_def demo_node_def)
    have "find (\<lambda>n. nID n = i) (nodes d) = None"
      using that(1) by (auto simp: find_None_iff node_ids_def)
    then have get: "GetNode i (d\<lparr>nodes := nodes d @ [?n]\<rparr>) = Inr ?n"
      by (simp add: GetNode_def query_row_append) (simp add: query_row_def new_node_def demo_node_def)
    have "NextWGIndex (d\<lparr>nodes := nodes d @ [?n]\<rparr>) = NextWGIndex d"
      by (simp add: NextWGIndex_def new_node_def)
    then have run: "demo_register x25519 i name d = assign_wireguard 0 ?n (priv, pub) (NextWGIndex d)
        (d\<lparr>nodes := nodes d @ [?n]\<rparr>)"
      using get up that(2) assms(1)
      by (simp add: demo_register_def OnAgentRegistered_def GetDefaultMesh_def GetMeshNetwork_def
          query_row_def default_mesh_def) (simp add: new_node_def)
    have "row_update (\<lambda>n. nID n = i) f (nodes d) = nodes d" for f
      using that(1) by (auto simp: row_update_def node_ids_def image_iff intro!: map_idI)
    then show ?thesis
      unfolding run by (simp add: assign_wireguard_def UpdateNodeWireGuard_def new_node_def demo_node_def)
         (simp add: row_update_def)
  qed
  define d1 where "d1 = demo_register x25519 ''n1'' ''alpha'' (migrated_db 0)"
  have d1: "nodes d1 = [?set ''n1'' ''alpha'' 1]" "mesh_networks d1 = [default_mesh 0]"
    using reg [of "''n1''" "migrated_db 0" "''alpha''"]
    by (simp_all add: d1_def migrated_db_def node_ids_def NextWGIndex_def)
  have id: "''n2'' \<notin> node_ids d1"
    unfolding node_ids_def d1(1) by (simp add: new_node_def demo_node_def)
  have "NextWGIndex d1 = 2"
    unfolding NextWGIndex_def d1(1) using wg_index_wg_addr [of 1] by (simp add: max_int64_def)
  then have rows: "nodes (demo_mesh x25519) = [?set ''n1'' ''alpha'' 1, ?set ''n2'' ''beta'' 2]"
    using reg [OF id d1(2)] unfolding d1(1) by (simp add: demo_mesh_def d1_def [symmetric])
  have digits: "itoa 1 = ''1''" "itoa 2 = ''2''"
    by (simp_all add: itoa_def nat_digits.simps digit_char_def char_of_def bit_simps)
  show ?thesis
    unfolding ListNodesWithWireGuard_def set_order_by rows using assms(2)
    by (simp add: wg_addr_def digits)
qed


text \<open>
  Two registrations that run at the same time may read the same next index. Both nodes
  then have the same address and the same Docker subnet.
\<close>

theorem concurrent_assignment_collides:
  assumes "db_ok d" and "a \<in> set (nodes d)" and "b \<in> set (nodes d)" and "nID a \<noteq> nID b"
  shows "\<exists>x y. let d' = assign_wireguard now2 b keys2 (NextWGIndex d)
                          (assign_wireguard now1 a keys1 (NextWGIndex d) d) in
     GetNode (nID a) d' = Inr x \<and> GetNode (nID b) d' = Inr y \<and>
     nWGAddress x = nWGAddress y \<and> nDockerSubnet x = nDockerSubnet y"
proof -
  have q: "query_row (\<lambda>n. nID n = nID a) (nodes d) = Inr a" "query_row (\<lambda>n. nID n = nID b) (nodes d) = Inr b"
    using assms by (simp_all add: query_row_key_iff db_okD)
  show ?thesis
    using q assms(4)
    by (simp add: Let_def GetNode_def assign_wireguard_def UpdateNodeWireGuard_def query_row_row_update)
qed

theorem concurrent_assignment_collides_witness:
  "(let d = UpsertNode 0 (demo_node ''n2'' ''beta'') demo_db;
        a = demo_node ''n1'' ''alpha''; b = demo_node ''n2'' ''beta'';
        d' = assign_wireguard 0 b (''p'', ''q'') (NextWGIndex d) (assign_wireguard 0 a (''k'', ''l'') (NextWGIndex d) d)
    in \<exists>x y. GetNode ''n1'' d' = Inr x \<and> GetNode ''n2'' d' = Inr y \<and> nWGAddress x = nWGAddress y)"
proof -
  define d where "d = UpsertNode 0 (demo_node ''n2'' ''beta'') demo_db"
  let ?a = "new_node 0 (demo_node ''n1'' ''alpha'')" and ?b = "new_node 0 (demo_node ''n2'' ''beta'')"
  have ids: "nID ?a = ''n1''" "nID ?b = ''n2''" by (simp_all add: demo_node_def new_node_def)
  have ok: "db_ok d" unfolding d_def by (rule UpsertNode_ok [OF demo_db_ok])
  have mem: "?a \<in> set (nodes d)" "?b \<in> set (nodes d)"
    by (simp_all add: d_def demo_db_def UpsertNode_def node_ids_def demo_node_def new_node_def)
  have same: "assign_wireguard 0 (new_node 0 n) = assign_wireguard 0 n" for n
    by (simp add: assign_wireguard_def fun_eq_iff new_node_def)
  show ?thesis
    using concurrent_assignment_collides [OF ok mem, of 0 "(''p'', ''q'')" 0 "(''k'', ''l'')"]
    unfolding ids same Let_def d_def [symmetric] by auto
qed

section \<open>DNS records of instances\<close>

text \<open>
  The record of an instance is published under its alias, or its name, in the domain of the
  mesh, with the address it has in its first network.
\<close>

lemma UpsertDNSRecord_published:
  assumes "eMeshID r \<in> hID ` set (mesh_networks d)"
  shows "\<exists>d'. UpsertDNSRecord now r d = Inr d' \<and> mesh_networks d' = mesh_networks d \<and>
    (\<exists>x \<in> set (at_rows (dns_records d')). eMeshID x = eMeshID r \<and> eFQDN x = eFQDN r \<and>
       eIPAddress x = eIPAddress r \<and> eInstanceID x = eInstanceID r \<and> eNodeID x = eNodeID r)"
proof (cases "\<exists>x \<in> set (at_rows (dns_records d)). eMeshID x = eMeshID r \<and> eFQDN x = eFQDN r")
  case True
  then obtain x where "x \<in> set (at_rows (dns_records d))" "eMeshID x = eMeshID r" "eFQDN x = eFQDN r" by blast
  with True show ?thesis
    by (simp add: UpsertDNSRecord_def auto_update_def auto_bump_def set_row_update del: if_image_distrib)
       (intro bexI [of _ x], simp_all)
next
  case False
  then have "UpsertDNSRecord now r d = Inr (d\<lparr>dns_records := auto_insert
      (\<lambda>n. r\<lparr>eID := n, eCreatedAt := current_timestamp now\<rparr>) (dns_records d)\<rparr>)"
    using assms unfolding UpsertDNSRecord_def by (simp only: if_False simp_thms)
  then show ?thesis by (simp add: auto_insert_def)
qed

lemma RegisterInstanceDNS_published:
  assumes mesh: "GetDefaultMesh d = Inr mesh" "hEnabled mesh" and id: "hID mesh \<noteq> ''''"
    and net: "ListInstanceNetworks (iID inst) d = x # xs" and ip: "xIPAddress x \<noteq> ''''"
  shows "\<exists>r \<in> set (BuildDNSRecords (RegisterInstanceDNS now inst d)).
    eFQDN r = (if xAlias x \<noteq> '''' then xAlias x else iName inst) @ ''.'' @ hDomain mesh \<and>
    eIPAddress r = xIPAddress x \<and> eInstanceID r = iID inst \<and> eNodeID r = iNodeID inst"
proof -
  let ?name = "if xAlias x \<noteq> '''' then xAlias x else iName inst"
  let ?r = "\<lparr>eID = 0, eMeshID = hID mesh, eName = ?name, eFQDN = ?name @ ''.'' @ hDomain mesh,
    eIPAddress = xIPAddress x, eInstanceID = iID inst, eNodeID = iNodeID inst, eCreatedAt = 0\<rparr>"
  have "mesh \<in> set (mesh_networks d)"
    using mesh(1) query_row_InrD [of "\<lambda>m. hID m = ''default''"]
    by (auto simp: GetDefaultMesh_def GetMeshNetwork_def)
  then obtain d' y where d': "UpsertDNSRecord now ?r d = Inr d'" "mesh_networks d' = mesh_networks d"
    and y: "y \<in> set (at_rows (dns_records d'))" "eMeshID y = hID mesh" "eFQDN y = eFQDN ?r"
      "eIPAddress y = xIPAddress x" "eInstanceID y = iID inst" "eNodeID y = iNodeID inst"
    using UpsertDNSRecord_published [of ?r d now] by auto
  have run: "RegisterInstanceDNS now inst d = d'"
    using mesh net ip d'(1) by (simp add: RegisterInstanceDNS_def Let_def)
  have "GetDefaultMesh d' = Inr mesh"
    using mesh(1) d'(2) by (simp add: GetDefaultMesh_def GetMeshNetwork_def)
  then have "y \<in> set (BuildDNSRecords d')"
    using mesh(2) id y by (simp add: BuildDNSRecords_def ListDNSRecords_def)
  with y show ?thesis unfolding run by (intro bexI [of _ y]) simp_all
qed

lemma UnregisterInstanceDNS_gone:
  "r \<in> set (BuildDNSRecords (UnregisterInstanceDNS i d)) \<Longrightarrow> eInstanceID r \<noteq> i"
  by (auto simp: BuildDNSRecords_def UnregisterInstanceDNS_def DeleteDNSRecordByInstance_def
      ListDNSRecords_def auto_delete_def row_delete_def split: sum.splits if_splits)


end
