(* ===== verification/Web_Auth.thy ===== *)
theory Web_Auth
  imports Mesh
begin

text \<open>
  Accounts and access control of the web server (\<^verbatim>\<open>internal/master/web/handler_auth.go\<close>,
  \<^verbatim>\<open>router.go\<close>): the session store, the middlewares, the handlers for signing up, logging in
  and managing users, the audit log they write, and the routes with their guards. The
  password hash of the library is given by \<open>hashpw\<close> (\<open>None\<close> if it fails) and \<open>checkpw\<close>.
  A request body is \<open>None\<close> if it cannot be bound. Handlers return the server and the
  reply; those that can only fail with the disk have no error branch for it.
\<close>

section \<open>Sessions\<close>

definition sessionMaxAge :: duration where
  "sessionMaxAge = 24 * hour_ns"

record session =
  ssUserID :: int
  ssUsername :: string
  ssRole :: string
  ssCreatedAt :: instant

type_synonym sessionStore = "(string, session) gomap"

text \<open>\<open>rnd\<close>: the 32 random bytes of the token.\<close>

definition ss_Create :: "bytes \<Rightarrow> instant \<Rightarrow> int \<Rightarrow> string \<Rightarrow> string \<Rightarrow> sessionStore \<Rightarrow> sessionStore \<times> string" where
  "ss_Create rnd now userID username role ss =
     (let token = hex_encode rnd in
      (map_put token \<lparr>ssUserID = userID, ssUsername = username, ssRole = role, ssCreatedAt = now\<rparr> ss, token))"

definition ss_Delete :: "string \<Rightarrow> sessionStore \<Rightarrow> sessionStore" where
  "ss_Delete token ss = map_del token ss"

definition ss_Get :: "instant \<Rightarrow> string \<Rightarrow> sessionStore \<Rightarrow> sessionStore \<times> session option" where
  "ss_Get now token ss =
     (case map_get ss token of
        None \<Rightarrow> (ss, None)
      | Some s \<Rightarrow> if sessionMaxAge < now - ssCreatedAt s then (ss_Delete token ss, None) else (ss, Some s))"

definition DeleteUserSessions :: "int \<Rightarrow> sessionStore \<Rightarrow> sessionStore" where
  "DeleteUserSessions userID ss = filter (\<lambda>p. ssUserID (snd p) \<noteq> userID) ss"

section \<open>The server and its middlewares\<close>

record web_server =
  wsDB :: DB
  wsSessions :: sessionStore

datatype reply =
    Redirect string
  | Json int string          \<comment> \<open>status code and message\<close>

text \<open>What the authentication middleware puts into the request context.\<close>

record user_context =
  ucUserID :: int
  ucUsername :: string
  ucRole :: string

type_synonym handler = "user_context \<Rightarrow> web_server \<Rightarrow> web_server \<times> reply"

definition authMiddleware :: "instant \<Rightarrow> string option \<Rightarrow> handler \<Rightarrow> web_server \<Rightarrow> web_server \<times> reply" where
  "authMiddleware now cookie next s =
     (case cookie of
        None \<Rightarrow> (s, Redirect ''/login'')
      | Some token \<Rightarrow>
          if token = '''' then (s, Redirect ''/login'')
          else case ss_Get now token (wsSessions s) of
            (ss, None) \<Rightarrow> (s\<lparr>wsSessions := ss\<rparr>, Redirect ''/login'')
          | (ss, Some sess) \<Rightarrow>
              next \<lparr>ucUserID = ssUserID sess, ucUsername = ssUsername sess, ucRole = ssRole sess\<rparr>
                (s\<lparr>wsSessions := ss\<rparr>))"

definition adminOnly :: "handler \<Rightarrow> handler" where
  "adminOnly next uc s =
     (if ucRole uc \<noteq> ''admin'' then (s, Json 403 ''admin permission is required'') else next uc s)"

definition adminOrEditor :: "handler \<Rightarrow> handler" where
  "adminOrEditor next uc s =
     (if ucRole uc \<noteq> ''admin'' \<and> ucRole uc \<noteq> ''editor''
      then (s, Json 403 ''edit permission is required'') else next uc s)"

section \<open>Audit log\<close>

definition audit ::
  "instant \<Rightarrow> user_context \<Rightarrow> string \<Rightarrow> string \<Rightarrow> string \<Rightarrow> string \<Rightarrow> string \<Rightarrow> string \<Rightarrow> string \<Rightarrow> string \<Rightarrow> DB \<Rightarrow> DB" where
  "audit now uc action targetType targetID targetName fieldName oldVal newVal detail d =
     CreateAuditLog now
       \<lparr>aID = 0, aTimestamp = 0, aUserID = Some (ucUserID uc),
        aUsername = (if ucUsername uc = '''' then ''system'' else ucUsername uc), aAction = action,
        aTargetType = targetType, aTargetID = targetID, aTargetName = targetName,
        aFieldName = fieldName, aOldValue = oldVal, aNewValue = newVal, aDetail = detail,
        aRolledBack = False, aCreatedAt = 0\<rparr> d"

text \<open>The arrow between two blanks, in UTF-8.\<close>

definition arrow :: string where
  "arrow = [CHR '' '', CHR 0xE2, CHR 0x86, CHR 0x92, CHR '' '']"

section \<open>Signing up, logging in and out\<close>

definition apiLogin ::
  "(string \<Rightarrow> string \<Rightarrow> bool) \<Rightarrow> bytes \<Rightarrow> instant \<Rightarrow> string \<Rightarrow> string \<Rightarrow> web_server \<Rightarrow> web_server \<times> reply" where
  "apiLogin checkpw rnd now username password s =
     (if username = '''' \<or> password = ''''
      then (s, Redirect ''/login?msg=ID and+password+please enter'')
      else case GetUserByUsername username (wsDB s) of
        Inl e \<Rightarrow> (s, Redirect ''/login?msg=ID+or+password+not valid+'')
      | Inr user \<Rightarrow>
          if \<not> checkpw (uPasswordHash user) password
          then (s, Redirect ''/login?msg=ID+or+password+not valid+'')
          else if \<not> uApproved user
          then (s, Redirect ''/login?msg=admin+signup+approve+pending+'')
          else (s\<lparr>wsSessions := fst (ss_Create rnd now (uID user) (uUsername user) (uRole user) (wsSessions s))\<rparr>,
                Redirect ''/''))"

definition apiLogout :: "string option \<Rightarrow> web_server \<Rightarrow> web_server \<times> reply" where
  "apiLogout cookie s =
     (case cookie of
        None \<Rightarrow> (s, Redirect ''/login'')
      | Some token \<Rightarrow>
          ((if token \<noteq> '''' then s\<lparr>wsSessions := ss_Delete token (wsSessions s)\<rparr> else s), Redirect ''/login''))"

definition apiRegister ::
  "(string \<Rightarrow> string option) \<Rightarrow> instant \<Rightarrow> string \<Rightarrow> string \<Rightarrow> string \<Rightarrow> web_server \<Rightarrow> web_server \<times> reply" where
  "apiRegister hashpw now username password confirmPassword s =
     (if username = '''' \<or> password = '''' then (s, Redirect ''/register?msg=all+field+please enter'')
      else if length username < 3 \<or> 32 < length username then (s, Redirect ''/register?msg=ID+3~32+'')
      else if length password < 4 then (s, Redirect ''/register?msg=password+4+must be at least+'')
      else if password \<noteq> confirmPassword then (s, Redirect ''/register?msg=password+mismatch+'')
      else case GetUserByUsername username (wsDB s) of
        Inr u \<Rightarrow> (s, Redirect ''/register?msg=already+use+in progress+ID'')
      | Inl e \<Rightarrow>
          (case hashpw password of
             None \<Rightarrow> (s, Redirect ''/register?msg=server+error+occurreddone'')
           | Some hash \<Rightarrow>
               (case CreateUser now
                       \<lparr>uID = 0, uUsername = username, uPasswordHash = hash, uRole = ''viewer'',
                        uApproved = False, uCreatedAt = 0, uUpdatedAt = 0\<rparr> (wsDB s) of
                  Inl e' \<Rightarrow> (s, Redirect ''/register?msg=sign up+failed'')
                | Inr d \<Rightarrow> (s\<lparr>wsDB := d\<rparr>,
                     Redirect ''/login?msg=sign up+completed.+admin+approve+waitplease.''))))"

section \<open>Managing users\<close>

text \<open>A path parameter read with \<^verbatim>\<open>fmt.Sscanf\<close>; 0 if it is not a number.\<close>

definition param_id :: "string \<Rightarrow> int" where
  "param_id s = (case sscanf_d s of None \<Rightarrow> 0 | Some i \<Rightarrow> i)"

definition user_name_or :: "int \<Rightarrow> DB \<Rightarrow> string" where
  "user_name_or i d = (case GetUserByID i d of Inl e \<Rightarrow> ''user#'' @ itoa i | Inr u \<Rightarrow> uUsername u)"

definition apiApproveUser :: "instant \<Rightarrow> string \<Rightarrow> handler" where
  "apiApproveUser now idStr uc s =
     (let i = param_id idStr;
          d1 = ApproveUser now i (wsDB s);
          name = user_name_or i d1
      in (s\<lparr>wsDB := audit now uc ''approve'' ''user'' (itoa i) name '''' '''' ''''
              (''approve user: '' @ name) d1\<rparr>,
          Json 200 ''approve''))"

definition apiRejectUser :: "instant \<Rightarrow> string \<Rightarrow> handler" where
  "apiRejectUser now idStr uc s =
     (let i = param_id idStr;
          name = user_name_or i (wsDB s);
          d1 = RejectUser i (wsDB s)
      in (s\<lparr>wsDB := audit now uc ''reject'' ''user'' (itoa i) name '''' '''' ''''
              (''user reject/delete: '' @ name) d1,
            wsSessions := DeleteUserSessions i (wsSessions s)\<rparr>,
          Json 200 ''deleted''))"

definition apiChangeRole :: "instant \<Rightarrow> string \<Rightarrow> string option \<Rightarrow> handler" where
  "apiChangeRole now idStr body uc s =
     (case body of
        None \<Rightarrow> (s, Json 400 ''valid role please select (admin, editor, viewer)'')
      | Some role \<Rightarrow>
          if role \<notin> set ValidRoles
          then (s, Json 400 ''valid role please select (admin, editor, viewer)'')
          else let i = param_id idStr;
                   oldRole = (case GetUserByID i (wsDB s) of Inl e \<Rightarrow> '''' | Inr u \<Rightarrow> uRole u);
                   name = user_name_or i (wsDB s);
                   d1 = UpdateUserRole now i role (wsDB s)
               in (s\<lparr>wsDB := audit now uc ''role_change'' ''user'' (itoa i) name ''role'' oldRole role
                       (''role change: '' @ name @ '' '' @ oldRole @ arrow @ role) d1,
                     wsSessions := DeleteUserSessions i (wsSessions s)\<rparr>,
                   Json 200 ''role change''))"

definition apiChangePassword ::
  "(string \<Rightarrow> string \<Rightarrow> bool) \<Rightarrow> (string \<Rightarrow> string option) \<Rightarrow> instant \<Rightarrow> string \<Rightarrow> (string \<times> string) option \<Rightarrow> handler" where
  "apiChangePassword checkpw hashpw now idStr body uc s =
     (let targetID = param_id idStr in
      if ucUserID uc \<noteq> targetID \<and> ucRole uc \<noteq> ''admin'' then (s, Json 403 ''permission denied'')
      else case body of
        None \<Rightarrow> (s, Json 400 ''invalid request'')
      | Some (currentPassword, newPassword) \<Rightarrow>
          if length newPassword < 4 then (s, Json 400 ''new password 4 must be at least '')
          else
            (let refused =
               (if ucUserID uc = targetID
                then (case GetUserByID targetID (wsDB s) of
                        Inl e \<Rightarrow> Some (Json 404 ''user not found'')
                      | Inr user \<Rightarrow>
                          if \<not> checkpw (uPasswordHash user) currentPassword
                          then Some (Json 400 ''current password not valid '') else None)
                else None)
             in case refused of
                  Some r \<Rightarrow> (s, r)
                | None \<Rightarrow>
                    (case hashpw newPassword of
                       None \<Rightarrow> (s, Json 500 ''server error'')
                     | Some hash \<Rightarrow>
                         let d1 = UpdateUserPassword now targetID hash (wsDB s);
                             name = user_name_or targetID d1
                         in (s\<lparr>wsDB := audit now uc ''update'' ''user'' (itoa targetID) name ''password'' ''***'' ''***''
                                 (''change password: '' @ name) d1,
                               wsSessions := DeleteUserSessions targetID (wsSessions s)\<rparr>,
                             Json 200 ''password change''))))"

definition apiChangeUsername :: "instant \<Rightarrow> string \<Rightarrow> string option \<Rightarrow> handler" where
  "apiChangeUsername now idStr body uc s =
     (let targetID = param_id idStr in
      if ucUserID uc \<noteq> targetID \<and> ucRole uc \<noteq> ''admin'' then (s, Json 403 ''permission denied'')
      else case body of
        None \<Rightarrow> (s, Json 400 ''new ID please enter'')
      | Some name \<Rightarrow>
          if name = '''' then (s, Json 400 ''new ID please enter'')
          else if length name < 3 \<or> 32 < length name then (s, Json 400 ''ID 3~32 '')
          else if (case GetUserByUsername name (wsDB s) of Inl e \<Rightarrow> False | Inr u \<Rightarrow> uID u \<noteq> targetID)
          then (s, Json 409 ''already use in progress ID'')
          else let oldUsername = user_name_or targetID (wsDB s) in
            (case UpdateUsername now targetID name (wsDB s) of
               Inl e \<Rightarrow> (s, Json 500 ''ID change failed'')
             | Inr d1 \<Rightarrow>
                 (s\<lparr>wsDB := audit now uc ''update'' ''user'' (itoa targetID) name ''username'' oldUsername name
                       (''ID change: '' @ oldUsername @ arrow @ name) d1,
                    wsSessions := DeleteUserSessions targetID (wsSessions s)\<rparr>,
                  Json 200 ''ID change'')))"

section \<open>Routes\<close>

datatype http_method = GET | POST | PUT | DELETE

text \<open>The middlewares in front of a handler: none, the login, or the login and a role.\<close>

datatype guard = Public | LoggedIn | EditorGroup | AdminGroup

type_synonym route = "http_method \<times> string \<times> string \<times> guard"

text \<open>The optional integrations: their paths when they are switched on.\<close>

record integrations =
  inPrometheus :: "string option"
  inMCOperator :: "string option"
  inImageGen :: bool

definition path_or :: "string \<Rightarrow> string \<Rightarrow> string" where
  "path_or path dflt = (if path = '''' then dflt else path)"

definition integration_routes :: "integrations \<Rightarrow> route list" where
  "integration_routes opts =
     (case inPrometheus opts of None \<Rightarrow> [] | Some p \<Rightarrow> [(GET, path_or p ''/metrics'', ''PrometheusHandler'', Public)]) @
     (case inMCOperator opts of None \<Rightarrow> [] | Some p \<Rightarrow> [(POST, path_or p ''/webhooks/jenkins'', ''handleJenkinsForward'', Public)])"

definition operator_routes :: "integrations \<Rightarrow> route list" where
  "operator_routes opts =
     (if inMCOperator opts = None then []
      else [(POST, ''/api/mcoperator/sync/:server'', ''apiMCOperatorSync'', AdminGroup),
            (GET, ''/api/mcoperator/servers'', ''apiMCOperatorServers'', AdminGroup)]) @
     (if inImageGen opts then [(POST, ''/api/mcoperator/imagegen'', ''apiMCOperatorImageGen'', AdminGroup)] else [])"

definition core_routes :: "route list" where
  "core_routes = [(GET, ''/login'', ''handleLoginPage'', Public),
    (POST, ''/login'', ''apiLogin'', Public),
    (GET, ''/register'', ''handleRegisterPage'', Public),
    (POST, ''/register'', ''apiRegister'', Public),
    (GET, ''/logout'', ''apiLogout'', Public),
    (GET, ''/'', ''handleDashboard'', LoggedIn),
    (GET, ''/nodes'', ''handleNodes'', LoggedIn),
    (GET, ''/nodes/:id'', ''handleNodeDetail'', LoggedIn),
    (GET, ''/instances'', ''handleInstances'', LoggedIn),
    (GET, ''/instances/:id'', ''handleInstanceDetail'', LoggedIn),
    (GET, ''/instances/:id/console'', ''handleConsole'', LoggedIn),
    (GET, ''/instances/:id/files'', ''handleFileManager'', LoggedIn),
    (GET, ''/instances/:id/database'', ''handleDatabaseBrowser'', LoggedIn),
    (GET, ''/sync'', ''handleSyncPage'', LoggedIn),
    (GET, ''/backups'', ''handleBackups'', LoggedIn),
    (GET, ''/networks'', ''handleNetworks'', LoggedIn),
    (GET, ''/mesh'', ''handleMesh'', LoggedIn),
    (GET, ''/profile'', ''handleProfilePage'', LoggedIn),
    (GET, ''/audit'', ''handleAuditPage'', LoggedIn),
    (GET, ''/users'', ''handleUsersPage'', AdminGroup),
    (GET, ''/api/instances/:id/metrics'', ''apiInstanceMetrics'', LoggedIn),
    (GET, ''/api/audit'', ''apiListAuditLogs'', LoggedIn),
    (GET, ''/api/nodes'', ''apiListNodes'', LoggedIn),
    (GET, ''/api/instances'', ''apiListInstances'', LoggedIn),
    (GET, ''/api/instances/:id'', ''apiGetInstance'', LoggedIn),
    (GET, ''/api/sync/history'', ''apiSyncHistory'', LoggedIn),
    (GET, ''/api/backups/:instanceId'', ''apiListBackups'', LoggedIn),
    (GET, ''/api/instances/:id/files'', ''apiListFiles'', LoggedIn),
    (GET, ''/api/instances/:id/files/read'', ''apiReadFile'', LoggedIn),
    (GET, ''/api/instances/:id/files/download'', ''apiDownloadFile'', LoggedIn),
    (GET, ''/api/instances/:id/files/history'', ''apiFileHistory'', LoggedIn),
    (GET, ''/api/sync/mappings'', ''apiListSyncMappings'', LoggedIn),
    (GET, ''/api/sync/mappings/:mappingId/targets'', ''apiListSyncTargets'', LoggedIn),
    (GET, ''/api/sync/files'', ''apiListSyncFiles'', LoggedIn),
    (GET, ''/api/sync/files/read'', ''apiReadSyncFile'', LoggedIn),
    (GET, ''/api/nodes/:id/docker'', ''apiCheckDocker'', LoggedIn),
    (GET, ''/api/networks'', ''apiListNetworks'', LoggedIn),
    (GET, ''/api/mesh/status'', ''apiMeshStatus'', LoggedIn),
    (GET, ''/api/mesh/dns'', ''apiListDNSRecords'', LoggedIn),
    (GET, ''/api/mesh/nodes/:id/wireguard'', ''apiWireGuardStatus'', LoggedIn),
    (POST, ''/api/instances/:id/control'', ''apiControlInstance'', EditorGroup),
    (POST, ''/api/instances/:id/query'', ''apiExecuteQuery'', EditorGroup),
    (PUT, ''/api/instances/:id'', ''apiUpdateInstance'', EditorGroup),
    (POST, ''/api/backups/:instanceId'', ''apiCreateBackup'', EditorGroup),
    (POST, ''/api/backups/:instanceId/restore'', ''apiRestoreBackup'', EditorGroup),
    (PUT, ''/api/instances/:id/files'', ''apiWriteFile'', EditorGroup),
    (DELETE, ''/api/instances/:id/files'', ''apiDeleteFile'', EditorGroup),
    (POST, ''/api/instances/:id/files/mkdir'', ''apiCreateDir'', EditorGroup),
    (POST, ''/api/instances/:id/files/rename'', ''apiRenameFile'', EditorGroup),
    (POST, ''/api/instances/:id/files/copy'', ''apiCopyFile'', EditorGroup),
    (POST, ''/api/instances/:id/files/move'', ''apiMoveFile'', EditorGroup),
    (POST, ''/api/instances/:id/files/batch-delete'', ''apiBatchDeleteFiles'', EditorGroup),
    (POST, ''/api/instances/:id/files/restore'', ''apiFileRestore'', EditorGroup),
    (POST, ''/api/instances/:id/files/upload'', ''apiUploadFile'', EditorGroup),
    (PUT, ''/api/sync/files'', ''apiWriteSyncFile'', EditorGroup),
    (DELETE, ''/api/sync/files'', ''apiDeleteSyncFile'', EditorGroup),
    (POST, ''/api/sync/files/mkdir'', ''apiCreateSyncDir'', EditorGroup),
    (POST, ''/api/sync/files/upload'', ''apiUploadSyncFile'', EditorGroup),
    (POST, ''/api/sync/mappings/:mappingId/execute'', ''apiExecuteSync'', EditorGroup),
    (POST, ''/api/instances'', ''apiCreateInstance'', AdminGroup),
    (DELETE, ''/api/instances/:id'', ''apiDeleteInstance'', AdminGroup),
    (POST, ''/api/nodes/:id/docker/install'', ''apiInstallDocker'', AdminGroup),
    (POST, ''/api/networks'', ''apiCreateNetwork'', AdminGroup),
    (DELETE, ''/api/networks/:id'', ''apiDeleteNetwork'', AdminGroup),
    (POST, ''/api/networks/:id/connect'', ''apiConnectNetwork'', AdminGroup),
    (POST, ''/api/networks/:id/disconnect'', ''apiDisconnectNetwork'', AdminGroup),
    (POST, ''/api/mesh/dns'', ''apiCreateDNSRecord'', AdminGroup),
    (DELETE, ''/api/mesh/dns/:instanceId'', ''apiDeleteDNSRecord'', AdminGroup),
    (POST, ''/api/sync/mappings'', ''apiCreateSyncMapping'', AdminGroup),
    (PUT, ''/api/sync/mappings/:id'', ''apiUpdateSyncMapping'', AdminGroup),
    (DELETE, ''/api/sync/mappings/:id'', ''apiDeleteSyncMapping'', AdminGroup),
    (POST, ''/api/sync/mappings/:mappingId/targets'', ''apiCreateSyncTarget'', AdminGroup),
    (PUT, ''/api/sync/mappings/:mappingId/targets/bulk'', ''apiBulkSetSyncTargets'', AdminGroup),
    (PUT, ''/api/sync/targets/:targetId'', ''apiUpdateSyncTarget'', AdminGroup),
    (DELETE, ''/api/sync/targets/:targetId'', ''apiDeleteSyncTarget'', AdminGroup),
    (POST, ''/api/audit/:id/rollback'', ''apiRollbackAuditLog'', AdminGroup),
    (POST, ''/api/users/:id/approve'', ''apiApproveUser'', AdminGroup),
    (POST, ''/api/users/:id/reject'', ''apiRejectUser'', AdminGroup),
    (PUT, ''/api/users/:id/role'', ''apiChangeRole'', AdminGroup),
    (DELETE, ''/api/users/:id'', ''apiRejectUser'', AdminGroup),
    (PUT, ''/api/users/:id/password'', ''apiChangePassword'', LoggedIn),
    (PUT, ''/api/users/:id/username'', ''apiChangeUsername'', LoggedIn),
    (GET, ''/ws/logs/:instanceId'', ''handleWSLogs'', LoggedIn),
    (GET, ''/htmx/nodes-table'', ''htmxNodesTable'', LoggedIn),
    (GET, ''/htmx/instances-table'', ''htmxInstancesTable'', LoggedIn),
    (GET, ''/htmx/dashboard-stats'', ''htmxDashboardStats'', LoggedIn),
    (GET, ''/htmx/sync-history'', ''htmxSyncHistory'', LoggedIn),
    (GET, ''/htmx/node-metrics/:id'', ''htmxNodeMetrics'', LoggedIn),
    (GET, ''/htmx/instance-status/:id'', ''htmxInstanceStatus'', LoggedIn),
    (GET, ''/htmx/instance-metrics/:id'', ''htmxInstanceMetrics'', LoggedIn),
    (GET, ''/htmx/backup-list/:instanceId'', ''htmxBackupList'', LoggedIn),
    (GET, ''/htmx/networks-table'', ''htmxNetworksTable'', LoggedIn)]"

definition registerRoutes :: "integrations \<Rightarrow> route list" where
  "registerRoutes opts =
     (GET, ''/static/*'', ''FileServer'', Public) # integration_routes opts @ core_routes @ operator_routes opts"

text \<open>The router keeps the handler that was added last for a method and a path.\<close>

definition route_is :: "http_method \<times> string \<Rightarrow> route \<Rightarrow> bool" where
  "route_is mp r \<longleftrightarrow> fst r = fst mp \<and> fst (snd r) = snd mp"

definition route_guard :: "integrations \<Rightarrow> http_method \<times> string \<Rightarrow> guard option" where
  "route_guard opts mp = map_option (snd \<circ> snd \<circ> snd) (find (route_is mp) (rev (registerRoutes opts)))"

definition no_user :: user_context where
  "no_user = \<lparr>ucUserID = 0, ucUsername = '''', ucRole = ''''\<rparr>"

fun guarded :: "guard \<Rightarrow> instant \<Rightarrow> string option \<Rightarrow> handler \<Rightarrow> web_server \<Rightarrow> web_server \<times> reply" where
  "guarded Public now cookie h s = h no_user s"
| "guarded LoggedIn now cookie h s = authMiddleware now cookie h s"
| "guarded EditorGroup now cookie h s = authMiddleware now cookie (adminOrEditor h) s"
| "guarded AdminGroup now cookie h s = authMiddleware now cookie (adminOnly h) s"

text \<open>The requests that concern accounts, with the route each one takes.\<close>

datatype account_request =
    Login bytes string string
  | Logout
  | Register string string string
  | Approve string
  | Reject string
  | DeleteAccount string
  | ChangeRole string "string option"
  | ChangePassword string "(string \<times> string) option"
  | ChangeUsername string "string option"

fun request_route :: "account_request \<Rightarrow> http_method \<times> string" where
  "request_route (Login _ _ _) = (POST, ''/login'')"
| "request_route Logout = (GET, ''/logout'')"
| "request_route (Register _ _ _) = (POST, ''/register'')"
| "request_route (Approve _) = (POST, ''/api/users/:id/approve'')"
| "request_route (Reject _) = (POST, ''/api/users/:id/reject'')"
| "request_route (DeleteAccount _) = (DELETE, ''/api/users/:id'')"
| "request_route (ChangeRole _ _) = (PUT, ''/api/users/:id/role'')"
| "request_route (ChangePassword _ _) = (PUT, ''/api/users/:id/password'')"
| "request_route (ChangeUsername _ _) = (PUT, ''/api/users/:id/username'')"

text \<open>The password library of the program, and the time and the cookie of a request.\<close>

record password_lib =
  plHash :: "string \<Rightarrow> string option"
  plCheck :: "string \<Rightarrow> string \<Rightarrow> bool"

fun account_handler :: "password_lib \<Rightarrow> instant \<Rightarrow> string option \<Rightarrow> account_request \<Rightarrow> handler" where
  "account_handler pl now cookie (Login rnd u p) uc s = apiLogin (plCheck pl) rnd now u p s"
| "account_handler pl now cookie Logout uc s = apiLogout cookie s"
| "account_handler pl now cookie (Register u p c) uc s = apiRegister (plHash pl) now u p c s"
| "account_handler pl now cookie (Approve i) uc s = apiApproveUser now i uc s"
| "account_handler pl now cookie (Reject i) uc s = apiRejectUser now i uc s"
| "account_handler pl now cookie (DeleteAccount i) uc s = apiRejectUser now i uc s"
| "account_handler pl now cookie (ChangeRole i b) uc s = apiChangeRole now i b uc s"
| "account_handler pl now cookie (ChangePassword i b) uc s =
     apiChangePassword (plCheck pl) (plHash pl) now i b uc s"
| "account_handler pl now cookie (ChangeUsername i b) uc s = apiChangeUsername now i b uc s"

definition serve ::
  "integrations \<Rightarrow> password_lib \<Rightarrow> instant \<Rightarrow> string option \<Rightarrow> account_request \<Rightarrow> web_server \<Rightarrow> web_server \<times> reply" where
  "serve opts pl now cookie req s =
     (case route_guard opts (request_route req) of
        None \<Rightarrow> (s, Json 404 ''Not Found'')
      | Some g \<Rightarrow> guarded g now cookie (account_handler pl now cookie req) s)"

definition NewServer :: "instant \<Rightarrow> bytes option \<Rightarrow> (string \<Rightarrow> string option) \<Rightarrow> DB \<Rightarrow> web_server" where
  "NewServer now rnd hashpw d = \<lparr>wsDB = fst (EnsureAdminUser now rnd hashpw d), wsSessions = []\<rparr>"

section \<open>Guards of the routes\<close>

lemma find_append: "find P (xs @ ys) = (case find P xs of None \<Rightarrow> find P ys | Some x \<Rightarrow> Some x)"
  by (induction xs) auto

fun request_guard :: "account_request \<Rightarrow> guard" where
  "request_guard (Login _ _ _) = Public"
| "request_guard Logout = Public"
| "request_guard (Register _ _ _) = Public"
| "request_guard (ChangePassword _ _) = LoggedIn"
| "request_guard (ChangeUsername _ _) = LoggedIn"
| "request_guard _ = AdminGroup"

lemma core_guards:
  "map_option (snd \<circ> snd \<circ> snd) (find (route_is (request_route req)) (rev core_routes)) = Some (request_guard req)"
  by (cases req; simp only: request_route.simps request_guard.simps) code_simp+

lemma operator_guards: "find (route_is (request_route req)) (rev (operator_routes opts)) = None"
  by (cases req; simp add: operator_routes_def route_is_def)

lemma account_guards: "route_guard opts (request_route req) = Some (request_guard req)"
proof -
  obtain r where "find (route_is (request_route req)) (rev core_routes) = Some r"
      "(snd \<circ> snd \<circ> snd) r = request_guard req"
    using core_guards [of req] by (auto simp del: o_apply)
  then show ?thesis
    by (simp add: route_guard_def registerRoutes_def find_append operator_guards)
qed

text \<open>
  Every route that is not a GET request and is not one of the five kinds listed is behind the
  editor or the administrator middleware.
\<close>

lemma mutating_routes_guarded:
  assumes "(me, path, h, g) \<in> set (registerRoutes opts)" and "me \<noteq> GET"
  shows "g = EditorGroup \<or> g = AdminGroup \<or>
    h \<in> {''apiLogin'', ''apiRegister'', ''apiChangePassword'', ''apiChangeUsername'', ''handleJenkinsForward''}"
proof -
  have "list_all (\<lambda>(me, path, h, g). me = GET \<or> g = EditorGroup \<or> g = AdminGroup \<or>
      h \<in> {''apiLogin'', ''apiRegister'', ''apiChangePassword'', ''apiChangeUsername''}) core_routes"
    by code_simp
  then show ?thesis
    using assms by (auto simp: registerRoutes_def integration_routes_def operator_routes_def list_all_iff
        split: option.splits if_splits)
qed

section \<open>Sessions and accounts\<close>

definition accounts :: "web_server \<Rightarrow> User list" where
  "accounts s = at_rows (users (wsDB s))"

text \<open>A session carries the name and the role of an approved account.\<close>

definition session_backed :: "User list \<Rightarrow> session \<Rightarrow> bool" where
  "session_backed us sess \<longleftrightarrow>
     (\<exists>u \<in> set us. uID u = ssUserID sess \<and> uApproved u \<and> uRole u = ssRole sess \<and> uUsername u = ssUsername sess)"

definition web_ok :: "web_server \<Rightarrow> bool" where
  "web_ok s \<longleftrightarrow> db_ok (wsDB s) \<and> map_ok (wsSessions s) \<and> (\<forall>u \<in> set (accounts s). uRole u \<in> set ValidRoles) \<and>
     (\<forall>p \<in> set (wsSessions s). session_backed (accounts s) (snd p))"

lemma web_okD:
  assumes "web_ok s"
  shows "db_ok (wsDB s)" "map_ok (wsSessions s)" "u \<in> set (accounts s) \<Longrightarrow> uRole u \<in> set ValidRoles"
    "map_get (wsSessions s) token = Some sess \<Longrightarrow> session_backed (accounts s) sess"
  using assms by (auto simp: web_ok_def dest!: map_get_SomeD)

lemma users_audit [simp]: "users (audit now uc a t i n f x y z d) = users d"
  by (simp add: audit_def CreateAuditLog_def)

lemma audit_ok: "db_ok d \<Longrightarrow> db_ok (audit now uc a t i n f x y z d)"
  by (simp add: audit_def CreateAuditLog_ok)

lemma map_ok_filter: "map_ok m \<Longrightarrow> map_ok (filter P m)"
  by (simp add: map_ok_def distinct_map_filter)

text \<open>
  Changing rows of one account while dropping its sessions: the sessions that stay belong to
  accounts that stay as they are.
\<close>

lemma web_ok_account_change:
  assumes ok: "web_ok s" and d: "db_ok d"
    and others: "\<And>u. u \<in> set (accounts s) \<Longrightarrow> uID u \<noteq> i \<Longrightarrow> u \<in> set (at_rows (users d))"
    and roles: "\<And>u. u \<in> set (at_rows (users d)) \<Longrightarrow> uRole u \<in> set ValidRoles"
  shows "web_ok (s\<lparr>wsDB := d, wsSessions := DeleteUserSessions i (wsSessions s)\<rparr>)"
proof -
  have "session_backed (at_rows (users d)) (snd p)" if "p \<in> set (DeleteUserSessions i (wsSessions s))" for p
  proof -
    have "session_backed (accounts s) (snd p)" "ssUserID (snd p) \<noteq> i"
      using ok that by (auto simp: web_ok_def DeleteUserSessions_def)
    then show ?thesis using others unfolding session_backed_def by metis
  qed
  then show ?thesis
    using ok d roles by (simp add: web_ok_def accounts_def DeleteUserSessions_def map_ok_filter)
qed

text \<open>Adding accounts and approving them keeps every session backed.\<close>

lemma web_ok_account_grow:
  assumes ok: "web_ok s" and d: "db_ok d"
    and keep: "\<And>u. u \<in> set (accounts s) \<Longrightarrow> \<exists>v \<in> set (at_rows (users d)). uID v = uID u \<and>
      uRole v = uRole u \<and> uUsername v = uUsername u \<and> (uApproved u \<longrightarrow> uApproved v)"
    and roles: "\<And>u. u \<in> set (at_rows (users d)) \<Longrightarrow> uRole u \<in> set ValidRoles"
  shows "web_ok (s\<lparr>wsDB := d\<rparr>)"
proof -
  have "session_backed (at_rows (users d)) sess" if "session_backed (accounts s) sess" for sess
    using that keep unfolding session_backed_def by metis
  then show ?thesis using ok d roles by (simp add: web_ok_def accounts_def)
qed

lemma web_ok_sessions:
  assumes "web_ok s" and "map_ok ss" and "set ss \<subseteq> set (wsSessions s)"
  shows "web_ok (s\<lparr>wsSessions := ss\<rparr>)"
  using assms by (auto simp: web_ok_def accounts_def)

lemma ss_Delete_ok: "web_ok s \<Longrightarrow> web_ok (s\<lparr>wsSessions := ss_Delete token (wsSessions s)\<rparr>)"
  by (rule web_ok_sessions) (auto simp: web_ok_def ss_Delete_def map_del_def map_ok_def distinct_map_filter)

lemma ss_Get_ok: "web_ok s \<Longrightarrow> ss_Get now token (wsSessions s) = (ss, r) \<Longrightarrow> web_ok (s\<lparr>wsSessions := ss\<rparr>)"
  by (auto simp: ss_Get_def ss_Delete_ok split: option.splits if_splits)

lemma apiLogin_ok: "web_ok s \<Longrightarrow> web_ok (fst (apiLogin checkpw rnd now u p s))"
proof -
  assume ok: "web_ok s"
  have "web_ok (s\<lparr>wsSessions := map_put tok \<lparr>ssUserID = uID a, ssUsername = uUsername a, ssRole = uRole a,
      ssCreatedAt = now\<rparr> (wsSessions s)\<rparr>)" if "GetUserByUsername u (wsDB s) = Inr a" "uApproved a" for tok a
  proof -
    have "a \<in> set (accounts s)"
      using that(1) query_row_InrD by (fastforce simp: GetUserByUsername_def accounts_def)
    then have "session_backed (accounts s) \<lparr>ssUserID = uID a, ssUsername = uUsername a, ssRole = uRole a,
      ssCreatedAt = now\<rparr>" using that(2) by (auto simp: session_backed_def)
    then show ?thesis using ok
      by (auto simp: web_ok_def accounts_def map_get_in_iff go_map_simps split: if_splits)
  qed
  with ok show ?thesis
    by (auto simp: apiLogin_def ss_Create_def Let_def split: sum.splits)
qed

lemma at_rows_update: "at_rows (auto_update p f t) = row_update p f (at_rows t)"
  by (simp add: auto_update_def)

lemma apiRegister_ok: "web_ok s \<Longrightarrow> web_ok (fst (apiRegister hashpw now u p c s))"
proof -
  assume ok: "web_ok s"
  have "web_ok (s\<lparr>wsDB := d\<rparr>)" if "CreateUser now a (wsDB s) = Inr d" "uRole a = ''viewer''" for a d
  proof (rule web_ok_account_grow [OF ok])
    show "db_ok d" using CreateUser_ok [OF web_okD(1) [OF ok] that(1)] .
    show "\<exists>v \<in> set (at_rows (users d)). uID v = uID x \<and> uRole v = uRole x \<and> uUsername v = uUsername x \<and>
        (uApproved x \<longrightarrow> uApproved v)" if "x \<in> set (accounts s)" for x
      using that \<open>CreateUser now a (wsDB s) = Inr d\<close>
      by (auto simp: CreateUser_def auto_insert_def accounts_def split: if_splits)
    show "uRole x \<in> set ValidRoles" if "x \<in> set (at_rows (users d))" for x
      using that \<open>CreateUser now a (wsDB s) = Inr d\<close> \<open>uRole a = ''viewer''\<close> web_okD(3) [OF ok, of x]
      by (auto simp: CreateUser_def auto_insert_def accounts_def ValidRoles_def split: if_splits)
  qed
  with ok show ?thesis
    by (auto simp: apiRegister_def split: sum.splits option.splits)
qed

lemma apiApproveUser_ok: "web_ok s \<Longrightarrow> web_ok (fst (apiApproveUser now i uc s))"
proof -
  assume ok: "web_ok s"
  let ?d = "ApproveUser now (param_id i) (wsDB s)"
  have rows: "set (at_rows (users ?d)) = (\<lambda>u. if uID u = param_id i
      then u\<lparr>uApproved := True, uUpdatedAt := current_timestamp now\<rparr> else u) ` set (accounts s)"
    by (simp add: ApproveUser_def at_rows_update set_row_update accounts_def del: if_image_distrib)
  have keep: "\<exists>v \<in> set (at_rows (users ?d)). uID v = uID u \<and> uRole v = uRole u \<and> uUsername v = uUsername u \<and>
      (uApproved u \<longrightarrow> uApproved v)" if "u \<in> set (accounts s)" for u
    unfolding rows using that by (intro bexI [OF _ imageI [OF that]]) simp
  show ?thesis
    unfolding apiApproveUser_def Let_def fst_conv
    by (rule web_ok_account_grow [OF ok], rule audit_ok, rule ApproveUser_ok, rule web_okD(1) [OF ok])
       (use keep web_okD(3) [OF ok] in \<open>auto simp: rows\<close>)
qed

lemma apiRejectUser_ok: "web_ok s \<Longrightarrow> web_ok (fst (apiRejectUser now i uc s))"
proof -
  assume ok: "web_ok s"
  show ?thesis
    unfolding apiRejectUser_def Let_def fst_conv
    by (rule web_ok_account_change [OF ok], rule audit_ok, rule RejectUser_ok, rule web_okD(1) [OF ok])
       (use web_okD(3) [OF ok] in \<open>auto simp: RejectUser_def auto_delete_def row_delete_def accounts_def\<close>)
qed

text \<open>Updates of one account that keep a valid role.\<close>

lemma web_ok_account_update:
  assumes ok: "web_ok s" and d: "db_ok d"
    and rows: "at_rows (users d) = row_update (\<lambda>u. uID u = i) f (accounts s)"
    and role: "\<And>u. u \<in> set (accounts s) \<Longrightarrow> uRole (f u) \<in> set ValidRoles"
  shows "web_ok (s\<lparr>wsDB := d, wsSessions := DeleteUserSessions i (wsSessions s)\<rparr>)"
proof (rule web_ok_account_change [OF ok d])
  fix u assume "u \<in> set (accounts s)" "uID u \<noteq> i"
  then show "u \<in> set (at_rows (users d))" unfolding rows set_row_update by (intro image_eqI [of _ _ u]) simp_all
next
  fix u assume "u \<in> set (at_rows (users d))"
  then show "uRole u \<in> set ValidRoles"
    unfolding rows set_row_update using role web_okD(3) [OF ok] by (auto split: if_splits)
qed

lemma apiChangeRole_ok: "web_ok s \<Longrightarrow> web_ok (fst (apiChangeRole now i b uc s))"
  by (auto simp: apiChangeRole_def Let_def UpdateUserRole_def at_rows_update accounts_def audit_ok
      web_okD(1) UpdateUserRole_ok [unfolded UpdateUserRole_def]
      intro!: web_ok_account_update split: option.splits)

lemma apiChangePassword_ok: "web_ok s \<Longrightarrow> web_ok (fst (apiChangePassword ck h now i b uc s))"
  by (auto simp: apiChangePassword_def Let_def UpdateUserPassword_def at_rows_update accounts_def audit_ok
      web_okD(1) web_okD(3) [unfolded accounts_def] UpdateUserPassword_ok [unfolded UpdateUserPassword_def]
      intro!: web_ok_account_update split: option.splits sum.splits)

lemma apiChangeUsername_ok: "web_ok s \<Longrightarrow> web_ok (fst (apiChangeUsername now i b uc s))"
proof -
  assume ok: "web_ok s"
  have "web_ok (s\<lparr>wsDB := audit now uc a t n m f x y z d, wsSessions := DeleteUserSessions k (wsSessions s)\<rparr>)"
    if "UpdateUsername now k name (wsDB s) = Inr d" for a t n m f x y z k name d
  proof (rule web_ok_account_update [OF ok])
    show "db_ok (audit now uc a t n m f x y z d)"
      using UpdateUsername_ok [OF web_okD(1) [OF ok] that] by (rule audit_ok)
    show "at_rows (users (audit now uc a t n m f x y z d)) = row_update (\<lambda>u. uID u = k)
        (\<lambda>u. u\<lparr>uUsername := name, uUpdatedAt := current_timestamp now\<rparr>) (accounts s)"
      using that by (auto simp: UpdateUsername_def at_rows_update accounts_def split: if_splits)
  qed (simp add: web_okD(3) [OF ok])
  with ok show ?thesis
    by (auto simp: apiChangeUsername_def Let_def split: option.splits sum.splits)
qed

lemmas account_handlers_ok = apiLogin_ok apiRegister_ok apiApproveUser_ok apiRejectUser_ok
  apiChangeRole_ok apiChangePassword_ok apiChangeUsername_ok

lemma account_handler_ok: "web_ok s \<Longrightarrow> web_ok (fst (account_handler pl now cookie req uc s))"
  by (cases req) (auto simp: account_handlers_ok apiLogout_def ss_Delete_ok split: option.splits)

lemma authMiddleware_ok:
  assumes "web_ok s" and "\<And>uc s. web_ok s \<Longrightarrow> web_ok (fst (h uc s))"
  shows "web_ok (fst (authMiddleware now cookie h s))"
  using assms by (auto simp: authMiddleware_def split: option.splits prod.splits dest: ss_Get_ok)

lemma guarded_ok:
  assumes "web_ok s" and "\<And>uc s. web_ok s \<Longrightarrow> web_ok (fst (h uc s))"
  shows "web_ok (fst (guarded g now cookie h s))"
  using assms by (cases g) (auto simp: adminOnly_def adminOrEditor_def intro!: authMiddleware_ok)

lemma serve_ok: "web_ok s \<Longrightarrow> web_ok (fst (serve opts pl now cookie req s))"
  by (simp add: serve_def account_guards guarded_ok account_handler_ok)

lemma EnsureAdminUser_roles:
  assumes "\<forall>u \<in> set (at_rows (users d)). uRole u \<in> set ValidRoles"
  shows "\<forall>u \<in> set (at_rows (users (fst (EnsureAdminUser now rnd hashpw d)))). uRole u \<in> set ValidRoles"
  using assms
  by (auto simp: EnsureAdminUser_def Let_def CreateUser_def auto_insert_def ValidRoles_def
      split: option.splits sum.splits if_splits)

lemma NewServer_ok:
  assumes "db_ok d" and "\<forall>u \<in> set (at_rows (users d)). uRole u \<in> set ValidRoles"
  shows "web_ok (NewServer now rnd hashpw d)"
  using assms EnsureAdminUser_roles [OF assms(2)]
  by (simp add: NewServer_def web_ok_def accounts_def EnsureAdminUser_ok)

text \<open>
  A run of the web server: account requests, operations of other handlers on other tables,
  and restarts, which lose the sessions.
\<close>

inductive web_step :: "integrations \<Rightarrow> password_lib \<Rightarrow> web_server \<Rightarrow> web_server \<Rightarrow> bool" for opts pl where
  request: "web_step opts pl s (fst (serve opts pl now cookie req s))"
| other: "store_step (wsDB s) d \<Longrightarrow> users d = users (wsDB s) \<Longrightarrow> web_step opts pl s (s\<lparr>wsDB := d\<rparr>)"
| restart: "web_step opts pl s (NewServer now rnd (plHash pl) (wsDB s))"

lemma web_step_ok: "web_step opts pl s s' \<Longrightarrow> web_ok s \<Longrightarrow> web_ok s'"
proof (induction rule: web_step.induct)
  case (other s d)
  then show ?case
    using store_step_ok [OF other(1)] by (simp add: web_ok_def accounts_def)
next
  case (restart s now rnd)
  then show ?case by (intro NewServer_ok) (auto simp: web_ok_def accounts_def)
qed (simp add: serve_ok)

lemma web_steps_ok:
  assumes "(web_step opts pl)\<^sup>*\<^sup>* (NewServer now rnd (plHash pl) (migrated_db t0)) s"
  shows "web_ok s"
  using assms
proof (induction rule: rtranclp_induct)
  case base
  show ?case by (rule NewServer_ok) (simp_all add: migrated_db_ok, simp add: migrated_db_def auto_empty_def)
qed (simp add: web_step_ok)

text \<open>
  C5. In every state the web server reaches, each stored session belongs to an account that
  exists, is approved and still has the name and the role the session carries: a session is
  never worth more than the account it was opened for, also after the role, the name or the
  password was changed or the account was deleted.
\<close>

theorem sessions_reflect_accounts:
  assumes "(web_step opts pl)\<^sup>*\<^sup>* (NewServer now rnd (plHash pl) (migrated_db t0)) s"
    and "map_get (wsSessions s) token = Some sess"
  shows "\<exists>u. GetUserByID (ssUserID sess) (wsDB s) = Inr u \<and> uApproved u \<and> uRole u = ssRole sess \<and>
    uUsername u = ssUsername sess \<and> uRole u \<in> set ValidRoles"
proof -
  have ok: "web_ok s" by (rule web_steps_ok [OF assms(1)])
  obtain u where u: "u \<in> set (accounts s)" "uID u = ssUserID sess" "uApproved u" "uRole u = ssRole sess"
      "uUsername u = ssUsername sess"
    using web_okD(4) [OF ok assms(2)] by (auto simp: session_backed_def)
  have "distinct (map uID (at_rows (users (wsDB s))))"
    using web_okD(1) [OF ok] by (simp add: db_ok_defs auto_ok_def)
  then have "GetUserByID (ssUserID sess) (wsDB s) = Inr u"
    using u(1,2) by (simp add: GetUserByID_def query_row_key_iff accounts_def)
  with u web_okD(3) [OF ok u(1)] show ?thesis by blast
qed

text \<open>The approved accounts with their roles: what the guards of the routes look at.\<close>

definition powers :: "web_server \<Rightarrow> (int \<times> string) set" where
  "powers s = (\<lambda>u. (uID u, uRole u)) ` set (filter uApproved (accounts s))"

text \<open>The request comes with a live session of an approved administrator.\<close>

definition from_admin :: "instant \<Rightarrow> string option \<Rightarrow> web_server \<Rightarrow> bool" where
  "from_admin now cookie s \<longleftrightarrow> (\<exists>token sess u. cookie = Some token \<and> map_get (wsSessions s) token = Some sess \<and>
     now - ssCreatedAt sess \<le> sessionMaxAge \<and> GetUserByID (ssUserID sess) (wsDB s) = Inr u \<and>
     uApproved u \<and> uRole u = ''admin'')"

lemma backed_account:
  assumes "web_ok s" and "map_get (wsSessions s) token = Some sess"
  obtains u where "GetUserByID (ssUserID sess) (wsDB s) = Inr u" "uApproved u" "uRole u = ssRole sess"
proof -
  obtain u where u: "u \<in> set (accounts s)" "uID u = ssUserID sess" "uApproved u" "uRole u = ssRole sess"
    using web_okD(4) [OF assms] by (auto simp: session_backed_def)
  have "distinct (map uID (at_rows (users (wsDB s))))"
    using web_okD(1) [OF assms(1)] by (simp add: db_ok_defs auto_ok_def)
  then have "GetUserByID (ssUserID sess) (wsDB s) = Inr u"
    using u(1,2) by (simp add: GetUserByID_def query_row_key_iff accounts_def)
  with u that show thesis by blast
qed

lemma admin_guard:
  assumes "web_ok s" and "\<not> from_admin now cookie s"
  shows "wsDB (fst (authMiddleware now cookie (adminOnly h) s)) = wsDB s"
proof -
  have "ssRole sess \<noteq> ''admin''"
    if "cookie = Some token" "map_get (wsSessions s) token = Some sess" "\<not> sessionMaxAge < now - ssCreatedAt sess"
    for token sess
  proof
    assume "ssRole sess = ''admin''"
    moreover obtain u where "GetUserByID (ssUserID sess) (wsDB s) = Inr u" "uApproved u" "uRole u = ssRole sess"
      by (rule backed_account [OF assms(1) \<open>map_get (wsSessions s) token = Some sess\<close>])
    ultimately show False using assms(2) that by (auto simp: from_admin_def)
  qed
  then show ?thesis
    by (auto simp: authMiddleware_def adminOnly_def ss_Get_def split: option.splits)
qed

lemma powers_sessions [simp]: "powers (s\<lparr>wsSessions := ss\<rparr>) = powers s"
  by (simp add: powers_def accounts_def)

lemma powers_register: "powers (fst (apiRegister hashpw now u p c s)) \<subseteq> powers s"
  by (auto simp: apiRegister_def powers_def accounts_def CreateUser_def auto_insert_def
       split: if_splits sum.splits option.splits)

lemma powers_update:
  assumes "at_rows (users d) = row_update p f (accounts s)"
    and "\<And>u. uID (f u) = uID u" "\<And>u. uRole (f u) = uRole u" "\<And>u. uApproved (f u) = uApproved u"
  shows "powers (s\<lparr>wsDB := d, wsSessions := ss\<rparr>) = powers s"
proof -
  have "(\<lambda>u. (uID u, uRole u)) ` set (filter uApproved (row_update p f us)) =
      (\<lambda>u. (uID u, uRole u)) ` set (filter uApproved us)" for us
    using assms(2-4) by (induction us) (auto simp: row_update_def)
  then show ?thesis by (simp add: powers_def accounts_def assms(1) [unfolded accounts_def])
qed

lemma powers_password: "powers (fst (apiChangePassword ck h now i b uc s)) = powers s"
proof -
  have "powers (s\<lparr>wsDB := audit now uc a t n m f x y z (UpdateUserPassword now k hash (wsDB s)), wsSessions := ss\<rparr>) =
      powers s" for a t n m f x y z k hash ss
    by (rule powers_update [where f = "\<lambda>u. u\<lparr>uPasswordHash := hash, uUpdatedAt := current_timestamp now\<rparr>"])
       (simp_all add: UpdateUserPassword_def at_rows_update accounts_def)
  then show ?thesis
    by (simp add: apiChangePassword_def Let_def split: sum.splits option.splits)
qed

lemma powers_username: "powers (fst (apiChangeUsername now i b uc s)) = powers s"
proof -
  have "powers (s\<lparr>wsDB := audit now uc a t n m f x y z d, wsSessions := ss\<rparr>) = powers s"
    if "UpdateUsername now k name (wsDB s) = Inr d" for a t n m f x y z k name d ss
    by (rule powers_update [where f = "\<lambda>u. u\<lparr>uUsername := name, uUpdatedAt := current_timestamp now\<rparr>"])
       (use that in \<open>auto simp: UpdateUsername_def at_rows_update accounts_def split: if_splits\<close>)
  then show ?thesis
    by (simp add: apiChangeUsername_def Let_def split: sum.splits option.splits)
qed

lemma powers_auth:
  assumes "\<And>uc s. powers (fst (h uc s)) \<subseteq> powers s"
  shows "powers (fst (authMiddleware now cookie h s)) \<subseteq> powers s"
  using assms [of _ "s\<lparr>wsSessions := _\<rparr>"] assms [of _ s]
  by (simp add: authMiddleware_def ss_Get_def split: option.splits)

lemma serve_guarded:
  "serve opts pl now cookie req s = guarded (request_guard req) now cookie (account_handler pl now cookie req) s"
  by (simp add: serve_def account_guards)

text \<open>
  C3. Nobody but an administrator gives power: if a request makes an account approved or
  changes the role of an approved account, it came with a live session of an approved
  administrator. Signing up, logging in and the self-service requests never do.
\<close>

theorem no_privilege_escalation:
  assumes "(web_step opts pl)\<^sup>*\<^sup>* (NewServer t rnd (plHash pl) (migrated_db t0)) s"
  shows "powers (fst (serve opts pl now cookie req s)) \<subseteq> powers s \<or>
    from_admin now cookie s \<and> request_guard req = AdminGroup"
proof -
  have ok: "web_ok s" by (rule web_steps_ok [OF assms])
  show ?thesis
  proof (cases "request_guard req")
    case AdminGroup
    have "powers (fst (serve opts pl now cookie req s)) \<subseteq> powers s" if "\<not> from_admin now cookie s"
      using admin_guard [OF ok that] AdminGroup by (simp add: serve_guarded powers_def accounts_def)
    with AdminGroup show ?thesis by blast
  next
    case LoggedIn
    then have "powers (fst (account_handler pl now cookie req uc s)) \<subseteq> powers s" for uc s
      by (cases req) (simp_all add: powers_password powers_username)
    with LoggedIn show ?thesis by (simp add: serve_guarded powers_auth)
  next
    case Public
    then show ?thesis
      by (cases req) (simp_all add: serve_guarded apiLogin_def apiLogout_def powers_register
          split: sum.splits option.splits)
  next
    case EditorGroup
    then show ?thesis by (cases req) simp_all
  qed
qed

text \<open>Requests that leave the password hashes of the accounts alone.\<close>

definition keeps_hashes :: "DB \<Rightarrow> DB \<Rightarrow> bool" where
  "keeps_hashes d d' \<longleftrightarrow> (\<forall>i u u'. GetUserByID i d = Inr u \<longrightarrow> GetUserByID i d' = Inr u' \<longrightarrow>
     uPasswordHash u' = uPasswordHash u)"

lemma keeps_hashes_rows:
  assumes "at_rows (users d') = row_update p f (at_rows (users d))"
    and "\<And>u. uID (f u) = uID u" "\<And>u. uPasswordHash (f u) = uPasswordHash u"
  shows "keeps_hashes d d'"
  using assms by (auto simp: keeps_hashes_def GetUserByID_def query_row_row_update)

lemma keeps_hashes_same: "users d' = users d \<Longrightarrow> keeps_hashes d d'"
  by (simp add: keeps_hashes_def GetUserByID_def)

lemma keeps_hashes_create: "CreateUser now a d = Inr d' \<Longrightarrow> keeps_hashes d d'"
  by (auto simp: keeps_hashes_def CreateUser_def GetUserByID_def auto_insert_def query_row_append split: if_splits)

lemma keeps_hashes_reject: "at_rows (users d') = row_delete (\<lambda>u. uID u = i) (at_rows (users d)) \<Longrightarrow> keeps_hashes d d'"
  by (auto simp: keeps_hashes_def GetUserByID_def query_row_row_delete split: if_splits)

lemma handler_keeps_hashes:
  assumes "\<And>i b. req \<noteq> ChangePassword i b"
  shows "keeps_hashes (wsDB s) (wsDB (fst (account_handler pl now cookie req uc s)))"
proof (cases req)
  case (Register u p c)
  then show ?thesis
    by (auto simp: apiRegister_def keeps_hashes_same dest: keeps_hashes_create split: sum.splits option.splits)
next
  case (ChangeUsername i b)
  have "keeps_hashes (wsDB s) (audit now uc a t n m f x y z d)"
    if "UpdateUsername now k name (wsDB s) = Inr d" for a t n m f x y z k name d
    by (rule keeps_hashes_rows [where f = "\<lambda>u. u\<lparr>uUsername := name, uUpdatedAt := current_timestamp now\<rparr>"])
       (use that in \<open>auto simp: UpdateUsername_def at_rows_update split: if_splits\<close>)
  with ChangeUsername show ?thesis
    by (auto simp: apiChangeUsername_def Let_def keeps_hashes_same split: sum.splits option.splits)
next
  case (Approve i)
  show ?thesis
    unfolding Approve account_handler.simps
    by (rule keeps_hashes_rows [where f = "\<lambda>u. u\<lparr>uApproved := True, uUpdatedAt := current_timestamp now\<rparr>"])
       (simp_all add: apiApproveUser_def Let_def ApproveUser_def at_rows_update)
next
  case (ChangeRole i b)
  have "keeps_hashes (wsDB s) (audit now uc a t n m f x y z (UpdateUserRole now k role (wsDB s)))"
    for a t n m f x y z k role
    by (rule keeps_hashes_rows [where f = "\<lambda>u. u\<lparr>uRole := role, uUpdatedAt := current_timestamp now\<rparr>"])
       (simp_all add: UpdateUserRole_def at_rows_update)
  with ChangeRole show ?thesis
    by (auto simp: apiChangeRole_def Let_def keeps_hashes_same split: option.splits)
qed (auto simp: assms apiLogin_def apiLogout_def apiRejectUser_def Let_def RejectUser_def auto_delete_def
    keeps_hashes_same intro!: keeps_hashes_reject split: sum.splits option.splits)

lemma authMiddleware_cases:
  obtains (refused) "wsDB (fst (authMiddleware now cookie h s)) = wsDB s"
  | (passed) token sess where "cookie = Some token" "map_get (wsSessions s) token = Some sess"
      "now - ssCreatedAt sess \<le> sessionMaxAge"
      "authMiddleware now cookie h s =
         h \<lparr>ucUserID = ssUserID sess, ucUsername = ssUsername sess, ucRole = ssRole sess\<rparr> s"
proof -
  let ?run = "authMiddleware now cookie h s"
  have "wsDB (fst ?run) = wsDB s \<or> (\<exists>token sess. cookie = Some token \<and> map_get (wsSessions s) token = Some sess \<and>
      now - ssCreatedAt sess \<le> sessionMaxAge \<and>
      ?run = h \<lparr>ucUserID = ssUserID sess, ucUsername = ssUsername sess, ucRole = ssRole sess\<rparr> s)"
    by (auto simp: authMiddleware_def ss_Get_def split: option.splits)
  with that show thesis by blast
qed

lemma guarded_keeps_hashes:
  assumes "\<And>uc s. keeps_hashes (wsDB s) (wsDB (fst (h uc s)))"
  shows "keeps_hashes (wsDB s) (wsDB (fst (guarded g now cookie h s)))"
proof -
  have auth: "keeps_hashes (wsDB s) (wsDB (fst (authMiddleware now cookie k s)))"
    if "\<And>uc s. keeps_hashes (wsDB s) (wsDB (fst (k uc s)))" for k
    by (rule authMiddleware_cases [of now cookie k s]) (simp_all add: keeps_hashes_same that)
  have "keeps_hashes (wsDB s) (wsDB (fst (adminOnly h uc s)))"
      "keeps_hashes (wsDB s) (wsDB (fst (adminOrEditor h uc s)))" for uc s
    using assms by (simp_all add: adminOnly_def adminOrEditor_def keeps_hashes_same)
  then show ?thesis by (cases g) (simp_all add: assms auth)
qed

text \<open>
  C23. The stored password hash of an account changes only on a request with a live session
  that is the account's own and gives its current password, or an administrator's; after it
  every session of the account is gone.
\<close>

theorem password_change_authorised:
  assumes "(web_step opts pl)\<^sup>*\<^sup>* (NewServer t rnd (plHash pl) (migrated_db t0)) s"
    and u: "GetUserByID i (wsDB s) = Inr u" and s': "serve opts pl now cookie req s = (s', r)"
    and u': "GetUserByID i (wsDB s') = Inr u'" and ne: "uPasswordHash u' \<noteq> uPasswordHash u"
  shows "\<exists>idStr old new token sess. req = ChangePassword idStr (Some (old, new)) \<and> param_id idStr = i \<and>
    plHash pl new = Some (uPasswordHash u') \<and> 4 \<le> length new \<and> cookie = Some token \<and>
    map_get (wsSessions s) token = Some sess \<and> now - ssCreatedAt sess \<le> sessionMaxAge \<and>
    (if ssUserID sess = i then plCheck pl (uPasswordHash u) old else from_admin now cookie s) \<and>
    (\<forall>p \<in> set (wsSessions s'). ssUserID (snd p) \<noteq> i)"
proof -
  have ok: "web_ok s" by (rule web_steps_ok [OF assms(1)])
  have changed: "\<not> keeps_hashes (wsDB s) (wsDB s')" using u u' ne by (auto simp: keeps_hashes_def)
  then obtain idStr body where req: "req = ChangePassword idStr body"
    using s' guarded_keeps_hashes [of "account_handler pl now cookie req"] handler_keeps_hashes [of req]
    unfolding serve_guarded by (metis fst_conv)
  let ?h = "account_handler pl now cookie req"
  have run: "authMiddleware now cookie ?h s = (s', r)" using s' req by (simp add: serve_guarded)
  then obtain token sess where cookie: "cookie = Some token" "map_get (wsSessions s) token = Some sess"
      "now - ssCreatedAt sess \<le> sessionMaxAge"
    and h: "apiChangePassword (plCheck pl) (plHash pl) now idStr body
      \<lparr>ucUserID = ssUserID sess, ucUsername = ssUsername sess, ucRole = ssRole sess\<rparr> s = (s', r)"
    using changed keeps_hashes_same [of "wsDB s'" "wsDB s"]
    by (cases rule: authMiddleware_cases [of now cookie ?h s]) (auto simp: req)
  have admin: "from_admin now cookie s" if "ssRole sess = ''admin''"
    using backed_account [OF ok cookie(2)] cookie that by (metis from_admin_def)
  obtain old new hash where body: "body = Some (old, new)" "4 \<le> length new" "plHash pl new = Some hash"
      "if ssUserID sess = param_id idStr then \<exists>v. GetUserByID (param_id idStr) (wsDB s) = Inr v \<and> plCheck pl (uPasswordHash v) old
       else ssRole sess = ''admin''"
    and wsDB: "users (wsDB s') = users (UpdateUserPassword now (param_id idStr) hash (wsDB s))"
      "wsSessions s' = DeleteUserSessions (param_id idStr) (wsSessions s)"
    using h changed keeps_hashes_same [of "wsDB s" "wsDB s"]
    by (auto simp: apiChangePassword_def Let_def split: if_splits option.splits sum.splits)
  have q: "GetUserByID i (wsDB s') = Inr (if i = param_id idStr
      then u\<lparr>uPasswordHash := hash, uUpdatedAt := current_timestamp now\<rparr> else u)"
    using u query_row_InrD [of "\<lambda>u. uID u = i"]
    by (auto simp: GetUserByID_def wsDB UpdateUserPassword_def at_rows_update query_row_row_update)
  then have "i = param_id idStr" "hash = uPasswordHash u'" using u' ne by (auto split: if_splits)
  then show ?thesis
    using req body cookie admin u wsDB(2) by (auto simp: DeleteUserSessions_def split: if_splits)
qed

section \<open>A first login\<close>

definition demo_pl :: password_lib where
  "demo_pl = \<lparr>plHash = Some, plCheck = (\<lambda>hash password. hash = password)\<rparr>"

definition demo_opts :: integrations where
  "demo_opts = \<lparr>inPrometheus = None, inMCOperator = None, inImageGen = False\<rparr>"

definition demo_start :: web_server where
  "demo_start = NewServer 0 (Some [1]) (plHash demo_pl) (migrated_db 0)"

definition demo_web :: web_server where
  "demo_web = fst (serve demo_opts demo_pl 0 None (Login [2] ''admin'' ''01'') demo_start)"

definition demo_admin :: User where
  "demo_admin = \<lparr>uID = 1, uUsername = ''admin'', uPasswordHash = ''01'', uRole = ''admin'', uApproved = True,
     uCreatedAt = current_timestamp 0, uUpdatedAt = current_timestamp 0\<rparr>"

definition demo_session :: session where
  "demo_session = \<lparr>ssUserID = 1, ssUsername = ''admin'', ssRole = ''admin'', ssCreatedAt = 0\<rparr>"

lemma hex_demo: "hex_encode [1] = ''01''" "hex_encode [2] = ''02''"
  by (simp_all add: hex_encode_def hex_digit_def char_of_def bit_simps)

lemma demo_start_rows: "at_rows (users (wsDB demo_start)) = [demo_admin]" "wsSessions demo_start = []"
  by (simp_all add: demo_start_def NewServer_def EnsureAdminUser_def CountUsers_def migrated_db_def auto_empty_def
      hex_demo demo_pl_def CreateUser_def auto_insert_def demo_admin_def Let_def)

lemma demo_web_rows:
  "at_rows (users (wsDB demo_web)) = [demo_admin]" "wsSessions demo_web = [(''02'', demo_session)]"
  unfolding demo_web_def
  by (simp_all add: serve_guarded apiLogin_def GetUserByUsername_def demo_start_rows query_row_def)
     (simp_all add: demo_admin_def demo_pl_def ss_Create_def demo_start_rows hex_demo demo_session_def Let_def)

lemma demo_web_reached:
  "(web_step demo_opts demo_pl)\<^sup>*\<^sup>* (NewServer 0 (Some [1]) (plHash demo_pl) (migrated_db 0)) demo_web"
  unfolding demo_web_def demo_start_def by (rule r_into_rtranclp, rule web_step.request)

theorem sessions_reflect_accounts_witness:
  "(\<exists>u. GetUserByID 1 (wsDB demo_web) = Inr u \<and> uApproved u \<and> uRole u = ''admin'') \<and>
   map_get (wsSessions demo_web) ''02'' = Some demo_session"
proof -
  have "map_get (wsSessions demo_web) ''02'' = Some demo_session" by (simp add: demo_web_rows map_get_def)
  then show ?thesis
    using sessions_reflect_accounts [OF demo_web_reached] by (fastforce simp: demo_session_def)
qed

theorem no_privilege_escalation_witness:
  "powers (fst (serve demo_opts demo_pl 5 None (Register ''steve'' ''pass'' ''pass'') demo_web)) = {(1, ''admin'')}"
proof -
  have p: "powers demo_web = {(1, ''admin'')}"
    by (simp add: powers_def accounts_def demo_web_rows) (simp add: demo_admin_def)
  have "powers (fst (serve demo_opts demo_pl 5 None (Register ''steve'' ''pass'' ''pass'') demo_web)) \<subseteq> powers demo_web"
    using no_privilege_escalation [OF demo_web_reached, of 5 None "Register ''steve'' ''pass'' ''pass''"] by simp
  moreover have "GetUserByUsername ''steve'' (wsDB demo_web) = Inl NoRows"
    by (simp add: GetUserByUsername_def demo_web_rows query_row_def) (simp add: demo_admin_def)
  then have "(1, ''admin'') \<in> powers (fst (serve demo_opts demo_pl 5 None (Register ''steve'' ''pass'' ''pass'') demo_web))"
    by (simp add: serve_guarded apiRegister_def demo_pl_def CreateUser_def powers_def accounts_def auto_insert_def
        demo_web_rows) (force simp: demo_admin_def image_iff)
  ultimately show ?thesis using p by blast
qed

theorem password_change_authorised_witness:
  "(let s' = fst (serve demo_opts demo_pl 5 (Some ''02'') (ChangePassword ''1'' (Some (''01'', ''newpw''))) demo_web)
    in wsSessions s' = [] \<and> (\<exists>u. GetUserByID 1 (wsDB s') = Inr u \<and> uPasswordHash u = ''newpw''))"
proof -
  let ?req = "ChangePassword ''1'' (Some (''01'', ''newpw''))"
  have pid: "param_id ''1'' = 1" by code_simp
  have age: "\<not> sessionMaxAge < 5" by (simp add: sessionMaxAge_def duration_defs)
  have get: "GetUserByID 1 (wsDB demo_web) = Inr demo_admin"
    by (simp add: GetUserByID_def demo_web_rows query_row_def) (simp add: demo_admin_def)
  obtain s' r where s': "serve demo_opts demo_pl 5 (Some ''02'') ?req demo_web = (s', r)" by force
  have pl: "plCheck demo_pl (uPasswordHash demo_admin) ''01''" "plHash demo_pl ''newpw'' = Some ''newpw''"
    by (simp_all add: demo_pl_def demo_admin_def)
  have "users (wsDB s') = users (UpdateUserPassword 5 1 ''newpw'' (wsDB demo_web)) \<and>
      wsSessions s' = DeleteUserSessions 1 (wsSessions demo_web)"
    using s' age get pl
    by (auto simp: serve_guarded authMiddleware_def ss_Get_def demo_web_rows map_get_def demo_session_def
        apiChangePassword_def pid Let_def)
  then have run: "at_rows (users (wsDB s')) = [demo_admin\<lparr>uPasswordHash := ''newpw'', uUpdatedAt := current_timestamp 5\<rparr>]"
      "wsSessions s' = filter (\<lambda>p. ssUserID (snd p) \<noteq> 1) [(''02'', demo_session)]"
    by (simp_all add: UpdateUserPassword_def at_rows_update demo_web_rows row_update_def DeleteUserSessions_def)
       (simp add: demo_admin_def)
  then have u': "GetUserByID 1 (wsDB s') = Inr (demo_admin\<lparr>uPasswordHash := ''newpw'', uUpdatedAt := current_timestamp 5\<rparr>)"
    by (simp add: GetUserByID_def query_row_def) (simp add: demo_admin_def)
  have "\<forall>p \<in> set (wsSessions s'). ssUserID (snd p) \<noteq> 1"
    using password_change_authorised [OF demo_web_reached get s' u'] by (auto simp: demo_admin_def)
  moreover have "set (wsSessions s') \<subseteq> {(''02'', demo_session)}" using run(2) by auto
  ultimately have "wsSessions s' = []" by (cases "wsSessions s'") (auto simp: demo_session_def)
  then show ?thesis using s' u' by simp
qed

end
