(* ===== verification/Web_Instances.thy ===== *)
theory Web_Instances
  imports Web_Auth Backup_Scheduler
begin

text \<open>
  The handlers of the web server for instances and for the audit log
  (\<^verbatim>\<open>internal/master/web/handler_instance.go\<close>, \<^verbatim>\<open>handler_audit.go\<close>, \<^verbatim>\<open>handler.go\<close>). They read
  and write the database and look agents up in the registry, so their state is that of the
  gRPC server. Calls to agents whose answer only goes to the log are listed in the order
  they are made; a call whose answer matters is a parameter.
\<close>

section \<open>Status shown to users\<close>

definition overlayNodeStatus :: "GRPCServer \<Rightarrow> Node list \<Rightarrow> Node list" where
  "overlayNodeStatus s ns =
     map (\<lambda>n. n\<lparr>nStatus := (if IsAgentOnline (nID n) s then ''online'' else ''offline'')\<rparr>) ns"

definition overlayInstanceStatus :: "GRPCServer \<Rightarrow> Instance list \<Rightarrow> Instance list" where
  "overlayInstanceStatus s is =
     map (\<lambda>i. if \<not> IsAgentOnline (iNodeID i) s then i\<lparr>iStatus := ''offline''\<rparr> else i) is"

definition apiListInstances :: "string \<Rightarrow> GRPCServer \<Rightarrow> Instance list" where
  "apiListInstances nodeID s = overlayInstanceStatus s (ListInstances nodeID (gsDB s))"

definition apiGetInstance :: "string \<Rightarrow> GRPCServer \<Rightarrow> Instance option" where
  "apiGetInstance i s =
     (case GetInstance i (gsDB s) of Inl e \<Rightarrow> None | Inr inst \<Rightarrow> Some (hd (overlayInstanceStatus s [inst])))"

definition apiInstanceMetrics :: "string \<Rightarrow> GRPCServer \<Rightarrow> CachedInstanceMetrics option \<times> InstanceMetricRecord list" where
  "apiInstanceMetrics i s = (GetInstanceMetrics i s, ListInstanceMetrics i 60 (gsDB s))"

text \<open>The numbers of the dashboard.\<close>

record dashboard_stats =
  dsTotalNodes :: int
  dsOnlineNodes :: int
  dsTotalInstances :: int
  dsRunningInstances :: int
  dsTotalSyncs :: int
  dsTotalBackups :: int

definition htmxDashboardStats :: "GRPCServer \<Rightarrow> dashboard_stats" where
  "htmxDashboardStats s =
     (let ns = overlayNodeStatus s (ListNodes (gsDB s));
          is = overlayInstanceStatus s (ListInstances '''' (gsDB s))
      in \<lparr>dsTotalNodes = int (length ns),
          dsOnlineNodes = int (length (filter (\<lambda>n. nStatus n = ''online'') ns)),
          dsTotalInstances = int (length is),
          dsRunningInstances = int (length (filter (\<lambda>i. iStatus i = ''running'') is)),
          dsTotalSyncs = int (length (ListSyncHistory 0 (gsDB s))),
          dsTotalBackups = sum_list (map (\<lambda>i. CountBackups (iID i) (gsDB s)) is)\<rparr>)"

section \<open>Calls to agents\<close>

record CreateInstanceRequest =
  crName :: string
  crPort :: int
  crMemoryMin :: string
  crMemoryMax :: string
  crServerJarName :: string
  crAutoStart :: bool
  crAutoRestart :: bool
  crAcceptEula :: bool
  crStartAfterCreate :: bool
  crJavaPath :: string
  crJvmArgs :: "string list"
  crInstanceType :: string
  crServiceVersion :: string
  crJavaVersion :: string
  crCustomDockerfile :: string
  crCustomCompose :: string
  crNetworkName :: string
  crServerZipName :: string

record UploadServerDataRequest =
  usInstanceName :: string
  usFileType :: string
  usFileName :: string
  usTotalSize :: int
  usChunkData :: bytes

datatype InstanceAction =
  INSTANCE_ACTION_START | INSTANCE_ACTION_STOP | INSTANCE_ACTION_RESTART | INSTANCE_ACTION_KILL

datatype agent_call =
    CallDisconnectNetwork string string        \<comment> \<open>network, container\<close>
  | CallDeleteInstance string bool
  | CallCreateNetwork string string            \<comment> \<open>name, driver\<close>
  | CallCreateInstance CreateInstanceRequest
  | CallUpload "UploadServerDataRequest list"
  | CallControl string string InstanceAction

section \<open>Control\<close>

definition control_action :: "string \<Rightarrow> InstanceAction option" where
  "control_action a =
     (if a = ''start'' then Some INSTANCE_ACTION_START
      else if a = ''stop'' then Some INSTANCE_ACTION_STOP
      else if a = ''restart'' then Some INSTANCE_ACTION_RESTART
      else if a = ''kill'' then Some INSTANCE_ACTION_KILL
      else None)"

definition action_name :: "string \<Rightarrow> string" where
  "action_name a = (if a = ''kill'' then ''force shutdown'' else a)"

text \<open>
  \<open>call\<close> is the call to the agent at an address: \<open>None\<close> if it fails, else success and
  message.
\<close>

definition apiControlInstance ::
  "(string \<Rightarrow> string \<Rightarrow> string \<Rightarrow> InstanceAction \<Rightarrow> (bool \<times> string) option) \<Rightarrow> instant \<Rightarrow> string \<Rightarrow> string option \<Rightarrow>
   user_context \<Rightarrow> GRPCServer \<Rightarrow> GRPCServer \<times> reply" where
  "apiControlInstance call now i body uc s =
     (case body of
        None \<Rightarrow> (s, Json 400 ''invalid request'')
      | Some action \<Rightarrow>
          (case control_action action of
             None \<Rightarrow> (s, Json 400 (''unknown command: '' @ action))
           | Some pbAction \<Rightarrow>
               (case GetInstanceOwner i s of
                  None \<Rightarrow> (s, Json 404 ''instance not yet registered. please wait for agent heartbeat.'')
                | Some agentID \<Rightarrow>
                    (case GetAgentAddress agentID s of
                       None \<Rightarrow> (s, Json 503 ''the agent offline'')
                     | Some addr \<Rightarrow>
                         (case call addr agentID i pbAction of
                            None \<Rightarrow> (s, Json 500 ''command forward failed'')
                          | Some (success, message) \<Rightarrow>
                              if \<not> success then (s, Json 500 message)
                              else
                                let instName = (case GetInstance i (gsDB s) of Inl e \<Rightarrow> i | Inr inst \<Rightarrow> iName inst)
                                in (s\<lparr>gsDB := audit now uc action ''instance'' i instName '''' '''' ''''
                                        (''instance '' @ instName @ '': '' @ action_name action) (gsDB s)\<rparr>,
                                    Json 200 (''instance '' @ i @ '' '' @ [CHR 0x27] @ action_name action @ [CHR 0x27] @
                                      '' command senddone'')))))))"

section \<open>Deletion\<close>

definition container_name :: "string \<Rightarrow> string" where
  "container_name name = ''craftstack-'' @ name"

definition fmt_bool :: "bool \<Rightarrow> string" where
  "fmt_bool b = (if b then ''true'' else ''false'')"

definition delete_calls :: "string \<Rightarrow> bool \<Rightarrow> Instance \<Rightarrow> DB \<Rightarrow> agent_call list" where
  "delete_calls i removeData inst d =
     List.map_filter (\<lambda>x. case GetNetwork (xNetworkID x) d of
         Inl e \<Rightarrow> None
       | Inr net \<Rightarrow> Some (CallDisconnectNetwork (wName net) (container_name (iName inst))))
       (ListInstanceNetworks i d) @ [CallDeleteInstance i removeData]"

definition apiDeleteInstance ::
  "instant \<Rightarrow> string \<Rightarrow> bool \<Rightarrow> user_context \<Rightarrow> GRPCServer \<Rightarrow> GRPCServer \<times> reply \<times> agent_call list" where
  "apiDeleteInstance now i removeData uc s =
     (let d = gsDB s in
      case GetInstance i d of
        Inl e \<Rightarrow> (s, Json 404 ''instance not found'', [])
      | Inr inst \<Rightarrow>
          let calls = (case GetAgentAddress (iNodeID inst) s of
                         None \<Rightarrow> [] | Some addr \<Rightarrow> delete_calls i removeData inst d);
              d1 = UnregisterInstanceDNS i d;
              d2 = fold (\<lambda>x. RemoveInstanceFromNetwork i (xNetworkID x)) (ListInstanceNetworks i d1) d1;
              d3 = DeleteInstance i d2;
              d4 = audit now uc ''delete'' ''instance'' i (iName inst) '''' '''' ''''
                     (''delete instance: '' @ iName inst @ '' (data delete: '' @ fmt_bool removeData @ '')'') d3
          in (s\<lparr>gsDB := d4\<rparr>, Json 200 ''the instance deleted'', calls))"

section \<open>Changing settings\<close>

record UpdateInstanceRequest =
  urName :: "string option"
  urPort :: "int option"
  urMemoryMin :: "string option"
  urMemoryMax :: "string option"
  urAutoStart :: "bool option"
  urAutoRestart :: "bool option"
  urStopCommand :: "string option"
  urJVMArgs :: "string option"
  urServiceVersion :: "string option"
  urMySQLRootPassword :: "string option"
  urMySQLExtraArgs :: "string option"
  urPGPassword :: "string option"
  urPGExtraArgs :: "string option"
  urMongoAdminUser :: "string option"
  urMongoAdminPassword :: "string option"
  urMongoExtraArgs :: "string option"
  urRedisPassword :: "string option"
  urRedisExtraArgs :: "string option"
  urKafkaBrokerID :: "int option"
  urKafkaExtraArgs :: "string option"
  urBackupEnabled :: "bool option"
  urBackupCron :: "string option"
  urBackupMaxCount :: "int option"
  urJavaVersion :: "string option"
  urCustomDockerfile :: "string option"
  urCustomCompose :: "string option"
  urDockerMemory :: "string option"
  urDockerCPUs :: "string option"

text \<open>A field of the request that is absent keeps the stored value. The port is ignored.\<close>

definition given :: "'v option \<Rightarrow> 'v \<Rightarrow> 'v" where
  "given v old = (case v of None \<Rightarrow> old | Some x \<Rightarrow> x)"

definition apply_update :: "UpdateInstanceRequest \<Rightarrow> Instance \<Rightarrow> string + Instance" where
  "apply_update req inst =
     (let cron = (case urBackupCron req of None \<Rightarrow> None | Some c \<Rightarrow> Some (trim_space c)) in
      if (case cron of None \<Rightarrow> False | Some c \<Rightarrow> c \<noteq> '''' \<and> length (str_fields c) \<noteq> 5)
      then Inl ''cron expression 5 field(min when day month day) is required''
      else if (case urBackupMaxCount req of None \<Rightarrow> False | Some n \<Rightarrow> n < 1)
      then Inl ''max backup retention count 1 must be at least ''
      else Inr (inst\<lparr>
        iName := given (urName req) (iName inst),
        iMemoryMin := given (urMemoryMin req) (iMemoryMin inst),
        iMemoryMax := given (urMemoryMax req) (iMemoryMax inst),
        iAutoStart := given (urAutoStart req) (iAutoStart inst),
        iAutoRestart := given (urAutoRestart req) (iAutoRestart inst),
        iStopCommand := given (urStopCommand req) (iStopCommand inst),
        iJVMArgs := given (urJVMArgs req) (iJVMArgs inst),
        iServiceVersion := given (urServiceVersion req) (iServiceVersion inst),
        iMySQLRootPassword := given (urMySQLRootPassword req) (iMySQLRootPassword inst),
        iMySQLExtraArgs := given (urMySQLExtraArgs req) (iMySQLExtraArgs inst),
        iPGPassword := given (urPGPassword req) (iPGPassword inst),
        iPGExtraArgs := given (urPGExtraArgs req) (iPGExtraArgs inst),
        iMongoAdminUser := given (urMongoAdminUser req) (iMongoAdminUser inst),
        iMongoAdminPassword := given (urMongoAdminPassword req) (iMongoAdminPassword inst),
        iMongoExtraArgs := given (urMongoExtraArgs req) (iMongoExtraArgs inst),
        iRedisPassword := given (urRedisPassword req) (iRedisPassword inst),
        iRedisExtraArgs := given (urRedisExtraArgs req) (iRedisExtraArgs inst),
        iKafkaBrokerID := given (urKafkaBrokerID req) (iKafkaBrokerID inst),
        iKafkaExtraArgs := given (urKafkaExtraArgs req) (iKafkaExtraArgs inst),
        iBackupEnabled := given (urBackupEnabled req) (iBackupEnabled inst),
        iBackupCron := given cron (iBackupCron inst),
        iBackupMaxCount := given (urBackupMaxCount req) (iBackupMaxCount inst),
        iJavaVersion := given (urJavaVersion req) (iJavaVersion inst),
        iCustomDockerfile := given (urCustomDockerfile req) (iCustomDockerfile inst),
        iCustomCompose := given (urCustomCompose req) (iCustomCompose inst),
        iDockerMemory := given (urDockerMemory req) (iDockerMemory inst),
        iDockerCPUs := given (urDockerCPUs req) (iDockerCPUs inst)\<rparr>))"

text \<open>The settings whose changes are recorded, in the order they are compared, with their print.\<close>

definition audited_fields :: "(string \<times> (Instance \<Rightarrow> string)) list" where
  "audited_fields =
     [(''memory_min'', iMemoryMin), (''memory_max'', iMemoryMax),
      (''auto_start'', \<lambda>i. fmt_bool (iAutoStart i)), (''auto_restart'', \<lambda>i. fmt_bool (iAutoRestart i)),
      (''stop_command'', iStopCommand), (''jvm_args'', iJVMArgs),
      (''service_version'', iServiceVersion), (''java_version'', iJavaVersion),
      (''custom_dockerfile'', iCustomDockerfile), (''custom_compose'', iCustomCompose),
      (''mysql_root_password'', iMySQLRootPassword), (''mysql_extra_args'', iMySQLExtraArgs),
      (''pg_password'', iPGPassword), (''pg_extra_args'', iPGExtraArgs),
      (''mongo_admin_user'', iMongoAdminUser), (''mongo_admin_password'', iMongoAdminPassword),
      (''mongo_extra_args'', iMongoExtraArgs), (''redis_password'', iRedisPassword),
      (''redis_extra_args'', iRedisExtraArgs), (''kafka_broker_id'', \<lambda>i. itoa (iKafkaBrokerID i)),
      (''kafka_extra_args'', iKafkaExtraArgs), (''backup_enabled'', \<lambda>i. fmt_bool (iBackupEnabled i)),
      (''backup_cron'', iBackupCron), (''backup_max_count'', \<lambda>i. itoa (iBackupMaxCount i)),
      (''docker_memory'', iDockerMemory), (''docker_cpus'', iDockerCPUs)]"

definition auditFieldChange ::
  "instant \<Rightarrow> user_context \<Rightarrow> string \<Rightarrow> string \<Rightarrow> string \<Rightarrow> string \<Rightarrow> string \<Rightarrow> string \<Rightarrow> DB \<Rightarrow> DB" where
  "auditFieldChange now uc targetType targetID targetName field oldVal newVal d =
     (if oldVal \<noteq> newVal
      then audit now uc ''update'' targetType targetID targetName field oldVal newVal
             (field @ '' change: '' @ oldVal @ arrow @ newVal) d
      else d)"

text \<open>The comparisons at the end of \<^verbatim>\<open>apiUpdateInstance\<close>.\<close>

definition audit_changes ::
  "instant \<Rightarrow> user_context \<Rightarrow> string \<Rightarrow> Instance \<Rightarrow> Instance \<Rightarrow> (string \<times> (Instance \<Rightarrow> string)) list \<Rightarrow> DB \<Rightarrow> DB" where
  "audit_changes now uc i old new fs d =
     fold (\<lambda>(f, get). auditFieldChange now uc ''instance'' i (iName new) f (get old) (get new)) fs d"

definition apiUpdateInstance ::
  "instant \<Rightarrow> string \<Rightarrow> UpdateInstanceRequest option \<Rightarrow> user_context \<Rightarrow> GRPCServer \<Rightarrow> GRPCServer \<times> reply" where
  "apiUpdateInstance now i body uc s =
     (case GetInstance i (gsDB s) of
        Inl e \<Rightarrow> (s, Json 404 ''instance not found'')
      | Inr oldInst \<Rightarrow>
          (case body of
             None \<Rightarrow> (s, Json 400 ''invalid request'')
           | Some req \<Rightarrow>
               (case apply_update req oldInst of
                  Inl message \<Rightarrow> (s, Json 400 message)
                | Inr inst \<Rightarrow>
                    let d1 = UpdateInstance now inst (gsDB s);
                        d2 = audit_changes now uc i oldInst inst audited_fields d1
                    in (s\<lparr>gsDB := d2\<rparr>, Json 200 ''instance settings updated''))))"

section \<open>Reading and undoing the audit log\<close>

text \<open>Page and size of a listing: numbers of the query if they are sensible.\<close>

definition query_page :: "string \<Rightarrow> int" where
  "query_page q = (case atoi q of None \<Rightarrow> 1 | Some p \<Rightarrow> if 0 < p then p else 1)"

definition query_limit :: "string \<Rightarrow> int" where
  "query_limit q = (case atoi q of None \<Rightarrow> 50 | Some l \<Rightarrow> if 0 < l \<and> l \<le> 200 then l else 50)"

definition apiListAuditLogs :: "string \<Rightarrow> string \<Rightarrow> DB \<Rightarrow> AuditLog list \<times> int" where
  "apiListAuditLogs pageQ limitQ d =
     (let page = query_page pageQ; limit = query_limit limitQ
      in (ListAuditLogs limit (wrap64 ((page - 1) * limit)) d, CountAuditLogs d))"

definition handleAuditPage :: "string \<Rightarrow> DB \<Rightarrow> AuditLog list \<times> int" where
  "handleAuditPage pageQ d =
     (let page = query_page pageQ; total = CountAuditLogs d;
          totalPages = go_div (total + 50 - 1) 50
      in (ListAuditLogs 50 (wrap64 ((page - 1) * 50)) d, if totalPages < 1 then 1 else totalPages))"

text \<open>The switch of \<^verbatim>\<open>apiRollbackAuditLog\<close>: what setting a field back means.\<close>

definition set_int :: "(int \<Rightarrow> Instance \<Rightarrow> Instance) \<Rightarrow> string \<Rightarrow> Instance \<Rightarrow> Instance" where
  "set_int put v i = (case atoi v of None \<Rightarrow> i | Some n \<Rightarrow> put n i)"

definition rollback_setters :: "(string \<times> (string \<Rightarrow> Instance \<Rightarrow> Instance)) list" where
  "rollback_setters =
     [(''memory_min'', \<lambda>v i. i\<lparr>iMemoryMin := v\<rparr>), (''memory_max'', \<lambda>v i. i\<lparr>iMemoryMax := v\<rparr>),
      (''docker_memory'', \<lambda>v i. i\<lparr>iDockerMemory := v\<rparr>), (''docker_cpus'', \<lambda>v i. i\<lparr>iDockerCPUs := v\<rparr>),
      (''auto_start'', \<lambda>v i. i\<lparr>iAutoStart := (v = ''true'')\<rparr>),
      (''auto_restart'', \<lambda>v i. i\<lparr>iAutoRestart := (v = ''true'')\<rparr>),
      (''stop_command'', \<lambda>v i. i\<lparr>iStopCommand := v\<rparr>), (''jvm_args'', \<lambda>v i. i\<lparr>iJVMArgs := v\<rparr>),
      (''service_version'', \<lambda>v i. i\<lparr>iServiceVersion := v\<rparr>), (''java_version'', \<lambda>v i. i\<lparr>iJavaVersion := v\<rparr>),
      (''custom_dockerfile'', \<lambda>v i. i\<lparr>iCustomDockerfile := v\<rparr>),
      (''custom_compose'', \<lambda>v i. i\<lparr>iCustomCompose := v\<rparr>),
      (''mysql_root_password'', \<lambda>v i. i\<lparr>iMySQLRootPassword := v\<rparr>),
      (''mysql_extra_args'', \<lambda>v i. i\<lparr>iMySQLExtraArgs := v\<rparr>),
      (''pg_password'', \<lambda>v i. i\<lparr>iPGPassword := v\<rparr>), (''pg_extra_args'', \<lambda>v i. i\<lparr>iPGExtraArgs := v\<rparr>),
      (''mongo_admin_user'', \<lambda>v i. i\<lparr>iMongoAdminUser := v\<rparr>),
      (''mongo_admin_password'', \<lambda>v i. i\<lparr>iMongoAdminPassword := v\<rparr>),
      (''mongo_extra_args'', \<lambda>v i. i\<lparr>iMongoExtraArgs := v\<rparr>),
      (''redis_password'', \<lambda>v i. i\<lparr>iRedisPassword := v\<rparr>), (''redis_extra_args'', \<lambda>v i. i\<lparr>iRedisExtraArgs := v\<rparr>),
      (''kafka_broker_id'', set_int (\<lambda>n i. i\<lparr>iKafkaBrokerID := n\<rparr>)),
      (''kafka_extra_args'', \<lambda>v i. i\<lparr>iKafkaExtraArgs := v\<rparr>),
      (''backup_enabled'', \<lambda>v i. i\<lparr>iBackupEnabled := (v = ''true'')\<rparr>),
      (''backup_cron'', \<lambda>v i. i\<lparr>iBackupCron := v\<rparr>),
      (''backup_max_count'', set_int (\<lambda>n i. i\<lparr>iBackupMaxCount := n\<rparr>))]"

definition apiRollbackAuditLog :: "instant \<Rightarrow> string \<Rightarrow> user_context \<Rightarrow> GRPCServer \<Rightarrow> GRPCServer \<times> reply" where
  "apiRollbackAuditLog now idStr uc s =
     (case atoi idStr of
        None \<Rightarrow> (s, Json 400 ''invalid ID'')
      | Some k \<Rightarrow>
          (case GetAuditLog k (gsDB s) of
             Inl e \<Rightarrow> (s, Json 404 ''audit log not found'')
           | Inr entry \<Rightarrow>
               if aRolledBack entry then (s, Json 400 ''already rollback item'')
               else if aFieldName entry = '''' then (s, Json 400 ''field change record no rollbackcannot'')
               else if aTargetType entry \<noteq> ''instance''
               then (s, Json 400 ''current instance configuration changeonly rollbackcan'')
               else
                 (case GetInstance (aTargetID entry) (gsDB s) of
                    Inl e \<Rightarrow> (s, Json 404 ''instance not found'')
                  | Inr inst \<Rightarrow>
                      (case map_of rollback_setters (aFieldName entry) of
                         None \<Rightarrow> (s, Json 400 (''rollback support not field: '' @ aFieldName entry))
                       | Some set_field \<Rightarrow>
                           let d1 = UpdateInstance now (set_field (aOldValue entry) inst) (gsDB s);
                               d2 = MarkAuditLogRolledBack k d1;
                               d3 = audit now uc ''update'' ''instance'' (aTargetID entry) (aTargetName entry)
                                      (aFieldName entry) (aNewValue entry) (aOldValue entry)
                                      (''rollback: '' @ aFieldName entry @ '' '' @ aNewValue entry @ arrow @
                                       aOldValue entry @ '' ( #'' @ itoa (aID entry) @ '')'') d2
                           in (s\<lparr>gsDB := d3\<rparr>,
                               Json 200 (aFieldName entry @ '' field '' @ [CHR 0x27] @ aOldValue entry @
                                         [CHR 0x27] @ ''() as rollback''))))))"

section \<open>Creation\<close>

definition ValidInstanceTypes :: "string list" where
  "ValidInstanceTypes = [''minecraft'', ''mysql'', ''postgresql'', ''mongodb'', ''redis'', ''kafka'']"

definition is_alnum :: "char \<Rightarrow> bool" where
  "is_alnum c \<longleftrightarrow> (let k = (of_char c :: nat) in (97 \<le> k \<and> k \<le> 122) \<or> (65 \<le> k \<and> k \<le> 90) \<or> (48 \<le> k \<and> k \<le> 57))"

definition instanceNameRe :: "string \<Rightarrow> bool" where
  "instanceNameRe s = (case s of
       [] \<Rightarrow> False
     | c # cs \<Rightarrow> is_alnum c \<and> (\<forall>x \<in> set cs. is_alnum x \<or> x \<in> set ''._-''))"

definition parseIntSafe :: "string \<Rightarrow> int option" where
  "parseIntSafe s = sscanf_d s"

text \<open>An uploaded file of a multipart form.\<close>

datatype form_file = NoFile | OpenFailed | ReadFailed | Uploaded string bytes

record CreateInstanceForm =
  cfAgentID :: string
  cfName :: string
  cfPort :: string
  cfInstanceType :: string
  cfServiceVersion :: string
  cfMemMin :: string
  cfMemMax :: string
  cfJvmArgs :: string
  cfAutoStart :: string
  cfAutoRestart :: string
  cfStartAfter :: string
  cfJavaPath :: string
  cfJavaVersion :: string
  cfCustomDockerfile :: string
  cfCustomCompose :: string
  cfDockerMemory :: string
  cfDockerCPUs :: string
  cfMySQLRootPassword :: string
  cfMySQLDataDir :: string
  cfMySQLExtraArgs :: string
  cfPGPassword :: string
  cfPGDataDir :: string
  cfPGExtraArgs :: string
  cfMongoAdminUser :: string
  cfMongoAdminPassword :: string
  cfMongoDataDir :: string
  cfMongoExtraArgs :: string
  cfRedisPassword :: string
  cfRedisDataDir :: string
  cfRedisExtraArgs :: string
  cfKafkaBrokerID :: string
  cfKafkaDataDir :: string
  cfKafkaExtraArgs :: string
  cfServerJar :: form_file
  cfServerZip :: form_file

definition form_data :: "form_file \<Rightarrow> string \<times> bytes" where
  "form_data f = (case f of Uploaded name bs \<Rightarrow> (name, bs) | _ \<Rightarrow> ('''', []))"

text \<open>The jar and the zip to send; a single zip in the jar field counts as the zip.\<close>

definition form_uploads :: "CreateInstanceForm \<Rightarrow> (string \<times> bytes) \<times> (string \<times> bytes)" where
  "form_uploads f =
     (let jar = form_data (cfServerJar f); zip = form_data (cfServerZip f)
      in if snd jar \<noteq> [] \<and> snd zip = [] \<and> has_suffix (to_lower (fst jar)) ''.zip''
         then (('''', []), jar) else (jar, zip))"

definition default_port :: "string \<Rightarrow> int" where
  "default_port ty =
     (if ty = ''minecraft'' then 25565 else if ty = ''mysql'' then 3306
      else if ty = ''postgresql'' then 5432 else if ty = ''mongodb'' then 27017
      else if ty = ''redis'' then 6379 else if ty = ''kafka'' then 9092 else 25565)"

definition form_port :: "string \<Rightarrow> string \<Rightarrow> int" where
  "form_port portStr ty =
     (let port = (if portStr \<noteq> '''' then (case parseIntSafe portStr of None \<Rightarrow> 0 | Some p \<Rightarrow> if 0 < p then p else 0) else 0)
      in if port = 0 then default_port ty else port)"

definition form_true :: "string \<Rightarrow> bool" where
  "form_true v \<longleftrightarrow> v = ''true'' \<or> v = ''on''"

definition clean_jvm_args :: "string \<Rightarrow> string" where
  "clean_jvm_args raw =
     (if raw \<noteq> '''' then str_join [CHR 0x0A]
        (filter (\<lambda>a. a \<noteq> '''') (map trim_space (split_on (CHR 0x0A) raw))) else '''')"

definition form_instance :: "CreateInstanceForm \<Rightarrow> string \<Rightarrow> string \<Rightarrow> Instance" where
  "form_instance f ty jarName =
     \<lparr>iID = cfAgentID f @ ''-'' @ cfName f, iNodeID = cfAgentID f, iName = cfName f,
      iPort = form_port (cfPort f) ty,
      iMemoryMin = (if cfMemMin f = '''' then ''512M'' else cfMemMin f),
      iMemoryMax = (if cfMemMax f = '''' then ''1024M'' else cfMemMax f),
      iJavaPath = (if cfJavaPath f = '''' then ''java'' else cfJavaPath f),
      iServerJar = (if jarName = '''' then ''server.jar'' else jarName),
      iWorkDir = ''./servers/'' @ cfName f, iStatus = ''stopped'', iPID = None, iRCONPort = None,
      iRCONPassword = None, iCreatedAt = 0, iUpdatedAt = 0, iAutoStart = form_true (cfAutoStart f),
      iAutoRestart = form_true (cfAutoRestart f), iRestartDelaySec = 10, iStopCommand = ''stop'',
      iJVMArgs = clean_jvm_args (cfJvmArgs f), iAcceptEULA = True, iInstanceType = ty,
      iServiceVersion = cfServiceVersion f, iMySQLRootPassword = cfMySQLRootPassword f,
      iMySQLDataDir = cfMySQLDataDir f, iMySQLExtraArgs = cfMySQLExtraArgs f,
      iPGPassword = cfPGPassword f, iPGDataDir = cfPGDataDir f, iPGExtraArgs = cfPGExtraArgs f,
      iMongoAdminUser = cfMongoAdminUser f, iMongoAdminPassword = cfMongoAdminPassword f,
      iMongoDataDir = cfMongoDataDir f, iMongoExtraArgs = cfMongoExtraArgs f,
      iRedisPassword = cfRedisPassword f, iRedisDataDir = cfRedisDataDir f,
      iRedisExtraArgs = cfRedisExtraArgs f,
      iKafkaBrokerID = (if cfKafkaBrokerID f = '''' then 0
        else case parseIntSafe (cfKafkaBrokerID f) of None \<Rightarrow> 0 | Some b \<Rightarrow> b),
      iKafkaDataDir = cfKafkaDataDir f, iKafkaExtraArgs = cfKafkaExtraArgs f,
      iBackupEnabled = False, iBackupCron = '''', iBackupMaxCount = 0, iBackupLastAt = None,
      iJavaVersion = cfJavaVersion f, iCustomDockerfile = cfCustomDockerfile f,
      iCustomCompose = cfCustomCompose f, iDockerMemory = cfDockerMemory f, iDockerCPUs = cfDockerCPUs f\<rparr>"

text \<open>The checks before anything is stored.\<close>

definition form_refused :: "CreateInstanceForm \<Rightarrow> string \<Rightarrow> reply option" where
  "form_refused f ty =
     (if ty \<notin> set ValidInstanceTypes then Some (Json 400 (''support not instance type: '' @ ty))
      else if cfAgentID f = '''' then Some (Json 400 ''agent please select'')
      else if cfName f = '''' then Some (Json 400 ''instance name please enter'')
      else if \<not> instanceNameRe (cfName f)
      then Some (Json 400 ''instance name English, number, hyphen(-), underscore(_), dot(.)only usable and English or number as must start '')
      else if cfServerJar f = OpenFailed then Some (Json 500 ''file open failed'')
      else if cfServerJar f = ReadFailed then Some (Json 500 ''file read failed'')
      else if cfServerZip f = OpenFailed then Some (Json 500 ''ZIP file open failed'')
      else if cfServerZip f = ReadFailed then Some (Json 500 ''ZIP file read failed'')
      else if ty = ''minecraft'' \<and> snd (fst (form_uploads f)) = [] \<and> snd (snd (form_uploads f)) = []
      then Some (Json 400 ''server JAR file or server ZIP file uploadplease'')
      else None)"

definition ensureDefaultNetwork :: "instant \<Rightarrow> string \<Rightarrow> string \<Rightarrow> GRPCServer \<Rightarrow> GRPCServer \<times> agent_call list" where
  "ensureDefaultNetwork now agentID networkName s =
     (let networkID = agentID @ ''-'' @ networkName;
          request = (case GetAgentAddress agentID s of
                       None \<Rightarrow> [] | Some addr \<Rightarrow> [CallCreateNetwork networkName ''bridge''])
      in case GetNetwork networkID (gsDB s) of
           Inr n \<Rightarrow> (s, request)
         | Inl e \<Rightarrow>
             (case CreateNetwork now \<lparr>wID = networkID, wName = networkName, wDriver = ''bridge'',
                     wSubnet = '''', wGateway = '''', wNodeID = agentID, wCreatedAt = 0, wUpdatedAt = 0\<rparr> (gsDB s) of
                Inl e' \<Rightarrow> (s, [])
              | Inr d \<Rightarrow> (s\<lparr>gsDB := d\<rparr>, request)))"

definition upload_chunk_size :: nat where
  "upload_chunk_size = 4 * 1024 * 1024"

text \<open>The loop of \<^verbatim>\<open>streamUploadServerData\<close> over the rest of the data; the first message names the file.\<close>

function upload_messages :: "nat \<Rightarrow> (bytes \<Rightarrow> UploadServerDataRequest) \<Rightarrow> bytes \<Rightarrow> UploadServerDataRequest list" where
  "upload_messages n first data =
     (if data = [] \<or> n = 0 then []
      else first (take n data) # upload_messages n
             (\<lambda>bs. \<lparr>usInstanceName = '''', usFileType = '''', usFileName = '''', usTotalSize = 0, usChunkData = bs\<rparr>)
             (drop n data))"
  by pat_completeness auto
termination
  by (relation "measure (\<lambda>(n, first, data). length data)") (auto simp: neq_Nil_conv)

declare upload_messages.simps [simp del]

definition streamUploadServerData ::
  "string \<Rightarrow> string \<times> bytes \<Rightarrow> string \<times> bytes \<Rightarrow> UploadServerDataRequest list" where
  "streamUploadServerData instanceName jarf zipf =
     (let send = (\<lambda>fileType (fileName, data). upload_messages upload_chunk_size
            (\<lambda>bs. \<lparr>usInstanceName = instanceName, usFileType = fileType, usFileName = fileName,
                   usTotalSize = int (length data), usChunkData = bs\<rparr>) data)
      in if snd zipf \<noteq> [] then send ''zip'' zipf
         else if snd jarf \<noteq> [] then send ''jar'' jarf else [])"

text \<open>
  The calls to a connected agent. \<open>created\<close> says whether the call to create the instance
  returned, \<open>uploaded\<close> whether the upload was accepted.
\<close>

definition create_calls ::
  "bool \<Rightarrow> bool \<Rightarrow> CreateInstanceForm \<Rightarrow> Instance \<Rightarrow> (string \<times> bytes) \<times> (string \<times> bytes) \<Rightarrow> string \<Rightarrow> agent_call list" where
  "create_calls created uploaded f inst files networkName =
     (let jarf = fst files; zipf = snd files;
          needsUpload = (snd jarf \<noteq> [] \<or> snd zipf \<noteq> []);
          startAfter = form_true (cfStartAfter f)
      in CallCreateInstance
           \<lparr>crName = iName inst, crPort = wrap32 (iPort inst), crMemoryMin = iMemoryMin inst,
            crMemoryMax = iMemoryMax inst, crServerJarName = iServerJar inst, crAutoStart = iAutoStart inst,
            crAutoRestart = iAutoRestart inst, crAcceptEula = True,
            crStartAfterCreate = (startAfter \<and> \<not> needsUpload), crJavaPath = iJavaPath inst,
            crJvmArgs = JVMArgsList inst, crInstanceType = iInstanceType inst,
            crServiceVersion = iServiceVersion inst, crJavaVersion = iJavaVersion inst,
            crCustomDockerfile = iCustomDockerfile inst, crCustomCompose = iCustomCompose inst,
            crNetworkName = networkName, crServerZipName = fst zipf\<rparr>
         # (if created \<and> needsUpload
            then CallUpload (streamUploadServerData (iName inst) jarf zipf)
                 # (if uploaded \<and> startAfter then [CallControl (iNodeID inst) (iID inst) INSTANCE_ACTION_START] else [])
            else []))"

definition apiCreateInstance ::
  "bool \<Rightarrow> bool \<Rightarrow> instant \<Rightarrow> CreateInstanceForm \<Rightarrow> user_context \<Rightarrow> GRPCServer \<Rightarrow> GRPCServer \<times> reply \<times> agent_call list" where
  "apiCreateInstance created uploaded now f uc s =
     (let ty = (if cfInstanceType f = '''' then ''minecraft'' else cfInstanceType f);
          files = form_uploads f;
          inst = form_instance f ty (fst (fst files));
          networkName = ''craftstack-default''
      in case form_refused f ty of
           Some r \<Rightarrow> (s, r, [])
         | None \<Rightarrow>
             (case CreateInstance now inst (gsDB s) of
                Inl e \<Rightarrow> (s, Json 500 ''DB save failed'', [])
              | Inr d1 \<Rightarrow>
                  let d2 = audit now uc ''create'' ''instance'' (iID inst) (iName inst) '''' '''' ''''
                        (''create instance: '' @ iName inst @ '' (type: '' @ ty @ '', node: '' @ cfAgentID f @
                         '', port: '' @ itoa (iPort inst) @ '')'') d1;
                      (s2, calls1) = ensureDefaultNetwork now (cfAgentID f) networkName (s\<lparr>gsDB := d2\<rparr>);
                      calls2 = (case GetAgentAddress (cfAgentID f) s2 of
                                  None \<Rightarrow> [] | Some addr \<Rightarrow> create_calls created uploaded f inst files networkName);
                      d3 = (case AddInstanceToNetwork now (iID inst) (cfAgentID f @ ''-'' @ networkName)
                                   (container_name (iName inst)) '''' (gsDB s2) of
                              Inl e \<Rightarrow> gsDB s2 | Inr d \<Rightarrow> d);
                      d4 = RegisterInstanceDNS now inst d3
                  in (s2\<lparr>gsDB := d4\<rparr>, Json 200 ''the instance created'', calls1 @ calls2)))"

section \<open>Undoing a change\<close>

lemma itoa_roundtrip: "in_int64 n \<Longrightarrow> set_int put (itoa n) i = put n i"
  by (simp add: set_int_def atoi_itoa)

lemma fmt_bool_eq [simp]: "fmt_bool b = ''true'' \<longleftrightarrow> b" "fmt_bool a = fmt_bool b \<longleftrightarrow> a = b"
  by (simp_all add: fmt_bool_def)

definition settings_ok :: "Instance \<Rightarrow> bool" where
  "settings_ok i \<longleftrightarrow> in_int64 (iKafkaBrokerID i) \<and> in_int64 (iBackupMaxCount i)"

lemma set_int_other:
  "(\<And>n. get (put n i) = get i) \<Longrightarrow> get (set_int put v i) = get i"
  by (simp add: set_int_def split: option.splits)

lemma distinct_audited: "distinct (map fst audited_fields)"
  by (simp add: audited_fields_def)

text \<open>
  Each recorded setting has a setter in the switch; setting the printed value of an
  instance gives that setting back, and leaves every other setting and the key alone.
\<close>

lemma audited_set_get:
  assumes "(f, get) \<in> set audited_fields" and "settings_ok old"
  shows "\<exists>put. map_of rollback_setters f = Some put \<and> get (put (get old) i) = get old \<and> iID (put (get old) i) = iID i"
  using assms unfolding audited_fields_def list.set
  by (elim insertE) (simp_all add: rollback_setters_def settings_ok_def itoa_roundtrip)

lemma audited_others:
  assumes "map_of rollback_setters f = Some put"
  shows "\<forall>(g, get) \<in> set audited_fields. g \<noteq> f \<longrightarrow> get (put v i) = get i"
proof -
  have "(f, put) \<in> set rollback_setters" by (rule map_of_SomeD [OF assms])
  then show ?thesis
    unfolding rollback_setters_def list.set
    by (elim insertE) (simp_all add: audited_fields_def set_int_def split: option.splits)
qed

lemma audited_updated:
  "\<forall>(f, get) \<in> set audited_fields. get (updated_instance now i r) = get i"
  by (simp add: audited_fields_def updated_instance_def)

lemma audited_updatedD: "(f, get) \<in> set audited_fields \<Longrightarrow> get (updated_instance now i r) = get i"
  using audited_updated [of now i r] by blast

lemma audited_othersD:
  "map_of rollback_setters f = Some put \<Longrightarrow> (g, get) \<in> set audited_fields \<Longrightarrow> g \<noteq> f \<Longrightarrow> get (put v i) = get i"
  using audited_others [of f put v i] by blast

text \<open>What the loop over the settings adds to the audit log.\<close>

definition records_change :: "string \<Rightarrow> Instance \<Rightarrow> Instance \<Rightarrow> AuditLog \<Rightarrow> bool" where
  "records_change i old new e \<longleftrightarrow> aTargetType e = ''instance'' \<and> aTargetID e = i \<and> \<not> aRolledBack e \<and>
     (\<exists>get. (aFieldName e, get) \<in> set audited_fields \<and> aOldValue e = get old \<and> aNewValue e = get new)"

lemma auditFieldChange_frame [simp]:
  "instances (auditFieldChange now uc t i n f x y d) = instances d"
  "at_seq (audit_logs d) \<le> at_seq (audit_logs (auditFieldChange now uc t i n f x y d))"
  by (simp_all add: auditFieldChange_def audit_def CreateAuditLog_def auto_insert_def)

lemma auditFieldChange_ok: "db_ok d \<Longrightarrow> db_ok (auditFieldChange now uc t i n f x y d)"
  by (simp add: auditFieldChange_def audit_ok)

lemma audit_changes_effect:
  assumes "set fs \<subseteq> set audited_fields"
  shows "instances (audit_changes now uc i old new fs d) = instances d \<and>
    (db_ok d \<longrightarrow> db_ok (audit_changes now uc i old new fs d)) \<and>
    (\<forall>e \<in> set (at_rows (audit_logs (audit_changes now uc i old new fs d))).
       e \<in> set (at_rows (audit_logs d)) \<or> records_change i old new e)"
  using assms unfolding audit_changes_def
proof (induction fs arbitrary: d)
  case (Cons p fs)
  obtain f get where p: "p = (f, get)" by force
  let ?d = "auditFieldChange now uc ''instance'' i (iName new) f (get old) (get new) d"
  have "\<forall>e \<in> set (at_rows (audit_logs ?d)). e \<in> set (at_rows (audit_logs d)) \<or> records_change i old new e"
    using Cons.prems p
    by (auto simp: auditFieldChange_def audit_def CreateAuditLog_def auto_insert_def records_change_def)
  moreover have "set fs \<subseteq> set audited_fields" using Cons.prems by simp
  ultimately show ?case
    using Cons.IH [of ?d] by (auto simp: p auditFieldChange_ok)
qed simp

lemma GetInstance_InrD: "GetInstance i d = Inr x \<Longrightarrow> iID x = i \<and> x \<in> set (instances d)"
  unfolding GetInstance_def by (drule query_row_InrD) simp

lemma GetInstance_UpdateInstance:
  assumes "GetInstance i d = Inr old" and "iID new = i"
  shows "GetInstance i (UpdateInstance now new d) = Inr (updated_instance now new old)"
proof -
  have "iID old = i" using GetInstance_InrD [OF assms(1)] by simp
  then show ?thesis
    using assms query_row_row_update [of iID "updated_instance now new" i "\<lambda>r. iID r = i" "instances d"]
    by (simp add: GetInstance_def UpdateInstance_def updated_instance_def)
qed

lemma apply_update_id: "apply_update req old = Inr new \<Longrightarrow> iID new = iID old"
  by (auto simp: apply_update_def Let_def split: if_splits option.splits)

lemma GetInstance_frame: "instances d' = instances d \<Longrightarrow> GetInstance i d' = GetInstance i d"
  by (simp add: GetInstance_def)

text \<open>The state after a successful change of settings.\<close>

lemma update_effect:
  assumes "db_ok (gsDB s)" and "apiUpdateInstance now i (Some req) uc s = (s1, Json 200 m)"
  obtains old new where "GetInstance i (gsDB s) = Inr old" "apply_update req old = Inr new"
    "GetInstance i (gsDB s1) = Inr (updated_instance now new old)" "db_ok (gsDB s1)"
    "\<And>e. e \<in> set (at_rows (audit_logs (gsDB s1))) \<Longrightarrow>
       e \<in> set (at_rows (audit_logs (gsDB s))) \<or> records_change i old new e"
proof -
  obtain old where old: "GetInstance i (gsDB s) = Inr old"
    using assms(2) by (cases "GetInstance i (gsDB s)") (auto simp: apiUpdateInstance_def)
  obtain new where new: "apply_update req old = Inr new"
    using assms(2) old by (cases "apply_update req old") (auto simp: apiUpdateInstance_def)
  let ?run = "audit_changes now uc i old new audited_fields"
  have s1: "gsDB s1 = ?run (UpdateInstance now new (gsDB s))"
    using assms(2) old new by (auto simp: apiUpdateInstance_def Let_def)
  have "iID old = i" using GetInstance_InrD [OF old] by simp
  then have id: "iID new = i" using apply_update_id [OF new] by simp
  note run = audit_changes_effect [OF subset_refl, of now uc i old new "UpdateInstance now new (gsDB s)"]
  have "GetInstance i (gsDB s1) = Inr (updated_instance now new old)"
    using run GetInstance_frame GetInstance_UpdateInstance [OF old id] unfolding s1 by metis
  moreover have "db_ok (gsDB s1)" using run UpdateInstance_ok [OF assms(1)] unfolding s1 by blast
  moreover have "audit_logs (UpdateInstance now new (gsDB s)) = audit_logs (gsDB s)" by (simp add: UpdateInstance_def)
  ultimately show thesis using that [OF old new] run unfolding s1 by metis
qed

lemma GetAuditLog_mem:
  assumes "db_ok d" and "e \<in> set (at_rows (audit_logs d))"
  shows "GetAuditLog (aID e) d = Inr e"
  using assms by (simp add: GetAuditLog_def query_row_key_iff db_ok_defs auto_ok_def)

text \<open>
  C32. Undoing a recorded change of settings: the rollback of an entry that a change of
  settings has written gives that setting its old value back and leaves every other recorded
  setting as the change has left it.
\<close>

theorem rollback_restores_setting:
  assumes ok: "db_ok (gsDB s)" and upd: "apiUpdateInstance now i (Some req) uc s = (s1, Json 200 m)"
    and old: "GetInstance i (gsDB s) = Inr old" and int: "settings_ok old"
    and e: "e \<in> set (at_rows (audit_logs (gsDB s1)))" "at_seq (audit_logs (gsDB s)) < aID e" "in_int64 (aID e)"
  shows "\<exists>s2 m2 new undone. GetInstance i (gsDB s1) = Inr new \<and>
    apiRollbackAuditLog now2 (itoa (aID e)) uc2 s1 = (s2, Json 200 m2) \<and> GetInstance i (gsDB s2) = Inr undone \<and>
    (\<forall>(f, get) \<in> set audited_fields. get undone = (if f = aFieldName e then get old else get new))"
proof -
  obtain new0 where new: "GetInstance i (gsDB s1) = Inr (updated_instance now new0 old)" and ok1: "db_ok (gsDB s1)"
    and entries: "e \<in> set (at_rows (audit_logs (gsDB s))) \<or> records_change i old new0 e"
    using update_effect [OF ok upd] old e(1) by (metis sum.inject(2))
  let ?new = "updated_instance now new0 old"
  have "e \<notin> set (at_rows (audit_logs (gsDB s)))" using ok e(2) by (auto simp: db_ok_defs auto_ok_def)
  then obtain get where ch: "aTargetType e = ''instance''" "aTargetID e = i" "\<not> aRolledBack e"
      "(aFieldName e, get) \<in> set audited_fields" "aOldValue e = get old"
    using entries by (auto simp: records_change_def)
  obtain put where put: "map_of rollback_setters (aFieldName e) = Some put"
      "get (put (get old) ?new) = get old" "iID (put (get old) ?new) = iID ?new"
    using audited_set_get [OF ch(4) int] by blast
  have "aFieldName e \<noteq> ''''" using ch(4) by (auto simp: audited_fields_def)
  define s2 where "s2 = fst (apiRollbackAuditLog now2 (itoa (aID e)) uc2 s1)"
  have roll: "\<exists>m2. apiRollbackAuditLog now2 (itoa (aID e)) uc2 s1 = (s2, Json 200 m2)"
      "instances (gsDB s2) = instances (UpdateInstance now2 (put (get old) ?new) (gsDB s1))"
    unfolding s2_def using GetAuditLog_mem [OF ok1 e(1)] new ch put(1) \<open>aFieldName e \<noteq> ''''\<close>
    by (simp_all add: apiRollbackAuditLog_def atoi_itoa [OF e(3)] Let_def audit_def CreateAuditLog_def
        MarkAuditLogRolledBack_def)
  have id: "iID ?new = i" using GetInstance_InrD [OF new] by simp
  have "GetInstance i (gsDB s2) = Inr (updated_instance now2 (put (get old) ?new) ?new)"
    using GetInstance_UpdateInstance [OF new, of "put (get old) ?new" now2] put(3) id
      GetInstance_frame [OF roll(2)] by simp
  moreover have "get' (updated_instance now2 (put (get old) ?new) ?new) = (if f = aFieldName e then get' old else get' ?new)"
    if "(f, get') \<in> set audited_fields" for f get'
  proof (cases "f = aFieldName e")
    case True
    have "get' = get" using eq_key_imp_eq_value [OF distinct_audited that] ch(4) True by simp
    then show ?thesis using audited_updatedD [OF that] put(2) True by simp
  next
    case False
    then show ?thesis using audited_updatedD [OF that] audited_othersD [OF put(1) that] by simp
  qed
  ultimately show ?thesis using new roll(1) by blast
qed

definition no_change :: UpdateInstanceRequest where
  "no_change =
     \<lparr>urName = None, urPort = None, urMemoryMin = None, urMemoryMax = None, urAutoStart = None,
      urAutoRestart = None, urStopCommand = None, urJVMArgs = None, urServiceVersion = None,
      urMySQLRootPassword = None, urMySQLExtraArgs = None, urPGPassword = None, urPGExtraArgs = None,
      urMongoAdminUser = None, urMongoAdminPassword = None, urMongoExtraArgs = None,
      urRedisPassword = None, urRedisExtraArgs = None, urKafkaBrokerID = None, urKafkaExtraArgs = None,
      urBackupEnabled = None, urBackupCron = None, urBackupMaxCount = None, urJavaVersion = None,
      urCustomDockerfile = None, urCustomCompose = None, urDockerMemory = None, urDockerCPUs = None\<rparr>"

definition demo_server :: GRPCServer where
  "demo_server = NewGRPCServer demo_db"

definition demo_mc :: Instance where
  "demo_mc = new_instance 0 (demo_instance ''mc'' ''n1'')"

lemma demo_server_mc: "GetInstance ''mc'' (gsDB demo_server) = Inr demo_mc" "settings_ok demo_mc"
  by (simp_all add: demo_server_def NewGRPCServer_def demo_db_def demo_mc_def GetInstance_def query_row_def
      settings_ok_def)
     (simp_all add: demo_instance_def new_instance_def default_type_def in_int64_def min_int64_def max_int64_def)

theorem rollback_restores_setting_witness:
  "(let s1 = fst (apiUpdateInstance 0 ''mc'' (Some (no_change\<lparr>urMemoryMax := Some ''8G''\<rparr>)) no_user demo_server);
        s2 = fst (apiRollbackAuditLog 0 ''1'' no_user s1)
    in \<exists>new undone. GetInstance ''mc'' (gsDB s1) = Inr new \<and> iMemoryMax new = ''8G'' \<and>
         GetInstance ''mc'' (gsDB s2) = Inr undone \<and> iMemoryMax undone = iMemoryMax demo_mc)"
proof -
  let ?req = "no_change\<lparr>urMemoryMax := Some ''8G''\<rparr>"
  let ?new = "demo_mc\<lparr>iMemoryMax := ''8G''\<rparr>"
  have ok: "db_ok (gsDB demo_server)" by (simp add: demo_server_def NewGRPCServer_def demo_db_ok)
  obtain s1 m where s1: "apiUpdateInstance 0 ''mc'' (Some ?req) no_user demo_server = (s1, Json 200 m)"
    and db: "gsDB s1 = audit_changes 0 no_user ''mc'' demo_mc ?new audited_fields (UpdateInstance 0 ?new (gsDB demo_server))"
    using demo_server_mc(1)
    by (simp add: apiUpdateInstance_def apply_update_def no_change_def given_def Let_def)
  have "iMemoryMax demo_mc \<noteq> ''8G''"
    by (simp add: demo_mc_def demo_instance_def new_instance_def default_type_def)
  then obtain e where "at_rows (audit_logs (gsDB s1)) = [e]" "aID e = 1" "aFieldName e = ''memory_max''"
    unfolding db audit_changes_def audited_fields_def
    by (simp add: auditFieldChange_def audit_def CreateAuditLog_def auto_insert_def UpdateInstance_def
        demo_server_def NewGRPCServer_def demo_db_def migrated_db_def auto_empty_def)
  then have e: "e \<in> set (at_rows (audit_logs (gsDB s1)))" "at_seq (audit_logs (gsDB demo_server)) < aID e"
      "in_int64 (aID e)" "aFieldName e = ''memory_max''" "itoa (aID e) = ''1''"
    by (simp_all add: demo_server_def NewGRPCServer_def demo_db_def migrated_db_def auto_empty_def
        in_int64_def min_int64_def max_int64_def)
       (simp add: itoa_def nat_digits.simps digit_char_def char_of_def bit_simps)
  have new: "GetInstance ''mc'' (gsDB s1) = Inr (updated_instance 0 ?new demo_mc)"
    unfolding db GetInstance_frame [OF conjunct1 [OF audit_changes_effect [OF subset_refl]]]
    by (rule GetInstance_UpdateInstance [OF demo_server_mc(1)]) (use GetInstance_InrD [OF demo_server_mc(1)] in simp)
  obtain s2 m2 undone where s2: "apiRollbackAuditLog 0 ''1'' no_user s1 = (s2, Json 200 m2)"
      "GetInstance ''mc'' (gsDB s2) = Inr undone"
    and all: "\<forall>(f, get) \<in> set audited_fields. f = ''memory_max'' \<longrightarrow> get undone = get demo_mc"
    using rollback_restores_setting [OF ok s1 demo_server_mc e(1-3), of 0 no_user] unfolding e(4,5) by fastforce
  have "(''memory_max'', iMemoryMax) \<in> set audited_fields" by (simp add: audited_fields_def)
  with all have "iMemoryMax undone = iMemoryMax demo_mc" by blast
  have "iMemoryMax (updated_instance 0 ?new demo_mc) = ''8G''" by (simp add: updated_instance_def)
  with new s2(2) \<open>iMemoryMax undone = _\<close> show ?thesis unfolding Let_def s1 s2(1) fst_conv by blast
qed

end
