(* ===== verification/Web_Networks.thy ===== *)
theory Web_Networks
  imports Web_Instances
begin

text \<open>
  The handlers of the web server for networks and DNS records
  (\<^verbatim>\<open>internal/master/web/handler_network.go\<close>, \<^verbatim>\<open>handler_mesh.go\<close>), and what creation, deletion
  and networking of instances do to the database together. \<open>call\<close> is the call to the agent:
  \<open>None\<close> if it fails, else success and message.
\<close>

section \<open>Networks\<close>

definition apiListNetworks :: "string \<Rightarrow> DB \<Rightarrow> (Network \<times> int) list" where
  "apiListNetworks nodeID d = map (\<lambda>n. (n, CountNetworkInstances (wID n) d)) (ListNetworks nodeID d)"

record CreateNetworkBody =
  cnName :: string
  cnDriver :: string
  cnSubnet :: string
  cnGateway :: string
  cnNodeID :: string

definition apiCreateNetwork ::
  "(string \<Rightarrow> string \<Rightarrow> string \<Rightarrow> string \<Rightarrow> string \<Rightarrow> (bool \<times> string) option) \<Rightarrow> instant \<Rightarrow> CreateNetworkBody option \<Rightarrow>
   user_context \<Rightarrow> GRPCServer \<Rightarrow> GRPCServer \<times> reply" where
  "apiCreateNetwork call now body uc s =
     (case body of
        None \<Rightarrow> (s, Json 400 ''invalid request'')
      | Some req \<Rightarrow>
          if cnName req = '''' then (s, Json 400 ''network name please enter'')
          else if cnNodeID req = '''' then (s, Json 400 ''node please select'')
          else let driver = (if cnDriver req = '''' then ''bridge'' else cnDriver req) in
            (case GetAgentAddress (cnNodeID req) s of
               None \<Rightarrow> (s, Json 503 ''the agent offline'')
             | Some addr \<Rightarrow>
                 (case call addr (cnName req) driver (cnSubnet req) (cnGateway req) of
                    None \<Rightarrow> (s, Json 500 ''create network failed'')
                  | Some (success, message) \<Rightarrow>
                      if \<not> success then (s, Json 500 message)
                      else
                        let networkID = cnNodeID req @ ''-'' @ cnName req;
                            d1 = (case CreateNetwork now \<lparr>wID = networkID, wName = cnName req, wDriver = driver,
                                         wSubnet = cnSubnet req, wGateway = cnGateway req, wNodeID = cnNodeID req,
                                         wCreatedAt = 0, wUpdatedAt = 0\<rparr> (gsDB s) of
                                    Inl e \<Rightarrow> gsDB s | Inr d \<Rightarrow> d);
                            d2 = audit now uc ''create'' ''network'' networkID (cnName req) '''' '''' ''''
                                   (''create network: '' @ cnName req @ '' (driver: '' @ driver @ '', node: '' @
                                    cnNodeID req @ '')'') d1
                        in (s\<lparr>gsDB := d2\<rparr>, Json 200 ''network created''))))"

definition apiDeleteNetwork :: "instant \<Rightarrow> string \<Rightarrow> user_context \<Rightarrow> GRPCServer \<Rightarrow> GRPCServer \<times> reply" where
  "apiDeleteNetwork now networkID uc s =
     (case GetNetwork networkID (gsDB s) of
        Inl e \<Rightarrow> (s, Json 404 ''network not found'')
      | Inr network \<Rightarrow>
          let count = CountNetworkInstances networkID (gsDB s) in
          if 0 < count
          then (s, Json 409 ('' network '' @ itoa count @ '' the instance connectis set. first connect releaseplease.''))
          else (s\<lparr>gsDB := audit now uc ''delete'' ''network'' networkID (wName network) '''' '''' ''''
                    (''delete network: '' @ wName network) (DeleteNetwork networkID (gsDB s))\<rparr>,
                Json 200 ''network deleted''))"

definition apiConnectNetwork ::
  "(string \<Rightarrow> string \<Rightarrow> string \<Rightarrow> string \<Rightarrow> string \<Rightarrow> (bool \<times> string) option) \<Rightarrow> instant \<Rightarrow> string \<Rightarrow>
   (string \<times> string \<times> string) option \<Rightarrow> user_context \<Rightarrow> GRPCServer \<Rightarrow> GRPCServer \<times> reply" where
  "apiConnectNetwork call now networkID body uc s =
     (case body of
        None \<Rightarrow> (s, Json 400 ''invalid request'')
      | Some (instanceID, reqAlias, ipAddress) \<Rightarrow>
          if instanceID = '''' then (s, Json 400 ''instance please select'')
          else case GetNetwork networkID (gsDB s) of
            Inl e \<Rightarrow> (s, Json 404 ''network not found'')
          | Inr network \<Rightarrow>
              (case GetInstance instanceID (gsDB s) of
                 Inl e \<Rightarrow> (s, Json 404 ''instance not found'')
               | Inr inst \<Rightarrow>
                   if iNodeID inst \<noteq> wNodeID network
                   then (s, Json 400 ''instance network same node must exist '')
                   else let alias = (if reqAlias = '''' then iName inst else reqAlias) in
                     (case GetAgentAddress (wNodeID network) s of
                        None \<Rightarrow> (s, Json 503 ''the agent offline'')
                      | Some addr \<Rightarrow>
                          (case call addr (wName network) (container_name (iName inst)) alias ipAddress of
                             None \<Rightarrow> (s, Json 500 ''connect network failed'')
                           | Some (success, message) \<Rightarrow>
                               if \<not> success then (s, Json 500 message)
                               else
                                 let d1 = (case AddInstanceToNetwork now instanceID networkID alias ipAddress (gsDB s) of
                                             Inl e \<Rightarrow> gsDB s | Inr d \<Rightarrow> d);
                                     d2 = RegisterInstanceDNS now inst d1;
                                     d3 = audit now uc ''connect'' ''network'' networkID (wName network) '''' '''' ''''
                                            (''connect network: '' @ iName inst @ arrow @ wName network) d2
                                 in (s\<lparr>gsDB := d3\<rparr>, Json 200 ''the instance network connected'')))))"

text \<open>The left arrow between two blanks, in UTF-8.\<close>

definition left_arrow :: string where
  "left_arrow = [CHR '' '', CHR 0xE2, CHR 0x86, CHR 0x90, CHR '' '']"

definition apiDisconnectNetwork ::
  "instant \<Rightarrow> string \<Rightarrow> string option \<Rightarrow> user_context \<Rightarrow> GRPCServer \<Rightarrow> GRPCServer \<times> reply" where
  "apiDisconnectNetwork now networkID body uc s =
     (case body of
        None \<Rightarrow> (s, Json 400 ''invalid request'')
      | Some instanceID \<Rightarrow>
          if instanceID = '''' then (s, Json 400 ''instance please select'')
          else case GetNetwork networkID (gsDB s) of
            Inl e \<Rightarrow> (s, Json 404 ''network not found'')
          | Inr network \<Rightarrow>
              (case GetInstance instanceID (gsDB s) of
                 Inl e \<Rightarrow> (s, Json 404 ''instance not found'')
               | Inr inst \<Rightarrow>
                   let d1 = RemoveInstanceFromNetwork instanceID networkID (gsDB s);
                       d2 = (if ListInstanceNetworks instanceID d1 = [] then UnregisterInstanceDNS instanceID d1
                             else RegisterInstanceDNS now inst d1);
                       d3 = audit now uc ''disconnect'' ''network'' networkID (wName network) '''' '''' ''''
                              (''connect network release: '' @ iName inst @ left_arrow @ wName network) d2
                   in (s\<lparr>gsDB := d3\<rparr>, Json 200 ''the instance network from connect release'')))"

section \<open>DNS records by hand\<close>

record CreateDNSBody =
  cdName :: string
  cdIPAddress :: string
  cdInstanceID :: string
  cdNodeID :: string

definition apiCreateDNSRecord :: "instant \<Rightarrow> CreateDNSBody option \<Rightarrow> user_context \<Rightarrow> GRPCServer \<Rightarrow> GRPCServer \<times> reply" where
  "apiCreateDNSRecord now body uc s =
     (case body of
        None \<Rightarrow> (s, Json 400 ''invalid request'')
      | Some req \<Rightarrow>
          if cdName req = '''' \<or> cdIPAddress req = '''' then (s, Json 400 ''name IP address required'')
          else case GetDefaultMesh (gsDB s) of
            Inl e \<Rightarrow> (s, Json 500 ''mesh network not found'')
          | Inr mesh \<Rightarrow>
              let fqdn = cdName req @ ''.'' @ hDomain mesh in
              (case UpsertDNSRecord now \<lparr>eID = 0, eMeshID = hID mesh, eName = cdName req, eFQDN = fqdn,
                      eIPAddress = cdIPAddress req, eInstanceID = cdInstanceID req, eNodeID = cdNodeID req,
                      eCreatedAt = 0\<rparr> (gsDB s) of
                 Inl e \<Rightarrow> (s, Json 500 ''DNS record not saved'')
               | Inr d \<Rightarrow>
                   (s\<lparr>gsDB := audit now uc ''create'' ''mesh'' fqdn (cdName req) '''' '''' (cdIPAddress req)
                        (''DNS record create: '' @ fqdn @ arrow @ cdIPAddress req) d\<rparr>,
                    Json 200 ''DNS record created'')))"

definition apiDeleteDNSRecord :: "instant \<Rightarrow> string \<Rightarrow> user_context \<Rightarrow> GRPCServer \<Rightarrow> GRPCServer \<times> reply" where
  "apiDeleteDNSRecord now instanceID uc s =
     (if instanceID = '''' then (s, Json 400 ''instance ID is required'')
      else (s\<lparr>gsDB := audit now uc ''delete'' ''mesh'' instanceID instanceID '''' '''' ''''
                (''DNS record delete: instance '' @ instanceID) (DeleteDNSRecordByInstance instanceID (gsDB s))\<rparr>,
            Json 200 ''DNS record deleted''))"

definition apiMeshStatus :: "GRPCServer \<Rightarrow> (Node \<times> bool) list" where
  "apiMeshStatus s = map (\<lambda>n. (n, IsAgentOnline (nID n) s)) (ListNodesWithWireGuard (gsDB s))"

section \<open>Deleting an instance\<close>

lemma fold_Remove_frame:
  "instances (fold (\<lambda>x. RemoveInstanceFromNetwork i (xNetworkID x)) xs d) = instances d \<and>
   dns_records (fold (\<lambda>x. RemoveInstanceFromNetwork i (xNetworkID x)) xs d) = dns_records d \<and>
   (db_ok d \<longrightarrow> db_ok (fold (\<lambda>x. RemoveInstanceFromNetwork i (xNetworkID x)) xs d))"
  by (induction xs arbitrary: d) (auto simp: RemoveInstanceFromNetwork_ok, auto simp: RemoveInstanceFromNetwork_def)

lemma audit_tables [simp]:
  "instances (audit now uc a t i n f x y z d) = instances d"
  "backups (audit now uc a t i n f x y z d) = backups d"
  "instance_networks (audit now uc a t i n f x y z d) = instance_networks d"
  "dns_records (audit now uc a t i n f x y z d) = dns_records d"
  "networks (audit now uc a t i n f x y z d) = networks d"
  "mesh_networks (audit now uc a t i n f x y z d) = mesh_networks d"
  "nodes (audit now uc a t i n f x y z d) = nodes d"
  by (simp_all add: audit_def CreateAuditLog_def)


section \<open>The default network of a second node\<close>

lemma GetAgentAddress_db: "GetAgentAddress a (s\<lparr>gsDB := d\<rparr>) = GetAgentAddress a s"
  by (simp add: GetAgentAddress_def)

lemma fresh_instance_no_networks:
  assumes "db_ok d" and "i \<notin> instance_ids d"
  shows "filter (\<lambda>x. xInstanceID x = i) (at_rows (instance_networks d)) = []"
  using db_ok_refs [OF assms(1)] assms(2) by (auto simp: filter_empty_conv)

lemma RegisterInstanceDNS_none: "ListInstanceNetworks (iID inst) d = [] \<Longrightarrow> RegisterInstanceDNS now inst d = d"
  by (simp add: RegisterInstanceDNS_def split: sum.splits)

text \<open>
  The default network has the same name on every node, but the table allows a name only
  once. When it is stored for one node, an instance created on a node that has none gets no
  network: the network is not stored, the agent is not asked to create it, and the instance
  has no membership.
\<close>

theorem second_default_network_lost:
  assumes ok: "db_ok (gsDB s)" and n: "n \<in> set (networks (gsDB s))" "wName n = ''craftstack-default''"
    and none: "cfAgentID f @ ''-craftstack-default'' \<notin> wID ` set (networks (gsDB s))"
    and create: "apiCreateInstance created uploaded now f uc s = (s', Json 200 m, calls)"
  shows "ListInstanceNetworks (cfAgentID f @ ''-'' @ cfName f) (gsDB s') = [] \<and>
    networks (gsDB s') = networks (gsDB s) \<and> (\<forall>name driver. CallCreateNetwork name driver \<notin> set calls) \<and>
    network_name (cfAgentID f @ ''-'' @ cfName f) (gsDB s') = ''''"
proof -
  define ty where "ty = (if cfInstanceType f = '''' then ''minecraft'' else cfInstanceType f)"
  define inst where "inst = form_instance f ty (fst (fst (form_uploads f)))"
  note fold = ty_def [symmetric] inst_def [symmetric]
  let ?i = "cfAgentID f @ CHR ''-'' # cfName f"
  have id: "iID inst = ?i" by (simp add: inst_def form_instance_def)
  have ref: "form_refused f ty = None"
    using create by (cases "form_refused f ty") (auto simp: apiCreateInstance_def Let_def fold form_refused_def split: if_splits)
  obtain d1 where d1: "CreateInstance now inst (gsDB s) = Inr d1"
    using create ref by (cases "CreateInstance now inst (gsDB s)") (auto simp: apiCreateInstance_def Let_def fold)
  have fresh: "?i \<notin> instance_ids (gsDB s)" and d1_frame: "networks d1 = networks (gsDB s)"
      "instance_networks d1 = instance_networks (gsDB s)"
    using d1 id by (auto simp: CreateInstance_def split: if_splits)
  have mem: "filter (\<lambda>x. xInstanceID x = ?i) (at_rows (instance_networks d1)) = []"
    using fresh_instance_no_networks [OF ok fresh] d1_frame by simp
  define d2 where "d2 z = audit now uc ''create'' ''instance'' ?i (iName inst) '''' '''' '''' z d1" for z
  have d2: "networks (d2 z) = networks (gsDB s)" "at_rows (instance_networks (d2 z)) = at_rows (instance_networks d1)" for z
    using d1_frame by (simp_all add: d2_def)
  have nets: "GetNetwork (cfAgentID f @ ''-craftstack-default'') (d2 z) = Inl NoRows" for z
    using none unfolding GetNetwork_def query_row_Inl_iff d2 by (metis imageI)
  have "CreateNetwork now w (d2 z) = Inl UniqueFailed" if "wName w = ''craftstack-default''" for w z
    using n that by (force simp: CreateNetwork_def d2)
  then have ens: "ensureDefaultNetwork now (cfAgentID f) ''craftstack-default'' (s\<lparr>gsDB := d2 z\<rparr>) = (s\<lparr>gsDB := d2 z\<rparr>, [])" for z
    using nets by (simp add: ensureDefaultNetwork_def Let_def)
  have add: "AddInstanceToNetwork now ?i (cfAgentID f @ ''-craftstack-default'') al '''' (d2 z) = Inl ForeignKeyFailed" for al z
    using none mem by (auto simp: AddInstanceToNetwork_def d2 filter_empty_conv)
  have lin: "ListInstanceNetworks ?i (d2 z) = []" for z
    using mem by (simp add: ListInstanceNetworks_def d2 order_by_def)
  then have dns: "RegisterInstanceDNS now inst (d2 z) = d2 z" for z
    by (simp add: RegisterInstanceDNS_none id)
  have "(\<exists>z. gsDB s' = d2 z) \<and> calls = (case GetAgentAddress (cfAgentID f) s of None \<Rightarrow> []
      | Some addr \<Rightarrow> create_calls created uploaded f inst (form_uploads f) ''craftstack-default'')"
    using create ref d1 ens add dns
    by (auto simp: apiCreateInstance_def Let_def fold id d2_def [symmetric] GetAgentAddress_db cong: option.case_cong)
  moreover have "CallCreateNetwork a b \<notin> set (create_calls created uploaded f inst (form_uploads f) w)" for a b w
    by (simp add: create_calls_def Let_def)
  ultimately show ?thesis
    using lin d2(1) by (auto simp: network_name_def split: option.splits)
qed



definition demo_form :: "string \<Rightarrow> string \<Rightarrow> CreateInstanceForm" where
  "demo_form agent name =
     \<lparr>cfAgentID = agent, cfName = name, cfPort = '''', cfInstanceType = ''redis'', cfServiceVersion = '''',
      cfMemMin = '''', cfMemMax = '''', cfJvmArgs = '''', cfAutoStart = '''', cfAutoRestart = '''',
      cfStartAfter = '''', cfJavaPath = '''', cfJavaVersion = '''', cfCustomDockerfile = '''',
      cfCustomCompose = '''', cfDockerMemory = '''', cfDockerCPUs = '''', cfMySQLRootPassword = '''',
      cfMySQLDataDir = '''', cfMySQLExtraArgs = '''', cfPGPassword = '''', cfPGDataDir = '''',
      cfPGExtraArgs = '''', cfMongoAdminUser = '''', cfMongoAdminPassword = '''', cfMongoDataDir = '''',
      cfMongoExtraArgs = '''', cfRedisPassword = '''', cfRedisDataDir = '''', cfRedisExtraArgs = '''',
      cfKafkaBrokerID = '''', cfKafkaDataDir = '''', cfKafkaExtraArgs = '''', cfServerJar = NoFile,
      cfServerZip = NoFile\<rparr>"

definition demo_default_network :: "string \<Rightarrow> Network" where
  "demo_default_network agent =
     \<lparr>wID = agent @ ''-craftstack-default'', wName = ''craftstack-default'', wDriver = ''bridge'', wSubnet = '''',
      wGateway = '''', wNodeID = agent, wCreatedAt = 0, wUpdatedAt = 0\<rparr>"

theorem second_default_network_lost_witness:
  "(let s = demo_server\<lparr>gsDB := demo_db\<lparr>networks := [new_network 0 (demo_default_network ''n0'')]\<rparr>\<rparr>;
        run = apiCreateInstance True True 0 (demo_form ''n1'' ''cache'') no_user s
    in fst (snd run) = Json 200 ''the instance created'' \<and> ListInstanceNetworks ''n1-cache'' (gsDB (fst run)) = [])"
proof -
  define d where "d = demo_db\<lparr>networks := [new_network 0 (demo_default_network ''n0'')]\<rparr>"
  define s where "s = demo_server\<lparr>gsDB := d\<rparr>"
  have "CreateNetwork 0 (demo_default_network ''n0'') demo_db = Inr d"
    by (simp add: CreateNetwork_def d_def demo_db_def migrated_db_def)
  then have ok: "db_ok (gsDB s)" using CreateNetwork_ok [OF demo_db_ok] by (simp add: s_def)
  have net: "new_network 0 (demo_default_network ''n0'') \<in> set (networks (gsDB s))"
      "wName (new_network 0 (demo_default_network ''n0'')) = ''craftstack-default''"
      "cfAgentID (demo_form ''n1'' ''cache'') @ ''-craftstack-default'' \<notin> wID ` set (networks (gsDB s))"
    by (simp_all add: s_def d_def new_network_def demo_default_network_def demo_form_def)
  define inst where "inst = form_instance (demo_form ''n1'' ''cache'') ''redis'' ''''"
  have inst: "iID inst = ''n1-cache''" "iNodeID inst = ''n1''"
    by (simp_all add: inst_def form_instance_def demo_form_def)
  have create: "CreateInstance 0 inst (gsDB s) = Inr (gsDB s\<lparr>instances := instances (gsDB s) @ [new_instance 0 inst]\<rparr>)"
    using inst by (simp add: CreateInstance_def s_def d_def demo_db_def instance_ids_def node_ids_def new_node_def
        demo_node_def new_instance_def default_type_def demo_instance_def)
  have ref: "form_refused (demo_form ''n1'' ''cache'') ''redis'' = None"
    by (simp add: form_refused_def demo_form_def ValidInstanceTypes_def instanceNameRe_def is_alnum_def)
  have up: "form_uploads (demo_form ''n1'' ''cache'') = (('''', []), ('''', []))"
    by (simp add: form_uploads_def demo_form_def form_data_def Let_def)
  have ty: "cfInstanceType (demo_form ''n1'' ''cache'') = ''redis''" by (simp add: demo_form_def)
  obtain s' calls where s': "apiCreateInstance True True 0 (demo_form ''n1'' ''cache'') no_user s =
      (s', Json 200 ''the instance created'', calls)"
    by (simp add: apiCreateInstance_def Let_def ty up ref inst_def [symmetric] create split_beta)
  have "ListInstanceNetworks ''n1-cache'' (gsDB s') = []"
    using second_default_network_lost [OF ok net s'] by (simp add: demo_form_def)
  then show ?thesis unfolding Let_def d_def [symmetric] s_def [symmetric] s' by simp
qed

section \<open>DNS records that stay\<close>

lemma UpsertDNSRecord_keeps:
  assumes "UpsertDNSRecord now q d = Inr d'" and "r \<in> set (at_rows (dns_records d))" and "eFQDN r \<noteq> eFQDN q"
  shows "r \<in> set (at_rows (dns_records d')) \<and> mesh_networks d' = mesh_networks d"
  using assms by (force simp: UpsertDNSRecord_def auto_insert_def auto_update_def auto_bump_def row_update_def
      split: if_splits)

lemma RegisterInstanceDNS_keeps:
  assumes "ListInstanceNetworks (iID inst) d = x # xs" and "r \<in> set (at_rows (dns_records d))"
    and "\<forall>domain. eFQDN r \<noteq> (if xAlias x \<noteq> '''' then xAlias x else iName inst) @ ''.'' @ domain"
  shows "r \<in> set (at_rows (dns_records (RegisterInstanceDNS now inst d))) \<and>
    mesh_networks (RegisterInstanceDNS now inst d) = mesh_networks d"
proof -
  define name where "name = (if xAlias x \<noteq> '''' then xAlias x else iName inst)"
  define q where "q mesh = \<lparr>eID = 0, eMeshID = hID mesh, eName = name, eFQDN = name @ ''.'' @ hDomain mesh,
    eIPAddress = xIPAddress x, eInstanceID = iID inst, eNodeID = iNodeID inst, eCreatedAt = 0\<rparr>" for mesh :: MeshNetwork
  have run: "RegisterInstanceDNS now inst d = (case GetDefaultMesh d of Inl e \<Rightarrow> d | Inr mesh \<Rightarrow>
      if \<not> hEnabled mesh \<or> xIPAddress x = '''' then d
      else (case UpsertDNSRecord now (q mesh) d of Inl e \<Rightarrow> d | Inr d' \<Rightarrow> d'))"
    unfolding RegisterInstanceDNS_def Let_def assms(1) list.case name_def [symmetric] q_def
    by (simp split: sum.splits)
  have "r \<in> set (at_rows (dns_records d')) \<and> mesh_networks d' = mesh_networks d"
    if "UpsertDNSRecord now (q mesh) d = Inr d'" for mesh d'
    using UpsertDNSRecord_keeps [OF that assms(2)] assms(3) unfolding name_def [symmetric] by (simp add: q_def)
  then show ?thesis
    using assms(2) unfolding run by (simp split: sum.splits)
qed

text \<open>
  Taking an instance out of a network while it is in another one does not remove the DNS
  record of the network it left: a published record of the instance stays published with the
  old address, unless the next network happens to have the same name in DNS.
\<close>

theorem stale_dns_after_disconnect:
  assumes r: "r \<in> set (BuildDNSRecords (gsDB s))" "eInstanceID r = i"
    and inst: "GetInstance i (gsDB s) = Inr inst" "i \<noteq> ''''" and net: "GetNetwork w (gsDB s) = Inr network"
    and rest: "ListInstanceNetworks i (RemoveInstanceFromNetwork i w (gsDB s)) = x # xs"
    and other: "\<forall>domain. eFQDN r \<noteq> (if xAlias x \<noteq> '''' then xAlias x else iName inst) @ ''.'' @ domain"
  shows "r \<in> set (BuildDNSRecords (gsDB (fst (apiDisconnectNetwork now w (Some i) uc s))))"
proof -
  let ?d1 = "RemoveInstanceFromNetwork i w (gsDB s)"
  have frame: "dns_records ?d1 = dns_records (gsDB s)" "mesh_networks ?d1 = mesh_networks (gsDB s)"
    by (simp_all add: RemoveInstanceFromNetwork_def)
  have id: "iID inst = i" using GetInstance_InrD [OF inst(1)] by simp
  have keep: "r \<in> set (at_rows (dns_records (RegisterInstanceDNS now inst ?d1))) \<and>
      mesh_networks (RegisterInstanceDNS now inst ?d1) = mesh_networks (gsDB s)"
    if "r \<in> set (at_rows (dns_records (gsDB s)))"
    using RegisterInstanceDNS_keeps [of inst ?d1 x xs r now] that rest other by (simp add: id frame)
  have "gsDB (fst (apiDisconnectNetwork now w (Some i) uc s)) =
      audit now uc ''disconnect'' ''network'' w (wName network) '''' '''' ''''
        (''connect network release: '' @ iName inst @ left_arrow @ wName network) (RegisterInstanceDNS now inst ?d1)"
    using inst net rest by (simp add: apiDisconnectNetwork_def Let_def)
  then show ?thesis
    using r keep
    by (auto simp: BuildDNSRecords_def GetDefaultMesh_def GetMeshNetwork_def ListDNSRecords_def
        split: sum.splits if_splits)
qed

definition demo_membership :: "int \<Rightarrow> string \<Rightarrow> string \<Rightarrow> string \<Rightarrow> InstanceNetwork" where
  "demo_membership k w name ip =
     \<lparr>xID = k, xInstanceID = ''mc'', xNetworkID = w, xAlias = name, xIPAddress = ip, xCreatedAt = 0\<rparr>"

definition demo_record :: DNSRecord where
  "demo_record = \<lparr>eID = 1, eMeshID = ''default'', eName = ''game'', eFQDN = ''game.craftstack.internal'',
     eIPAddress = ''172.30.1.5'', eInstanceID = ''mc'', eNodeID = ''n1'', eCreatedAt = 0\<rparr>"

definition demo_two_networks :: GRPCServer where
  "demo_two_networks = demo_server\<lparr>gsDB := demo_db\<lparr>
     networks := [demo_default_network ''a'', demo_default_network ''b''],
     instance_networks := \<lparr>at_seq = 2, at_rows =
       [demo_membership 1 ''a-craftstack-default'' ''game'' ''172.30.1.5'',
        demo_membership 2 ''b-craftstack-default'' ''inner'' ''172.30.1.6'']\<rparr>,
     dns_records := \<lparr>at_seq = 1, at_rows = [demo_record]\<rparr>\<rparr>\<rparr>"

theorem stale_dns_after_disconnect_witness:
  "demo_record \<in> set (BuildDNSRecords (gsDB (fst (apiDisconnectNetwork 0 ''a-craftstack-default'' (Some ''mc'') no_user demo_two_networks)))) \<and>
   eIPAddress demo_record = ''172.30.1.5''"
proof -
  have rec: "demo_record \<in> set (BuildDNSRecords (gsDB demo_two_networks))" "eInstanceID demo_record = ''mc''"
    by (simp_all add: BuildDNSRecords_def GetDefaultMesh_def GetMeshNetwork_def query_row_def demo_two_networks_def
        demo_db_def migrated_db_def default_mesh_def ListDNSRecords_def)
       (simp_all add: demo_record_def)
  have inst: "GetInstance ''mc'' (gsDB demo_two_networks) = Inr demo_mc" "''mc'' \<noteq> ''''"
    using demo_server_mc(1) by (simp_all add: demo_two_networks_def demo_server_def NewGRPCServer_def GetInstance_def)
  have net: "GetNetwork ''a-craftstack-default'' (gsDB demo_two_networks) = Inr (demo_default_network ''a'')"
    by (simp add: GetNetwork_def demo_two_networks_def query_row_def demo_default_network_def)
  have rest: "ListInstanceNetworks ''mc'' (RemoveInstanceFromNetwork ''mc'' ''a-craftstack-default'' (gsDB demo_two_networks)) =
      [demo_membership 2 ''b-craftstack-default'' ''inner'' ''172.30.1.6'']"
    by (simp add: ListInstanceNetworks_def RemoveInstanceFromNetwork_def demo_two_networks_def auto_delete_def
        row_delete_def order_by_def demo_membership_def)
  have "\<forall>domain. eFQDN demo_record \<noteq>
      (if xAlias (demo_membership 2 ''b-craftstack-default'' ''inner'' ''172.30.1.6'') \<noteq> ''''
       then xAlias (demo_membership 2 ''b-craftstack-default'' ''inner'' ''172.30.1.6'') else iName demo_mc) @ ''.'' @ domain"
    by (simp add: demo_record_def demo_membership_def)
  then show ?thesis
    using stale_dns_after_disconnect [OF rec inst net rest] by (simp add: demo_record_def)
qed

section \<open>A schedule that is accepted and never fires\<close>

text \<open>A schedule that fires in every hour, in the announced form of a range with a step.\<close>

definition range_step :: "nat \<Rightarrow> nat \<Rightarrow> nat \<Rightarrow> string" where
  "range_step lo hi st = nat_digits lo @ ''-'' @ nat_digits hi @ ''/'' @ nat_digits st"

definition announced_cron :: "nat \<Rightarrow> nat \<Rightarrow> nat \<Rightarrow> string" where
  "announced_cron lo hi st = range_step lo hi st @ '' * * * *''"

lemma range_step_chars: "c \<in> set (range_step lo hi st) \<Longrightarrow> \<not> is_space c \<and> c \<noteq> CHR '',''"
  using nat_digits_nospace nat_digits_not_in [of "CHR '',''"] by (auto simp: range_step_def is_space_def)

lemma announced_fields: "str_fields (announced_cron lo hi st) = [range_step lo hi st, ''*'', ''*'', ''*'', ''*'']"
proof -
  have "announced_cron lo hi st = str_join '' '' [range_step lo hi st, ''*'', ''*'', ''*'', ''*'']"
    by (simp add: announced_cron_def)
  moreover have "\<forall>w \<in> set [range_step lo hi st, ''*'', ''*'', ''*'', ''*'']. w \<noteq> [] \<and> (\<forall>c \<in> set w. \<not> is_space c)"
    using range_step_chars [of _ lo hi st] by (auto simp: is_space_def range_step_def)
  ultimately show ?thesis by (simp only: str_fields_join)
qed

lemma announced_trim: "trim_space (announced_cron lo hi st) = announced_cron lo hi st"
proof -
  obtain c cs where e: "range_step lo hi st = c # cs" by (cases "range_step lo hi st") (auto simp: range_step_def)
  then have "\<not> is_space c" using range_step_chars [of c lo hi st] by simp
  then show ?thesis by (simp add: trim_space_def trim_left_def announced_cron_def e is_space_def)
qed

lemma range_step_never: "\<not> cronFieldMatches (range_step lo hi st) v mn mx"
proof -
  have "split_on (CHR '','') (range_step lo hi st) = [range_step lo hi st]"
    using range_step_chars [of "CHR '',''" lo hi st] by (intro split_on_nosep) auto
  moreover have "trim_space (range_step lo hi st) = range_step lo hi st"
    using range_step_chars by (intro trim_space_nospace) auto
  ultimately show ?thesis
    using cron_range_step_never_matches [of lo hi st] by (simp add: cronFieldMatches_def range_step_def)
qed

lemma announced_cron_rejected: "ValidateCron (announced_cron lo hi st) \<noteq> None"
proof -
  have "split_on (CHR '','') (range_step lo hi st) = [range_step lo hi st]"
    using range_step_chars [of "CHR '',''" lo hi st] by (intro split_on_nosep) auto
  moreover have "trim_space (range_step lo hi st) = range_step lo hi st"
    using range_step_chars by (intro trim_space_nospace) auto
  ultimately have "validateCronField (range_step lo hi st) 0 59 \<noteq> None"
    using cron_range_step_never_matches [of lo hi st 0 0 59]
    by (simp add: validateCronField_def range_step_def split: option.splits)
  moreover have "announced_cron lo hi st \<noteq> []" by (simp add: announced_cron_def)
  ultimately show ?thesis
    by (auto simp: ValidateCron_def announced_fields cron_limits_def split: option.splits)
qed

text \<open>
  The announced form of a schedule with a range and a step ("N-M/S") is accepted by the
  settings handler, although the validator would refuse it, and is then stored for an
  instance whose backup is never due.
\<close>

theorem announced_schedule_never_due:
  assumes "db_ok (gsDB s)" and old: "GetInstance i (gsDB s) = Inr old"
  shows "\<exists>s' new. apiUpdateInstance now i (Some (no_change\<lparr>urBackupCron := Some (announced_cron lo hi st)\<rparr>)) uc s =
      (s', Json 200 ''instance settings updated'') \<and> GetInstance i (gsDB s') = Inr new \<and>
    iBackupCron new = announced_cron lo hi st \<and> ValidateCron (announced_cron lo hi st) \<noteq> None \<and>
    (\<forall>civil t. \<not> backup_due civil t new)"
proof -
  let ?req = "no_change\<lparr>urBackupCron := Some (announced_cron lo hi st)\<rparr>"
  have app: "apply_update ?req old = Inr (old\<lparr>iBackupCron := announced_cron lo hi st\<rparr>)"
    by (simp add: apply_update_def no_change_def given_def announced_trim announced_fields)
  then obtain s' where s': "apiUpdateInstance now i (Some ?req) uc s = (s', Json 200 ''instance settings updated'')"
    unfolding apiUpdateInstance_def old option.case sum.case Let_def by (simp only: sum.case prod.inject simp_thms)
  obtain old' new0 where "GetInstance i (gsDB s) = Inr old'" "apply_update ?req old' = Inr new0"
      "GetInstance i (gsDB s') = Inr (updated_instance now new0 old')"
    by (rule update_effect [OF assms(1) s'])
  then have "GetInstance i (gsDB s') = Inr (updated_instance now (old\<lparr>iBackupCron := announced_cron lo hi st\<rparr>) old)"
    unfolding old sum.inject app by (metis app sum.inject(2))
  then obtain new where new: "GetInstance i (gsDB s') = Inr new" "iBackupCron new = announced_cron lo hi st"
    by (simp add: updated_instance_def)
  then have "\<not> backup_due civil t new" for civil t
    by (simp add: backup_due_def cronMatches_def announced_fields range_step_never)
  with s' new announced_cron_rejected show ?thesis by blast
qed

theorem announced_schedule_never_due_witness:
  "\<exists>s' new. apiUpdateInstance 0 ''mc'' (Some (no_change\<lparr>urBackupCron := Some (announced_cron 0 30 10)\<rparr>)) no_user demo_server =
      (s', Json 200 ''instance settings updated'') \<and> GetInstance ''mc'' (gsDB s') = Inr new \<and>
    (\<forall>civil t. \<not> backup_due civil t new)"
  using announced_schedule_never_due [OF _ demo_server_mc(1), of 0 0 30 10 no_user] demo_db_ok
  by (auto simp: demo_server_def NewGRPCServer_def)

end
