(* ===== verification/File_Trees.thy ===== *)
theory File_Trees
  imports File_Service Archives
begin

text \<open>
  The files below a directory as a set of relative paths, the reference for every routine
  that walks a tree, and the paths \<open>p/rel\<close> with which the components name them to an
  agent. The routines differ in how they list a directory; what they share is
  \<open>enumerates_children\<close>: joining complete listings of the children gives a complete listing.
\<close>

section \<open>Files below a directory\<close>

definition files_below :: "fs \<Rightarrow> path \<Rightarrow> path set" where
  "files_below f p = {rel. rel \<noteq> [] \<and> (\<exists>m b. fs_get f (p @ rel) = Some (FileNode m b))}"

definition collect_opt :: "'a list option list \<Rightarrow> 'a list option" where
  "collect_opt xs = (if None \<in> set xs then None else Some (concat (map the xs)))"

text \<open>A list that names each file below \<open>p\<close> once, as seen from \<open>rel\<close> above it.\<close>

definition enumerates :: "fs \<Rightarrow> path \<Rightarrow> path \<Rightarrow> string list \<Rightarrow> bool" where
  "enumerates f p rel xs \<longleftrightarrow>
     distinct xs \<and> set xs = (\<lambda>r. str_join ''/'' (rel @ r)) ` files_below f p"

lemma collect_opt_map:
  "(\<And>x. x \<in> set xs \<Longrightarrow> g x = Some (h x)) \<Longrightarrow> collect_opt (map g xs) = Some (concat (map h xs))"
  by (auto simp: collect_opt_def intro!: arg_cong [where f = concat])

lemma files_below_proper: "fs_ok f \<Longrightarrow> rel \<in> files_below f p \<Longrightarrow> \<forall>c \<in> set rel. proper_name c"
  using fs_ok_proper [of f "p @ rel"] by (auto simp: files_below_def)

lemma files_below_Cons:
  "c # r \<in> files_below f p \<longleftrightarrow>
     (if r = [] then \<exists>m b. fs_get f (p @ [c]) = Some (FileNode m b) else r \<in> files_below f (p @ [c]))"
  by (auto simp: files_below_def)

lemma Nil_not_below [simp]: "[] \<notin> files_below f p"
  by (simp add: files_below_def)

text \<open>A file has nothing below it.\<close>

lemma files_below_leaf:
  assumes "fs_ok f" "fs_get f q = Some (FileNode m b)"
  shows "files_below f q = {}"
proof -
  have "\<not> fs_is_dir f q" using assms(2) by (simp add: fs_is_dir_def)
  have "fs_get f (q @ r) = None" if "r \<noteq> []" for r
  proof (rule ccontr)
    assume "fs_get f (q @ r) \<noteq> None"
    then obtain n where "fs_get f (q @ r) = Some n" by blast
    then show False
      using fs_ok_no_file_below [OF assms(1) \<open>\<not> fs_is_dir f q\<close>, of "q @ r" n] that by simp
  qed
  then show ?thesis by (auto simp: files_below_def)
qed

lemma files_prefix_free:
  assumes "fs_ok f" "rel \<in> files_below f p" "rel @ x \<in> files_below f p"
  shows "x = []"
proof (rule ccontr)
  assume "x \<noteq> []"
  then have "x \<in> files_below f (p @ rel)" using assms(3) by (auto simp: files_below_def)
  moreover obtain m b where "fs_get f (p @ rel) = Some (FileNode m b)"
    using assms(2) by (auto simp: files_below_def)
  ultimately show False using files_below_leaf [OF assms(1)] by blast
qed

lemma str_join_proper_inject:
  assumes "\<forall>c \<in> set a. proper_name c" "\<forall>c \<in> set b. proper_name c" "a \<noteq> []" "b \<noteq> []"
    and "str_join ''/'' a = str_join ''/'' b"
  shows "a = b"
  using assms split_on_join_proper by metis

text \<open>The listings of the children give the listing of the directory.\<close>

lemma enumerates_children:
  assumes ok: "fs_ok f" and rel: "\<forall>c \<in> set rel. proper_name c"
    and names: "distinct names" "set names = set (fs_children f p)"
    and dirs: "\<And>c. c \<in> set names \<Longrightarrow> fs_is_dir f (p @ [c]) \<Longrightarrow>
      \<exists>xs. g c = Some xs \<and> enumerates f (p @ [c]) (rel @ [c]) xs"
    and leaf: "\<And>c. c \<in> set names \<Longrightarrow> \<not> fs_is_dir f (p @ [c]) \<Longrightarrow> g c = Some [str_join ''/'' (rel @ [c])]"
  shows "\<exists>ys. collect_opt (map g names) = Some ys \<and> enumerates f p rel ys"
proof -
  define h where "h c = the (g c)" for c
  define part where "part c = {r \<in> files_below f p. \<exists>r'. r = c # r'}" for c
  have each: "g c = Some (h c) \<and> distinct (h c) \<and> set (h c) = (\<lambda>r. str_join ''/'' (rel @ r)) ` part c"
    if c: "c \<in> set names" for c
  proof (cases "fs_is_dir f (p @ [c])")
    case True
    then obtain xs where xs: "g c = Some xs" "distinct xs"
      "set xs = (\<lambda>r. str_join ''/'' (rel @ [c] @ r)) ` files_below f (p @ [c])"
      using dirs [OF c] by (auto simp: enumerates_def)
    have "part c = (#) c ` files_below f (p @ [c])"
    proof -
      have nf: "fs_get f (p @ [c]) \<noteq> Some (FileNode m b)" for m b
        using True by (auto simp: fs_is_dir_def)
      show ?thesis by (auto simp: part_def files_below_Cons nf split: if_splits)
    qed
    then show ?thesis using xs by (simp add: h_def image_image)
  next
    case False
    have "fs_get f (p @ [c]) \<noteq> None" using c names(2) fs_children_iff [OF ok] by blast
    then obtain m b where n: "fs_get f (p @ [c]) = Some (FileNode m b)"
      using False by (auto simp: fs_is_dir_def split: fnode.splits)
    have "part c = {[c]}"
      using n files_below_leaf [OF ok n] by (auto simp: part_def files_below_Cons split: if_splits)
    then show ?thesis using leaf [OF c False] by (simp add: h_def)
  qed
  have inj: "r = r'" if "r \<in> files_below f p" "r' \<in> files_below f p"
      "str_join ''/'' (rel @ r) = str_join ''/'' (rel @ r')" for r r'
  proof -
    have ne: "r \<noteq> []" "r' \<noteq> []" using that(1,2) by (auto simp: files_below_def)
    have "rel @ r = rel @ r'"
      by (rule str_join_proper_inject)
        (use that(3) ne rel files_below_proper [OF ok that(1)] files_below_proper [OF ok that(2)] in auto)
    then show ?thesis by simp
  qed
  have all: "files_below f p = (\<Union>c \<in> set names. part c)"
  proof (intro equalityI subsetI)
    fix r
    assume r: "r \<in> files_below f p"
    then obtain c r' where cr: "r = c # r'" by (cases r) (auto simp: files_below_def)
    have "fs_get f ((p @ [c]) @ r') \<noteq> None" using r by (auto simp: files_below_def cr)
    then have "fs_get f (p @ [c]) \<noteq> None"
      by (rule fs_ok_ancestors [OF ok _ below_append])
    then have "c \<in> set names" using names(2) fs_children_iff [OF ok] by blast
    then show "r \<in> (\<Union>c \<in> set names. part c)" using r cr by (auto simp: part_def)
  qed (auto simp: part_def)
  have "distinct (concat (map h ns))" if "set ns \<subseteq> set names" "distinct ns" for ns
    using that
  proof (induction ns)
    case (Cons c ns)
    have "set (h c) \<inter> (\<Union>d \<in> set ns. set (h d)) = {}"
    proof (rule ccontr)
      assume "set (h c) \<inter> (\<Union>d \<in> set ns. set (h d)) \<noteq> {}"
      then obtain d x where d: "d \<in> set ns" "x \<in> set (h c)" "x \<in> set (h d)" by blast
      then obtain r r' where "r \<in> part c" "r' \<in> part d"
        "str_join ''/'' (rel @ r) = str_join ''/'' (rel @ r')"
        using each [of c] each [of d] Cons.prems(1) by auto
      then have "c = d" using inj by (auto simp: part_def)
      then show False using d Cons.prems(2) by simp
    qed
    then show ?case using Cons each [of c] by auto
  qed simp
  then have "distinct (concat (map h names))" using names(1) by blast
  moreover have "set (concat (map h names)) = (\<lambda>r. str_join ''/'' (rel @ r)) ` files_below f p"
    unfolding all using each by auto
  ultimately show ?thesis
    using collect_opt_map [of names g h] each by (auto simp: enumerates_def)
qed

lemma to_path_append:
  assumes "\<forall>c \<in> set a. proper_name c" "\<forall>c \<in> set b. proper_name c"
  shows "to_path (abs_text (a @ b)) = a @ b"
  by (rule to_path_abs_text) (use assms in auto)

section \<open>Directories that can be made\<close>

lemma mkdir_from_total:
  assumes "\<And>q. below q (pre @ cs) \<Longrightarrow> fs_get f q = None \<or> fs_is_dir f q"
  shows "\<exists>f'. mkdir_from m pre cs f = Inr f'"
  using assms
proof (induction m pre cs f rule: mkdir_from.induct)
  case (2 m pre c cs f)
  show ?case
  proof (cases "map_get f (pre @ [c])")
    case None
    let ?f = "map_put (pre @ [c]) (DirNode m) f"
    have "fs_get ?f q = None \<or> fs_is_dir ?f q" if "below q ((pre @ [c]) @ cs)" for q
      using 2(3) [of q] that by (simp add: fs_get_put fs_is_dir_put is_dir_node_def)
    from 2(1) [OF None this] show ?thesis using None by simp
  next
    case (Some n)
    have "fs_is_dir f (pre @ [c])"
      using 2(3) [of "pre @ [c]"] Some by (auto simp: fs_get_def below_def)
    then obtain k where k: "n = DirNode k"
      using Some by (cases n) (auto simp: fs_is_dir_def fs_get_def)
    have "fs_get f q = None \<or> fs_is_dir f q" if "below q ((pre @ [c]) @ cs)" for q
      using 2(3) [of q] that by simp
    from 2(2) [OF Some k this] show ?thesis using Some k by simp
  qed
qed simp

lemma os_mkdir_all_total:
  assumes "\<And>q. below q p \<Longrightarrow> fs_get f q = None \<or> fs_is_dir f q"
  shows "\<exists>f'. os_mkdir_all p m f = Inr f'"
  using mkdir_from_total [of "[]" p f m] assms by (simp add: os_mkdir_all_def)

lemma os_write_file_possible:
  assumes "p \<noteq> []" "\<not> fs_is_dir f p" "fs_is_dir f (butlast p)"
  shows "\<exists>f'. os_write_file p b m f = Inr f'"
  using assms by (auto simp: os_write_file_def fs_is_dir_def split: option.splits fnode.splits)

section \<open>Paths below a request path\<close>

text \<open>How a file below the requested path \<open>p\<close> is named to an agent.\<close>

definition under :: "string \<Rightarrow> string \<Rightarrow> string" where
  "under p f = (if p \<noteq> '''' \<and> p \<noteq> ''.'' then p @ ''/'' @ f else f)"

definition base_path :: "string \<Rightarrow> InstanceDef \<Rightarrow> string \<Rightarrow> path" where
  "base_path cwd def p = work_path cwd def @ clean_comps (is_abs p) p"

lemma clean_comps_under_join:
  assumes "\<forall>c \<in> set rel. proper_name c"
  shows "clean_comps r (p @ ''/'' @ str_join ''/'' rel) = clean_comps r p @ rel"
proof (cases "rel = []")
  case True
  then show ?thesis by simp
next
  case False
  have "clean_comps r (p @ CHR ''/'' # str_join ''/'' rel) =
      rev (fold (clean_step r) rel (rev (clean_comps r p)))"
    using assms False by (simp add: fold_clean_append split_on_join_proper)
  then show ?thesis using assms by (simp add: fold_clean_proper)
qed

lemma is_abs_append_iff: "p \<noteq> [] \<Longrightarrow> is_abs (p @ q) \<longleftrightarrow> is_abs p"
  by (cases p) (auto simp: is_abs_def has_prefix_def)

lemma rel_join_not_abs:
  assumes "\<forall>c \<in> set rel. proper_name c" "rel \<noteq> []"
  shows "\<not> is_abs (str_join ''/'' rel)"
  by (rule str_join_not_abs) (use assms in \<open>auto simp: proper_name_def\<close>)

lemma no_climb_rel:
  assumes "\<forall>c \<in> set rel. proper_name c"
  shows "no_climb (str_join ''/'' rel)"
  using assms by (auto simp: no_climb_def clean_comps_join proper_name_def)

lemma clean_comps_dot: "clean_comps r ''.'' = []"
  by (simp add: clean_comps_def clean_step_def)

lemma no_climb_under:
  assumes "no_climb p" "\<forall>c \<in> set rel. proper_name c" "rel \<noteq> []"
  shows "no_climb (under p (str_join ''/'' rel))"
    and "clean_comps (is_abs (under p (str_join ''/'' rel))) (under p (str_join ''/'' rel)) =
      clean_comps (is_abs p) p @ rel"
proof -
  note c = clean_comps_under_join [OF assms(2)]
  have "no_climb (under p (str_join ''/'' rel)) \<and>
    clean_comps (is_abs (under p (str_join ''/'' rel))) (under p (str_join ''/'' rel)) =
      clean_comps (is_abs p) p @ rel"
  proof (cases "p = '''' \<or> p = ''.''")
    case True
    have "clean_comps (is_abs p) p = []" using True clean_comps_dot by auto
    then show ?thesis
      using True assms rel_join_not_abs [OF assms(2,3)] no_climb_rel [OF assms(2)]
      by (auto simp: under_def clean_comps_join)
  next
    case False
    then have p: "p \<noteq> []" by simp
    have "no_climb (p @ ''/'' @ str_join ''/'' rel)"
      using assms c [of False p] is_abs_append_iff [OF p, of "''/'' @ str_join ''/'' rel"]
      by (auto simp: no_climb_def proper_name_def)
    then show ?thesis
      using False c is_abs_append_iff [OF p, of "''/'' @ str_join ''/'' rel"] by (simp add: under_def)
  qed
  then show "no_climb (under p (str_join ''/'' rel))"
    and "clean_comps (is_abs (under p (str_join ''/'' rel))) (under p (str_join ''/'' rel)) =
      clean_comps (is_abs p) p @ rel" by blast+
qed

lemma base_path_proper:
  assumes "is_abs cwd" "no_climb p"
  shows "\<forall>c \<in> set (base_path cwd def p). proper_name c"
  using fp_abs_work(2) [OF assms(1), of def] no_climb_proper [OF assms(2)] by (auto simp: base_path_def)

lemma resolve_base:
  assumes "is_abs cwd" "map_get defs i = Some def" "idWorkDir def \<noteq> ''''" "no_climb p"
  shows "resolveInstancePath cwd defs i p = Inr (abs_text (base_path cwd def p))"
  using resolve_no_climb [OF assms] by (simp add: base_path_def)

lemma resolve_under:
  assumes "is_abs cwd" "map_get defs i = Some def" "idWorkDir def \<noteq> ''''" "no_climb p"
    and "\<forall>c \<in> set rel. proper_name c" "rel \<noteq> []"
  shows "resolveInstancePath cwd defs i (under p (str_join ''/'' rel)) =
    Inr (abs_text (base_path cwd def p @ rel))"
  using resolve_no_climb [OF assms(1-3) no_climb_under(1) [OF assms(4-6)]]
    no_climb_under(2) [OF assms(4-6)] by (simp add: base_path_def)

end
