(* ===== verification/Web_Sync.thy ===== *)
theory Web_Sync
  imports Watcher Web_Instances File_Trees
begin

text \<open>
  The folder synchronisation of the web server (\<^verbatim>\<open>internal/master/web/handler_sync.go\<close>): the
  mappings and their targets, the synchronisation job that collects the files of a source
  and pushes them to the targets, and the explorer of a mapping's source folder on the
  master. The state is the gRPC server with its database, the watcher, the file system of
  the master and, by address, the agents that answer: each with its files, its working
  directory and its instances, served by the agent's file manager. The job runs in a
  goroutine of its own; a handler that starts one returns it beside its reply.
\<close>

section \<open>The state\<close>

record agent_host =
  ahFs :: fs
  ahCwd :: string
  ahDefs :: inst_defs

record sync_server =
  syServer :: GRPCServer
  syWatcher :: watcher
  syMaster :: fs
  syHosts :: "(string, agent_host) gomap"

type_synonym sync_job = "SyncMapping \<times> SyncTarget list"

abbreviation syDB :: "sync_server \<Rightarrow> DB" where
  "syDB s \<equiv> gsDB (syServer s)"

definition set_db :: "DB \<Rightarrow> sync_server \<Rightarrow> sync_server" where
  "set_db d s = s\<lparr>syServer := (syServer s)\<lparr>gsDB := d\<rparr>\<rparr>"

section \<open>Mappings\<close>

record mapping_form =
  mfName :: string
  mfSrc :: string
  mfDest :: string
  mfTargets :: string
  mfExclude :: string
  mfEnabled :: bool
  mfSourceAgentID :: string
  mfSourceInstanceID :: string
  mfSourcePath :: string

definition form_mapping :: "int \<Rightarrow> mapping_form \<Rightarrow> SyncMapping" where
  "form_mapping i r =
     \<lparr>mID = i, mName = mfName r, mSrc = mfSrc r, mDest = mfDest r, mTargets = mfTargets r,
      mExclude = mfExclude r, mEnabled = mfEnabled r, mSourceAgentID = mfSourceAgentID r,
      mSourceInstanceID = mfSourceInstanceID r, mSourcePath = mfSourcePath r,
      mCreatedAt = 0, mUpdatedAt = 0\<rparr>"

definition mapping_cfg :: "SyncMapping \<Rightarrow> SyncMappingCfg" where
  "mapping_cfg m =
     \<lparr>smName = mName m, smSrc = mSrc m, smDest = mDest m, smTargets = TargetList m, smExclude = ExcludeList m\<rparr>"

definition reloadWatcherMappings :: "string \<Rightarrow> sync_server \<Rightarrow> sync_server" where
  "reloadWatcherMappings cwd s =
     (let ms = map mapping_cfg (filter (\<lambda>m. \<not> IsAgentSource m) (ListEnabledSyncMappings (syDB s)));
          (w, f) = LoadMappings cwd ms (syWatcher s) (syMaster s)
      in s\<lparr>syWatcher := w, syMaster := f\<rparr>)"

definition apiListSyncMappings :: "sync_server \<Rightarrow> (SyncMapping \<times> SyncTarget list) list" where
  "apiListSyncMappings s = map (\<lambda>m. (m, ListSyncTargets (mID m) (syDB s))) (ListSyncMappings (syDB s))"

definition default_form :: "mapping_form \<Rightarrow> mapping_form" where
  "default_form r =
     (let r1 = (if mfSourceAgentID r \<noteq> '''' \<and> mfSourceInstanceID r \<noteq> '''' \<and> mfSrc r = ''''
                then r\<lparr>mfSrc := fp_join [''./sync_cache'', mfName r]\<rparr> else r);
          r2 = (if mfDest r1 = '''' then r1\<lparr>mfDest := ''.''\<rparr> else r1)
      in if mfTargets r2 = '''' then r2\<lparr>mfTargets := ''*''\<rparr> else r2)"

definition apiCreateSyncMapping ::
  "string \<Rightarrow> instant \<Rightarrow> mapping_form option \<Rightarrow> user_context \<Rightarrow> sync_server \<Rightarrow> sync_server \<times> reply" where
  "apiCreateSyncMapping cwd now body uc s =
     (case body of
        None \<Rightarrow> (s, Json 400 ''invalid request'')
      | Some r \<Rightarrow>
          if mfName r = '''' then (s, Json 400 ''name required'')
          else if (if mfSourceAgentID r \<noteq> '''' \<and> mfSourceInstanceID r \<noteq> ''''
                   then mfSourcePath r = '''' else mfSrc r = '''')
          then (s, Json 400 ''source path required'')
          else
            let r1 = default_form r;
                (d1, i) = CreateSyncMapping now (form_mapping 0 r1) (syDB s);
                s1 = set_db d1 s;
                s2 = (if IsAgentSource (form_mapping i r1) then s1 else reloadWatcherMappings cwd s1)
            in (set_db (audit now uc ''create'' ''sync'' (itoa i) (mfName r1) '''' '''' ''''
                  (''sync mapping create: '' @ mfName r1 @ '' (source: '' @ mfSrc r1 @ '')'') (syDB s2)) s2,
                Json 200 ''''))"

definition apiUpdateSyncMapping ::
  "string \<Rightarrow> instant \<Rightarrow> string \<Rightarrow> mapping_form option \<Rightarrow> user_context \<Rightarrow> sync_server \<Rightarrow> sync_server \<times> reply" where
  "apiUpdateSyncMapping cwd now idStr body uc s =
     (case atoi idStr of
        None \<Rightarrow> (s, Json 400 ''invalid ID'')
      | Some i \<Rightarrow>
          (case body of
             None \<Rightarrow> (s, Json 400 ''invalid request'')
           | Some r \<Rightarrow>
               let s1 = reloadWatcherMappings cwd (set_db (UpdateSyncMapping now (form_mapping i r) (syDB s)) s)
               in (set_db (audit now uc ''update'' ''sync'' (itoa i) (mfName r) '''' '''' ''''
                     (''sync mapping modify: '' @ mfName r) (syDB s1)) s1,
                   Json 200 '''')))"

definition apiDeleteSyncMapping ::
  "string \<Rightarrow> instant \<Rightarrow> string \<Rightarrow> user_context \<Rightarrow> sync_server \<Rightarrow> sync_server \<times> reply" where
  "apiDeleteSyncMapping cwd now idStr uc s =
     (case atoi idStr of
        None \<Rightarrow> (s, Json 400 ''invalid ID'')
      | Some i \<Rightarrow>
          let name = (case GetSyncMapping i (syDB s) of
                        Inl e \<Rightarrow> ''mapping#'' @ itoa i | Inr m \<Rightarrow> mName m);
              s1 = reloadWatcherMappings cwd (set_db (DeleteSyncMapping i (syDB s)) s)
          in (set_db (audit now uc ''delete'' ''sync'' (itoa i) name '''' '''' ''''
                (''sync mapping delete: '' @ name) (syDB s1)) s1,
              Json 200 ''ok''))"

section \<open>Targets\<close>

record target_form =
  tfAgentID :: string
  tfInstanceID :: string
  tfDestPath :: string
  tfEnabled :: bool

definition form_target :: "int \<Rightarrow> target_form \<Rightarrow> SyncTarget" where
  "form_target m r =
     \<lparr>tID = 0, tMappingID = m, tAgentID = tfAgentID r, tInstanceID = tfInstanceID r,
      tDestPath = tfDestPath r, tEnabled = tfEnabled r, tCreatedAt = 0\<rparr>"

definition apiListSyncTargets :: "string \<Rightarrow> sync_server \<Rightarrow> reply + SyncTarget list" where
  "apiListSyncTargets idStr s =
     (case atoi idStr of
        None \<Rightarrow> Inl (Json 400 ''invalid mapping_id'')
      | Some i \<Rightarrow> Inr (ListSyncTargets i (syDB s)))"

definition apiCreateSyncTarget ::
  "instant \<Rightarrow> string \<Rightarrow> target_form option \<Rightarrow> sync_server \<Rightarrow> sync_server \<times> reply" where
  "apiCreateSyncTarget now idStr body s =
     (case atoi idStr of
        None \<Rightarrow> (s, Json 400 ''invalid mapping_id'')
      | Some i \<Rightarrow>
          (case body of
             None \<Rightarrow> (s, Json 400 ''invalid request'')
           | Some r \<Rightarrow>
               if tfAgentID r = '''' \<or> tfInstanceID r = ''''
               then (s, Json 400 ''agent_id instance_id required'')
               else
                 let r1 = (if tfDestPath r = '''' then r\<lparr>tfDestPath := ''.''\<rparr> else r)
                 in (case CreateSyncTarget now (form_target i r1) (syDB s) of
                       Inl e \<Rightarrow> (s, Json 500 '''')
                     | Inr d1 \<Rightarrow> (set_db d1 s, Json 200 ''''))))"

definition apiUpdateSyncTarget ::
  "string \<Rightarrow> (string \<times> bool) option \<Rightarrow> sync_server \<Rightarrow> sync_server \<times> reply" where
  "apiUpdateSyncTarget idStr body s =
     (case atoi idStr of
        None \<Rightarrow> (s, Json 400 ''invalid ID'')
      | Some i \<Rightarrow>
          (case body of
             None \<Rightarrow> (s, Json 400 ''invalid request'')
           | Some (dest, en) \<Rightarrow>
               (set_db (UpdateSyncTarget
                   \<lparr>tID = i, tMappingID = 0, tAgentID = '''', tInstanceID = '''', tDestPath = dest,
                    tEnabled = en, tCreatedAt = 0\<rparr> (syDB s)) s,
                Json 200 ''ok'')))"

definition apiDeleteSyncTarget :: "string \<Rightarrow> sync_server \<Rightarrow> sync_server \<times> reply" where
  "apiDeleteSyncTarget idStr s =
     (case atoi idStr of
        None \<Rightarrow> (s, Json 400 ''invalid ID'')
      | Some i \<Rightarrow> (set_db (DeleteSyncTarget i (syDB s)) s, Json 200 ''ok''))"

definition bulk_rows :: "target_form list \<Rightarrow> SyncTarget list" where
  "bulk_rows rs = map (form_target 0) (filter (\<lambda>r. tfAgentID r \<noteq> '''' \<and> tfInstanceID r \<noteq> '''') rs)"

definition apiBulkSetSyncTargets ::
  "instant \<Rightarrow> string \<Rightarrow> target_form list option \<Rightarrow> sync_server \<Rightarrow> sync_server \<times> reply" where
  "apiBulkSetSyncTargets now idStr body s =
     (case atoi idStr of
        None \<Rightarrow> (s, Json 400 ''invalid mapping_id'')
      | Some i \<Rightarrow>
          (case body of
             None \<Rightarrow> (s, Json 400 ''invalid request'')
           | Some rs \<Rightarrow>
               (case BulkSetSyncTargets now i (bulk_rows rs) (syDB s) of
                  (d1, Some e) \<Rightarrow> (set_db d1 s, Json 500 '''')
                | (d1, None) \<Rightarrow> (set_db d1 s, Json 200 (itoa (int (length (bulk_rows rs))))))))"

section \<open>Collecting the files of a source\<close>

definition rel_name :: "string \<Rightarrow> string \<Rightarrow> string" where
  "rel_name subPath name = (if subPath \<noteq> '''' then subPath @ ''/'' @ name else name)"

text \<open>
  The recursion over the listings of the agent, with the depth of the agent's file system as
  its fuel; a subdirectory that cannot be listed is left out.
\<close>

definition collect_entry ::
  "(string \<Rightarrow> (file_error + string list) option) \<Rightarrow> string \<Rightarrow> FileEntry \<Rightarrow> string list option" where
  "collect_entry walk subPath e =
     (let relPath = rel_name subPath (feName e)
      in if feIsDir e
         then map_option (\<lambda>r. case r of Inl err \<Rightarrow> [] | Inr subFiles \<Rightarrow> subFiles) (walk relPath)
         else Some [relPath])"

primrec collectFilesRecursive ::
  "nat \<Rightarrow> agent_host \<Rightarrow> string \<Rightarrow> string \<Rightarrow> string \<Rightarrow> (file_error + string list) option" where
  "collectFilesRecursive 0 h inst basePath subPath = None"
| "collectFilesRecursive (Suc n) h inst basePath subPath =
     (let dirPath = (if subPath \<noteq> '''' then basePath @ ''/'' @ subPath else basePath)
      in case ListDirectory 4096 (ahCwd h) (ahDefs h) inst dirPath (ahFs h) of
           Inl e \<Rightarrow> Some (Inl e)
         | Inr (p, entries) \<Rightarrow>
             map_option Inr (collect_opt
               (map (collect_entry (collectFilesRecursive n h inst basePath) subPath) entries)))"

text \<open>\<^verbatim>\<open>filepath.Walk\<close> over a local folder, with a function that keeps going after errors.\<close>

primrec walk_files :: "nat \<Rightarrow> string \<Rightarrow> fs \<Rightarrow> string \<Rightarrow> fnode \<Rightarrow> string list option" where
  "walk_files 0 absBase f p info = None"
| "walk_files (Suc n) absBase f p info =
     (if \<not> is_dir_node info then Some [case fp_rel absBase p of None \<Rightarrow> '''' | Some rel \<Rightarrow> rel]
      else case os_read_dir f (to_path p) of
             Inl e \<Rightarrow> Some []
           | Inr names \<Rightarrow>
               collect_opt (map (\<lambda>c. case fs_get f (to_path (fp_join [p, c])) of
                   None \<Rightarrow> Some []
                 | Some i \<Rightarrow> walk_files n absBase f (fp_join [p, c]) i) names))"

definition local_files :: "string \<Rightarrow> fs \<Rightarrow> string list option" where
  "local_files absBase f =
     (case fs_get f (to_path absBase) of
        None \<Rightarrow> Some []
      | Some info \<Rightarrow> walk_files (Suc (copy_fuel f)) absBase f absBase info)"

section \<open>The job\<close>

datatype rpc_error = RpcUnavailable | RpcFailed file_error

definition push_record ::
  "instant \<Rightarrow> SyncTarget \<Rightarrow> string \<Rightarrow> bytes \<Rightarrow> string \<Rightarrow> string option \<Rightarrow> sync_server \<Rightarrow> sync_server" where
  "push_record now t destFile content status errMsg s =
     (case CreateSyncRecord now
             \<lparr>rID = 0, rInstanceID = Some (tInstanceID t), rNodeID = Some (tAgentID t), rFilePath = destFile,
              rFileSize = int (length content), rFileHash = '''', rAction = ''push'', rStatus = status,
              rErrorMsg = errMsg, rSyncedAt = 0\<rparr> (syDB s) of
        Inl e \<Rightarrow> s | Inr d \<Rightarrow> set_db d s)"

definition call_WriteFile ::
  "string \<Rightarrow> string \<Rightarrow> string \<Rightarrow> bytes \<Rightarrow> sync_server \<Rightarrow> (rpc_error + unit) \<times> sync_server" where
  "call_WriteFile addr inst dest content s =
     (case map_get (syHosts s) addr of
        None \<Rightarrow> (Inl RpcUnavailable, s)
      | Some h \<Rightarrow>
          (case WriteFile (ahCwd h) (ahDefs h) inst dest content True (ahFs h) of
             (Inl e, f1) \<Rightarrow> (Inl (RpcFailed e), s\<lparr>syHosts := map_put addr (h\<lparr>ahFs := f1\<rparr>) (syHosts s)\<rparr>)
           | (Inr u, f1) \<Rightarrow> (Inr (), s\<lparr>syHosts := map_put addr (h\<lparr>ahFs := f1\<rparr>) (syHosts s)\<rparr>)))"

definition dest_file :: "SyncTarget \<Rightarrow> string \<Rightarrow> string" where
  "dest_file t relFile = under (tDestPath t) relFile"

text \<open>\<open>errText\<close> is the text of an error of the call.\<close>

definition push_one ::
  "(rpc_error \<Rightarrow> string) \<Rightarrow> instant \<Rightarrow> string \<Rightarrow> SyncTarget \<Rightarrow> string \<Rightarrow> string \<Rightarrow> sync_server \<Rightarrow> sync_server" where
  "push_one errText now absBase t addr relFile s =
     (case os_read_file (syMaster s) (to_path (fp_join [absBase, relFile])) of
        Inl e \<Rightarrow> s
      | Inr content \<Rightarrow>
          (case call_WriteFile addr (tInstanceID t) (dest_file t relFile) content s of
             (Inl e, s1) \<Rightarrow> push_record now t (dest_file t relFile) content ''failed'' (Some (errText e)) s1
           | (Inr u, s1) \<Rightarrow> push_record now t (dest_file t relFile) content ''completed'' None s1))"

text \<open>\<open>dial\<close> tells whether gRPC accepts an address at all; it does not connect.\<close>

definition push_target ::
  "(rpc_error \<Rightarrow> string) \<Rightarrow> (string \<Rightarrow> bool) \<Rightarrow> instant \<Rightarrow> string \<Rightarrow> string list \<Rightarrow> SyncTarget \<Rightarrow> sync_server \<Rightarrow>
   sync_server" where
  "push_target errText dial now absBase files t s =
     (case GetAgentAddress (tAgentID t) (syServer s) of
        None \<Rightarrow> s
      | Some addr \<Rightarrow> if \<not> dial addr then s else fold (push_one errText now absBase t addr) files s)"

definition pushLocalToTargets ::
  "(rpc_error \<Rightarrow> string) \<Rightarrow> (string \<Rightarrow> bool) \<Rightarrow> string \<Rightarrow> instant \<Rightarrow> SyncMapping \<Rightarrow> SyncTarget list \<Rightarrow>
   sync_server \<Rightarrow> sync_server option" where
  "pushLocalToTargets errText dial cwd now m targets s =
     (let absBase = fp_abs cwd (mSrc m)
      in map_option (\<lambda>files. fold (push_target errText dial now absBase files) targets s)
           (local_files absBase (syMaster s)))"

definition mkdir_ignore :: "path \<Rightarrow> fs \<Rightarrow> fs" where
  "mkdir_ignore p f = (case os_mkdir_all p 493 f of Inl e \<Rightarrow> f | Inr f1 \<Rightarrow> f1)"

definition read_path :: "SyncMapping \<Rightarrow> string \<Rightarrow> string" where
  "read_path m f = under (mSourcePath m) f"

definition cache_file :: "string \<Rightarrow> agent_host \<Rightarrow> SyncMapping \<Rightarrow> string \<Rightarrow> fs \<Rightarrow> fs" where
  "cache_file cwd h m f master =
     (case ReadFile (ahCwd h) (ahDefs h) (mSourceInstanceID m) (read_path m f) (ahFs h) of
        Inl e \<Rightarrow> master
      | Inr resp \<Rightarrow>
          let cachePath = fp_join [mSrc m, f];
              master1 = mkdir_ignore (os_path cwd (fp_dir cachePath)) master
          in case os_write_file (os_path cwd cachePath) (rrContent resp) 420 master1 of
               Inl e \<Rightarrow> master1 | Inr master2 \<Rightarrow> master2)"

text \<open>The result is None only if the fuel runs out, which never happens.\<close>

definition executeSyncJob ::
  "(rpc_error \<Rightarrow> string) \<Rightarrow> (string \<Rightarrow> bool) \<Rightarrow> string \<Rightarrow> instant \<Rightarrow> sync_job \<Rightarrow> sync_server \<Rightarrow>
   sync_server option" where
  "executeSyncJob errText dial cwd now job s =
     (let (m, targets) = job
      in if \<not> IsAgentSource m then pushLocalToTargets errText dial cwd now m targets s
         else case GetAgentAddress (mSourceAgentID m) (syServer s) of
           None \<Rightarrow> Some s
         | Some addr \<Rightarrow>
             if \<not> dial addr then Some s
             else case map_get (syHosts s) addr of
               None \<Rightarrow> Some s
             | Some h \<Rightarrow>
                 (case collectFilesRecursive (Suc (copy_fuel (ahFs h))) h (mSourceInstanceID m) (mSourcePath m) '''' of
                    None \<Rightarrow> None
                  | Some (Inl e) \<Rightarrow> Some s
                  | Some (Inr files) \<Rightarrow>
                      let master1 = mkdir_ignore (os_path cwd (mSrc m)) (syMaster s)
                      in pushLocalToTargets errText dial cwd now m targets
                           (s\<lparr>syMaster := fold (cache_file cwd h m) files master1\<rparr>)))"

definition apiExecuteSync ::
  "instant \<Rightarrow> string \<Rightarrow> user_context \<Rightarrow> sync_server \<Rightarrow> sync_server \<times> reply \<times> sync_job option" where
  "apiExecuteSync now idStr uc s =
     (case atoi idStr of
        None \<Rightarrow> (s, Json 400 ''invalid mapping_id'', None)
      | Some i \<Rightarrow>
          (case GetSyncMapping i (syDB s) of
             Inl e \<Rightarrow> (s, Json 404 ''mapping not found'', None)
           | Inr m \<Rightarrow>
               let targets = ListEnabledSyncTargets i (syDB s)
               in if targets = [] then (s, Json 400 ''sync target is missing. target add from the UI.'', None)
                  else (set_db (audit now uc ''update'' ''sync'' (itoa i) (mName m) '''' '''' ''''
                          (''sync execute: '' @ mName m @ arrow @ itoa (int (length targets)) @ '' target'') (syDB s)) s,
                        Json 200 (''sync start: '' @ mName m @ arrow @ itoa (int (length targets)) @ '' target''),
                        Some (m, targets))))"

definition triggerAutoSync :: "int \<Rightarrow> sync_server \<Rightarrow> sync_job option" where
  "triggerAutoSync i s =
     (case GetSyncMapping i (syDB s) of
        Inl e \<Rightarrow> None
      | Inr m \<Rightarrow>
          if \<not> mEnabled m \<or> ListEnabledSyncTargets i (syDB s) = [] then None
          else Some (m, ListEnabledSyncTargets i (syDB s)))"

section \<open>The explorer of a source folder\<close>

definition resolveSyncPath :: "string \<Rightarrow> string \<Rightarrow> string \<Rightarrow> string option" where
  "resolveSyncPath cwd mappingSrc relPath =
     (let absBase = fp_abs cwd mappingSrc
      in if relPath = '''' \<or> relPath = ''.'' then Some absBase
         else let absTarget = fp_abs cwd (fp_join [absBase, fp_clean relPath])
              in if \<not> has_prefix absTarget absBase then None else Some absTarget)"

definition getMappingSrc :: "string \<Rightarrow> sync_server \<Rightarrow> string option" where
  "getMappingSrc idStr s =
     (if idStr = '''' then None
      else case atoi idStr of
        None \<Rightarrow> None
      | Some i \<Rightarrow> (case GetSyncMapping i (syDB s) of Inl e \<Rightarrow> None | Inr m \<Rightarrow> Some (mSrc m)))"

text \<open>The two steps every handler of the explorer begins with.\<close>

definition sync_path :: "string \<Rightarrow> string \<Rightarrow> string \<Rightarrow> sync_server \<Rightarrow> (string \<times> path) option" where
  "sync_path cwd idStr relPath s =
     Option.bind (getMappingSrc idStr s) (\<lambda>src.
       map_option (\<lambda>p. (src, to_path p)) (resolveSyncPath cwd src relPath))"

definition sync_entry :: "string \<Rightarrow> fs \<Rightarrow> path \<Rightarrow> string \<Rightarrow> FileEntry list" where
  "sync_entry reqPath f dir name =
     (case fs_get f (dir @ [name]) of
        None \<Rightarrow> []
      | Some info \<Rightarrow>
          [\<lparr>feName = name,
            fePath = (if reqPath \<noteq> '''' \<and> reqPath \<noteq> ''.'' then reqPath @ ''/'' @ name else name),
            feIsDir = is_dir_node info, feSize = node_size 4096 info, fePermissions = ''''\<rparr>])"

definition apiListSyncFiles ::
  "string \<Rightarrow> string \<Rightarrow> string \<Rightarrow> sync_server \<Rightarrow> sync_server \<times> (reply + FileEntry list)" where
  "apiListSyncFiles cwd idStr reqPath s =
     (case sync_path cwd idStr reqPath s of
        None \<Rightarrow> (s, Inl (Json 400 ''''))
      | Some (src, p) \<Rightarrow>
          let s1 = s\<lparr>syMaster := mkdir_ignore p (syMaster s)\<rparr>
          in case os_read_dir (syMaster s1) p of
               Inl e \<Rightarrow> (s1, Inl (Json 500 ''''))
             | Inr names \<Rightarrow> (s1, Inr (concat (map (sync_entry reqPath (syMaster s1) p) names))))"

definition maxSyncRead :: nat where
  "maxSyncRead = 10 * 1024 * 1024"

text \<open>The answer: the content, the size and whether it was cut. The text is sent in base 64.\<close>

definition apiReadSyncFile ::
  "string \<Rightarrow> string \<Rightarrow> string \<Rightarrow> sync_server \<Rightarrow> reply + bytes \<times> nat \<times> bool" where
  "apiReadSyncFile cwd idStr reqPath s =
     (case sync_path cwd idStr reqPath s of
        None \<Rightarrow> Inl (Json 400 '''')
      | Some (src, p) \<Rightarrow>
          (case os_stat (syMaster s) p of
             Inl e \<Rightarrow> Inl (Json 404 ''file not found'')
           | Inr info \<Rightarrow>
               if is_dir_node info then Inl (Json 400 ''directory read cannot'')
               else (case os_read_file (syMaster s) p of
                       Inl e \<Rightarrow> Inl (Json 500 '''')
                     | Inr content \<Rightarrow>
                         Inr (if length content > maxSyncRead then take maxSyncRead content else content,
                              node_size 4096 info, length content > maxSyncRead))))"

record write_form =
  wfPath :: string
  wfContent :: "bytes option" \<comment> \<open>None if the text is not base 64\<close>
  wfMappingID :: int
  wfCreateDirs :: bool

definition apiWriteSyncFile ::
  "string \<Rightarrow> string \<Rightarrow> write_form option \<Rightarrow> sync_server \<Rightarrow> sync_server \<times> reply \<times> sync_job option" where
  "apiWriteSyncFile cwd idStr body s =
     (case getMappingSrc idStr s of
        None \<Rightarrow> (s, Json 400 '''', None)
      | Some src \<Rightarrow>
          (case body of
             None \<Rightarrow> (s, Json 400 ''invalid request'', None)
           | Some r \<Rightarrow>
               (case resolveSyncPath cwd src (wfPath r) of
                  None \<Rightarrow> (s, Json 400 '''', None)
                | Some filePath \<Rightarrow>
                    (case wfContent r of
                       None \<Rightarrow> (s, Json 400 ''invalid base64 inload'', None)
                     | Some content \<Rightarrow>
                         let s1 = (if wfCreateDirs r
                                   then s\<lparr>syMaster := mkdir_ignore (to_path (fp_dir filePath)) (syMaster s)\<rparr>
                                   else s)
                         in case os_write_file (to_path filePath) content 420 (syMaster s1) of
                              Inl e \<Rightarrow> (s1, Json 500 '''', None)
                            | Inr f1 \<Rightarrow>
                                let s2 = s1\<lparr>syMaster := f1\<rparr>;
                                    mappingID = (if wfMappingID r = 0
                                      then (case atoi idStr of None \<Rightarrow> 0 | Some i \<Rightarrow> i) else wfMappingID r)
                                in (s2, Json 200 ''file saved'',
                                    if mappingID > 0 then triggerAutoSync mappingID s2 else None)))))"

definition apiDeleteSyncFile ::
  "string \<Rightarrow> string \<Rightarrow> (string \<times> bool) option \<Rightarrow> sync_server \<Rightarrow> sync_server \<times> reply" where
  "apiDeleteSyncFile cwd idStr body s =
     (case getMappingSrc idStr s of
        None \<Rightarrow> (s, Json 400 '''')
      | Some src \<Rightarrow>
          (case body of
             None \<Rightarrow> (s, Json 400 ''invalid request'')
           | Some (relPath, recursive) \<Rightarrow>
               (case resolveSyncPath cwd src relPath of
                  None \<Rightarrow> (s, Json 400 '''')
                | Some filePath \<Rightarrow>
                    if filePath = fp_abs cwd src
                    then (s, Json 400 ''source root directory cannot delete'')
                    else (case (if recursive then os_remove_all (to_path filePath) (syMaster s)
                                else os_remove (to_path filePath) (syMaster s)) of
                            Inl e \<Rightarrow> (s, Json 500 '''')
                          | Inr f1 \<Rightarrow> (s\<lparr>syMaster := f1\<rparr>, Json 200 ''deleted'')))))"

definition apiCreateSyncDir ::
  "string \<Rightarrow> string \<Rightarrow> string option \<Rightarrow> sync_server \<Rightarrow> sync_server \<times> reply" where
  "apiCreateSyncDir cwd idStr body s =
     (case getMappingSrc idStr s of
        None \<Rightarrow> (s, Json 400 '''')
      | Some src \<Rightarrow>
          (case body of
             None \<Rightarrow> (s, Json 400 ''invalid request'')
           | Some relPath \<Rightarrow>
               (case resolveSyncPath cwd src relPath of
                  None \<Rightarrow> (s, Json 400 '''')
                | Some dirPath \<Rightarrow>
                    (case os_mkdir_all (to_path dirPath) 493 (syMaster s) of
                       Inl e \<Rightarrow> (s, Json 500 '''')
                     | Inr f1 \<Rightarrow> (s\<lparr>syMaster := f1\<rparr>, Json 200 ''directory created'')))))"

definition apiUploadSyncFile ::
  "string \<Rightarrow> string \<Rightarrow> string \<Rightarrow> (string \<times> bytes) option \<Rightarrow> sync_server \<Rightarrow>
   sync_server \<times> reply \<times> sync_job option" where
  "apiUploadSyncFile cwd idStr reqPath file s =
     (case atoi idStr of
        None \<Rightarrow> (s, Json 400 ''mapping_id is required'', None)
      | Some i \<Rightarrow>
          (case GetSyncMapping i (syDB s) of
             Inl e \<Rightarrow> (s, Json 400 ''mapping not found'', None)
           | Inr m \<Rightarrow>
               (case file of
                  None \<Rightarrow> (s, Json 400 ''file is missing'', None)
                | Some (filename, content) \<Rightarrow>
                    let uploadPath = (if reqPath \<noteq> '''' \<and> reqPath \<noteq> ''.''
                                      then reqPath @ ''/'' @ filename else filename)
                    in case resolveSyncPath cwd (mSrc m) uploadPath of
                         None \<Rightarrow> (s, Json 400 '''', None)
                       | Some filePath \<Rightarrow>
                           let s1 = s\<lparr>syMaster := mkdir_ignore (to_path (fp_dir filePath)) (syMaster s)\<rparr>
                           in case os_write_file (to_path filePath) content 420 (syMaster s1) of
                                Inl e \<Rightarrow> (s1, Json 500 '''', None)
                              | Inr f1 \<Rightarrow>
                                  let s2 = s1\<lparr>syMaster := f1\<rparr>
                                  in (s2, Json 200 ''file upload'', triggerAutoSync i s2))))"

end
