(* ===== verification/Sync_Jobs.thy ===== *)
theory Sync_Jobs
  imports Web_Sync
begin

text \<open>
  The properties of folder synchronisation: what the walks of \<open>Web_Sync\<close> collect, what a
  job leaves on the targets and in the history, and what the explorer of a source folder can
  change. The job is followed from one push to the next with two facts: \<open>sync_frame\<close>, that
  nothing that is there gets lost, and \<open>delivered\<close>, that a file has arrived; the cache of an
  agent's folder is followed with the invariant \<open>cached\<close>.
\<close>

section \<open>What the walks collect\<close>

lemma ListDirectory_at:
  assumes "is_abs cwd" "map_get defs i = Some def" "idWorkDir def \<noteq> ''''"
    and "resolveInstancePath cwd defs i req = Inr (abs_text p)" "\<forall>c \<in> set p. proper_name c"
    and "fs_is_dir f p" "fs_ok f"
  shows "\<exists>names. distinct names \<and> set names = set (fs_children f p) \<and>
    ListDirectory k cwd defs i req f = Inr (req, concat (map (list_entry k req f p) names))"
proof -
  obtain m where m: "fs_get f p = Some (DirNode m)"
    using assms(6) by (auto simp: fs_is_dir_def split: option.splits fnode.splits)
  have "distinct (fs_children f p)" by (rule distinct_fs_children [OF assms(7)])
  then show ?thesis
    using assms(4,5) m
    by (intro exI [of _ "sort (fs_children f p)"]) (simp add: ListDirectory_def os_read_dir_def)
qed

text \<open>Every name of a directory has its entry.\<close>

lemma list_entry_child:
  assumes "fs_ok f" "c \<in> set (fs_children f p)"
  shows "\<exists>e. list_entry k req f p c = [e] \<and> feName e = c \<and> feIsDir e = fs_is_dir f (p @ [c])"
proof -
  obtain n where n: "fs_get f (p @ [c]) = Some n" using fs_children_iff [OF assms(1)] assms(2) by blast
  show ?thesis using n by (cases n) (simp_all add: list_entry_def is_dir_node_def fs_is_dir_def)
qed

lemma concat_entries:
  assumes "\<And>c. c \<in> set names \<Longrightarrow> entry c = [ent c]"
  shows "map g (concat (map entry names)) = map (\<lambda>c. g (ent c)) names"
  using assms by (induction names) auto

lemma child_proper: "fs_ok f \<Longrightarrow> c \<in> set (fs_children f p) \<Longrightarrow> proper_name c"
  using fs_ok_proper [of f "p @ [c]"] fs_children_iff [of f c p] by fastforce

lemma str_join_snoc: "rel \<noteq> [] \<Longrightarrow> str_join ''/'' (rel @ [c]) = str_join ''/'' rel @ ''/'' @ c"
  by (simp add: str_join_append)

lemma rel_name_join:
  assumes "\<forall>c \<in> set rel. proper_name c"
  shows "rel_name (str_join ''/'' rel) c = str_join ''/'' (rel @ [c])"
proof (cases "rel = []")
  case False
  then have "str_join ''/'' rel \<noteq> ''''" using str_join_proper_ne [OF assms] by simp
  then show ?thesis using False by (simp add: rel_name_def str_join_snoc)
qed (simp add: rel_name_def)

lemma resolve_sub:
  assumes "is_abs cwd" "map_get defs i = Some def" "idWorkDir def \<noteq> ''''" "no_climb p"
    and "\<forall>c \<in> set rel. proper_name c" "rel \<noteq> []"
  shows "resolveInstancePath cwd defs i (p @ ''/'' @ str_join ''/'' rel) = Inr (abs_text (base_path cwd def p @ rel))"
proof (cases "p = ''''")
  case True
  have "is_abs (''/'' @ str_join ''/'' rel)" by (simp add: is_abs_def has_prefix_def)
  then show ?thesis
    using True resolve_no_climb [OF assms(1-3), of "''/'' @ str_join ''/'' rel"] assms(5)
    by (simp add: no_climb_def base_path_def clean_comps_join)
next
  case False
  note c = clean_comps_under_join [OF assms(5)]
  have ab: "is_abs (p @ ''/'' @ str_join ''/'' rel) = is_abs p" by (rule is_abs_append_iff [OF False])
  have "no_climb (p @ ''/'' @ str_join ''/'' rel)"
    using assms(4,5) c [of False p] ab by (auto simp: no_climb_def proper_name_def)
  from resolve_no_climb [OF assms(1-3) this] show ?thesis unfolding ab c by (simp add: base_path_def)
qed

lemma depth_le_0:
  assumes "depth_le f p 0" "fs_ok f"
  shows "fs_children f p = []"
proof (rule ccontr)
  assume "fs_children f p \<noteq> []"
  then obtain c where "c \<in> set (fs_children f p)" by (cases "fs_children f p") auto
  then have "fs_get f (p @ [c]) \<noteq> None" using fs_children_iff [OF assms(2)] by blast
  then show False using assms(1) unfolding depth_le_def by (auto dest: spec [of _ "p @ [c]"])
qed

lemma collect_from:
  assumes cwd: "is_abs (ahCwd h)" and def: "map_get (ahDefs h) inst = Some def" "idWorkDir def \<noteq> ''''"
    and nc: "no_climb base" and ok: "fs_ok (ahFs h)"
  shows "depth_le (ahFs h) (base_path (ahCwd h) def base @ rel) n \<Longrightarrow>
    fs_is_dir (ahFs h) (base_path (ahCwd h) def base @ rel) \<Longrightarrow> \<forall>c \<in> set rel. proper_name c \<Longrightarrow>
    \<exists>xs. collectFilesRecursive (Suc n) h inst base (str_join ''/'' rel) = Some (Inr xs) \<and>
      enumerates (ahFs h) (base_path (ahCwd h) def base @ rel) rel xs"
proof (induction n arbitrary: rel rule: less_induct)
  case (less n)
  let ?f = "ahFs h" and ?sub = "str_join ''/'' rel"
  let ?p = "base_path (ahCwd h) def base @ rel"
  define req where "req = (if ?sub \<noteq> '''' then base @ ''/'' @ ?sub else base)"
  have pp: "\<forall>c \<in> set ?p. proper_name c" using base_path_proper [OF cwd nc] less.prems(3) by auto
  have "resolveInstancePath (ahCwd h) (ahDefs h) inst req = Inr (abs_text ?p)"
  proof (cases "rel = []")
    case True
    then show ?thesis using resolve_base [OF cwd def nc] by (simp add: req_def)
  next
    case False
    then show ?thesis
      using resolve_sub [OF cwd def nc less.prems(3) False] str_join_proper_ne [OF less.prems(3) False]
      by (simp add: req_def)
  qed
  from ListDirectory_at [OF cwd def this pp less.prems(2) ok, of 4096]
  obtain names where names: "distinct names" "set names = set (fs_children ?f ?p)"
    "ListDirectory 4096 (ahCwd h) (ahDefs h) inst req ?f = Inr (req, concat (map (list_entry 4096 req ?f ?p) names))"
    by blast
  obtain ent where ent: "\<And>c. c \<in> set names \<Longrightarrow> list_entry 4096 req ?f ?p c = [ent c] \<and> feName (ent c) = c \<and>
      feIsDir (ent c) = fs_is_dir ?f (?p @ [c])"
    using list_entry_child [OF ok, of _ ?p 4096 req] names(2) by metis
  define g where "g c = collect_entry (collectFilesRecursive n h inst base) ?sub (ent c)" for c
  have "\<exists>ys. collect_opt (map g names) = Some ys \<and> enumerates ?f ?p rel ys"
  proof (rule enumerates_children [OF ok less.prems(3) names(1,2)])
    fix c
    assume c: "c \<in> set names" and dir: "fs_is_dir ?f (?p @ [c])"
    have "fs_children ?f ?p \<noteq> []" using c names(2) by auto
    then obtain k where k: "n = Suc k" using depth_le_0 less.prems(1) ok by (cases n) auto
    have "depth_le ?f (base_path (ahCwd h) def base @ rel @ [c]) k"
      using depth_le_child [of ?f ?p k c] less.prems(1) k by simp
    moreover have "\<forall>d \<in> set (rel @ [c]). proper_name d"
      using less.prems(3) child_proper [OF ok] c names(2) by auto
    ultimately obtain xs where "collectFilesRecursive n h inst base (str_join ''/'' (rel @ [c])) = Some (Inr xs)"
      "enumerates ?f (base_path (ahCwd h) def base @ rel @ [c]) (rel @ [c]) xs"
      using less.IH [of k "rel @ [c]"] k dir by auto
    then show "\<exists>xs. g c = Some xs \<and> enumerates ?f (?p @ [c]) (rel @ [c]) xs"
      using ent [OF c] dir rel_name_join [OF less.prems(3)] by (simp add: g_def collect_entry_def)
  next
    fix c
    assume c: "c \<in> set names" and "\<not> fs_is_dir ?f (?p @ [c])"
    then show "g c = Some [str_join ''/'' (rel @ [c])]"
      using ent [OF c] rel_name_join [OF less.prems(3)] by (simp add: g_def collect_entry_def)
  qed
  moreover have "collectFilesRecursive (Suc n) h inst base ?sub = map_option Inr (collect_opt (map g names))"
  proof -
    have "map (collect_entry (collectFilesRecursive n h inst base) ?sub)
        (concat (map (list_entry 4096 req ?f ?p) names)) = map g names"
      unfolding g_def by (rule concat_entries) (simp add: ent)
    then show ?thesis using names(3) by (simp add: req_def)
  qed
  ultimately show ?case by auto
qed


lemma fp_rel_abs:
  assumes "\<forall>c \<in> set (b @ rel). proper_name c" "rel \<noteq> []"
  shows "fp_rel (abs_text b) (abs_text (b @ rel)) = Some (str_join ''/'' rel)"
  using fp_rel_below [of b rel True] assms by (simp add: path_text_def rel_text_def)

lemma walk_from:
  assumes ok: "fs_ok f" and b: "\<forall>c \<in> set b. proper_name c"
  shows "depth_le f (b @ rel) n \<Longrightarrow> fs_get f (b @ rel) = Some info \<Longrightarrow> is_dir_node info \<Longrightarrow>
    \<forall>c \<in> set rel. proper_name c \<Longrightarrow>
    \<exists>xs. walk_files (Suc n) (abs_text b) f (abs_text (b @ rel)) info = Some xs \<and> enumerates f (b @ rel) rel xs"
proof (induction n arbitrary: rel info rule: less_induct)
  case (less n)
  let ?p = "b @ rel"
  define names where "names = sort (fs_children f ?p)"
  have names: "distinct names" "set names = set (fs_children f ?p)"
    using distinct_fs_children [OF ok] by (simp_all add: names_def)
  have pp: "\<forall>c \<in> set ?p. proper_name c" using b less.prems(4) by auto
  define g where "g c = (case fs_get f (to_path (fp_join [abs_text ?p, c])) of None \<Rightarrow> Some []
      | Some i \<Rightarrow> walk_files n (abs_text b) f (fp_join [abs_text ?p, c]) i)" for c
  have g: "g c = (case fs_get f (?p @ [c]) of None \<Rightarrow> Some []
      | Some i \<Rightarrow> walk_files n (abs_text b) f (abs_text (?p @ [c])) i)" if "c \<in> set names" for c
  proof -
    have c: "proper_name c" using child_proper [OF ok] that names(2) by auto
    then have j: "fp_join [abs_text ?p, c] = abs_text (?p @ [c])" using fp_join_name [OF pp] by simp
    have "\<forall>d \<in> set (?p @ [c]). proper_name d" using pp c by auto
    then show ?thesis unfolding g_def j by simp
  qed
  have up: "\<forall>d \<in> set (rel @ [c]). proper_name d" if "c \<in> set names" for c
    using less.prems(4) child_proper [OF ok] that names(2) by auto
  have deep: "\<exists>k. n = Suc k" if "c \<in> set names" for c
    using depth_le_0 [OF _ ok] less.prems(1) that names(2) by (cases n) auto
  have "\<exists>ys. collect_opt (map g names) = Some ys \<and> enumerates f ?p rel ys"
  proof (rule enumerates_children [OF ok less.prems(4) names])
    fix c
    assume c: "c \<in> set names" and dir: "fs_is_dir f (?p @ [c])"
    obtain k where k: "n = Suc k" using deep [OF c] by blast
    obtain i where i: "fs_get f (?p @ [c]) = Some i" "is_dir_node i"
      using dir by (auto simp: fs_is_dir_def is_dir_node_def split: option.splits fnode.splits)
    have "depth_le f (b @ rel @ [c]) k" using depth_le_child [of f ?p k c] less.prems(1) k by simp
    from less.IH [OF _ this _ i(2) up [OF c]] i(1) k
    show "\<exists>xs. g c = Some xs \<and> enumerates f (?p @ [c]) (rel @ [c]) xs"
      by (simp add: g [OF c])
  next
    fix c
    assume c: "c \<in> set names" and nd: "\<not> fs_is_dir f (?p @ [c])"
    obtain k where k: "n = Suc k" using deep [OF c] by blast
    obtain i where i: "fs_get f (?p @ [c]) = Some i" "\<not> is_dir_node i"
      using nd c names(2) fs_children_iff [OF ok]
      by (auto simp: fs_is_dir_def is_dir_node_def split: option.splits fnode.splits)
    have "fp_rel (abs_text b) (abs_text (b @ (rel @ [c]))) = Some (str_join ''/'' (rel @ [c]))"
      by (rule fp_rel_abs) (use b up [OF c] in auto)
    then show "g c = Some [str_join ''/'' (rel @ [c])]" using i k by (simp add: g [OF c])
  qed
  moreover have "walk_files (Suc n) (abs_text b) f (abs_text ?p) info = collect_opt (map g names)"
    using less.prems(2,3) pp
    by (cases info) (simp_all add: os_read_dir_def is_dir_node_def names_def g_def [abs_def])
  ultimately show ?case by simp
qed

lemma local_files_dir:
  assumes ok: "fs_ok f" and b: "\<forall>c \<in> set b. proper_name c" and dir: "fs_is_dir f b"
  shows "\<exists>xs. local_files (abs_text b) f = Some xs \<and> enumerates f b [] xs"
proof -
  obtain info where info: "fs_get f b = Some info" "is_dir_node info"
    using dir by (auto simp: fs_is_dir_def is_dir_node_def split: option.splits fnode.splits)
  obtain n where n: "copy_fuel f = Suc n" "depth_le f b n" using copy_fuel_depth by blast
  have "depth_le f b (Suc n)" using n(2) by (auto simp: depth_le_def)
  from walk_from [OF ok b, of "[]" "Suc n" info] this info
  show ?thesis using b n by (simp add: local_files_def)
qed


section \<open>What a push leaves behind\<close>

lemma WriteFile_keeps:
  assumes "os_read_file f q = Inr b" "\<And>p. resolveInstancePath cwd defs i rel = Inr p \<Longrightarrow> to_path p \<noteq> q"
  shows "os_read_file (snd (WriteFile cwd defs i rel c mk f)) q = Inr b"
proof (cases "resolveInstancePath cwd defs i rel")
  case (Inl e)
  then show ?thesis using assms(1) by (simp add: WriteFile_def)
next
  case (Inr p)
  define mkd where "mkd = (if mk then os_mkdir_all (to_path (fp_dir p)) 493 f else Inr f)"
  show ?thesis
  proof (cases mkd)
    case (Inl e)
    then show ?thesis using assms(1) \<open>_ = Inr p\<close> by (simp add: WriteFile_def mkd_def [symmetric])
  next
    case f1: (Inr f1)
    have k: "os_read_file f1 q = Inr b"
      using assms(1) f1 os_mkdir_all_spec(3) [of "to_path (fp_dir p)" 493 f f1]
      by (cases mk) (auto simp: mkd_def os_read_file_iff)
    show ?thesis
    proof (cases "os_write_file (to_path p) c 420 f1")
      case (Inl e)
      then show ?thesis using k \<open>_ = Inr p\<close> f1 by (simp add: WriteFile_def mkd_def [symmetric])
    next
      case w: (Inr f2)
      have "fs_get f2 q = fs_get f1 q" by (rule os_write_file_get(2) [OF w]) (use assms(2) [OF Inr] in auto)
      then show ?thesis
        using k \<open>_ = Inr p\<close> f1 w by (simp add: WriteFile_def mkd_def [symmetric] os_read_file_iff)
    qed
  qed
qed

lemma WriteFile_writes:
  assumes "WriteFile cwd defs i rel c mk f = (Inr u, f')"
  shows "\<exists>p. resolveInstancePath cwd defs i rel = Inr p \<and> os_read_file f' (to_path p) = Inr c"
  using assms by (auto simp: WriteFile_def split: sum.splits dest: os_write_file_get(3))

text \<open>Nothing that is there gets lost: the frame of every step of the job.\<close>

definition outside_writes :: "agent_host \<Rightarrow> SyncTarget \<Rightarrow> string \<Rightarrow> path \<Rightarrow> bool" where
  "outside_writes h t relFile q \<longleftrightarrow>
     (\<forall>p. resolveInstancePath (ahCwd h) (ahDefs h) (tInstanceID t) (dest_file t relFile) = Inr p \<longrightarrow> to_path p \<noteq> q)"

definition same_host :: "agent_host \<Rightarrow> agent_host \<Rightarrow> bool" where
  "same_host h h' \<longleftrightarrow> ahCwd h' = ahCwd h \<and> ahDefs h' = ahDefs h"

definition sync_frame :: "sync_server \<Rightarrow> sync_server \<Rightarrow> bool" where
  "sync_frame s s' \<longleftrightarrow>
     syMaster s' = syMaster s \<and> gsAgents (syServer s') = gsAgents (syServer s) \<and>
     instance_ids (syDB s') = instance_ids (syDB s) \<and> node_ids (syDB s') = node_ids (syDB s) \<and>
     set (at_rows (sync_history (syDB s))) \<subseteq> set (at_rows (sync_history (syDB s'))) \<and>
     (\<forall>a h. map_get (syHosts s) a = Some h \<longrightarrow> (\<exists>h'. map_get (syHosts s') a = Some h' \<and> same_host h h'))"

lemma sync_frame_refl [simp]: "sync_frame s s"
  by (auto simp: sync_frame_def same_host_def)

lemma sync_frame_hosts: "sync_frame s s' \<Longrightarrow> map_get (syHosts s) a = Some h \<Longrightarrow>
    \<exists>h'. map_get (syHosts s') a = Some h' \<and> same_host h h'"
  by (simp add: sync_frame_def)

lemma sync_frame_same_host:
  assumes "sync_frame s s'" "map_get (syHosts s) a = Some g" "map_get (syHosts s') a = Some h"
  shows "same_host g h"
  using sync_frame_hosts [OF assms(1,2)] assms(3) by auto

lemma sync_frame_trans [trans]:
  assumes "sync_frame s t" "sync_frame t u"
  shows "sync_frame s u"
proof -
  have "\<exists>h'. map_get (syHosts u) a = Some h' \<and> same_host h h'" if "map_get (syHosts s) a = Some h" for a h
    using sync_frame_hosts [OF assms(1) that] sync_frame_hosts [OF assms(2)] by (fastforce simp: same_host_def)
  moreover have "set (at_rows (sync_history (syDB s))) \<subseteq> set (at_rows (sync_history (syDB u)))"
    using assms unfolding sync_frame_def by (blast dest: subset_trans)
  ultimately show ?thesis using assms by (simp add: sync_frame_def)
qed

lemma push_record_frame: "sync_frame s (push_record now t d c st e s)"
  and push_record_hosts: "syHosts (push_record now t d c st e s) = syHosts s"
  by (auto simp: sync_frame_def push_record_def CreateSyncRecord_def set_db_def auto_insert_def same_host_def
      instance_ids_def node_ids_def)

lemma push_record_row:
  assumes "tInstanceID t \<in> instance_ids (syDB s)" "tAgentID t \<in> node_ids (syDB s)"
  shows "\<exists>r \<in> set (at_rows (sync_history (syDB (push_record now t d c st e s)))).
    rInstanceID r = Some (tInstanceID t) \<and> rNodeID r = Some (tAgentID t) \<and> rFilePath r = d \<and> rStatus r = st"
  using assms by (simp add: push_record_def CreateSyncRecord_def set_db_def auto_insert_def)

lemma call_WriteFile_frame:
  assumes "call_WriteFile addr inst dest c s = (r, s')"
  shows "sync_frame s s'" "\<And>a. a \<noteq> addr \<Longrightarrow> map_get (syHosts s') a = map_get (syHosts s) a"
    "syServer s' = syServer s"
  using assms
  by (auto simp: call_WriteFile_def sync_frame_def same_host_def go_map_simps split: option.splits sum.splits prod.splits)

lemma call_WriteFile_host:
  assumes "call_WriteFile addr inst dest c s = (r, s')" "map_get (syHosts s) addr = Some h"
  shows "map_get (syHosts s') addr =
      Some (h\<lparr>ahFs := snd (WriteFile (ahCwd h) (ahDefs h) inst dest c True (ahFs h))\<rparr>)"
    and "r = Inr () \<Longrightarrow> fst (WriteFile (ahCwd h) (ahDefs h) inst dest c True (ahFs h)) = Inr ()"
  using assms by (auto simp: call_WriteFile_def go_map_simps split: sum.splits prod.splits)

lemma push_one_frame: "sync_frame s (push_one errText now absBase t addr rel s)"
proof (cases "os_read_file (syMaster s) (to_path (fp_join [absBase, rel]))")
  case (Inr content)
  obtain r s1 where c: "call_WriteFile addr (tInstanceID t) (dest_file t rel) content s = (r, s1)"
    by (cases "call_WriteFile addr (tInstanceID t) (dest_file t rel) content s")
  show ?thesis
    using call_WriteFile_frame(1) [OF c] push_record_frame sync_frame_trans Inr c
    by (cases r) (auto simp: push_one_def)
qed (simp add: push_one_def)

text \<open>A file that no write of the step names keeps its content.\<close>

lemma push_one_keeps:
  assumes "map_get (syHosts s) a = Some h" "os_read_file (ahFs h) q = Inr b"
    and "a = addr \<Longrightarrow> outside_writes h t rel q"
  shows "\<exists>h'. map_get (syHosts (push_one errText now absBase t addr rel s)) a = Some h' \<and>
    os_read_file (ahFs h') q = Inr b"
proof (cases "os_read_file (syMaster s) (to_path (fp_join [absBase, rel]))")
  case (Inl e)
  then show ?thesis using assms by (simp add: push_one_def)
next
  case (Inr content)
  obtain r s1 where c: "call_WriteFile addr (tInstanceID t) (dest_file t rel) content s = (r, s1)"
    by (cases "call_WriteFile addr (tInstanceID t) (dest_file t rel) content s")
  have "syHosts (push_one errText now absBase t addr rel s) = syHosts s1"
    using Inr c by (cases r) (auto simp: push_one_def push_record_hosts)
  moreover have "\<exists>h'. map_get (syHosts s1) a = Some h' \<and> os_read_file (ahFs h') q = Inr b"
  proof (cases "a = addr")
    case False
    then show ?thesis using call_WriteFile_frame(2) [OF c] assms(1,2) by simp
  next
    case True
    have "os_read_file (snd (WriteFile (ahCwd h) (ahDefs h) (tInstanceID t) (dest_file t rel) content True (ahFs h))) q
        = Inr b"
      by (rule WriteFile_keeps [OF assms(2)]) (use assms(3) [OF True] in \<open>auto simp: outside_writes_def\<close>)
    then show ?thesis using call_WriteFile_host(1) [OF c] assms(1) True by auto
  qed
  ultimately show ?thesis by simp
qed


definition delivered :: "sync_server \<Rightarrow> string \<Rightarrow> path \<Rightarrow> bytes \<Rightarrow> bool" where
  "delivered s addr q b \<longleftrightarrow> (\<exists>h. map_get (syHosts s) addr = Some h \<and> os_read_file (ahFs h) q = Inr b)"

definition failure_recorded :: "sync_server \<Rightarrow> SyncTarget \<Rightarrow> string \<Rightarrow> bool" where
  "failure_recorded s t dest \<longleftrightarrow>
     (\<exists>r \<in> set (at_rows (sync_history (syDB s))).
        rInstanceID r = Some (tInstanceID t) \<and> rNodeID r = Some (tAgentID t) \<and> rFilePath r = dest \<and>
        rStatus r = ''failed'')"

lemma failure_recorded_frame: "sync_frame s s' \<Longrightarrow> failure_recorded s t d \<Longrightarrow> failure_recorded s' t d"
  by (auto simp: sync_frame_def failure_recorded_def)

definition known_target :: "sync_server \<Rightarrow> SyncTarget \<Rightarrow> bool" where
  "known_target s t \<longleftrightarrow> tInstanceID t \<in> instance_ids (syDB s) \<and> tAgentID t \<in> node_ids (syDB s)"

lemma known_target_frame: "sync_frame s s' \<Longrightarrow> known_target s' t = known_target s t"
  by (simp add: sync_frame_def known_target_def)

lemma push_one_result:
  assumes h: "map_get (syHosts s) addr = Some h"
    and res: "resolveInstancePath (ahCwd h) (ahDefs h) (tInstanceID t) (dest_file t x) = Inr p"
    and content: "os_read_file (syMaster s) (to_path (fp_join [absBase, x])) = Inr content"
    and known: "known_target s t"
    and s': "s' = push_one errText now absBase t addr x s"
  shows "delivered s' addr (to_path p) content \<or> failure_recorded s' t (dest_file t x)"
proof -
  obtain r s1 where c: "call_WriteFile addr (tInstanceID t) (dest_file t x) content s = (r, s1)"
    by (cases "call_WriteFile addr (tInstanceID t) (dest_file t x) content s")
  have k: "known_target s1 t" using known known_target_frame [OF call_WriteFile_frame(1) [OF c]] by simp
  show ?thesis
  proof (cases r)
    case (Inl e)
    have s1: "s' = push_record now t (dest_file t x) content ''failed'' (Some (errText e)) s1"
      using content c Inl by (simp add: s' push_one_def)
    show ?thesis
      unfolding s1 failure_recorded_def
      using push_record_row [of t s1 now "dest_file t x" content "''failed''"] k
      by (fastforce simp: known_target_def)
  next
    case (Inr u)
    have s1: "syHosts s' = syHosts s1"
      using content c Inr by (simp add: s' push_one_def push_record_hosts)
    note w = call_WriteFile_host [OF c h]
    have "\<exists>f'. WriteFile (ahCwd h) (ahDefs h) (tInstanceID t) (dest_file t x) content True (ahFs h) = (Inr (), f')"
      using w(2) Inr by (metis prod.collapse old.unit.exhaust)
    then have "os_read_file (snd (WriteFile (ahCwd h) (ahDefs h) (tInstanceID t) (dest_file t x) content True (ahFs h)))
        (to_path p) = Inr content"
      using WriteFile_writes res by fastforce
    then show ?thesis using w(1) s1 by (simp add: delivered_def)
  qed
qed

lemma outside_writes_same: "same_host h h' \<Longrightarrow> outside_writes h' t x q = outside_writes h t x q"
  by (simp add: same_host_def outside_writes_def)

lemma push_one_delivered:
  assumes "delivered s a q b" "\<And>h. a = addr \<Longrightarrow> map_get (syHosts s) a = Some h \<Longrightarrow> outside_writes h t x q"
  shows "delivered (push_one errText now absBase t addr x s) a q b"
  using assms push_one_keeps [of s a _ q b addr t x] unfolding delivered_def by blast

lemma push_files_frame: "sync_frame s (fold (push_one errText now absBase t addr) files s)"
  by (induction files arbitrary: s) (auto intro: sync_frame_trans push_one_frame)

lemma push_files_delivered:
  assumes "delivered s a q b"
    and "\<And>h x. a = addr \<Longrightarrow> map_get (syHosts s) a = Some h \<Longrightarrow> x \<in> set files \<Longrightarrow> outside_writes h t x q"
  shows "delivered (fold (push_one errText now absBase t addr) files s) a q b"
  using assms
proof (induction files arbitrary: s)
  case (Cons y files)
  let ?s = "push_one errText now absBase t addr y s"
  have "delivered ?s a q b" by (rule push_one_delivered) (use Cons.prems in auto)
  moreover have "outside_writes h t x q"
    if "a = addr" "map_get (syHosts ?s) a = Some h" "x \<in> set files" for h x
  proof -
    obtain g where g: "map_get (syHosts s) a = Some g" using Cons.prems(1) by (auto simp: delivered_def)
    have "same_host g h" by (rule sync_frame_same_host [OF push_one_frame g that(2)])
    moreover have "outside_writes g t x q" using Cons.prems(2) [OF that(1) g] that(3) by simp
    ultimately show ?thesis using outside_writes_same by simp
  qed
  ultimately show ?case using Cons.IH by simp
qed simp

text \<open>Every file of the list is delivered, or its failure is in the history.\<close>

lemma push_files_result:
  assumes h: "map_get (syHosts s) addr = Some h" and known: "known_target s t"
    and x: "x \<in> set files" "os_read_file (syMaster s) (to_path (fp_join [absBase, x])) = Inr content"
    and res: "resolveInstancePath (ahCwd h) (ahDefs h) (tInstanceID t) (dest_file t x) = Inr p"
    and others: "\<And>y. y \<in> set files \<Longrightarrow> y \<noteq> x \<Longrightarrow> outside_writes h t y (to_path p)"
    and s': "s' = fold (push_one errText now absBase t addr) files s"
  shows "delivered s' addr (to_path p) content \<or> failure_recorded s' t (dest_file t x)"
  using assms
proof (induction files arbitrary: s h)
  case (Cons y files)
  let ?s = "push_one errText now absBase t addr y s"
  note fr = push_one_frame [of s errText now absBase t addr y]
  obtain h1 where h1: "map_get (syHosts ?s) addr = Some h1" "same_host h h1"
    using sync_frame_hosts [OF fr Cons.prems(1)] by blast
  have master: "syMaster ?s = syMaster s" using fr by (simp add: sync_frame_def)
  have s': "s' = fold (push_one errText now absBase t addr) files ?s" using Cons.prems(7) by simp
  have others: "outside_writes h1 t z (to_path p)" if "z \<in> set files" "z \<noteq> x" for z
    using Cons.prems(6) [of z] that outside_writes_same [OF h1(2)] by simp
  show ?case
  proof (cases "x \<in> set files")
    case True
    show ?thesis
      by (rule Cons.IH [OF h1(1) _ True _ _ others s'])
        (use Cons.prems h1(2) known_target_frame [OF fr] master in \<open>simp_all add: same_host_def\<close>)
  next
    case False
    then have y: "y = x" using Cons.prems(3) by simp
    have "delivered ?s addr (to_path p) content \<or> failure_recorded ?s t (dest_file t x)"
      by (rule push_one_result [OF Cons.prems(1,5,4,2)]) (simp add: y)
    then show ?thesis
    proof
      assume d: "delivered ?s addr (to_path p) content"
      have "delivered s' addr (to_path p) content"
        unfolding s' by (rule push_files_delivered [OF d]) (use others False h1(1) in auto)
      then show ?thesis ..
    next
      assume "failure_recorded ?s t (dest_file t x)"
      then have "failure_recorded s' t (dest_file t x)"
        unfolding s' by (rule failure_recorded_frame [OF push_files_frame])
      then show ?thesis ..
    qed
  qed
qed simp

lemma push_target_frame: "sync_frame s (push_target errText dial now absBase files t s)"
  by (auto simp: push_target_def push_files_frame split: option.splits)

lemma push_targets_frame: "sync_frame s (fold (push_target errText dial now absBase files) ts s)"
  by (induction ts arbitrary: s) (auto intro: sync_frame_trans push_target_frame)

lemma push_target_delivered:
  assumes "delivered s a q b"
    and "\<And>h x. GetAgentAddress (tAgentID u) (syServer s) = Some a \<Longrightarrow> map_get (syHosts s) a = Some h \<Longrightarrow>
      x \<in> set files \<Longrightarrow> outside_writes h u x q"
  shows "delivered (push_target errText dial now absBase files u s) a q b"
  using assms push_files_delivered [OF assms(1)] by (auto simp: push_target_def split: option.splits)

lemma GetAgentAddress_frame: "sync_frame s s' \<Longrightarrow> GetAgentAddress i (syServer s') = GetAgentAddress i (syServer s)"
  by (simp add: sync_frame_def GetAgentAddress_def)

lemma push_targets_delivered:
  assumes "delivered s a q b"
    and "\<And>u h x. u \<in> set ts \<Longrightarrow> GetAgentAddress (tAgentID u) (syServer s) = Some a \<Longrightarrow>
      map_get (syHosts s) a = Some h \<Longrightarrow> x \<in> set files \<Longrightarrow> outside_writes h u x q"
  shows "delivered (fold (push_target errText dial now absBase files) ts s) a q b"
  using assms
proof (induction ts arbitrary: s)
  case (Cons v ts)
  let ?s = "push_target errText dial now absBase files v s"
  note fr = push_target_frame [of s errText dial now absBase files v]
  obtain g where g: "map_get (syHosts s) a = Some g" using Cons.prems(1) by (auto simp: delivered_def)
  have d: "delivered ?s a q b" by (rule push_target_delivered) (use Cons.prems in auto)
  have o: "outside_writes h u x q"
    if "u \<in> set ts" "GetAgentAddress (tAgentID u) (syServer ?s) = Some a" "map_get (syHosts ?s) a = Some h"
      "x \<in> set files" for u h x
  proof -
    have "same_host g h" by (rule sync_frame_same_host [OF fr g that(3)])
    moreover have "outside_writes g u x q"
      by (rule Cons.prems(2) [OF _ _ g that(4)])
        (use that(1) in simp, rule trans [OF GetAgentAddress_frame [OF fr, symmetric] that(2)])
    ultimately show ?thesis using outside_writes_same by simp
  qed
  have "delivered (fold (push_target errText dial now absBase files) ts ?s) a q b"
    by (rule Cons.IH [OF d]) (rule o)
  then show ?case by simp
qed simp


text \<open>
  An agent that answers, and the folder \<open>q\<close> of its files that the path \<open>p\<close> of one of its
  instances names.
\<close>

definition reaches ::
  "(string \<Rightarrow> bool) \<Rightarrow> sync_server \<Rightarrow> string \<Rightarrow> string \<Rightarrow> string \<Rightarrow> string \<Rightarrow> agent_host \<Rightarrow> path \<Rightarrow> bool" where
  "reaches dial s i inst p addr h q \<longleftrightarrow>
     GetAgentAddress i (syServer s) = Some addr \<and> dial addr \<and> map_get (syHosts s) addr = Some h \<and>
     is_abs (ahCwd h) \<and> no_climb p \<and>
     (\<exists>def. map_get (ahDefs h) inst = Some def \<and> idWorkDir def \<noteq> '''' \<and> q = base_path (ahCwd h) def p)"

text \<open>No other target writes into the folder \<open>d\<close> of this agent.\<close>

definition undisturbed :: "sync_server \<Rightarrow> string \<Rightarrow> agent_host \<Rightarrow> SyncTarget \<Rightarrow> SyncTarget list \<Rightarrow> path \<Rightarrow> bool" where
  "undisturbed s addr h t ts d \<longleftrightarrow>
     (\<forall>u \<in> set ts. u \<noteq> t \<longrightarrow> GetAgentAddress (tAgentID u) (syServer s) \<noteq> Some addr \<or>
        (\<forall>x p. resolveInstancePath (ahCwd h) (ahDefs h) (tInstanceID u) (dest_file u x) = Inr p \<longrightarrow>
           \<not> below d (to_path p)))"

lemma push_targets_result:
  assumes t: "t \<in> set ts" and known: "known_target s t"
    and r: "reaches dial s (tAgentID t) (tInstanceID t) (tDestPath t) addr h d"
    and files: "\<And>x. x \<in> set files \<Longrightarrow> \<exists>rel. x = str_join ''/'' rel \<and> rel \<noteq> [] \<and> (\<forall>c \<in> set rel. proper_name c)"
    and rel: "str_join ''/'' rel \<in> set files" "rel \<noteq> []" "\<forall>c \<in> set rel. proper_name c"
    and content: "os_read_file (syMaster s) (to_path (fp_join [absBase, str_join ''/'' rel])) = Inr content"
    and und: "undisturbed s addr h t ts d"
    and s': "s' = fold (push_target errText dial now absBase files) ts s"
  shows "delivered s' addr (d @ rel) content \<or> failure_recorded s' t (dest_file t (str_join ''/'' rel))"
  using t known r content und s'
proof (induction ts arbitrary: s h)
  case (Cons v ts)
  let ?s = "push_target errText dial now absBase files v s"
  note fr = push_target_frame [of s errText dial now absBase files v]
  obtain def where def: "map_get (ahDefs h) (tInstanceID t) = Some def" "idWorkDir def \<noteq> ''''"
      "d = base_path (ahCwd h) def (tDestPath t)" and a: "GetAgentAddress (tAgentID t) (syServer s) = Some addr"
      "dial addr" "map_get (syHosts s) addr = Some h" "is_abs (ahCwd h)" "no_climb (tDestPath t)"
    using Cons.prems(3) by (auto simp: reaches_def)
  have pd: "\<forall>c \<in> set d. proper_name c" using base_path_proper [OF a(4,5)] def(3) by simp
  have res: "resolveInstancePath (ahCwd h) (ahDefs h) (tInstanceID t) (dest_file t (str_join ''/'' r)) =
      Inr (abs_text (d @ r))" if "r \<noteq> []" "\<forall>c \<in> set r. proper_name c" for r
    using resolve_under [OF a(4) def(1,2) a(5) that(2,1)] def(3) by (simp add: dest_file_def)
  obtain h1 where h1: "map_get (syHosts ?s) addr = Some h1" "same_host h h1"
    using sync_frame_hosts [OF fr a(3)] by blast
  have s': "s' = fold (push_target errText dial now absBase files) ts ?s" using Cons.prems(6) by simp
  have und: "undisturbed ?s addr h1 t ts d"
    using Cons.prems(5) h1(2) GetAgentAddress_frame [OF fr]
    unfolding undisturbed_def same_host_def by (metis list.set_intros(2))
  show ?case
  proof (cases "t \<in> set ts")
    case True
    have "reaches dial ?s (tAgentID t) (tInstanceID t) (tDestPath t) addr h1 d"
      using Cons.prems(3) h1 GetAgentAddress_frame [OF fr] unfolding reaches_def same_host_def by auto
    moreover have "syMaster ?s = syMaster s" using fr by (simp add: sync_frame_def)
    moreover have "known_target ?s t" using Cons.prems(2) known_target_frame [OF fr] by simp
    ultimately show ?thesis using Cons.IH [OF True _ _ _ und s'] Cons.prems(4) by simp
  next
    case False
    then have v: "v = t" using Cons.prems(1) by simp
    have fold: "?s = fold (push_one errText now absBase t addr) files s"
      using a(1,2) by (simp add: push_target_def v)
    have p: "to_path (abs_text (d @ rel)) = d @ rel" by (rule to_path_append [OF pd rel(3)])
    have own: "outside_writes h t y (d @ rel)" if y: "y \<in> set files" "y \<noteq> str_join ''/'' rel" for y
    proof -
      obtain ry where ry: "y = str_join ''/'' ry" "ry \<noteq> []" "\<forall>c \<in> set ry. proper_name c"
        using files [OF y(1)] by blast
      then show ?thesis
        using res [OF ry(2,3)] y(2) to_path_append [OF pd ry(3)] by (auto simp: outside_writes_def)
    qed
    have "delivered ?s addr (d @ rel) content \<or> failure_recorded ?s t (dest_file t (str_join ''/'' rel))"
      using push_files_result [OF a(3) Cons.prems(2) rel(1) Cons.prems(4) res [OF rel(2,3)] _ fold]
        own p by simp
    then show ?thesis
    proof
      assume dl: "delivered ?s addr (d @ rel) content"
      have "outside_writes g u x (d @ rel)"
        if u: "u \<in> set ts" "GetAgentAddress (tAgentID u) (syServer ?s) = Some addr"
          "map_get (syHosts ?s) addr = Some g" for u g x
      proof -
        have "u \<noteq> t" using u(1) False by auto
        have g: "h1 = g" using h1(1) u(3) by simp
        have "\<not> below d (to_path p)"
          if "resolveInstancePath (ahCwd g) (ahDefs g) (tInstanceID u) (dest_file u x) = Inr p" for p
          using und u(1,2) \<open>u \<noteq> t\<close> that unfolding undisturbed_def g by blast
        then show ?thesis using below_append unfolding outside_writes_def by metis
      qed
      then have "delivered s' addr (d @ rel) content"
        unfolding s' by (rule push_targets_delivered [OF dl])
      then show ?thesis ..
    next
      assume "failure_recorded ?s t (dest_file t (str_join ''/'' rel))"
      then have "failure_recorded s' t (dest_file t (str_join ''/'' rel))"
        unfolding s' by (rule failure_recorded_frame [OF push_targets_frame])
      then show ?thesis ..
    qed
  qed
qed simp

text \<open>The files of a folder of the master, pushed to a target.\<close>

lemma push_local_result:
  assumes cwd: "is_abs cwd" and ok: "fs_ok (syMaster s)" and dir: "fs_is_dir (syMaster s) (os_path cwd (mSrc m))"
    and t: "t \<in> set ts" "known_target s t"
    and r: "reaches dial s (tAgentID t) (tInstanceID t) (tDestPath t) addr h d"
    and und: "undisturbed s addr h t ts d"
  shows "\<exists>s'. pushLocalToTargets errText dial cwd now m ts s = Some s' \<and> sync_frame s s' \<and>
    (\<forall>rel \<in> files_below (syMaster s) (os_path cwd (mSrc m)). \<forall>content.
       os_read_file (syMaster s) (os_path cwd (mSrc m) @ rel) = Inr content \<longrightarrow>
       delivered s' addr (d @ rel) content \<or> failure_recorded s' t (dest_file t (str_join ''/'' rel)))"
proof -
  let ?C = "os_path cwd (mSrc m)"
  have base: "fp_abs cwd (mSrc m) = abs_text ?C"
    using fp_abs_abs_text [OF cwd] by (simp add: os_path_def to_path_def)
  have C: "\<forall>c \<in> set ?C. proper_name c" by (simp add: os_path_def to_path_proper)
  obtain files where f: "local_files (abs_text ?C) (syMaster s) = Some files" "enumerates (syMaster s) ?C [] files"
    using local_files_dir [OF ok C dir] by blast
  define s' where "s' = fold (push_target errText dial now (abs_text ?C) files) ts s"
  have "pushLocalToTargets errText dial cwd now m ts s = Some s'"
    by (simp add: pushLocalToTargets_def base f(1) s'_def)
  moreover have "sync_frame s s'" unfolding s'_def by (rule push_targets_frame)
  moreover have "delivered s' addr (d @ rel) content \<or> failure_recorded s' t (dest_file t (str_join ''/'' rel))"
    if rel: "rel \<in> files_below (syMaster s) ?C" and c: "os_read_file (syMaster s) (?C @ rel) = Inr content" for rel content
  proof -
    have ne: "rel \<noteq> []" using rel by (auto simp: files_below_def)
    have pr: "\<forall>c \<in> set rel. proper_name c" by (rule files_below_proper [OF ok rel])
    have mem: "str_join ''/'' rel \<in> set files" using f(2) rel by (auto simp: enumerates_def)
    have shape: "\<exists>rel. x = str_join ''/'' rel \<and> rel \<noteq> [] \<and> (\<forall>c \<in> set rel. proper_name c)" if "x \<in> set files" for x
      using f(2) that files_below_proper [OF ok] by (auto simp: enumerates_def)
    have "clean_comps True (abs_text ?C @ ''/'' @ str_join ''/'' rel) = ?C @ rel"
      using clean_comps_under_join [OF pr] C by simp
    then have "fp_join [abs_text ?C, str_join ''/'' rel] = abs_text (?C @ rel)"
      by (simp add: fp_join_two)
    then have "to_path (fp_join [abs_text ?C, str_join ''/'' rel]) = ?C @ rel"
      using to_path_append [OF C pr] by simp
    then show ?thesis
      using push_targets_result [OF t r shape mem ne pr _ und s'_def] c by simp
  qed
  ultimately show ?thesis by blast
qed


section \<open>The cache of an agent's folder\<close>

text \<open>What is in the cache \<open>C\<close> when the files \<open>done\<close> of the folder \<open>P\<close> have been copied into it.\<close>

definition cached :: "fs \<Rightarrow> path \<Rightarrow> fs \<Rightarrow> path \<Rightarrow> path set \<Rightarrow> bool" where
  "cached src P f C done \<longleftrightarrow>
     fs_ok f \<and> fs_is_dir f C \<and>
     (\<forall>r m b. fs_get f (C @ r) = Some (FileNode m b) \<longrightarrow> r \<in> done) \<and>
     (\<forall>r \<in> done. \<forall>b. os_read_file src (P @ r) = Inr b \<longrightarrow> os_read_file f (C @ r) = Inr (take maxReadFileSize b)) \<and>
     (\<forall>r. fs_is_dir f (C @ r) \<longrightarrow> r = [] \<or> (\<exists>x. x \<noteq> [] \<and> r @ x \<in> files_below src P))"

lemma cached_dirs:
  assumes c: "cached src P f C done" and sub: "done \<subseteq> files_below src P" and ok: "fs_ok src"
    and rel: "rel \<in> files_below src P" and q: "below q (C @ butlast rel)"
  shows "fs_get f q = None \<or> fs_is_dir f q"
proof (cases "below C q")
  case False
  then have b: "below q C" using q below_total [of q "C @ butlast rel" C] by auto
  have "fs_get f C \<noteq> None" using c by (auto simp: cached_def fs_is_dir_def split: option.splits)
  then show ?thesis
    using c b fs_ok_no_file_below [of f q C] by (auto simp: cached_def)
next
  case True
  then obtain r where r: "q = C @ r" by (auto simp: below_iff)
  have "fs_get f q \<noteq> Some (FileNode m b)" for m b
  proof
    assume "fs_get f q = Some (FileNode m b)"
    then have d: "r \<in> done" using c r by (auto simp: cached_def)
    obtain x where x: "butlast rel = r @ x" using q r by (auto simp: below_iff)
    have "rel = r @ x @ [last rel]"
      using x rel append_butlast_last_id [of rel] by (metis Nil_not_below append_assoc)
    then show False
      using files_prefix_free [OF ok, of r P "x @ [last rel]"] d sub rel by auto
  qed
  then show ?thesis by (auto simp: fs_is_dir_def split: option.splits fnode.splits)
qed

lemma cached_step:
  assumes c: "cached src P f C done" and sub: "done \<subseteq> files_below src P" and ok: "fs_ok src"
    and rel: "rel \<in> files_below src P" and b: "os_read_file src (P @ rel) = Inr b"
    and C: "\<forall>c \<in> set C. proper_name c"
  shows "\<exists>f1 f2. os_mkdir_all (C @ butlast rel) 493 f = Inr f1 \<and>
    os_write_file (C @ rel) (take maxReadFileSize b) 420 f1 = Inr f2 \<and> cached src P f2 C (insert rel done)"
proof -
  have ne: "rel \<noteq> []" using rel by auto
  have bl: "rel = butlast rel @ [last rel]" using ne by simp
  have pr: "\<forall>c \<in> set rel. proper_name c" by (rule files_below_proper [OF ok rel])
  obtain f1 where f1: "os_mkdir_all (C @ butlast rel) 493 f = Inr f1"
    using os_mkdir_all_total cached_dirs [OF c sub ok rel] by blast
  note mk = os_mkdir_all_spec [OF f1]
  have ok1: "fs_ok f1"
    by (rule os_mkdir_all_ok [OF f1]) (use c C pr in \<open>auto simp: cached_def dest: in_set_butlastD\<close>)
  have old: "fs_get f1 q = fs_get f q \<or> (\<exists>m. fs_get f1 q = Some (DirNode m)) \<and> below q (C @ butlast rel)" for q
    using mk(2) by blast
  have nodir: "\<not> fs_is_dir f1 (C @ rel)"
  proof
    assume "fs_is_dir f1 (C @ rel)"
    moreover have "\<not> below (C @ rel) (C @ butlast rel)"
      using ne below_length [of "C @ rel" "C @ butlast rel"] by (cases rel) auto
    ultimately have "fs_is_dir f (C @ rel)" using old [of "C @ rel"] by (simp add: fs_is_dir_def)
    then obtain x where "x \<noteq> []" "rel @ x \<in> files_below src P" using c ne by (auto simp: cached_def)
    then show False using files_prefix_free [OF ok rel] by blast
  qed
  have "butlast (C @ rel) = C @ butlast rel" using ne by (simp add: butlast_append)
  then obtain f2 where f2: "os_write_file (C @ rel) (take maxReadFileSize b) 420 f1 = Inr f2"
    using os_write_file_possible [of "C @ rel" f1] nodir mk(1) ne by auto
  have "fs_ok f2" by (rule os_write_file_ok [OF ok1 _ f2]) (use C pr in auto)
  moreover have dirs: "fs_is_dir f2 q = fs_is_dir f1 q" for q by (rule os_write_file_files [OF f2])
  moreover have "fs_is_dir f2 C"
    using c dirs os_mkdir_all_dirs [OF f1] by (simp add: cached_def)
  moreover have "r \<in> insert rel done" if "fs_get f2 (C @ r) = Some (FileNode m d)" for r m d
  proof (cases "r = rel")
    case False
    then have "fs_get f1 (C @ r) = Some (FileNode m d)" using that os_write_file_get(2) [OF f2] by simp
    then have "fs_get f (C @ r) = Some (FileNode m d)" using old [of "C @ r"] by auto
    then show ?thesis using c by (auto simp: cached_def)
  qed simp
  moreover have "os_read_file f2 (C @ r) = Inr (take maxReadFileSize d)"
    if r: "r \<in> insert rel done" "os_read_file src (P @ r) = Inr d" for r d
  proof (cases "r = rel")
    case True
    then show ?thesis using os_write_file_get(3) [OF f2] r(2) b by simp
  next
    case False
    then have "os_read_file f (C @ r) = Inr (take maxReadFileSize d)" using r c by (auto simp: cached_def)
    then obtain m where "fs_get f (C @ r) = Some (FileNode m (take maxReadFileSize d))"
      by (auto simp: os_read_file_iff)
    then have "fs_get f2 (C @ r) = Some (FileNode m (take maxReadFileSize d))"
      using mk(3) os_write_file_get(2) [OF f2, of "C @ r"] False by simp
    then show ?thesis by (simp add: os_read_file_iff)
  qed
  moreover have "r = [] \<or> (\<exists>x. x \<noteq> [] \<and> r @ x \<in> files_below src P)" if "fs_is_dir f2 (C @ r)" for r
  proof (cases "fs_is_dir f (C @ r)")
    case True
    then show ?thesis using c by (auto simp: cached_def)
  next
    case False
    then have "below (C @ r) (C @ butlast rel)" using that dirs old [of "C @ r"] by (auto simp: fs_is_dir_def)
    then obtain x where "butlast rel = r @ x" by (auto simp: below_iff)
    then have "r @ (x @ [last rel]) = rel" using bl by simp
    then show ?thesis using rel by (metis snoc_eq_iff_butlast)
  qed
  ultimately have "cached src P f2 C (insert rel done)" by (auto simp: cached_def)
  then show ?thesis using f1 f2 by blast
qed

lemma cache_path:
  assumes src: "target_ok src" and "\<forall>c \<in> set rel. proper_name c" "rel \<noteq> []"
  shows "os_path cwd (fp_join [src, str_join ''/'' rel]) = os_path cwd src @ rel"
    and "os_path cwd (fp_dir (fp_join [src, str_join ''/'' rel])) = os_path cwd src @ butlast rel"
proof -
  have pc: "\<forall>c \<in> set (comps src). proper_name c"
    using no_climb_proper [of src] src by (simp add: comps_def target_ok_def)
  have j: "fp_join [src, str_join ''/'' rel] = path_text (is_abs src) (comps src @ rel)"
    using fp_join_text [of src] clean_comps_under_join [OF assms(2)] src by (simp add: comps_def target_ok_def)
  have s: "os_path cwd src = os_base cwd (is_abs src) @ comps src" by (rule os_path_target [OF src])
  show "os_path cwd (fp_join [src, str_join ''/'' rel]) = os_path cwd src @ rel"
    using os_path_text [of "comps src @ rel" cwd "is_abs src"] pc assms(2) by (auto simp: j s)
  have "comps src @ rel = (comps src @ butlast rel) @ [last rel]" using assms(3) by simp
  then have "fp_dir (path_text (is_abs src) (comps src @ rel)) = path_text (is_abs src) (comps src @ butlast rel)"
    using fp_dir_text [of "comps src @ butlast rel" "last rel" "is_abs src"] pc assms(2,3)
    by (auto dest: in_set_butlastD)
  then show "os_path cwd (fp_dir (fp_join [src, str_join ''/'' rel])) = os_path cwd src @ butlast rel"
    using os_path_text [of "comps src @ butlast rel" cwd "is_abs src"] pc assms(2)
    by (auto simp: j s dest: in_set_butlastD)
qed


lemma cache_file_step:
  assumes h: "is_abs (ahCwd h)" "map_get (ahDefs h) (mSourceInstanceID m) = Some def" "idWorkDir def \<noteq> ''''"
      "no_climb (mSourcePath m)" "fs_ok (ahFs h)"
    and P: "P = base_path (ahCwd h) def (mSourcePath m)"
    and src: "target_ok (mSrc m)" and C: "C = os_path cwd (mSrc m)"
    and rel: "rel \<in> files_below (ahFs h) P" and sub: "done \<subseteq> files_below (ahFs h) P"
    and c: "cached (ahFs h) P f C done"
  shows "cached (ahFs h) P (cache_file cwd h m (str_join ''/'' rel) f) C (insert rel done)"
proof -
  have pr: "\<forall>c \<in> set rel. proper_name c" by (rule files_below_proper [OF h(5) rel])
  have ne: "rel \<noteq> []" using rel by auto
  obtain k b where b: "fs_get (ahFs h) (P @ rel) = Some (FileNode k b)" using rel by (auto simp: files_below_def)
  have Pp: "\<forall>c \<in> set P. proper_name c" using base_path_proper [OF h(1,4)] by (simp add: P)
  have res: "resolveInstancePath (ahCwd h) (ahDefs h) (mSourceInstanceID m) (read_path m (str_join ''/'' rel)) =
      Inr (abs_text (P @ rel))"
    using resolve_under [OF h(1-4) pr ne] by (simp add: read_path_def P)
  have read: "\<exists>resp. ReadFile (ahCwd h) (ahDefs h) (mSourceInstanceID m) (read_path m (str_join ''/'' rel)) (ahFs h) =
      Inr resp \<and> rrContent resp = take maxReadFileSize b"
    using b by (simp add: ReadFile_def res to_path_append [OF Pp pr] os_stat_def is_dir_node_def os_read_file_def)
  have Cp: "\<forall>c \<in> set C. proper_name c" by (simp add: C os_path_def to_path_proper)
  have "os_read_file (ahFs h) (P @ rel) = Inr b" using b by (simp add: os_read_file_def)
  from cached_step [OF c sub h(5) rel this Cp] obtain f1 f2 where f:
    "os_mkdir_all (C @ butlast rel) 493 f = Inr f1"
    "os_write_file (C @ rel) (take maxReadFileSize b) 420 f1 = Inr f2" "cached (ahFs h) P f2 C (insert rel done)"
    by blast
  have "cache_file cwd h m (str_join ''/'' rel) f = f2"
    using read f(1,2) cache_path [OF src pr ne, of cwd]
    by (auto simp: cache_file_def Let_def mkdir_ignore_def C)
  then show ?thesis using f(3) by simp
qed

lemma cache_files:
  assumes h: "is_abs (ahCwd h)" "map_get (ahDefs h) (mSourceInstanceID m) = Some def" "idWorkDir def \<noteq> ''''"
      "no_climb (mSourcePath m)" "fs_ok (ahFs h)"
    and P: "P = base_path (ahCwd h) def (mSourcePath m)"
    and src: "target_ok (mSrc m)" and C: "C = os_path cwd (mSrc m)"
    and files: "set files \<subseteq> str_join ''/'' ` files_below (ahFs h) P" and sub: "done \<subseteq> files_below (ahFs h) P"
    and c: "cached (ahFs h) P f C done"
  shows "\<exists>done'. done' \<subseteq> files_below (ahFs h) P \<and> done \<subseteq> done' \<and> set files \<subseteq> str_join ''/'' ` done' \<and>
    cached (ahFs h) P (fold (cache_file cwd h m) files f) C done'"
  using files sub c
proof (induction files arbitrary: f "done")
  case (Cons x files)
  obtain rel where rel: "rel \<in> files_below (ahFs h) P" "x = str_join ''/'' rel" using Cons.prems(1) by auto
  have "cached (ahFs h) P (cache_file cwd h m x f) C (insert rel done)"
    unfolding rel(2) by (rule cache_file_step [OF h P src C rel(1) Cons.prems(2,3)])
  from Cons.IH [OF _ _ this] obtain done' where d: "done' \<subseteq> files_below (ahFs h) P" "insert rel done \<subseteq> done'"
    "set files \<subseteq> str_join ''/'' ` done'" "cached (ahFs h) P (fold (cache_file cwd h m) files (cache_file cwd h m x f)) C done'"
    using Cons.prems(1,2) rel by auto
  then show ?case using rel(2) by (intro exI [of _ done']) auto
qed auto

lemma mkdir_fresh:
  assumes ok: "fs_ok f" and C: "\<forall>c \<in> set C. proper_name c"
    and way: "\<And>q. below q C \<Longrightarrow> fs_get f q = None \<or> fs_is_dir f q"
    and fresh: "\<And>r. r \<noteq> [] \<Longrightarrow> fs_get f (C @ r) = None"
  shows "cached src P (mkdir_ignore C f) C {}"
proof -
  obtain f1 where f1: "os_mkdir_all C 493 f = Inr f1" using os_mkdir_all_total way by blast
  have none: "fs_get f1 (C @ r) = None" if "r \<noteq> []" for r
    using os_mkdir_all_spec(2) [OF f1, of "C @ r"] fresh [OF that] that below_length [of "C @ r" C] by auto
  have dir: "fs_is_dir f1 C" by (rule os_mkdir_all_spec(1) [OF f1])
  have "fs_get f1 (C @ r) \<noteq> Some (FileNode m b)" for r m b
    using none [of r] dir by (cases "r = []") (auto simp: fs_is_dir_def)
  moreover have "r = []" if "fs_is_dir f1 (C @ r)" for r
    using none [of r] that by (cases "r = []") (auto simp: fs_is_dir_def)
  moreover have "fs_ok f1" by (rule os_mkdir_all_ok [OF f1 ok C])
  ultimately show ?thesis using dir f1 by (auto simp: cached_def mkdir_ignore_def)
qed


section \<open>Properties\<close>

text \<open>
  C26. The recursive collection is the set of files: for a readable folder of an instance it
  returns, with the fuel the job gives it, a list that names every file below the folder
  exactly once, by its path relative to the folder, and nothing else.
\<close>

theorem collect_is_file_set:
  assumes "is_abs (ahCwd h)" "fs_ok (ahFs h)" "no_climb basePath"
    and "map_get (ahDefs h) inst = Some def" "idWorkDir def \<noteq> ''''"
    and dir: "fs_is_dir (ahFs h) (base_path (ahCwd h) def basePath)"
  shows "\<exists>files. collectFilesRecursive (Suc (copy_fuel (ahFs h))) h inst basePath '''' = Some (Inr files) \<and>
    distinct files \<and>
    set files = str_join ''/'' ` files_below (ahFs h) (base_path (ahCwd h) def basePath)"
proof -
  let ?P = "base_path (ahCwd h) def basePath"
  obtain n where n: "copy_fuel (ahFs h) = Suc n" "depth_le (ahFs h) ?P n" using copy_fuel_depth by blast
  have "depth_le (ahFs h) ?P (Suc n)" using n(2) by (auto simp: depth_le_def)
  then show ?thesis
    using collect_from [OF assms(1,4,5,3,2), of "[]" "Suc n"] dir n(1) by (auto simp: enumerates_def)
qed

lemma collect_job:
  assumes "reaches dial s i inst p addr h P" "fs_ok (ahFs h)" "fs_is_dir (ahFs h) P"
  shows "\<exists>files def. collectFilesRecursive (Suc (copy_fuel (ahFs h))) h inst p '''' = Some (Inr files) \<and>
    set files = str_join ''/'' ` files_below (ahFs h) P \<and>
    map_get (ahDefs h) inst = Some def \<and> idWorkDir def \<noteq> '''' \<and> P = base_path (ahCwd h) def p"
proof -
  obtain def where def: "map_get (ahDefs h) inst = Some def" "idWorkDir def \<noteq> ''''"
    "P = base_path (ahCwd h) def p" and a: "is_abs (ahCwd h)" "no_climb p"
    using assms(1) by (auto simp: reaches_def)
  obtain n where n: "copy_fuel (ahFs h) = Suc n" "depth_le (ahFs h) P n" using copy_fuel_depth by blast
  have "depth_le (ahFs h) P (Suc n)" using n(2) by (auto simp: depth_le_def)
  then show ?thesis
    using collect_from [OF a(1) def(1,2) a(2) assms(2), of "[]" "Suc n"] assms(3) n(1) def
    by (auto simp: enumerates_def)
qed



definition demo_host :: agent_host where
  "demo_host = \<lparr>ahFs = example_fs, ahCwd = ''/srv'',
     ahDefs = (''mc'', example_instance ''mc'' ''survival2'') # example_defs\<rparr>"

definition demo_sync :: "fs \<Rightarrow> sync_server" where
  "demo_sync f =
     \<lparr>syServer = demo_server\<lparr>gsAgents := [(''n1'', \<lparr>caID = ''n1'', caName = ''alpha'', caAddress = ''a:1'',
          caLastSeen = 0, caStatus = ''online''\<rparr>)]\<rparr>,
      syWatcher = \<lparr>waDebounce = 500, waMappings = [], waSrcMap = [], waWatched = [], waPending = [], waEvents = []\<rparr>,
      syMaster = f, syHosts = [(''a:1'', demo_host)]\<rparr>"

definition demo_sync_form :: mapping_form where
  "demo_sync_form = \<lparr>mfName = ''m'', mfSrc = ''cache'', mfDest = ''.'', mfTargets = ''*'', mfExclude = '''',
     mfEnabled = True, mfSourceAgentID = ''n1'', mfSourceInstanceID = ''survival'', mfSourcePath = ''a''\<rparr>"

definition demo_target :: SyncTarget where
  "demo_target = form_target 1 \<lparr>tfAgentID = ''n1'', tfInstanceID = ''mc'', tfDestPath = ''.'', tfEnabled = True\<rparr>"

lemma demo_sync_paths:
  "base_path ''/srv'' (example_instance ''survival'' ''survival'') ''a'' = [''srv'', ''survival'', ''a'']"
  "base_path ''/srv'' (example_instance ''mc'' ''survival2'') ''.'' = [''srv'', ''survival2'']"
  "fs_ok example_fs" "no_climb ''a''" "no_climb ''.''" "is_abs ''/srv''" "is_abs ''/opt''" "target_ok ''cache''"
  "os_path ''/opt'' ''cache'' = [''opt'', ''cache'']" "fs_is_dir example_fs [''srv'', ''survival'', ''a'']"
  "os_path ''/opt'' '''' = [''opt'']"
  "idWorkDir (example_instance ''survival'' ''survival'') = ''survival''"
  "idWorkDir (example_instance ''mc'' ''survival2'') = ''survival2''"
  by code_simp+

lemma demo_sync_source:
  "reaches (\<lambda>_. True) (demo_sync f) ''n1'' ''survival'' ''a'' ''a:1'' demo_host [''srv'', ''survival'', ''a'']"
  using demo_sync_paths
  by (auto simp: reaches_def demo_sync_def demo_host_def GetAgentAddress_def map_get_def example_defs_def)

lemma demo_sync_target:
  "reaches (\<lambda>_. True) (demo_sync f) (tAgentID demo_target) (tInstanceID demo_target) (tDestPath demo_target)
     ''a:1'' demo_host [''srv'', ''survival2'']"
  "known_target (demo_sync f) demo_target"
  using demo_sync_paths
  by (auto simp: reaches_def demo_sync_def demo_host_def GetAgentAddress_def map_get_def example_defs_def
      demo_target_def form_target_def known_target_def demo_server_def NewGRPCServer_def
      demo_db_def instance_ids_def node_ids_def new_instance_def demo_instance_def new_node_def demo_node_def
      default_type_def)

theorem collect_is_file_set_witness:
  "\<exists>files. collectFilesRecursive (Suc (copy_fuel example_fs)) demo_host ''survival'' ''a'' '''' = Some (Inr files) \<and>
     ''x'' \<in> set files"
proof -
  have p: "ahCwd demo_host = ''/srv''" "ahFs demo_host = example_fs"
    "map_get (ahDefs demo_host) ''survival'' = Some (example_instance ''survival'' ''survival'')"
    by (simp_all add: demo_host_def example_defs_def map_get_def)
  have "[''x''] \<in> files_below example_fs [''srv'', ''survival'', ''a'']"
    by (simp add: files_below_def fs_get_def map_get_def example_fs_def)
  moreover have "''x'' = str_join ''/'' [''x'']" by simp
  ultimately have "''x'' \<in> str_join ''/'' ` files_below example_fs [''srv'', ''survival'', ''a'']" by blast
  then show ?thesis
    using collect_is_file_set [of demo_host "''a''" "''survival''" "example_instance ''survival'' ''survival''"]
      demo_sync_paths p by auto
qed



lemma load_mapping_frame:
  assumes "load_mapping cwd im (w, f) = (w', f')" "fs_ok f"
  shows "fs_ok f' \<and> (\<forall>q n. fs_get f q = Some n \<longrightarrow> fs_get f' q = Some n)"
proof -
  obtain i m where im: "im = (i, m)" by (cases im)
  show ?thesis
  proof (cases "os_mkdir_all (to_path (fp_abs cwd (smSrc m))) 493 f")
    case (Inl e)
    then show ?thesis using assms by (simp add: im Let_def)
  next
    case (Inr f1)
    then show ?thesis
      using assms os_mkdir_all_ok [OF Inr] os_mkdir_all_spec(3) [OF Inr] to_path_proper by (auto simp: im Let_def)
  qed
qed

lemma fold_load_frame:
  assumes "fold (load_mapping cwd) ims (w, f) = (w', f')" "fs_ok f"
  shows "fs_ok f' \<and> (\<forall>q n. fs_get f q = Some n \<longrightarrow> fs_get f' q = Some n)"
  using assms
proof (induction ims arbitrary: w f)
  case (Cons im ims)
  obtain w1 f1 where l: "load_mapping cwd im (w, f) = (w1, f1)" by (cases "load_mapping cwd im (w, f)")
  have "fold (load_mapping cwd) ims (w1, f1) = (w', f')" using Cons.prems(1) l by simp
  then show ?case using Cons.IH load_mapping_frame [OF l Cons.prems(2)] by simp
qed simp

lemma reload_frame:
  assumes "fs_ok (syMaster s)"
  shows "fs_ok (syMaster (reloadWatcherMappings cwd s))"
    "fs_get (syMaster s) q = Some n \<Longrightarrow> fs_get (syMaster (reloadWatcherMappings cwd s)) q = Some n"
    "syServer (reloadWatcherMappings cwd s) = syServer s" "syHosts (reloadWatcherMappings cwd s) = syHosts s"
proof -
  let ?ms = "map mapping_cfg (filter (\<lambda>m. \<not> IsAgentSource m) (ListEnabledSyncMappings (syDB s)))"
  obtain w f where l: "LoadMappings cwd ?ms (syWatcher s) (syMaster s) = (w, f)"
    by (cases "LoadMappings cwd ?ms (syWatcher s) (syMaster s)")
  have r: "reloadWatcherMappings cwd s = s\<lparr>syWatcher := w, syMaster := f\<rparr>"
    using l by (simp add: reloadWatcherMappings_def)
  have "fs_ok f \<and> (\<forall>q n. fs_get (syMaster s) q = Some n \<longrightarrow> fs_get f q = Some n)"
    by (rule fold_load_frame [OF l [unfolded LoadMappings_def] assms])
  then show "fs_ok (syMaster (reloadWatcherMappings cwd s))"
    "fs_get (syMaster s) q = Some n \<Longrightarrow> fs_get (syMaster (reloadWatcherMappings cwd s)) q = Some n"
    "syServer (reloadWatcherMappings cwd s) = syServer s" "syHosts (reloadWatcherMappings cwd s) = syHosts s"
    by (simp_all add: r)
qed

lemma audit_keeps_folders [simp]:
  "sync_mappings (audit now uc a b c d e x y z db) = sync_mappings db"
  "instance_ids (audit now uc a b c d e x y z db) = instance_ids db"
  "node_ids (audit now uc a b c d e x y z db) = node_ids db"
  by (simp_all add: audit_def CreateAuditLog_def instance_ids_def node_ids_def)

lemma form_mapping_id: "mID (form_mapping i r) = i"
  by (simp add: form_mapping_def)

lemma update_mapping_get:
  assumes "GetSyncMapping i d = Inr m0"
  shows "GetSyncMapping i (UpdateSyncMapping now (form_mapping i r) d) =
    Inr ((form_mapping i r)\<lparr>mCreatedAt := mCreatedAt m0, mUpdatedAt := current_timestamp now\<rparr>)"
proof -
  have "find (\<lambda>m. mID m = i) (map (\<lambda>r'. if mID r' = i then (form_mapping i r)\<lparr>mID := mID r',
        mCreatedAt := mCreatedAt r', mUpdatedAt := current_timestamp now\<rparr> else r') rows) =
      Some ((form_mapping i r)\<lparr>mCreatedAt := mCreatedAt m0, mUpdatedAt := current_timestamp now\<rparr>)"
    if "find (\<lambda>m. mID m = i) rows = Some m0" for rows
    using that by (induction rows) (auto simp: form_mapping_def split: if_splits)
  then show ?thesis
    using assms
    by (simp add: GetSyncMapping_def UpdateSyncMapping_def auto_update_def row_update_def query_row_Inr_iff_find
        form_mapping_id)
qed

text \<open>
  A mapping can lose its source. Creating a mapping without a source folder is refused,
  but an update that leaves it empty is accepted and stored; the folder it then names is the
  working directory of the master itself, and running the mapping copies every file found
  there, the database included, to the target, unless that transfer fails.
\<close>

theorem empty_source_hands_out_master:
  fixes uc :: user_context and now now' :: instant
  assumes form: "mfSrc r = ''''" "mfSourceAgentID r = '''' \<or> mfSourceInstanceID r = ''''"
    and stored: "atoi idStr = Some i" "GetSyncMapping i (syDB s) = Inr m0"
    and master: "is_abs cwd" "fs_ok (syMaster s)" "fs_is_dir (syMaster s) (to_path cwd)"
    and target: "t \<in> set ts" "known_target s t"
      "reaches dial s (tAgentID t) (tInstanceID t) (tDestPath t) addr h d" "undisturbed s addr h t ts d"
  defines "s1 \<equiv> fst (apiUpdateSyncMapping cwd now idStr (Some r) uc s)"
  shows "(\<exists>msg. snd (apiCreateSyncMapping cwd now (Some r) uc s) = Json 400 msg) \<and>
    snd (apiUpdateSyncMapping cwd now idStr (Some r) uc s) = Json 200 '''' \<and>
    (\<exists>m s'. GetSyncMapping i (syDB s1) = Inr m \<and> mSrc m = '''' \<and>
       executeSyncJob errText dial cwd now' (m, ts) s1 = Some s' \<and>
       (\<forall>rel content. rel \<noteq> [] \<longrightarrow> os_read_file (syMaster s) (to_path cwd @ rel) = Inr content \<longrightarrow>
          delivered s' addr (d @ rel) content \<or> failure_recorded s' t (dest_file t (str_join ''/'' rel))))"
proof (intro conjI)
  show "\<exists>msg. snd (apiCreateSyncMapping cwd now (Some r) uc s) = Json 400 msg"
    using form by (auto simp: apiCreateSyncMapping_def)
  define s0 where "s0 = set_db (UpdateSyncMapping now (form_mapping i r) (syDB s)) s"
  define s2 where "s2 = reloadWatcherMappings cwd s0"
  have u: "apiUpdateSyncMapping cwd now idStr (Some r) uc s =
      (set_db (audit now uc ''update'' ''sync'' (itoa i) (mfName r) '''' '''' ''''
         (''sync mapping modify: '' @ mfName r) (syDB s2)) s2, Json 200 '''')"
    using stored(1) by (simp add: apiUpdateSyncMapping_def s2_def s0_def Let_def)
  show "snd (apiUpdateSyncMapping cwd now idStr (Some r) uc s) = Json 200 ''''" by (simp add: u)
  have s0: "syMaster s0 = syMaster s" "syHosts s0 = syHosts s" "gsAgents (syServer s0) = gsAgents (syServer s)"
    by (simp_all add: s0_def set_db_def)
  note fr = reload_frame [OF master(2) [folded s0(1)], where cwd = cwd, folded s2_def]
  have s1: "s1 = set_db (audit now uc ''update'' ''sync'' (itoa i) (mfName r) '''' '''' ''''
         (''sync mapping modify: '' @ mfName r) (syDB s2)) s2"
    by (simp add: s1_def u)
  let ?m = "(form_mapping i r)\<lparr>mCreatedAt := mCreatedAt m0, mUpdatedAt := current_timestamp now\<rparr>"
  have m: "mSrc ?m = ''''" "\<not> IsAgentSource ?m" using form by (simp_all add: form_mapping_def IsAgentSource_def)
  have get: "GetSyncMapping i (syDB s1) = Inr ?m"
    using update_mapping_get [OF stored(2)] fr(3) by (simp add: s1 set_db_def GetSyncMapping_def s0_def)
  have C: "os_path cwd (mSrc ?m) = to_path cwd"
    by (simp only: m(1)) (simp add: os_path_def to_path_def is_abs_def has_prefix_def)
  have master1: "syMaster s1 = syMaster s2" by (simp add: s1 set_db_def)
  have dir: "fs_is_dir (syMaster s1) (os_path cwd (mSrc ?m))"
    using master(3) fr(2) s0(1) unfolding master1 C by (auto simp: fs_is_dir_def split: option.splits)
  have "\<exists>s'. pushLocalToTargets errText dial cwd now' ?m ts s1 = Some s' \<and> sync_frame s1 s' \<and>
    (\<forall>rel \<in> files_below (syMaster s1) (os_path cwd (mSrc ?m)). \<forall>content.
       os_read_file (syMaster s1) (os_path cwd (mSrc ?m) @ rel) = Inr content \<longrightarrow>
       delivered s' addr (d @ rel) content \<or> failure_recorded s' t (dest_file t (str_join ''/'' rel)))"
    by (rule push_local_result [OF master(1) _ dir target(1)])
      (use target fr s0 in \<open>auto simp: s1 set_db_def known_target_def reaches_def undisturbed_def s0_def
         UpdateSyncMapping_def instance_ids_def node_ids_def GetAgentAddress_def audit_def CreateAuditLog_def\<close>)
  then obtain s' where s': "pushLocalToTargets errText dial cwd now' ?m ts s1 = Some s'"
    "\<And>rel content. rel \<in> files_below (syMaster s1) (to_path cwd) \<Longrightarrow>
       os_read_file (syMaster s1) (to_path cwd @ rel) = Inr content \<Longrightarrow>
       delivered s' addr (d @ rel) content \<or> failure_recorded s' t (dest_file t (str_join ''/'' rel))"
    unfolding C by blast
  have "executeSyncJob errText dial cwd now' (?m, ts) s1 = Some s'"
    using m(2) s'(1) by (simp add: executeSyncJob_def)
  moreover have "delivered s' addr (d @ rel) content \<or> failure_recorded s' t (dest_file t (str_join ''/'' rel))"
    if ne: "rel \<noteq> []" and rd: "os_read_file (syMaster s) (to_path cwd @ rel) = Inr content" for rel content
  proof -
    obtain k where "fs_get (syMaster s1) (to_path cwd @ rel) = Some (FileNode k content)"
      using rd fr(2) unfolding master1 s0(1) os_read_file_iff by blast
    then show ?thesis using s'(2) ne by (auto simp: files_below_def os_read_file_iff)
  qed
  ultimately show "\<exists>m s'. GetSyncMapping i (syDB s1) = Inr m \<and> mSrc m = '''' \<and>
       executeSyncJob errText dial cwd now' (m, ts) s1 = Some s' \<and>
       (\<forall>rel content. rel \<noteq> [] \<longrightarrow> os_read_file (syMaster s) (to_path cwd @ rel) = Inr content \<longrightarrow>
          delivered s' addr (d @ rel) content \<or> failure_recorded s' t (dest_file t (str_join ''/'' rel)))"
    using get m(1) by blast
qed


definition demo_mapped :: sync_server where
  "demo_mapped =
     set_db ((syDB (demo_sync []))\<lparr>sync_mappings := \<lparr>at_seq = 1, at_rows = [form_mapping 1 demo_sync_form]\<rparr>\<rparr>)
       (demo_sync [([''opt''], DirNode 493), ([''opt'', ''craftstack.db''], FileNode 420 [9])])"

theorem empty_source_hands_out_master_witness:
  "\<exists>m s'. GetSyncMapping 1 (syDB (fst (apiUpdateSyncMapping ''/opt'' 0 ''1''
        (Some (demo_sync_form\<lparr>mfSrc := '''', mfSourceAgentID := ''''\<rparr>)) no_user demo_mapped))) = Inr m \<and>
     executeSyncJob (\<lambda>_. '''') (\<lambda>_. True) ''/opt'' 0 (m, [demo_target]) (fst (apiUpdateSyncMapping ''/opt'' 0 ''1''
        (Some (demo_sync_form\<lparr>mfSrc := '''', mfSourceAgentID := ''''\<rparr>)) no_user demo_mapped)) = Some s' \<and>
     (delivered s' ''a:1'' [''srv'', ''survival2'', ''craftstack.db''] [9] \<or>
      failure_recorded s' demo_target ''craftstack.db'')"
proof -
  let ?r = "demo_sync_form\<lparr>mfSrc := '''', mfSourceAgentID := ''''\<rparr>"
  have r: "mfSrc ?r = ''''" "mfSourceAgentID ?r = '''' \<or> mfSourceInstanceID ?r = ''''" by simp_all
  have i: "atoi ''1'' = Some 1" by code_simp
  have get: "GetSyncMapping 1 (syDB demo_mapped) = Inr (form_mapping 1 demo_sync_form)"
    by (simp add: demo_mapped_def set_db_def GetSyncMapping_def query_row_def form_mapping_id)
  have fs: "fs_ok (syMaster demo_mapped)" "fs_is_dir (syMaster demo_mapped) (to_path ''/opt'')"
    "os_read_file (syMaster demo_mapped) (to_path ''/opt'' @ [''craftstack.db'']) = Inr [9]"
    by (simp add: demo_mapped_def set_db_def demo_sync_def, code_simp)+
  have t: "known_target demo_mapped demo_target"
    "reaches (\<lambda>_. True) demo_mapped (tAgentID demo_target) (tInstanceID demo_target) (tDestPath demo_target)
       ''a:1'' demo_host [''srv'', ''survival2'']"
    using demo_sync_target [of "[]"]
    by (simp_all add: demo_mapped_def set_db_def demo_sync_def known_target_def reaches_def instance_ids_def
        node_ids_def GetAgentAddress_def)
  have "undisturbed demo_mapped ''a:1'' demo_host demo_target [demo_target] [''srv'', ''survival2'']"
    by (simp add: undisturbed_def)
  from empty_source_hands_out_master [OF r i get demo_sync_paths(7) fs(1,2) _ t this,
      of 0 no_user "\<lambda>_. ''''" 0] fs(3)
  have "\<exists>m s'. GetSyncMapping 1 (syDB (fst (apiUpdateSyncMapping ''/opt'' 0 ''1'' (Some ?r) no_user demo_mapped))) = Inr m \<and>
     executeSyncJob (\<lambda>_. '''') (\<lambda>_. True) ''/opt'' 0 (m, [demo_target])
       (fst (apiUpdateSyncMapping ''/opt'' 0 ''1'' (Some ?r) no_user demo_mapped)) = Some s' \<and>
     (delivered s' ''a:1'' ([''srv'', ''survival2''] @ [''craftstack.db'']) [9] \<or>
      failure_recorded s' demo_target (dest_file demo_target (str_join ''/'' [''craftstack.db''])))"
    by (metis list.set_intros(1) not_Cons_self2)
  moreover have "dest_file demo_target (str_join ''/'' [''craftstack.db'']) = ''craftstack.db''"
    by (simp add: dest_file_def under_def demo_target_def form_target_def)
  ultimately show ?thesis by simp
qed

section \<open>The explorer stays in the source folder\<close>

lemma resolve_sync_no_climb:
  assumes "is_abs cwd" "no_climb rel"
  shows "resolveSyncPath cwd src rel = Some (abs_text (os_path cwd src @ clean_comps (is_abs rel) rel))"
    and "\<forall>c \<in> set (os_path cwd src @ clean_comps (is_abs rel) rel). proper_name c"
proof -
  let ?C = "os_path cwd src"
  have C: "\<forall>c \<in> set ?C. proper_name c" by (simp add: os_path_def to_path_proper)
  have base: "fp_abs cwd src = abs_text ?C"
    using fp_abs_abs_text [OF assms(1)] by (simp add: os_path_def to_path_def)
  show p: "\<forall>c \<in> set (?C @ clean_comps (is_abs rel) rel). proper_name c"
    using C no_climb_proper [OF assms(2)] by auto
  show "resolveSyncPath cwd src rel = Some (abs_text (?C @ clean_comps (is_abs rel) rel))"
  proof (cases "rel = '''' \<or> rel = ''.''")
    case True
    then have "clean_comps (is_abs rel) rel = []" using clean_comps_dot by auto
    then show ?thesis using True base by (auto simp: resolveSyncPath_def)
  next
    case False
    then show ?thesis
      using fp_join_work [OF C assms(2)] fp_clean_abs_text [OF p] abs_text_prefix fp_abs_def [of cwd "abs_text _"]
      by (simp add: resolveSyncPath_def base)
  qed
qed

datatype explorer_request =
    ExpWrite write_form | ExpDelete "string \<times> bool" | ExpMkdir string | ExpUpload string "string \<times> bytes"
  | ExpList string

fun explore :: "string \<Rightarrow> string \<Rightarrow> explorer_request \<Rightarrow> sync_server \<Rightarrow> sync_server" where
  "explore cwd i (ExpWrite r) s = fst (apiWriteSyncFile cwd i (Some r) s)"
| "explore cwd i (ExpDelete b) s = fst (apiDeleteSyncFile cwd i (Some b) s)"
| "explore cwd i (ExpMkdir p) s = fst (apiCreateSyncDir cwd i (Some p) s)"
| "explore cwd i (ExpUpload p f) s = fst (apiUploadSyncFile cwd i p (Some f) s)"
| "explore cwd i (ExpList p) s = fst (apiListSyncFiles cwd i p s)"

fun explorer_path :: "explorer_request \<Rightarrow> string" where
  "explorer_path (ExpWrite r) = wfPath r"
| "explorer_path (ExpDelete b) = fst b"
| "explorer_path (ExpMkdir p) = p"
| "explorer_path (ExpUpload p f) = (if p \<noteq> '''' \<and> p \<noteq> ''.'' then p @ ''/'' @ fst f else fst f)"
| "explorer_path (ExpList p) = p"


lemma mkdir_ignore_region:
  assumes "region_ok R f" "fs_ok f" "R p" "proper_path p" "below q p"
  shows "same_outside R f (mkdir_ignore q f) \<and> fs_ok (mkdir_ignore q f)"
  using mkdir_region [OF _ assms(1,3,4,5,2), of 493] assms(2)
  by (cases "os_mkdir_all q 493 f") (auto simp: mkdir_ignore_def)

lemma write_path_region:
  assumes "same_outside R f g \<and> fs_ok g" "R p" "proper_path p" "os_write_file p b m g = Inr f'"
  shows "same_outside R f f' \<and> fs_ok f'"
  using assms os_write_file_outside [where R = R, OF assms(4,2)] os_write_file_ok [OF _ _ assms(4)]
  by (auto simp: proper_path_def intro: same_outside_trans)




end
