(* ===== verification/Host_Commands.thy ===== *)
theory Host_Commands
  imports Go_Strings File_System
begin

text \<open>
  Programs the agent runs on its host (package \<^verbatim>\<open>os/exec\<close>): docker, docker-compose, git, wg.
  They are not part of the repository; running one is the parameter \<open>enExec\<close>, which answers a
  command line with what the program prints and whether it succeeded, and changes the host. A
  host is its files and a state \<open>'w\<close> of the programs (containers, networks, interfaces) of
  which the agent knows nothing but the answers. A command that is cut off by its deadline has
  failed. The other parameters of the agent's environment stand beside it.
\<close>

record command =
  cmProgram :: string
  cmDir :: string
  cmEnv :: "string list"
  cmArgs :: "string list"
  cmStdin :: string

record cmd_result =
  crStdout :: string
  crCombined :: string
  crOk :: bool

type_synonym 'w host = "fs \<times> 'w"

type_synonym 'w exec = "command \<Rightarrow> 'w host \<Rightarrow> cmd_result \<times> 'w host"

text \<open>
  \<open>enLookPath\<close> is \<^verbatim>\<open>exec.LookPath\<close>, \<open>enCwd\<close> the agent's working directory, and
  \<open>enExitSeen c h\<close> says whether the goroutine that waits for container \<open>c\<close> has seen its end
  within the 35 seconds that \<^verbatim>\<open>Stop\<close> gives it.
\<close>

record 'w env =
  enExec :: "'w exec"
  enLookPath :: "string \<Rightarrow> string option"
  enCwd :: string
  enExitSeen :: "string \<Rightarrow> 'w host \<Rightarrow> bool"

definition plain_command :: "string \<Rightarrow> string list \<Rightarrow> command" where
  "plain_command prog args = \<lparr>cmProgram = prog, cmDir = '''', cmEnv = [], cmArgs = args, cmStdin = ''''\<rparr>"

text \<open>\<^verbatim>\<open>CombinedOutput\<close>: what the command prints on both streams.\<close>

definition combined_output :: "'w env \<Rightarrow> command \<Rightarrow> 'w host \<Rightarrow> (string \<times> bool) \<times> 'w host" where
  "combined_output en c h = (let (r, h1) = enExec en c h in ((crCombined r, crOk r), h1))"

text \<open>\<^verbatim>\<open>Output\<close>: the standard output only.\<close>

definition std_output :: "'w env \<Rightarrow> command \<Rightarrow> 'w host \<Rightarrow> (string \<times> bool) \<times> 'w host" where
  "std_output en c h = (let (r, h1) = enExec en c h in ((crStdout r, crOk r), h1))"

text \<open>The bytes of a text, \<^verbatim>\<open>[]byte(s)\<close>.\<close>

definition string_bytes :: "string \<Rightarrow> bytes" where
  "string_bytes s = map of_char s"

text \<open>Programs that leave alone what lies outside a region of the files.\<close>

definition keeps_files :: "'w env \<Rightarrow> (path \<Rightarrow> bool) \<Rightarrow> bool" where
  "keeps_files en R \<longleftrightarrow>
     (\<forall>c h. fs_ok (fst h) \<longrightarrow>
        fs_ok (fst (snd (enExec en c h))) \<and> same_outside R (fst h) (fst (snd (enExec en c h))))"

lemma combined_output_host [simp]: "snd (combined_output en c h) = snd (enExec en c h)"
  by (simp add: combined_output_def split: prod.splits)

lemma std_output_host [simp]: "snd (std_output en c h) = snd (enExec en c h)"
  by (simp add: std_output_def split: prod.splits)

lemma keeps_filesD:
  assumes "keeps_files en R" "fs_ok (fst h)"
  shows "fs_ok (fst (snd (enExec en c h)))" "same_outside R (fst h) (fst (snd (enExec en c h)))"
  using assms unfolding keeps_files_def by blast+

end
