(* ===== verification/Docker_Config.thy ===== *)
theory Docker_Config
  imports Config Go_Paths
begin

text \<open>
  What a container is made from (\<^verbatim>\<open>internal/agent/docker/images.go\<close>): the image of each type
  of service, the configuration built from an instance's settings, and the command line of
  \<^verbatim>\<open>docker create\<close> (\<^verbatim>\<open>manager.go\<close>, \<^verbatim>\<open>CreateContainer\<close>); and the memory limit derived from the
  heap size (\<^verbatim>\<open>internal/agent/util.go\<close>). Go maps are association lists, see \<open>Go_Prelude\<close>.
\<close>

section \<open>Evaluating decimal numbers\<close>

text \<open>The digits of an integer by integer arithmetic, which the simplifier computes fast.\<close>

function int_digits :: "int \<Rightarrow> string" where
  "int_digits i =
     (if i < 10 then [''0123456789'' ! nat i] else int_digits (i div 10) @ [''0123456789'' ! nat (i mod 10)])"
  by pat_completeness auto
termination by (relation "measure nat") auto

declare int_digits.simps [simp del]

lemma digit_char_nth:
  assumes "d < 10"
  shows "digit_char d = ''0123456789'' ! d"
proof -
  have "\<forall>d \<in> set [0..<10]. digit_char d = ''0123456789'' ! d" by code_simp
  then show ?thesis using assms by simp
qed

lemma int_digits_nat: "int_digits (int n) = nat_digits n"
proof (induction n rule: nat_digits.induct)
  case (1 n)
  show ?case
  proof (cases "n < 10")
    case True
    then show ?thesis by (simp add: int_digits.simps nat_digits.simps digit_char_nth)
  next
    case False
    have d: "int n div 10 = int (n div 10)" "nat (int n mod 10) = n mod 10"
      by (simp_all add: zdiv_int nat_mod_as_int)
    have "int_digits (int n) = int_digits (int (n div 10)) @ [''0123456789'' ! (n mod 10)]"
      using False by (subst int_digits.simps) (simp only: d, simp)
    then show ?thesis using False 1 by (simp add: nat_digits.simps [of n] digit_char_nth)
  qed
qed

lemma itoa_code [code]: "itoa i = (if i < 0 then CHR ''-'' # int_digits (- i) else int_digits i)"
proof (cases "i < 0")
  case True
  then show ?thesis using int_digits_nat [of "nat (- i)"] by (simp add: itoa_def)
next
  case False
  then show ?thesis using int_digits_nat [of "nat i"] by (simp add: itoa_def)
qed

section \<open>Images\<close>

record ServiceImageConfig =
  siImage :: string
  siDefaultPort :: int
  siDataDir :: string
  siConfigDir :: string
  siEnv :: "(string, string) gomap"
  siCmd :: "string list"
  siStopSignal :: bool
  siStopCommand :: "string list"
  siHealthCheck :: "string list"
  siReadyLogMatch :: string

definition DefaultImages :: "(string, ServiceImageConfig) gomap" where
  "DefaultImages =
     [(''minecraft'',
       \<lparr>siImage = ''eclipse-temurin:21-jre'', siDefaultPort = 25565, siDataDir = ''/server'', siConfigDir = '''',
        siEnv = [(''JAVA_TOOL_OPTIONS'', ''-Xms512M -Xmx1024M'')],
        siCmd = [''java'', ''-jar'', ''server.jar'', ''nogui''], siStopSignal = False, siStopCommand = [],
        siHealthCheck = [], siReadyLogMatch = ''Done''\<rparr>),
      (''mysql'',
       \<lparr>siImage = ''mysql:8.0'', siDefaultPort = 3306, siDataDir = ''/var/lib/mysql'',
        siConfigDir = ''/etc/mysql/conf.d'', siEnv = [(''MYSQL_ROOT_PASSWORD'', ''craftstack'')], siCmd = [],
        siStopSignal = True, siStopCommand = [], siHealthCheck = [], siReadyLogMatch = ''ready for connections''\<rparr>),
      (''postgresql'',
       \<lparr>siImage = ''postgres:16'', siDefaultPort = 5432, siDataDir = ''/var/lib/postgresql/data'',
        siConfigDir = '''', siEnv = [(''POSTGRES_PASSWORD'', ''craftstack'')], siCmd = [], siStopSignal = True,
        siStopCommand = [], siHealthCheck = [], siReadyLogMatch = ''ready to accept connections''\<rparr>),
      (''mongodb'',
       \<lparr>siImage = ''mongo:7'', siDefaultPort = 27017, siDataDir = ''/data/db'', siConfigDir = '''', siEnv = [],
        siCmd = [], siStopSignal = True, siStopCommand = [], siHealthCheck = [], siReadyLogMatch = ''''\<rparr>),
      (''redis'',
       \<lparr>siImage = ''redis:7'', siDefaultPort = 6379, siDataDir = ''/data'', siConfigDir = '''', siEnv = [],
        siCmd = [], siStopSignal = True, siStopCommand = [], siHealthCheck = [], siReadyLogMatch = ''''\<rparr>),
      (''kafka'',
       \<lparr>siImage = ''apache/kafka:3.7.0'', siDefaultPort = 9092, siDataDir = ''/var/lib/kafka/data'',
        siConfigDir = '''',
        siEnv =
          [(''KAFKA_NODE_ID'', ''1''), (''KAFKA_PROCESS_ROLES'', ''broker,controller''),
           (''KAFKA_LISTENERS'', ''PLAINTEXT://:9092,CONTROLLER://:9093''),
           (''KAFKA_CONTROLLER_QUORUM_VOTERS'', ''1@localhost:9093''),
           (''KAFKA_CONTROLLER_LISTENER_NAMES'', ''CONTROLLER''),
           (''KAFKA_INTER_BROKER_LISTENER_NAME'', ''PLAINTEXT''),
           (''KAFKA_OFFSETS_TOPIC_REPLICATION_FACTOR'', ''1''),
           (''KAFKA_TRANSACTION_STATE_LOG_REPLICATION_FACTOR'', ''1''),
           (''KAFKA_TRANSACTION_STATE_LOG_MIN_ISR'', ''1''),
           (''KAFKA_LOG_DIRS'', ''/var/lib/kafka/data''),
           (''CLUSTER_ID'', ''MkU3OEVBNTcwNTJENDM2Qk'')],
        siCmd = [], siStopSignal = True, siStopCommand = [], siHealthCheck = [], siReadyLogMatch = ''''\<rparr>)]"

definition JavaVersionImages :: "(string, string) gomap" where
  "JavaVersionImages =
     [(''17'', ''eclipse-temurin:17-jre''), (''21'', ''eclipse-temurin:21-jre''), (''25'', ''eclipse-temurin:25-jre'')]"

definition ValidJavaVersions :: "string list" where
  "ValidJavaVersions = [''17'', ''21'', ''25'']"

text \<open>The name of an image up to its last colon, the whole name if it has none.\<close>

definition image_base :: "string \<Rightarrow> string" where
  "image_base img = (case last_index CHR '':'' img of None \<Rightarrow> img | Some i \<Rightarrow> take i img)"

definition GetImageConfig :: "string \<Rightarrow> string \<Rightarrow> string \<Rightarrow> ServiceImageConfig option" where
  "GetImageConfig serviceType version javaVersion =
     (case map_get DefaultImages serviceType of
        None \<Rightarrow> None
      | Some cfg \<Rightarrow>
          let cfg1 = (if serviceType = ''minecraft'' \<and> javaVersion \<noteq> ''''
                      then (case map_get JavaVersionImages javaVersion of
                              None \<Rightarrow> cfg | Some img \<Rightarrow> cfg\<lparr>siImage := img\<rparr>)
                      else cfg)
          in Some (if version \<noteq> '''' \<and> serviceType \<noteq> ''minecraft''
                   then cfg1\<lparr>siImage := image_base (siImage cfg1) @ '':'' @ version\<rparr> else cfg1))"

section \<open>The configuration of a container\<close>

record ContainerConfig =
  ccName :: string
  ccImage :: string
  ccPorts :: "(int, int) gomap"
  ccVolumes :: "(string, string) gomap"
  ccEnv :: "(string, string) gomap"
  ccCmd :: "string list"
  ccRestartMode :: string
  ccMemory :: string
  ccCPUs :: string
  ccWorkDir :: string
  ccNetwork :: string
  ccDNS :: "string list"

definition docker_name :: "string \<Rightarrow> string" where
  "docker_name instanceName = ''craftstack-'' @ instanceName"

definition map_put_all :: "('k, 'v) gomap \<Rightarrow> ('k, 'v) gomap \<Rightarrow> ('k, 'v) gomap" where
  "map_put_all src dst = fold (\<lambda>(k, v). map_put k v) src dst"

definition BuildContainerConfig ::
  "string \<Rightarrow> string \<Rightarrow> string \<Rightarrow> string \<Rightarrow> int \<Rightarrow> string \<Rightarrow> (string, string) gomap \<Rightarrow> string \<Rightarrow> string \<Rightarrow> string \<Rightarrow>
   string \<Rightarrow> ContainerConfig option" where
  "BuildContainerConfig cwd instanceName serviceType serviceVersion hostPort hostDataDir envOverrides
     dockerMemory dockerCPUs javaVersion networkName =
     (case GetImageConfig serviceType serviceVersion javaVersion of
        None \<Rightarrow> None
      | Some imgCfg \<Rightarrow>
          let port = (if hostPort = 0 then siDefaultPort imgCfg else hostPort)
          in Some
            \<lparr>ccName = docker_name instanceName,
             ccImage = siImage imgCfg,
             ccPorts = [(port, siDefaultPort imgCfg)],
             ccVolumes = [(fp_abs cwd hostDataDir, siDataDir imgCfg)],
             ccEnv = map_put_all envOverrides (map_put_all (siEnv imgCfg) []),
             ccCmd = (if serviceType = ''minecraft'' then siCmd imgCfg else []),
             ccRestartMode = ''unless-stopped'',
             ccMemory = dockerMemory,
             ccCPUs = dockerCPUs,
             ccWorkDir = (if serviceType = ''minecraft'' then siDataDir imgCfg else ''''),
             ccNetwork = (if networkName = '''' then ''craftstack-default'' else networkName),
             ccDNS = []\<rparr>)"

definition flag :: "string \<Rightarrow> string \<Rightarrow> string list" where
  "flag name v = (if v \<noteq> '''' then [name, v] else [])"

fun port_arg :: "int \<times> int \<Rightarrow> string list" where
  "port_arg (host, c) = [''-p'', itoa host @ '':'' @ itoa c]"

fun volume_arg :: "string \<times> string \<Rightarrow> string list" where
  "volume_arg (host, c) = [''-v'', host @ '':'' @ c]"

fun env_arg :: "string \<times> string \<Rightarrow> string list" where
  "env_arg (k, v) = [''-e'', k @ ''='' @ v]"

text \<open>The arguments of \<^verbatim>\<open>docker create\<close>.\<close>

definition create_args :: "ContainerConfig \<Rightarrow> string list" where
  "create_args cfg =
     [''create'', ''--name'', ccName cfg] @
     concat (map port_arg (ccPorts cfg)) @ concat (map volume_arg (ccVolumes cfg)) @
     concat (map env_arg (ccEnv cfg)) @
     flag ''--restart'' (ccRestartMode cfg) @ flag ''--memory'' (ccMemory cfg) @ flag ''--cpus'' (ccCPUs cfg) @
     flag ''-w'' (ccWorkDir cfg) @ flag ''--network'' (ccNetwork cfg) @
     concat (map (\<lambda>dns. [''--dns'', dns]) (ccDNS cfg)) @
     [''-i'', ccImage cfg] @ ccCmd cfg"

section \<open>The memory limit\<close>

text \<open>The value and the unit of a heap size; a bare number is in megabytes.\<close>

definition memory_parts :: "string \<Rightarrow> string \<times> string" where
  "memory_parts memoryMax =
     (let upper = to_upper memoryMax
      in if has_suffix upper ''G'' then (butlast upper, ''G'')
         else if has_suffix upper ''M'' then (butlast upper, ''M'')
         else (upper, ''M''))"

definition in_megabytes :: "int \<Rightarrow> string" where
  "in_megabytes totalMB = itoa totalMB @ ''M''"

text \<open>One and a half times the value, in gigabytes when that is a whole number.\<close>

definition scaled_memory :: "string \<Rightarrow> int \<Rightarrow> string" where
  "scaled_memory unit val =
     (if unit = ''G'' then
        (let totalMB = go_div (wrap64 (wrap64 (val * 1024) * 3)) 2
         in if go_mod totalMB 1024 = 0 then itoa (go_div totalMB 1024) @ ''G'' else in_megabytes totalMB)
      else
        (let totalMB = go_div (wrap64 (val * 3)) 2
         in if totalMB \<ge> 1024 \<and> go_mod totalMB 1024 = 0
            then itoa (go_div totalMB 1024) @ ''G'' else in_megabytes totalMB))"

definition computeDockerMemory :: "string \<Rightarrow> string" where
  "computeDockerMemory memoryMax =
     (let trimmed = trim_space memoryMax
      in if trimmed = '''' then ''''
         else let (valuePart, unit) = memory_parts trimmed
              in case sscanf_d valuePart of
                   None \<Rightarrow> ''''
                 | Some val \<Rightarrow> if val \<le> 0 then '''' else scaled_memory unit val)"

end
