(* ===== verification/Docker_Manager.thy ===== *)
theory Docker_Manager
  imports Host_Commands Docker_Config
begin

text \<open>
  The docker command line as the agent uses it (\<^verbatim>\<open>internal/agent/docker/manager.go\<close> and
  \<^verbatim>\<open>install.go\<close>). Every operation is one or two commands; what docker answers is the parameter
  \<open>enExec\<close> of \<open>Host_Commands\<close>, the decoding of its JSON the parameters \<open>decode\<close>. An operation
  returns the error or the result, and the host after it. The parts of an error message that
  come from package \<^verbatim>\<open>os/exec\<close> are left out.
\<close>

datatype docker_error =
    DkFailed string string \<comment> \<open>the operation and the trimmed output\<close>
  | DkParse string
  | DkNotFound string
  | DkCompose string string string
  | DkPanic \<comment> \<open>a slice out of range; the agent does not recover from it\<close>

section \<open>Running docker\<close>

definition NewManager :: "'w env \<Rightarrow> string" where
  "NewManager en = (case enLookPath en ''docker'' of None \<Rightarrow> ''docker'' | Some p \<Rightarrow> p)"

definition docker :: "'w env \<Rightarrow> string list \<Rightarrow> 'w host \<Rightarrow> (string \<times> bool) \<times> 'w host" where
  "docker en args h = combined_output en (plain_command (NewManager en) args) h"

text \<open>A command whose failure is returned with its output.\<close>

definition docker_call :: "'w env \<Rightarrow> string \<Rightarrow> string list \<Rightarrow> 'w host \<Rightarrow> (docker_error + string) \<times> 'w host" where
  "docker_call en what args h =
     (let ((out, ok), h1) = docker en args h
      in (if ok then Inr out else Inl (DkFailed what (trim_space out)), h1))"

text \<open>The same, when only success counts.\<close>

definition docker_do :: "'w env \<Rightarrow> string \<Rightarrow> string list \<Rightarrow> 'w host \<Rightarrow> docker_error option \<times> 'w host" where
  "docker_do en what args h =
     (case docker_call en what args h of (Inl e, h1) \<Rightarrow> (Some e, h1) | (Inr out, h1) \<Rightarrow> (None, h1))"

text \<open>A failure whose output contains \<open>benign\<close> is none.\<close>

definition docker_tolerant ::
  "'w env \<Rightarrow> string \<Rightarrow> string \<Rightarrow> string list \<Rightarrow> 'w host \<Rightarrow> (docker_error + string) \<times> 'w host" where
  "docker_tolerant en what benign args h =
     (let ((out, ok), h1) = docker en args h; outStr = trim_space out
      in (if ok then Inr outStr
          else if str_contains outStr benign then Inr '''' else Inl (DkFailed what outStr), h1))"

section \<open>The daemon\<close>

definition IsInstalled :: "'w env \<Rightarrow> 'w host \<Rightarrow> bool \<times> 'w host" where
  "IsInstalled en h =
     (let ((out, ok), h1) = docker en [''--version''] h in (ok \<and> str_contains out ''Docker'', h1))"

definition IsRunning :: "'w env \<Rightarrow> 'w host \<Rightarrow> bool \<times> 'w host" where
  "IsRunning en h =
     (let ((out, ok), h1) = docker en [''info'', ''--format'', ''{{.ServerVersion}}''] h
      in (ok \<and> trim_space out \<noteq> '''', h1))"

definition Version :: "'w env \<Rightarrow> 'w host \<Rightarrow> (docker_error + string) \<times> 'w host" where
  "Version en h =
     (let ((out, ok), h1) = docker en
            [''version'', ''--format'', ''Client: {{.Client.Version}}, Server: {{.Server.Version}}''] h
      in (if ok then Inr (trim_space out) else Inl (DkFailed ''docker version'' ''''), h1))"

datatype install_check = InstallMissing | InstallStopped | InstallReady

definition CheckAndInstall :: "'w env \<Rightarrow> 'w host \<Rightarrow> install_check \<times> 'w host" where
  "CheckAndInstall en h =
     (let (installed, h1) = IsInstalled en h
      in if \<not> installed then (InstallMissing, h1)
         else let (running, h2) = IsRunning en h1
              in (if running then InstallReady else InstallStopped, h2))"

definition EnsureDocker :: "'w env \<Rightarrow> 'w host \<Rightarrow> bool \<times> 'w host" where
  "EnsureDocker en h = (let (r, h1) = CheckAndInstall en h in (r = InstallReady, h1))"

section \<open>Images and containers\<close>

definition PullImage :: "'w env \<Rightarrow> string \<Rightarrow> 'w host \<Rightarrow> docker_error option \<times> 'w host" where
  "PullImage en img h = docker_do en ''docker pull'' [''pull'', img] h"

definition CreateContainer :: "'w env \<Rightarrow> ContainerConfig \<Rightarrow> 'w host \<Rightarrow> (docker_error + string) \<times> 'w host" where
  "CreateContainer en cfg h =
     (case docker_call en ''docker create'' (create_args cfg) h of
        (Inl e, h1) \<Rightarrow> (Inl e, h1)
      | (Inr out, h1) \<Rightarrow>
          let containerID = trim_space out
          in (if length containerID < 12 then Inl DkPanic else Inr containerID, h1))"

definition StartContainer :: "'w env \<Rightarrow> string \<Rightarrow> 'w host \<Rightarrow> docker_error option \<times> 'w host" where
  "StartContainer en nameOrID h = docker_do en ''docker start'' [''start'', nameOrID] h"

definition StopContainer :: "'w env \<Rightarrow> string \<Rightarrow> int \<Rightarrow> 'w host \<Rightarrow> docker_error option \<times> 'w host" where
  "StopContainer en nameOrID timeout h =
     docker_do en ''docker stop''
       ([''stop''] @ (if 0 < timeout then [''-t'', itoa timeout] else []) @ [nameOrID]) h"

definition KillContainer :: "'w env \<Rightarrow> string \<Rightarrow> 'w host \<Rightarrow> docker_error option \<times> 'w host" where
  "KillContainer en nameOrID h = docker_do en ''docker kill'' [''kill'', nameOrID] h"

definition RemoveContainer :: "'w env \<Rightarrow> string \<Rightarrow> bool \<Rightarrow> 'w host \<Rightarrow> docker_error option \<times> 'w host" where
  "RemoveContainer en nameOrID force h =
     docker_do en ''docker rm'' ([''rm''] @ (if force then [''-f''] else []) @ [nameOrID]) h"

definition ExecCommand :: "'w env \<Rightarrow> string \<Rightarrow> string list \<Rightarrow> 'w host \<Rightarrow> (docker_error + string) \<times> 'w host" where
  "ExecCommand en nameOrID command h = docker_call en ''docker exec'' ([''exec'', nameOrID] @ command) h"

definition WaitContainer :: "'w env \<Rightarrow> string \<Rightarrow> 'w host \<Rightarrow> docker_error option \<times> 'w host" where
  "WaitContainer en nameOrID h = docker_do en ''docker wait'' [''wait'', nameOrID] h"

definition SendToStdin :: "'w env \<Rightarrow> string \<Rightarrow> string \<Rightarrow> 'w host \<Rightarrow> docker_error option \<times> 'w host" where
  "SendToStdin en nameOrID input h =
     (let c = (plain_command (NewManager en) [''exec'', ''-i'', nameOrID, ''sh'', ''-c'', ''cat''])
                \<lparr>cmStdin := input @ [CHR 0x0A]\<rparr>;
          ((out, ok), h1) = combined_output en c h
      in (if ok then None else Some (DkFailed ''stdin send'' (trim_space out)), h1))"

record InspectResult =
  irID :: string
  irStatus :: string
  irRunning :: bool
  irPid :: int
  irExitCode :: int
  irStartedAt :: string
  irFinishedAt :: string
  irImage :: string

definition InspectContainer ::
  "(string \<Rightarrow> InspectResult list option) \<Rightarrow> 'w env \<Rightarrow> string \<Rightarrow> 'w host \<Rightarrow>
   (docker_error + InspectResult) \<times> 'w host" where
  "InspectContainer decode en nameOrID h =
     (case docker_call en ''docker inspect'' [''inspect'', nameOrID] h of
        (Inl e, h1) \<Rightarrow> (Inl e, h1)
      | (Inr out, h1) \<Rightarrow>
          (case decode out of
             None \<Rightarrow> Inl (DkParse ''docker inspect'')
           | Some [] \<Rightarrow> Inl (DkNotFound nameOrID)
           | Some (r # rs) \<Rightarrow> Inr r, h1))"

definition GetContainerPID ::
  "(string \<Rightarrow> InspectResult list option) \<Rightarrow> 'w env \<Rightarrow> string \<Rightarrow> 'w host \<Rightarrow> (docker_error + int) \<times> 'w host" where
  "GetContainerPID decode en nameOrID h =
     (case InspectContainer decode en nameOrID h of
        (Inl e, h1) \<Rightarrow> (Inl e, h1) | (Inr info, h1) \<Rightarrow> (Inr (irPid info), h1))"

definition ContainerExists :: "'w env \<Rightarrow> string \<Rightarrow> 'w host \<Rightarrow> bool \<times> 'w host" where
  "ContainerExists en nameOrID h =
     (let ((out, ok), h1) = docker en [''inspect'', ''--type'', ''container'', nameOrID] h in (ok, h1))"

definition status_args :: "string \<Rightarrow> string list" where
  "status_args nameOrID = [''inspect'', ''--format'', ''{{.State.Status}}'', nameOrID]"

definition GetContainerStatus :: "'w env \<Rightarrow> string \<Rightarrow> 'w host \<Rightarrow> (docker_error + string) \<times> 'w host" where
  "GetContainerStatus en nameOrID h =
     (let ((out, ok), h1) = docker en (status_args nameOrID) h
      in (if ok then Inr (trim_space out) else Inl (DkFailed ''state query'' ''''), h1))"

section \<open>Networks\<close>

definition network_create_args :: "string \<Rightarrow> string \<Rightarrow> string \<Rightarrow> string \<Rightarrow> string list" where
  "network_create_args name driver subnet gateway =
     [''network'', ''create'', ''--driver'', str_default ''bridge'' driver] @
     flag ''--subnet'' subnet @ flag ''--gateway'' gateway @ [name]"

definition NetworkCreate ::
  "'w env \<Rightarrow> string \<Rightarrow> string \<Rightarrow> string \<Rightarrow> string \<Rightarrow> 'w host \<Rightarrow> (docker_error + string) \<times> 'w host" where
  "NetworkCreate en name driver subnet gateway h =
     docker_tolerant en ''docker network create'' ''already exists''
       (network_create_args name driver subnet gateway) h"

definition tolerated :: "(docker_error + string) \<times> 'w host \<Rightarrow> docker_error option \<times> 'w host" where
  "tolerated r = (case r of (Inl e, h) \<Rightarrow> (Some e, h) | (Inr out, h) \<Rightarrow> (None, h))"

definition NetworkRemove :: "'w env \<Rightarrow> string \<Rightarrow> 'w host \<Rightarrow> docker_error option \<times> 'w host" where
  "NetworkRemove en name h =
     tolerated (docker_tolerant en ''docker network rm'' ''not found'' [''network'', ''rm'', name] h)"

definition NetworkConnect ::
  "'w env \<Rightarrow> string \<Rightarrow> string \<Rightarrow> string \<Rightarrow> string \<Rightarrow> 'w host \<Rightarrow> docker_error option \<times> 'w host" where
  "NetworkConnect en networkName containerName ali ipAddress h =
     tolerated (docker_tolerant en ''docker network connect'' ''already exists''
       ([''network'', ''connect''] @ flag ''--alias'' ali @ flag ''--ip'' ipAddress @ [networkName, containerName]) h)"

definition NetworkDisconnect :: "'w env \<Rightarrow> string \<Rightarrow> string \<Rightarrow> 'w host \<Rightarrow> docker_error option \<times> 'w host" where
  "NetworkDisconnect en networkName containerName h =
     tolerated (docker_tolerant en ''docker network disconnect'' ''is not connected''
       [''network'', ''disconnect'', networkName, containerName] h)"

record NetworkInfo =
  niID :: string
  niName :: string
  niDriver :: string
  niScope :: string
  niConfig :: "(string \<times> string) list" \<comment> \<open>subnet and gateway\<close>
  niContainers :: "(string, string) gomap"

definition NetworkInspect ::
  "(string \<Rightarrow> NetworkInfo list option) \<Rightarrow> 'w env \<Rightarrow> string \<Rightarrow> 'w host \<Rightarrow> (docker_error + NetworkInfo) \<times> 'w host" where
  "NetworkInspect decode en name h =
     (case docker_call en ''docker network inspect'' [''network'', ''inspect'', name] h of
        (Inl e, h1) \<Rightarrow> (Inl e, h1)
      | (Inr out, h1) \<Rightarrow>
          (case decode out of
             None \<Rightarrow> Inl (DkParse ''docker network inspect'')
           | Some [] \<Rightarrow> Inl (DkNotFound name)
           | Some (r # rs) \<Rightarrow> Inr r, h1))"

definition output_lines :: "string \<Rightarrow> string list" where
  "output_lines out = filter (\<lambda>s. s \<noteq> '''') (map trim_space (split_on CHR 0x0A (trim_space out)))"

fun inspect_networks ::
  "(string \<Rightarrow> NetworkInfo list option) \<Rightarrow> 'w env \<Rightarrow> string list \<Rightarrow> 'w host \<Rightarrow> NetworkInfo list \<times> 'w host" where
  "inspect_networks decode en [] h = ([], h)"
| "inspect_networks decode en (n # ns) h =
     (let (r, h1) = NetworkInspect decode en n h; (infos, h2) = inspect_networks decode en ns h1
      in (case r of Inl e \<Rightarrow> infos | Inr info \<Rightarrow> info # infos, h2))"

definition NetworkList ::
  "(string \<Rightarrow> NetworkInfo list option) \<Rightarrow> 'w env \<Rightarrow> 'w host \<Rightarrow> (docker_error + NetworkInfo list) \<times> 'w host" where
  "NetworkList decode en h =
     (case docker_call en ''docker network ls'' [''network'', ''ls'', ''--format'', ''{{.Name}}''] h of
        (Inl e, h1) \<Rightarrow> (Inl e, h1)
      | (Inr out, h1) \<Rightarrow> (let (infos, h2) = inspect_networks decode en (output_lines out) h1 in (Inr infos, h2)))"

section \<open>Builds and compose\<close>

definition BuildImage :: "'w env \<Rightarrow> string \<Rightarrow> string \<Rightarrow> 'w host \<Rightarrow> docker_error option \<times> 'w host" where
  "BuildImage en contextDir tag h = docker_do en ''docker build'' [''build'', ''-t'', tag, contextDir] h"

text \<open>\<^verbatim>\<open>docker compose\<close> in a directory, and \<^verbatim>\<open>docker-compose\<close> when that fails.\<close>

definition compose :: "'w env \<Rightarrow> string \<Rightarrow> string list \<Rightarrow> string \<Rightarrow> 'w host \<Rightarrow> docker_error option \<times> 'w host" where
  "compose en what args workDir h =
     (let ((out, ok), h1) = combined_output en ((plain_command (NewManager en) (''compose'' # args))\<lparr>cmDir := workDir\<rparr>) h
      in if ok then (None, h1)
         else let ((out2, ok2), h2) = combined_output en ((plain_command ''docker-compose'' args)\<lparr>cmDir := workDir\<rparr>) h1
              in (if ok2 then None else Some (DkCompose what (trim_space out) (trim_space out2)), h2))"

definition ComposeUp :: "'w env \<Rightarrow> string \<Rightarrow> 'w host \<Rightarrow> docker_error option \<times> 'w host" where
  "ComposeUp en workDir h = compose en ''docker compose up'' [''up'', ''-d''] workDir h"

definition ComposeDown :: "'w env \<Rightarrow> string \<Rightarrow> 'w host \<Rightarrow> docker_error option \<times> 'w host" where
  "ComposeDown en workDir h = compose en ''docker compose down'' [''down''] workDir h"

text \<open>\<^verbatim>\<open>docker version\<close> is tried at the usual places when it is not on the search path.\<close>

fun first_working :: "'w env \<Rightarrow> string list \<Rightarrow> 'w host \<Rightarrow> string \<times> 'w host" where
  "first_working en [] h = (''docker'', h)"
| "first_working en (p # ps) h =
     (let ((out, ok), h1) = combined_output en (plain_command p [''version'']) h
      in if ok then (p, h1) else first_working en ps h1)"

definition GetDockerBinaryPath :: "'w env \<Rightarrow> 'w host \<Rightarrow> string \<times> 'w host" where
  "GetDockerBinaryPath en h =
     (case enLookPath en ''docker'' of
        Some p \<Rightarrow> (p, h)
      | None \<Rightarrow> first_working en [''/usr/bin/docker'', ''/usr/local/bin/docker'', ''/snap/bin/docker''] h)"

end
