(* ===== verification/Mesh_Node.thy ===== *)
theory Mesh_Node
  imports Host_Commands Mesh
begin

text \<open>
  The agent's end of the mesh: the WireGuard interface (\<^verbatim>\<open>internal/agent/wireguard/manager.go\<close>,
  \<^verbatim>\<open>install.go\<close>), the DNS server containers ask for the other nodes' services
  (\<^verbatim>\<open>internal/agent/dns/server.go\<close>), and the glue between them
  (\<^verbatim>\<open>internal/agent/wireguard_integration.go\<close> with its handlers in \<^verbatim>\<open>grpc_agent_service.go\<close>). The
  platform is Linux. The DNS protocol itself is a library's; its messages are questions and
  answers here.
\<close>

section \<open>The WireGuard interface\<close>

record wg_manager =
  wgPath :: string
  wgActive :: bool
  wgAddress :: string
  wgListenPort :: int
  wgPublicKey :: string

definition ifName :: string where
  "ifName = ''wg-craftstack''"

definition wgConfigDir :: path where
  "wgConfigDir = [''etc'', ''wireguard'']"

definition wgConfPath :: path where
  "wgConfPath = wgConfigDir @ [ifName @ ''.conf'']"

definition findWGPath :: "'w env \<Rightarrow> 'w host \<Rightarrow> string" where
  "findWGPath en h =
     (case enLookPath en ''wg'' of
        Some p \<Rightarrow> p
      | None \<Rightarrow>
          if fs_get (fst h) [''usr'', ''bin'', ''wg''] \<noteq> None then ''/usr/bin/wg''
          else if fs_get (fst h) [''usr'', ''local'', ''bin'', ''wg''] \<noteq> None then ''/usr/local/bin/wg''
          else '''')"

definition NewWGManager :: "'w env \<Rightarrow> 'w host \<Rightarrow> wg_manager" where
  "NewWGManager en h =
     \<lparr>wgPath = findWGPath en h, wgActive = False, wgAddress = '''', wgListenPort = 0, wgPublicKey = ''''\<rparr>"

definition WGInstalled :: "wg_manager \<Rightarrow> bool" where
  "WGInstalled m \<longleftrightarrow> wgPath m \<noteq> ''''"

definition EnsureWireGuard :: "'w env \<Rightarrow> 'w host \<Rightarrow> bool" where
  "EnsureWireGuard en h = WGInstalled (NewWGManager en h)"

definition pubkey_output :: "'w env \<Rightarrow> wg_manager \<Rightarrow> string \<Rightarrow> 'w host \<Rightarrow> (string \<times> bool) \<times> 'w host" where
  "pubkey_output en m privateKey h =
     std_output en ((plain_command (wgPath m) [''pubkey''])\<lparr>cmStdin := privateKey\<rparr>) h"

definition GenerateKeyPair ::
  "'w env \<Rightarrow> wg_manager \<Rightarrow> 'w host \<Rightarrow> (string \<times> string) option \<times> 'w host" where
  "GenerateKeyPair en m h =
     (if \<not> WGInstalled m then (None, h)
      else let ((privOut, ok), h1) = std_output en (plain_command (wgPath m) [''genkey'']) h
           in if \<not> ok then (None, h1)
              else let privateKey = trim_space privOut;
                       ((pubOut, ok2), h2) = pubkey_output en m privateKey h1
                   in (if ok2 then Some (privateKey, trim_space pubOut) else None, h2))"

definition derivePublicKey :: "'w env \<Rightarrow> wg_manager \<Rightarrow> string \<Rightarrow> 'w host \<Rightarrow> string \<times> 'w host" where
  "derivePublicKey en m privateKey h =
     (let ((out, ok), h1) = pubkey_output en m privateKey h in (if ok then trim_space out else '''', h1))"

definition config_line :: "string \<Rightarrow> string \<Rightarrow> string" where
  "config_line key v = key @ '' = '' @ v @ [CHR 0x0A]"

definition peer_section :: "WireGuardPeer \<Rightarrow> string" where
  "peer_section p =
     [CHR 0x0A] @ ''[Peer]'' @ [CHR 0x0A] @ config_line ''PublicKey'' (wpPublicKey p) @
     (if wpEndpoint p \<noteq> '''' then config_line ''Endpoint'' (wpEndpoint p) else '''') @
     (if wpAllowedIps p \<noteq> [] then config_line ''AllowedIPs'' (str_join '', '' (wpAllowedIps p)) else '''') @
     config_line ''PersistentKeepalive'' (itoa (if wpKeepalive p \<le> 0 then 25 else wpKeepalive p))"

definition buildConfigFile :: "ConfigureWireGuardRequest \<Rightarrow> string" where
  "buildConfigFile cfg =
     ''[Interface]'' @ [CHR 0x0A] @ config_line ''PrivateKey'' (cwPrivateKey cfg) @
     config_line ''Address'' (cwAddress cfg) @ config_line ''ListenPort'' (itoa (cwListenPort cfg)) @
     config_line ''PostUp'' ''sysctl -w net.ipv4.ip_forward=1'' @
     concat (map peer_section (cwPeers cfg))"

text \<open>\<^verbatim>\<open>cmd.Run() == nil\<close>.\<close>

definition succeeds :: "'w env \<Rightarrow> string \<Rightarrow> string list \<Rightarrow> 'w host \<Rightarrow> bool \<times> 'w host" where
  "succeeds en prog args h =
     (let ((out, ok), h1) = combined_output en (plain_command prog args) h in (ok, h1))"

definition syncconf :: "'w env \<Rightarrow> wg_manager \<Rightarrow> 'w host \<Rightarrow> bool \<times> 'w host" where
  "syncconf en m h =
     (let (ok, h1) = succeeds en (wgPath m) [''syncconf'', ifName, abs_text wgConfPath] h
      in if ok then (True, h1)
         else let (ok2, h2) = succeeds en ''bash''
                    [''-c'', ''wg-quick strip '' @ ifName @ '' | wg syncconf '' @ ifName @ '' /dev/stdin''] h1
              in if ok2 then (True, h2)
                 else let (down, h3) = succeeds en ''wg-quick'' [''down'', ifName] h2
                      in succeeds en ''wg-quick'' [''up'', ifName] h3)"

definition ApplyConfig ::
  "'w env \<Rightarrow> wg_manager \<Rightarrow> ConfigureWireGuardRequest \<Rightarrow> 'w host \<Rightarrow> (bool \<times> wg_manager) \<times> 'w host" where
  "ApplyConfig en m cfg h =
     (if \<not> WGInstalled m then ((False, m), h)
      else let f1 = (case os_mkdir_all wgConfigDir 448 (fst h) of Inl e \<Rightarrow> fst h | Inr f \<Rightarrow> f)
           in case os_write_file wgConfPath (string_bytes (buildConfigFile cfg)) 384 f1 of
                Inl e \<Rightarrow> ((False, m), (f1, snd h))
              | Inr f2 \<Rightarrow>
                  let (exists, h1) = succeeds en ''ip'' [''link'', ''show'', ifName] (f2, snd h);
                      (up, h2) = (if exists then syncconf en m h1
                                  else succeeds en ''wg-quick'' [''up'', ifName] h1)
                  in if \<not> up then ((False, m), h2)
                     else let (key, h3) = derivePublicKey en m (cwPrivateKey cfg) h2
                          in ((True, m\<lparr>wgActive := True, wgAddress := cwAddress cfg,
                                      wgListenPort := cwListenPort cfg, wgPublicKey := key\<rparr>), h3))"

definition InterfaceDown :: "'w env \<Rightarrow> wg_manager \<Rightarrow> 'w host \<Rightarrow> wg_manager \<times> 'w host" where
  "InterfaceDown en m h =
     (let (ok, h1) = succeeds en ''wg-quick'' [''down'', ifName] h in (m\<lparr>wgActive := False\<rparr>, h1))"

record PeerStatus =
  psPublicKey :: string
  psEndpoint :: string
  psLastHandshake :: "int option" \<comment> \<open>seconds, None for the zero time\<close>
  psRxBytes :: int
  psTxBytes :: int
  psConnected :: bool

definition scan_or_zero :: "string \<Rightarrow> int" where
  "scan_or_zero s = (case sscanf_d s of None \<Rightarrow> 0 | Some v \<Rightarrow> v)"

definition parse_peer :: "instant \<Rightarrow> string \<Rightarrow> PeerStatus option" where
  "parse_peer now line =
     (let fields = split_on CHR 0x09 line
      in if length fields < 7 then None
         else let handshakeUnix = scan_or_zero (fields ! 4)
              in Some \<lparr>psPublicKey = fields ! 0, psEndpoint = fields ! 2,
                       psLastHandshake = (if 0 < handshakeUnix then Some handshakeUnix else None),
                       psRxBytes = scan_or_zero (fields ! 5), psTxBytes = scan_or_zero (fields ! 6),
                       psConnected = (0 < handshakeUnix \<and> now - handshakeUnix * second_ns < 3 * minute_ns)\<rparr>)"

definition parseDump :: "instant \<Rightarrow> string \<Rightarrow> PeerStatus list" where
  "parseDump now output = List.map_filter (parse_peer now) (tl (split_on CHR 0x0A (trim_space output)))"

definition WGStatus :: "'w env \<Rightarrow> instant \<Rightarrow> wg_manager \<Rightarrow> 'w host \<Rightarrow> PeerStatus list option \<times> 'w host" where
  "WGStatus en now m h =
     (if \<not> WGInstalled m then (None, h)
      else let ((out, ok), h1) = std_output en (plain_command (wgPath m) [''show'', ifName, ''dump'']) h
           in (if ok then Some (parseDump now out) else None, h1))"

section \<open>The DNS server\<close>

record dns_server =
  dsListenIP :: string
  dsPort :: int
  dsDomain :: string
  dsRecords :: "(string, string) gomap"

definition with_dot :: "string \<Rightarrow> string" where
  "with_dot s = (if has_suffix s ''.'' then s else s @ ''.'')"

definition NewDnsServer :: "string \<Rightarrow> int \<Rightarrow> string \<Rightarrow> dns_server" where
  "NewDnsServer listenIP port domain =
     \<lparr>dsListenIP = listenIP, dsPort = (if port = 0 then 53 else port),
      dsDomain = with_dot (if domain = '''' then ''craftstack.internal'' else domain), dsRecords = []\<rparr>"

definition UpdateRecords :: "(string \<times> string) list \<Rightarrow> dns_server \<Rightarrow> dns_server" where
  "UpdateRecords rs s =
     s\<lparr>dsRecords := fold (\<lambda>(fqdn, ip). map_put (to_lower (with_dot fqdn)) ip) rs []\<rparr>"

definition RecordCount :: "dns_server \<Rightarrow> nat" where
  "RecordCount s = length (dsRecords s)"

text \<open>
  \<^verbatim>\<open>net.ParseIP(s).To4()\<close> for dotted addresses: four decimal numbers up to 255 without leading
  zeros. The IPv6 spellings of IPv4 addresses are not recognised here.
\<close>

definition parse_octet :: "string \<Rightarrow> nat option" where
  "parse_octet s =
     (if length s > 3 \<or> (length s > 1 \<and> hd s = CHR ''0'') then None
      else case parse_uint s of None \<Rightarrow> None | Some n \<Rightarrow> if n \<le> 255 then Some n else None)"

definition parse_ip4 :: "string \<Rightarrow> nat list option" where
  "parse_ip4 s =
     (let os = map parse_octet (split_on CHR ''.'' s)
      in if length os = 4 \<and> None \<notin> set os then Some (map the os) else None)"

datatype qtype = TypeA | TypeAAAA | TypeOther

datatype rcode = RcodeSuccess | RcodeNameError | RcodeServerFailure

definition answer :: "dns_server \<Rightarrow> string \<times> qtype \<Rightarrow> (string \<times> nat list) option" where
  "answer s q =
     (case q of (name, ty) \<Rightarrow>
        if ty \<noteq> TypeA \<and> ty \<noteq> TypeAAAA then None
        else case map_get (dsRecords s) (to_lower name) of
               None \<Rightarrow> None
             | Some ip \<Rightarrow> if ty = TypeA then map_option (Pair name) (parse_ip4 ip) else None)"

definition handleQuery :: "dns_server \<Rightarrow> (string \<times> qtype) list \<Rightarrow> rcode \<times> (string \<times> nat list) list" where
  "handleQuery s qs =
     (let as = List.map_filter (answer s) qs
      in (if as = [] then RcodeNameError else RcodeSuccess, as))"

text \<open>\<open>exchange\<close> asks a resolver, \<open>system\<close> are those of \<^verbatim>\<open>/etc/resolv.conf\<close>.\<close>

definition handleForward :: "(string \<Rightarrow> 'r option) \<Rightarrow> string list \<Rightarrow> dns_server \<Rightarrow> 'r option" where
  "handleForward exchange system s =
     (let resolvers = (if system = [] then [''8.8.8.8:53'', ''1.1.1.1:53''] else system);
          others = filter (\<lambda>r. \<not> has_prefix r (dsListenIP s @ '':'')) resolvers
      in case List.map_filter exchange others of [] \<Rightarrow> None | r # rs \<Rightarrow> Some r)"

section \<open>A node of the mesh\<close>

record mesh_node =
  mnWg :: "wg_manager option"
  mnDns :: "dns_server option"
  mnDNSListenIP :: string

definition new_mesh_node :: "'w env \<Rightarrow> 'w host \<Rightarrow> mesh_node" where
  "new_mesh_node en h = \<lparr>mnWg = Some (NewWGManager en h), mnDns = None, mnDNSListenIP = ''''\<rparr>"

definition start_dns :: "string \<Rightarrow> mesh_node \<Rightarrow> mesh_node" where
  "start_dns ip n =
     (if ip \<noteq> '''' \<and> mnDns n = None
      then n\<lparr>mnDNSListenIP := ip, mnDns := Some (NewDnsServer ip 53 ''craftstack.internal'')\<rparr> else n)"

definition applyWireGuardConfig ::
  "'w env \<Rightarrow> ConfigureWireGuardRequest \<Rightarrow> mesh_node \<Rightarrow> 'w host \<Rightarrow> (bool \<times> mesh_node) \<times> 'w host" where
  "applyWireGuardConfig en cfg n h =
     (case mnWg n of
        None \<Rightarrow> ((False, n), h)
      | Some m \<Rightarrow>
          if \<not> WGInstalled m \<and> \<not> EnsureWireGuard en h then ((False, n), h)
          else let m1 = (if WGInstalled m then m else NewWGManager en h);
                   ((ok, m2), h1) = ApplyConfig en m1 cfg h;
                   n1 = n\<lparr>mnWg := Some m2\<rparr>
               in ((ok, if ok then start_dns (cwDnsListenIp cfg) n1 else n1), h1))"

definition updateDNSRecords :: "(string \<times> string) list \<Rightarrow> mesh_node \<Rightarrow> mesh_node" where
  "updateDNSRecords rs n = n\<lparr>mnDns := map_option (UpdateRecords rs) (mnDns n)\<rparr>"

definition svc_ConfigureWireGuard ::
  "'w env \<Rightarrow> ConfigureWireGuardRequest \<Rightarrow> mesh_node \<Rightarrow> 'w host \<Rightarrow> (bool \<times> mesh_node) \<times> 'w host" where
  "svc_ConfigureWireGuard en cfg n h =
     (if mnWg n = None then ((False, n), h) else applyWireGuardConfig en cfg n h)"

text \<open>Whether it worked, and the number of records.\<close>

definition svc_UpdateDNSRecords :: "(string \<times> string) list \<Rightarrow> mesh_node \<Rightarrow> (bool \<times> int) \<times> mesh_node" where
  "svc_UpdateDNSRecords rs n =
     (let n1 = updateDNSRecords rs n
      in case mnDns n1 of None \<Rightarrow> ((False, 0), n) | Some s \<Rightarrow> ((True, wrap32 (int (RecordCount s))), n1))"

record WireGuardStatusResponse =
  wsInstalled :: bool
  wsActive :: bool
  wsPublicKey :: string
  wsAddress :: string
  wsPeers :: "PeerStatus list"

definition empty_status :: WireGuardStatusResponse where
  "empty_status = \<lparr>wsInstalled = False, wsActive = False, wsPublicKey = '''', wsAddress = '''', wsPeers = []\<rparr>"

definition wg_report ::
  "'w env \<Rightarrow> instant \<Rightarrow> wg_manager \<Rightarrow> 'w host \<Rightarrow> WireGuardStatusResponse \<times> 'w host" where
  "wg_report en now m h =
     (let (key, h1) = (if WGInstalled m \<and> wgPublicKey m = ''''
                       then (let (r, h1) = GenerateKeyPair en m h
                             in (case r of None \<Rightarrow> '''' | Some (priv, pub) \<Rightarrow> pub, h1))
                       else (wgPublicKey m, h));
          (peers, h2) = (if wgActive m
                         then (let (r, h2) = WGStatus en now m h1
                               in (case r of None \<Rightarrow> [] | Some ps \<Rightarrow> ps, h2))
                         else ([], h1))
      in (\<lparr>wsInstalled = WGInstalled m, wsActive = wgActive m, wsPublicKey = key,
           wsAddress = wgAddress m, wsPeers = peers\<rparr>, h2))"

definition svc_WireGuardStatus ::
  "'w env \<Rightarrow> instant \<Rightarrow> mesh_node \<Rightarrow> 'w host \<Rightarrow> (WireGuardStatusResponse \<times> mesh_node) \<times> 'w host" where
  "svc_WireGuardStatus en now n h =
     (case mnWg n of
        None \<Rightarrow> ((empty_status, n), h)
      | Some m \<Rightarrow>
          if WGInstalled m then (let (r, h1) = wg_report en now m h in ((r, n), h1))
          else if \<not> EnsureWireGuard en h then ((empty_status, n), h)
          else let m1 = NewWGManager en h; (r, h1) = wg_report en now m1 h
               in ((r, n\<lparr>mnWg := Some m1\<rparr>), h1))"

end
