(* ===== verification/Agent_Instances.thy ===== *)
theory Agent_Instances
  imports Docker_Manager Mesh_Node Archives Console_Commands
begin

text \<open>
  The instances an agent manages (\<^verbatim>\<open>internal/agent/instance_manager.go\<close> and
  \<^verbatim>\<open>instance_sync.go\<close>): taking over the list the master assigns, creating, controlling and
  removing instances, each of them a docker container. The methods of the process
  (\<^verbatim>\<open>internal/agent/process/docker.go\<close>) are run here one after the other; their interleavings
  are the subject of \<open>Process_Lifecycle\<close>. A goroutine that waits for the end of a container
  acts through \<open>proc_exit\<close>.
\<close>

section \<open>One container\<close>

record managed =
  mgID :: string
  mgName :: string
  mgType :: string
  mgContainer :: string
  mgState :: State
  mgPid :: int

datatype proc_error = PeAlready State | PeNotRunning State | PeDocker string

definition proc_fetchPID :: "'w env \<Rightarrow> string \<Rightarrow> 'w host \<Rightarrow> int \<times> 'w host" where
  "proc_fetchPID en container h =
     (let ((out, ok), h1) = docker en [''inspect'', ''--format'', ''{{.State.Pid}}'', container] h
      in (if \<not> ok then 0 else case sscanf_d (trim_space out) of None \<Rightarrow> 0 | Some pid \<Rightarrow> pid, h1))"

definition proc_running :: "'w env \<Rightarrow> managed \<Rightarrow> 'w host \<Rightarrow> managed \<times> 'w host" where
  "proc_running en p h =
     (let (pid, h1) = proc_fetchPID en (mgContainer p) h in (p\<lparr>mgState := StateRunning, mgPid := pid\<rparr>, h1))"

definition proc_Start :: "'w env \<Rightarrow> managed \<Rightarrow> 'w host \<Rightarrow> (proc_error option \<times> managed) \<times> 'w host" where
  "proc_Start en p h =
     (if mgState p = StateRunning \<or> mgState p = StateStarting then ((Some (PeAlready (mgState p)), p), h)
      else let ((out, ok), h1) = docker en [''start'', mgContainer p] h
           in if \<not> ok then ((Some (PeDocker (trim_space out)), p\<lparr>mgState := StateStopped\<rparr>), h1)
              else let (p1, h2) = proc_running en p h1 in ((None, p1), h2))"

definition proc_Kill :: "'w env \<Rightarrow> managed \<Rightarrow> 'w host \<Rightarrow> managed \<times> 'w host" where
  "proc_Kill en p h =
     (let (r, h1) = docker en [''kill'', mgContainer p] h in (p\<lparr>mgState := StateStopped, mgPid := 0\<rparr>, h1))"

text \<open>What the waiting goroutine makes of the end of the container.\<close>

definition proc_exit :: "int \<Rightarrow> managed \<Rightarrow> managed" where
  "proc_exit exitCode p = p\<lparr>mgState := exit_state exitCode (mgState p), mgPid := 0\<rparr>"

text \<open>The exit code does not matter to a container that is being stopped.\<close>

definition proc_Stop :: "'w env \<Rightarrow> managed \<Rightarrow> 'w host \<Rightarrow> (proc_error option \<times> managed) \<times> 'w host" where
  "proc_Stop en p h =
     (if mgState p \<noteq> StateRunning then ((Some (PeNotRunning (mgState p)), p), h)
      else let p1 = p\<lparr>mgState := StateStopping\<rparr>;
               ((out, ok), h1) = docker en [''stop'', ''-t'', ''30'', mgContainer p] h
           in if ok \<and> enExitSeen en (mgContainer p) h1 then ((None, proc_exit 0 p1), h1)
              else let (p2, h2) = proc_Kill en p1 h1 in ((None, p2), h2))"

definition proc_Restart :: "'w env \<Rightarrow> managed \<Rightarrow> 'w host \<Rightarrow> (proc_error option \<times> managed) \<times> 'w host" where
  "proc_Restart en p h =
     (if mgState p = StateRunning
      then let ((e, p1), h1) = proc_Stop en p h;
               (p2, h2) = (if e = None then (p1, h1) else proc_Kill en p1 h1)
           in proc_Start en p2 h2
      else proc_Start en p h)"

definition proc_RefreshState :: "'w env \<Rightarrow> managed \<Rightarrow> 'w host \<Rightarrow> managed \<times> 'w host" where
  "proc_RefreshState en p h =
     (let ((out, ok), h1) = docker en (status_args (mgContainer p)) h
      in if ok \<and> trim_space out = ''running'' then proc_running en p h1
         else (p\<lparr>mgState := StateStopped\<rparr>, h1))"

section \<open>The agent\<close>

record agent =
  agCfg :: AgentConfig
  agInstances :: "(string, managed) gomap"
  agDefs :: inst_defs
  agMesh :: mesh_node
  agCrashed :: bool \<comment> \<open>an unrecovered panic has ended the process\<close>

definition New :: "'w env \<Rightarrow> AgentConfig \<Rightarrow> 'w host \<Rightarrow> agent" where
  "New en cfg h =
     \<lparr>agCfg = cfg, agInstances = [], agDefs = [], agMesh = new_mesh_node en h, agCrashed = False\<rparr>"

datatype ensure_error =
    EnDocker \<comment> \<open>not installed or not running\<close>
  | EnType string
  | EnWrite os_error
  | EnCommand docker_error

datatype agent_error =
    AgNotFound string | AgExists string | AgNameRequired | AgNameInvalid string
  | AgUnknown string | AgProc proc_error | AgOs os_error | AgZip backup_error
  | AgEnsure ensure_error

definition AddInstance :: "managed \<Rightarrow> agent \<Rightarrow> agent_error option \<times> agent" where
  "AddInstance p a =
     (if map_get (agInstances a) (mgID p) \<noteq> None then (Some (AgExists (mgID p)), a)
      else (None, a\<lparr>agInstances := map_put (mgID p) p (agInstances a)\<rparr>))"

definition proc_control ::
  "'w env \<Rightarrow> string \<Rightarrow> managed \<Rightarrow> 'w host \<Rightarrow> (agent_error option \<times> managed) \<times> 'w host" where
  "proc_control en action p h =
     (let wrap = (\<lambda>((e, p1), h1). ((map_option AgProc e, p1), h1))
      in if action = ''start'' then wrap (proc_Start en p h)
         else if action = ''stop'' then wrap (proc_Stop en p h)
         else if action = ''restart'' then wrap (proc_Restart en p h)
         else if action = ''kill'' then (let (p1, h1) = proc_Kill en p h in ((None, p1), h1))
         else ((Some (AgUnknown action), p), h))"

definition ControlInstance ::
  "'w env \<Rightarrow> string \<Rightarrow> string \<Rightarrow> agent \<Rightarrow> 'w host \<Rightarrow> (agent_error option \<times> agent) \<times> 'w host" where
  "ControlInstance en instanceID action a h =
     (case map_get (agInstances a) instanceID of
        None \<Rightarrow> ((Some (AgNotFound instanceID), a), h)
      | Some p \<Rightarrow>
          let ((e, p1), h1) = proc_control en action p h
          in ((e, a\<lparr>agInstances := map_put instanceID p1 (agInstances a)\<rparr>), h1))"

definition GetInstanceState :: "string \<Rightarrow> agent \<Rightarrow> State option" where
  "GetInstanceState instanceID a = map_option mgState (map_get (agInstances a) instanceID)"

text \<open>A console command; what it changes in the container is not part of the agent's state.\<close>

definition SendInstanceCommand ::
  "docker_run \<Rightarrow> string \<Rightarrow> string \<Rightarrow> agent \<Rightarrow> (agent_error + command_error) + string" where
  "SendInstanceCommand run instanceID command a =
     (case map_get (agInstances a) instanceID of
        None \<Rightarrow> Inl (Inl (AgNotFound instanceID))
      | Some p \<Rightarrow>
          (case SendCommand run (mgState p) (mgType p) (mgContainer p) command of
             Inl e \<Rightarrow> Inl (Inr e) | Inr out \<Rightarrow> Inr out))"

section \<open>Making sure that a container exists\<close>

definition env_overrides :: "InstanceDef \<Rightarrow> (string, string) gomap" where
  "env_overrides def =
     (if idType def = ''minecraft''
      then [(''JAVA_TOOL_OPTIONS'', ''-Xms'' @ idMemoryMin def @ '' -Xmx'' @ idMemoryMax def)]
      else if idType def = ''mysql'' then [(''MYSQL_ROOT_PASSWORD'', ''craftstack'')]
      else if idType def = ''postgresql'' then [(''POSTGRES_PASSWORD'', ''craftstack'')]
      else [])"

definition effective_memory :: "InstanceDef \<Rightarrow> string" where
  "effective_memory def =
     (if idDockerMemory def = '''' \<and> idMemoryMax def \<noteq> '''' then computeDockerMemory (idMemoryMax def)
      else idDockerMemory def)"

definition container_spec :: "'w env \<Rightarrow> string \<Rightarrow> InstanceDef \<Rightarrow> ContainerConfig option" where
  "container_spec en dnsIP def =
     map_option (\<lambda>c. if dnsIP \<noteq> '''' then c\<lparr>ccDNS := ccDNS c @ [dnsIP]\<rparr> else c)
       (BuildContainerConfig (enCwd en) (idName def) (idType def) (idServiceVersion def) (idPort def)
          (idWorkDir def) (env_overrides def) (effective_memory def) (idDockerCPUs def)
          (idJavaVersion def) (idNetworkName def))"

text \<open>A file of the working directory, written before docker reads it.\<close>

definition write_in :: "'w env \<Rightarrow> string \<Rightarrow> string \<Rightarrow> bytes \<Rightarrow> fs \<Rightarrow> os_error + fs" where
  "write_in en workDir name b f = os_write_file (os_path (enCwd en) (fp_join [workDir, name])) b 420 f"

definition ensure_compose :: "'w env \<Rightarrow> InstanceDef \<Rightarrow> 'w host \<Rightarrow> ensure_error option \<times> 'w host" where
  "ensure_compose en def h =
     (if idCustomCompose def = '''' then (None, h)
      else case write_in en (idWorkDir def) ''docker-compose.yml'' (string_bytes (idCustomCompose def)) (fst h) of
             Inl e \<Rightarrow> (Some (EnWrite e), h)
           | Inr f \<Rightarrow> (let (r, h1) = ComposeUp en (idWorkDir def) (f, snd h) in (map_option EnCommand r, h1)))"

definition custom_image :: "InstanceDef \<Rightarrow> string" where
  "custom_image def = ''craftstack-custom-'' @ idName def @ '':latest''"

definition ensure_image :: "'w env \<Rightarrow> InstanceDef \<Rightarrow> 'w host \<Rightarrow> ensure_error option \<times> 'w host" where
  "ensure_image en def h =
     (if idCustomDockerfile def = '''' then (None, h)
      else case write_in en (idWorkDir def) ''Dockerfile'' (string_bytes (idCustomDockerfile def)) (fst h) of
             Inl e \<Rightarrow> (Some (EnWrite e), h)
           | Inr f \<Rightarrow>
               (let (r, h1) = BuildImage en (idWorkDir def) (custom_image def) (f, snd h)
                in (map_option EnCommand r, h1)))"

definition ensure_created :: "'w env \<Rightarrow> ContainerConfig \<Rightarrow> InstanceDef \<Rightarrow> 'w host \<Rightarrow> ensure_error option \<times> 'w host" where
  "ensure_created en c def h =
     (let (exists, h1) = ContainerExists en (docker_name (idName def)) h
      in if exists then
           (None, if ccNetwork c \<noteq> ''''
                  then snd (NetworkConnect en (ccNetwork c) (docker_name (idName def)) (idName def) '''' h1)
                  else h1)
         else let (pulled, h2) = (if idCustomDockerfile def = '''' then PullImage en (ccImage c) h1 else (None, h1))
              in case pulled of
                   Some e \<Rightarrow> (Some (EnCommand e), h2)
                 | None \<Rightarrow>
                     (case CreateContainer en c h2 of
                        (Inl e, h3) \<Rightarrow> (Some (EnCommand e), h3)
                      | (Inr cid, h3) \<Rightarrow> (None, h3)))"

text \<open>The steps one after the other, until one fails.\<close>

fun ensure_steps :: "('w host \<Rightarrow> ensure_error option \<times> 'w host) list \<Rightarrow> 'w host \<Rightarrow> ensure_error option \<times> 'w host" where
  "ensure_steps [] h = (None, h)"
| "ensure_steps (s # ss) h =
     (case s h of (Some e, h1) \<Rightarrow> (Some e, h1) | (None, h1) \<Rightarrow> ensure_steps ss h1)"

definition ensure_daemon :: "'w env \<Rightarrow> 'w host \<Rightarrow> ensure_error option \<times> 'w host" where
  "ensure_daemon en h =
     (let (running, h1) = IsRunning en h
      in if running then (None, h1)
         else let (ready, h2) = EnsureDocker en h1 in (if ready then None else Some EnDocker, h2))"

definition ensure_network :: "'w env \<Rightarrow> ContainerConfig \<Rightarrow> 'w host \<Rightarrow> ensure_error option \<times> 'w host" where
  "ensure_network en c h =
     (None, if ccNetwork c \<noteq> '''' then snd (NetworkCreate en (ccNetwork c) ''bridge'' '''' '''' h) else h)"

definition NewDocker_process :: "string \<Rightarrow> InstanceDef \<Rightarrow> managed" where
  "NewDocker_process instID def =
     \<lparr>mgID = instID, mgName = idName def, mgType = idType def, mgContainer = docker_name (idName def),
      mgState = StateStopped, mgPid = 0\<rparr>"

definition ensureDockerContainer ::
  "'w env \<Rightarrow> string \<Rightarrow> string \<Rightarrow> InstanceDef \<Rightarrow> 'w host \<Rightarrow> (ensure_error + managed) \<times> 'w host" where
  "ensureDockerContainer en dnsIP instID def h =
     (case ensure_daemon en h of
        (Some e, h1) \<Rightarrow> (Inl e, h1)
      | (None, h1) \<Rightarrow>
          (case container_spec en dnsIP def of
             None \<Rightarrow> (Inl (EnType (idType def)), h1)
           | Some c0 \<Rightarrow>
               let c = (if idCustomDockerfile def \<noteq> '''' then c0\<lparr>ccImage := custom_image def\<rparr> else c0)
               in case ensure_steps [ensure_network en c0, ensure_compose en def, ensure_image en def,
                         ensure_created en c def] h1 of
                    (Some e, h2) \<Rightarrow> (Inl e, h2)
                  | (None, h2) \<Rightarrow>
                      (let (p, h3) = proc_RefreshState en (NewDocker_process instID def) h2 in (Inr p, h3))))"

section \<open>Taking over the master's list\<close>

definition def_of_config :: "InstanceConfig \<Rightarrow> InstanceDef" where
  "def_of_config ic =
     \<lparr>idType = icInstanceType ic, idName = icName ic, idPort = icPort ic, idWorkDir = icWorkDir ic,
      idServerJar = icServerJar ic, idMemoryMin = icMemoryMin ic, idMemoryMax = icMemoryMax ic,
      idJavaPath = icJavaPath ic, idAutoStart = icAutoStart ic, idAutoRestart = icAutoRestart ic,
      idRestartDelaySec = icRestartDelaySec ic, idStopCommand = icStopCommand ic,
      idJVMArgs = icJvmArgs ic, idRCONEnabled = False, idRCONPort = 0, idRCONPassword = '''',
      idAcceptEULA = icAcceptEula ic, idServiceVersion = icServiceVersion ic,
      idJavaVersion = icJavaVersion ic, idCustomDockerfile = icCustomDockerfile ic,
      idCustomCompose = icCustomCompose ic, idNetworkName = icNetworkName ic,
      idDockerMemory = icDockerMemory ic, idDockerCPUs = icDockerCpus ic\<rparr>"

text \<open>\<^verbatim>\<open>os.MkdirAll\<close> on the path as it is written; the empty path names no file.\<close>

definition mkdir_in :: "'w env \<Rightarrow> string \<Rightarrow> fs \<Rightarrow> os_error + fs" where
  "mkdir_in en dir f = (if dir = '''' then Inl ENOENT else os_mkdir_all (os_path (enCwd en) dir) 493 f)"

definition is_missing :: "'w env \<Rightarrow> string \<Rightarrow> fs \<Rightarrow> bool" where
  "is_missing en p f \<longleftrightarrow> os_stat f (os_path (enCwd en) p) = Inl ENOENT"

text \<open>\<^verbatim>\<open>_ = os.WriteFile(...)\<close>: the error is dropped.\<close>

definition try_write :: "'w env \<Rightarrow> string \<Rightarrow> string \<Rightarrow> string \<Rightarrow> fs \<Rightarrow> fs" where
  "try_write en workDir name content f =
     (case write_in en workDir name (string_bytes content) f of Inl e \<Rightarrow> f | Inr f1 \<Rightarrow> f1)"

definition eula_text :: string where
  "eula_text =
     ''# CraftStack auto create'' @ [CHR 0x0A] @ ''# https://aka.ms/MinecraftEULA'' @ [CHR 0x0A] @
     ''eula=true'' @ [CHR 0x0A]"

text \<open>The comment line holds a dash that is three bytes in UTF-8.\<close>

definition props_text :: "int \<Rightarrow> string" where
  "props_text port =
     ''# CraftStack auto create '' @ [CHR 0xE2, CHR 0x80, CHR 0x94] @
     '' additional settings auto-added after server start'' @ [CHR 0x0A] @
     ''server-port='' @ itoa port @ [CHR 0x0A]"

definition sync_files :: "'w env \<Rightarrow> InstanceDef \<Rightarrow> fs \<Rightarrow> fs" where
  "sync_files en def f =
     (let wd = idWorkDir def;
          f1 = (if idType def = ''minecraft'' \<and> idAcceptEULA def \<and> is_missing en (fp_join [wd, ''eula.txt'']) f
                then try_write en wd ''eula.txt'' eula_text f else f)
      in if idType def = ''minecraft'' \<and> is_missing en (fp_join [wd, ''server.properties'']) f1
         then try_write en wd ''server.properties'' (props_text (idPort def)) f1 else f1)"

definition auto_start :: "'w env \<Rightarrow> string \<Rightarrow> InstanceDef \<Rightarrow> managed \<Rightarrow> agent \<Rightarrow> 'w host \<Rightarrow> agent \<times> 'w host" where
  "auto_start en instID def p a h =
     (if \<not> idAutoStart def \<or> mgState p = StateRunning \<or> mgState p = StateStarting then (a, h)
      else if idType def = ''minecraft'' \<and> is_missing en (fp_join [idWorkDir def, idServerJar def]) (fst h) then (a, h)
      else let ((e, a1), h1) = ControlInstance en instID ''start'' a h in (a1, h1))"

definition sync_instance :: "'w env \<Rightarrow> InstanceConfig \<Rightarrow> agent \<times> 'w host \<Rightarrow> agent \<times> 'w host" where
  "sync_instance en ic s =
     (case s of (a, h) \<Rightarrow>
        if agCrashed a \<or> map_get (agInstances a) (icInstanceId ic) \<noteq> None then (a, h)
        else let def = default_instance (acJavaPath (agCfg a)) (def_of_config ic)
             in case mkdir_in en (idWorkDir def) (fst h) of
                  Inl e \<Rightarrow> (a, h)
                | Inr f \<Rightarrow>
                    (case ensureDockerContainer en (mnDNSListenIP (agMesh a)) (icInstanceId ic) def
                            (sync_files en def f, snd h) of
                       (Inl e, h1) \<Rightarrow> (a\<lparr>agCrashed := (e = EnCommand DkPanic)\<rparr>, h1)
                     | (Inr p, h1) \<Rightarrow>
                         (case AddInstance p a of
                            (Some err, a1) \<Rightarrow> (a1, h1)
                          | (None, a1) \<Rightarrow>
                              auto_start en (icInstanceId ic) def p
                                (a1\<lparr>agDefs := map_put (icInstanceId ic) def (agDefs a1)\<rparr>) h1)))"

definition syncInstances :: "'w env \<Rightarrow> InstanceConfig list \<Rightarrow> agent \<times> 'w host \<Rightarrow> agent \<times> 'w host" where
  "syncInstances en configs s = fold (sync_instance en) configs s"

section \<open>Creating and removing\<close>

definition alnum :: "char \<Rightarrow> bool" where
  "alnum c \<longleftrightarrow> (let k = (of_char c :: nat) in 97 \<le> k \<and> k \<le> 122 \<or> 65 \<le> k \<and> k \<le> 90 \<or> 48 \<le> k \<and> k \<le> 57)"

text \<open>\<^verbatim>\<open>^[a-zA-Z0-9][a-zA-Z0-9._-]*$\<close>\<close>

definition agentNameRe :: "string \<Rightarrow> bool" where
  "agentNameRe s \<longleftrightarrow>
     (case s of [] \<Rightarrow> False
      | c # cs \<Rightarrow> alnum c \<and> list_all (\<lambda>d. alnum d \<or> d = CHR ''.'' \<or> d = CHR ''_'' \<or> d = CHR ''-'') cs)"

record AgentCreateRequest =
  ciName :: string
  ciPort :: int
  ciMemoryMin :: string
  ciMemoryMax :: string
  ciServerJarName :: string
  ciServerJarData :: bytes
  ciAutoStart :: bool
  ciAutoRestart :: bool
  ciAcceptEula :: bool
  ciStartAfterCreate :: bool
  ciJavaPath :: string
  ciJvmArgs :: "string list"
  ciInstanceType :: string
  ciJavaVersion :: string
  ciCustomDockerfile :: string
  ciCustomCompose :: string
  ciNetworkName :: string
  ciServerZipName :: string
  ciServerZipData :: bytes

definition instance_id :: "agent \<Rightarrow> string \<Rightarrow> string" where
  "instance_id a name = acID (agCfg a) @ ''-'' @ name"

definition server_dir :: "string \<Rightarrow> string" where
  "server_dir name = fp_join [''./servers'', name]"

definition def_of_request :: "agent \<Rightarrow> AgentCreateRequest \<Rightarrow> InstanceDef" where
  "def_of_request a r =
     \<lparr>idType = str_default ''minecraft'' (ciInstanceType r), idName = ciName r,
      idPort = (if ciPort r = 0 then 25565 else ciPort r), idWorkDir = server_dir (ciName r),
      idServerJar = str_default ''server.jar'' (ciServerJarName r),
      idMemoryMin = str_default ''512M'' (ciMemoryMin r), idMemoryMax = str_default ''1024M'' (ciMemoryMax r),
      idJavaPath = str_default (acJavaPath (agCfg a)) (ciJavaPath r), idAutoStart = ciAutoStart r,
      idAutoRestart = ciAutoRestart r, idRestartDelaySec = 10, idStopCommand = ''stop'',
      idJVMArgs = ciJvmArgs r, idRCONEnabled = False, idRCONPort = 0, idRCONPassword = '''',
      idAcceptEULA = ciAcceptEula r, idServiceVersion = '''', idJavaVersion = ciJavaVersion r,
      idCustomDockerfile = ciCustomDockerfile r, idCustomCompose = ciCustomCompose r,
      idNetworkName = ciNetworkName r, idDockerMemory = '''', idDockerCPUs = ''''\<rparr>"

text \<open>A jar found in the archive replaces the default name.\<close>

definition unpack_upload ::
  "(bytes \<Rightarrow> zip_entry list option) \<Rightarrow> 'w env \<Rightarrow> AgentCreateRequest \<Rightarrow> InstanceDef \<Rightarrow> fs \<Rightarrow>
   (backup_error + InstanceDef) \<times> fs" where
  "unpack_upload zipDec en r def f =
     (if ciServerZipData r = [] then (Inr def, f)
      else case extractServerZip zipDec (enCwd en) (ciServerZipData r) (idWorkDir def) f of
             (Inl e, f1) \<Rightarrow> (Inl e, f1)
           | (Inr detectedJar, f1) \<Rightarrow>
               (Inr (if idType def = ''minecraft'' \<and> detectedJar \<noteq> '''' \<and> idServerJar def = ''server.jar''
                     then def\<lparr>idServerJar := detectedJar\<rparr> else def), f1))"

definition create_files :: "'w env \<Rightarrow> AgentCreateRequest \<Rightarrow> InstanceDef \<Rightarrow> fs \<Rightarrow> os_error + fs" where
  "create_files en r def f =
     (if idType def \<noteq> ''minecraft'' then Inr f
      else case (if ciServerJarData r \<noteq> [] \<and> ciServerZipData r = []
                 then write_in en (idWorkDir def) (idServerJar def) (ciServerJarData r) f else Inr f) of
             Inl e \<Rightarrow> Inl e
           | Inr f1 \<Rightarrow>
               (let f2 = (if ciAcceptEula r then try_write en (idWorkDir def) ''eula.txt'' eula_text f1 else f1)
                in Inr (if is_missing en (fp_join [idWorkDir def, ''server.properties'']) f2
                        then try_write en (idWorkDir def) ''server.properties'' (props_text (idPort def)) f2
                        else f2)))"

definition CreateNewInstance ::
  "(bytes \<Rightarrow> zip_entry list option) \<Rightarrow> 'w env \<Rightarrow> AgentCreateRequest \<Rightarrow> agent \<Rightarrow> 'w host \<Rightarrow>
   ((agent_error + string) \<times> agent) \<times> 'w host" where
  "CreateNewInstance zipDec en r a h =
     (let instID = instance_id a (ciName r); def0 = def_of_request a r
      in if ciName r = '''' then ((Inl AgNameRequired, a), h)
         else if \<not> agentNameRe (ciName r) then ((Inl (AgNameInvalid (ciName r)), a), h)
         else if map_get (agInstances a) instID \<noteq> None then ((Inl (AgExists (ciName r)), a), h)
         else case mkdir_in en (idWorkDir def0) (fst h) of
                Inl e \<Rightarrow> ((Inl (AgOs e), a), h)
              | Inr f1 \<Rightarrow>
                  (case unpack_upload zipDec en r def0 f1 of
                     (Inl e, f2) \<Rightarrow> ((Inl (AgZip e), a), (f2, snd h))
                   | (Inr def, f2) \<Rightarrow>
                       (case create_files en r def f2 of
                          Inl e \<Rightarrow> ((Inl (AgOs e), a), (f2, snd h))
                        | Inr f3 \<Rightarrow>
                            (case ensureDockerContainer en (mnDNSListenIP (agMesh a)) instID def (f3, snd h) of
                               (Inl e, h1) \<Rightarrow>
                                 ((Inl (AgEnsure e), a\<lparr>agCrashed := (e = EnCommand DkPanic)\<rparr>), h1)
                             | (Inr p, h1) \<Rightarrow>
                                 (case AddInstance p a of
                                    (Some err, a1) \<Rightarrow> ((Inl err, a1), h1)
                                  | (None, a1) \<Rightarrow>
                                      let a2 = a1\<lparr>agDefs := map_put instID def (agDefs a1)\<rparr>
                                      in if ciStartAfterCreate r
                                         then let ((e, a3), h2) = ControlInstance en instID ''start'' a2 h1
                                              in ((Inr instID, a3), h2)
                                         else ((Inr instID, a2), h1))))))"

text \<open>\<^verbatim>\<open>os.RemoveAll\<close> refuses a path whose last component is a dot.\<close>

definition ends_with_dot :: "string \<Rightarrow> bool" where
  "ends_with_dot s \<longleftrightarrow> s = ''.'' \<or> has_suffix s ''/.''"

definition remove_data :: "'w env \<Rightarrow> string \<Rightarrow> fs \<Rightarrow> fs" where
  "remove_data en dir f =
     (if ends_with_dot dir then f
      else case os_remove_all (os_path (enCwd en) dir) f of Inl e \<Rightarrow> f | Inr f1 \<Rightarrow> f1)"

definition stop_for_removal :: "'w env \<Rightarrow> managed \<Rightarrow> 'w host \<Rightarrow> 'w host" where
  "stop_for_removal en p h =
     (if mgState p = StateRunning \<or> mgState p = StateStarting
      then (let ((e, p1), h1) = proc_Stop en p h in if e = None then h1 else snd (proc_Kill en p1 h1))
      else h)"

definition RemoveInstance ::
  "'w env \<Rightarrow> string \<Rightarrow> bool \<Rightarrow> agent \<Rightarrow> 'w host \<Rightarrow> (agent_error option \<times> agent) \<times> 'w host" where
  "RemoveInstance en instanceID removeData a h =
     (case map_get (agInstances a) instanceID of
        None \<Rightarrow> ((Some (AgNotFound instanceID), a), h)
      | Some p \<Rightarrow>
          let h1 = stop_for_removal en p h;
              c = docker_name (mgName p);
              (exists, h2) = ContainerExists en c h1;
              h3 = (if exists then snd (RemoveContainer en c True h2) else h2);
              a1 = a\<lparr>agInstances := map_del instanceID (agInstances a), agDefs := map_del instanceID (agDefs a)\<rparr>
          in ((None, a1),
              case map_get (agDefs a) instanceID of
                None \<Rightarrow> h3
              | Some def \<Rightarrow>
                  if removeData \<and> idWorkDir def \<noteq> ''''
                  then (remove_data en (idWorkDir def) (fst h3), snd h3) else h3))"

end
