(* ===== verification/Agent_Service.thy ===== *)
theory Agent_Service
  imports Agent_Instances
begin

text \<open>
  The requests an agent serves to the master (\<^verbatim>\<open>internal/agent/grpc_agent_service.go\<close>, the console
  command of \<^verbatim>\<open>grpc_metrics_service.go\<close>) and what it reports (\<^verbatim>\<open>heartbeat.go\<close>). A reply with
  \<^verbatim>\<open>Success: false\<close> is \<open>Inl\<close> with the error its message is made from. The mesh requests are in
  \<open>Mesh_Node\<close>, the file requests in \<open>File_Service\<close> and \<open>File_Sync\<close>.
\<close>

datatype service_error =
    SeText string
  | SeAgent agent_error
  | SeCommand command_error
  | SeDocker docker_error
  | SeBackup backup_error

fun processStateToProto :: "State \<Rightarrow> InstanceState" where
  "processStateToProto StateStopped = INSTANCE_STATE_STOPPED"
| "processStateToProto StateStarting = INSTANCE_STATE_STARTING"
| "processStateToProto StateRunning = INSTANCE_STATE_RUNNING"
| "processStateToProto StateStopping = INSTANCE_STATE_STOPPING"
| "processStateToProto StateCrashed = INSTANCE_STATE_CRASHED"

section \<open>Instances\<close>

datatype AgentAction = ACTION_UNKNOWN | ACTION_START | ACTION_STOP | ACTION_RESTART | ACTION_KILL

fun control_name :: "AgentAction \<Rightarrow> string option" where
  "control_name ACTION_START = Some ''start''"
| "control_name ACTION_STOP = Some ''stop''"
| "control_name ACTION_RESTART = Some ''restart''"
| "control_name ACTION_KILL = Some ''kill''"
| "control_name ACTION_UNKNOWN = None"

text \<open>\<^verbatim>\<open>state, _ := GetInstanceState(...)\<close>: no state reads as the empty one.\<close>

definition current_state :: "string \<Rightarrow> agent \<Rightarrow> InstanceState" where
  "current_state instanceID a =
     (case GetInstanceState instanceID a of None \<Rightarrow> INSTANCE_STATE_UNKNOWN | Some s \<Rightarrow> processStateToProto s)"

definition agent_ControlInstance ::
  "'w env \<Rightarrow> string \<Rightarrow> AgentAction \<Rightarrow> agent \<Rightarrow> 'w host \<Rightarrow> ((service_error + InstanceState) \<times> agent) \<times> 'w host" where
  "agent_ControlInstance en instanceID action a h =
     (case control_name action of
        None \<Rightarrow> ((Inl (SeText ''unknown action''), a), h)
      | Some act \<Rightarrow>
          (case ControlInstance en instanceID act a h of
             ((Some e, a1), h1) \<Rightarrow> ((Inl (SeAgent e), a1), h1)
           | ((None, a1), h1) \<Rightarrow> ((Inr (current_state instanceID a1), a1), h1)))"

text \<open>Identifier, name and state; the uptime is left out.\<close>

definition agent_ListInstances :: "agent \<Rightarrow> (string \<times> string \<times> InstanceState) list" where
  "agent_ListInstances a = map (\<lambda>(i, p). (i, mgName p, processStateToProto (mgState p))) (agInstances a)"

definition agent_CreateInstance ::
  "(bytes \<Rightarrow> zip_entry list option) \<Rightarrow> 'w env \<Rightarrow> AgentCreateRequest \<Rightarrow> agent \<Rightarrow> 'w host \<Rightarrow>
   ((service_error + string) \<times> agent) \<times> 'w host" where
  "agent_CreateInstance zipDec en r a h =
     (if ciName r = '''' then ((Inl (SeText ''instance name required''), a), h)
      else let r1 = r\<lparr>ciInstanceType := str_default ''minecraft'' (ciInstanceType r),
                     ciNetworkName := str_default ''craftstack-default'' (ciNetworkName r)\<rparr>
           in case CreateNewInstance zipDec en r1 a h of
                ((Inl e, a1), h1) \<Rightarrow> ((Inl (SeAgent e), a1), h1)
              | ((Inr instID, a1), h1) \<Rightarrow> ((Inr instID, a1), h1))"

definition agent_DeleteInstance ::
  "'w env \<Rightarrow> string \<Rightarrow> bool \<Rightarrow> agent \<Rightarrow> 'w host \<Rightarrow> (service_error option \<times> agent) \<times> 'w host" where
  "agent_DeleteInstance en instanceID removeData a h =
     (if instanceID = '''' then ((Some (SeText ''instance ID required''), a), h)
      else let ((e, a1), h1) = RemoveInstance en instanceID removeData a h
           in ((map_option SeAgent e, a1), h1))"

definition agent_SendCommand :: "docker_run \<Rightarrow> string \<Rightarrow> string \<Rightarrow> agent \<Rightarrow> service_error + string" where
  "agent_SendCommand run instanceID command a =
     (case SendInstanceCommand run instanceID command a of
        Inl (Inl e) \<Rightarrow> Inl (SeAgent e)
      | Inl (Inr e) \<Rightarrow> Inl (SeCommand e)
      | Inr output \<Rightarrow> Inr (str_default ''command sent'' output))"

section \<open>Backups\<close>

definition managed_def :: "string \<Rightarrow> agent \<Rightarrow> (managed \<times> InstanceDef) option" where
  "managed_def instanceID a =
     (case map_get (agInstances a) instanceID of
        None \<Rightarrow> None
      | Some p \<Rightarrow> map_option (Pair p) (map_get (agDefs a) instanceID))"

text \<open>\<open>stamp\<close> is the formatted time, \<open>mtime\<close> the modification time of a file of the backup directory.\<close>

definition agent_BackupInstance ::
  "(zip_entry list \<Rightarrow> bytes) \<Rightarrow> (bytes \<Rightarrow> string) \<Rightarrow> (string \<Rightarrow> int) \<Rightarrow> string \<Rightarrow> 'w env \<Rightarrow> string \<Rightarrow> string \<Rightarrow>
   agent \<Rightarrow> 'w host \<Rightarrow> (service_error + backup_result) \<times> 'w host" where
  "agent_BackupInstance zipEnc sha mtime stamp en instanceID label a h =
     (case managed_def instanceID a of
        None \<Rightarrow> (Inl (SeText ''not found''), h)
      | Some (p, def) \<Rightarrow>
          (case CreateBackup zipEnc sha (enCwd en) (acBackupDir (agCfg a)) instanceID (idWorkDir def)
                  (str_default ''manual'' label) stamp (fst h) of
             (Inl e, f1) \<Rightarrow> (Inl (SeBackup e), (f1, snd h))
           | (Inr result, f1) \<Rightarrow>
               (let (deleted, f2) = EnforceRetention mtime (enCwd en) (acBackupDir (agCfg a))
                      (nat (acBackupMaxCount (agCfg a))) instanceID f1
                in (Inr result, (f2, snd h)))))"

definition agent_RestoreBackup ::
  "(bytes \<Rightarrow> zip_entry list option) \<Rightarrow> 'w env \<Rightarrow> string \<Rightarrow> string \<Rightarrow> bool \<Rightarrow> agent \<Rightarrow> 'w host \<Rightarrow>
   (service_error option \<times> agent) \<times> 'w host" where
  "agent_RestoreBackup zipDec en instanceID backupPath stopBefore a h =
     (if instanceID = '''' \<or> backupPath = '''' then ((Some (SeText ''instance ID backup path required''), a), h)
      else case managed_def instanceID a of
             None \<Rightarrow> ((Some (SeText ''not found''), a), h)
           | Some (p, def) \<Rightarrow>
               let (a1, h1) = (if stopBefore \<and> mgState p = StateRunning
                               then (let ((e, p1), h1) = proc_Stop en p h
                                     in (a\<lparr>agInstances := map_put instanceID p1 (agInstances a)\<rparr>, h1))
                               else (a, h));
                   (e, f) = RestoreBackup zipDec (enCwd en) backupPath (idWorkDir def) (fst h1)
               in ((map_option SeBackup e, a1), (f, snd h1)))"

section \<open>Docker\<close>

record CheckDockerResponse =
  cdInstalled :: bool
  cdRunning :: bool
  cdVersion :: string
  cdMessage :: string

definition agent_CheckDocker :: "'w env \<Rightarrow> 'w host \<Rightarrow> CheckDockerResponse \<times> 'w host" where
  "agent_CheckDocker en h =
     (let (installed, h1) = IsInstalled en h; (running, h2) = IsRunning en h1
      in if \<not> installed
         then (\<lparr>cdInstalled = installed, cdRunning = running, cdVersion = '''',
               cdMessage = ''Docker installis not set''\<rparr>, h2)
         else if \<not> running
         then (\<lparr>cdInstalled = installed, cdRunning = running, cdVersion = '''',
               cdMessage = ''Docker install but daemon execute without ''\<rparr>, h2)
         else let (ver, h3) = Version en h2
              in (\<lparr>cdInstalled = installed, cdRunning = running,
                   cdVersion = (case ver of Inl e \<Rightarrow> '''' | Inr v \<Rightarrow> v), cdMessage = ''Docker normal running''\<rparr>, h3))"

definition agent_InstallDocker :: "'w env \<Rightarrow> 'w host \<Rightarrow> (service_error + string) \<times> 'w host" where
  "agent_InstallDocker en h =
     (let (r, h1) = CheckAndInstall en h
      in (case r of
            InstallMissing \<Rightarrow> Inl (SeText ''docker is not installed on this host'')
          | InstallStopped \<Rightarrow> Inl (SeText ''docker daemon is not running'')
          | InstallReady \<Rightarrow> Inr ''Docker ready'', h1))"

definition agent_CreateNetwork ::
  "'w env \<Rightarrow> string \<Rightarrow> string \<Rightarrow> string \<Rightarrow> string \<Rightarrow> 'w host \<Rightarrow> (service_error + string) \<times> 'w host" where
  "agent_CreateNetwork en name driver subnet gateway h =
     (if name = '''' then (Inl (SeText ''network name required''), h)
      else case NetworkCreate en name driver subnet gateway h of
             (Inl e, h1) \<Rightarrow> (Inl (SeDocker e), h1) | (Inr networkID, h1) \<Rightarrow> (Inr networkID, h1))"

definition agent_DeleteNetwork :: "'w env \<Rightarrow> string \<Rightarrow> 'w host \<Rightarrow> service_error option \<times> 'w host" where
  "agent_DeleteNetwork en name h =
     (if name = '''' then (Some (SeText ''network name required''), h)
      else let (e, h1) = NetworkRemove en name h in (map_option SeDocker e, h1))"

record DockerNetworkInfo =
  dnId :: string
  dnName :: string
  dnDriver :: string
  dnScope :: string
  dnContainerCount :: int
  dnSubnet :: string
  dnGateway :: string

definition network_info :: "NetworkInfo \<Rightarrow> DockerNetworkInfo" where
  "network_info n =
     \<lparr>dnId = niID n, dnName = niName n, dnDriver = niDriver n, dnScope = niScope n,
      dnContainerCount = wrap32 (int (length (niContainers n))),
      dnSubnet = (case niConfig n of [] \<Rightarrow> '''' | c # cs \<Rightarrow> fst c),
      dnGateway = (case niConfig n of [] \<Rightarrow> '''' | c # cs \<Rightarrow> snd c)\<rparr>"

definition agent_ListNetworks ::
  "(string \<Rightarrow> NetworkInfo list option) \<Rightarrow> 'w env \<Rightarrow> 'w host \<Rightarrow> (docker_error + DockerNetworkInfo list) \<times> 'w host" where
  "agent_ListNetworks decode en h =
     (case NetworkList decode en h of
        (Inl e, h1) \<Rightarrow> (Inl e, h1) | (Inr ns, h1) \<Rightarrow> (Inr (map network_info ns), h1))"

definition agent_ConnectNetwork ::
  "'w env \<Rightarrow> string \<Rightarrow> string \<Rightarrow> string \<Rightarrow> string \<Rightarrow> 'w host \<Rightarrow> service_error option \<times> 'w host" where
  "agent_ConnectNetwork en networkName containerName ali ipAddress h =
     (if networkName = '''' \<or> containerName = '''' then (Some (SeText ''network name container name required''), h)
      else let (e, h1) = NetworkConnect en networkName containerName ali ipAddress h in (map_option SeDocker e, h1))"

definition agent_DisconnectNetwork :: "'w env \<Rightarrow> string \<Rightarrow> string \<Rightarrow> 'w host \<Rightarrow> service_error option \<times> 'w host" where
  "agent_DisconnectNetwork en networkName containerName h =
     (if networkName = '''' \<or> containerName = '''' then (Some (SeText ''network name container name required''), h)
      else let (e, h1) = NetworkDisconnect en networkName containerName h in (map_option SeDocker e, h1))"

section \<open>Uploads\<close>

record UploadRequest =
  upInstanceName :: string
  upFileType :: string
  upFileName :: string
  upTotalSize :: int
  upChunkData :: bytes

text \<open>The stream is its messages, and whether it ends well. The temporary file holds the chunks.\<close>

definition save_upload ::
  "(bytes \<Rightarrow> zip_entry list option) \<Rightarrow> 'w env \<Rightarrow> string \<Rightarrow> string \<Rightarrow> string \<Rightarrow> bytes \<Rightarrow> fs \<Rightarrow>
   (service_error + string) \<times> fs" where
  "save_upload zipDec en workDir fileType fileName content f =
     (case mkdir_in en workDir f of
        Inl e \<Rightarrow> (Inl (SeAgent (AgOs e)), f)
      | Inr f1 \<Rightarrow>
          if to_lower fileType = ''jar'' then
            (case os_write_file (os_path (enCwd en) (fp_join [workDir, fileName])) content 438 f1 of
               Inl e \<Rightarrow> (Inl (SeAgent (AgOs e)), f1)
             | Inr f2 \<Rightarrow> (Inr '''', f2))
          else if to_lower fileType = ''zip'' then
            (case extractServerZip zipDec (enCwd en) content workDir f1 of
               (Inl e, f2) \<Rightarrow> (Inl (SeBackup e), f2) | (Inr jar, f2) \<Rightarrow> (Inr jar, f2))
          else (Inl (SeText ''support not file type''), f1))"

definition detected_jar :: "string \<Rightarrow> string \<Rightarrow> agent \<Rightarrow> agent" where
  "detected_jar instID jar a =
     (case map_get (agDefs a) instID of
        None \<Rightarrow> a
      | Some def \<Rightarrow>
          if jar \<noteq> '''' \<and> (idServerJar def = '''' \<or> idServerJar def = ''server.jar'')
          then a\<lparr>agDefs := map_put instID (def\<lparr>idServerJar := jar\<rparr>) (agDefs a)\<rparr> else a)"

definition UploadServerData ::
  "(bytes \<Rightarrow> zip_entry list option) \<Rightarrow> 'w env \<Rightarrow> UploadRequest list \<Rightarrow> bool \<Rightarrow> agent \<Rightarrow> fs \<Rightarrow>
   ((service_error + string) \<times> agent) \<times> fs" where
  "UploadServerData zipDec en msgs ended a f =
     (case msgs of
        [] \<Rightarrow> ((Inl (SeText (if ended then ''data receivecannotdone'' else ''stream'')), a), f)
      | m # ms \<Rightarrow>
          if upInstanceName m = '''' \<or> upFileName m = ''''
          then ((Inl (SeText ''instance name file name required''), a), f)
          else if \<not> ended then ((Inl (SeText ''stream''), a), f)
          else (case save_upload zipDec en (server_dir (upInstanceName m)) (upFileType m) (upFileName m)
                       (concat (map upChunkData msgs)) f of
                  (Inl e, f1) \<Rightarrow> ((Inl e, a), f1)
                | (Inr jar, f1) \<Rightarrow> ((Inr jar, detected_jar (instance_id a (upInstanceName m)) jar a), f1)))"

section \<open>The heartbeat\<close>

record ContainerStats =
  csCPUPercent :: rat
  csMemoryUsageMB :: int
  csMemoryLimitMB :: int
  csNetRxBytes :: int
  csNetTxBytes :: int
  csBlockReadBytes :: int
  csBlockWriteBytes :: int

definition no_stats :: ContainerStats where
  "no_stats = \<lparr>csCPUPercent = 0, csMemoryUsageMB = 0, csMemoryLimitMB = 0, csNetRxBytes = 0, csNetTxBytes = 0,
     csBlockReadBytes = 0, csBlockWriteBytes = 0\<rparr>"

text \<open>
  \<open>stats\<close> are the figures of a container that docker reports, \<open>os\<close> those of the operating
  system (\<^verbatim>\<open>CollectOS\<close>). Percentages are exact numbers where the code has floating point.
\<close>

definition instance_status :: "(string \<Rightarrow> ContainerStats option) \<Rightarrow> string \<times> managed \<Rightarrow> InstanceStatus" where
  "instance_status stats ip =
     (case ip of (i, p) \<Rightarrow>
        let s = (if mgState p = StateRunning
                 then (case stats (docker_name (mgName p)) of None \<Rightarrow> no_stats | Some s \<Rightarrow> s) else no_stats)
        in \<lparr>isInstanceId = i, isState = processStateToProto (mgState p), isCpuPercent = csCPUPercent s,
            isMemoryUsedMb = csMemoryUsageMB s, isMemoryLimitMb = csMemoryLimitMB s,
            isNetRxBytes = csNetRxBytes s, isNetTxBytes = csNetTxBytes s,
            isBlockReadBytes = csBlockReadBytes s, isBlockWriteBytes = csBlockWriteBytes s\<rparr>)"

record OSMetrics =
  omCPUUsagePercent :: rat
  omMemoryTotalMB :: int
  omMemoryUsedMB :: int
  omDiskTotalMB :: int
  omDiskUsedMB :: int

definition agent_status :: "OSMetrics \<Rightarrow> AgentStatus" where
  "agent_status m =
     \<lparr>asCpuUsagePercent = omCPUUsagePercent m,
      asMemoryUsagePercent =
        (if 0 < omMemoryTotalMB m then of_int (omMemoryUsedMB m) / of_int (omMemoryTotalMB m) * 100 else 0),
      asMemoryUsedMb = omMemoryUsedMB m, asMemoryTotalMb = omMemoryTotalMB m,
      asDiskTotalMb = omDiskTotalMB m, asDiskUsedMb = omDiskUsedMB m\<rparr>"

definition buildHeartbeatRequest ::
  "(string \<Rightarrow> ContainerStats option) \<Rightarrow> OSMetrics option \<Rightarrow> agent \<Rightarrow> HeartbeatRequest" where
  "buildHeartbeatRequest stats os a =
     \<lparr>hrAgentId = acID (agCfg a), hrInstances = map (instance_status stats) (agInstances a),
      hrStatus = map_option agent_status os\<rparr>"

text \<open>What the agent does with a response: the list is only looked at when it is not empty.\<close>

definition heartbeat_response ::
  "'w env \<Rightarrow> InstanceConfig list \<Rightarrow> (string \<times> string) list \<Rightarrow> agent \<times> 'w host \<Rightarrow> agent \<times> 'w host" where
  "heartbeat_response en configs records s =
     (let (a, h) = (if configs \<noteq> [] then syncInstances en configs s else s)
      in (if records \<noteq> [] then a\<lparr>agMesh := updateDNSRecords records (agMesh a)\<rparr> else a, h))"

end
