(* ===== verification/Agent_Properties.thy ===== *)
theory Agent_Properties
  imports Agent_Service File_Trees
begin

text \<open>
  What holds of an agent whatever requests, heartbeats and container exits it sees
  (\<open>agent_wf\<close>), what one synchronisation achieves, and where creating, uploading and removing
  reach in the files. Docker is constrained by named hypotheses only.
\<close>

section \<open>The state is well typed\<close>

definition managed_ok :: "string \<Rightarrow> managed \<Rightarrow> InstanceDef \<Rightarrow> bool" where
  "managed_ok i p d \<longleftrightarrow>
     mgID p = i \<and> mgName p = idName d \<and> mgType p = idType d \<and> mgContainer p = docker_name (idName d) \<and>
     map_get DefaultImages (idType d) \<noteq> None \<and> instance_complete d"

text \<open>An instance has a process exactly when it has a definition, and the two agree.\<close>

fun paired :: "string \<Rightarrow> managed option \<Rightarrow> InstanceDef option \<Rightarrow> bool" where
  "paired i None None = True"
| "paired i (Some p) (Some d) = managed_ok i p d"
| "paired i _ _ = False"

definition agent_wf :: "agent \<Rightarrow> bool" where
  "agent_wf a \<longleftrightarrow>
     acJavaPath (agCfg a) \<noteq> '''' \<and> map_ok (agInstances a) \<and> map_ok (agDefs a) \<and>
     (\<forall>i. paired i (map_get (agInstances a) i) (map_get (agDefs a) i))"

text \<open>What a method leaves of a process.\<close>

definition same_process :: "managed \<Rightarrow> managed \<Rightarrow> bool" where
  "same_process p q \<longleftrightarrow>
     mgID q = mgID p \<and> mgName q = mgName p \<and> mgType q = mgType p \<and> mgContainer q = mgContainer p"

lemma same_process_refl [simp]: "same_process p p"
  by (simp add: same_process_def)

lemma same_process_trans: "same_process p q \<Longrightarrow> same_process q r \<Longrightarrow> same_process p r"
  by (simp add: same_process_def)

lemma managed_ok_same: "managed_ok i p d \<Longrightarrow> same_process p q \<Longrightarrow> managed_ok i q d"
  by (simp add: managed_ok_def same_process_def)

lemma proc_running_same: "proc_running en p h = (q, h') \<Longrightarrow> same_process p q \<and> mgState q = StateRunning"
  by (auto simp: proc_running_def same_process_def split: prod.splits)

lemma proc_Kill_same: "proc_Kill en p h = (q, h') \<Longrightarrow> same_process p q"
  by (auto simp: proc_Kill_def same_process_def split: prod.splits)

lemma proc_Start_same: "proc_Start en p h = ((e, q), h') \<Longrightarrow> same_process p q"
  by (auto simp: proc_Start_def Let_def same_process_def split: if_splits prod.splits dest!: proc_running_same)

lemma proc_exit_same [simp]: "same_process p (proc_exit c p)"
  by (simp add: proc_exit_def same_process_def)

lemma proc_Stop_same: "proc_Stop en p h = ((e, q), h') \<Longrightarrow> same_process p q"
  by (auto simp: proc_Stop_def proc_exit_def Let_def same_process_def split: if_splits prod.splits dest!: proc_Kill_same)

lemma proc_Restart_same:
  assumes "proc_Restart en p h = ((e, q), h')"
  shows "same_process p q"
proof (cases "mgState p = StateRunning")
  case True
  obtain e1 p1 h1 where s: "proc_Stop en p h = ((e1, p1), h1)" by (metis prod.exhaust)
  obtain p2 h2 where k: "(if e1 = None then (p1, h1) else proc_Kill en p1 h1) = (p2, h2)" by (metis prod.exhaust)
  have "proc_Start en p2 h2 = ((e, q), h')" using assms True s k by (simp add: proc_Restart_def)
  moreover have "same_process p1 p2" using k by (auto split: if_splits dest: proc_Kill_same)
  ultimately show ?thesis
    using proc_Stop_same [OF s] by (blast intro: same_process_trans proc_Start_same)
next
  case False
  then show ?thesis using assms by (simp add: proc_Restart_def proc_Start_same)
qed

lemma proc_control_same: "proc_control en act p h = ((e, q), h') \<Longrightarrow> same_process p q"
  by (auto simp: proc_control_def Let_def split: if_splits prod.splits
      dest: proc_Start_same proc_Stop_same proc_Restart_same proc_Kill_same)

lemma proc_RefreshState_same: "proc_RefreshState en p h = (q, h') \<Longrightarrow> same_process p q"
  by (auto simp: proc_RefreshState_def same_process_def split: if_splits prod.splits dest!: proc_running_same)

lemma container_spec_Some: "container_spec en ip def = Some c \<Longrightarrow> map_get DefaultImages (idType def) \<noteq> None"
  by (auto simp: container_spec_def BuildContainerConfig_def GetImageConfig_def split: option.splits)

lemma ensure_Inr:
  assumes "ensureDockerContainer en ip i def h = (Inr p, h')" "instance_complete def"
  shows "managed_ok i p def"
proof -
  obtain h2 where s: "container_spec en ip def \<noteq> None" "proc_RefreshState en (NewDocker_process i def) h2 = (p, h')"
    using assms(1) by (auto simp: ensureDockerContainer_def Let_def split: prod.splits option.splits)
  then show ?thesis
    using proc_RefreshState_same [OF s(2)] container_spec_Some assms(2)
    by (auto simp: managed_ok_def same_process_def NewDocker_process_def)
qed

subsection \<open>The four ways the two maps change\<close>

lemma wf_update:
  assumes "agent_wf a" "map_get (agInstances a) i = Some p" "same_process p q"
  shows "agent_wf (a\<lparr>agInstances := map_put i q (agInstances a)\<rparr>)"
proof -
  have "paired i (Some q) (map_get (agDefs a) i)"
    using assms managed_ok_same by (cases "map_get (agDefs a) i") (auto simp: agent_wf_def elim!: allE [where x = i])
  then show ?thesis using assms(1) by (simp add: agent_wf_def go_map_simps gm.ok_put)
qed

lemma wf_add:
  assumes "agent_wf a" "managed_ok i p d"
  shows "agent_wf (a\<lparr>agInstances := map_put i p (agInstances a), agDefs := map_put i d (agDefs a)\<rparr>)"
  using assms by (simp add: agent_wf_def go_map_simps gm.ok_put)

lemma wf_remove:
  assumes "agent_wf a"
  shows "agent_wf (a\<lparr>agInstances := map_del i (agInstances a), agDefs := map_del i (agDefs a)\<rparr>)"
  using assms by (simp add: agent_wf_def go_map_simps gm.ok_del)

lemma wf_other:
  assumes "agent_wf a" "agCfg b = agCfg a" "agInstances b = agInstances a" "agDefs b = agDefs a"
  shows "agent_wf b"
  using assms unfolding agent_wf_def by simp

subsection \<open>Every operation keeps the state well typed\<close>

lemma wf_ControlInstance:
  assumes "agent_wf a" "ControlInstance en i act a h = ((e, a'), h')"
  shows "agent_wf a'"
  using assms by (auto simp: ControlInstance_def split: option.splits prod.splits
      intro: wf_update dest: proc_control_same)

lemma add_instance:
  assumes "agent_wf a" "managed_ok i p d" "AddInstance p a = (e, a1)"
  shows "if e = None then agent_wf (a1\<lparr>agDefs := map_put i d (agDefs a1)\<rparr>) else a1 = a"
  using assms wf_add [OF assms(1,2)] by (auto simp: AddInstance_def managed_ok_def split: if_splits)

lemma wf_auto_start:
  assumes "agent_wf a" "auto_start en i d p a h = (a', h')"
  shows "agent_wf a'"
  using assms by (auto simp: auto_start_def split: if_splits prod.splits intro: wf_ControlInstance)

lemma complete_of_config: "agent_wf a \<Longrightarrow> instance_complete (default_instance (acJavaPath (agCfg a)) d)"
  by (simp add: agent_wf_def default_instance_complete)

lemma wf_sync_instance:
  assumes "agent_wf (fst s)"
  shows "agent_wf (fst (sync_instance en ic s))"
proof -
  obtain a h where s: "s = (a, h)" by (cases s)
  define def where "def = default_instance (acJavaPath (agCfg a)) (def_of_config ic)"
  have c: "instance_complete def" using complete_of_config assms by (simp add: s def_def)
  have e: "agent_wf (fst (case ensureDockerContainer en ip (icInstanceId ic) def g of
      (Inl e, h1) \<Rightarrow> (a\<lparr>agCrashed := (e = EnCommand DkPanic)\<rparr>, h1)
    | (Inr p, h1) \<Rightarrow>
        (case AddInstance p a of
           (Some err, a1) \<Rightarrow> (a1, h1)
         | (None, a1) \<Rightarrow>
             auto_start en (icInstanceId ic) def p
               (a1\<lparr>agDefs := map_put (icInstanceId ic) def (agDefs a1)\<rparr>) h1)))" for ip g
  proof -
    obtain r h1 where Pair: "ensureDockerContainer en ip (icInstanceId ic) def g = (r, h1)"
      by (metis prod.exhaust)
    show ?thesis
    proof (cases r)
      case (Inl e)
      then show ?thesis using assms Pair by (auto simp: s intro: wf_other)
    next
      case (Inr p)
      obtain e a1 where ad: "AddInstance p a = (e, a1)" by (cases "AddInstance p a")
      have "agent_wf a" using assms by (simp add: s)
      note w = add_instance [OF this ensure_Inr [OF _ c] ad, of en ip "icInstanceId ic" g h1]
      show ?thesis
      proof (cases e)
        case None
        then have "agent_wf (a1\<lparr>agDefs := map_put (icInstanceId ic) def (agDefs a1)\<rparr>)"
          using w Pair Inr by simp
        then show ?thesis using Pair Inr ad None by (simp add: wf_auto_start [OF _ surjective_pairing])
      next
        case (Some x)
        then show ?thesis using w Pair Inr ad assms by (simp add: s)
      qed
    qed
  qed
  show ?thesis
    using assms e [unfolded def_def] unfolding s sync_instance_def by (simp add: Let_def split: sum.split)
qed

lemma wf_syncInstances: "agent_wf (fst s) \<Longrightarrow> agent_wf (fst (syncInstances en cs s))"
  unfolding syncInstances_def by (induction cs arbitrary: s) (simp_all add: wf_sync_instance)

lemma complete_of_request: "agent_wf a \<Longrightarrow> instance_complete (def_of_request a r)"
  by (simp add: agent_wf_def instance_complete_def def_of_request_def server_dir_def str_default_def)

lemma complete_unpacked:
  assumes "unpack_upload zipDec en r d f = (Inr d', f')" "instance_complete d"
  shows "instance_complete d'"
  using assms by (auto simp: unpack_upload_def instance_complete_def split: if_splits prod.splits sum.splits)

lemma wf_CreateNewInstance:
  assumes wf: "agent_wf a" and c: "CreateNewInstance zipDec en r a h = ((x, a'), h')"
  shows "agent_wf a'"
proof (cases "\<exists>e. x = Inl e \<and> a' = a")
  case True
  then show ?thesis using wf by simp
next
  case False
  define i where "i = instance_id a (ciName r)"
  define d0 where "d0 = def_of_request a r"
  obtain f1 d f2 f3 y h1 where st: "mkdir_in en (idWorkDir d0) (fst h) = Inr f1"
      "unpack_upload zipDec en r d0 f1 = (Inr d, f2)" "create_files en r d f2 = Inr f3"
      and en: "ensureDockerContainer en (mnDNSListenIP (agMesh a)) i d (f3, snd h) = (y, h1)"
      and rest: "(case y of
           Inl e \<Rightarrow> ((Inl (AgEnsure e), a\<lparr>agCrashed := (e = EnCommand DkPanic)\<rparr>), h1)
         | Inr p \<Rightarrow>
             (case AddInstance p a of
                (Some err, a1) \<Rightarrow> ((Inl err, a1), h1)
              | (None, a1) \<Rightarrow>
                  let a2 = a1\<lparr>agDefs := map_put i d (agDefs a1)\<rparr>
                  in if ciStartAfterCreate r
                     then let ((e, a3), h2) = ControlInstance en i ''start'' a2 h1 in ((Inr i, a3), h2)
                     else ((Inr i, a2), h1))) = ((x, a'), h')"
    using c False unfolding CreateNewInstance_def i_def [symmetric] d0_def [symmetric]
    by (auto simp: Let_def split: if_splits sum.splits prod.splits)
  have cd: "instance_complete d"
    using complete_unpacked [OF st(2)] complete_of_request [OF wf] by (simp add: d0_def)
  show ?thesis
  proof (cases y)
    case (Inl e)
    then show ?thesis using rest wf by (auto intro: wf_other)
  next
    case (Inr p)
    obtain e a1 where ad: "AddInstance p a = (e, a1)" by (cases "AddInstance p a")
    note w = add_instance [OF wf ensure_Inr [OF en [unfolded Inr] cd] ad]
    show ?thesis
    proof (cases e)
      case None
      then show ?thesis
        using w rest Inr ad by (auto simp: Let_def split: if_splits prod.splits intro: wf_ControlInstance)
    next
      case (Some x)
      then show ?thesis using w rest Inr ad wf by auto
    qed
  qed
qed

lemma wf_RemoveInstance:
  "agent_wf a \<Longrightarrow> RemoveInstance en i rm a h = ((e, a'), h') \<Longrightarrow> agent_wf a'"
  by (auto simp: RemoveInstance_def Let_def split: option.splits prod.splits intro: wf_remove)

lemma wf_detected_jar:
  assumes "agent_wf a"
  shows "agent_wf (detected_jar i jar a)"
proof (cases "map_get (agDefs a) i")
  case (Some d)
  have p: "paired i (map_get (agInstances a) i) (Some d)" using assms Some by (metis agent_wf_def)
  then obtain p where "map_get (agInstances a) i = Some p" "managed_ok i p d"
    by (cases "map_get (agInstances a) i") auto
  then have "jar \<noteq> '''' \<Longrightarrow> paired i (map_get (agInstances a) i) (Some (d\<lparr>idServerJar := jar\<rparr>))"
    by (simp add: managed_ok_def instance_complete_def)
  then show ?thesis using assms Some by (simp add: detected_jar_def agent_wf_def go_map_simps gm.ok_put)
qed (use assms in \<open>simp add: detected_jar_def\<close>)

lemma wf_restore:
  assumes "agent_wf a" "agent_RestoreBackup zipDec en i path st a h = ((e, a'), h')"
  shows "agent_wf a'"
  using assms unfolding agent_RestoreBackup_def managed_def_def
  by (auto simp: Let_def split: if_splits option.splits prod.splits intro: wf_update dest: proc_Stop_same)

text \<open>
  Everything that changes an agent: its requests, the heartbeat, the end of a container, the mesh
  settings, and other programs changing the host.
\<close>

inductive agent_step ::
  "(bytes \<Rightarrow> zip_entry list option) \<Rightarrow> 'w env \<Rightarrow> agent \<times> 'w host \<Rightarrow> agent \<times> 'w host \<Rightarrow> bool" for zipDec en where
  step_sync: "agent_step zipDec en s (heartbeat_response en cs rs s)"
| step_control: "agent_ControlInstance en i act a h = ((x, a'), h') \<Longrightarrow> agent_step zipDec en (a, h) (a', h')"
| step_create: "agent_CreateInstance zipDec en r a h = ((x, a'), h') \<Longrightarrow> agent_step zipDec en (a, h) (a', h')"
| step_delete: "agent_DeleteInstance en i rm a h = ((x, a'), h') \<Longrightarrow> agent_step zipDec en (a, h) (a', h')"
| step_restore: "agent_RestoreBackup zipDec en i path st a h = ((x, a'), h') \<Longrightarrow> agent_step zipDec en (a, h) (a', h')"
| step_upload: "UploadServerData zipDec en ms ended a f = ((x, a'), f') \<Longrightarrow> agent_step zipDec en (a, (f, w)) (a', (f', w))"
| step_exit: "map_get (agInstances a) i = Some p \<Longrightarrow>
    agent_step zipDec en (a, h) (a\<lparr>agInstances := map_put i (proc_exit c p) (agInstances a)\<rparr>, h)"
| step_mesh: "svc_ConfigureWireGuard en cfg (agMesh a) h = ((ok, n), h') \<Longrightarrow>
    agent_step zipDec en (a, h) (a\<lparr>agMesh := n\<rparr>, h')"
| step_host: "agent_step zipDec en (a, h) (a, h')"

inductive agent_reach ::
  "(bytes \<Rightarrow> zip_entry list option) \<Rightarrow> 'w env \<Rightarrow> AgentConfig \<Rightarrow> agent \<times> 'w host \<Rightarrow> bool" for zipDec en cfg where
  reach_new: "agent_reach zipDec en cfg (New en cfg h, h)"
| reach_step: "agent_reach zipDec en cfg s \<Longrightarrow> agent_step zipDec en s s' \<Longrightarrow> agent_reach zipDec en cfg s'"

lemma wf_agent_step:
  assumes "agent_step zipDec en s s'" "agent_wf (fst s)"
  shows "agent_wf (fst s')"
  using assms
proof (induction rule: agent_step.induct)
  case (step_sync s cs rs)
  have "agent_wf (fst (syncInstances en cs s))" using step_sync by (rule wf_syncInstances)
  then show ?case using step_sync by (auto simp: heartbeat_response_def split: prod.splits intro: wf_other)
next
  case (step_control i act a h x a' h')
  then show ?case
    by (auto simp: agent_ControlInstance_def split: option.splits prod.splits intro: wf_ControlInstance)
next
  case (step_create r a h x a' h')
  then show ?case
    by (auto simp: agent_CreateInstance_def Let_def split: if_splits sum.splits prod.splits intro: wf_CreateNewInstance)
next
  case (step_delete i rm a h x a' h')
  then show ?case
    by (auto simp: agent_DeleteInstance_def split: if_splits prod.splits intro: wf_RemoveInstance)
next
  case (step_restore i path st a h x a' h')
  then show ?case by (auto intro: wf_restore)
next
  case (step_upload ms ended a f x a' f' w)
  then show ?case
    by (auto simp: UploadServerData_def split: list.splits if_splits sum.splits prod.splits intro: wf_detected_jar)
next
  case (step_exit a i p h c)
  then show ?case by (auto intro: wf_update)
next
  case (step_mesh cfg a h ok n h')
  then show ?case by (auto intro: wf_other)
qed simp

text \<open>
  C4. Type safety of the agent's state. Whatever sequence of heartbeats, requests, uploads,
  container exits and foreign changes of the host an agent has seen since it started, each
  instance has a process exactly when it has a definition; the two carry the same identifier, name
  and type, the container is the one of that name, the type is one the agent has an image for, and
  the definition has no setting left open (in particular a port, a jar and a positive delay).
\<close>

theorem agent_state_well_typed:
  assumes "agent_reach zipDec en (setAgentDefaults hostname cfg) (a, h)"
  shows "agent_wf a"
proof -
  have "agent_wf (fst s)" if "agent_reach zipDec en (setAgentDefaults hostname cfg) s" for s
    using that
  proof (induction rule: agent_reach.induct)
    case (reach_new h)
    have "acJavaPath (setAgentDefaults hostname cfg) \<noteq> ''''" by (simp add: setAgentDefaults_def Let_def)
    then show ?case by (simp add: New_def agent_wf_def)
  qed (rule wf_agent_step)
  then show ?thesis using assms by fastforce
qed

section \<open>A docker to compute with\<close>

text \<open>Containers are created, started, stopped and removed; the agent's files are left alone.\<close>

definition demo_reply :: "string \<Rightarrow> bool \<Rightarrow> cmd_result" where
  "demo_reply out ok = \<lparr>crStdout = out, crCombined = out, crOk = ok\<rparr>"

fun demo_docker :: "string list \<Rightarrow> (string, bool) gomap \<Rightarrow> cmd_result \<times> (string, bool) gomap" where
  "demo_docker (cmd # args) w =
     (if cmd = ''create'' then (demo_reply (replicate 64 CHR ''a'') True, map_put (args ! 1) False w)
      else if cmd = ''start'' then (demo_reply '''' True, map_put (last args) True w)
      else if cmd = ''stop'' \<or> cmd = ''kill'' then (demo_reply '''' True, map_put (last args) False w)
      else if cmd = ''rm'' then (demo_reply '''' True, map_del (last args) w)
      else if cmd = ''info'' then (demo_reply ''27.0.1'' True, w)
      else if cmd = ''inspect'' then
        (case map_get w (last args) of
           None \<Rightarrow> (demo_reply ''No such container'' False, w)
         | Some up \<Rightarrow>
             (demo_reply (if args ! 1 = ''{{.State.Pid}}'' then ''4242'' else if up then ''running'' else ''exited'') True, w))
      else (demo_reply ''Docker'' True, w))"
| "demo_docker [] w = (demo_reply '''' True, w)"

definition demo_env :: "(string, bool) gomap env" where
  "demo_env =
     \<lparr>enExec = (\<lambda>c (f, w). let (r, w1) = demo_docker (cmArgs c) w in (r, (f, w1))),
      enLookPath = (\<lambda>s. Some (''/usr/bin/'' @ s)), enCwd = ''/srv'', enExitSeen = (\<lambda>c h. True)\<rparr>"

definition demo_cfg :: AgentConfig where
  "demo_cfg =
     \<lparr>acID = ''n1'', acName = '''', acMasterAddr = '''', acGRPCAddr = '''', acJavaPath = '''', acBackupDir = '''',
      acBackupMaxCount = 0, acInstances = [], acLogLevel = '''', acLogFormat = ''''\<rparr>"

definition demo_config :: "string \<Rightarrow> string \<Rightarrow> int \<Rightarrow> InstanceConfig" where
  "demo_config name ty port =
     \<lparr>icInstanceId = ''n1-'' @ name, icName = name, icPort = port, icMemoryMin = '''', icMemoryMax = '''',
      icServerJar = '''', icWorkDir = ''servers/'' @ name, icJavaPath = '''', icAutoStart = True,
      icAutoRestart = True, icRestartDelaySec = 0, icStopCommand = '''', icJvmArgs = [], icAcceptEula = True,
      icInstanceType = ty, icServiceVersion = '''', icJavaVersion = '''', icCustomDockerfile = '''',
      icCustomCompose = '''', icNetworkName = '''', icDockerMemory = '''', icDockerCpus = ''''\<rparr>"

definition demo_agent :: agent where
  "demo_agent = New demo_env (setAgentDefaults ''host'' demo_cfg) ([], [])"

definition demo_synced :: "agent \<times> (string, bool) gomap host" where
  "demo_synced =
     heartbeat_response demo_env [demo_config ''survival'' '''' 25570, demo_config ''cache'' ''redis'' 6379] []
       (demo_agent, ([], []))"

lemma demo_synced_reach: "agent_reach Map.empty demo_env (setAgentDefaults ''host'' demo_cfg) demo_synced"
  unfolding demo_synced_def demo_agent_def by (rule reach_step [OF reach_new step_sync])

lemma demo_synced_instances:
  "map (\<lambda>(i, p). (i, mgType p, mgState p)) (agInstances (fst demo_synced)) =
     [(''n1-survival'', ''minecraft'', StateStopped), (''n1-cache'', ''redis'', StateRunning)]"
  by code_simp

theorem agent_state_well_typed_witness:
  "agent_wf (fst demo_synced) \<and> map fst (agInstances (fst demo_synced)) = [''n1-survival'', ''n1-cache'']"
proof
  have "agent_reach Map.empty demo_env (setAgentDefaults ''host'' demo_cfg) (fst demo_synced, snd demo_synced)"
    using demo_synced_reach by simp
  then show "agent_wf (fst demo_synced)" by (rule agent_state_well_typed)
  show "map fst (agInstances (fst demo_synced)) = [''n1-survival'', ''n1-cache'']" by code_simp
qed

end
