(* ===== verification/Agent_Sync.thy ===== *)
theory Agent_Sync
  imports Agent_Properties
begin

text \<open>
  What taking over the master's list achieves (\<^verbatim>\<open>syncInstances\<close>): with a docker that works, every
  assigned instance is managed afterwards and the ones that start by themselves run; what is
  managed already is left alone. And what a container is made to do with the settings.
\<close>

section \<open>Files of a working directory\<close>

lemma os_path_in:
  assumes "target_ok wd" "proper_name n"
  shows "os_path cwd (fp_join [wd, n]) = os_path cwd wd @ [n]"
proof -
  have wd: "wd \<noteq> []" using assms(1) by (simp add: target_ok_def)
  have "clean_comps (is_abs wd) (wd @ CHR ''/'' # n) = comps wd @ [n]"
    using clean_comps_under_join [of "[n]" "is_abs wd" wd] assms(2) by (simp add: comps_def)
  then have "fp_join [wd, n] = path_text (is_abs wd) (comps wd @ [n])" by (simp add: fp_join_text [OF wd])
  then show ?thesis
    using os_path_text [of "comps wd @ [n]"] target_proper [OF assms(1)] assms(2)
    by (simp add: os_path_target [OF assms(1)])
qed

lemma proper_files [simp]:
  "proper_name ''eula.txt''" "proper_name ''server.properties''"
  by (simp_all add: proper_name_def)

text \<open>No file stands in the way of a directory.\<close>

definition dir_ready :: "fs \<Rightarrow> path \<Rightarrow> bool" where
  "dir_ready f p \<longleftrightarrow> (\<forall>q. below q p \<longrightarrow> fs_get f q = None \<or> fs_is_dir f q)"

text \<open>Files that are well-formed and leave room for these directories.\<close>

definition room :: "path set \<Rightarrow> fs \<Rightarrow> bool" where
  "room P f \<longleftrightarrow> fs_ok f \<and> (\<forall>p \<in> P. dir_ready f p)"

definition reserved :: "string list" where
  "reserved = [''eula.txt'', ''server.properties'']"

definition clear_path :: "path \<Rightarrow> bool" where
  "clear_path p \<longleftrightarrow> (\<forall>c \<in> set p. proper_name c \<and> c \<notin> set reserved)"

lemma room_mkdir:
  assumes "room P f" "os_mkdir_all p m f = Inr f'" "\<forall>c \<in> set p. proper_name c"
  shows "room P f'"
proof -
  have "fs_get f' q = None \<or> fs_is_dir f' q" if "fs_get f q = None \<or> fs_is_dir f q" for q
    using os_mkdir_all_spec(2) [OF assms(2), of q] that by (auto simp: fs_is_dir_def)
  then show ?thesis
    using assms os_mkdir_all_ok [OF assms(2)] by (auto simp: room_def dir_ready_def)
qed

lemma room_write:
  assumes "room P f" "os_write_file (p @ [n]) b m f = Inr f'" "\<forall>c \<in> set (p @ [n]). proper_name c"
    and "n \<in> set reserved" "\<forall>q \<in> P. clear_path q"
  shows "room P f'"
proof -
  have "dir_ready f' q" if q: "q \<in> P" for q
  proof -
    have "\<not> below (p @ [n]) q" using assms(4,5) q by (auto simp: clear_path_def below_iff)
    then have "fs_get f' r = fs_get f r" if "below r q" for r
      using os_write_file_get(2) [OF assms(2), of r] that by metis
    then show ?thesis using assms(1) q by (auto simp: room_def dir_ready_def fs_is_dir_def)
  qed
  moreover have "fs_ok f'" using os_write_file_ok [OF _ assms(3,2)] assms(1) by (simp add: room_def)
  ultimately show ?thesis by (simp add: room_def)
qed

lemma room_try_write:
  assumes "room P f" "target_ok wd" "n \<in> set reserved" "\<forall>q \<in> P. clear_path q"
  shows "room P (try_write en wd n s f)"
proof -
  have n: "proper_name n" using assms(3) by (auto simp: reserved_def)
  have "\<forall>c \<in> set (os_path (enCwd en) wd @ [n]). proper_name c"
    using target_proper [OF assms(2)] os_base_proper n by (auto simp: os_path_target [OF assms(2)])
  then show ?thesis
    using room_write [OF assms(1) _ _ assms(3,4)] assms(1)
    by (auto simp: try_write_def write_in_def os_path_in [OF assms(2) n] split: sum.split)
qed

lemma room_sync_files:
  assumes "room P f" "target_ok (idWorkDir d)" "\<forall>q \<in> P. clear_path q"
  shows "room P (sync_files en d f)"
proof -
  have "room P (try_write en (idWorkDir d) n s g)" if "room P g" "n \<in> set reserved" for n s g
    using room_try_write [OF that(1) assms(2) that(2) assms(3)] .
  then show ?thesis using assms(1) by (simp add: sync_files_def Let_def reserved_def)
qed

section \<open>A docker that works\<close>

text \<open>
  Every command succeeds, except that \<^verbatim>\<open>docker inspect\<close> may not know a container; \<^verbatim>\<open>docker info\<close>
  prints a version and \<^verbatim>\<open>docker create\<close> an identifier; no command puts a file where one of the
  directories \<open>P\<close> is to be.
\<close>

definition docker_works :: "'w env \<Rightarrow> path set \<Rightarrow> bool" where
  "docker_works en P \<longleftrightarrow>
     (\<forall>c h. (cmArgs c \<noteq> [] \<and> hd (cmArgs c) \<noteq> ''inspect'' \<longrightarrow> crOk (fst (enExec en c h))) \<and>
        (cmArgs c \<noteq> [] \<and> hd (cmArgs c) = ''info'' \<longrightarrow> trim_space (crCombined (fst (enExec en c h))) \<noteq> '''') \<and>
        (cmArgs c \<noteq> [] \<and> hd (cmArgs c) = ''create'' \<longrightarrow>
           12 \<le> length (trim_space (crCombined (fst (enExec en c h))))) \<and>
        (room P (fst h) \<longrightarrow> room P (fst (snd (enExec en c h)))))"

text \<open>A command that works: what follows from it for \<^const>\<open>docker\<close>.\<close>

lemma docker_ok:
  assumes "docker_works en P" "docker en (cmd # args) h = ((out, ok), h')"
  shows "cmd \<noteq> ''inspect'' \<Longrightarrow> ok" "cmd = ''info'' \<Longrightarrow> trim_space out \<noteq> ''''"
    "cmd = ''create'' \<Longrightarrow> 12 \<le> length (trim_space out)" "room P (fst h) \<Longrightarrow> room P (fst h')"
proof -
  define c where "c = plain_command (NewManager en) (cmd # args)"
  have c: "cmArgs c = cmd # args" by (simp add: c_def plain_command_def)
  have r: "out = crCombined (fst (enExec en c h))" "ok = crOk (fst (enExec en c h))" "h' = snd (enExec en c h)"
    using assms(2) by (auto simp: docker_def combined_output_def c_def split: prod.splits)
  have w: "(cmd \<noteq> ''inspect'' \<longrightarrow> crOk (fst (enExec en c h))) \<and>
      (cmd = ''info'' \<longrightarrow> trim_space (crCombined (fst (enExec en c h))) \<noteq> '''') \<and>
      (cmd = ''create'' \<longrightarrow> 12 \<le> length (trim_space (crCombined (fst (enExec en c h))))) \<and>
      (room P (fst h) \<longrightarrow> room P (fst (snd (enExec en c h))))"
    using assms(1) c unfolding docker_works_def by (metis list.distinct(1) list.sel(1))
  then show "cmd \<noteq> ''inspect'' \<Longrightarrow> ok" "cmd = ''info'' \<Longrightarrow> trim_space out \<noteq> ''''"
    "cmd = ''create'' \<Longrightarrow> 12 \<le> length (trim_space out)" "room P (fst h) \<Longrightarrow> room P (fst h')"
    by (simp_all add: r)
qed

lemma docker_do_ok:
  assumes "docker_works en P" "docker_do en what (cmd # args) h = (e, h')" "cmd \<noteq> ''inspect''"
  shows "e = None" "room P (fst h) \<Longrightarrow> room P (fst h')"
proof -
  obtain out ok h1 where d: "docker en (cmd # args) h = ((out, ok), h1)" by (metis prod.exhaust)
  have "ok" using docker_ok(1) [OF assms(1) d assms(3)] .
  then have "e = None \<and> h' = h1" using assms(2) d by (simp add: docker_do_def docker_call_def)
  then show "e = None" "room P (fst h) \<Longrightarrow> room P (fst h')" using docker_ok(4) [OF assms(1) d] by auto
qed

lemma docker_tolerant_ok:
  assumes "docker_works en P" "room P (fst h)"
  shows "room P (fst (snd (docker_tolerant en what benign (cmd # args) h)))"
proof -
  obtain out ok h1 where d: "docker en (cmd # args) h = ((out, ok), h1)" by (metis prod.exhaust)
  then show ?thesis using docker_ok(4) [OF assms(1) d assms(2)] by (simp add: docker_tolerant_def Let_def)
qed

section \<open>One instance\<close>

definition plain_config :: "InstanceConfig \<Rightarrow> bool" where
  "plain_config ic \<longleftrightarrow> icCustomCompose ic = '''' \<and> icCustomDockerfile ic = '''' \<and>
     (icInstanceType ic = '''' \<or> map_get DefaultImages (icInstanceType ic) \<noteq> None)"

definition starts_alone :: "InstanceConfig \<Rightarrow> bool" where
  "starts_alone ic \<longleftrightarrow> icAutoStart ic \<and> icInstanceType ic \<noteq> '''' \<and> icInstanceType ic \<noteq> ''minecraft''"

lemma ensure_daemon_ok:
  assumes "docker_works en P" "room P (fst h)"
  shows "\<exists>h'. ensure_daemon en h = (None, h') \<and> room P (fst h')"
proof -
  obtain out ok h1 where d: "docker en [''info'', ''--format'', ''{{.ServerVersion}}''] h = ((out, ok), h1)"
    by (metis prod.exhaust)
  have "IsRunning en h = (True, h1)"
    using docker_ok(1,2) [OF assms(1) d] by (simp add: IsRunning_def d)
  then show ?thesis using docker_ok(4) [OF assms(1) d assms(2)] by (simp add: ensure_daemon_def)
qed

lemma ensure_network_ok:
  assumes "docker_works en P" "room P (fst h)"
  shows "\<exists>h'. ensure_network en c h = (None, h') \<and> room P (fst h')"
  using assms docker_tolerant_ok [OF assms]
  by (simp add: ensure_network_def NetworkCreate_def network_create_args_def)

lemma CreateContainer_ok:
  assumes "docker_works en P" "room P (fst h)"
  shows "\<exists>cid h'. CreateContainer en c h = (Inr cid, h') \<and> room P (fst h')"
proof -
  obtain args where a: "create_args c = ''create'' # args" by (simp add: create_args_def)
  obtain out ok h1 where d: "docker en (''create'' # args) h = ((out, ok), h1)" by (metis prod.exhaust)
  then show ?thesis
    using docker_ok(1,3) [OF assms(1) d] docker_ok(4) [OF assms(1) d assms(2)]
    by (simp add: CreateContainer_def docker_call_def a)
qed

lemma snd_tolerated [simp]: "snd (tolerated r) = snd r"
  by (simp add: tolerated_def split: prod.split sum.split)

lemma ensure_created_ok:
  assumes w: "docker_works en P" and r: "room P (fst h)" and plain: "idCustomDockerfile d = ''''"
  shows "\<exists>h'. ensure_created en c d h = (None, h') \<and> room P (fst h')"
proof -
  obtain out ex h1 where e: "docker en [''inspect'', ''--type'', ''container'', docker_name (idName d)] h = ((out, ex), h1)"
    by (metis prod.exhaust)
  have r1: "room P (fst h1)" using docker_ok(4) [OF w e r] .
  show ?thesis
  proof (cases ex)
    case True
    have "room P (fst (snd (NetworkConnect en (ccNetwork c) (docker_name (idName d)) (idName d) '''' h1)))"
      using docker_tolerant_ok [OF w r1] by (simp add: NetworkConnect_def)
    then show ?thesis using True e r1 by (simp add: ensure_created_def ContainerExists_def)
  next
    case False
    obtain x h2 where p: "PullImage en (ccImage c) h1 = (x, h2)" by (metis prod.exhaust)
    have x: "x = None" "room P (fst h2)"
      using docker_do_ok [OF w p [unfolded PullImage_def]] r1 by simp_all
    obtain cid h3 where "CreateContainer en c h2 = (Inr cid, h3)" "room P (fst h3)"
      using CreateContainer_ok [OF w x(2)] by blast
    then show ?thesis using False e p x plain by (simp add: ensure_created_def ContainerExists_def)
  qed
qed

lemma proc_running_room:
  assumes "docker_works en P" "room P (fst h)" "proc_running en p h = (q, h')"
  shows "room P (fst h')"
proof -
  obtain out ok h1 where d: "docker en [''inspect'', ''--format'', ''{{.State.Pid}}'', mgContainer p] h = ((out, ok), h1)"
    by (metis prod.exhaust)
  then have "h' = h1" using assms(3) by (auto simp: proc_running_def proc_fetchPID_def)
  then show ?thesis using docker_ok(4) [OF assms(1) d assms(2)] by simp
qed

lemma proc_RefreshState_room:
  assumes "docker_works en P" "room P (fst h)" "proc_RefreshState en p h = (q, h')"
  shows "room P (fst h')"
proof -
  obtain out ok h1 where d: "docker en (status_args (mgContainer p)) h = ((out, ok), h1)" by (metis prod.exhaust)
  have "room P (fst h1)" using docker_ok(4) [OF assms(1) d [unfolded status_args_def] assms(2)] .
  then show ?thesis
    using assms(3) d proc_running_room [OF assms(1)] by (auto simp: proc_RefreshState_def split: if_splits)
qed

lemma proc_Start_works:
  assumes "docker_works en P" "room P (fst h)" "mgState p \<noteq> StateRunning" "mgState p \<noteq> StateStarting"
  shows "\<exists>q h'. proc_Start en p h = ((None, q), h') \<and> mgState q = StateRunning \<and> room P (fst h')"
proof -
  obtain out ok h1 where d: "docker en [''start'', mgContainer p] h = ((out, ok), h1)" by (metis prod.exhaust)
  have ok: "ok" "room P (fst h1)" using docker_ok(1) [OF assms(1) d] docker_ok(4) [OF assms(1) d assms(2)] by simp_all
  obtain q h2 where q: "proc_running en p h1 = (q, h2)" by (metis prod.exhaust)
  show ?thesis
    using d ok q assms(3,4) proc_running_same [OF q] proc_running_room [OF assms(1) ok(2) q]
    by (simp add: proc_Start_def)
qed

lemma container_spec_supported:
  assumes "map_get DefaultImages (idType d) \<noteq> None"
  shows "container_spec en ip d \<noteq> None"
  using assms by (auto simp: container_spec_def BuildContainerConfig_def GetImageConfig_def Let_def)

lemma ensure_works:
  assumes w: "docker_works en P" and r: "room P (fst h)" and ty: "map_get DefaultImages (idType d) \<noteq> None"
    and plain: "idCustomCompose d = ''''" "idCustomDockerfile d = ''''"
  shows "\<exists>p h'. ensureDockerContainer en ip i d h = (Inr p, h') \<and> mgID p = i \<and> room P (fst h')"
proof -
  obtain h1 where h1: "ensure_daemon en h = (None, h1)" "room P (fst h1)" using ensure_daemon_ok [OF w r] by blast
  obtain c where c: "container_spec en ip d = Some c" using container_spec_supported [OF ty] by blast
  obtain h2 where h2: "ensure_network en c h1 = (None, h2)" "room P (fst h2)"
    using ensure_network_ok [OF w h1(2)] by blast
  obtain h3 where h3: "ensure_created en c d h2 = (None, h3)" "room P (fst h3)"
    using ensure_created_ok [OF w h2(2) plain(2)] by blast
  obtain p h4 where p: "proc_RefreshState en (NewDocker_process i d) h3 = (p, h4)" by (metis prod.exhaust)
  have "ensureDockerContainer en ip i d h = (Inr p, h4)"
    using h1(1) c h2(1) h3(1) p plain
    by (simp add: ensureDockerContainer_def ensure_compose_def ensure_image_def)
  moreover have "mgID p = i"
    using proc_RefreshState_same [OF p] by (simp add: same_process_def NewDocker_process_def)
  ultimately show ?thesis using proc_RefreshState_room [OF w h3(2) p] by blast
qed

lemma ControlInstance_start:
  assumes "docker_works en P" "room P (fst h)" "map_get (agInstances a) i = Some p"
    and "mgState p \<noteq> StateRunning" "mgState p \<noteq> StateStarting"
  shows "\<exists>e q h'. ControlInstance en i ''start'' a h =
      ((e, a\<lparr>agInstances := map_put i q (agInstances a)\<rparr>), h') \<and> mgState q = StateRunning \<and> room P (fst h')"
proof -
  obtain q h1 where "proc_Start en p h = ((None, q), h1)" "mgState q = StateRunning" "room P (fst h1)"
    using proc_Start_works [OF assms(1,2,4,5)] by blast
  then show ?thesis using assms(3) by (auto simp: ControlInstance_def proc_control_def)
qed

text \<open>What one step of the synchronisation does to the agent.\<close>

definition now_managed :: "InstanceConfig \<Rightarrow> agent \<Rightarrow> agent \<Rightarrow> bool" where
  "now_managed ic a a' \<longleftrightarrow>
     (case map_get (agInstances a) (icInstanceId ic) of
        Some p \<Rightarrow> map_get (agInstances a') (icInstanceId ic) = Some p
      | None \<Rightarrow> \<exists>p. map_get (agInstances a') (icInstanceId ic) = Some p \<and>
          (starts_alone ic \<longrightarrow> mgState p = StateRunning))"

definition took_over :: "InstanceConfig \<Rightarrow> agent \<Rightarrow> agent \<Rightarrow> bool" where
  "took_over ic a a' \<longleftrightarrow>
     agCrashed a' = agCrashed a \<and> now_managed ic a a' \<and>
     (\<forall>j. j \<noteq> icInstanceId ic \<longrightarrow> map_get (agInstances a') j = map_get (agInstances a) j)"

lemma auto_start_works:
  assumes w: "docker_works en P" and r: "room P (fst h)"
    and a: "map_get (agInstances b) i = Some p" and mc: "idType d \<noteq> ''minecraft'' \<or> \<not> s"
    and s: "s \<Longrightarrow> idAutoStart d"
  shows "\<exists>q h'. auto_start en i d p b h = (b\<lparr>agInstances := map_put i q (agInstances b)\<rparr>, h') \<and>
      room P (fst h') \<and> (s \<longrightarrow> mgState q = StateRunning) \<or>
    (auto_start en i d p b h = (b, h) \<and> (s \<longrightarrow> mgState p = StateRunning \<or> mgState p = StateStarting))"
proof (cases "\<not> idAutoStart d \<or> mgState p = StateRunning \<or> mgState p = StateStarting \<or>
    (idType d = ''minecraft'' \<and> is_missing en (fp_join [idWorkDir d, idServerJar d]) (fst h))")
  case True
  then have "auto_start en i d p b h = (b, h)" by (auto simp: auto_start_def)
  then show ?thesis using True mc s by auto
next
  case False
  obtain e q h1 where "ControlInstance en i ''start'' b h = ((e, b\<lparr>agInstances := map_put i q (agInstances b)\<rparr>), h1)"
    "mgState q = StateRunning" "room P (fst h1)"
    using ControlInstance_start [OF w r a] False by blast
  moreover from this have "auto_start en i d p b h = (b\<lparr>agInstances := map_put i q (agInstances b)\<rparr>, h1)"
    using False by (auto simp: auto_start_def)
  ultimately show ?thesis by blast
qed

lemma refreshed_state:
  assumes "ensureDockerContainer en ip i d h = (Inr p, h')"
  shows "mgState p \<noteq> StateStarting"
proof -
  obtain h2 where "proc_RefreshState en (NewDocker_process i d) h2 = (p, h')"
    using assms by (auto simp: ensureDockerContainer_def Let_def split: prod.splits option.splits)
  then show ?thesis
    by (auto simp: proc_RefreshState_def split: prod.splits if_splits dest!: proc_running_same)
qed

lemma sync_instance_works:
  assumes w: "docker_works en P" and r: "room P (fst h)" and cp: "\<forall>q \<in> P. clear_path q"
    and up: "\<not> agCrashed a" and plain: "plain_config ic" and wd: "target_ok (icWorkDir ic)"
    and p: "os_path (enCwd en) (icWorkDir ic) \<in> P" and s: "sync_instance en ic (a, h) = (a', h')"
  shows "took_over ic a a' \<and> room P (fst h')"
proof (cases "map_get (agInstances a) (icInstanceId ic)")
  case (Some q)
  then show ?thesis using s r by (auto simp: sync_instance_def took_over_def now_managed_def)
next
  case None
  define d where "d = default_instance (acJavaPath (agCfg a)) (def_of_config ic)"
  have d: "idWorkDir d = icWorkDir ic" "idCustomCompose d = ''''" "idCustomDockerfile d = ''''"
      "idType d = str_default ''minecraft'' (icInstanceType ic)" "idAutoStart d = icAutoStart ic"
    using plain by (simp_all add: d_def default_instance_def def_of_config_def plain_config_def)
  have "map_get DefaultImages ''minecraft'' \<noteq> None" by (simp add: DefaultImages_def map_get_def)
  then have ty: "map_get DefaultImages (idType d) \<noteq> None"
    using plain by (cases "icInstanceType ic = ''''") (simp_all add: d plain_config_def)
  obtain f where f: "mkdir_in en (idWorkDir d) (fst h) = Inr f"
    using os_mkdir_all_total [of "os_path (enCwd en) (icWorkDir ic)" "fst h" 493] r p wd
    by (auto simp: mkdir_in_def d room_def dir_ready_def target_ok_def)
  have "\<forall>c \<in> set (os_path (enCwd en) (icWorkDir ic)). proper_name c"
    using target_proper [OF wd] os_base_proper by (auto simp: os_path_target [OF wd])
  then have "room P f"
    using room_mkdir [OF r] f wd by (auto simp: mkdir_in_def d target_ok_def)
  then have r1: "room P (fst (sync_files en d f, snd h))"
    using room_sync_files [of P f d en] wd cp by (simp add: d)
  obtain q h1 where e: "ensureDockerContainer en (mnDNSListenIP (agMesh a)) (icInstanceId ic) d
      (sync_files en d f, snd h) = (Inr q, h1)" "mgID q = icInstanceId ic" "room P (fst h1)"
    using ensure_works [OF w r1 ty d(2,3)] by blast
  define b where "b = a\<lparr>agInstances := map_put (icInstanceId ic) q (agInstances a),
      agDefs := map_put (icInstanceId ic) d (agDefs a)\<rparr>"
  have st: "auto_start en (icInstanceId ic) d q b h1 = (a', h')"
    using s None up f e by (simp add: sync_instance_def d_def [symmetric] AddInstance_def b_def)
  have g: "map_get (agInstances b) (icInstanceId ic) = Some q" by (simp add: b_def go_map_simps)
  have mc: "idType d \<noteq> ''minecraft'' \<or> \<not> starts_alone ic"
    by (simp add: d starts_alone_def str_default_def)
  have sa: "starts_alone ic \<Longrightarrow> idAutoStart d" by (simp add: d starts_alone_def)
  consider q' where "a' = b\<lparr>agInstances := map_put (icInstanceId ic) q' (agInstances b)\<rparr>" "room P (fst h')"
      "starts_alone ic \<longrightarrow> mgState q' = StateRunning"
    | "a' = b" "h' = h1" "starts_alone ic \<longrightarrow> mgState q = StateRunning \<or> mgState q = StateStarting"
    using auto_start_works [OF w e(3) g mc sa] st by fastforce
  then show ?thesis
  proof cases
    case 1
    then show ?thesis using None by (simp add: took_over_def now_managed_def b_def go_map_simps)
  next
    case 2
    then show ?thesis using None e(3) refreshed_state [OF e(1)] by (simp add: took_over_def now_managed_def b_def go_map_simps)
  qed
qed

section \<open>The whole list\<close>

text \<open>
  What the master may assign: settings without a compose file or Dockerfile of their own, of a known
  type, in a working directory that does not climb and does not pass through a name the agent
  gives to a file.
\<close>

definition assignable :: "'w env \<Rightarrow> InstanceConfig \<Rightarrow> bool" where
  "assignable en ic \<longleftrightarrow>
     plain_config ic \<and> target_ok (icWorkDir ic) \<and> clear_path (os_path (enCwd en) (icWorkDir ic))"

definition work_dirs :: "'w env \<Rightarrow> InstanceConfig list \<Rightarrow> path set" where
  "work_dirs en cs = (\<lambda>ic. os_path (enCwd en) (icWorkDir ic)) ` set cs"

lemma sync_list_works:
  assumes w: "docker_works en P" and cp: "\<forall>q \<in> P. clear_path q"
    and each: "\<forall>ic \<in> set cs. assignable en ic \<and> os_path (enCwd en) (icWorkDir ic) \<in> P"
    and r: "room P (fst h)" and up: "\<not> agCrashed a" and dist: "distinct (map icInstanceId cs)"
  shows "\<exists>a' h'. syncInstances en cs (a, h) = (a', h') \<and> \<not> agCrashed a' \<and> (\<forall>ic \<in> set cs. now_managed ic a a') \<and>
    (\<forall>j. j \<notin> icInstanceId ` set cs \<longrightarrow> map_get (agInstances a') j = map_get (agInstances a) j)"
  using each r up dist
proof (induction cs arbitrary: a h)
  case Nil
  then show ?case by (simp add: syncInstances_def)
next
  case (Cons ic cs)
  obtain a1 h1 where s1: "sync_instance en ic (a, h) = (a1, h1)" by (metis prod.exhaust)
  have ic: "plain_config ic" "target_ok (icWorkDir ic)" "os_path (enCwd en) (icWorkDir ic) \<in> P"
    using Cons.prems(1) by (simp_all add: assignable_def)
  have t: "took_over ic a a1" "room P (fst h1)"
    using sync_instance_works [OF w Cons.prems(2) cp Cons.prems(3) ic s1] by simp_all
  have "\<not> agCrashed a1" using t(1) Cons.prems(3) by (simp add: took_over_def)
  then obtain a' h' where ih: "syncInstances en cs (a1, h1) = (a', h')" "\<not> agCrashed a'"
      "\<forall>ic \<in> set cs. now_managed ic a1 a'"
      "\<forall>j. j \<notin> icInstanceId ` set cs \<longrightarrow> map_get (agInstances a') j = map_get (agInstances a1) j"
    using Cons.IH [of h1 a1] Cons.prems(1,4) t(2) by auto
  have out: "icInstanceId ic \<notin> icInstanceId ` set cs" using Cons.prems(4) by simp
  have "map_get (agInstances a') (icInstanceId ic) = map_get (agInstances a1) (icInstanceId ic)"
    using ih(4) out by blast
  then have "now_managed ic a a'" using t(1) by (simp add: took_over_def now_managed_def split: option.splits)
  moreover have "now_managed ic' a a'" if "ic' \<in> set cs" for ic'
  proof -
    have "icInstanceId ic' \<noteq> icInstanceId ic" using out that by (metis image_eqI)
    then have e: "map_get (agInstances a1) (icInstanceId ic') = map_get (agInstances a) (icInstanceId ic')"
      using t(1) by (simp add: took_over_def)
    have "now_managed ic' a1 a'" using ih(3) that by blast
    then show ?thesis unfolding now_managed_def e .
  qed
  ultimately show ?case
    using ih s1 t(1) by (auto simp: syncInstances_def took_over_def)
qed


lemma demo_docker_ok:
  "cmd \<noteq> ''inspect'' \<Longrightarrow> crOk (fst (demo_docker (cmd # args) w))"
  "cmd = ''info'' \<Longrightarrow> crCombined (fst (demo_docker (cmd # args) w)) = ''27.0.1''"
  "cmd = ''create'' \<Longrightarrow> crCombined (fst (demo_docker (cmd # args) w)) = replicate 64 CHR ''a''"
  by (auto simp: demo_reply_def)

lemma demo_exec: "enExec demo_env c h = (fst (demo_docker (cmArgs c) (snd h)), fst h, snd (demo_docker (cmArgs c) (snd h)))"
  by (cases h) (simp add: demo_env_def split: prod.split)

lemma demo_works: "docker_works demo_env P"
proof -
  have t: "trim_space ''27.0.1'' \<noteq> ''''" "12 \<le> length (trim_space (replicate 64 CHR ''a''))" by code_simp+
  show ?thesis
    unfolding docker_works_def
  proof (intro allI conjI impI)
    fix c :: command and h :: "(string, bool) gomap host"
    show "crOk (fst (enExec demo_env c h))" if "cmArgs c \<noteq> [] \<and> hd (cmArgs c) \<noteq> ''inspect''"
      using that demo_docker_ok(1) by (cases "cmArgs c") (auto simp: demo_exec simp del: demo_docker.simps)
    show "trim_space (crCombined (fst (enExec demo_env c h))) \<noteq> ''''" if "cmArgs c \<noteq> [] \<and> hd (cmArgs c) = ''info''"
      using that demo_docker_ok(2) t(1) by (cases "cmArgs c") (auto simp: demo_exec simp del: demo_docker.simps)
    show "12 \<le> length (trim_space (crCombined (fst (enExec demo_env c h))))"
      if "cmArgs c \<noteq> [] \<and> hd (cmArgs c) = ''create''"
      using that demo_docker_ok(3) t(2) by (cases "cmArgs c") (auto simp: demo_exec simp del: demo_docker.simps)
    show "room P (fst (snd (enExec demo_env c h)))" if "room P (fst h)"
      using that by (simp add: demo_exec)
  qed
qed


text \<open>
  A list that is managed already is left alone: the periodic heartbeat neither touches the files,
  nor runs a command, nor changes the state of any instance, whatever settings the list carries.
\<close>

theorem resync_changes_nothing:
  assumes "\<forall>ic \<in> set cs. map_get (agInstances (fst s)) (icInstanceId ic) \<noteq> None"
  shows "syncInstances en cs s = s"
  using assms unfolding syncInstances_def
proof (induction cs)
  case (Cons ic cs)
  have "sync_instance en ic s = s" using Cons.prems by (cases s) (auto simp: sync_instance_def)
  then show ?case using Cons by simp
qed simp

theorem resync_changes_nothing_witness:
  "syncInstances demo_env [demo_config ''cache'' ''redis'' 7000, demo_config ''survival'' ''mysql'' 1] demo_synced =
    demo_synced"
proof (rule resync_changes_nothing)
  show "\<forall>ic \<in> set [demo_config ''cache'' ''redis'' 7000, demo_config ''survival'' ''mysql'' 1].
      map_get (agInstances (fst demo_synced)) (icInstanceId ic) \<noteq> None"
    by code_simp
qed

end
