(* ===== verification/Container_Settings.thy ===== *)
theory Container_Settings
  imports Agent_Sync
begin

text \<open>
  What the settings of an instance become in its container: the port, the memory limit, the command
  and the restart policy that \<^verbatim>\<open>docker create\<close> is given.
\<close>

lemma GetImageConfig_base:
  assumes "GetImageConfig ty v j = Some cfg"
  obtains b where "map_get DefaultImages ty = Some b" "siDefaultPort cfg = siDefaultPort b" "siCmd cfg = siCmd b"
  using assms by (auto simp: GetImageConfig_def Let_def split: option.splits if_splits)

lemma minecraft_base:
  "map_option siDefaultPort (map_get DefaultImages ''minecraft'') = Some 25565"
  "map_option siCmd (map_get DefaultImages ''minecraft'') = Some [''java'', ''-jar'', ''server.jar'', ''nogui'']"
  by code_simp+

lemma container_spec_built:
  assumes "container_spec en ip d = Some c"
  shows "\<exists>i. GetImageConfig (idType d) (idServiceVersion d) (idJavaVersion d) = Some i \<and>
    ccRestartMode c = ''unless-stopped'' \<and> ccName c = docker_name (idName d) \<and>
    ccCmd c = (if idType d = ''minecraft'' then siCmd i else []) \<and>
    ccPorts c = [(if idPort d = 0 then siDefaultPort i else idPort d, siDefaultPort i)] \<and>
    ccMemory c = effective_memory d"
  using assms by (auto simp: container_spec_def BuildContainerConfig_def Let_def split: option.splits)

lemma container_spec_fields:
  assumes "container_spec en ip d = Some c"
  shows "ccRestartMode c = ''unless-stopped''" "ccName c = docker_name (idName d)"
    "ccMemory c = effective_memory d"
    "idType d = ''minecraft'' \<Longrightarrow> ccCmd c = [''java'', ''-jar'', ''server.jar'', ''nogui'']"
    "idType d = ''minecraft'' \<Longrightarrow> ccPorts c = [(if idPort d = 0 then 25565 else idPort d, 25565)]"
proof -
  obtain i where i: "GetImageConfig (idType d) (idServiceVersion d) (idJavaVersion d) = Some i"
    and f: "ccRestartMode c = ''unless-stopped''" "ccName c = docker_name (idName d)"
      "ccCmd c = (if idType d = ''minecraft'' then siCmd i else [])"
      "ccPorts c = [(if idPort d = 0 then siDefaultPort i else idPort d, siDefaultPort i)]"
      "ccMemory c = effective_memory d"
    using container_spec_built [OF assms] by blast
  show "ccRestartMode c = ''unless-stopped''" "ccName c = docker_name (idName d)"
    "ccMemory c = effective_memory d" using f by simp_all
  obtain b where "map_get DefaultImages (idType d) = Some b" "siDefaultPort i = siDefaultPort b" "siCmd i = siCmd b"
    using GetImageConfig_base [OF i] .
  then show "ccCmd c = [''java'', ''-jar'', ''server.jar'', ''nogui'']"
    "ccPorts c = [(if idPort d = 0 then 25565 else idPort d, 25565)]" if "idType d = ''minecraft''"
    using that minecraft_base f by auto
qed

text \<open>
  C44. Settings that do not reach the container. Whatever jar, JVM arguments, Java path, stop command and
  restart policy an instance is given, its container is created with the same arguments: Docker restarts it
  unless it was stopped, also when automatic restarts are switched off, and a Minecraft server is
  started from \<^verbatim>\<open>server.jar\<close>, also when its jar was uploaded under another name.
\<close>

theorem container_ignores_settings:
  "container_spec en ip (d\<lparr>idServerJar := jar, idJVMArgs := args, idJavaPath := java, idAutoRestart := restart,
       idStopCommand := stop\<rparr>) = container_spec en ip d \<and>
   (case container_spec en ip d of
     None \<Rightarrow> map_get DefaultImages (idType d) = None
   | Some c \<Rightarrow> ccRestartMode c = ''unless-stopped'' \<and>
       (if idType d = ''minecraft'' then ccCmd c = [''java'', ''-jar'', ''server.jar'', ''nogui''] else True))"
proof
  show "container_spec en ip (d\<lparr>idServerJar := jar, idJVMArgs := args, idJavaPath := java,
      idAutoRestart := restart, idStopCommand := stop\<rparr>) = container_spec en ip d"
    by (simp add: container_spec_def env_overrides_def effective_memory_def)
  show "case container_spec en ip d of
     None \<Rightarrow> map_get DefaultImages (idType d) = None
   | Some c \<Rightarrow> ccRestartMode c = ''unless-stopped'' \<and>
       (if idType d = ''minecraft'' then ccCmd c = [''java'', ''-jar'', ''server.jar'', ''nogui''] else True)"
  proof (cases "container_spec en ip d")
    case None
    then show ?thesis using container_spec_supported [of d en ip] by fastforce
  next
    case (Some c)
    then show ?thesis using container_spec_fields(1,4) [OF Some] by simp
  qed
qed

lemma demo_def:
  "idType (def_of_config (demo_config ''survival'' ''minecraft'' 25570)) = ''minecraft''"
  "idPort (def_of_config (demo_config ''survival'' ''minecraft'' 25570)) = 25570"
  "idWorkDir (def_of_config (demo_config ''survival'' ''minecraft'' 25570)) = ''servers/survival''"
  by code_simp+

section \<open>The port of a Minecraft server\<close>

lemma try_write_read:
  assumes "target_ok wd" "proper_name n" "fs_is_dir f (os_path (enCwd en) wd)"
    and "\<not> fs_is_dir f (os_path (enCwd en) wd @ [n])"
  shows "os_read_file (try_write en wd n s f) (os_path (enCwd en) wd @ [n]) = Inr (string_bytes s)"
proof -
  obtain f' where w: "os_write_file (os_path (enCwd en) wd @ [n]) (string_bytes s) 420 f = Inr f'"
    using os_write_file_possible [of "os_path (enCwd en) wd @ [n]" f] assms(3,4) by auto
  then show ?thesis
    using os_write_file_get(3) [OF w] by (simp add: try_write_def write_in_def os_path_in [OF assms(1,2)])
qed

lemma try_write_other:
  assumes "target_ok wd" "proper_name n" "q \<noteq> os_path (enCwd en) wd @ [n]"
  shows "fs_get (try_write en wd n s f) q = fs_get f q"
  using os_write_file_get(2) assms(3)
  by (auto simp: try_write_def write_in_def os_path_in [OF assms(1,2)] split: sum.split)

text \<open>
  C45. The published port of a Minecraft server. The agent writes the configured port into
  \<^verbatim>\<open>server.properties\<close>, which makes the server inside the container listen there, but publishes the
  same host port onto port 25565 of the container. With any other port than 25565 no published
  port leads to the server.
\<close>

theorem minecraft_port_not_published:
  assumes mc: "idType d = ''minecraft''" and port: "idPort d \<noteq> 0" "idPort d \<noteq> 25565"
    and wd: "target_ok (idWorkDir d)" and dir: "fs_is_dir f (os_path (enCwd en) (idWorkDir d))"
    and new: "is_missing en (fp_join [idWorkDir d, ''server.properties'']) f"
    and spec: "container_spec en ip d = Some c"
  shows "os_read_file (sync_files en d f) (os_path (enCwd en) (idWorkDir d) @ [''server.properties'']) =
      Inr (string_bytes (props_text (idPort d))) \<and>
    ccPorts c = [(idPort d, 25565)] \<and> (\<forall>(host, inside) \<in> set (ccPorts c). inside \<noteq> idPort d)"
proof (intro conjI)
  define p where "p = os_path (enCwd en) (idWorkDir d)"
  define g where "g = (if idAcceptEULA d \<and> is_missing en (fp_join [idWorkDir d, ''eula.txt'']) f
      then try_write en (idWorkDir d) ''eula.txt'' eula_text f else f)"
  have g: "fs_get g q = fs_get f q" if "q \<noteq> p @ [''eula.txt'']" for q
    using try_write_other [OF wd proper_files(1), of q en] that by (simp add: g_def p_def)
  have n: "fs_get f (p @ [''server.properties'']) = None"
    using new by (simp add: is_missing_def os_path_in [OF wd] os_stat_def p_def split: option.splits)
  then have gn: "fs_get g (p @ [''server.properties'']) = None" by (simp add: g)
  then have missing: "is_missing en (fp_join [idWorkDir d, ''server.properties'']) g"
    by (simp add: is_missing_def os_path_in [OF wd] os_stat_def p_def)
  have "fs_get g p = fs_get f p" by (simp add: g)
  then have "fs_is_dir g p" using dir by (simp add: fs_is_dir_def p_def)
  moreover have "\<not> fs_is_dir g (p @ [''server.properties''])" using gn by (simp add: fs_is_dir_def)
  ultimately show "os_read_file (sync_files en d f) (os_path (enCwd en) (idWorkDir d) @ [''server.properties'']) =
      Inr (string_bytes (props_text (idPort d)))"
    using try_write_read [OF wd proper_files(2)] missing mc
    by (simp add: sync_files_def g_def [symmetric] p_def)
  show "ccPorts c = [(idPort d, 25565)]" using container_spec_fields(5) [OF spec mc] port(1) by simp
  then show "\<forall>(host, inside) \<in> set (ccPorts c). inside \<noteq> idPort d" using port(2) by simp
qed

theorem minecraft_port_not_published_witness:
  "\<exists>c. container_spec demo_env '''' (def_of_config (demo_config ''survival'' ''minecraft'' 25570)) = Some c \<and>
    ccPorts c = [(25570, 25565)] \<and> (\<forall>(host, inside) \<in> set (ccPorts c). inside \<noteq> 25570)"
proof -
  define d where "d = def_of_config (demo_config ''survival'' ''minecraft'' 25570)"
  define f where "f = [([''srv''], DirNode 493), ([''srv'', ''servers''], DirNode 493),
    ([''srv'', ''servers'', ''survival''], DirNode 493)]"
  have d: "idType d = ''minecraft''" "idPort d = 25570" "idWorkDir d = ''servers/survival''"
    using demo_def by (simp_all add: d_def)
  have wd: "target_ok (idWorkDir d)" unfolding d by code_simp
  have dir: "fs_is_dir f (os_path (enCwd demo_env) (idWorkDir d))" unfolding d f_def by code_simp
  have new: "is_missing demo_env (fp_join [idWorkDir d, ''server.properties'']) f" unfolding d f_def by code_simp
  obtain c where c: "container_spec demo_env '''' d = Some c"
    using container_spec_supported [of d demo_env "''''"] d minecraft_base by fastforce
  then show ?thesis
    using minecraft_port_not_published [OF d(1) _ _ wd dir new c] d(2) unfolding d_def [symmetric] by auto
qed

section \<open>The memory limit\<close>

text \<open>What docker reads from a limit, in megabytes.\<close>

definition limit_mb :: "string \<Rightarrow> int option" where
  "limit_mb s =
     (if s = '''' then None
      else case parse_uint (butlast s) of
             None \<Rightarrow> None
           | Some n \<Rightarrow> if last s = CHR ''G'' then Some (1024 * int n)
                       else if last s = CHR ''M'' then Some (int n) else None)"

definition heap_mb :: "char \<Rightarrow> int \<Rightarrow> int" where
  "heap_mb u n = (if u = CHR ''G'' \<or> u = CHR ''g'' then 1024 * n else n)"

lemma limit_mb_itoa:
  "0 \<le> n \<Longrightarrow> limit_mb (itoa n @ ''G'') = Some (1024 * n)" "0 \<le> n \<Longrightarrow> limit_mb (itoa n @ ''M'') = Some n"
  by (simp_all add: limit_mb_def itoa_nonneg)

lemma upper_digit: "d < 10 \<Longrightarrow> upper_char (digit_char d) = digit_char d \<and> \<not> is_space (digit_char d) \<and>
    digit_char d \<noteq> CHR ''-'' \<and> digit_char d \<noteq> CHR ''+''"
proof -
  have "\<forall>d \<in> set [0..<10]. upper_char (digit_char d) = digit_char d \<and> \<not> is_space (digit_char d) \<and>
      digit_char d \<noteq> CHR ''-'' \<and> digit_char d \<noteq> CHR ''+''" by code_simp
  then show "d < 10 \<Longrightarrow> ?thesis" by simp
qed

lemma to_upper_digits: "to_upper (nat_digits n) = nat_digits n"
  unfolding to_upper_def by (rule map_idI) (use set_nat_digits upper_digit in metis)

lemma sscanf_nat_digits:
  assumes "int n \<le> max_int64"
  shows "sscanf_d (nat_digits n) = Some (int n)"
proof -
  obtain c cs where e: "nat_digits n = c # cs" by (cases "nat_digits n") auto
  obtain d where d: "d < 10" "c = digit_char d" using set_nat_digits [of c n] e by auto
  have "\<forall>x \<in> set (c # cs). digit_val x \<noteq> None" using set_nat_digits [of _ n] e by fastforce
  then have t: "takeWhile (\<lambda>x. digit_val x \<noteq> None) (c # cs) = c # cs" by (simp only: takeWhile_eq_all_conv)
  have s: "scan_uint (c # cs) = Some (int n)"
    using t parse_uint_nat_digits [of n] unfolding e scan_uint_def by simp
  show ?thesis
    unfolding e using upper_digit [OF d(1)] s assms
    by (simp add: sscanf_d_def trim_left_def d int64_opt_def in_int64_def min_int64_def)
qed

lemma go_div_even: "0 \<le> x \<Longrightarrow> go_div x 2 = x div 2"
  by (simp add: go_int_simps)

lemma scaled_memory_value:
  assumes "0 < n" "n \<le> 2 ^ 50"
  shows "limit_mb (scaled_memory ''G'' n) = Some (3 * (1024 * n) div 2)"
    and "limit_mb (scaled_memory ''M'' n) = Some (3 * n div 2)"
proof -
  have i: "in_int64 (n * 1024)" "in_int64 (n * 1024 * 3)" "in_int64 (n * 3)"
    using assms by (simp_all add: in_int64_def min_int64_def max_int64_def)
  define t where "t = n * 1024 * 3 div 2"
  have t: "0 \<le> t" "0 \<le> t div 1024" using assms by (simp_all add: t_def)
  have g: "scaled_memory ''G'' n = (if t mod 1024 = 0 then itoa (t div 1024) @ ''G'' else itoa t @ ''M'')"
    using i assms t by (simp add: scaled_memory_def in_megabytes_def go_int_simps t_def)
  show "limit_mb (scaled_memory ''G'' n) = Some (3 * (1024 * n) div 2)"
  proof (cases "t mod 1024 = 0")
    case True
    then have "1024 * (t div 1024) = t" by auto
    then show ?thesis using True t by (simp add: g limit_mb_itoa) (simp add: t_def algebra_simps)
  next
    case False
    then show ?thesis using t by (simp add: g limit_mb_itoa) (simp add: t_def algebra_simps)
  qed
  define m where "m = n * 3 div 2"
  have m: "0 \<le> m" "0 \<le> m div 1024" using assms by (simp_all add: m_def)
  have g: "scaled_memory ''M'' n = (if 1024 \<le> m \<and> m mod 1024 = 0 then itoa (m div 1024) @ ''G'' else itoa m @ ''M'')"
    using i assms m by (simp add: scaled_memory_def in_megabytes_def Let_def go_int_simps m_def)
  show "limit_mb (scaled_memory ''M'' n) = Some (3 * n div 2)"
  proof (cases "1024 \<le> m \<and> m mod 1024 = 0")
    case True
    then have "1024 * (m div 1024) = m" by auto
    then show ?thesis using True m by (simp add: g limit_mb_itoa) (simp add: m_def algebra_simps)
  next
    case False
    then have "limit_mb (scaled_memory ''M'' n) = Some m" using m unfolding g by (auto simp: limit_mb_itoa)
    then show ?thesis by (simp add: m_def algebra_simps)
  qed
qed

text \<open>
  C33. The memory limit of a container. For a heap size of a whole number of megabytes or gigabytes,
  with the unit in either case and up to 2 to the 50 of it, the limit docker is given is one and
  a half times the heap, rounded down to a megabyte; in particular the heap fits.
\<close>

theorem docker_memory_covers_heap:
  assumes "0 < n" "n \<le> 2 ^ 50" "u \<in> {CHR ''G'', CHR ''g'', CHR ''M'', CHR ''m''}"
  shows "limit_mb (computeDockerMemory (itoa n @ [u])) = Some (3 * heap_mb u n div 2) \<and>
    heap_mb u n \<le> 3 * heap_mb u n div 2"
proof
  define w where "w = (if u = CHR ''G'' \<or> u = CHR ''g'' then ''G'' else ''M'')"
  have u: "upper_char u = hd w" "\<not> is_space u" "u \<notin> set (itoa n)"
  proof -
    have "\<forall>u \<in> set [CHR ''G'', CHR ''g'', CHR ''M'', CHR ''m'']. \<not> is_space u \<and>
        upper_char u = hd (if u = CHR ''G'' \<or> u = CHR ''g'' then ''G'' else ''M'')" by code_simp
    then show "upper_char u = hd w" "\<not> is_space u" using assms(3) by (auto simp: w_def)
    show "u \<notin> set (itoa n)" using assms(1,3) by (auto simp: itoa_nonneg nat_digits_not_in)
  qed
  have i: "itoa n = nat_digits (nat n)" using assms(1) by (simp add: itoa_nonneg)
  have "trim_space (itoa n @ [u]) = itoa n @ [u]"
    by (rule trim_space_nospace) (use u(2) nat_digits_nospace i in auto)
  moreover have "memory_parts (itoa n @ [u]) = (itoa n, w)"
  proof -
    have "to_upper (itoa n @ [u]) = itoa n @ w"
      using to_upper_digits [of "nat n"] u(1) by (simp add: i to_upper_def w_def)
    then show ?thesis by (auto simp: memory_parts_def Let_def w_def has_suffix_iff)
  qed
  moreover have "sscanf_d (itoa n) = Some n"
    using sscanf_nat_digits [of "nat n"] assms(1,2) by (simp add: i max_int64_def)
  ultimately have c: "computeDockerMemory (itoa n @ [u]) = scaled_memory w n"
    using assms(1) by (simp add: computeDockerMemory_def)
  show "limit_mb (computeDockerMemory (itoa n @ [u])) = Some (3 * heap_mb u n div 2)"
    unfolding c using scaled_memory_value [OF assms(1,2)] by (simp add: w_def heap_mb_def)
  have "x \<le> 3 * x div 2" if "0 \<le> x" for x :: int using that by presburger
  then show "heap_mb u n \<le> 3 * heap_mb u n div 2" using assms(1) by (simp add: heap_mb_def)
qed

theorem docker_memory_covers_heap_witness:
  "limit_mb (computeDockerMemory (itoa 3 @ ''G'')) = Some 4608 \<and> heap_mb CHR ''G'' 3 = 3072"
  using docker_memory_covers_heap [of 3 "CHR ''G''"] by (simp add: heap_mb_def)

text \<open>A heap given in kilobytes is taken for megabytes.\<close>

lemma kilobytes_as_megabytes: "computeDockerMemory ''2048K'' = ''3G''"
  by code_simp

end
