(* ===== verification/Agent_Files.thy ===== *)
theory Agent_Files
  imports Agent_Sync
begin

text \<open>
  Where the agent reaches in the files when it creates, removes and receives. An operation on a host
  is a sequence of commands and of writes into a working directory; what all commands
  preserve and all writes preserve, the operation preserves. That is the interface
  \<open>host_relation\<close>; its interpretations bound the files an operation can change.
\<close>

section \<open>Relations every command respects\<close>

locale host_relation =
  fixes en :: "'w env" and Q :: "'w host \<Rightarrow> 'w host \<Rightarrow> bool"
  assumes rel_refl: "Q h h"
    and rel_trans: "Q h h1 \<Longrightarrow> Q h1 h2 \<Longrightarrow> Q h h2"
    and rel_exec: "Q h (snd (enExec en c h))"
begin

lemma rel_docker: "Q h (snd (docker en args h))"
  unfolding docker_def combined_output_host by (rule rel_exec)

lemma docker_rel: "docker en args h = (r, h') \<Longrightarrow> Q h h'"
  using rel_docker [of h args] by simp

lemma docker_call_rel: "docker_call en what args h = (r, h') \<Longrightarrow> Q h h'"
  by (auto simp: docker_call_def split: prod.splits dest: docker_rel)

lemma docker_do_rel: "docker_do en what args h = (r, h') \<Longrightarrow> Q h h'"
  by (auto simp: docker_do_def split: prod.splits sum.splits dest: docker_call_rel)

lemma docker_tolerant_rel: "Q h (snd (docker_tolerant en what benign args h))"
  by (auto simp: docker_tolerant_def Let_def split: prod.splits dest: docker_rel)

lemma IsInstalled_rel: "IsInstalled en h = (r, h') \<Longrightarrow> Q h h'"
  by (auto simp: IsInstalled_def split: prod.splits dest: docker_rel)

lemma IsRunning_rel: "IsRunning en h = (r, h') \<Longrightarrow> Q h h'"
  by (auto simp: IsRunning_def split: prod.splits dest: docker_rel)

lemma EnsureDocker_rel: "EnsureDocker en h = (r, h') \<Longrightarrow> Q h h'"
  by (auto simp: EnsureDocker_def CheckAndInstall_def split: prod.splits if_splits
      dest!: IsInstalled_rel IsRunning_rel intro: rel_trans)

lemma ensure_daemon_rel: "ensure_daemon en h = (r, h') \<Longrightarrow> Q h h'"
  by (auto simp: ensure_daemon_def split: prod.splits if_splits dest!: IsRunning_rel EnsureDocker_rel intro: rel_trans)

lemma ensure_network_rel: "ensure_network en c h = (r, h') \<Longrightarrow> Q h h'"
  by (auto simp: ensure_network_def NetworkCreate_def docker_tolerant_rel rel_refl)

lemma CreateContainer_rel: "CreateContainer en c h = (r, h') \<Longrightarrow> Q h h'"
  by (auto simp: CreateContainer_def Let_def split: prod.splits sum.splits dest: docker_call_rel)

lemma ContainerExists_rel: "ContainerExists en n h = (r, h') \<Longrightarrow> Q h h'"
  by (auto simp: ContainerExists_def split: prod.splits dest: docker_rel)

lemma NetworkConnect_rel: "Q h (snd (NetworkConnect en n c al ip h))"
  by (simp add: NetworkConnect_def docker_tolerant_rel)

lemma ensure_created_rel:
  assumes "ensure_created en c d h = (r, h')"
  shows "Q h h'"
proof -
  obtain ex h1 where e: "ContainerExists en (docker_name (idName d)) h = (ex, h1)" by (metis prod.exhaust)
  note q1 = ContainerExists_rel [OF e]
  show ?thesis
  proof (cases ex)
    case True
    then have "h' = h1 \<or> h' = snd (NetworkConnect en (ccNetwork c) (docker_name (idName d)) (idName d) '''' h1)"
      using assms e by (auto simp: ensure_created_def split: if_splits)
    then show ?thesis using q1 NetworkConnect_rel rel_trans by blast
  next
    case False
    obtain x h2 where p: "(if idCustomDockerfile d = '''' then PullImage en (ccImage c) h1 else (None, h1)) = (x, h2)"
      by (metis prod.exhaust)
    have q2: "Q h1 h2" using p by (auto simp: PullImage_def rel_refl split: if_splits dest: docker_do_rel)
    have "h' = h2 \<or> (\<exists>y. CreateContainer en c h2 = (y, h'))"
      using assms e p False by (auto simp: ensure_created_def split: option.splits prod.splits sum.splits)
    then show ?thesis using q1 q2 CreateContainer_rel rel_trans by metis
  qed
qed

lemma proc_running_rel: "proc_running en p h = (q, h') \<Longrightarrow> Q h h'"
  by (auto simp: proc_running_def proc_fetchPID_def split: prod.splits dest: docker_rel)

lemma proc_RefreshState_rel: "proc_RefreshState en p h = (q, h') \<Longrightarrow> Q h h'"
  by (auto simp: proc_RefreshState_def split: prod.splits if_splits
      dest!: docker_rel proc_running_rel intro: rel_trans)

lemma proc_Start_rel: "proc_Start en p h = (r, h') \<Longrightarrow> Q h h'"
  by (auto simp: proc_Start_def rel_refl split: prod.splits if_splits dest!: docker_rel proc_running_rel
      intro: rel_trans)

lemma proc_Kill_rel: "proc_Kill en p h = (q, h') \<Longrightarrow> Q h h'"
  by (auto simp: proc_Kill_def split: prod.splits dest: docker_rel)

lemma proc_Stop_rel: "proc_Stop en p h = (r, h') \<Longrightarrow> Q h h'"
  by (auto simp: proc_Stop_def Let_def rel_refl split: prod.splits if_splits dest!: docker_rel proc_Kill_rel
      intro: rel_trans)

lemma start_rel: "ControlInstance en i ''start'' a h = (r, h') \<Longrightarrow> Q h h'"
  by (auto simp: ControlInstance_def proc_control_def rel_refl split: option.splits prod.splits dest: proc_Start_rel)

lemma stop_for_removal_rel: "Q h (stop_for_removal en p h)"
proof (cases "mgState p = StateRunning \<or> mgState p = StateStarting")
  case True
  obtain e p1 h1 where s: "proc_Stop en p h = ((e, p1), h1)" by (metis prod.exhaust)
  obtain p2 h2 where k: "proc_Kill en p1 h1 = (p2, h2)" by (metis prod.exhaust)
  show ?thesis
    using True s k proc_Stop_rel [OF s] rel_trans [OF proc_Stop_rel [OF s] proc_Kill_rel [OF k]]
    by (simp add: stop_for_removal_def)
qed (simp add: stop_for_removal_def rel_refl)

lemma RemoveContainer_rel: "Q h (snd (RemoveContainer en c force h))"
  using docker_do_rel by (cases "RemoveContainer en c force h") (auto simp: RemoveContainer_def)

end

text \<open>The files docker is told to read are written into the working directory before.\<close>

locale host_writes = host_relation +
  fixes wd :: string
  assumes rel_write: "write_in en wd n b f = Inr f' \<Longrightarrow> proper_name n \<Longrightarrow> Q (f, w) (f', w)"
begin

lemma compose_rel: "compose en what args wd' h = (r, h') \<Longrightarrow> Q h h'"
proof -
  assume c: "compose en what args wd' h = (r, h')"
  have x: "Q g g'" if "combined_output en k g = (y, g')" for k g y g'
    using rel_exec [of g k] combined_output_host [of en k g] that by simp
  from c show "Q h h'"
    by (auto simp: compose_def split: prod.splits if_splits dest!: x intro: rel_trans)
qed

lemma ensure_compose_rel:
  assumes "ensure_compose en d h = (r, h')" "idWorkDir d = wd"
  shows "Q h h'"
proof (cases "idCustomCompose d = ''''")
  case True
  then show ?thesis using assms rel_refl by (auto simp: ensure_compose_def)
next
  case False
  show ?thesis
  proof (cases "write_in en wd ''docker-compose.yml'' (string_bytes (idCustomCompose d)) (fst h)")
    case (Inl e)
    then show ?thesis using assms False rel_refl by (simp add: ensure_compose_def)
  next
    case (Inr f)
    have "Q h (f, snd h)" using rel_write [OF Inr, of "snd h"] by (simp add: proper_name_def)
    moreover have "\<exists>x. ComposeUp en wd (f, snd h) = (x, h')"
      using assms False Inr by (auto simp: ensure_compose_def split: prod.splits)
    ultimately show ?thesis unfolding ComposeUp_def by (blast intro: compose_rel rel_trans)
  qed
qed

lemma ensure_image_rel:
  assumes "ensure_image en d h = (r, h')" "idWorkDir d = wd"
  shows "Q h h'"
proof (cases "idCustomDockerfile d = ''''")
  case True
  then show ?thesis using assms rel_refl by (auto simp: ensure_image_def)
next
  case False
  show ?thesis
  proof (cases "write_in en wd ''Dockerfile'' (string_bytes (idCustomDockerfile d)) (fst h)")
    case (Inl e)
    then show ?thesis using assms False rel_refl by (simp add: ensure_image_def)
  next
    case (Inr f)
    have "Q h (f, snd h)" using rel_write [OF Inr, of "snd h"] by (simp add: proper_name_def)
    moreover have "\<exists>x. BuildImage en wd (custom_image d) (f, snd h) = (x, h')"
      using assms False Inr by (auto simp: ensure_image_def split: prod.splits)
    ultimately show ?thesis unfolding BuildImage_def by (blast intro: docker_do_rel rel_trans)
  qed
qed

lemma ensure_steps_rel:
  assumes "\<And>s h r h'. s \<in> set ss \<Longrightarrow> s h = (r, h') \<Longrightarrow> Q h h'" "ensure_steps ss h = (r, h')"
  shows "Q h h'"
  using assms
proof (induction ss arbitrary: h)
  case Nil
  then show ?case using rel_refl by auto
next
  case (Cons s ss)
  obtain x h1 where s: "s h = (x, h1)" by (metis prod.exhaust)
  have q: "Q h h1" using s by (intro Cons.prems(1) [where s = s]) simp_all
  show ?case
  proof (cases x)
    case None
    then have st: "ensure_steps ss h1 = (r, h')" using Cons.prems(2) s by simp
    have all: "Q g g'" if "s' \<in> set ss" "s' g = (y, g')" for s' g y g'
      by (rule Cons.prems(1) [of s' g y]) (use that in simp_all)
    have "Q h1 h'" by (rule Cons.IH [OF all st])
    then show ?thesis using q rel_trans by blast
  next
    case (Some e)
    then show ?thesis using Cons.prems(2) s q by simp
  qed
qed

lemma ensureDockerContainer_rel:
  assumes "ensureDockerContainer en ip i d h = (r, h')" "idWorkDir d = wd"
  shows "Q h h'"
proof -
  obtain x h1 where e: "ensure_daemon en h = (x, h1)" by (metis prod.exhaust)
  note q1 = ensure_daemon_rel [OF e]
  show ?thesis
  proof (cases "x \<noteq> None \<or> container_spec en ip d = None")
    case True
    then have "h' = h1" using assms(1) e by (auto simp: ensureDockerContainer_def split: option.splits)
    then show ?thesis using q1 by simp
  next
    case False
    then obtain c0 where c0: "x = None" "container_spec en ip d = Some c0" by blast
    define c where "c = (if idCustomDockerfile d \<noteq> '''' then c0\<lparr>ccImage := custom_image d\<rparr> else c0)"
    obtain y h2 where s: "ensure_steps [ensure_network en c0, ensure_compose en d, ensure_image en d,
        ensure_created en c d] h1 = (y, h2)" by (metis prod.exhaust)
    have q2: "Q h1 h2"
      by (rule ensure_steps_rel [OF _ s])
        (use assms(2) in \<open>auto dest: ensure_network_rel ensure_compose_rel ensure_image_rel ensure_created_rel\<close>)
    have "h' = h2 \<or> (\<exists>p q. proc_RefreshState en p h2 = (q, h'))"
      using assms(1) e c0 s by (auto simp: ensureDockerContainer_def c_def Let_def split: option.splits prod.splits)
    then show ?thesis using q1 q2 proc_RefreshState_rel rel_trans by metis
  qed
qed

end

section \<open>Staying in a region\<close>

definition stays_in :: "(path \<Rightarrow> bool) \<Rightarrow> 'w host \<Rightarrow> 'w host \<Rightarrow> bool" where
  "stays_in R h h' \<longleftrightarrow> (fs_ok (fst h) \<longrightarrow> fs_ok (fst h') \<and> same_outside R (fst h) (fst h'))"

definition dir_region :: "'w env \<Rightarrow> string \<Rightarrow> path \<Rightarrow> bool" where
  "dir_region en wd = below (os_path (enCwd en) wd)"

lemma stays_in_refl [simp]: "stays_in R h h"
  by (simp add: stays_in_def)

lemma stays_in_trans: "stays_in R h h1 \<Longrightarrow> stays_in R h1 h2 \<Longrightarrow> stays_in R h h2"
  by (auto simp: stays_in_def intro: same_outside_trans)

lemma stays_in_exec: "keeps_files en R \<Longrightarrow> stays_in R h (snd (enExec en c h))"
  by (auto simp: stays_in_def dest: keeps_filesD)

lemma write_in_proper:
  assumes "target_ok wd" "proper_name n"
  shows "\<forall>c \<in> set (os_path (enCwd en) wd @ [n]). proper_name c"
  using target_proper [OF assms(1)] os_base_proper assms(2) by (auto simp: os_path_target [OF assms(1)])

lemma stays_in_write:
  assumes "target_ok wd" "proper_name n" "write_in en wd n b f = Inr f'"
  shows "stays_in (dir_region en wd) (f, w) (f', w)"
proof -
  have w: "os_write_file (os_path (enCwd en) wd @ [n]) b 420 f = Inr f'"
    using assms(3) by (simp add: write_in_def os_path_in [OF assms(1,2)])
  have "same_outside (dir_region en wd) f f'"
    by (rule os_write_file_outside [OF w]) (simp add: dir_region_def below_iff)
  then show ?thesis
    using os_write_file_ok [OF _ write_in_proper [OF assms(1,2)] w] by (simp add: stays_in_def)
qed

interpretation stays: host_relation en "\<lambda>h h'. keeps_files en R \<longrightarrow> stays_in R h h'"
  for en :: "'w env" and R
  by unfold_locales (auto intro: stays_in_trans stays_in_exec)

interpretation inside: host_writes en
    "\<lambda>h h'. target_ok wd \<longrightarrow> keeps_files en (dir_region en wd) \<longrightarrow> stays_in (dir_region en wd) h h'" wd
  for en :: "'w env" and wd
  by unfold_locales (auto intro: stays_in_trans stays_in_exec stays_in_write)

lemma stays_in_try_write:
  assumes "target_ok wd" "proper_name n"
  shows "stays_in (dir_region en wd) (f, w) (try_write en wd n s f, w)"
  using stays_in_write [OF assms] by (auto simp: try_write_def split: sum.split)

section \<open>Creating an instance\<close>

lemma alnum_proper:
  assumes "agentNameRe s"
  shows "proper_name s"
proof -
  have a: "\<not> alnum CHR ''.''" "\<not> alnum CHR ''/''" by code_simp+
  obtain c cs where s: "s = c # cs" "alnum c" "\<forall>d \<in> set cs. alnum d \<or> d = CHR ''.'' \<or> d = CHR ''_'' \<or> d = CHR ''-''"
    using assms by (auto simp: agentNameRe_def list_all_iff split: list.splits)
  then have "CHR ''/'' \<notin> set s" using a(2) by auto
  moreover have "c \<noteq> CHR ''.''" using s(2) a(1) by auto
  ultimately show ?thesis using s(1) by (simp add: proper_name_def)
qed

lemma server_dir_target:
  assumes "proper_name n"
  shows "target_ok (server_dir n)" "comps (server_dir n) = [''servers'', n]" "\<not> is_abs (server_dir n)"
proof -
  have p: "\<forall>c \<in> set [''servers'', n]. proper_name c" using assms by (simp add: proper_name_def)
  have "clean_comps False (''./servers'' @ ''/'' @ str_join ''/'' [n]) = clean_comps False ''./servers'' @ [n]"
    by (rule clean_comps_under_join) (use assms in simp)
  moreover have "clean_comps False ''./servers'' = [''servers'']" by code_simp
  ultimately have c: "clean_comps False (''./servers'' @ CHR ''/'' # n) = [''servers'', n]" by simp
  have a: "\<not> is_abs ''./servers''" by code_simp
  have "server_dir n = path_text False [''servers'', n]"
    unfolding server_dir_def using fp_join_text [of "''./servers''" n] c a by simp
  then have j: "server_dir n = str_join ''/'' [''servers'', n]" by (simp add: path_text_def rel_text_def)
  show na: "\<not> is_abs (server_dir n)" unfolding j using rel_join_not_abs [OF p] by simp
  have "clean_comps False (server_dir n) = [''servers'', n]" unfolding j by (rule clean_comps_join [OF p]) 
  then show cc: "comps (server_dir n) = [''servers'', n]" using na by (simp add: comps_def)
  have "no_climb (server_dir n)" unfolding j by (rule no_climb_rel [OF p])
  then show "target_ok (server_dir n)" using cc by (simp add: target_ok_def j)
qed

lemma stays_in_create_files:
  assumes wd: "target_ok (idWorkDir d)" and jar: "proper_name (idServerJar d)"
    and c: "create_files en r d f = Inr f'"
  shows "stays_in (dir_region en (idWorkDir d)) (f, w) (f', w)"
proof (cases "idType d = ''minecraft''")
  case False
  then show ?thesis using c by (simp add: create_files_def)
next
  case True
  obtain f1 where f1: "(if ciServerJarData r \<noteq> [] \<and> ciServerZipData r = []
      then write_in en (idWorkDir d) (idServerJar d) (ciServerJarData r) f else Inr f) = Inr f1"
    using c True by (auto simp: create_files_def split: sum.splits)
  have s1: "stays_in (dir_region en (idWorkDir d)) (f, w) (f1, w)"
    using f1 stays_in_write [OF wd jar] by (auto split: if_splits)
  define f2 where "f2 = (if ciAcceptEula r then try_write en (idWorkDir d) ''eula.txt'' eula_text f1 else f1)"
  have s2: "stays_in (dir_region en (idWorkDir d)) (f1, w) (f2, w)"
    using stays_in_try_write [OF wd proper_files(1), of en f1 w] by (simp add: f2_def)
  have "f' = f2 \<or> f' = try_write en (idWorkDir d) ''server.properties'' (props_text (idPort d)) f2"
    using c True f1 by (auto simp: create_files_def f2_def Let_def split: if_splits)
  then have s3: "stays_in (dir_region en (idWorkDir d)) (f2, w) (f', w)"
    using stays_in_try_write [OF wd proper_files(2)] by auto
  show ?thesis using s1 s2 s3 stays_in_trans by blast
qed


lemma demo_keeps: "keeps_files demo_env R"
  by (simp add: keeps_files_def demo_exec)

definition demo_create :: AgentCreateRequest where
  "demo_create =
     \<lparr>ciName = ''lobby'', ciPort = 0, ciMemoryMin = '''', ciMemoryMax = '''', ciServerJarName = ''paper.jar'',
      ciServerJarData = [1, 2], ciAutoStart = False, ciAutoRestart = False, ciAcceptEula = True,
      ciStartAfterCreate = True, ciJavaPath = '''', ciJvmArgs = [], ciInstanceType = '''', ciJavaVersion = '''',
      ciCustomDockerfile = '''', ciCustomCompose = '''', ciNetworkName = '''', ciServerZipName = '''',
      ciServerZipData = []\<rparr>"

definition demo_created :: "((agent_error + string) \<times> agent) \<times> (string, bool) gomap host" where
  "demo_created = CreateNewInstance Map.empty demo_env demo_create demo_agent ([], [])"


section \<open>Uploads\<close>

lemma dotdot_dir: "server_dir ''..'' = ''.''"
  by code_simp

text \<open>
  C34. An upload is not confined to the directory of an instance. Neither the instance's name nor the file
  name of an upload is checked: a request with the name \<^verbatim>\<open>..\<close> replaces any file in or below the
  agent's own working directory, its configuration and its backups included, by the uploaded bytes.
\<close>

theorem upload_overwrites_any_file:
  assumes "fs_ok f" "fs_get f (to_path (enCwd en) @ p) = Some (FileNode m old)" "p \<noteq> []"
    and "upInstanceName msg = ''..''" "upFileType msg = ''jar''" "upFileName msg = str_join ''/'' p"
    and "UploadServerData zipDec en (msg # msgs) True a f = ((x, a'), f')"
  shows "x = Inr '''' \<and>
    os_read_file f' (to_path (enCwd en) @ p) = Inr (concat (map upChunkData (msg # msgs)))"
proof -
  have pp: "\<forall>c \<in> set p. proper_name c" using fs_ok_proper [OF assms(1,2)] by simp
  have pc: "\<forall>c \<in> set (to_path (enCwd en)). proper_name c" by (simp add: to_path_proper)
  have dot: "os_path (enCwd en) ''.'' = to_path (enCwd en)"
  proof -
    have "os_path (enCwd en) (path_text False []) = os_base (enCwd en) False @ []" by (rule os_path_text) simp
    moreover have "path_text False [] = ''.''" by code_simp
    ultimately show ?thesis by (simp add: os_base_def)
  qed
  have d: "fs_get f q = None \<or> fs_is_dir f q" if q: "below q (to_path (enCwd en))" for q
  proof (rule ccontr)
    assume "\<not> ?thesis"
    then have n: "\<not> fs_is_dir f q" by simp
    have "below q (to_path (enCwd en) @ p)" "q \<noteq> to_path (enCwd en) @ p"
      using q assms(3) by (auto simp: below_iff)
    then obtain r where "to_path (enCwd en) @ p = q @ r" "r \<noteq> []" by (auto simp: below_iff)
    then show False using fs_ok_no_file_below [OF assms(1) n, of "to_path (enCwd en) @ p"] assms(2) by auto
  qed
  obtain f1 where f1: "mkdir_in en ''.'' f = Inr f1"
    using os_mkdir_all_total [of "to_path (enCwd en)" f 493] d by (auto simp: mkdir_in_def dot)
  then have "fs_get f1 (to_path (enCwd en) @ p) = Some (FileNode m old)"
    using os_mkdir_all_spec(3) assms(2) by (auto simp: mkdir_in_def dot)
  moreover have "os_path (enCwd en) (fp_join [''.'', str_join ''/'' p]) = to_path (enCwd en) @ p"
  proof -
    have "clean_comps False (''.'' @ ''/'' @ str_join ''/'' p) = clean_comps False ''.'' @ p"
      by (rule clean_comps_under_join [OF pp])
    moreover have "\<not> is_abs ''.''" by code_simp
    ultimately have "fp_join [''.'', str_join ''/'' p] = path_text False p"
      by (simp add: fp_join_text clean_comps_dot)
    then show ?thesis using os_path_text [OF pp] by (simp add: os_base_def)
  qed
  ultimately obtain f2 where f2: "os_write_file (os_path (enCwd en) (fp_join [''.'', str_join ''/'' p]))
      (concat (map upChunkData (msg # msgs))) 438 f1 = Inr f2"
    and e: "os_path (enCwd en) (fp_join [''.'', str_join ''/'' p]) = to_path (enCwd en) @ p"
    by (simp add: os_write_file_def)
  have r: "os_read_file f2 (to_path (enCwd en) @ p) = Inr (concat (map upChunkData (msg # msgs)))"
    using os_write_file_get(3) [OF f2] by (simp only: e)
  have ne: "str_join ''/'' p \<noteq> ''''" using str_join_proper_ne [OF pp assms(3)] .
  have j: "to_lower ''jar'' = ''jar''" by code_simp
  have "save_upload zipDec en ''.'' ''jar'' (str_join ''/'' p) (concat (map upChunkData (msg # msgs))) f = (Inr '''', f2)"
    using f1 f2 by (simp add: save_upload_def j)
  then have "UploadServerData zipDec en (msg # msgs) True a f =
      ((Inr '''', detected_jar (instance_id a ''..'') '''' a), f2)"
    using assms(4-6) ne by (simp add: UploadServerData_def dotdot_dir)
  then have "x = Inr '''' \<and> f' = f2" using assms(7) by simp
  then show ?thesis using r by simp
qed

definition demo_upload :: "bytes \<Rightarrow> UploadRequest" where
  "demo_upload b =
     \<lparr>upInstanceName = ''..'', upFileType = ''jar'', upFileName = ''agent.yaml'', upTotalSize = 0, upChunkData = b\<rparr>"

definition demo_home :: fs where
  "demo_home = [([''srv''], DirNode 493), ([''srv'', ''agent.yaml''], FileNode 384 [7])]"

theorem upload_overwrites_any_file_witness:
  "\<exists>a' f'. UploadServerData Map.empty demo_env [demo_upload [1], demo_upload [2]] True demo_agent demo_home =
      ((Inr '''', a'), f') \<and> os_read_file f' [''srv'', ''agent.yaml''] = Inr [1, 2]"
proof -
  obtain x a' f' where u: "UploadServerData Map.empty demo_env [demo_upload [1], demo_upload [2]] True demo_agent
      demo_home = ((x, a'), f')" by (metis prod.exhaust)
  have "to_path (enCwd demo_env) = [''srv'']" by code_simp
  then have p: "to_path (enCwd demo_env) @ [''agent.yaml''] = [''srv'', ''agent.yaml'']" by simp
  have g: "fs_get demo_home (to_path (enCwd demo_env) @ [''agent.yaml'']) = Some (FileNode 384 [7])"
    unfolding p by code_simp
  have "fs_ok demo_home" by code_simp
  note w = upload_overwrites_any_file [OF this g _ _ _ _ u]
  then show ?thesis using u p by (simp add: demo_upload_def)
qed

section \<open>Removing an instance\<close>

text \<open>
  Removing an instance. The process and the definition of the instance are gone, every other
  instance keeps its own, and with programs that leave the files alone nothing in the files changes unless the data is
  to be removed as well; then exactly the working directory and everything below it is gone. That includes
  the data of any other instance whose working directory lies inside.
\<close>

theorem remove_instance_removes:
  assumes "map_get (agInstances a) i = Some p" and "map_get (agDefs a) i = Some d"
    and "target_ok (idWorkDir d)" and "\<not> ends_with_dot (idWorkDir d)"
    and "keeps_files en (\<lambda>q. False)" and "fs_ok f"
    and "RemoveInstance en i rm a (f, w) = ((e, a'), (f', w'))"
  shows "e = None \<and> map_get (agInstances a') i = None \<and> map_get (agDefs a') i = None \<and>
    (\<forall>j. j \<noteq> i \<longrightarrow> map_get (agInstances a') j = map_get (agInstances a) j \<and>
       map_get (agDefs a') j = map_get (agDefs a) j) \<and>
    (\<forall>q. fs_get f' q =
       (if rm \<and> below (os_path (enCwd en) (idWorkDir d)) q then None else fs_get f q))"
proof -
  define h1 where "h1 = stop_for_removal en p (f, w)"
  obtain ex h2 where c: "ContainerExists en (docker_name (mgName p)) h1 = (ex, h2)" by (metis prod.exhaust)
  define h3 where "h3 = (if ex then snd (RemoveContainer en (docker_name (mgName p)) True h2) else h2)"
  have r: "((e, a'), (f', w')) = ((None, a\<lparr>agInstances := map_del i (agInstances a), agDefs := map_del i (agDefs a)\<rparr>),
      if rm \<and> idWorkDir d \<noteq> '''' then (remove_data en (idWorkDir d) (fst h3), snd h3) else h3)"
  proof -
    have "RemoveInstance en i rm a (f, w) =
        ((None, a\<lparr>agInstances := map_del i (agInstances a), agDefs := map_del i (agDefs a)\<rparr>),
         if rm \<and> idWorkDir d \<noteq> '''' then (remove_data en (idWorkDir d) (fst h3), snd h3) else h3)"
      unfolding RemoveInstance_def assms(1,2) option.case Let_def h1_def [symmetric] c prod.case h3_def ..
    then show ?thesis using assms(7) by simp
  qed
  have s1: "stays_in (\<lambda>q. False) (f, w) h1" using stays.stop_for_removal_rel assms(5) unfolding h1_def by blast
  have s2: "stays_in (\<lambda>q. False) h1 h2" using stays.ContainerExists_rel [OF c] assms(5) by blast
  have s3: "stays_in (\<lambda>q. False) h2 h3"
    using stays.RemoveContainer_rel [of en "\<lambda>q. False"] assms(5) by (simp add: h3_def)
  have "stays_in (\<lambda>q. False) (f, w) h3" using s1 s2 s3 stays_in_trans by blast
  then have same: "fs_get (fst h3) q = fs_get f q" for q
    using assms(6) by (simp add: stays_in_def same_outside_def)
  have wd: "idWorkDir d \<noteq> ''''" using assms(3) by (simp add: target_ok_def)
  have "os_path (enCwd en) (idWorkDir d) \<noteq> []"
    using assms(3) by (simp add: os_path_target [OF assms(3)]) (simp add: target_ok_def)
  then have "fs_get (remove_data en (idWorkDir d) (fst h3)) q =
      (if below (os_path (enCwd en) (idWorkDir d)) q then None else fs_get f q)" for q
    using os_remove_all_get same assms(4) by (auto simp: remove_data_def os_remove_all_def)
  then have files: "\<forall>q. fs_get f' q = (if rm \<and> below (os_path (enCwd en) (idWorkDir d)) q then None else fs_get f q)"
    using r same wd by (auto split: if_splits)
  show ?thesis using r files by (auto simp: go_map_simps)
qed

lemma demo_synced_facts:
  "case demo_synced of (a, f, w) \<Rightarrow>
     map_get (agInstances a) ''n1-cache'' \<noteq> None \<and> map_get (agInstances a) ''n1-survival'' \<noteq> None \<and>
     map_option idWorkDir (map_get (agDefs a) ''n1-cache'') = Some ''servers/cache'' \<and>
     fs_ok f \<and> fs_get f [''srv'', ''servers'', ''survival'', ''eula.txt''] \<noteq> None"
  by code_simp

theorem remove_instance_removes_witness:
  "\<exists>e a' f' w'. RemoveInstance demo_env ''n1-cache'' True (fst demo_synced) (snd demo_synced) = ((e, a'), (f', w')) \<and>
    map_get (agInstances a') ''n1-cache'' = None \<and> map_get (agInstances a') ''n1-survival'' \<noteq> None \<and>
    fs_get f' [''srv'', ''servers'', ''cache''] = None \<and>
    fs_get f' [''srv'', ''servers'', ''survival'', ''eula.txt''] \<noteq> None"
proof -
  obtain p d where pd: "map_get (agInstances (fst demo_synced)) ''n1-cache'' = Some p"
      "map_get (agDefs (fst demo_synced)) ''n1-cache'' = Some d"
      "idWorkDir d = ''servers/cache''"
    using demo_synced_facts unfolding case_prod_beta by auto
  have t: "target_ok (idWorkDir d)" "\<not> ends_with_dot (idWorkDir d)" unfolding pd(3) by code_simp+
  have ok: "fs_ok (fst (snd demo_synced))"
    and files: "fs_get (fst (snd demo_synced)) [''srv'', ''servers'', ''survival'', ''eula.txt''] \<noteq> None"
    and inst: "map_get (agInstances (fst demo_synced)) ''n1-survival'' \<noteq> None"
    using demo_synced_facts unfolding case_prod_beta by auto
  have path: "os_path (enCwd demo_env) (idWorkDir d) = [''srv'', ''servers'', ''cache'']" unfolding pd(3) by code_simp

  obtain e a' f' w' where r: "RemoveInstance demo_env ''n1-cache'' True (fst demo_synced)
      (fst (snd demo_synced), snd (snd demo_synced)) = ((e, a'), (f', w'))" by (metis prod.exhaust)
  note rem = remove_instance_removes [OF pd(1,2) t demo_keeps ok r]
  have "fs_get f' [''srv'', ''servers'', ''cache''] = None" using rem path by simp
  moreover have "fs_get f' [''srv'', ''servers'', ''survival'', ''eula.txt''] \<noteq> None"
    using rem files by (simp add: path below_def)
  moreover have "map_get (agInstances a') ''n1-survival'' \<noteq> None" using rem inst by simp
  ultimately show ?thesis using r rem by simp
qed

end
