(* ===== verification/Node_Dns.thy ===== *)
theory Node_Dns
  imports Mesh_Node
begin

text \<open>
  What the DNS server of an agent answers after an update (\<^verbatim>\<open>internal/agent/dns/server.go\<close>).
\<close>

definition dns_key :: "string \<Rightarrow> string" where
  "dns_key fqdn = to_lower (with_dot fqdn)"

definition put_record :: "string \<times> string \<Rightarrow> (string, string) gomap \<Rightarrow> (string, string) gomap" where
  "put_record r = map_put (dns_key (fst r)) (snd r)"

lemma UpdateRecords_fold: "dsRecords (UpdateRecords rs s) = fold put_record rs []"
proof -
  have "(\<lambda>(fqdn, ip). map_put (to_lower (with_dot fqdn)) ip) = put_record"
    by (auto simp: put_record_def dns_key_def)
  then show ?thesis by (simp add: UpdateRecords_def)
qed

lemma fold_records_other:
  "\<forall>r \<in> set rs. dns_key (fst r) \<noteq> k \<Longrightarrow> map_get (fold put_record rs m) k = map_get m k"
  by (induction rs arbitrary: m) (auto simp: put_record_def go_map_simps)

lemma fold_records_latest:
  assumes "rs = a @ (fqdn, ip) # b" "\<forall>r \<in> set b. dns_key (fst r) \<noteq> dns_key fqdn"
  shows "map_get (fold put_record rs []) (dns_key fqdn) = Some ip"
  using fold_records_other [OF assms(2)] by (simp add: assms(1) put_record_def go_map_simps)

text \<open>
  From the records of the master to the answer of a node. After an update, a question for the
  IPv4 address of a name, in whatever case it is asked, is answered with the address of the last record pushed
  for that name, and with no other.
\<close>

theorem dns_answers_latest_record:
  assumes "rs = a @ (fqdn, ip) # b" and "\<forall>r \<in> set b. dns_key (fst r) \<noteq> dns_key fqdn"
    and "parse_ip4 ip = Some octets" and "to_lower name = dns_key fqdn"
  shows "handleQuery (UpdateRecords rs s) [(name, TypeA)] = (RcodeSuccess, [(name, octets)])"
  using fold_records_latest [OF assms(1,2)] assms(3,4)
  by (simp add: handleQuery_def answer_def UpdateRecords_fold List.map_filter_def)

theorem dns_answers_latest_record_witness:
  "handleQuery (UpdateRecords [(''db.craftstack.internal'', ''172.30.1.9''), (''DB.craftstack.internal.'', ''172.30.2.10'')]
      (NewDnsServer ''10.10.0.1'' 53 '''')) [(''Db.CraftStack.Internal.'', TypeA)] =
    (RcodeSuccess, [(''Db.CraftStack.Internal.'', [172, 30, 2, 10])])"
proof (rule dns_answers_latest_record)
  show "[(''db.craftstack.internal'', ''172.30.1.9''), (''DB.craftstack.internal.'', ''172.30.2.10'')] =
    [(''db.craftstack.internal'', ''172.30.1.9'')] @ (''DB.craftstack.internal.'', ''172.30.2.10'') # []" by simp
  show "parse_ip4 ''172.30.2.10'' = Some [172, 30, 2, 10]" by code_simp
  show "to_lower ''Db.CraftStack.Internal.'' = dns_key ''DB.craftstack.internal.''" by code_simp
qed simp

text \<open>
  A name that exists is denied. The answer to a question for the IPv6 address of a name that has an
  IPv4 address is NXDOMAIN (the name does not exist), where the protocol asks for an empty answer without error; a
  resolver that asks for both addresses may conclude that the service is gone.
\<close>

theorem dns_denies_existing_name:
  assumes "map_get (dsRecords s) (to_lower name) = Some ip" and "parse_ip4 ip = Some octets"
  shows "handleQuery s [(name, TypeA)] = (RcodeSuccess, [(name, octets)]) \<and>
    handleQuery s [(name, TypeAAAA)] = (RcodeNameError, [])"
  using assms by (simp add: handleQuery_def answer_def List.map_filter_def)

theorem dns_denies_existing_name_witness:
  "handleQuery (UpdateRecords [(''db.craftstack.internal'', ''172.30.1.9'')] (NewDnsServer ''10.10.0.1'' 0 ''''))
    [(''db.craftstack.internal.'', TypeAAAA)] = (RcodeNameError, [])"
proof -
  have "map_get (dsRecords (UpdateRecords [(''db.craftstack.internal'', ''172.30.1.9'')] (NewDnsServer ''10.10.0.1'' 0 '''')))
      (to_lower ''db.craftstack.internal.'') = Some ''172.30.1.9''"
    and "parse_ip4 ''172.30.1.9'' = Some [172, 30, 1, 9]" by code_simp+
  from dns_denies_existing_name [OF this] show ?thesis by simp
qed

end
