(* ===== verification/Git_History.thy ===== *)
theory Git_History
  imports Host_Commands File_Service
begin

text \<open>
  The file history of an instance on its agent (\<^verbatim>\<open>internal/agent/grpc_git.go\<close>): every change
  made through the file manager is committed to a git repository in the working directory,
  the history of a file can be listed and an old version restored. Git itself is one of the
  programs behind \<open>enExec\<close>; the model has every command line with its directory and
  environment, and every reading of an answer. The two streams of \<^verbatim>\<open>git commit\<close>, which the
  code collects separately and puts together, are \<open>crCombined\<close>.
\<close>

section \<open>The repository\<close>

datatype git_error = GitFile file_error | GitText string

record git_env =
  geWorkDir :: string
  geEnv :: "string list"

definition gitAvailable :: "'w env \<Rightarrow> bool" where
  "gitAvailable en \<longleftrightarrow> enLookPath en ''git'' \<noteq> None"

definition neutral_env :: "string list" where
  "neutral_env = [''GIT_TERMINAL_PROMPT=0'', ''GIT_OPTIONAL_LOCKS=0'', ''LANG=C'', ''LC_ALL=C'']"

definition instanceGitEnv :: "'w env \<Rightarrow> inst_defs \<Rightarrow> string \<Rightarrow> fs \<Rightarrow> git_error + git_env" where
  "instanceGitEnv en defs instanceID f =
     (case resolveInstancePath (enCwd en) defs instanceID '''' of
        Inl e \<Rightarrow> Inl (GitFile e)
      | Inr workDir \<Rightarrow>
          if \<not> fs_is_dir f (to_path workDir) then Inl (GitText ''work_dir missing'')
          else Inr \<lparr>geWorkDir = workDir, geEnv = neutral_env\<rparr>)"

definition git_command :: "git_env \<Rightarrow> string list \<Rightarrow> command" where
  "git_command g args =
     \<lparr>cmProgram = ''git'', cmDir = geWorkDir g, cmEnv = geEnv g, cmArgs = args, cmStdin = ''''\<rparr>"

definition git_dir :: "git_env \<Rightarrow> path" where
  "git_dir g = to_path (fp_join [geWorkDir g, ''.git''])"

text \<open>Some text is the message of a failure. The two settings are made without a directory.\<close>

definition ensureRepo :: "'w env \<Rightarrow> git_env \<Rightarrow> 'w host \<Rightarrow> string option \<times> 'w host" where
  "ensureRepo en g h =
     (if fs_is_dir (fst h) (git_dir g) then (None, h)
      else let ((out, ok), h1) = combined_output en (git_command g [''init'', ''-q'', ''-b'', ''main'']) h
           in if \<not> ok then (Some (''git init: '' @ trim_space out), h1)
              else let (r, h2) = combined_output en (plain_command ''git'' [''config'', ''user.name'', ''CraftStack'']) h1;
                       (r', h3) = combined_output en
                         (plain_command ''git'' [''config'', ''user.email'', ''craftstack@localhost'']) h2
                   in (None, h3))"

section \<open>Committing\<close>

record GitCommitRequest =
  gcInstanceId :: string
  gcPaths :: "string list"
  gcMessage :: string
  gcAuthorName :: string
  gcAuthorEmail :: string
  gcAllowEmpty :: bool

record GitCommitResponse =
  grSuccess :: bool
  grMessage :: string
  grCommitSha :: string

definition refused :: "string \<Rightarrow> GitCommitResponse" where
  "refused msg = \<lparr>grSuccess = False, grMessage = msg, grCommitSha = ''''\<rparr>"

text \<open>The arguments of \<^verbatim>\<open>git add\<close>, or the path that is refused.\<close>

definition is_rejected :: "string \<Rightarrow> inst_defs \<Rightarrow> string \<Rightarrow> string \<Rightarrow> bool" where
  "is_rejected cwd defs instanceID p \<longleftrightarrow>
     (case resolveInstancePath cwd defs instanceID p of Inl e \<Rightarrow> True | Inr q \<Rightarrow> False)"

definition stage_args :: "string \<Rightarrow> inst_defs \<Rightarrow> string \<Rightarrow> string list \<Rightarrow> string + string list" where
  "stage_args cwd defs instanceID paths =
     (if paths = [] then Inr [''add'', ''-A'']
      else case filter (is_rejected cwd defs instanceID) paths of
             p # ps \<Rightarrow> Inl p
           | [] \<Rightarrow> Inr ([''add'', ''--''] @ paths))"

definition trimmed_or :: "string \<Rightarrow> string \<Rightarrow> string" where
  "trimmed_or fallback s = (if trim_space s = '''' then fallback else trim_space s)"

definition commit_command :: "git_env \<Rightarrow> GitCommitRequest \<Rightarrow> command" where
  "commit_command g req =
     (let author = trimmed_or ''CraftStack'' (gcAuthorName req);
          email = trimmed_or ''craftstack@localhost'' (gcAuthorEmail req);
          msg = trimmed_or ''change'' (gcMessage req)
      in (git_command g ([''commit'', ''-m'', msg] @ (if gcAllowEmpty req then [''--allow-empty''] else [])))
           \<lparr>cmEnv := geEnv g @ [''GIT_AUTHOR_NAME='' @ author, ''GIT_AUTHOR_EMAIL='' @ email,
              ''GIT_COMMITTER_NAME='' @ author, ''GIT_COMMITTER_EMAIL='' @ email]\<rparr>)"

definition git_commit :: "'w env \<Rightarrow> git_env \<Rightarrow> GitCommitRequest \<Rightarrow> 'w host \<Rightarrow> GitCommitResponse \<times> 'w host" where
  "git_commit en g req h =
     (let ((combined, ok), h1) = combined_output en (commit_command g req) h
      in if \<not> ok
         then (if str_contains combined ''nothing to commit'' \<or> str_contains combined ''nothing added''
               then \<lparr>grSuccess = True, grMessage = ''no changes'', grCommitSha = ''''\<rparr>
               else refused (''git commit: '' @ trim_space combined), h1)
         else let ((sha, ok'), h2) = std_output en (git_command g [''rev-parse'', ''--short'', ''HEAD'']) h1
              in (\<lparr>grSuccess = True, grMessage = ''committed'', grCommitSha = trim_space sha\<rparr>, h2))"

definition GitCommit ::
  "'w env \<Rightarrow> inst_defs \<Rightarrow> GitCommitRequest \<Rightarrow> 'w host \<Rightarrow> (git_error + GitCommitResponse) \<times> 'w host" where
  "GitCommit en defs req h =
     (if \<not> gitAvailable en then (Inr (refused ''git not installed on this host''), h)
      else case instanceGitEnv en defs (gcInstanceId req) (fst h) of
        Inl e \<Rightarrow> (Inl e, h)
      | Inr g \<Rightarrow>
          (case ensureRepo en g h of
             (Some e, h1) \<Rightarrow> (Inr (refused e), h1)
           | (None, h1) \<Rightarrow>
               (case stage_args (enCwd en) defs (gcInstanceId req) (gcPaths req) of
                  Inl p \<Rightarrow> (Inr (refused (''invalid path: '' @ p)), h1)
                | Inr args \<Rightarrow>
                    let ((out, ok), h2) = combined_output en (git_command g args) h1
                    in if \<not> ok then (Inr (refused (''git add: '' @ trim_space out)), h2)
                       else let (r, h3) = git_commit en g req h2 in (Inr r, h3))))"

section \<open>Restoring\<close>

definition is_hex :: "char \<Rightarrow> bool" where
  "is_hex c \<longleftrightarrow>
     (let k = (of_char c :: nat) in 48 \<le> k \<and> k \<le> 57 \<or> 97 \<le> k \<and> k \<le> 102 \<or> 65 \<le> k \<and> k \<le> 70)"

record GitRestoreRequest =
  gsrInstanceId :: string
  gsrPath :: string
  gsrCommitSha :: string
  gsrAuthorName :: string
  gsrAuthorEmail :: string

definition rollback_request :: "GitRestoreRequest \<Rightarrow> GitCommitRequest" where
  "rollback_request req =
     \<lparr>gcInstanceId = gsrInstanceId req, gcPaths = [gsrPath req],
      gcMessage = ''rollback '' @ gsrPath req @ '' to '' @ gsrCommitSha req,
      gcAuthorName = gsrAuthorName req, gcAuthorEmail = gsrAuthorEmail req, gcAllowEmpty = False\<rparr>"

text \<open>The content of the file in the commit, or the message of a refusal.\<close>

definition git_fetch :: "'w env \<Rightarrow> git_env \<Rightarrow> string \<Rightarrow> string \<Rightarrow> 'w host \<Rightarrow> (string + bytes) \<times> 'w host" where
  "git_fetch en g sha p h =
     (let ((out, ok), h1) = combined_output en (git_command g [''cat-file'', ''-e'', sha @ ''^{commit}'']) h
      in if \<not> ok then (Inl (''unknown commit: '' @ trim_space out), h1)
         else let ((content, ok'), h2) = std_output en (git_command g [''show'', sha @ '':'' @ p]) h1
              in (if ok' then Inr (string_bytes content) else Inl ''file not present in that commit'', h2))"

definition write_back :: "string \<Rightarrow> bytes \<Rightarrow> 'w host \<Rightarrow> (git_error option) \<times> 'w host" where
  "write_back targetAbs content h =
     (case os_mkdir_all (to_path (fp_dir targetAbs)) 493 (fst h) of
        Inl e \<Rightarrow> (Some (GitFile (OsFail e)), h)
      | Inr f1 \<Rightarrow>
          (case os_write_file (to_path targetAbs) content 420 f1 of
             Inl e \<Rightarrow> (Some (GitFile (OsFail e)), (f1, snd h))
           | Inr f2 \<Rightarrow> (None, (f2, snd h))))"

definition GitRestore ::
  "'w env \<Rightarrow> inst_defs \<Rightarrow> GitRestoreRequest \<Rightarrow> 'w host \<Rightarrow> (git_error + GitCommitResponse) \<times> 'w host" where
  "GitRestore en defs req h =
     (if \<not> gitAvailable en then (Inr (refused ''git not installed''), h)
      else if trim_space (gsrPath req) = '''' \<or> trim_space (gsrCommitSha req) = ''''
      then (Inl (GitText ''path and commit_sha are required''), h)
      else case resolveInstancePath (enCwd en) defs (gsrInstanceId req) (gsrPath req) of
        Inl e \<Rightarrow> (Inl (GitFile e), h)
      | Inr targetAbs \<Rightarrow>
          (case instanceGitEnv en defs (gsrInstanceId req) (fst h) of
             Inl e \<Rightarrow> (Inl e, h)
           | Inr g \<Rightarrow>
               if fs_get (fst h) (git_dir g) = None then (Inr (refused ''repo not initialized''), h)
               else if \<not> list_all is_hex (gsrCommitSha req) then (Inl (GitText ''invalid commit sha''), h)
               else (case git_fetch en g (gsrCommitSha req) (gsrPath req) h of
                       (Inl msg, h1) \<Rightarrow> (Inr (refused msg), h1)
                     | (Inr content, h1) \<Rightarrow>
                         (case write_back targetAbs content h1 of
                            (Some e, h2) \<Rightarrow> (Inl e, h2)
                          | (None, h2) \<Rightarrow> GitCommit en defs (rollback_request req) h2))))"

section \<open>Listing\<close>

record GitCommitEntry =
  ceSha :: string
  ceAuthor :: string
  ceEmail :: string
  ceTimestamp :: int
  ceMessage :: string

text \<open>\<^verbatim>\<open>strconv.ParseInt(s, 10, 64)\<close> without its error: 0 for no number, the nearest bound out of range.\<close>

definition parse_int64 :: "string \<Rightarrow> int" where
  "parse_int64 s =
     (let neg = (s \<noteq> [] \<and> hd s = CHR ''-'');
          digits = (if s \<noteq> [] \<and> (hd s = CHR ''-'' \<or> hd s = CHR ''+'') then tl s else s)
      in case parse_uint digits of
           None \<Rightarrow> 0
         | Some n \<Rightarrow> max min_int64 (min max_int64 (if neg then - int n else int n)))"

definition trim_right_newlines :: "string \<Rightarrow> string" where
  "trim_right_newlines s = rev (dropWhile (\<lambda>c. c = CHR 0x0A) (rev s))"

definition parse_commit :: "string \<Rightarrow> GitCommitEntry option" where
  "parse_commit line =
     (let parts = splitn CHR 0x00 5 line
      in if line = '''' \<or> length parts < 5 then None
         else Some \<lparr>ceSha = parts ! 0, ceAuthor = parts ! 1, ceEmail = parts ! 2,
                    ceTimestamp = parse_int64 (parts ! 3), ceMessage = parts ! 4\<rparr>)"

definition parse_log :: "string \<Rightarrow> GitCommitEntry list" where
  "parse_log out = List.map_filter parse_commit (split_on CHR 0x0A (trim_right_newlines out))"

definition log_args :: "int \<Rightarrow> string list" where
  "log_args limit =
     [''log'', ''-n'', itoa (if limit \<le> 0 \<or> 200 < limit then 20 else limit),
      ''--pretty=format:%h%x00%an%x00%ae%x00%at%x00%s'']"

text \<open>The result is an error, the message of a refusal, or the commits.\<close>

definition GitLog ::
  "'w env \<Rightarrow> inst_defs \<Rightarrow> string \<Rightarrow> string \<Rightarrow> int \<Rightarrow> 'w host \<Rightarrow>
   (git_error + (string + GitCommitEntry list)) \<times> 'w host" where
  "GitLog en defs instanceID reqPath limit h =
     (if \<not> gitAvailable en then (Inr (Inl ''git not installed''), h)
      else case instanceGitEnv en defs instanceID (fst h) of
        Inl e \<Rightarrow> (Inl e, h)
      | Inr g \<Rightarrow>
          if fs_get (fst h) (git_dir g) = None then (Inr (Inl ''no git history (repo not initialized)''), h)
          else let p = trim_space reqPath
               in if p \<noteq> '''' \<and> is_rejected (enCwd en) defs instanceID p then (Inr (Inl ''invalid path''), h)
                  else let args = log_args limit @ (if p \<noteq> '''' then [''--'', p] else []);
                           ((out, ok), h1) = std_output en (git_command g args) h
                       in (Inr (if ok then Inr (parse_log out) else Inl ''git log''), h1))"

end
