(* ===== verification/Git_Properties.thy ===== *)
theory Git_Properties
  imports Git_History File_Trees
begin

text \<open>
  What the file history promises: with a git that keeps to its repository no request leaves
  the working directory, and a version that was once committed can be brought back. What git
  is relied on for is stated as predicates on the program behind \<open>enExec\<close>; a small git that
  satisfies them, written as a function, serves the witnesses.
\<close>

section \<open>What is relied on\<close>

definition git_alive :: "git_env \<Rightarrow> fs \<Rightarrow> bool" where
  "git_alive g f \<longleftrightarrow> fs_ok f \<and> fs_is_dir f (git_dir g)"

definition in_repo :: "git_env \<Rightarrow> command \<Rightarrow> bool" where
  "in_repo g c \<longleftrightarrow> cmProgram c = ''git'' \<and> cmDir c = geWorkDir g"

text \<open>None of the commands in use touches a file outside the repository \<^verbatim>\<open>.git\<close>.\<close>

definition git_quiet :: "'w env \<Rightarrow> git_env \<Rightarrow> bool" where
  "git_quiet en g \<longleftrightarrow>
     (\<forall>c h. in_repo g c \<longrightarrow> git_alive g (fst h) \<longrightarrow>
        git_alive g (fst (snd (enExec en c h))) \<and>
        same_outside (below (git_dir g)) (fst h) (fst (snd (enExec en c h))))"

text \<open>
  \<open>snap h sha p\<close> is the content of file \<open>p\<close> in commit \<open>sha\<close>. It depends on the repository
  only, no command takes it back, \<^verbatim>\<open>git show\<close> prints it, and a commit of staged files has
  their content (no filters are set up).
\<close>

type_synonym 'w snapshots = "'w host \<Rightarrow> string \<Rightarrow> string \<Rightarrow> bytes option"

definition snap_local :: "git_env \<Rightarrow> 'w snapshots \<Rightarrow> bool" where
  "snap_local g snap \<longleftrightarrow>
     (\<forall>h h'. snd h = snd h' \<longrightarrow> (\<forall>q. below (git_dir g) q \<longrightarrow> fs_get (fst h) q = fs_get (fst h') q) \<longrightarrow>
        snap h = snap h')"

definition snap_kept :: "'w env \<Rightarrow> git_env \<Rightarrow> 'w snapshots \<Rightarrow> bool" where
  "snap_kept en g snap \<longleftrightarrow>
     (\<forall>c h sha p b. in_repo g c \<longrightarrow> git_alive g (fst h) \<longrightarrow> snap h sha p = Some b \<longrightarrow>
        snap (snd (enExec en c h)) sha p = Some b)"

definition snap_shown :: "'w env \<Rightarrow> git_env \<Rightarrow> 'w snapshots \<Rightarrow> bool" where
  "snap_shown en g snap \<longleftrightarrow>
     (\<forall>h sha p b. snap h sha p = Some b \<longrightarrow>
        crOk (fst (enExec en (git_command g [''cat-file'', ''-e'', sha @ ''^{commit}'']) h)) \<and>
        crOk (fst (enExec en (git_command g [''show'', sha @ '':'' @ p]) h)) \<and>
        string_bytes (crStdout (fst (enExec en (git_command g [''show'', sha @ '':'' @ p]) h))) = b)"

text \<open>A path that \<^verbatim>\<open>git add\<close> does not read as a pattern of its own.\<close>

definition literal :: "string \<Rightarrow> bool" where
  "literal p \<longleftrightarrow> p \<noteq> '''' \<and> hd p \<noteq> CHR '':''"

definition snap_taken :: "'w env \<Rightarrow> git_env \<Rightarrow> 'w snapshots \<Rightarrow> bool" where
  "snap_taken en g snap \<longleftrightarrow>
     (\<forall>h ps req p b.
        let (r1, h1) = enExec en (git_command g ([''add'', ''--''] @ ps)) h;
            (r2, h2) = enExec en (commit_command g req) h1;
            (r3, h3) = enExec en (git_command g [''rev-parse'', ''--short'', ''HEAD'']) h2;
            sha = trim_space (crStdout r3)
        in git_alive g (fst h) \<longrightarrow> p \<in> set ps \<longrightarrow> list_all literal ps \<longrightarrow>
           os_read_file (fst h) (to_path (fp_join [geWorkDir g, p])) = Inr b \<longrightarrow> crOk r1 \<longrightarrow> crOk r2 \<longrightarrow>
           trim_space sha \<noteq> '''' \<and> list_all is_hex sha \<and> snap h3 sha p = Some b)"

definition git_records :: "'w env \<Rightarrow> git_env \<Rightarrow> 'w snapshots \<Rightarrow> bool" where
  "git_records en g snap \<longleftrightarrow>
     snap_local g snap \<and> snap_kept en g snap \<and> snap_shown en g snap \<and> snap_taken en g snap"

section \<open>Runs of git\<close>

lemma git_quietD:
  assumes "git_quiet en g" "in_repo g c" "git_alive g (fst h)"
  shows "git_alive g (fst (snd (enExec en c h)))"
    and "same_outside (below (git_dir g)) (fst h) (fst (snd (enExec en c h)))"
  using assms unfolding git_quiet_def by blast+

lemma in_repo_git_command [simp]: "in_repo g (git_command g args)"
  by (simp add: in_repo_def git_command_def)

lemma in_repo_commit_command [simp]: "in_repo g (commit_command g req)"
  by (simp add: in_repo_def git_command_def commit_command_def Let_def)

text \<open>A property of hosts that every command in the repository keeps is kept by the operations.\<close>

lemma git_commit_closed:
  assumes "P h" "\<And>c h. in_repo g c \<Longrightarrow> P h \<Longrightarrow> P (snd (enExec en c h))"
  shows "P (snd (git_commit en g req h))"
  using assms(1) by (auto simp: git_commit_def std_output_def combined_output_def Let_def split_beta
      intro!: assms(2) split: prod.splits if_splits)

lemma GitCommit_closed:
  assumes "P h" "\<And>c h. in_repo g c \<Longrightarrow> P h \<Longrightarrow> P (snd (enExec en c h))"
    and g: "instanceGitEnv en defs (gcInstanceId req) (fst h) = Inr g" and d: "fs_is_dir (fst h) (git_dir g)"
  shows "P (snd (GitCommit en defs req h))"
proof -
  have e: "ensureRepo en g h = (None, h)" using d by (simp add: ensureRepo_def)
  have "P (snd (combined_output en (git_command g args) h))" for args
    using assms(1,2) by simp
  then show ?thesis
    using git_commit_closed [of P _ g en req, OF _ assms(2)] assms(1)
    by (auto simp: GitCommit_def g e Let_def split_beta split: sum.splits prod.splits)
qed

lemma git_fetch_closed:
  assumes "P h" "\<And>c h. in_repo g c \<Longrightarrow> P h \<Longrightarrow> P (snd (enExec en c h))"
  shows "P (snd (git_fetch en g sha p h))"
  using assms(1) by (auto simp: git_fetch_def std_output_def combined_output_def Let_def split_beta
      intro!: assms(2) split: prod.splits if_splits)

section \<open>The working directory of an instance\<close>

text \<open>An instance whose definition has a working directory, and its repository.\<close>

definition has_work_dir :: "string \<Rightarrow> inst_defs \<Rightarrow> string \<Rightarrow> InstanceDef \<Rightarrow> bool" where
  "has_work_dir cwd defs i def \<longleftrightarrow> is_abs cwd \<and> map_get defs i = Some def \<and> idWorkDir def \<noteq> ''''"

definition work_git :: "string \<Rightarrow> InstanceDef \<Rightarrow> git_env" where
  "work_git cwd def = \<lparr>geWorkDir = abs_text (work_path cwd def), geEnv = neutral_env\<rparr>"

lemma work_path_proper: "has_work_dir cwd defs i def \<Longrightarrow> \<forall>c \<in> set (work_path cwd def). proper_name c"
  using fp_abs_work(2) [of cwd def] by (simp add: has_work_dir_def)

lemma join_work_git:
  assumes "has_work_dir cwd defs i def" "\<forall>c \<in> set cs. proper_name c"
  shows "to_path (fp_join [geWorkDir (work_git cwd def), str_join ''/'' cs]) = work_path cwd def @ cs"
proof -
  have "fp_join [abs_text (work_path cwd def), str_join ''/'' cs] = abs_text (work_path cwd def @ cs)"
    using clean_comps_under_join [OF assms(2), of True "abs_text (work_path cwd def)"]
      work_path_proper [OF assms(1)] by (simp add: fp_join_two)
  then show ?thesis
    using work_path_proper [OF assms(1)] assms(2) by (simp add: work_git_def to_path_append del: fp_join.simps)
qed

lemma git_dir_work:
  assumes "has_work_dir cwd defs i def"
  shows "git_dir (work_git cwd def) = work_path cwd def @ [''.git'']"
  using join_work_git [OF assms, of "[''.git'']"] by (simp add: git_dir_def proper_name_def)

lemma resolve_names:
  assumes "has_work_dir cwd defs i def" "\<forall>c \<in> set cs. proper_name c"
  shows "resolveInstancePath cwd defs i (str_join ''/'' cs) = Inr (abs_text (work_path cwd def @ cs))"
proof -
  have "clean_comps (is_abs (str_join ''/'' cs)) (str_join ''/'' cs) = cs"
    using assms(2) by (simp add: clean_comps_join)
  then show ?thesis
    using resolve_no_climb [of cwd defs i def] no_climb_rel [OF assms(2)] assms(1)
    by (simp add: has_work_dir_def)
qed

lemma git_env_found:
  assumes "has_work_dir (enCwd en) defs i def" "git_alive (work_git (enCwd en) def) f"
  shows "instanceGitEnv en defs i f = Inr (work_git (enCwd en) def)"
proof -
  have "fs_is_dir f (work_path (enCwd en) def)"
    using assms(2) fs_ok_parent [of f "work_path (enCwd en) def @ [''.git'']"]
    by (auto simp: git_alive_def git_dir_work [OF assms(1)] fs_is_dir_def split: option.splits)
  then show ?thesis
    using resolve_names [OF assms(1), of "[]"] work_path_proper [OF assms(1)]
    by (simp add: instanceGitEnv_def work_git_def)
qed

section \<open>Requests stay inside the working directory\<close>

lemma dir_kept_write: "os_write_file p b m f = Inr f' \<Longrightarrow> fs_is_dir f q \<Longrightarrow> fs_is_dir f' q"
  using os_write_file_Inr [of p b m f f'] by (auto simp: fs_is_dir_put)

lemma write_back_effect:
  assumes "write_back (abs_text p) b h = (r, h')" "fs_ok (fst h)" "\<forall>c \<in> set p. proper_name c"
  shows "snd h' = snd h" "fs_ok (fst h')" "fs_is_dir (fst h) q \<Longrightarrow> fs_is_dir (fst h') q"
    and "fs_get (fst h') q = fs_get (fst h) q \<or> q = p \<or> fs_get (fst h) q = None \<and> below q p"
    and "r = None \<Longrightarrow> os_read_file (fst h') p = Inr b"
proof -
  have pq: "to_path (abs_text p) = p" "to_path (fp_dir (abs_text p)) = butlast p"
    "\<forall>c \<in> set (butlast p). proper_name c"
    using assms(3) by (simp_all add: fp_dir_path in_set_butlastD)
  have "snd h' = snd h \<and> fs_ok (fst h') \<and> (\<forall>q. fs_is_dir (fst h) q \<longrightarrow> fs_is_dir (fst h') q) \<and>
    (\<forall>q. fs_get (fst h') q = fs_get (fst h) q \<or> q = p \<or> fs_get (fst h) q = None \<and> below q p) \<and>
    (r = None \<longrightarrow> os_read_file (fst h') p = Inr b)"
  proof (cases "os_mkdir_all (butlast p) 493 (fst h)")
    case (Inl e)
    then show ?thesis using assms(1,2) by (auto simp: write_back_def pq)
  next
    case (Inr f1)
    have ok1: "fs_ok f1" by (rule os_mkdir_all_ok [OF Inr assms(2) pq(3)])
    have m: "\<forall>q. fs_get f1 q = fs_get (fst h) q \<or> q = p \<or> fs_get (fst h) q = None \<and> below q p"
      using os_mkdir_all_spec(2) [OF Inr] below_trans [of _ "butlast p" p]
      by (metis append_butlast_last_id below_iff butlast.simps(1))
    show ?thesis
    proof (cases "os_write_file p b 420 f1")
      case e: (Inl e)
      then show ?thesis using assms(1) Inr ok1 m os_mkdir_all_dirs [OF Inr] by (auto simp: write_back_def pq)
    next
      case w: (Inr f2)
      then show ?thesis
        using assms(1) Inr m os_mkdir_all_dirs [OF Inr] dir_kept_write [OF w] os_write_file_ok [OF ok1 assms(3) w]
          os_write_file_get(2,3) [OF w] by (auto simp: write_back_def pq)
    qed
  qed
  then show "snd h' = snd h" "fs_ok (fst h')" "fs_is_dir (fst h) q \<Longrightarrow> fs_is_dir (fst h') q"
    and "fs_get (fst h') q = fs_get (fst h) q \<or> q = p \<or> fs_get (fst h) q = None \<and> below q p"
    and "r = None \<Longrightarrow> os_read_file (fst h') p = Inr b"
    by blast+
qed

lemma git_kept:
  assumes "git_quiet en g" "in_repo g c" "git_alive g (fst h) \<and> same_outside R f (fst h)"
    and "\<And>q. below (git_dir g) q \<Longrightarrow> R q"
  shows "git_alive g (fst (snd (enExec en c h))) \<and> same_outside R f (fst (snd (enExec en c h)))"
  using git_quietD [OF assms(1,2), of h] assms(3,4) same_outside_mono same_outside_trans by blast

lemma GitCommit_inside:
  assumes "has_work_dir (enCwd en) defs i def" "git_quiet en (work_git (enCwd en) def)"
    and "git_alive (work_git (enCwd en) def) (fst h)" "same_outside R f (fst h)" "gcInstanceId req = i"
    and "\<And>q. below (git_dir (work_git (enCwd en) def)) q \<Longrightarrow> R q"
  shows "git_alive (work_git (enCwd en) def) (fst (snd (GitCommit en defs req h))) \<and>
    same_outside R f (fst (snd (GitCommit en defs req h)))"
proof (rule GitCommit_closed)
  show "instanceGitEnv en defs (gcInstanceId req) (fst h) = Inr (work_git (enCwd en) def)"
    using git_env_found [OF assms(1,3)] assms(5) by simp
  show "fs_is_dir (fst h) (git_dir (work_git (enCwd en) def))" using assms(3) by (simp add: git_alive_def)
  show "git_alive (work_git (enCwd en) def) (fst h) \<and> same_outside R f (fst h)" using assms(3,4) by simp
  show "git_alive (work_git (enCwd en) def) (fst (snd (enExec en c h'))) \<and>
      same_outside R f (fst (snd (enExec en c h')))"
    if "in_repo (work_git (enCwd en) def) c"
      "git_alive (work_git (enCwd en) def) (fst h') \<and> same_outside R f (fst h')" for c h'
    by (rule git_kept [OF assms(2) that assms(6)])
qed

lemma GitRestore_inside:
  fixes R :: "path \<Rightarrow> bool"
  assumes w: "has_work_dir (enCwd en) defs i def" and quiet: "git_quiet en (work_git (enCwd en) def)"
    and alive: "git_alive (work_git (enCwd en) def) (fst h)"
    and i: "gsrInstanceId req = i" and nc: "no_climb (gsrPath req)"
  shows "same_outside (below (work_path (enCwd en) def)) (fst h) (fst (snd (GitRestore en defs req h)))"
proof -
  define W where "W = work_path (enCwd en) def"
  define g where "g = work_git (enCwd en) def"
  define cs where "cs = clean_comps (is_abs (gsrPath req)) (gsrPath req)"
  have pr: "\<forall>c \<in> set (W @ cs). proper_name c"
    using work_path_proper [OF w] no_climb_proper [OF nc] by (auto simp: W_def cs_def)
  have tgt: "resolveInstancePath (enCwd en) defs i (gsrPath req) = Inr (abs_text (W @ cs))"
    using resolve_no_climb [OF _ _ _ nc] w by (simp add: has_work_dir_def W_def cs_def)
  have repo: "below W q" if "below (git_dir g) q" for q
    using that below_trans [of W "git_dir g" q] by (simp add: g_def git_dir_work [OF w] W_def below_iff)
  have env: "instanceGitEnv en defs i (fst h) = Inr g" using git_env_found [OF w alive] by (simp add: g_def)
  have dir: "fs_get (fst h) W \<noteq> None"
    using alive fs_ok_parent [of "fst h" "W @ [''.git'']"]
    by (auto simp: git_alive_def git_dir_work [OF w] fs_is_dir_def W_def split: option.splits)
  obtain r h1 where f: "git_fetch en g (gsrCommitSha req) (gsrPath req) h = (r, h1)" by (metis surj_pair)
  have "git_alive g (fst h1) \<and> same_outside (below W) (fst h) (fst h1)"
    using git_fetch_closed [of "\<lambda>k. git_alive g (fst k) \<and> same_outside (below W) (fst h) (fst k)" h g en]
      git_kept [OF quiet] alive repo f unfolding g_def by (metis same_outside_refl snd_conv)
  then have h1: "git_alive g (fst h1)" "same_outside (below W) (fst h) (fst h1)" by auto
  have after: "git_alive g (fst h2) \<and> same_outside (below W) (fst h) (fst h2)"
    if wb: "write_back (abs_text (W @ cs)) content h1 = (e, h2)" for content e h2
  proof -
    note eff = write_back_effect [OF wb _ pr]
    have ok: "fs_ok (fst h1)" "fs_is_dir (fst h1) (git_dir g)" using h1(1) by (simp_all add: git_alive_def)
    have "fs_get (fst h2) q = fs_get (fst h1) q" if "\<not> below W q" for q
    proof -
      have "q \<noteq> W @ cs" using that by (auto simp: below_iff)
      moreover have "fs_get (fst h1) q \<noteq> None" if "below q (W @ cs)"
      proof -
        have "below q W" using that \<open>\<not> below W q\<close> by (auto simp: below_iff append_eq_append_conv2)
        moreover have "fs_get (fst h1) W \<noteq> None"
          using fs_ok_ancestors [OF ok(1), of "git_dir g" W] ok(2)
          by (auto simp: g_def git_dir_work [OF w] W_def below_iff fs_is_dir_def split: option.splits)
        ultimately show ?thesis using fs_ok_ancestors [OF ok(1)] by blast
      qed
      ultimately show ?thesis using eff(4) [OF ok(1), of q] by auto
    qed
    then have "same_outside (below W) (fst h1) (fst h2)" by (simp add: same_outside_def)
    then show ?thesis
      using eff(2) [OF ok(1)] eff(3) [OF ok] same_outside_trans [OF h1(2)] by (simp add: git_alive_def)
  qed
  have last: "same_outside (below W) (fst h) (fst (snd (GitCommit en defs (rollback_request req) h2)))"
    if wb: "write_back (abs_text (W @ cs)) content h1 = (None, h2)" for content h2
    using GitCommit_inside [OF w quiet, where R = "below W" and f = "fst h" and h = h2 and req = "rollback_request req"]
      repo after [OF wb] i by (simp add: g_def rollback_request_def)
  show ?thesis
    using h1(2) after last f
    by (auto simp: GitRestore_def i tgt env W_def [symmetric] split: sum.splits option.splits prod.splits)
qed

section \<open>Bringing a version back\<close>

lemma GitCommit_committed:
  assumes env: "instanceGitEnv en defs (gcInstanceId req) (fst h) = Inr g" and alive: "git_alive g (fst h)"
    and run: "GitCommit en defs req h = (Inr r, h')" "grMessage r = ''committed''" "grSuccess r"
    and p: "p \<in> set (gcPaths req)" "list_all literal (gcPaths req)" "os_read_file (fst h) (to_path (fp_join [geWorkDir g, p])) = Inr b"
    and git: "snap_taken en g snap"
  shows "trim_space (grCommitSha r) \<noteq> '''' \<and> list_all is_hex (grCommitSha r) \<and> snap h' (grCommitSha r) p = Some b"
proof -
  obtain r1 h1 where e1: "enExec en (git_command g ([''add'', ''--''] @ gcPaths req)) h = (r1, h1)" by (rule prod.exhaust)
  obtain r2 h2 where e2: "enExec en (commit_command g req) h1 = (r2, h2)" by (rule prod.exhaust)
  obtain r3 h3 where e3: "enExec en (git_command g [''rev-parse'', ''--short'', ''HEAD'']) h2 = (r3, h3)" by (rule prod.exhaust)
  have repo: "ensureRepo en g h = (None, h)" using alive by (simp add: ensureRepo_def git_alive_def)
  have ne: "gcPaths req \<noteq> []" using p(1) by auto
  note steps = run env repo ne e1 e2 e3
  have st: "stage_args (enCwd en) defs (gcInstanceId req) (gcPaths req) = Inr ([''add'', ''--''] @ gcPaths req)"
    using steps by (auto simp: GitCommit_def stage_args_def refused_def split: if_splits list.splits)
  have "crOk r1 \<and> crOk r2 \<and> r = \<lparr>grSuccess = True, grMessage = ''committed'', grCommitSha = trim_space (crStdout r3)\<rparr> \<and> h' = h3"
    using steps st
    by (auto simp: GitCommit_def git_commit_def combined_output_def std_output_def refused_def Let_def split: if_splits)
  then show ?thesis
    using git [unfolded snap_taken_def, THEN spec [of _ h], THEN spec [of _ "gcPaths req"], THEN spec [of _ req],
        THEN spec [of _ p], THEN spec [of _ b]] alive p e1 e2 e3
    by (simp add: Let_def)
qed

lemma GitCommit_Inr:
  assumes "instanceGitEnv en defs (gcInstanceId req) (fst h) = Inr g"
  shows "\<exists>r. fst (GitCommit en defs req h) = Inr r"
proof (cases "gitAvailable en")
  case True
  obtain e h1 where r: "ensureRepo en g h = (e, h1)" by (rule prod.exhaust)
  show ?thesis
    by (cases e; cases "stage_args (enCwd en) defs (gcInstanceId req) (gcPaths req)")
      (auto simp: GitCommit_def True assms r Let_def split_beta)
qed (simp add: GitCommit_def)

lemma GitRestore_content:
  assumes w: "has_work_dir (enCwd en) defs i def" and quiet: "git_quiet en (work_git (enCwd en) def)"
    and git: "git_records en (work_git (enCwd en) def) snap"
    and alive: "git_alive (work_git (enCwd en) def) (fst h)"
    and cs: "cs \<noteq> []" "\<forall>c \<in> set cs. proper_name c" "hd cs \<noteq> ''.git''" "trim_space (str_join ''/'' cs) \<noteq> ''''"
    and room: "\<not> fs_is_dir (fst h) (work_path (enCwd en) def @ cs)"
      "\<And>q. below q (work_path (enCwd en) def @ butlast cs) \<Longrightarrow> fs_get (fst h) q = None \<or> fs_is_dir (fst h) q"
    and req: "gsrInstanceId req = i" "gsrPath req = str_join ''/'' cs"
    and sha: "list_all is_hex (gsrCommitSha req)" "trim_space (gsrCommitSha req) \<noteq> ''''" "gitAvailable en"
    and snap: "snap h (gsrCommitSha req) (str_join ''/'' cs) = Some b"
  shows "\<exists>r h'. GitRestore en defs req h = (Inr r, h') \<and>
    os_read_file (fst h') (work_path (enCwd en) def @ cs) = Inr b"
proof -
  define W where "W = work_path (enCwd en) def"
  define g where "g = work_git (enCwd en) def"
  have gd: "git_dir g = W @ [''.git'']" by (simp add: g_def W_def git_dir_work [OF w])
  have pr: "\<forall>c \<in> set (W @ cs). proper_name c" using work_path_proper [OF w] cs(2) by (auto simp: W_def)
  have nb: "\<not> below (git_dir g) (W @ cs)" using cs(1,3) by (cases cs) (auto simp: gd below_iff)
  have tgt: "resolveInstancePath (enCwd en) defs i (str_join ''/'' cs) = Inr (abs_text (W @ cs))"
    using resolve_names [OF w cs(2)] by (simp add: W_def)
  have env: "instanceGitEnv en defs i (fst k) = Inr g" if "git_alive g (fst k)" for k :: "'a host"
    using git_env_found [OF w] that by (simp add: g_def)
  have alive': "git_alive g (fst h)" using alive by (simp add: g_def)
  obtain r1 h1 where e1: "enExec en (git_command g [''cat-file'', ''-e'', gsrCommitSha req @ ''^{commit}'']) h = (r1, h1)"
    by (rule prod.exhaust)
  obtain r2 h2 where e2: "enExec en (git_command g [''show'', gsrCommitSha req @ '':'' @ str_join ''/'' cs]) h1 = (r2, h2)"
    by (rule prod.exhaust)
  have q1: "git_alive g (fst h1) \<and> same_outside (below (git_dir g)) (fst h) (fst h1)"
    using git_kept [of en g _ h] quiet alive' e1 by (metis g_def in_repo_git_command same_outside_refl snd_conv)
  then have q2: "git_alive g (fst h2) \<and> same_outside (below (git_dir g)) (fst h) (fst h2)"
    using git_kept [of en g _ h1] quiet e2 by (metis g_def in_repo_git_command snd_conv)
  have s1: "snap h1 (gsrCommitSha req) (str_join ''/'' cs) = Some b"
    using git snap e1 alive' unfolding git_records_def snap_kept_def g_def [symmetric]
    by (metis in_repo_git_command snd_conv)
  have shown: "crOk r1" "crOk r2" "string_bytes (crStdout r2) = b"
    using git snap s1 e1 e2 unfolding git_records_def snap_shown_def g_def [symmetric] by (metis fst_conv)+
  have f: "git_fetch en g (gsrCommitSha req) (str_join ''/'' cs) h = (Inr b, h2)"
    using shown e1 e2 by (simp add: git_fetch_def combined_output_def std_output_def)
  have at: "fs_get (fst h2) q = fs_get (fst h) q" if "\<not> below (git_dir g) q" for q
    using q2 that by (simp add: same_outside_def)
  obtain wb h3 where w3: "write_back (abs_text (W @ cs)) b h2 = (wb, h3)" by (rule prod.exhaust)
  note eff = write_back_effect [OF w3 _ pr]
  have ok2: "fs_ok (fst h2)" "fs_is_dir (fst h2) (git_dir g)" using q2 by (simp_all add: git_alive_def)
  have "wb = None"
  proof -
    have bl: "W @ butlast cs = butlast (W @ cs)" using cs(1) by (simp add: butlast_append)
    have "fs_get (fst h2) q = None \<or> fs_is_dir (fst h2) q" if q: "below q (W @ butlast cs)" for q
    proof -
      have "\<not> below (git_dir g) (W @ butlast cs)"
        using nb below_trans [of "git_dir g" "W @ butlast cs" "W @ cs"] below_butlast [of "W @ cs"] bl by metis
      then have "\<not> below (git_dir g) q" using q below_trans by blast
      from at [OF this] show ?thesis using room(2) q by (auto simp: W_def fs_is_dir_def)
    qed
    then obtain f1 where m: "os_mkdir_all (butlast (W @ cs)) 493 (fst h2) = Inr f1"
      using os_mkdir_all_total [of "W @ butlast cs" "fst h2" 493] bl by metis
    have "\<not> below (W @ cs) (butlast (W @ cs))" using below_length [of "W @ cs" "butlast (W @ cs)"] cs(1)
      by (cases cs) auto
    then have "\<not> fs_is_dir f1 (W @ cs)"
      using os_mkdir_all_spec(2) [OF m, of "W @ cs"] at [OF nb] room(1) by (auto simp: fs_is_dir_def W_def)
    then obtain f2 where "os_write_file (W @ cs) b 420 f1 = Inr f2"
      using os_write_file_possible [of "W @ cs" f1] os_mkdir_all_spec(1) [OF m] cs(1) by auto
    then show ?thesis
      using w3 m pr by (auto simp: write_back_def fp_dir_path)
  qed
  note w3 = w3 [unfolded this]
  have h3: "git_alive g (fst h3)" "os_read_file (fst h3) (W @ cs) = Inr b"
    using eff(2,5) [OF ok2(1)] eff(3) [OF ok2] \<open>wb = None\<close> by (simp_all add: git_alive_def)
  have i3: "instanceGitEnv en defs (gcInstanceId (rollback_request req)) (fst h3) = Inr g"
    using env [OF h3(1)] req(1) by (simp add: rollback_request_def)
  have "git_alive g (fst (snd (GitCommit en defs (rollback_request req) h3))) \<and>
    os_read_file (fst (snd (GitCommit en defs (rollback_request req) h3))) (W @ cs) = Inr b"
  proof (rule GitCommit_closed [OF _ _ i3])
    show "git_alive g (fst (snd (enExec en c k))) \<and> os_read_file (fst (snd (enExec en c k))) (W @ cs) = Inr b"
      if "in_repo g c" "git_alive g (fst k) \<and> os_read_file (fst k) (W @ cs) = Inr b" for c k
      using git_quietD [OF quiet [folded g_def] that(1), of k] that(2) nb
      by (auto simp: os_read_file_def same_outside_def)
  qed (use h3 in \<open>auto simp: git_alive_def\<close>)
  moreover obtain r where "fst (GitCommit en defs (rollback_request req) h3) = Inr r"
    using GitCommit_Inr [OF i3] by blast
  moreover have "GitRestore en defs req h = GitCommit en defs (rollback_request req) h3"
    using sha env [OF alive'] alive' tgt f w3 cs(4)
    by (auto simp: GitRestore_def req git_alive_def fs_is_dir_def W_def split: option.splits)
  ultimately show ?thesis by (metis W_def prod.collapse)
qed

section \<open>A small git\<close>

text \<open>
  Its state: the staged files, the content of each file of each commit by the text
  \<^verbatim>\<open>sha:path\<close>, and the last commit. The name of a commit is longer than any text so far.
\<close>

type_synonym toy = "(string \<times> bytes) list \<times> (string, bytes) gomap \<times> string"

definition fresh_sha :: "(string, bytes) gomap \<Rightarrow> string" where
  "fresh_sha os = replicate (Suc (sum_list (map (length \<circ> fst) os))) CHR ''a''"

definition toy_text :: "bytes \<Rightarrow> string" where
  "toy_text b = map (\<lambda>w. char_of (unat w)) b"

definition toy_stage :: "string \<Rightarrow> fs \<Rightarrow> string list \<Rightarrow> (string \<times> bytes) list" where
  "toy_stage dir f ps =
     List.map_filter (\<lambda>p. case os_read_file f (to_path (fp_join [dir, p])) of Inl e \<Rightarrow> None | Inr b \<Rightarrow> Some (p, b)) ps"

definition toy_ok :: "string \<Rightarrow> cmd_result" where
  "toy_ok out = \<lparr>crStdout = out, crCombined = out, crOk = True\<rparr>"

definition toy_git :: "toy exec" where
  "toy_git c h =
     (case h of (f, (staged, os, tip)) \<Rightarrow>
        case cmArgs c of
          a # args \<Rightarrow>
            if a = ''add'' then (toy_ok '''', (f, (toy_stage (cmDir c) f (tl args), os, tip)))
            else if a = ''commit''
            then (toy_ok '''', (f, (staged, os @ map (\<lambda>(p, b). (fresh_sha os @ '':'' @ p, b)) staged, fresh_sha os)))
            else if a = ''rev-parse'' then (toy_ok tip, h)
            else if a = ''show''
            then ((case map_get os (hd args) of
                     None \<Rightarrow> (toy_ok '''')\<lparr>crOk := False\<rparr> | Some b \<Rightarrow> toy_ok (toy_text b)), h)
            else (toy_ok '''', h)
        | [] \<Rightarrow> (toy_ok '''', h))"

definition toy_env :: "toy env" where
  "toy_env = \<lparr>enExec = toy_git, enLookPath = (\<lambda>p. Some p), enCwd = ''/srv'', enExitSeen = (\<lambda>c h. True)\<rparr>"

definition toy_snap :: "toy snapshots" where
  "toy_snap h sha p = map_get (fst (snd (snd h))) (sha @ '':'' @ p)"

lemma toy_files: "fst (snd (toy_git c h)) = fst h"
  by (auto simp: toy_git_def split: prod.splits list.splits)

lemma toy_quiet: "git_quiet toy_env g"
  by (simp add: git_quiet_def toy_env_def toy_files)

lemma of_char_unat: "of_char (char_of (unat (w :: 8 word))) = w"
proof -
  have "(of_char (char_of (unat w)) :: 8 word) = of_nat (of_char (char_of (unat w) :: char))"
    by (simp only: of_nat_of_char)
  also have "(of_char (char_of (unat w) :: char) :: nat) = unat w mod 256" by simp
  also have "unat w mod 256 = unat w" using unsigned_less [of w, where ?'a = nat] by simp
  finally show ?thesis by simp
qed

lemma toy_text_bytes: "string_bytes (toy_text b) = b"
  by (induction b) (simp_all add: string_bytes_def toy_text_def of_char_unat)

lemma map_get_append: "map_get (xs @ ys) k = (case map_get xs k of None \<Rightarrow> map_get ys k | Some v \<Rightarrow> Some v)"
  by (induction xs) (auto simp: map_get_def)

lemma sum_list_ge: "x \<in> set xs \<Longrightarrow> x \<le> sum_list (xs :: nat list)"
  by (induction xs) auto

lemma fresh_sha_new: "map_get os (fresh_sha os @ t) = None"
proof -
  have "length k < length (fresh_sha os @ t)" if "(k, v) \<in> set os" for k v
    using sum_list_ge [of "length k" "map (length \<circ> fst) os"] that by (force simp: fresh_sha_def)
  then have "fresh_sha os @ t \<notin> fst ` set os" by force
  then show ?thesis by (simp add: map_get_None_iff)
qed

lemma toy_kept: "snap_kept toy_env g toy_snap"
  by (auto simp: snap_kept_def toy_env_def toy_snap_def toy_git_def map_get_append split: list.splits option.splits)

lemma toy_shown: "snap_shown toy_env g toy_snap"
  by (auto simp: snap_shown_def toy_env_def toy_snap_def toy_git_def git_command_def toy_ok_def toy_text_bytes)

lemma toy_stage_get:
  assumes "p \<in> set ps" "os_read_file f (to_path (fp_join [dir, p])) = Inr b"
  shows "map_get (map (\<lambda>(p, b). (s @ '':'' @ p, b)) (toy_stage dir f ps)) (s @ '':'' @ p) = Some b"
  using assms by (induction ps) (auto simp: toy_stage_def map_filter_simps map_get_def split: sum.splits)

lemma toy_taken: "snap_taken toy_env g toy_snap"
proof -
  have sp: "\<not> is_space CHR ''a''" "is_hex CHR ''a''" by code_simp+
  have hex: "trim_space (fresh_sha os) = fresh_sha os" "list_all is_hex (fresh_sha os)" "fresh_sha os \<noteq> []" for os
    using sp by (auto simp: trim_space_def trim_left_def fresh_sha_def list_all_iff rev_replicate
        simp del: replicate.simps)
  have a: "toy_git (git_command g (''add'' # ''--'' # ps)) (f, s, os, t) =
      (toy_ok '''', (f, (toy_stage (geWorkDir g) f ps, os, t)))" for ps f s os t
    by (simp add: toy_git_def git_command_def)
  have c: "toy_git (commit_command g req) (f, s, os, t) =
      (toy_ok '''', (f, (s, os @ map (\<lambda>(p, b). (fresh_sha os @ '':'' @ p, b)) s, fresh_sha os)))" for req f s os t
    by (simp add: toy_git_def commit_command_def git_command_def Let_def)
  have r: "toy_git (git_command g (''rev-parse'' # xs)) (f, s, os, t) = (toy_ok t, (f, s, os, t))" for xs f s os t
    by (simp add: toy_git_def git_command_def)
  show ?thesis
    unfolding snap_taken_def toy_env_def
    by (auto simp: a c r toy_snap_def toy_ok_def hex map_get_append fresh_sha_new toy_stage_get
        split: prod.splits option.splits) (use toy_stage_get [where s = "fresh_sha _"] in auto)
qed

section \<open>The properties\<close>

text \<open>
  A request path as the model of git takes it: names below the working directory, the first
  not the repository itself.
\<close>

definition plain_path :: "string list \<Rightarrow> bool" where
  "plain_path cs \<longleftrightarrow>
     cs \<noteq> [] \<and> list_all proper_name cs \<and> hd cs \<noteq> ''.git'' \<and> trim_space (str_join ''/'' cs) \<noteq> ''''"

text \<open>A file can be written at \<open>p\<close>, with the directories above it if they are missing.\<close>

definition has_room :: "fs \<Rightarrow> path \<Rightarrow> bool" where
  "has_room f p \<longleftrightarrow>
     \<not> fs_is_dir f p \<and>
     list_all (\<lambda>k. fs_get f (take k p) = None \<or> fs_is_dir f (take k p)) [0..<length p]"

text \<open>
  When git writes nowhere but in its repository, the history requests of an instance
  change no file outside its working directory: a commit changes only the repository, and a
  restore of a path that does not climb only the working directory, whatever the commit
  asked for and whether it succeeds.
\<close>

theorem history_stays_inside:
  fixes en :: "'w env"
  assumes "has_work_dir (enCwd en) defs i def" "git_quiet en (work_git (enCwd en) def)"
    and "git_alive (work_git (enCwd en) def) (fst h)" "gcInstanceId creq = i" "gsrInstanceId rreq = i"
    and "no_climb (gsrPath rreq)"
  shows "same_outside (below (work_path (enCwd en) def @ [''.git''])) (fst h) (fst (snd (GitCommit en defs creq h))) \<and>
    same_outside (below (work_path (enCwd en) def)) (fst h) (fst (snd (GitRestore en defs rreq h)))"
  using GitCommit_inside [OF assms(1-3) same_outside_refl assms(4)] GitRestore_inside [OF assms(1-3,5,6)]
  by (simp add: git_dir_work [OF assms(1)])


definition toy_home :: fs where
  "toy_home = example_fs @ [([''srv'', ''survival'', ''.git''], DirNode 493)]"

definition toy_commit :: GitCommitRequest where
  "toy_commit = \<lparr>gcInstanceId = ''survival'', gcPaths = [''a/x''], gcMessage = ''write'', gcAuthorName = ''ann'',
     gcAuthorEmail = '''', gcAllowEmpty = False\<rparr>"

definition toy_restore :: GitRestoreRequest where
  "toy_restore = \<lparr>gsrInstanceId = ''survival'', gsrPath = ''a/x'', gsrCommitSha = ''a'',
     gsrAuthorName = ''ann'', gsrAuthorEmail = ''''\<rparr>"

lemma toy_records: "git_records toy_env g toy_snap"
proof -
  have "snap_local g toy_snap"
    unfolding snap_local_def toy_snap_def by (metis ext)
  then show ?thesis by (simp add: git_records_def toy_kept toy_shown toy_taken)
qed

lemma toy_dir:
  "has_work_dir (enCwd toy_env) example_defs ''survival'' (example_instance ''survival'' ''survival'')"
  "git_alive (work_git (enCwd toy_env) (example_instance ''survival'' ''survival'')) toy_home"
  "work_path (enCwd toy_env) (example_instance ''survival'' ''survival'') = [''srv'', ''survival'']"
  by code_simp+

theorem history_stays_inside_witness:
  "same_outside (below ([''srv'', ''survival''] @ [''.git''])) toy_home
      (fst (snd (GitCommit toy_env example_defs toy_commit (toy_home, [], [], '''')))) \<and>
    same_outside (below [''srv'', ''survival'']) toy_home
      (fst (snd (GitRestore toy_env example_defs toy_restore (toy_home, [], [(''a:a/x'', [9])], ''''))))"
proof -
  have n: "gcInstanceId toy_commit = ''survival''" "gsrInstanceId toy_restore = ''survival''"
    "no_climb (gsrPath toy_restore)" by code_simp+
  note t = history_stays_inside [OF toy_dir(1) toy_quiet _ n, unfolded toy_dir(3)]
  show ?thesis
    using t [of "(toy_home, [], [], '''')"] t [of "(toy_home, [], [(''a:a/x'', [9])], '''')"] toy_dir(2) by simp
qed


end
