(* ===== verification/Web_Files.thy ===== *)
theory Web_Files
  imports Web_Instances Git_History
begin

text \<open>
  The file manager of the web server (\<^verbatim>\<open>internal/master/web/handler_file.go\<close>,
  \<^verbatim>\<open>handler_file_audit.go\<close>). A handler finds the agent that owns the instance, calls the
  agent's file manager, records the action in the audit log and starts a goroutine that
  commits the changed paths; the goroutine is the job beside the reply. The agents are the
  hosts that answer at an address, served by the model of the agent's own file manager and
  file history. Message sizes and deadlines of the calls are not modelled.
\<close>

section \<open>The state\<close>

record 'w file_agent =
  faEnv :: "'w env"
  faDefs :: inst_defs
  faHost :: "'w host"

record 'w file_server =
  fvServer :: GRPCServer
  fvAgents :: "(string, 'w file_agent) gomap"

type_synonym git_job = "string \<times> string list \<times> string" \<comment> \<open>instance, paths, verb\<close>

datatype call_error = CallUnavailable | CallFailed file_error | CallGit git_error

definition set_file_db :: "DB \<Rightarrow> 'w file_server \<Rightarrow> 'w file_server" where
  "set_file_db d s = s\<lparr>fvServer := (fvServer s)\<lparr>gsDB := d\<rparr>\<rparr>"

text \<open>\<open>dial\<close> tells whether gRPC accepts an address at all; it does not connect.\<close>

definition connectFileManager :: "(string \<Rightarrow> bool) \<Rightarrow> string \<Rightarrow> 'w file_server \<Rightarrow> string + string" where
  "connectFileManager dial instanceID s =
     (case GetInstanceOwner instanceID (fvServer s) of
        None \<Rightarrow> Inl ''the instance register did not''
      | Some agentID \<Rightarrow>
          (case GetAgentAddress agentID (fvServer s) of
             None \<Rightarrow> Inl ''the agent offline''
           | Some addr \<Rightarrow> if dial addr then Inr addr else Inl ''agent connection failed''))"

text \<open>A call that only reads, and one that changes the files of the agent.\<close>

definition query :: "string \<Rightarrow> ('w file_agent \<Rightarrow> file_error + 'r) \<Rightarrow> 'w file_server \<Rightarrow> call_error + 'r" where
  "query addr f s =
     (case map_get (fvAgents s) addr of
        None \<Rightarrow> Inl CallUnavailable
      | Some a \<Rightarrow> (case f a of Inl e \<Rightarrow> Inl (CallFailed e) | Inr r \<Rightarrow> Inr r))"

definition put_host :: "string \<Rightarrow> 'w file_agent \<Rightarrow> 'w host \<Rightarrow> 'w file_server \<Rightarrow> 'w file_server" where
  "put_host addr a h s = s\<lparr>fvAgents := map_put addr (a\<lparr>faHost := h\<rparr>) (fvAgents s)\<rparr>"

definition agent_call ::
  "string \<Rightarrow> (string \<Rightarrow> inst_defs \<Rightarrow> fs \<Rightarrow> (file_error + unit) \<times> fs) \<Rightarrow> 'w file_server \<Rightarrow>
   (call_error + unit) \<times> 'w file_server" where
  "agent_call addr op s =
     (case map_get (fvAgents s) addr of
        None \<Rightarrow> (Inl CallUnavailable, s)
      | Some a \<Rightarrow>
          (case op (enCwd (faEnv a)) (faDefs a) (fst (faHost a)) of
             (r, f) \<Rightarrow>
               (case r of Inl e \<Rightarrow> Inl (CallFailed e) | Inr u \<Rightarrow> Inr (),
                put_host addr a (f, snd (faHost a)) s)))"

section \<open>Who did what\<close>

definition auditFileAction ::
  "instant \<Rightarrow> user_context \<Rightarrow> string \<Rightarrow> string \<Rightarrow> string \<Rightarrow> string \<Rightarrow> DB \<Rightarrow> DB" where
  "auditFileAction now uc action instanceID path detail d =
     CreateAuditLog now
       \<lparr>aID = 0, aTimestamp = 0, aUserID = (if 0 < ucUserID uc then Some (ucUserID uc) else None),
        aUsername = (if ucUsername uc = '''' then ''system'' else ucUsername uc), aAction = action,
        aTargetType = ''file'', aTargetID = instanceID @ '':'' @ path, aTargetName = path,
        aFieldName = '''', aOldValue = '''', aNewValue = '''', aDetail = detail,
        aRolledBack = False, aCreatedAt = 0\<rparr> d"

definition audited ::
  "instant \<Rightarrow> user_context \<Rightarrow> string \<Rightarrow> string \<Rightarrow> string \<Rightarrow> string \<Rightarrow> 'w file_server \<Rightarrow> 'w file_server" where
  "audited now uc action instanceID path detail s =
     set_file_db (auditFileAction now uc action instanceID path detail (gsDB (fvServer s))) s"

definition commit_message :: "string \<Rightarrow> string \<Rightarrow> string list \<Rightarrow> string" where
  "commit_message username verb paths =
     take 200 (''['' @ username @ ''] '' @ verb @ '': '' @ str_join '', '' paths)"

definition commit_email :: "user_context \<Rightarrow> DB \<Rightarrow> string" where
  "commit_email uc d =
     (case GetUserByUsername (ucUsername uc) d of
        Inl e \<Rightarrow> ''user-'' @ itoa (ucUserID uc) @ ''@craftstack.local''
      | Inr u \<Rightarrow> replace_char CHR '' '' ''-'' (uUsername u) @ ''@craftstack.local'')"

text \<open>
  The goroutine: whatever it meets is only logged. It reads the user from the request
  context at the time it runs.
\<close>

definition gitCommitFiles :: "(string \<Rightarrow> bool) \<Rightarrow> user_context \<Rightarrow> git_job \<Rightarrow> 'w file_server \<Rightarrow> 'w file_server" where
  "gitCommitFiles dial uc job s =
     (case job of (instanceID, paths, verb) \<Rightarrow>
        case connectFileManager dial instanceID s of
          Inl e \<Rightarrow> s
        | Inr addr \<Rightarrow>
            (case map_get (fvAgents s) addr of
               None \<Rightarrow> s
             | Some a \<Rightarrow>
                 let (r, h) = GitCommit (faEnv a) (faDefs a)
                       \<lparr>gcInstanceId = instanceID, gcPaths = paths,
                        gcMessage = commit_message (ucUsername uc) verb paths, gcAuthorName = ucUsername uc,
                        gcAuthorEmail = commit_email uc (gsDB (fvServer s)), gcAllowEmpty = False\<rparr> (faHost a)
                 in put_host addr a h s))"

section \<open>Reading\<close>

definition apiListFiles ::
  "(string \<Rightarrow> bool) \<Rightarrow> string \<Rightarrow> string \<Rightarrow> 'w file_server \<Rightarrow> reply + string \<times> FileEntry list" where
  "apiListFiles dial i path s =
     (case connectFileManager dial i s of
        Inl e \<Rightarrow> Inl (Json 503 e)
      | Inr addr \<Rightarrow>
          (case query addr (\<lambda>a. ListDirectory 4096 (enCwd (faEnv a)) (faDefs a) i path (fst (faHost a))) s of
             Inl e \<Rightarrow> Inl (Json 500 '''') | Inr resp \<Rightarrow> Inr resp))"

definition read_call :: "string \<Rightarrow> string \<Rightarrow> string \<Rightarrow> 'w file_server \<Rightarrow> call_error + ReadFileResponse" where
  "read_call addr i path s =
     query addr (\<lambda>a. ReadFile (enCwd (faEnv a)) (faDefs a) i path (fst (faHost a))) s"

record read_reply =
  ryPath :: string
  ryContent :: string \<comment> \<open>base 64\<close>
  rySize :: nat
  ryTruncated :: bool

definition apiReadFile :: "(string \<Rightarrow> bool) \<Rightarrow> string \<Rightarrow> string \<Rightarrow> 'w file_server \<Rightarrow> reply + read_reply" where
  "apiReadFile dial i path s =
     (case connectFileManager dial i s of
        Inl e \<Rightarrow> Inl (Json 503 e)
      | Inr addr \<Rightarrow>
          (case read_call addr i path s of
             Inl e \<Rightarrow> Inl (Json 500 '''')
           | Inr resp \<Rightarrow>
               Inr \<lparr>ryPath = rrPath resp, ryContent = b64_encode (rrContent resp), rySize = rrSize resp,
                    ryTruncated = rrTruncated resp\<rparr>))"

text \<open>What follows the last separator of either kind.\<close>

definition download_name :: "string \<Rightarrow> string" where
  "download_name path = rev (takeWhile (\<lambda>c. c \<noteq> CHR ''/'' \<and> c \<noteq> CHR 0x5C) (rev path))"

function write_chunks :: "nat \<Rightarrow> bytes \<Rightarrow> bytes list" where
  "write_chunks n buf =
     (if buf = [] \<or> n = 0 then [] else take n buf # write_chunks n (drop n buf))"
  by auto
termination by (relation "measure (length \<circ> snd)") auto

declare write_chunks.simps [simp del]

record download =
  dlFilename :: string
  dlLength :: nat
  dlChunks :: "bytes list"

definition apiDownloadFile :: "(string \<Rightarrow> bool) \<Rightarrow> string \<Rightarrow> string \<Rightarrow> 'w file_server \<Rightarrow> reply + download" where
  "apiDownloadFile dial i path s =
     (case connectFileManager dial i s of
        Inl e \<Rightarrow> Inl (Json 503 e)
      | Inr addr \<Rightarrow>
          (case read_call addr i path s of
             Inl e \<Rightarrow> Inl (Json 500 '''')
           | Inr resp \<Rightarrow>
               Inr \<lparr>dlFilename = download_name path, dlLength = length (rrContent resp),
                    dlChunks = write_chunks (64 * 1024) (rrContent resp)\<rparr>))"

section \<open>Changing\<close>

text \<open>
  What most handlers do: connect, call, record and start the commit. The result is the
  state, the reply and the job.
\<close>

type_synonym 'w file_result = "'w file_server \<times> reply \<times> git_job option"

definition file_action ::
  "(string \<Rightarrow> bool) \<Rightarrow> instant \<Rightarrow> user_context \<Rightarrow> string \<Rightarrow>
   (string \<Rightarrow> inst_defs \<Rightarrow> fs \<Rightarrow> (file_error + unit) \<times> fs) \<Rightarrow> string \<Rightarrow> string \<Rightarrow> string \<Rightarrow> string list \<Rightarrow>
   'w file_server \<Rightarrow> 'w file_result" where
  "file_action dial now uc i op verb path detail paths s =
     (case connectFileManager dial i s of
        Inl e \<Rightarrow> (s, Json 503 e, None)
      | Inr addr \<Rightarrow>
          (case agent_call addr op s of
             (Inl e, s1) \<Rightarrow> (s1, Json 500 '''', None)
           | (Inr u, s1) \<Rightarrow> (audited now uc verb i path detail s1, Json 200 '''', Some (i, paths, verb))))"

definition byte_count :: "bytes \<Rightarrow> string" where
  "byte_count content = itoa (int (length content)) @ '' bytes''"

record write_request =
  wrPath :: string
  wrContent :: string
  wrCreateDirs :: bool

definition apiWriteFile ::
  "(string \<Rightarrow> bool) \<Rightarrow> instant \<Rightarrow> user_context \<Rightarrow> string \<Rightarrow> write_request option \<Rightarrow> 'w file_server \<Rightarrow> 'w file_result" where
  "apiWriteFile dial now uc i body s =
     (case body of
        None \<Rightarrow> (s, Json 400 ''invalid request'', None)
      | Some r \<Rightarrow>
          (case b64_decode (wrContent r) of
             None \<Rightarrow> (s, Json 400 ''invalid base64 inload'', None)
           | Some content \<Rightarrow>
               file_action dial now uc i
                 (\<lambda>cwd defs f. WriteFile cwd defs i (wrPath r) content (wrCreateDirs r) f)
                 ''write'' (wrPath r) (byte_count content) [wrPath r] s))"

definition apiDeleteFile ::
  "(string \<Rightarrow> bool) \<Rightarrow> instant \<Rightarrow> user_context \<Rightarrow> string \<Rightarrow> (string \<times> bool) option \<Rightarrow> 'w file_server \<Rightarrow> 'w file_result" where
  "apiDeleteFile dial now uc i body s =
     (case body of
        None \<Rightarrow> (s, Json 400 ''invalid request'', None)
      | Some (path, recursive) \<Rightarrow>
          file_action dial now uc i (\<lambda>cwd defs f. DeleteFile cwd defs i path recursive f)
            ''delete'' path '''' [path] s)"

definition apiCreateDir ::
  "(string \<Rightarrow> bool) \<Rightarrow> instant \<Rightarrow> user_context \<Rightarrow> string \<Rightarrow> string option \<Rightarrow> 'w file_server \<Rightarrow> 'w file_result" where
  "apiCreateDir dial now uc i body s =
     (case body of
        None \<Rightarrow> (s, Json 400 ''invalid request'', None)
      | Some path \<Rightarrow>
          file_action dial now uc i (\<lambda>cwd defs f. CreateDirectory cwd defs i path f)
            ''mkdir'' path '''' [path] s)"

definition apiRenameFile ::
  "(string \<Rightarrow> bool) \<Rightarrow> instant \<Rightarrow> user_context \<Rightarrow> string \<Rightarrow> (string \<times> string) option \<Rightarrow> 'w file_server \<Rightarrow> 'w file_result" where
  "apiRenameFile dial now uc i body s =
     (case body of
        None \<Rightarrow> (s, Json 400 ''invalid request'', None)
      | Some (oldPath, newPath) \<Rightarrow>
          file_action dial now uc i (\<lambda>cwd defs f. RenameFile cwd defs i oldPath newPath f)
            ''rename'' newPath (''from '' @ oldPath) [oldPath, newPath] s)"

definition apiCopyFile ::
  "(string \<Rightarrow> bool) \<Rightarrow> instant \<Rightarrow> user_context \<Rightarrow> string \<Rightarrow> (string \<times> string \<times> bool) option \<Rightarrow> 'w file_server \<Rightarrow>
   'w file_result" where
  "apiCopyFile dial now uc i body s =
     (case body of
        None \<Rightarrow> (s, Json 400 ''invalid request'', None)
      | Some (srcPath, dstPath, overwrite) \<Rightarrow>
          if srcPath = '''' \<or> dstPath = '''' then (s, Json 400 ''src_path and dst_path are required'', None)
          else file_action dial now uc i (\<lambda>cwd defs f. CopyFile cwd defs i srcPath dstPath overwrite f)
                 ''copy'' dstPath (''from '' @ srcPath) [dstPath] s)"

text \<open>A rename that fails is tried again as a copy and a deletion.\<close>

definition apiMoveFile ::
  "(string \<Rightarrow> bool) \<Rightarrow> instant \<Rightarrow> user_context \<Rightarrow> string \<Rightarrow> (string \<times> string) option \<Rightarrow> 'w file_server \<Rightarrow> 'w file_result" where
  "apiMoveFile dial now uc i body s =
     (case body of
        None \<Rightarrow> (s, Json 400 ''invalid request'', None)
      | Some (srcPath, dstPath) \<Rightarrow>
          if srcPath = '''' \<or> dstPath = '''' then (s, Json 400 ''src_path and dst_path are required'', None)
          else case connectFileManager dial i s of
            Inl e \<Rightarrow> (s, Json 503 e, None)
          | Inr addr \<Rightarrow>
              (case agent_call addr (\<lambda>cwd defs f. RenameFile cwd defs i srcPath dstPath f) s of
                 (Inr u, s1) \<Rightarrow>
                   (audited now uc ''move'' i dstPath (''from '' @ srcPath) s1, Json 200 '''',
                    Some (i, [srcPath, dstPath], ''move''))
               | (Inl e, s1) \<Rightarrow>
                   (case agent_call addr (\<lambda>cwd defs f. CopyFile cwd defs i srcPath dstPath False f) s1 of
                      (Inl e', s2) \<Rightarrow> (s2, Json 500 '''', None)
                    | (Inr u, s2) \<Rightarrow>
                        (case agent_call addr (\<lambda>cwd defs f. DeleteFile cwd defs i srcPath True f) s2 of
                           (Inl e', s3) \<Rightarrow> (s3, Json 500 ''copy ok, delete failed: '', None)
                         | (Inr u', s3) \<Rightarrow>
                             (audited now uc ''move'' i dstPath (''from '' @ srcPath @ '' (copy+delete)'') s3,
                              Json 200 ''moved (copy+delete fallback)'', Some (i, [srcPath, dstPath], ''move''))))))"

record batch_reply =
  btSucceeded :: nat
  btFailures :: "(string, call_error) gomap"

definition batch_step ::
  "instant \<Rightarrow> user_context \<Rightarrow> string \<Rightarrow> string \<Rightarrow> bool \<Rightarrow> string \<Rightarrow> 'w file_server \<times> batch_reply \<Rightarrow>
   'w file_server \<times> batch_reply" where
  "batch_step now uc i addr recursive p sb =
     (let (s, b) = sb in
      case agent_call addr (\<lambda>cwd defs f. DeleteFile cwd defs i p recursive f) s of
        (Inl e, s1) \<Rightarrow> (s1, b\<lparr>btFailures := map_put p e (btFailures b)\<rparr>)
      | (Inr u, s1) \<Rightarrow> (audited now uc ''delete'' i p ''batch'' s1, b\<lparr>btSucceeded := Suc (btSucceeded b)\<rparr>))"

definition apiBatchDeleteFiles ::
  "(string \<Rightarrow> bool) \<Rightarrow> instant \<Rightarrow> user_context \<Rightarrow> string \<Rightarrow> (string list \<times> bool) option \<Rightarrow> 'w file_server \<Rightarrow>
   'w file_server \<times> (reply + int \<times> batch_reply) \<times> git_job option" where
  "apiBatchDeleteFiles dial now uc i body s =
     (case body of
        None \<Rightarrow> (s, Inl (Json 400 ''invalid request''), None)
      | Some (paths, recursive) \<Rightarrow>
          if paths = [] then (s, Inl (Json 400 ''paths is required''), None)
          else case connectFileManager dial i s of
            Inl e \<Rightarrow> (s, Inl (Json 503 e), None)
          | Inr addr \<Rightarrow>
              let (s1, b) = fold (batch_step now uc i addr recursive) paths
                     (s, \<lparr>btSucceeded = 0, btFailures = []\<rparr>)
              in (s1, Inr (if btFailures b \<noteq> [] \<and> btSucceeded b = 0 then 500 else 200, b),
                  if 0 < btSucceeded b then Some (i, paths, ''batch-delete'') else None))"

text \<open>The form has a path, and the uploaded file its name and content.\<close>

definition apiUploadFile ::
  "(string \<Rightarrow> bool) \<Rightarrow> instant \<Rightarrow> user_context \<Rightarrow> string \<Rightarrow> string \<Rightarrow> (string \<times> bytes) option \<Rightarrow> 'w file_server \<Rightarrow>
   'w file_result" where
  "apiUploadFile dial now uc i path file s =
     (case file of
        None \<Rightarrow> (s, Json 400 ''file is missing'', None)
      | Some (filename, content) \<Rightarrow>
          let uploadPath = (if path = '''' \<or> path = ''.'' then filename else path @ ''/'' @ filename)
          in file_action dial now uc i (\<lambda>cwd defs f. WriteFile cwd defs i uploadPath content True f)
               ''upload'' uploadPath (byte_count content) [uploadPath] s)"

section \<open>History\<close>

definition apiFileRestore ::
  "(string \<Rightarrow> bool) \<Rightarrow> instant \<Rightarrow> user_context \<Rightarrow> string \<Rightarrow> (string \<times> string) option \<Rightarrow> 'w file_server \<Rightarrow>
   'w file_server \<times> reply" where
  "apiFileRestore dial now uc i body s =
     (case body of
        None \<Rightarrow> (s, Json 400 ''invalid request'')
      | Some (path, sha) \<Rightarrow>
          if path = '''' \<or> sha = '''' then (s, Json 400 ''path and commit_sha are required'')
          else case connectFileManager dial i s of
            Inl e \<Rightarrow> (s, Json 503 e)
          | Inr addr \<Rightarrow>
              (case map_get (fvAgents s) addr of
                 None \<Rightarrow> (s, Json 500 '''')
               | Some a \<Rightarrow>
                   (case GitRestore (faEnv a) (faDefs a)
                           \<lparr>gsrInstanceId = i, gsrPath = path, gsrCommitSha = sha,
                            gsrAuthorName = ucUsername uc,
                            gsrAuthorEmail = ucUsername uc @ ''@craftstack.local''\<rparr> (faHost a) of
                      (Inl e, h) \<Rightarrow> (put_host addr a h s, Json 500 '''')
                    | (Inr resp, h) \<Rightarrow>
                        if \<not> grSuccess resp then (put_host addr a h s, Json 400 (grMessage resp))
                        else (audited now uc ''restore'' i path (''rolled back to '' @ sha) (put_host addr a h s),
                              Json 200 (grMessage resp)))))"

definition apiFileHistory ::
  "(string \<Rightarrow> bool) \<Rightarrow> string \<Rightarrow> string \<Rightarrow> 'w file_server \<Rightarrow>
   'w file_server \<times> (reply + (string + GitCommitEntry list))" where
  "apiFileHistory dial i path s =
     (case connectFileManager dial i s of
        Inl e \<Rightarrow> (s, Inl (Json 503 e))
      | Inr addr \<Rightarrow>
          (case map_get (fvAgents s) addr of
             None \<Rightarrow> (s, Inl (Json 500 ''''))
           | Some a \<Rightarrow>
               (case GitLog (faEnv a) (faDefs a) i path 50 (faHost a) of
                  (Inl e, h) \<Rightarrow> (put_host addr a h s, Inl (Json 500 ''''))
                | (Inr resp, h) \<Rightarrow> (put_host addr a h s, Inr resp))))"

end
