(* ===== verification/Web_File_Properties.thy ===== *)
theory Web_File_Properties
  imports Web_Files
begin

text \<open>
  What the file manager of the web server promises: what is written through it is read
  back, every change is recorded with its author, nothing but the working directory of the
  instance on its own agent changes, and a download is the start of the file.
\<close>

section \<open>Requests\<close>

datatype web_file_req =
    WebWrite write_request | WebDelete string bool | WebMkdir string | WebRename string string
  | WebCopy string string bool | WebMove string string | WebUpload string string bytes

fun web_file ::
  "(string \<Rightarrow> bool) \<Rightarrow> instant \<Rightarrow> user_context \<Rightarrow> string \<Rightarrow> web_file_req \<Rightarrow> 'w file_server \<Rightarrow> 'w file_result" where
  "web_file dial now uc i (WebWrite r) s = apiWriteFile dial now uc i (Some r) s"
| "web_file dial now uc i (WebDelete p rc) s = apiDeleteFile dial now uc i (Some (p, rc)) s"
| "web_file dial now uc i (WebMkdir p) s = apiCreateDir dial now uc i (Some p) s"
| "web_file dial now uc i (WebRename a b) s = apiRenameFile dial now uc i (Some (a, b)) s"
| "web_file dial now uc i (WebCopy a b ow) s = apiCopyFile dial now uc i (Some (a, b, ow)) s"
| "web_file dial now uc i (WebMove a b) s = apiMoveFile dial now uc i (Some (a, b)) s"
| "web_file dial now uc i (WebUpload p n c) s = apiUploadFile dial now uc i p (Some (n, c)) s"

definition upload_path :: "string \<Rightarrow> string \<Rightarrow> string" where
  "upload_path p n = (if p = '''' \<or> p = ''.'' then n else p @ ''/'' @ n)"

fun web_paths :: "web_file_req \<Rightarrow> string list" where
  "web_paths (WebWrite r) = [wrPath r]"
| "web_paths (WebDelete p rc) = [p]"
| "web_paths (WebMkdir p) = [p]"
| "web_paths (WebRename a b) = [a, b]"
| "web_paths (WebCopy a b ow) = [a, b]"
| "web_paths (WebMove a b) = [a, b]"
| "web_paths (WebUpload p n c) = [upload_path p n]"

section \<open>Simple facts\<close>

lemma audited_simps [simp]:
  "fvAgents (audited now uc v i p d s) = fvAgents s"
  "gsOwners (fvServer (audited now uc v i p d s)) = gsOwners (fvServer s)"
  "gsAgents (fvServer (audited now uc v i p d s)) = gsAgents (fvServer s)"
  by (simp_all add: audited_def set_file_db_def)

lemma put_host_simps [simp]:
  "fvServer (put_host addr a h s) = fvServer s"
  "map_get (fvAgents (put_host addr a h s)) x = (if x = addr then Some (a\<lparr>faHost := h\<rparr>) else map_get (fvAgents s) x)"
  by (simp_all add: put_host_def go_map_simps)

lemma connect_cong:
  assumes "gsOwners (fvServer s') = gsOwners (fvServer s)" "gsAgents (fvServer s') = gsAgents (fvServer s)"
  shows "connectFileManager dial i s' = connectFileManager dial i s"
  using assms by (simp add: connectFileManager_def GetInstanceOwner_def GetAgentAddress_def split: option.split)

lemma connect_audited [simp]: "connectFileManager dial i (audited now uc v j p d s) = connectFileManager dial i s"
  by (rule connect_cong) simp_all

lemma connect_put_host [simp]: "connectFileManager dial i (put_host addr a h s) = connectFileManager dial i s"
  by (rule connect_cong) simp_all

lemma agent_call_Inr:
  assumes "agent_call addr op s = (Inr u, s')"
  obtains a f where "map_get (fvAgents s) addr = Some a" "op (enCwd (faEnv a)) (faDefs a) (fst (faHost a)) = (Inr (), f)"
    "s' = put_host addr a (f, snd (faHost a)) s"
  using assms by (auto simp: agent_call_def split: option.splits prod.splits sum.splits)

lemma agent_call_server: "agent_call addr op s = (r, s') \<Longrightarrow> fvServer s' = fvServer s"
  by (auto simp: agent_call_def split: option.splits prod.splits)

section \<open>Writing and reading\<close>

text \<open>
  C19. What is written through the web server is read back: when a write is answered with 200,
  a read of the same path of the same instance answers with a text that decodes to the bytes
  written, cut to the first 200 MiB and then marked as truncated, and with the full size.
\<close>

theorem web_write_then_read:
  fixes s :: "'w file_server"
  assumes "apiWriteFile dial now uc i (Some r) s = (s', Json 200 m, job)"
  shows "\<exists>content y. b64_decode (wrContent r) = Some content \<and> apiReadFile dial i (wrPath r) s' = Inr y \<and>
    b64_decode (ryContent y) = Some (take maxReadFileSize content) \<and> rySize y = length content \<and>
    ryTruncated y = (maxReadFileSize < length content)"
proof -
  obtain content where c: "b64_decode (wrContent r) = Some content"
    using assms by (auto simp: apiWriteFile_def split: option.splits)
  obtain addr where addr: "connectFileManager dial i s = Inr addr"
    using assms c by (auto simp: apiWriteFile_def file_action_def split: sum.splits)
  let ?op = "\<lambda>cwd defs f. WriteFile cwd defs i (wrPath r) content (wrCreateDirs r) f"
  obtain u s1 where k: "agent_call addr ?op s = (Inr u, s1)"
    and s': "s' = audited now uc ''write'' i (wrPath r) (byte_count content) s1"
    using assms c addr by (auto simp: apiWriteFile_def file_action_def split: sum.splits prod.splits)
  obtain a f where a: "map_get (fvAgents s) addr = Some a"
    and w: "WriteFile (enCwd (faEnv a)) (faDefs a) i (wrPath r) content (wrCreateDirs r) (fst (faHost a)) = (Inr (), f)"
    and s1: "s1 = put_host addr a (f, snd (faHost a)) s"
    using agent_call_Inr [OF k] by blast
  have "apiReadFile dial i (wrPath r) s' = Inr \<lparr>ryPath = wrPath r, ryContent = b64_encode (take maxReadFileSize content),
      rySize = length content, ryTruncated = (maxReadFileSize < length content)\<rparr>"
    using write_then_read [OF w] addr by (simp add: apiReadFile_def s' s1 read_call_def query_def)
  then show ?thesis using c by auto
qed

section \<open>What a request changes\<close>

text \<open>
  The agent at every address but \<open>addr\<close> stays as it is; the one at \<open>addr\<close> keeps its
  environment, its definitions, the state of its programs, and its files outside \<open>R\<close>.
\<close>

definition only_files :: "string \<Rightarrow> (path \<Rightarrow> bool) \<Rightarrow> 'w file_server \<Rightarrow> 'w file_server \<Rightarrow> bool" where
  "only_files addr R s s' \<longleftrightarrow>
     (\<forall>x. x \<noteq> addr \<longrightarrow> map_get (fvAgents s') x = map_get (fvAgents s) x) \<and>
     (case map_get (fvAgents s) addr of
        None \<Rightarrow> map_get (fvAgents s') addr = None
      | Some a \<Rightarrow> (\<exists>f. map_get (fvAgents s') addr = Some (a\<lparr>faHost := (f, snd (faHost a))\<rparr>) \<and>
          fs_ok f \<and> same_outside R (fst (faHost a)) f))"

lemma only_files_refl:
  "(\<And>a. map_get (fvAgents s) addr = Some a \<Longrightarrow> fs_ok (fst (faHost a))) \<Longrightarrow> only_files addr R s s"
  by (auto simp: only_files_def split: option.splits intro!: exI [of _ "fst (faHost _)"])

lemma only_files_audited [simp]: "only_files addr R s (audited now uc v i p d s') = only_files addr R s s'"
  by (simp add: only_files_def split: option.split)

text \<open>One call of a request that \<open>serve\<close> knows, after others that only changed files.\<close>

lemma only_files_call:
  assumes "only_files addr R s s1" "agent_call addr op s1 = (r, s2)"
    and op: "\<And>a f. map_get (fvAgents s) addr = Some a \<Longrightarrow> fs_ok f \<Longrightarrow> same_outside R (fst (faHost a)) f \<Longrightarrow>
      fs_ok (snd (op (enCwd (faEnv a)) (faDefs a) f)) \<and> same_outside R f (snd (op (enCwd (faEnv a)) (faDefs a) f))"
  shows "only_files addr R s s2"
proof (cases "map_get (fvAgents s) addr")
  case None
  then show ?thesis using assms(1,2) by (auto simp: only_files_def agent_call_def)
next
  case (Some a)
  then obtain f where f: "map_get (fvAgents s1) addr = Some (a\<lparr>faHost := (f, snd (faHost a))\<rparr>)" "fs_ok f"
    "same_outside R (fst (faHost a)) f"
    using assms(1) by (auto simp: only_files_def)
  obtain q g where o: "op (enCwd (faEnv a)) (faDefs a) f = (q, g)" by (rule prod.exhaust)
  have "fs_ok g \<and> same_outside R (fst (faHost a)) g" using op [OF Some f(2,3)] o same_outside_trans [OF f(3)] by auto
  moreover have "s2 = put_host addr (a\<lparr>faHost := (f, snd (faHost a))\<rparr>) (g, snd (faHost a)) s1"
    using assms(2) f(1) o by (auto simp: agent_call_def)
  ultimately show ?thesis using assms(1) Some by (auto simp: only_files_def)
qed

lemma file_action_only_files:
  assumes "connectFileManager dial i s = Inr addr"
    and "\<And>a. map_get (fvAgents s) addr = Some a \<Longrightarrow> fs_ok (fst (faHost a))"
    and "\<And>a f. map_get (fvAgents s) addr = Some a \<Longrightarrow> fs_ok f \<Longrightarrow> same_outside R (fst (faHost a)) f \<Longrightarrow>
      fs_ok (snd (op (enCwd (faEnv a)) (faDefs a) f)) \<and> same_outside R f (snd (op (enCwd (faEnv a)) (faDefs a) f))"
  shows "only_files addr R s (fst (file_action dial now uc i op v p d ps s))"
proof -
  obtain r s1 where k: "agent_call addr op s = (r, s1)" by (rule prod.exhaust)
  have "only_files addr R s s1" by (rule only_files_call [OF only_files_refl [OF assms(2)] k assms(3)])
  then show ?thesis using k assms(1) by (cases r) (simp_all add: file_action_def)
qed

lemma not_connected: "connectFileManager dial i s = Inl e \<Longrightarrow> fst (web_file dial now uc i q s) = s"
  by (cases q) (auto simp: apiWriteFile_def apiDeleteFile_def apiCreateDir_def apiRenameFile_def apiCopyFile_def
      apiMoveFile_def apiUploadFile_def file_action_def split: option.splits)

text \<open>The working directory of the instance on the agent at an address, ready for requests.\<close>

definition dir_at :: "string \<Rightarrow> string \<Rightarrow> path \<Rightarrow> 'w file_server \<Rightarrow> bool" where
  "dir_at addr i W s \<longleftrightarrow>
     (case map_get (fvAgents s) addr of
        None \<Rightarrow> True
      | Some a \<Rightarrow> is_abs (enCwd (faEnv a)) \<and>
          (case map_get (faDefs a) i of
             None \<Rightarrow> False
           | Some def \<Rightarrow> idWorkDir def \<noteq> '''' \<and> work_path (enCwd (faEnv a)) def = W \<and> W \<noteq> [] \<and>
               fs_ok (fst (faHost a)) \<and> fs_is_dir (fst (faHost a)) (butlast W)))"

lemma web_file_only_files:
  assumes conn: "connectFileManager dial i s = Inr addr" and dir: "dir_at addr i W s"
    and nc: "list_all no_climb (web_paths q)"
  shows "only_files addr (below W) s (fst (web_file dial now uc i q s))"
proof -
  have ok: "fs_ok (fst (faHost a))" if "map_get (fvAgents s) addr = Some a" for a
    using dir that by (auto simp: dir_at_def split: option.splits)
  have inside: "fs_ok (File_Service.serve (enCwd (faEnv a)) (faDefs a) i fr f) \<and>
      same_outside (below W) f (File_Service.serve (enCwd (faEnv a)) (faDefs a) i fr f)"
    if a: "map_get (fvAgents s) addr = Some a" and f: "fs_ok f" "same_outside (below W) (fst (faHost a)) f"
      and p: "list_all no_climb (req_paths fr)" for a f fr
  proof -
    obtain def where d: "map_get (faDefs a) i = Some def" "idWorkDir def \<noteq> ''''" "is_abs (enCwd (faEnv a))"
      "work_path (enCwd (faEnv a)) def = W" "W \<noteq> []" "fs_is_dir (fst (faHost a)) (butlast W)"
      using dir a by (auto simp: dir_at_def split: option.splits)
    have "\<not> below W (butlast W)" using below_length [of W "butlast W"] d(5) by (cases W) auto
    then have "fs_is_dir f (butlast W)" using d(6) f(2) by (simp add: same_outside_def fs_is_dir_def)
    then show ?thesis
      using serve_inside [OF d(3,1,2) f(1), of fr] d(4,5) p by blast
  qed
  note step = file_action_only_files [OF conn ok, where R = "below W"]
  show ?thesis
  proof (cases q)
    case (WebWrite r)
    show ?thesis
    proof (cases "b64_decode (wrContent r)")
      case None
      then show ?thesis using WebWrite only_files_refl [OF ok] by (simp add: apiWriteFile_def)
    next
      case (Some content)
      show ?thesis using inside [of _ _ "WriteReq (wrPath r) content (wrCreateDirs r)"] nc WebWrite Some
        by (auto simp: apiWriteFile_def intro!: step)
    qed
  next
    case (WebDelete p rc)
    then show ?thesis using inside [of _ _ "DeleteReq p rc"] nc by (auto simp: apiDeleteFile_def intro!: step)
  next
    case (WebMkdir p)
    then show ?thesis using inside [of _ _ "MkdirReq p"] nc by (auto simp: apiCreateDir_def intro!: step)
  next
    case (WebRename a b)
    then show ?thesis using inside [of _ _ "RenameReq a b"] nc by (auto simp: apiRenameFile_def intro!: step)
  next
    case (WebCopy a b ow)
    then show ?thesis using inside [of _ _ "CopyReq a b ow"] nc only_files_refl [OF ok]
      by (auto simp: apiCopyFile_def intro!: step)
  next
    case (WebUpload p n c)
    then show ?thesis using inside [of _ _ "WriteReq (upload_path p n) c True"] nc
      by (auto simp: apiUploadFile_def upload_path_def Let_def intro!: step)
  next
    case (WebMove a b)
    obtain r1 s1 where k1: "agent_call addr (\<lambda>cwd defs f. RenameFile cwd defs i a b f) s = (r1, s1)" by (rule prod.exhaust)
    obtain r2 s2 where k2: "agent_call addr (\<lambda>cwd defs f. CopyFile cwd defs i a b False f) s1 = (r2, s2)" by (rule prod.exhaust)
    obtain r3 s3 where k3: "agent_call addr (\<lambda>cwd defs f. DeleteFile cwd defs i a True f) s2 = (r3, s3)" by (rule prod.exhaust)
    have o1: "only_files addr (below W) s s1"
      by (rule only_files_call [OF only_files_refl [OF ok] k1])
        (use inside [of _ _ "RenameReq a b"] nc WebMove in auto)
    have o2: "only_files addr (below W) s s2"
      by (rule only_files_call [OF o1 k2]) (use inside [of _ _ "CopyReq a b False"] nc WebMove in auto)
    have o3: "only_files addr (below W) s s3"
      by (rule only_files_call [OF o2 k3]) (use inside [of _ _ "DeleteReq a True"] nc WebMove in auto)
    show ?thesis
      using WebMove o1 o2 o3 only_files_refl [OF ok] k1 k2 k3 conn
      by (cases r1; cases r2; cases r3) (simp_all add: apiMoveFile_def)
  qed
qed

section \<open>The properties\<close>


fun web_verb :: "web_file_req \<Rightarrow> string" where
  "web_verb (WebWrite r) = ''write''"
| "web_verb (WebDelete p rc) = ''delete''"
| "web_verb (WebMkdir p) = ''mkdir''"
| "web_verb (WebRename a b) = ''rename''"
| "web_verb (WebCopy a b ow) = ''copy''"
| "web_verb (WebMove a b) = ''move''"
| "web_verb (WebUpload p n c) = ''upload''"

text \<open>What a request leaves in the database: nothing, or the record of its success.\<close>

definition change_recorded ::
  "instant \<Rightarrow> user_context \<Rightarrow> string \<Rightarrow> web_file_req \<Rightarrow> 'w file_server \<Rightarrow> 'w file_result \<Rightarrow> bool" where
  "change_recorded now uc i q s res \<longleftrightarrow>
     (case res of
        (s', Redirect u, job) \<Rightarrow> False
      | (s', Json code m, job) \<Rightarrow>
          if code = 200
          then (\<exists>d ps. fvServer s' = (fvServer s)\<lparr>gsDB :=
                    auditFileAction now uc (web_verb q) i (last (web_paths q)) d (gsDB (fvServer s))\<rparr> \<and>
                  job = Some (i, ps, web_verb q) \<and> last (web_paths q) \<in> set ps)
          else fvServer s' = fvServer s \<and> job = None)"

lemma change_recorded_action:
  assumes "web_verb q = v" "last (web_paths q) = p" "p \<in> set ps"
  shows "change_recorded now uc i q s (file_action dial now uc i op v p d ps s)"
proof (cases "connectFileManager dial i s")
  case (Inl e)
  then show ?thesis by (simp add: change_recorded_def file_action_def)
next
  case (Inr addr)
  obtain r s1 where k: "agent_call addr op s = (r, s1)" by (rule prod.exhaust)
  show ?thesis
    using assms agent_call_server [OF k]
    by (cases r) (auto simp: change_recorded_def file_action_def Inr k audited_def set_file_db_def)
qed

lemma change_recorded_refused: "code \<noteq> 200 \<Longrightarrow> change_recorded now uc i q s (s, Json code m, None)"
  by (simp add: change_recorded_def)


lemma concat_write_chunks: "0 < n \<Longrightarrow> concat (write_chunks n buf) = buf"
  by (induction n buf rule: write_chunks.induct) (subst write_chunks.simps, auto)

lemma write_chunks_length: "c \<in> set (write_chunks n buf) \<Longrightarrow> length c \<le> n"
proof (induction n buf rule: write_chunks.induct)
  case (1 n buf)
  then show ?case by (subst (asm) write_chunks.simps) (auto split: if_splits)
qed

text \<open>
  A download is the start of the file: its chunks of at most 64 KiB put together are the
  first 200 MiB of the content, and the announced length is theirs. A longer file is cut
  without any sign of it, where a read marks it as truncated.
\<close>

theorem download_is_start:
  fixes s :: "'w file_server"
  assumes "apiDownloadFile dial i path s = Inr d" "connectFileManager dial i s = Inr addr"
    and "map_get (fvAgents s) addr = Some a" "resolveInstancePath (enCwd (faEnv a)) (faDefs a) i path = Inr p"
    and "os_read_file (fst (faHost a)) (to_path p) = Inr b"
  shows "concat (dlChunks d) = take maxReadFileSize b \<and> dlLength d = min maxReadFileSize (length b) \<and>
    (\<forall>c \<in> set (dlChunks d). length c \<le> 65536)"
proof -
  obtain m where "fs_get (fst (faHost a)) (to_path p) = Some (FileNode m b)"
    using assms(5) by (auto simp: os_read_file_def split: option.splits fnode.splits)
  then have "ReadFile (enCwd (faEnv a)) (faDefs a) i path (fst (faHost a)) =
    Inr \<lparr>rrPath = path, rrContent = take maxReadFileSize b, rrSize = length b,
         rrTruncated = (length b > maxReadFileSize)\<rparr>"
    by (simp add: ReadFile_def assms(4) os_stat_def os_read_file_def is_dir_node_def node_size_def)
  then have "d = \<lparr>dlFilename = download_name path, dlLength = length (take maxReadFileSize b),
      dlChunks = write_chunks (64 * 1024) (take maxReadFileSize b)\<rparr>"
    using assms(1-3) by (simp add: apiDownloadFile_def read_call_def query_def)
  then show ?thesis using write_chunks_length [of _ "64 * 1024"] by (auto simp: concat_write_chunks)
qed

section \<open>A server with one agent\<close>

definition still_env :: "unit env" where
  "still_env = \<lparr>enExec = (\<lambda>c h. (\<lparr>crStdout = '''', crCombined = '''', crOk = True\<rparr>, h)),
     enLookPath = (\<lambda>p. None), enCwd = ''/srv'', enExitSeen = (\<lambda>c h. True)\<rparr>"

definition demo_files :: "fs \<Rightarrow> unit file_server" where
  "demo_files f =
     \<lparr>fvServer = demo_server\<lparr>gsOwners := [(''survival'', ''n1'')],
        gsAgents := [(''n1'', \<lparr>caID = ''n1'', caName = ''alpha'', caAddress = ''10.0.0.5:9091'',
          caLastSeen = 0, caStatus = ''online''\<rparr>)]\<rparr>,
      fvAgents = [(''10.0.0.5:9091'', \<lparr>faEnv = still_env, faDefs = example_defs, faHost = (f, ())\<rparr>)]\<rparr>"

definition ann :: user_context where
  "ann = \<lparr>ucUserID = 3, ucUsername = ''ann'', ucRole = ''editor''\<rparr>"

definition demo_write :: write_request where
  "demo_write = \<lparr>wrPath = ''n/y'', wrContent = ''AwQ='', wrCreateDirs = True\<rparr>"

lemma demo_files_ready:
  "connectFileManager (\<lambda>a. True) ''survival'' (demo_files example_fs) = Inr ''10.0.0.5:9091''"
  "dir_at ''10.0.0.5:9091'' ''survival'' [''srv'', ''survival''] (demo_files example_fs)"
  by code_simp+

theorem web_write_then_read_witness:
  "\<exists>content y. b64_decode ''AwQ='' = Some content \<and>
     apiReadFile (\<lambda>a. True) ''survival'' ''n/y''
       (fst (apiWriteFile (\<lambda>a. True) 0 ann ''survival'' (Some demo_write) (demo_files example_fs))) = Inr y \<and>
     b64_decode (ryContent y) = Some (take maxReadFileSize content) \<and> rySize y = length content \<and>
     ryTruncated y = (maxReadFileSize < length content)"
proof -
  have "fst (snd (apiWriteFile (\<lambda>a. True) 0 ann ''survival'' (Some demo_write) (demo_files example_fs))) = Json 200 ''''"
    by code_simp
  then have w: "apiWriteFile (\<lambda>a. True) 0 ann ''survival'' (Some demo_write) (demo_files example_fs) =
    (fst (apiWriteFile (\<lambda>a. True) 0 ann ''survival'' (Some demo_write) (demo_files example_fs)), Json 200 '''',
     snd (snd (apiWriteFile (\<lambda>a. True) 0 ann ''survival'' (Some demo_write) (demo_files example_fs))))"
    by (metis prod.collapse)
  show ?thesis using web_write_then_read [OF w] by (simp add: demo_write_def)
qed


text \<open>A file larger than the limit, and its download.\<close>

definition demo_large :: fs where
  "demo_large = map_put [''srv'', ''survival'', ''big''] (FileNode 420 (replicate (Suc maxReadFileSize) 7)) example_fs"

theorem download_is_start_witness:
  "\<exists>d. apiDownloadFile (\<lambda>a. True) ''survival'' ''big'' (demo_files demo_large) = Inr d \<and>
     concat (dlChunks d) = replicate maxReadFileSize 7 \<and> dlLength d = maxReadFileSize"
proof -
  let ?a = "\<lparr>faEnv = still_env, faDefs = example_defs, faHost = (demo_large, ())\<rparr>"
  have r: "resolveInstancePath ''/srv'' example_defs ''survival'' ''big'' = Inr ''/srv/survival/big''"
    "to_path ''/srv/survival/big'' = [''srv'', ''survival'', ''big'']" by code_simp+
  have c: "connectFileManager (\<lambda>a. True) ''survival'' (demo_files demo_large) = Inr ''10.0.0.5:9091''"
    by (simp add: connectFileManager_def GetInstanceOwner_def GetAgentAddress_def demo_files_def map_get_def)
  have m: "map_get (fvAgents (demo_files demo_large)) ''10.0.0.5:9091'' = Some ?a"
    by (simp add: demo_files_def map_get_def)
  have f: "os_read_file demo_large [''srv'', ''survival'', ''big''] = Inr (replicate (Suc maxReadFileSize) 7)"
    by (simp add: demo_large_def os_read_file_def fs_get_put del: replicate.simps)
  have "\<exists>x. ReadFile ''/srv'' example_defs ''survival'' ''big'' demo_large = Inr x"
    by (simp add: ReadFile_def r os_stat_def demo_large_def os_read_file_def fs_get_put is_dir_node_def
        del: replicate.simps)
  then obtain d where d: "apiDownloadFile (\<lambda>a. True) ''survival'' ''big'' (demo_files demo_large) = Inr d"
    by (auto simp: apiDownloadFile_def c read_call_def query_def m still_env_def simp del: replicate.simps)
  have p: "resolveInstancePath (enCwd (faEnv ?a)) (faDefs ?a) ''survival'' ''big'' = Inr ''/srv/survival/big''"
    "os_read_file (fst (faHost ?a)) (to_path ''/srv/survival/big'') = Inr (replicate (Suc maxReadFileSize) 7)"
    using r f by (simp_all add: still_env_def del: replicate.simps)
  show ?thesis using download_is_start [OF d c m p] d by (auto simp del: replicate.simps)
qed

end
