(* ===== verification/Web_Backups.thy ===== *)
theory Web_Backups
  imports Web_Instances Agent_Service
begin

text \<open>
  Backups and database queries of the web server (\<^verbatim>\<open>internal/master/web/handler_backup.go\<close>,
  \<^verbatim>\<open>handler_database.go\<close>). A handler finds the agent that owns the instance and calls its
  control or command service; the agents are the hosts that answer at an address, served by
  the model of the agent's own service. An error of a call gives the same status as an
  unsuccessful response, and its text is left out. Deadlines are not modelled.
\<close>

section \<open>The state\<close>

record 'w node_host =
  nhEnv :: "'w env"
  nhAgent :: agent
  nhHost :: "'w host"

record 'w backup_server =
  bvServer :: GRPCServer
  bvAgents :: "(string, 'w node_host) gomap"

definition set_backup_db :: "DB \<Rightarrow> 'w backup_server \<Rightarrow> 'w backup_server" where
  "set_backup_db d s = s\<lparr>bvServer := (bvServer s)\<lparr>gsDB := d\<rparr>\<rparr>"

definition put_node :: "string \<Rightarrow> 'w node_host \<Rightarrow> 'w backup_server \<Rightarrow> 'w backup_server" where
  "put_node addr n s = s\<lparr>bvAgents := map_put addr n (bvAgents s)\<rparr>"

text \<open>The identifier and the address of the agent, or the reply when it cannot be reached.\<close>

definition backup_target ::
  "(string \<Rightarrow> bool) \<Rightarrow> string \<Rightarrow> 'w backup_server \<Rightarrow> reply + string \<times> string" where
  "backup_target dial i s =
     (case GetInstanceOwner i (bvServer s) of
        None \<Rightarrow> Inl (Json 404 ''the instance register did not'')
      | Some agentID \<Rightarrow>
          (case GetAgentAddress agentID (bvServer s) of
             None \<Rightarrow> Inl (Json 503 ''the agent offline'')
           | Some addr \<Rightarrow> if dial addr then Inr (agentID, addr) else Inl (Json 500 ''agent connection failed'')))"

definition shown_name :: "string \<Rightarrow> DB \<Rightarrow> string" where
  "shown_name i d = (case GetInstance i d of Inl e \<Rightarrow> i | Inr inst \<Rightarrow> iName inst)"

section \<open>Lists\<close>

definition handleBackups :: "'w backup_server \<Rightarrow> Instance list" where
  "handleBackups s = overlayInstanceStatus (bvServer s) (ListInstances '''' (gsDB (bvServer s)))"

definition apiListBackups :: "string \<Rightarrow> 'w backup_server \<Rightarrow> Backup list" where
  "apiListBackups i s = ListBackups i 50 (gsDB (bvServer s))"

definition htmxBackupList :: "string \<Rightarrow> 'w backup_server \<Rightarrow> Backup list" where
  "htmxBackupList i s = ListBackups i 20 (gsDB (bvServer s))"

definition apiSyncHistory :: "'w backup_server \<Rightarrow> SyncRecord list" where
  "apiSyncHistory s = ListSyncHistory 50 (gsDB (bvServer s))"

definition htmxSyncHistory :: "'w backup_server \<Rightarrow> SyncRecord list" where
  "htmxSyncHistory s = ListSyncHistory 20 (gsDB (bvServer s))"

section \<open>Creating and restoring\<close>

definition manual_row :: "string \<Rightarrow> backup_result \<Rightarrow> Backup" where
  "manual_row i resp =
     \<lparr>bID = 0, bInstanceID = i, bFilePath = backup_result.brFilePath resp,
      bFileSize = int (backup_result.brFileSize resp), bChecksum = backup_result.brChecksum resp,
      bTriggerType = ''manual'', bStatus = ''completed'', bCreatedAt = 0\<rparr>"

text \<open>A refused insertion is only logged.\<close>

definition record_manual :: "instant \<Rightarrow> user_context \<Rightarrow> string \<Rightarrow> backup_result \<Rightarrow> DB \<Rightarrow> DB" where
  "record_manual now uc i resp d =
     (let d1 = (case DB_CreateBackup now (manual_row i resp) d of Inl e \<Rightarrow> d | Inr d' \<Rightarrow> d');
          name = shown_name i d1;
          p = backup_result.brFilePath resp
      in audit now uc ''backup'' ''backup'' i name '''' '''' p (''create backup: '' @ name @ arrow @ p) d1)"

definition apiCreateBackup ::
  "(zip_entry list \<Rightarrow> bytes) \<Rightarrow> (bytes \<Rightarrow> string) \<Rightarrow> (string \<Rightarrow> int) \<Rightarrow> string \<Rightarrow> (string \<Rightarrow> bool) \<Rightarrow> instant \<Rightarrow>
   user_context \<Rightarrow> string \<Rightarrow> 'w backup_server \<Rightarrow> 'w backup_server \<times> (reply + backup_result)" where
  "apiCreateBackup zipEnc sha mtime stamp dial now uc i s =
     (case backup_target dial i s of
        Inl r \<Rightarrow> (s, Inl r)
      | Inr (agentID, addr) \<Rightarrow>
          (case map_get (bvAgents s) addr of
             None \<Rightarrow> (s, Inl (Json 500 ''''))
           | Some n \<Rightarrow>
               (case agent_BackupInstance zipEnc sha mtime stamp (nhEnv n) i ''manual'' (nhAgent n) (nhHost n) of
                  (Inl e, h) \<Rightarrow> (put_node addr (n\<lparr>nhHost := h\<rparr>) s, Inl (Json 500 ''''))
                | (Inr resp, h) \<Rightarrow>
                    (set_backup_db (record_manual now uc i resp (gsDB (bvServer s)))
                       (put_node addr (n\<lparr>nhHost := h\<rparr>) s), Inr resp))))"

text \<open>The arrow of the restore message, between two blanks, in UTF-8.\<close>

definition back_arrow :: string where
  "back_arrow = [CHR '' '', CHR 0xE2, CHR 0x86, CHR 0x90, CHR '' '']"

definition apiRestoreBackup ::
  "(bytes \<Rightarrow> zip_entry list option) \<Rightarrow> (string \<Rightarrow> bool) \<Rightarrow> instant \<Rightarrow> user_context \<Rightarrow> string \<Rightarrow>
   (string \<times> bool) option \<Rightarrow> 'w backup_server \<Rightarrow> 'w backup_server \<times> reply" where
  "apiRestoreBackup zipDec dial now uc i body s =
     (case body of
        None \<Rightarrow> (s, Json 400 ''invalid request'')
      | Some (backupPath, stopBefore) \<Rightarrow>
          if backupPath = '''' then (s, Json 400 ''backup path required'')
          else case backup_target dial i s of
            Inl r \<Rightarrow> (s, r)
          | Inr (agentID, addr) \<Rightarrow>
              (case map_get (bvAgents s) addr of
                 None \<Rightarrow> (s, Json 500 '''')
               | Some n \<Rightarrow>
                   (case agent_RestoreBackup zipDec (nhEnv n) i backupPath stopBefore (nhAgent n) (nhHost n) of
                      ((e, a), h) \<Rightarrow>
                        let s1 = put_node addr (n\<lparr>nhAgent := a, nhHost := h\<rparr>) s;
                            name = shown_name i (gsDB (bvServer s))
                        in if e \<noteq> None then (s1, Json 500 '''')
                           else (set_backup_db
                                   (audit now uc ''restore'' ''backup'' i name '''' '''' backupPath
                                      (''restore backup: '' @ name @ back_arrow @ backupPath) (gsDB (bvServer s))) s1,
                                 Json 200 ''''))))"

section \<open>Queries\<close>

definition is_database :: "string \<Rightarrow> bool" where
  "is_database ty \<longleftrightarrow> ty \<in> set [''mysql'', ''postgresql'', ''mongodb'', ''redis'']"

definition handleDatabaseBrowser :: "string \<Rightarrow> 'w backup_server \<Rightarrow> reply + Instance" where
  "handleDatabaseBrowser i s =
     (case GetInstance i (gsDB (bvServer s)) of
        Inl e \<Rightarrow> Inl (Json 404 ''instance not found'')
      | Inr inst \<Rightarrow>
          if \<not> is_database (iInstanceType inst) then Inl (Json 400 ''database type instanceonly support'')
          else Inr (if IsAgentOnline (iNodeID inst) (bvServer s) then inst else inst\<lparr>iStatus := ''offline''\<rparr>))"

definition truncateStr :: "string \<Rightarrow> nat \<Rightarrow> string" where
  "truncateStr t maxLen = (if length t \<le> maxLen then t else take maxLen t @ ''...'')"

text \<open>\<open>run\<close> executes the command of a container of the agent at the address.\<close>

definition apiExecuteQuery ::
  "(string \<Rightarrow> docker_run) \<Rightarrow> (string \<Rightarrow> bool) \<Rightarrow> instant \<Rightarrow> user_context \<Rightarrow> string \<Rightarrow> string option \<Rightarrow>
   'w backup_server \<Rightarrow> 'w backup_server \<times> (reply + string)" where
  "apiExecuteQuery run dial now uc i body s =
     (case body of
        None \<Rightarrow> (s, Inl (Json 400 ''invalid request''))
      | Some q \<Rightarrow>
          if trim_space q = '''' then (s, Inl (Json 400 ''query is empty''))
          else case GetInstance i (gsDB (bvServer s)) of
            Inl e \<Rightarrow> (s, Inl (Json 404 ''instance not found''))
          | Inr inst \<Rightarrow>
              (case backup_target dial i s of
                 Inl r \<Rightarrow> (s, Inl r)
               | Inr (agentID, addr) \<Rightarrow>
                   (case map_get (bvAgents s) addr of
                      None \<Rightarrow> (s, Inl (Json 500 ''''))
                    | Some n \<Rightarrow>
                        (case agent_SendCommand (run addr) i q (nhAgent n) of
                           Inl e \<Rightarrow> (s, Inl (Json 200 ''''))
                         | Inr output \<Rightarrow>
                             (set_backup_db
                                (audit now uc ''query'' ''instance'' i (iName inst) '''' '''' ''''
                                   (''DB query execute: '' @ truncateStr q 100) (gsDB (bvServer s))) s,
                              Inr output)))))"

end
