(* ===== verification/Web_Backup_Properties.thy ===== *)
theory Web_Backup_Properties
  imports Web_Backups Agent_Files
begin

text \<open>
  What the backups of the web server promise: a backup that was created and recorded brings
  the files back when it is restored, and what is recorded describes the archive on the
  agent. The agent's own retention does not reach the records of the master: an old backup
  stays listed after its archive is gone.
\<close>

section \<open>The agent behind an instance\<close>

definition owner_agent :: "(string \<Rightarrow> bool) \<Rightarrow> string \<Rightarrow> 'w backup_server \<Rightarrow> 'w node_host option" where
  "owner_agent dial i s =
     (case backup_target dial i s of Inl r \<Rightarrow> None | Inr (agentID, addr) \<Rightarrow> map_get (bvAgents s) addr)"

definition node_files :: "'w node_host \<Rightarrow> fs" where
  "node_files n = fst (nhHost n)"

definition node_work :: "'w node_host \<Rightarrow> string \<Rightarrow> string option" where
  "node_work n i = map_option idWorkDir (map_get (agDefs (nhAgent n)) i)"

lemma backup_target_simps [simp]:
  "backup_target dial i (set_backup_db d s) = backup_target dial i s"
  "backup_target dial i (put_node addr n s) = backup_target dial i s"
  by (simp_all add: backup_target_def set_backup_db_def put_node_def GetInstanceOwner_def GetAgentAddress_def
      split: option.splits)

lemma node_simps [simp]:
  "bvAgents (set_backup_db d s) = bvAgents s" "bvAgents (put_node addr n s) = map_put addr n (bvAgents s)"
  "gsDB (bvServer (set_backup_db d s)) = d" "bvServer (put_node addr n s) = bvServer s"
  by (simp_all add: set_backup_db_def put_node_def)

section \<open>Retention only removes\<close>

lemma delete_all_removes:
  "delete_all dir ns f = (ds, f') \<Longrightarrow> fs_get f' q = fs_get f q \<or> fs_get f' q = None"
proof (induction ns arbitrary: f ds f')
  case (Cons n ns)
  show ?case
  proof (cases "os_remove (dir @ [n]) f")
    case (Inl e)
    then show ?thesis using Cons by simp
  next
    case (Inr f1)
    obtain es f2 where r: "delete_all dir ns f1 = (es, f2)" by (rule prod.exhaust)
    then have "f' = f2" using Cons.prems Inr by simp
    then show ?thesis using Cons.IH [OF r] os_remove_get(2) [OF Inr, of q] by (metis (full_types))
  qed
qed simp

lemma retention_removes:
  "EnforceRetention mtime cwd bd m i f = (ds, f') \<Longrightarrow> fs_get f' q = fs_get f q \<or> fs_get f' q = None"
  by (auto simp: EnforceRetention_def Let_def split: if_splits prod.splits dest: delete_all_removes)

lemma CreateBackup_describes:
  assumes "CreateBackup zipEnc sha cwd bd i src label stamp f = (Inr res, f1)"
    and "os_read_file f1 (os_path cwd (backup_result.brFilePath res)) = Inr c"
  shows "backup_result.brFileSize res = length c \<and> backup_result.brChecksum res = sha c"
  using assms
  by (auto simp: CreateBackup_def Let_def split: sum.splits prod.splits walk_end.splits
      dest!: os_write_file_get(3))

section \<open>What the requests do\<close>

lemma create_backup_effect:
  assumes "apiCreateBackup zipEnc sha mtime stamp dial now uc i s = (s1, Inr res)"
  obtains n wd f1 n1 where "owner_agent dial i s = Some n" "node_work n i = Some wd"
    "CreateBackup zipEnc sha (enCwd (nhEnv n)) (acBackupDir (agCfg (nhAgent n))) i wd ''manual'' stamp (node_files n) =
       (Inr res, f1)"
    "owner_agent dial i s1 = Some n1" "nhEnv n1 = nhEnv n" "nhAgent n1 = nhAgent n"
    "\<And>q. fs_get (node_files n1) q = fs_get f1 q \<or> fs_get (node_files n1) q = None"
    "gsDB (bvServer s1) = record_manual now uc i res (gsDB (bvServer s))"
proof -
  obtain ag addr where t: "backup_target dial i s = Inr (ag, addr)"
    using assms by (auto simp: apiCreateBackup_def split: sum.splits)
  obtain n where n: "map_get (bvAgents s) addr = Some n"
    using assms t by (auto simp: apiCreateBackup_def split: option.splits)
  obtain r h where k: "agent_BackupInstance zipEnc sha mtime stamp (nhEnv n) i ''manual'' (nhAgent n) (nhHost n) = (r, h)"
    by (rule prod.exhaust)
  have r: "r = Inr res" and s1: "s1 = set_backup_db (record_manual now uc i res (gsDB (bvServer s)))
      (put_node addr (n\<lparr>nhHost := h\<rparr>) s)"
    using assms t n k by (auto simp: apiCreateBackup_def split: sum.splits)
  obtain p def where d: "managed_def i (nhAgent n) = Some (p, def)"
    using k r by (auto simp: agent_BackupInstance_def split: option.splits)
  have l: "str_default ''manual'' ''manual'' = ''manual''" by (simp add: str_default_def)
  obtain x f1 where c: "CreateBackup zipEnc sha (enCwd (nhEnv n)) (acBackupDir (agCfg (nhAgent n))) i (idWorkDir def)
      ''manual'' stamp (fst (nhHost n)) = (x, f1)" by (rule prod.exhaust)
  obtain ds f2 where e: "EnforceRetention mtime (enCwd (nhEnv n)) (acBackupDir (agCfg (nhAgent n)))
      (nat (acBackupMaxCount (agCfg (nhAgent n)))) i f1 = (ds, f2)" by (rule prod.exhaust)
  have x: "x = Inr res" and h: "h = (f2, snd (nhHost n))"
    using k r d c e by (auto simp: agent_BackupInstance_def l split: sum.splits)
  show thesis
  proof (rule that [of n "idWorkDir def" f1 "n\<lparr>nhHost := h\<rparr>"])
    show "node_work n i = Some (idWorkDir def)"
      using d by (auto simp: node_work_def managed_def_def split: option.splits)
    show "fs_get (node_files (n\<lparr>nhHost := h\<rparr>)) q = fs_get f1 q \<or> fs_get (node_files (n\<lparr>nhHost := h\<rparr>)) q = None" for q
      using retention_removes [OF e, of q] by (simp add: node_files_def h)
  qed (use t n c x s1 in \<open>simp_all add: owner_agent_def node_files_def go_map_simps\<close>)
qed

lemma agent_restore_done:
  assumes "agent_RestoreBackup zipDec en i bp stop a h = ((None, a'), h')"
  shows "\<exists>p def q f1. managed_def i a = Some (p, def) \<and> (q = h \<or> stop \<and> q = snd (proc_Stop en p h)) \<and>
    RestoreBackup zipDec (enCwd en) bp (idWorkDir def) (fst q) = (None, f1) \<and> fst h' = f1"
proof -
  obtain p def where d: "managed_def i a = Some (p, def)"
    using assms by (cases "managed_def i a") (auto simp: agent_RestoreBackup_def split: if_splits)
  obtain e p1 h1 where st: "proc_Stop en p h = ((e, p1), h1)" by (metis prod.exhaust)
  define q where "q = (if stop \<and> mgState p = StateRunning then h1 else h)"
  obtain x f1 where r: "RestoreBackup zipDec (enCwd en) bp (idWorkDir def) (fst q) = (x, f1)" by (rule prod.exhaust)
  have "x = None \<and> fst h' = f1"
    using assms r by (auto simp: agent_RestoreBackup_def d st q_def split: if_splits)
  moreover have "q = h \<or> stop \<and> q = snd (proc_Stop en p h)" by (simp add: q_def st)
  ultimately show ?thesis using d r by blast
qed

lemma restore_backup_effect:
  assumes "apiRestoreBackup zipDec dial now uc i (Some (bp, stop)) s = (s1, Json 200 m)"
  obtains n wd h n1 f1 where "owner_agent dial i s = Some n" "node_work n i = Some wd"
    "h = nhHost n \<or> (\<exists>p r. stop \<and> proc_Stop (nhEnv n) p (nhHost n) = (r, h))"
    "RestoreBackup zipDec (enCwd (nhEnv n)) bp wd (fst h) = (None, f1)"
    "owner_agent dial i s1 = Some n1" "node_files n1 = f1"
proof -
  have bp: "bp \<noteq> ''''" using assms by (auto simp: apiRestoreBackup_def)
  obtain ag addr where t: "backup_target dial i s = Inr (ag, addr)"
  proof (cases "backup_target dial i s")
    case (Inl r)
    then have "backup_target dial i s = Inl (Json 200 m)" using assms bp by (simp add: apiRestoreBackup_def)
    then show ?thesis by (simp add: backup_target_def split: option.splits if_splits)
  qed (use that in \<open>auto split: prod.splits\<close>)
  obtain n where n: "map_get (bvAgents s) addr = Some n"
    using assms t bp by (cases "map_get (bvAgents s) addr") (simp_all add: apiRestoreBackup_def)
  obtain e a h' where k: "agent_RestoreBackup zipDec (nhEnv n) i bp stop (nhAgent n) (nhHost n) = ((e, a), h')"
    by (metis prod.exhaust)
  have e: "e = None" and o: "owner_agent dial i s1 = Some (n\<lparr>nhAgent := a, nhHost := h'\<rparr>)"
    using assms unfolding apiRestoreBackup_def
    by (simp_all add: bp t n k Let_def owner_agent_def go_map_simps split: if_splits)
      (auto simp: t go_map_simps)
  obtain p def q f1 where r: "managed_def i (nhAgent n) = Some (p, def)"
    "q = nhHost n \<or> stop \<and> q = snd (proc_Stop (nhEnv n) p (nhHost n))"
    "RestoreBackup zipDec (enCwd (nhEnv n)) bp (idWorkDir def) (fst q) = (None, f1)" "fst h' = f1"
    using agent_restore_done [OF k [unfolded e]] by blast
  show thesis
  proof (rule that [of n "idWorkDir def" q f1 "n\<lparr>nhAgent := a, nhHost := h'\<rparr>"])
    show "q = nhHost n \<or> (\<exists>p r. stop \<and> proc_Stop (nhEnv n) p (nhHost n) = (r, q))"
      using r(2) by (metis prod.collapse)
    show "node_work n i = Some (idWorkDir def)"
      using r(1) by (auto simp: node_work_def managed_def_def split: option.splits)
  qed (use t n r o in \<open>simp_all add: owner_agent_def node_files_def\<close>)
qed


section \<open>The properties\<close>

text \<open>The directories fit: the archives are neither inside the working directory nor around it.\<close>

definition backup_apart :: "'w node_host \<Rightarrow> string \<Rightarrow> string \<Rightarrow> bool" where
  "backup_apart n wd path \<longleftrightarrow>
     target_ok wd \<and> fp_clean wd = wd \<and> fs_is_dir (node_files n) (os_path (enCwd (nhEnv n)) wd) \<and>
     \<not> has_prefix wd (acBackupDir (agCfg (nhAgent n))) \<and> \<not> has_prefix (acBackupDir (agCfg (nhAgent n))) wd \<and>
     \<not> below (os_path (enCwd (nhEnv n)) wd) (os_path (enCwd (nhEnv n)) path)"

text \<open>What stopping the instance may do to the files of the agent: only its directory changes.\<close>

lemma stop_keeps_archive:
  assumes "h = h0 \<or> (\<exists>p r. stop \<and> proc_Stop en p h0 = (r, h))"
    and "stop \<longrightarrow> keeps_files en (below W)" and "fs_ok (fst h0)" and "\<not> below W q"
  shows "os_read_file (fst h) q = os_read_file (fst h0) q"
proof -
  have "same_outside (below W) (fst h0) (fst h)"
    using assms(1-3) stays.proc_Stop_rel [of en _ h0 _ h "below W"] by (auto simp: stays_in_def)
  then show ?thesis using assms(4) by (simp add: same_outside_def os_read_file_def)
qed

text \<open>
  C35. A backup made through the web server is a backup: after a successful creation, and with
  anything happening to the files in between as long as the archive itself is untouched, a
  successful restore with the path of the reply gives every file of the working directory
  the content it had when the backup was made. This includes the retention the agent applies
  after the creation and the stop of the instance before the restore, which may only change
  the working directory.
\<close>

theorem web_backup_roundtrip:
  fixes s t :: "'w backup_server"
  assumes zip: "\<And>es. zipDec (zipEnc es) = Some es"
    and before: "owner_agent dial i s = Some n" "node_work n i = Some wd" "fs_ok (node_files n)"
    and apart: "backup_apart n wd (backup_result.brFilePath res)"
    and create: "apiCreateBackup zipEnc sha mtime stamp dial now uc i s = (s1, Inr res)"
    and after: "owner_agent dial i s1 = Some n1"
    and later: "owner_agent dial i t = Some k" "node_work k i = Some wd" "enCwd (nhEnv k) = enCwd (nhEnv n)"
      "fs_ok (node_files k)" "stop \<longrightarrow> keeps_files (nhEnv k) (below (os_path (enCwd (nhEnv k)) wd))"
      "os_read_file (node_files k) (os_path (enCwd (nhEnv n)) (backup_result.brFilePath res)) =
       os_read_file (node_files n1) (os_path (enCwd (nhEnv n)) (backup_result.brFilePath res))"
    and restore: "apiRestoreBackup zipDec dial now' uc' i (Some (backup_result.brFilePath res, stop)) t = (t1, Json 200 m)"
      "owner_agent dial i t1 = Some k1"
    and old: "os_read_file (node_files n) (os_path (enCwd (nhEnv n)) wd @ u) = Inr b"
  shows "os_read_file (node_files k1) (os_path (enCwd (nhEnv n)) wd @ u) = Inr b"
proof -
  let ?p = "os_path (enCwd (nhEnv n)) (backup_result.brFilePath res)"
  obtain f1 where c: "CreateBackup zipEnc sha (enCwd (nhEnv n)) (acBackupDir (agCfg (nhAgent n))) i wd ''manual'' stamp
      (node_files n) = (Inr res, f1)"
    and ret: "\<And>q. fs_get (node_files n1) q = fs_get f1 q \<or> fs_get (node_files n1) q = None"
    by (rule create_backup_effect [OF create]) (use before after in auto)
  obtain h f2 where st: "h = nhHost k \<or> (\<exists>p r. stop \<and> proc_Stop (nhEnv k) p (nhHost k) = (r, h))"
    and r: "RestoreBackup zipDec (enCwd (nhEnv k)) (backup_result.brFilePath res) wd (fst h) = (None, f2)"
    and f2: "node_files k1 = f2"
    by (rule restore_backup_effect [OF restore(1)]) (use later restore(2) in auto)
  have out: "\<not> below (os_path (enCwd (nhEnv k)) wd) ?p" using apart later(3) by (simp add: backup_apart_def)
  have hp: "os_read_file (fst h) ?p = os_read_file (node_files k) ?p"
    using stop_keeps_archive [OF st later(5) _ out] later(4) by (simp add: node_files_def)
  have "\<exists>c. os_read_file (fst h) ?p = Inr c"
    using r later(3) by (auto simp: RestoreBackup_def split: sum.splits)
  then have "fs_get (node_files n1) ?p \<noteq> None" using hp later(6) by (auto simp: os_read_file_iff)
  then have "fs_get (node_files n1) ?p = fs_get f1 ?p" using ret [of ?p] by auto
  then have arch: "os_read_file (fst h) ?p = os_read_file f1 ?p" using hp later(6) by (simp add: os_read_file_def)
  show ?thesis
    unfolding f2
    by (rule restores_backup [OF zip before(3) _ _ _ _ _ _ c refl arch _ r [unfolded later(3)] old])
      (use apart in \<open>auto simp: backup_apart_def\<close>)
qed

text \<open>
  What the master records about a manual backup is true of the archive: the creation adds
  a completed manual record of the instance, and as long as the file at the recorded path is
  there after the agent's retention, its length and checksum are the recorded ones.
\<close>

theorem manual_backup_described:
  fixes s :: "'w backup_server"
  assumes "apiCreateBackup zipEnc sha mtime stamp dial now uc i s = (s1, Inr res)"
    and "i \<in> instance_ids (gsDB (bvServer s))" and "owner_agent dial i s1 = Some n1"
  shows "\<exists>r \<in> set (at_rows (backups (gsDB (bvServer s1)))).
    at_seq (backups (gsDB (bvServer s))) < bID r \<and> bInstanceID r = i \<and> bTriggerType r = ''manual'' \<and>
    bStatus r = ''completed'' \<and>
    (\<forall>c. os_read_file (node_files n1) (os_path (enCwd (nhEnv n1)) (bFilePath r)) = Inr c \<longrightarrow>
       bFileSize r = int (length c) \<and> bChecksum r = sha c)"
proof -
  obtain n wd f1 m where c: "CreateBackup zipEnc sha (enCwd (nhEnv n)) (acBackupDir (agCfg (nhAgent n))) i wd ''manual'' stamp
      (node_files n) = (Inr res, f1)"
    and m: "owner_agent dial i s1 = Some m" "nhEnv m = nhEnv n"
    and ret: "\<And>q. fs_get (node_files m) q = fs_get f1 q \<or> fs_get (node_files m) q = None"
    and d: "gsDB (bvServer s1) = record_manual now uc i res (gsDB (bvServer s))"
    by (rule create_backup_effect [OF assms(1)]) (rule that, assumption+)
  have n1: "m = n1" "enCwd (nhEnv n1) = enCwd (nhEnv n)" using m assms(3) by simp_all
  have row: "(manual_row i res)\<lparr>bID := at_seq (backups (gsDB (bvServer s))) + 1, bCreatedAt := current_timestamp now\<rparr> \<in>
      set (at_rows (backups (gsDB (bvServer s1))))"
    using assms(2) by (simp add: d record_manual_def DB_CreateBackup_def manual_row_def Let_def audit_def
        CreateAuditLog_def auto_insert_def)
  have described: "backup_result.brFileSize res = length c \<and> backup_result.brChecksum res = sha c"
    if "os_read_file (node_files n1) (os_path (enCwd (nhEnv n1)) (backup_result.brFilePath res)) = Inr c" for c
  proof -
    have "os_read_file f1 (os_path (enCwd (nhEnv n1)) (backup_result.brFilePath res)) = Inr c"
      using that ret [of "os_path (enCwd (nhEnv n1)) (backup_result.brFilePath res)"] n1(1)
      by (auto simp: os_read_file_iff)
    then show ?thesis using CreateBackup_describes [OF c] n1(2) by simp
  qed
  show ?thesis by (rule bexI [OF _ row]) (auto simp: manual_row_def dest: described)
qed


section \<open>Examples\<close>

definition idle_env :: "unit env" where
  "idle_env = \<lparr>enExec = (\<lambda>c h. (\<lparr>crStdout = '''', crCombined = '''', crOk = True\<rparr>, h)),
     enLookPath = (\<lambda>p. None), enCwd = ''/srv'', enExitSeen = (\<lambda>c h. True)\<rparr>"

definition mc_agent :: "int \<Rightarrow> agent" where
  "mc_agent keep =
     (New idle_env (setAgentDefaults ''host'' (demo_cfg\<lparr>acBackupMaxCount := keep\<rparr>)) (example_fs, ()))
       \<lparr>agInstances := [(''mc'', \<lparr>mgID = ''mc'', mgName = ''mc'', mgType = ''minecraft'',
          mgContainer = ''craftstack-mc'', mgState = StateRunning, mgPid = 7\<rparr>)],
        agDefs := [(''mc'', example_instance ''mc'' ''survival'')]\<rparr>"

definition demo_backups :: "int \<Rightarrow> unit backup_server" where
  "demo_backups keep =
     \<lparr>bvServer = demo_server\<lparr>gsOwners := [(''mc'', ''n1'')],
        gsAgents := [(''n1'', \<lparr>caID = ''n1'', caName = ''alpha'', caAddress = ''10.0.0.5:9091'',
          caLastSeen = 0, caStatus = ''online''\<rparr>)]\<rparr>,
      bvAgents = [(''10.0.0.5:9091'', \<lparr>nhEnv = idle_env, nhAgent = mc_agent keep, nhHost = (example_fs, ())\<rparr>)]\<rparr>"

definition make_backup :: "string \<Rightarrow> instant \<Rightarrow> unit backup_server \<Rightarrow> unit backup_server \<times> (reply + backup_result)" where
  "make_backup stamp now =
     apiCreateBackup plain_zip (\<lambda>b. ''sum'') (\<lambda>n. if n = ''mc_manual_1.zip'' then 1 else 2) stamp (\<lambda>a. True) now no_user ''mc''"

text \<open>Between backup and restore the only file of the instance is overwritten.\<close>

definition spoilt :: "unit backup_server \<Rightarrow> unit backup_server" where
  "spoilt s = s\<lparr>bvAgents := map (\<lambda>(a, n). (a, n\<lparr>nhHost :=
     (case os_write_file [''srv'', ''survival'', ''a'', ''x''] [9] 420 (fst (nhHost n)) of Inl e \<Rightarrow> [] | Inr f \<Rightarrow> f, ())\<rparr>))
     (bvAgents s)\<rparr>"

definition demo_node_of :: "unit backup_server \<Rightarrow> unit node_host" where
  "demo_node_of s = the (owner_agent (\<lambda>a. True) ''mc'' s)"

lemma idle_keeps: "keeps_files idle_env R"
  by (simp add: idle_env_def keeps_files_def same_outside_def)

definition demo_restore :: "unit backup_server \<Rightarrow> unit backup_server \<times> reply" where
  "demo_restore = apiRestoreBackup plain_unzip (\<lambda>a. True) 1 no_user ''mc'' (Some (''backups/mc_manual_1.zip'', True))"

definition demo_result :: backup_result where
  "demo_result = backup_result.make ''backups/mc_manual_1.zip'' 703 ''sum''"

lemma demo_found: "\<not> Option.is_none (owner_agent (\<lambda>a. True) ''mc'' s) \<Longrightarrow> owner_agent (\<lambda>a. True) ''mc'' s = Some (demo_node_of s)"
  by (cases "owner_agent (\<lambda>a. True) ''mc'' s") (simp_all add: demo_node_of_def)

lemma demo_made:
  "make_backup ''1'' 0 (demo_backups 10) = (fst (make_backup ''1'' 0 (demo_backups 10)), Inr demo_result)"
  by (rule prod_eqI, simp) (unfold demo_result_def backup_result.make_def, code_simp)

lemma demo_created:
  "apiCreateBackup plain_zip (\<lambda>b. ''sum'') (\<lambda>n. if n = ''mc_manual_1.zip'' then 1 else 2) ''1'' (\<lambda>a. True) 0 no_user ''mc''
     (demo_backups 10) = (fst (make_backup ''1'' 0 (demo_backups 10)), Inr demo_result)"
  using demo_made by (metis make_backup_def)

lemma demo_owner: "owner_agent (\<lambda>a. True) ''mc'' (demo_backups k) =
    Some \<lparr>nhEnv = idle_env, nhAgent = mc_agent k, nhHost = (example_fs, ())\<rparr>"
  by (simp add: owner_agent_def backup_target_def demo_backups_def GetInstanceOwner_def GetAgentAddress_def map_get_def)

lemma map_get_map_snd: "map_get (map (\<lambda>(a, n). (a, g n)) xs) k = map_option g (map_get xs k)"
  by (induction xs) (auto simp: map_get_def)

lemma spoilt_env:
  assumes "owner_agent (\<lambda>a. True) ''mc'' s = Some n"
  shows "nhEnv (demo_node_of (spoilt s)) = nhEnv n"
proof -
  have "backup_target d i (spoilt s) = backup_target d i s" for d i
    by (simp add: backup_target_def spoilt_def cong: option.case_cong)
  then show ?thesis
    using assms by (auto simp: demo_node_of_def owner_agent_def spoilt_def map_get_map_snd split: sum.splits)
qed

theorem web_backup_roundtrip_witness:
  "let s1 = fst (make_backup ''1'' 0 (demo_backups 10)); t1 = fst (demo_restore (spoilt s1))
   in os_read_file (node_files (demo_node_of (spoilt s1))) [''srv'', ''survival'', ''a'', ''x''] = Inr [9] \<and>
      os_read_file (node_files (demo_node_of t1)) [''srv'', ''survival'', ''a'', ''x''] = Inr [1, 2]"
proof -
  let ?s = "demo_backups 10"
  let ?s1 = "fst (make_backup ''1'' 0 ?s)"
  let ?t1 = "fst (demo_restore (spoilt ?s1))"
  have p: "os_path (enCwd (nhEnv (demo_node_of ?s))) ''survival'' @ [''a'', ''x''] = [''srv'', ''survival'', ''a'', ''x'']"
    by code_simp
  have env: "nhEnv (demo_node_of (spoilt ?s1)) = idle_env"
  proof -
    obtain n m where "owner_agent (\<lambda>a. True) ''mc'' ?s = Some n" "owner_agent (\<lambda>a. True) ''mc'' ?s1 = Some m"
      "nhEnv m = nhEnv n"
      using create_backup_effect [OF demo_created] by metis
    then show ?thesis using spoilt_env [of ?s1 m] demo_owner [of 10] by auto
  qed
  have path: "backup_result.brFilePath demo_result = ''backups/mc_manual_1.zip''"
    by (simp add: demo_result_def backup_result.make_def)
  have restored: "apiRestoreBackup plain_unzip (\<lambda>a. True) 1 no_user ''mc'' (Some (backup_result.brFilePath demo_result, True))
      (spoilt ?s1) = (?t1, Json 200 '''')"
    unfolding path demo_restore_def [symmetric, THEN fun_cong] by (rule prod_eqI, simp) code_simp
  have "os_read_file (node_files (demo_node_of ?t1)) (os_path (enCwd (nhEnv (demo_node_of ?s))) ''survival'' @ [''a'', ''x'']) = Inr [1, 2]"
  proof (rule web_backup_roundtrip [OF plain_unzip_zip demo_found _ _ _ demo_created demo_found demo_found _ _ _ _ _ restored demo_found,
        unfolded path env])
  qed (simp add: idle_keeps | code_simp)+
  moreover have "os_read_file (node_files (demo_node_of (spoilt ?s1))) [''srv'', ''survival'', ''a'', ''x''] = Inr [9]" by code_simp
  ultimately show ?thesis unfolding p Let_def by simp
qed


theorem manual_backup_described_witness:
  "\<exists>r \<in> set (at_rows (backups (gsDB (bvServer (fst (make_backup ''1'' 0 (demo_backups 10))))))).
     bInstanceID r = ''mc'' \<and> bFilePath r = ''backups/mc_manual_1.zip'' \<and> bChecksum r = ''sum''"
proof -
  let ?s1 = "fst (make_backup ''1'' 0 (demo_backups 10))"
  have i: "''mc'' \<in> instance_ids (gsDB (bvServer (demo_backups 10)))" by code_simp
  have o: "\<not> Option.is_none (owner_agent (\<lambda>a. True) ''mc'' ?s1)" by code_simp
  obtain r where r: "r \<in> set (at_rows (backups (gsDB (bvServer ?s1))))" "bInstanceID r = ''mc''"
    and b: "\<And>c. os_read_file (node_files (demo_node_of ?s1)) (os_path (enCwd (nhEnv (demo_node_of ?s1))) (bFilePath r)) = Inr c \<Longrightarrow>
      bChecksum r = ''sum''"
    using manual_backup_described [OF demo_created i demo_found [OF o]] by blast
  have only: "map bFilePath (at_rows (backups (gsDB (bvServer ?s1)))) = [''backups/mc_manual_1.zip'']" by code_simp
  then have f: "bFilePath r = ''backups/mc_manual_1.zip''" using r(1) by auto
  have "\<not> (case os_read_file (node_files (demo_node_of ?s1)) (os_path (enCwd (nhEnv (demo_node_of ?s1))) ''backups/mc_manual_1.zip'')
      of Inl e \<Rightarrow> True | Inr c \<Rightarrow> False)" by code_simp
  then have "bChecksum r = ''sum''" using b by (auto simp: f split: sum.splits)
  then show ?thesis using r f by blast
qed

end
