(* ===== verification/Log_Pipeline.thy ===== *)
theory Log_Pipeline
  imports Log_Buffer "HOL-Library.Sublist" "HOL-Library.Multiset"
begin

text \<open>
  The way of a log line from a container to the history of the master: the readers of
  \<^verbatim>\<open>docker logs\<close> fill the channel of the process (\<^verbatim>\<open>internal/agent/process/docker.go\<close>), the
  log loop of the agent keeps one forwarder per instance and a forwarder sends batches
  (\<^verbatim>\<open>internal/agent/log_streamer.go\<close>), the master broadcasts what it receives
  (\<^verbatim>\<open>internal/master/grpc_metrics_service.go\<close>). All of them run at the same time; a state
  changes by one event of one of them, \<open>None\<close> when the event cannot happen. A stream may
  refuse a batch, or take it and lose it when it breaks.
\<close>

section \<open>The state\<close>

text \<open>
  \<open>lcPushing\<close> are lines whose reader has made room and waits to put them in. What was written
  and how many lines were dropped for others is kept for the statements only.
\<close>

record log_channel =
  lcQueue :: "string list"
  lcPushing :: "string list"
  lcClosed :: bool
  lcWritten :: "string list"
  lcDropped :: nat

definition logChCap :: nat where
  "logChCap = 1000"

definition new_log_channel :: log_channel where
  "new_log_channel = \<lparr>lcQueue = [], lcPushing = [], lcClosed = False, lcWritten = [], lcDropped = 0\<rparr>"

record log_proc =
  lpChan :: nat
  lpRunning :: bool

datatype fwd_phase = Opening | Streaming | Waiting | Finished | Gone

text \<open>\<open>fwSent\<close> and \<open>fwLost\<close> are for the statements: what the master got, and how much was lost.\<close>

record forwarder =
  fwInst :: string
  fwChan :: nat
  fwCancelled :: bool
  fwPhase :: fwd_phase
  fwBatch :: "string list"
  fwSent :: "string list"
  fwLost :: nat

text \<open>The forwarders are numbered as they were started; \<open>laActive\<close> is the map of the loop.\<close>

record log_agent =
  laProcs :: "(string, log_proc) gomap"
  laChannels :: "log_channel list"
  laActive :: "(string, nat \<times> nat) gomap"
  laForwarders :: "forwarder list"
  laMaster :: log_state
  laShown :: "(string \<times> string \<times> instant) list"

definition new_log_agent :: log_agent where
  "new_log_agent =
     \<lparr>laProcs = [], laChannels = [], laActive = [], laForwarders = [], laMaster = new_log_state, laShown = []\<rparr>"

definition on_channel :: "nat \<Rightarrow> (log_channel \<Rightarrow> log_channel) \<Rightarrow> log_agent \<Rightarrow> log_agent" where
  "on_channel c g a = a\<lparr>laChannels := (laChannels a)[c := g (laChannels a ! c)]\<rparr>"

definition on_forwarder :: "nat \<Rightarrow> (forwarder \<Rightarrow> forwarder) \<Rightarrow> log_agent \<Rightarrow> log_agent" where
  "on_forwarder n g a = a\<lparr>laForwarders := (laForwarders a)[n := g (laForwarders a ! n)]\<rparr>"

section \<open>The process\<close>

text \<open>A start makes a new channel.\<close>

definition proc_starts :: "string \<Rightarrow> log_agent \<Rightarrow> log_agent" where
  "proc_starts i a =
     a\<lparr>laProcs := map_put i \<lparr>lpChan = length (laChannels a), lpRunning = True\<rparr> (laProcs a),
       laChannels := laChannels a @ [new_log_channel]\<rparr>"

definition enqueue :: "string \<Rightarrow> log_channel \<Rightarrow> log_channel" where
  "enqueue l ch = ch\<lparr>lcQueue := lcQueue ch @ [l], lcWritten := lcWritten ch @ [l]\<rparr>"

text \<open>A reader has a line: it goes into the channel, or the oldest one is taken out for it.\<close>

definition read_line :: "string \<Rightarrow> log_channel \<Rightarrow> log_channel" where
  "read_line l ch =
     (if length (lcQueue ch) < logChCap then enqueue l ch
      else ch\<lparr>lcQueue := tl (lcQueue ch), lcDropped := Suc (lcDropped ch), lcPushing := lcPushing ch @ [l]\<rparr>)"

definition push_line :: "nat \<Rightarrow> log_channel \<Rightarrow> log_channel" where
  "push_line k ch =
     (enqueue (lcPushing ch ! k) ch)\<lparr>lcPushing := take k (lcPushing ch) @ drop (Suc k) (lcPushing ch)\<rparr>"

definition close_channel :: "log_channel \<Rightarrow> log_channel" where
  "close_channel ch = ch\<lparr>lcClosed := True\<rparr>"

section \<open>The loop of the agent\<close>

definition cancel_forwarder :: "nat \<Rightarrow> log_agent \<Rightarrow> log_agent" where
  "cancel_forwarder n = on_forwarder n (\<lambda>f. f\<lparr>fwCancelled := True\<rparr>)"

definition new_forwarder :: "string \<Rightarrow> nat \<Rightarrow> forwarder" where
  "new_forwarder i c =
     \<lparr>fwInst = i, fwChan = c, fwCancelled = False, fwPhase = Opening, fwBatch = [], fwSent = [], fwLost = 0\<rparr>"

definition start_forwarder :: "string \<Rightarrow> log_proc \<Rightarrow> log_agent \<Rightarrow> log_agent" where
  "start_forwarder i p a =
     (if \<not> lpRunning p then a
      else a\<lparr>laActive := map_put i (length (laForwarders a), lpChan p) (laActive a),
             laForwarders := laForwarders a @ [new_forwarder i (lpChan p)]\<rparr>)"

definition visit_instance :: "string \<Rightarrow> log_agent \<Rightarrow> log_agent" where
  "visit_instance i a =
     (case map_get (laProcs a) i of
        None \<Rightarrow> a
      | Some p \<Rightarrow>
          (case map_get (laActive a) i of
             Some (n, c) \<Rightarrow>
               if c = lpChan p then a
               else start_forwarder i p ((cancel_forwarder n a)\<lparr>laActive := map_del i (laActive a)\<rparr>)
           | None \<Rightarrow> start_forwarder i p a))"

definition log_tick :: "log_agent \<Rightarrow> log_agent" where
  "log_tick a = fold visit_instance (map fst (laProcs a)) a"

text \<open>A forwarder that has returned removes the entry of its instance, whoever made it.\<close>

definition forwarder_gone :: "nat \<Rightarrow> log_agent \<Rightarrow> log_agent" where
  "forwarder_gone n a =
     (on_forwarder n (\<lambda>f. f\<lparr>fwPhase := Gone\<rparr>) a)
       \<lparr>laActive := map_del (fwInst (laForwarders a ! n)) (laActive a)\<rparr>"

section \<open>The master\<close>

text \<open>\<open>osLine\<close> is the line made from operating system metrics, which the agents do not send.\<close>

definition receive_report :: "string \<Rightarrow> string option \<Rightarrow> string list \<Rightarrow> instant \<Rightarrow> log_state \<Rightarrow> log_state option" where
  "receive_report i osLine logLines now m =
     broadcast_all (map (\<lambda>l. (i, l, now)) ((case osLine of None \<Rightarrow> [] | Some l \<Rightarrow> [l]) @ logLines)) m"

section \<open>Sending\<close>

datatype sending = Delivered instant | Lost | Refused

text \<open>The batch is empty after a send that succeeds, and kept otherwise.\<close>

definition sendBatch :: "sending \<Rightarrow> nat \<Rightarrow> log_agent \<Rightarrow> log_agent option" where
  "sendBatch out n a =
     (let f = laForwarders a ! n in
      if fwBatch f = [] then Some a
      else case out of
        Delivered now \<Rightarrow>
          (case receive_report (fwInst f) None (fwBatch f) now (laMaster a) of
             None \<Rightarrow> None
           | Some m \<Rightarrow>
               Some (on_forwarder n (\<lambda>f. f\<lparr>fwBatch := [], fwSent := fwSent f @ fwBatch f\<rparr>)
                       (a\<lparr>laMaster := m, laShown := laShown a @ map (\<lambda>l. (fwInst f, l, now)) (fwBatch f)\<rparr>)))
      | Lost \<Rightarrow> Some (on_forwarder n (\<lambda>f. f\<lparr>fwBatch := [], fwLost := fwLost f + length (fwBatch f)\<rparr>) a)
      | Refused \<Rightarrow> Some a)"

text \<open>Leaving \<^verbatim>\<open>runLogStream\<close>: its batch is gone.\<close>

definition leave_stream :: "fwd_phase \<Rightarrow> nat \<Rightarrow> log_agent \<Rightarrow> log_agent" where
  "leave_stream ph n = on_forwarder n (\<lambda>f. f\<lparr>fwPhase := ph, fwBatch := [], fwLost := fwLost f + length (fwBatch f)\<rparr>)"

text \<open>A send within the loop: a refusal leaves the stream and waits for the next attempt.\<close>

definition send_or_leave :: "sending \<Rightarrow> nat \<Rightarrow> log_agent \<Rightarrow> log_agent option" where
  "send_or_leave out n a =
     (if fwBatch (laForwarders a ! n) \<noteq> [] \<and> out = Refused then Some (leave_stream Waiting n a)
      else sendBatch out n a)"

definition take_line :: "sending \<Rightarrow> nat \<Rightarrow> log_agent \<Rightarrow> log_agent option" where
  "take_line out n a =
     (let f = laForwarders a ! n;
          ch = laChannels a ! fwChan f;
          a1 = on_forwarder n (\<lambda>f. f\<lparr>fwBatch := fwBatch f @ [hd (lcQueue ch)]\<rparr>)
                 (on_channel (fwChan f) (\<lambda>ch. ch\<lparr>lcQueue := tl (lcQueue ch)\<rparr>) a)
      in if length (fwBatch f) + 1 \<ge> 10 then send_or_leave out n a1 else Some a1)"

text \<open>The last batch when the channel is closed or the forwarder cancelled; its error is ignored.\<close>

definition finish_stream :: "sending \<Rightarrow> nat \<Rightarrow> log_agent \<Rightarrow> log_agent option" where
  "finish_stream out n a = map_option (leave_stream Finished n) (sendBatch out n a)"

section \<open>The events\<close>

datatype log_event =
    LogStart string             \<comment> \<open>the container of an instance is started\<close>
  | LogExit string              \<comment> \<open>its end is noticed and the channel closed\<close>
  | LogRead nat string          \<comment> \<open>a reader has a line for a channel\<close>
  | LogPush nat nat             \<comment> \<open>a waiting reader puts its line in\<close>
  | LogTick                     \<comment> \<open>the loop of the agent\<close>
  | FwOpen nat bool             \<comment> \<open>a forwarder opens its stream, or cannot\<close>
  | FwRetry nat                 \<comment> \<open>three seconds after a failure\<close>
  | FwGiveUp nat                \<comment> \<open>cancelled while waiting\<close>
  | FwTake nat sending          \<comment> \<open>a line from the channel\<close>
  | FwFlush nat sending         \<comment> \<open>the flush timer\<close>
  | FwClosed nat sending        \<comment> \<open>the channel is closed and empty\<close>
  | FwCancel nat sending        \<comment> \<open>cancelled while streaming\<close>
  | FwGone nat                  \<comment> \<open>the goroutine ends\<close>

definition in_phase :: "fwd_phase \<Rightarrow> nat \<Rightarrow> log_agent \<Rightarrow> bool" where
  "in_phase ph n a \<longleftrightarrow> n < length (laForwarders a) \<and> fwPhase (laForwarders a ! n) = ph"

text \<open>A channel is open as long as readers may write to it: two of them, for the two streams.\<close>

definition chan_open :: "nat \<Rightarrow> log_agent \<Rightarrow> bool" where
  "chan_open c a \<longleftrightarrow> c < length (laChannels a) \<and> \<not> lcClosed (laChannels a ! c)"

fun log_step :: "log_event \<Rightarrow> log_agent \<Rightarrow> log_agent option" where
  "log_step (LogStart i) a =
     (case map_get (laProcs a) i of
        None \<Rightarrow> Some (proc_starts i a)
      | Some p \<Rightarrow> if lpRunning p then None else Some (proc_starts i a))"
| "log_step (LogExit i) a =
     (case map_get (laProcs a) i of
        None \<Rightarrow> None
      | Some p \<Rightarrow>
          if lpRunning p \<and> chan_open (lpChan p) a \<and> lcPushing (laChannels a ! lpChan p) = []
          then Some ((on_channel (lpChan p) close_channel a)\<lparr>laProcs := map_put i (p\<lparr>lpRunning := False\<rparr>) (laProcs a)\<rparr>)
          else None)"
| "log_step (LogRead c l) a =
     (if chan_open c a \<and> length (lcPushing (laChannels a ! c)) < 2 then Some (on_channel c (read_line l) a) else None)"
| "log_step (LogPush c k) a =
     (if chan_open c a \<and> k < length (lcPushing (laChannels a ! c)) \<and> length (lcQueue (laChannels a ! c)) < logChCap
      then Some (on_channel c (push_line k) a) else None)"
| "log_step LogTick a = Some (log_tick a)"
| "log_step (FwOpen n ok) a =
     (if in_phase Opening n a \<and> (ok \<longrightarrow> \<not> fwCancelled (laForwarders a ! n))
      then Some (on_forwarder n (\<lambda>f. f\<lparr>fwPhase := (if ok then Streaming else Waiting)\<rparr>) a) else None)"
| "log_step (FwRetry n) a =
     (if in_phase Waiting n a then Some (on_forwarder n (\<lambda>f. f\<lparr>fwPhase := Opening\<rparr>) a) else None)"
| "log_step (FwGiveUp n) a =
     (if in_phase Waiting n a \<and> fwCancelled (laForwarders a ! n)
      then Some (on_forwarder n (\<lambda>f. f\<lparr>fwPhase := Finished\<rparr>) a) else None)"
| "log_step (FwTake n out) a =
     (if in_phase Streaming n a \<and> lcQueue (laChannels a ! fwChan (laForwarders a ! n)) \<noteq> []
      then take_line out n a else None)"
| "log_step (FwFlush n out) a = (if in_phase Streaming n a then send_or_leave out n a else None)"
| "log_step (FwClosed n out) a =
     (let ch = laChannels a ! fwChan (laForwarders a ! n) in
      if in_phase Streaming n a \<and> lcClosed ch \<and> lcQueue ch = [] then finish_stream out n a else None)"
| "log_step (FwCancel n out) a =
     (if in_phase Streaming n a \<and> fwCancelled (laForwarders a ! n) then finish_stream out n a else None)"
| "log_step (FwGone n) a = (if in_phase Finished n a then Some (forwarder_gone n a) else None)"

fun log_run :: "log_event list \<Rightarrow> log_agent \<Rightarrow> log_agent option" where
  "log_run [] a = Some a"
| "log_run (e # es) a = Option.bind (log_step e a) (log_run es)"

inductive log_reach :: "log_agent \<Rightarrow> bool" where
  log_new: "log_reach new_log_agent"
| log_next: "log_reach a \<Longrightarrow> log_step e a = Some a' \<Longrightarrow> log_reach a'"

end
