(* ===== verification/Log_Properties.thy ===== *)
theory Log_Properties
  imports Log_Pipeline
begin

text \<open>
  What the log pipeline keeps in every interleaving: no line is invented, shown twice or
  reordered by a forwarder, every line that is missing was counted as dropped or lost, and
  a forwarder that is alone and loses nothing delivers everything. A restart can leave two
  forwarders on one channel, and an unreachable master can keep the end of a container
  from being noticed.
\<close>

section \<open>One channel and its forwarders\<close>

definition carried :: "forwarder \<Rightarrow> string list" where
  "carried f = fwSent f @ fwBatch f"

definition chan_ok :: "log_channel \<Rightarrow> forwarder list \<Rightarrow> bool" where
  "chan_ok ch fs \<longleftrightarrow>
     (\<exists>P. lcWritten ch = P @ lcQueue ch \<and> (\<forall>f \<in> set fs. subseq (carried f) P) \<and>
        sum_list (map (mset \<circ> carried) fs) \<subseteq># mset P \<and>
        length P = lcDropped ch + sum_list (map (\<lambda>f. length (carried f) + fwLost f) fs))"

lemma chan_ok_new: "chan_ok new_log_channel []"
  by (simp add: chan_ok_def new_log_channel_def)

lemma chan_ok_forwarder: "chan_ok ch fs \<Longrightarrow> chan_ok ch (fs @ [new_forwarder i c])"
  by (simp add: chan_ok_def new_forwarder_def carried_def)

lemma chan_ok_enqueue: "chan_ok (enqueue l ch) fs = chan_ok ch fs"
  by (simp add: chan_ok_def enqueue_def)

lemma chan_ok_cong:
  assumes "lcWritten ch' = lcWritten ch" "lcQueue ch' = lcQueue ch" "lcDropped ch' = lcDropped ch"
  shows "chan_ok ch' fs = chan_ok ch fs"
  using assms by (simp add: chan_ok_def)

lemma subseq_grow: "subseq xs P \<Longrightarrow> subseq xs (P @ [l])"
  by (rule subseq_rev_drop_many)

lemma subseq_mset: "subseq xs ys \<Longrightarrow> mset xs \<subseteq># mset ys"
  by (induction rule: list_emb.induct) (auto intro: subset_mset.order_trans)

lemma chan_ok_drop:
  assumes "chan_ok ch fs" "lcQueue ch = h # t"
  shows "chan_ok (ch\<lparr>lcQueue := t, lcDropped := Suc (lcDropped ch)\<rparr>) fs"
proof -
  obtain P where P: "lcWritten ch = P @ lcQueue ch" "\<forall>f \<in> set fs. subseq (carried f) P"
    "sum_list (map (mset \<circ> carried) fs) \<subseteq># mset P"
    "length P = lcDropped ch + sum_list (map (\<lambda>f. length (carried f) + fwLost f) fs)"
    using assms(1) by (auto simp: chan_ok_def)
  have "sum_list (map (mset \<circ> carried) fs) \<subseteq># mset (P @ [h])"
    using P(3) by (auto intro: subset_mset.order_trans)
  then show ?thesis
    unfolding chan_ok_def using P assms(2) by (intro exI [of _ "P @ [h]"]) (auto intro: subseq_grow)
qed

text \<open>A forwarder changes: it keeps the lines it carries, or loses some and counts them.\<close>

lemma chan_ok_change:
  assumes "chan_ok ch (xs @ f # ys)" and "subseq (carried f') (carried f)"
    and "length (carried f') + fwLost f' = length (carried f) + fwLost f"
  shows "chan_ok ch (xs @ f' # ys)"
proof -
  obtain P where P: "lcWritten ch = P @ lcQueue ch" "\<forall>g \<in> set (xs @ f # ys). subseq (carried g) P"
    "sum_list (map (mset \<circ> carried) (xs @ f # ys)) \<subseteq># mset P"
    "length P = lcDropped ch + sum_list (map (\<lambda>g. length (carried g) + fwLost g) (xs @ f # ys))"
    using assms(1) by (auto simp: chan_ok_def)
  have "mset (carried f') \<subseteq># mset (carried f)" using assms(2) by (rule subseq_mset)
  then have "sum_list (map (mset \<circ> carried) (xs @ f' # ys)) \<subseteq># sum_list (map (mset \<circ> carried) (xs @ f # ys))"
    by simp
  then have m: "sum_list (map (mset \<circ> carried) (xs @ f' # ys)) \<subseteq># mset P"
    using P(3) by (rule subset_mset.order_trans)
  have "length P = lcDropped ch + sum_list (map (\<lambda>g. length (carried g) + fwLost g) (xs @ f' # ys))"
    using P(4) assms(3) by simp
  moreover have "\<forall>g \<in> set (xs @ f' # ys). subseq (carried g) P"
    using P(2) assms(2) by (auto intro: subseq_order.order_trans)
  ultimately show ?thesis unfolding chan_ok_def using P(1) m by blast
qed

lemma chan_ok_take:
  assumes "chan_ok ch (xs @ f # ys)" "lcQueue ch = h # t"
  shows "chan_ok (ch\<lparr>lcQueue := t\<rparr>) (xs @ f\<lparr>fwBatch := fwBatch f @ [h]\<rparr> # ys)"
proof -
  obtain P where P: "lcWritten ch = P @ lcQueue ch" "\<forall>g \<in> set (xs @ f # ys). subseq (carried g) P"
    "sum_list (map (mset \<circ> carried) (xs @ f # ys)) \<subseteq># mset P"
    "length P = lcDropped ch + sum_list (map (\<lambda>g. length (carried g) + fwLost g) (xs @ f # ys))"
    using assms(1) by (auto simp: chan_ok_def)
  have c: "carried (f\<lparr>fwBatch := fwBatch f @ [h]\<rparr>) = carried f @ [h]" by (simp add: carried_def)
  have "subseq (carried f @ [h]) (P @ [h])" using P(2) by simp
  moreover have "sum_list (map (mset \<circ> carried) (xs @ f\<lparr>fwBatch := fwBatch f @ [h]\<rparr> # ys)) \<subseteq># mset (P @ [h])"
    using P(3) by (simp add: c)
  ultimately show ?thesis
    unfolding chan_ok_def using P assms(2) by (intro exI [of _ "P @ [h]"]) (auto simp: c intro: subseq_grow)
qed

lemma chan_ok_alone:
  assumes "chan_ok ch [f]" "fwLost f = 0" "lcDropped ch = 0"
  shows "lcWritten ch = carried f @ lcQueue ch"
proof -
  obtain P where P: "lcWritten ch = P @ lcQueue ch" "subseq (carried f) P" "length P = length (carried f)"
    using assms by (auto simp: chan_ok_def)
  then show ?thesis using subseq_same_length [of "carried f" P] by simp
qed


section \<open>The invariant\<close>

definition on_chan :: "nat \<Rightarrow> log_agent \<Rightarrow> forwarder list" where
  "on_chan c a = filter (\<lambda>f. fwChan f = c) (laForwarders a)"

definition shown_lines :: "string \<Rightarrow> log_agent \<Rightarrow> string list" where
  "shown_lines i a = [l. (j, l, t) \<leftarrow> laShown a, j = i]"

text \<open>Every channel accounts for its lines, and the forwarders have a channel and small batches.\<close>

definition forwarder_ok :: "log_agent \<Rightarrow> forwarder \<Rightarrow> bool" where
  "forwarder_ok a f \<longleftrightarrow>
     fwChan f < length (laChannels a) \<and> length (fwBatch f) < 10 \<and> (fwPhase f \<noteq> Streaming \<longrightarrow> fwBatch f = []) \<and>
     (fwPhase f \<in> {Finished, Gone} \<and> \<not> fwCancelled f \<longrightarrow>
        lcClosed (laChannels a ! fwChan f) \<and> lcQueue (laChannels a ! fwChan f) = [])"

definition channels_ok :: "log_agent \<Rightarrow> bool" where
  "channels_ok a \<longleftrightarrow>
     (\<forall>c < length (laChannels a). chan_ok (laChannels a ! c) (on_chan c a)) \<and>
     (\<forall>f \<in> set (laForwarders a). forwarder_ok a f) \<and>
     (\<forall>i p. map_get (laProcs a) i = Some p \<longrightarrow> lpChan p < length (laChannels a))"

text \<open>What the master shows of an instance is its history, and all from one forwarder if there is only one.\<close>

definition heads :: "log_agent \<Rightarrow> (string \<times> string list) list" where
  "heads a = map (\<lambda>f. (fwInst f, fwSent f)) (laForwarders a)"

definition shown_ok :: "string \<Rightarrow> (string \<times> string list) list \<Rightarrow> string list \<Rightarrow> bool" where
  "shown_ok i hs ls \<longleftrightarrow> (case filter (\<lambda>h. fst h = i) hs of [] \<Rightarrow> ls = [] | [h] \<Rightarrow> ls = snd h | _ \<Rightarrow> True)"

definition master_ok :: "log_agent \<Rightarrow> bool" where
  "master_ok a \<longleftrightarrow>
     log_state_ok (laMaster a) \<and>
     (\<forall>i. GetLogHistory i (laMaster a) = take_last 500 (shown_lines i a) \<and> shown_ok i (heads a) (shown_lines i a))"

definition pipe_ok :: "log_agent \<Rightarrow> bool" where
  "pipe_ok a \<longleftrightarrow> channels_ok a \<and> master_ok a"

lemma list_at:
  assumes "n < length xs"
  obtains ys zs where "xs = ys @ (xs ! n) # zs" "\<And>y. xs[n := y] = ys @ y # zs"
  using id_take_nth_drop [OF assms] upd_conv_take_nth_drop [OF assms] by blast

text \<open>One forwarder changes without a change of its channel.\<close>

lemma channels_ok_on_forwarder:
  assumes ok: "channels_ok a" and n: "n < length (laForwarders a)" "f = laForwarders a ! n"
    and g: "fwChan (g f) = fwChan f" "subseq (carried (g f)) (carried f)"
      "length (carried (g f)) + fwLost (g f) = length (carried f) + fwLost f" "forwarder_ok a (g f)"
  shows "channels_ok (on_forwarder n g a)"
proof -
  obtain ys zs where l: "laForwarders a = ys @ f # zs" "\<And>y. (laForwarders a)[n := y] = ys @ y # zs"
    using list_at [OF n(1)] unfolding n(2) by blast
  have s: "laForwarders a = ys @ f # zs" "laForwarders (on_forwarder n g a) = ys @ g f # zs"
    using l(1) by (simp_all add: on_forwarder_def l(2) n(2))
  have ch: "laChannels (on_forwarder n g a) = laChannels a" "laProcs (on_forwarder n g a) = laProcs a"
    by (simp_all add: on_forwarder_def)
  have "chan_ok (laChannels a ! c) (on_chan c (on_forwarder n g a))" if "c < length (laChannels a)" for c
  proof -
    have "chan_ok (laChannels a ! c) (on_chan c a)" using ok that by (simp add: channels_ok_def)
    then show ?thesis using chan_ok_change [OF _ g(2,3)] g(1) by (auto simp: on_chan_def s)
  qed
  moreover have "forwarder_ok (on_forwarder n g a) h = forwarder_ok a h" for h by (simp add: forwarder_ok_def ch)
  ultimately show ?thesis using ok g(4) by (auto simp: channels_ok_def ch s)
qed

text \<open>One channel changes without a change of what its forwarders carry.\<close>

lemma channels_ok_on_channel:
  assumes ok: "channels_ok a" and c: "c < length (laChannels a)" "ch = laChannels a ! c"
    and g: "\<And>fs. chan_ok ch fs \<Longrightarrow> chan_ok (g ch) fs"
      "lcClosed ch \<and> lcQueue ch = [] \<Longrightarrow> lcClosed (g ch) \<and> lcQueue (g ch) = []"
  shows "channels_ok (on_channel c g a)"
proof -
  have fw: "laForwarders (on_channel c g a) = laForwarders a" "laProcs (on_channel c g a) = laProcs a"
    "on_chan d (on_channel c g a) = on_chan d a" "length (laChannels (on_channel c g a)) = length (laChannels a)" for d
    by (simp_all add: on_channel_def on_chan_def)
  have at: "laChannels (on_channel c g a) ! d = (if d = c then g ch else laChannels a ! d)" if "d < length (laChannels a)" for d
    using c that by (simp add: on_channel_def)
  have "forwarder_ok (on_channel c g a) h" if "forwarder_ok a h" for h
    using that g(2) c(2) by (auto simp: forwarder_ok_def fw at)
  then show ?thesis using ok g(1) c by (auto simp: channels_ok_def fw at)
qed

lemma channels_ok_same:
  assumes "channels_ok a" "laChannels a' = laChannels a" "laForwarders a' = laForwarders a"
    "\<And>i p. map_get (laProcs a') i = Some p \<Longrightarrow> lpChan p < length (laChannels a)"
  shows "channels_ok a'"
  using assms by (simp add: channels_ok_def on_chan_def forwarder_ok_def)


section \<open>The events keep it\<close>

subsection \<open>Channels\<close>

lemma channels_ok_starts:
  assumes "channels_ok a"
  shows "channels_ok (proc_starts i a)"
proof -
  have lt: "fwChan f < length (laChannels a)" if "f \<in> set (laForwarders a)" for f
    using assms that by (simp add: channels_ok_def forwarder_ok_def)
  have none: "on_chan (length (laChannels a)) a = []" using lt by (force simp: on_chan_def filter_empty_conv)
  have same: "on_chan c (proc_starts i a) = on_chan c a" "laForwarders (proc_starts i a) = laForwarders a" for c
    by (simp_all add: on_chan_def proc_starts_def)
  have "chan_ok (laChannels (proc_starts i a) ! c) (on_chan c (proc_starts i a))"
    if "c < length (laChannels (proc_starts i a))" for c
    using that assms chan_ok_new none unfolding same
    by (cases "c = length (laChannels a)") (auto simp: proc_starts_def channels_ok_def nth_append)
  moreover have "forwarder_ok (proc_starts i a) f" if "f \<in> set (laForwarders a)" for f
    using assms that by (auto simp: channels_ok_def forwarder_ok_def proc_starts_def nth_append)
  moreover have "lpChan p < length (laChannels (proc_starts i a))" if "map_get (laProcs (proc_starts i a)) j = Some p" for j p
    using assms that by (auto simp: channels_ok_def proc_starts_def go_map_simps split: if_splits intro: less_SucI)
  ultimately show ?thesis by (simp add: channels_ok_def same)
qed

lemma chan_ok_read: "chan_ok ch fs \<Longrightarrow> chan_ok (read_line l ch) fs"
proof (cases "length (lcQueue ch) < logChCap")
  case False
  assume ok: "chan_ok ch fs"
  obtain h t where q: "lcQueue ch = h # t" using False by (cases "lcQueue ch") (simp_all add: logChCap_def)
  show ?thesis
    using chan_ok_drop [OF ok q] False
    by (subst chan_ok_cong [where ch = "ch\<lparr>lcQueue := t, lcDropped := Suc (lcDropped ch)\<rparr>"]) (simp_all add: read_line_def q)
qed (simp add: read_line_def chan_ok_enqueue)

lemma chan_ok_push: "chan_ok ch fs \<Longrightarrow> chan_ok (push_line k ch) fs"
  using chan_ok_enqueue [of "lcPushing ch ! k" ch fs] by (simp add: push_line_def chan_ok_def)

lemma chan_ok_close: "chan_ok ch fs \<Longrightarrow> chan_ok (close_channel ch) fs"
  by (simp add: close_channel_def chan_ok_def)

lemma channels_ok_cancel: "channels_ok a \<Longrightarrow> channels_ok (cancel_forwarder n a)"
proof (cases "n < length (laForwarders a)")
  case True
  assume ok: "channels_ok a"
  then have "forwarder_ok a (laForwarders a ! n)" using True by (simp add: channels_ok_def)
  then show ?thesis
    unfolding cancel_forwarder_def
    by (intro channels_ok_on_forwarder [OF ok True refl]) (auto simp: carried_def forwarder_ok_def)
next
  case False
  assume "channels_ok a"
  moreover have "cancel_forwarder n a = a"
    using False by (simp add: cancel_forwarder_def on_forwarder_def list_update_beyond not_less)
  ultimately show ?thesis by simp
qed

lemma channels_ok_start_forwarder:
  assumes "channels_ok a" "lpChan p < length (laChannels a)"
  shows "channels_ok (start_forwarder i p a)"
proof (cases "lpRunning p")
  case True
  have fw: "laForwarders (start_forwarder i p a) = laForwarders a @ [new_forwarder i (lpChan p)]"
    "laChannels (start_forwarder i p a) = laChannels a" "laProcs (start_forwarder i p a) = laProcs a"
    using True by (simp_all add: start_forwarder_def)
  have "chan_ok (laChannels a ! c) (on_chan c (start_forwarder i p a))" if "c < length (laChannels a)" for c
    using assms(1) that chan_ok_forwarder [of _ _ i] by (simp add: channels_ok_def on_chan_def fw)
  moreover have "forwarder_ok (start_forwarder i p a) f = forwarder_ok a f" for f by (simp add: forwarder_ok_def fw)
  moreover have "forwarder_ok a (new_forwarder i (lpChan p))" using assms(2) by (simp add: forwarder_ok_def new_forwarder_def)
  ultimately show ?thesis using assms(1) by (auto simp: channels_ok_def fw)
qed (use assms in \<open>simp add: start_forwarder_def\<close>)

lemma channels_ok_active: "channels_ok (a\<lparr>laActive := m\<rparr>) = channels_ok a"
  by (simp add: channels_ok_def on_chan_def forwarder_ok_def)

lemma channels_ok_visit: "channels_ok a \<Longrightarrow> channels_ok (visit_instance i a)"
proof (cases "map_get (laProcs a) i")
  case (Some p)
  assume ok: "channels_ok a"
  have p: "lpChan p < length (laChannels a)" using ok Some by (simp add: channels_ok_def)
  have "channels_ok ((cancel_forwarder n a)\<lparr>laActive := m\<rparr>)" for n m
    using channels_ok_cancel [OF ok] by (simp add: channels_ok_active)
  then show ?thesis
    using ok p Some by (auto simp: visit_instance_def intro!: channels_ok_start_forwarder
        simp: cancel_forwarder_def on_forwarder_def split: option.splits)
qed (simp add: visit_instance_def)

lemma channels_ok_tick: "channels_ok a \<Longrightarrow> channels_ok (log_tick a)"
proof -
  have "channels_ok a \<Longrightarrow> channels_ok (fold visit_instance is a)" for "is"
    by (induction "is" arbitrary: a) (simp_all add: channels_ok_visit)
  then show "channels_ok a \<Longrightarrow> channels_ok (log_tick a)" by (simp add: log_tick_def)
qed

text \<open>A change of the phase alone.\<close>

lemma channels_ok_phase:
  assumes "channels_ok a" "in_phase ph n a" "ph \<noteq> Streaming"
    and "ph' \<in> {Finished, Gone} \<longrightarrow> ph \<in> {Finished, Gone} \<or> fwCancelled (laForwarders a ! n)"
  shows "channels_ok (on_forwarder n (\<lambda>f. f\<lparr>fwPhase := ph'\<rparr>) a)"
proof -
  have n: "n < length (laForwarders a)" "forwarder_ok a (laForwarders a ! n)"
    using assms(1,2) by (simp_all add: in_phase_def channels_ok_def)
  show ?thesis
    using assms(2-4) n(2)
    by (intro channels_ok_on_forwarder [OF assms(1) n(1) refl]) (auto simp: carried_def forwarder_ok_def in_phase_def)
qed

subsection \<open>Sending\<close>

text \<open>What a send makes of a forwarder: lines leave the batch, delivered or counted as lost.\<close>

definition shrinks :: "forwarder \<Rightarrow> forwarder \<Rightarrow> bool" where
  "shrinks f f' \<longleftrightarrow>
     fwInst f' = fwInst f \<and> fwChan f' = fwChan f \<and> fwCancelled f' = fwCancelled f \<and> subseq (carried f') (carried f) \<and>
     length (carried f') + fwLost f' = length (carried f) + fwLost f"

text \<open>The state after a send, up to what the master has.\<close>

definition sent_as :: "nat \<Rightarrow> forwarder \<Rightarrow> log_agent \<Rightarrow> log_agent \<Rightarrow> bool" where
  "sent_as n f' a a' \<longleftrightarrow> (\<exists>m s. a' = (on_forwarder n (\<lambda>f. f') a)\<lparr>laMaster := m, laShown := s\<rparr>)"

lemma sent_as_refl: "sent_as n (laForwarders a ! n) a a"
  unfolding sent_as_def by (rule exI [of _ "laMaster a"], rule exI [of _ "laShown a"]) (simp add: on_forwarder_def list_update_id)

lemma shrinks_leave: "shrinks f (f\<lparr>fwPhase := ph, fwBatch := [], fwLost := fwLost f + length (fwBatch f)\<rparr>)"
  by (simp add: shrinks_def carried_def subseq_rev_drop_many)

lemma shrinks_trans: "shrinks f g \<Longrightarrow> shrinks g h \<Longrightarrow> shrinks f h"
  by (auto simp: shrinks_def intro: subseq_order.order_trans)

lemma sendBatch_as:
  assumes "sendBatch out n a = Some a'" "n < length (laForwarders a)" "f = laForwarders a ! n"
  obtains f' where "sent_as n f' a a'" "shrinks f f'" "fwPhase f' = fwPhase f"
    "fwBatch f = [] \<or> out \<noteq> Refused \<Longrightarrow> fwBatch f' = []" "out = Refused \<Longrightarrow> f' = f"
proof -
  have same: "sent_as n (g f) a ((on_forwarder n g a)\<lparr>laMaster := m, laShown := s\<rparr>)" for g m s
    unfolding sent_as_def on_forwarder_def assms(3) by blast
  have idle: "sent_as n f a a" using sent_as_refl assms(3) by simp
  show thesis
  proof (cases "fwBatch f = []")
    case True
    then have "a' = a" using assms by (simp add: sendBatch_def Let_def)
    then show thesis using that [of f] idle True by (simp add: shrinks_def)
  next
    case False
    show thesis
    proof (cases out)
      case (Delivered now)
      then obtain m where "a' = on_forwarder n (\<lambda>f. f\<lparr>fwBatch := [], fwSent := fwSent f @ fwBatch f\<rparr>)
          (a\<lparr>laMaster := m, laShown := laShown a @ map (\<lambda>l. (fwInst f, l, now)) (fwBatch f)\<rparr>)"
        using assms False by (auto simp: sendBatch_def Let_def split: option.splits)
      then have "sent_as n (f\<lparr>fwBatch := [], fwSent := fwSent f @ fwBatch f\<rparr>) a a'"
        unfolding sent_as_def
        by (intro exI [of _ m] exI [of _ "laShown a @ map (\<lambda>l. (fwInst f, l, now)) (fwBatch f)"])
          (simp add: on_forwarder_def assms(3))
      then show thesis using that Delivered by (simp add: shrinks_def carried_def)
    next
      case Lost
      have e: "a' = on_forwarder n (\<lambda>f. f\<lparr>fwBatch := [], fwLost := fwLost f + length (fwBatch f)\<rparr>) a"
        using assms False Lost by (simp add: sendBatch_def Let_def)
      have "sent_as n (f\<lparr>fwBatch := [], fwLost := fwLost f + length (fwBatch f)\<rparr>) a a'"
        unfolding e sent_as_def by (auto simp: on_forwarder_def assms(3) intro!: exI [of _ "laMaster a"] exI [of _ "laShown a"])
      then show thesis using that Lost by (simp add: shrinks_def carried_def subseq_rev_drop_many)
    next
      case Refused
      then have "a' = a" using assms False by (simp add: sendBatch_def Let_def)
      then show thesis using that [of f] idle False Refused by (simp add: shrinks_def)
    qed
  qed
qed

lemma leave_as:
  assumes "sent_as n f' a a'" "n < length (laForwarders a)"
  shows "sent_as n (f'\<lparr>fwPhase := ph, fwBatch := [], fwLost := fwLost f' + length (fwBatch f')\<rparr>) a (leave_stream ph n a')"
proof -
  obtain m s where "a' = (on_forwarder n (\<lambda>f. f') a)\<lparr>laMaster := m, laShown := s\<rparr>"
    using assms(1) by (auto simp: sent_as_def)
  then show ?thesis
    unfolding sent_as_def leave_stream_def using assms(2)
    by (intro exI [of _ m] exI [of _ s]) (simp add: on_forwarder_def)
qed

lemma send_or_leave_as:
  assumes "send_or_leave out n a = Some a'" "n < length (laForwarders a)" "f = laForwarders a ! n" "fwPhase f = Streaming"
  obtains f' where "sent_as n f' a a'" "shrinks f f'" "fwBatch f' = []" "fwPhase f' \<in> {Streaming, Waiting}"
proof (cases "fwBatch f \<noteq> [] \<and> out = Refused")
  case True
  have "sent_as n f a a" using sent_as_refl assms(3) by simp
  then have "sent_as n (f\<lparr>fwPhase := Waiting, fwBatch := [], fwLost := fwLost f + length (fwBatch f)\<rparr>) a (leave_stream Waiting n a)"
    using leave_as assms(2) by blast
  moreover have "a' = leave_stream Waiting n a" using assms(1,3) True by (simp add: send_or_leave_def)
  ultimately show thesis using that [OF _ shrinks_leave] by simp
next
  case False
  then have "sendBatch out n a = Some a'" using assms(1,3) by (auto simp: send_or_leave_def)
  then show thesis
    by (rule sendBatch_as [OF _ assms(2,3)]) (rule that, use False assms(4) in auto)
qed

lemma finish_stream_as:
  assumes "finish_stream out n a = Some a'" "n < length (laForwarders a)" "f = laForwarders a ! n"
  obtains f' where "sent_as n f' a a'" "shrinks f f'" "fwBatch f' = []" "fwPhase f' = Finished"
proof -
  obtain b where b: "sendBatch out n a = Some b" "a' = leave_stream Finished n b"
    using assms(1) by (auto simp: finish_stream_def)
  obtain f1 where f1: "sent_as n f1 a b" "shrinks f f1" using sendBatch_as [OF b(1) assms(2,3)] by metis
  let ?g = "f1\<lparr>fwPhase := Finished, fwBatch := [], fwLost := fwLost f1 + length (fwBatch f1)\<rparr>"
  have "sent_as n ?g a a'" using leave_as [OF f1(1) assms(2)] b(2) by simp
  then show thesis using that shrinks_trans [OF f1(2) shrinks_leave] by simp
qed

lemma channels_ok_as:
  assumes "channels_ok a" "sent_as n f' a a'" "n < length (laForwarders a)" "shrinks (laForwarders a ! n) f'" "fwBatch f' = []"
    and "fwPhase f' \<in> {Finished, Gone} \<and> \<not> fwCancelled f' \<longrightarrow>
      lcClosed (laChannels a ! fwChan f') \<and> lcQueue (laChannels a ! fwChan f') = []"
  shows "channels_ok a'"
proof -
  have "forwarder_ok a (laForwarders a ! n)" using assms(1,3) by (simp add: channels_ok_def)
  then have "channels_ok (on_forwarder n (\<lambda>f. f') a)"
    using assms(4-6) by (intro channels_ok_on_forwarder [OF assms(1,3) refl]) (auto simp: shrinks_def forwarder_ok_def)
  then show ?thesis using assms(2) by (auto simp: sent_as_def channels_ok_def on_chan_def forwarder_ok_def)
qed


text \<open>A line goes from the channel to the batch.\<close>

definition popped :: "nat \<Rightarrow> log_agent \<Rightarrow> log_agent" where
  "popped n a =
     (let f = laForwarders a ! n; ch = laChannels a ! fwChan f
      in on_forwarder n (\<lambda>f. f\<lparr>fwBatch := fwBatch f @ [hd (lcQueue ch)]\<rparr>)
           (on_channel (fwChan f) (\<lambda>ch. ch\<lparr>lcQueue := tl (lcQueue ch)\<rparr>) a))"

lemma take_line_popped:
  "take_line out n a =
     (if length (fwBatch (laForwarders a ! n)) + 1 \<ge> 10 then send_or_leave out n (popped n a) else Some (popped n a))"
  by (simp add: take_line_def popped_def Let_def)

lemma popped_at:
  assumes "n < length (laForwarders a)" "f = laForwarders a ! n" "lcQueue (laChannels a ! fwChan f) = h # t"
  shows "laForwarders (popped n a) = (laForwarders a)[n := f\<lparr>fwBatch := fwBatch f @ [h]\<rparr>]"
    "laChannels (popped n a) = (laChannels a)[fwChan f := (laChannels a ! fwChan f)\<lparr>lcQueue := t\<rparr>]"
    "laProcs (popped n a) = laProcs a" "laMaster (popped n a) = laMaster a" "laShown (popped n a) = laShown a"
  using assms by (simp_all add: popped_def Let_def on_forwarder_def on_channel_def)

text \<open>Popping and then changing the forwarder to one that fits.\<close>

lemma channels_ok_popped:
  assumes ok: "channels_ok a" and n: "n < length (laForwarders a)" "f = laForwarders a ! n"
    and q: "lcQueue (laChannels a ! fwChan f) = h # t"
    and as: "sent_as n f' (popped n a) a'" "shrinks (f\<lparr>fwBatch := fwBatch f @ [h]\<rparr>) f'"
    and f': "length (fwBatch f') < 10" "fwPhase f' = Streaming \<or> fwPhase f' = Waiting \<and> fwBatch f' = []"
  shows "channels_ok a'"
proof -
  let ?f1 = "f\<lparr>fwBatch := fwBatch f @ [h]\<rparr>" and ?ch = "laChannels a ! fwChan f"
  have c: "fwChan f < length (laChannels a)" using ok n by (simp add: channels_ok_def forwarder_ok_def)
  obtain ys zs where l: "laForwarders a = ys @ f # zs" "\<And>y. (laForwarders a)[n := y] = ys @ y # zs"
    using list_at [OF n(1)] unfolding n(2) by blast
  note p = popped_at [OF n q]
  have twice: "(ys @ y # zs)[n := z] = ys @ z # zs" for y z using l(2) by (metis list_update_overwrite)
  have a': "laForwarders a' = ys @ f' # zs" "laChannels a' = (laChannels a)[fwChan f := ?ch\<lparr>lcQueue := t\<rparr>]"
    "laProcs a' = laProcs a"
    using as(1) p by (auto simp: sent_as_def on_forwarder_def l(2) twice)
  have ch: "fwChan f' = fwChan f" using as(2) by (simp add: shrinks_def)
  have "chan_ok (laChannels a' ! d) (on_chan d a')" if d: "d < length (laChannels a)" for d
  proof (cases "d = fwChan f")
    case True
    have "chan_ok ?ch (filter (\<lambda>g. fwChan g = fwChan f) ys @ f # filter (\<lambda>g. fwChan g = fwChan f) zs)"
      using ok c by (auto simp: channels_ok_def on_chan_def l(1))
    then have "chan_ok (?ch\<lparr>lcQueue := t\<rparr>) (filter (\<lambda>g. fwChan g = fwChan f) ys @ ?f1 # filter (\<lambda>g. fwChan g = fwChan f) zs)"
      using q by (rule chan_ok_take)
    then have "chan_ok (?ch\<lparr>lcQueue := t\<rparr>) (filter (\<lambda>g. fwChan g = fwChan f) ys @ f' # filter (\<lambda>g. fwChan g = fwChan f) zs)"
      by (rule chan_ok_change) (use as(2) in \<open>simp_all add: shrinks_def\<close>)
    then show ?thesis using True c ch by (simp add: on_chan_def a')
  next
    case False
    then show ?thesis using ok d ch by (auto simp: channels_ok_def on_chan_def a' l(1))
  qed
  moreover have "forwarder_ok a' g" if "forwarder_ok a g" for g
    using that q c by (auto simp: forwarder_ok_def a' nth_list_update)
  moreover have "forwarder_ok a' f'" using f' c by (auto simp: forwarder_ok_def a' ch)
  ultimately show ?thesis using ok by (auto simp: channels_ok_def a' l(1))
qed

lemma channels_ok_take:
  assumes ok: "channels_ok a" and st: "in_phase Streaming n a"
    and q: "lcQueue (laChannels a ! fwChan (laForwarders a ! n)) \<noteq> []" and r: "take_line out n a = Some a'"
  shows "channels_ok a'"
proof -
  define f where "f = laForwarders a ! n"
  have n: "n < length (laForwarders a)" and ph: "fwPhase f = Streaming" using st by (simp_all add: in_phase_def f_def)
  obtain h t where ht: "lcQueue (laChannels a ! fwChan f) = h # t" using q by (cases "lcQueue (laChannels a ! fwChan f)") (auto simp: f_def)
  note p = popped_at [OF n f_def ht]
  have n1: "n < length (laForwarders (popped n a))" "f\<lparr>fwBatch := fwBatch f @ [h]\<rparr> = laForwarders (popped n a) ! n"
    using n by (simp_all add: p)
  show ?thesis
  proof (cases "length (fwBatch f) + 1 \<ge> 10")
    case True
    then have "send_or_leave out n (popped n a) = Some a'" using r by (simp add: take_line_popped f_def)
    then show ?thesis
      by (rule send_or_leave_as [OF _ n1]) (simp add: ph, rule channels_ok_popped [OF ok n f_def ht], auto)
  next
    case False
    have "sent_as n (f\<lparr>fwBatch := fwBatch f @ [h]\<rparr>) (popped n a) (popped n a)" using sent_as_refl n1(2) by metis
    moreover have "a' = popped n a" using r False by (simp add: take_line_popped f_def)
    ultimately show ?thesis
      using channels_ok_popped [OF ok n f_def ht] False ph by (simp add: shrinks_def)
  qed
qed

subsection \<open>Every event\<close>

lemma log_step_channels:
  assumes "channels_ok a" "log_step e a = Some a'"
  shows "channels_ok a'"
proof (cases e)
  case (LogStart i)
  then show ?thesis using assms channels_ok_starts by (auto split: option.splits if_splits)
next
  case (LogExit i)
  obtain p where p: "map_get (laProcs a) i = Some p" "chan_open (lpChan p) a"
    "a' = (on_channel (lpChan p) close_channel a)\<lparr>laProcs := map_put i (p\<lparr>lpRunning := False\<rparr>) (laProcs a)\<rparr>"
    using assms(2) LogExit by (auto split: option.splits if_splits)
  have "channels_ok (on_channel (lpChan p) close_channel a)"
    using p(2) by (intro channels_ok_on_channel [OF assms(1) _ refl]) (auto simp: chan_open_def dest: chan_ok_close)
  then show ?thesis
    using p assms(1) by (elim channels_ok_same) (auto simp: go_map_simps channels_ok_def on_channel_def split: if_splits)
next
  case (LogRead c l)
  then show ?thesis
    using assms(2) by (auto simp: chan_open_def split: if_splits intro!: channels_ok_on_channel [OF assms(1) _ refl] chan_ok_read)
next
  case (LogPush c k)
  then show ?thesis
    using assms(2) by (auto simp: chan_open_def split: if_splits intro!: channels_ok_on_channel [OF assms(1) _ refl] chan_ok_push)
next
  case LogTick
  then show ?thesis using assms channels_ok_tick by auto
next
  case (FwOpen n ok)
  then show ?thesis
    using assms(2) channels_ok_phase [OF assms(1), of Opening n "if ok then Streaming else Waiting"] by (auto split: if_splits)
next
  case (FwRetry n)
  then show ?thesis using assms(2) channels_ok_phase [OF assms(1), of Waiting n Opening] by (auto split: if_splits)
next
  case (FwGiveUp n)
  then show ?thesis using assms(2) channels_ok_phase [OF assms(1), of Waiting n Finished] by (auto split: if_splits)
next
  case (FwTake n out)
  then show ?thesis using assms(2) channels_ok_take [OF assms(1)] by (auto split: if_splits)
next
  case (FwFlush n out)
  then have s: "in_phase Streaming n a" "send_or_leave out n a = Some a'" using assms(2) by (auto split: if_splits)
  then show ?thesis
    using send_or_leave_as [OF s(2) _ refl] channels_ok_as [OF assms(1)] unfolding in_phase_def
    by (metis empty_iff fwd_phase.distinct insert_iff)
next
  case (FwClosed n out)
  then have s: "in_phase Streaming n a" "finish_stream out n a = Some a'"
    and ch: "lcClosed (laChannels a ! fwChan (laForwarders a ! n))" "lcQueue (laChannels a ! fwChan (laForwarders a ! n)) = []"
    using assms(2) by (auto simp: Let_def split: if_splits)
  have n: "n < length (laForwarders a)" using s(1) by (simp add: in_phase_def)
  show ?thesis
    by (rule finish_stream_as [OF s(2) n refl]) (rule channels_ok_as [OF assms(1) _ n], use ch in \<open>auto simp: shrinks_def\<close>)
next
  case (FwCancel n out)
  then have s: "in_phase Streaming n a" "finish_stream out n a = Some a'" "fwCancelled (laForwarders a ! n)"
    using assms(2) by (auto split: if_splits)
  have n: "n < length (laForwarders a)" using s(1) by (simp add: in_phase_def)
  show ?thesis
    by (rule finish_stream_as [OF s(2) n refl]) (rule channels_ok_as [OF assms(1) _ n], use s(3) in \<open>auto simp: shrinks_def\<close>)
next
  case (FwGone n)
  then have "channels_ok (on_forwarder n (\<lambda>f. f\<lparr>fwPhase := Gone\<rparr>) a)"
    using assms(2) channels_ok_phase [OF assms(1), of Finished n Gone] by (auto split: if_splits)
  then show ?thesis using FwGone assms(2) by (auto simp: forwarder_gone_def channels_ok_active split: if_splits)
qed


subsection \<open>What the master shows\<close>

lemma master_ok_same:
  assumes "master_ok a" "laMaster a' = laMaster a" "laShown a' = laShown a" "heads a' = heads a"
  shows "master_ok a'"
  using assms by (simp add: master_ok_def shown_lines_def)

lemma heads_on_forwarder:
  "(\<And>f. fwInst (g f) = fwInst f \<and> fwSent (g f) = fwSent f) \<Longrightarrow> heads (on_forwarder n g a) = heads a"
  by (rule nth_equalityI; cases "n < length (laForwarders a)")
    (auto simp: heads_def on_forwarder_def nth_list_update list_update_beyond not_less)

lemma master_ok_on_forwarder:
  "master_ok a \<Longrightarrow> (\<And>f. fwInst (g f) = fwInst f \<and> fwSent (g f) = fwSent f) \<Longrightarrow> master_ok (on_forwarder n g a)"
  by (rule master_ok_same) (simp_all add: heads_on_forwarder, simp_all add: on_forwarder_def)

lemma master_ok_on_channel: "master_ok a \<Longrightarrow> master_ok (on_channel c g a)"
  by (rule master_ok_same) (simp_all add: on_channel_def heads_def)

lemma master_ok_fields [simp]:
  "master_ok (a\<lparr>laActive := m\<rparr>) = master_ok a" "master_ok (a\<lparr>laProcs := q\<rparr>) = master_ok a"
  by (simp_all add: master_ok_def shown_lines_def heads_def)

lemma shown_ok_new: "shown_ok i hs ls \<Longrightarrow> shown_ok i (hs @ [(j, [])]) ls"
  by (auto simp: shown_ok_def split: list.splits)

lemma master_ok_start_forwarder: "master_ok a \<Longrightarrow> master_ok (start_forwarder i p a)"
proof (cases "lpRunning p")
  case True
  assume ok: "master_ok a"
  have "heads (start_forwarder i p a) = heads a @ [(i, [])]"
    using True by (simp add: heads_def start_forwarder_def new_forwarder_def)
  then show ?thesis using ok True by (auto simp: master_ok_def shown_lines_def start_forwarder_def intro: shown_ok_new)
qed (simp add: start_forwarder_def)

lemma master_ok_tick: "master_ok a \<Longrightarrow> master_ok (log_tick a)"
proof -
  have visit: "master_ok a \<Longrightarrow> master_ok (visit_instance i a)" for i a
    by (auto simp: visit_instance_def cancel_forwarder_def split: option.splits
        intro!: master_ok_start_forwarder master_ok_on_forwarder)
  have "master_ok a \<Longrightarrow> master_ok (fold visit_instance is a)" for "is"
    by (induction "is" arbitrary: a) (simp_all add: visit)
  then show "master_ok a \<Longrightarrow> master_ok (log_tick a)" by (simp add: log_tick_def)
qed

lemma shown_ok_sent:
  assumes "shown_ok i (xs @ (j, s) # ys) ls"
  shows "shown_ok i (xs @ (j, s @ bs) # ys) (if i = j then ls @ bs else ls)"
  using assms
  by (cases "filter (\<lambda>h. fst h = i) xs"; cases "filter (\<lambda>h. fst h = i) ys")
    (auto simp: shown_ok_def split: list.splits)

lemma master_ok_send:
  assumes ok: "master_ok a" and n: "n < length (laForwarders a)" and s: "sendBatch out n a = Some a'"
  shows "master_ok a'"
proof -
  define f where "f = laForwarders a ! n"
  have "a' = a \<or> a' = on_forwarder n (\<lambda>f. f\<lparr>fwBatch := [], fwLost := fwLost f + length (fwBatch f)\<rparr>) a \<or>
    (\<exists>m now. receive_report (fwInst f) None (fwBatch f) now (laMaster a) = Some m \<and>
      a' = on_forwarder n (\<lambda>f. f\<lparr>fwBatch := [], fwSent := fwSent f @ fwBatch f\<rparr>)
         (a\<lparr>laMaster := m, laShown := laShown a @ map (\<lambda>l. (fwInst f, l, now)) (fwBatch f)\<rparr>))"
  proof (cases "fwBatch f = []")
    case True
    then show ?thesis using s by (simp add: sendBatch_def Let_def f_def)
  next
    case False
    then show ?thesis
      using s unfolding sendBatch_def Let_def f_def [symmetric] by (cases out) (force split: option.splits)+
  qed
  then consider "a' = a" | "a' = on_forwarder n (\<lambda>f. f\<lparr>fwBatch := [], fwLost := fwLost f + length (fwBatch f)\<rparr>) a"
    | m now where "receive_report (fwInst f) None (fwBatch f) now (laMaster a) = Some m"
      "a' = on_forwarder n (\<lambda>f. f\<lparr>fwBatch := [], fwSent := fwSent f @ fwBatch f\<rparr>)
         (a\<lparr>laMaster := m, laShown := laShown a @ map (\<lambda>l. (fwInst f, l, now)) (fwBatch f)\<rparr>)"
    by blast
  then show ?thesis
  proof cases
    case 2
    then show ?thesis using ok by (simp add: master_ok_on_forwarder)
  next
    case (3 m now)
    let ?es = "map (\<lambda>l. (fwInst f, l, now)) (fwBatch f)"
    have "[l. (j, l, t) \<leftarrow> map (\<lambda>l. (fwInst f, l, now)) ls, j = i] = (if i = fwInst f then ls else [])" for i and ls :: "string list"
      by (induction ls) auto
    from this [of _ "fwBatch f"] have only: "[l. (j, l, t) \<leftarrow> ?es, j = i] = (if i = fwInst f then fwBatch f else [])" for i .
    obtain m' where m': "broadcast_all ?es (laMaster a) = Some m'" "log_state_ok m'"
      "\<And>i. GetLogHistory i m' = take_last 500 (GetLogHistory i (laMaster a) @ [l. (j, l, t) \<leftarrow> ?es, j = i])"
      using broadcast_all_ok [of "laMaster a" ?es] ok by (auto simp: master_ok_def)
    have m: "m' = m" using 3(1) m'(1) by (simp add: receive_report_def)
    obtain ys zs where l: "laForwarders a = ys @ f # zs" "\<And>y. (laForwarders a)[n := y] = ys @ y # zs"
      using list_at [OF n] unfolding f_def by blast
    have a': "laMaster a' = m" "laShown a' = laShown a @ ?es"
      "laForwarders a' = ys @ f\<lparr>fwBatch := [], fwSent := fwSent f @ fwBatch f\<rparr> # zs"
      using 3(2) by (simp_all add: on_forwarder_def l(2) f_def)
    let ?h = "map (\<lambda>f. (fwInst f, fwSent f))"
    have "GetLogHistory i m = take_last 500 (shown_lines i a')" for i
      using ok m'(3) [of i] by (simp add: m master_ok_def a'(2) shown_lines_def take_last_append_take_last)
    moreover have sh: "shown_lines i a' = (if i = fwInst f then shown_lines i a @ fwBatch f else shown_lines i a)" for i
      by (simp only: shown_lines_def a'(2) map_append concat_append only) simp
    moreover have "shown_ok i (?h ys @ (fwInst f, fwSent f) # ?h zs) (shown_lines i a)" for i
      using ok by (simp add: master_ok_def heads_def l(1))
    then have "shown_ok i (heads a') (shown_lines i a')" for i
      using shown_ok_sent [of i "?h ys" "fwInst f" "fwSent f" "?h zs" "shown_lines i a" "fwBatch f"]
      by (simp add: sh heads_def a'(3))
    ultimately show ?thesis using m'(2) by (simp add: master_ok_def a'(1) m)
  qed (use ok in simp)
qed

lemma master_ok_leave: "master_ok a \<Longrightarrow> master_ok (leave_stream ph n a)"
  by (simp add: leave_stream_def master_ok_on_forwarder)

lemma master_ok_send_or_leave:
  "master_ok a \<Longrightarrow> n < length (laForwarders a) \<Longrightarrow> send_or_leave out n a = Some a' \<Longrightarrow> master_ok a'"
  by (auto simp: send_or_leave_def master_ok_leave master_ok_send split: if_splits)

lemma master_ok_finish:
  "master_ok a \<Longrightarrow> n < length (laForwarders a) \<Longrightarrow> finish_stream out n a = Some a' \<Longrightarrow> master_ok a'"
  by (auto simp: finish_stream_def master_ok_leave master_ok_send)

lemma master_ok_popped: "master_ok a \<Longrightarrow> master_ok (popped n a)"
  by (simp add: popped_def Let_def master_ok_on_forwarder master_ok_on_channel)

lemma log_step_master:
  assumes "master_ok a" "log_step e a = Some a'"
  shows "master_ok a'"
proof (cases e)
  case (LogStart i)
  have "master_ok (proc_starts i a)" using assms(1) by (rule master_ok_same) (simp_all add: proc_starts_def heads_def)
  then show ?thesis using LogStart assms by (auto split: option.splits if_splits)
next
  case (FwTake n out)
  then have "n < length (laForwarders (popped n a))" and t: "take_line out n a = Some a'"
    using assms(2) by (auto simp: in_phase_def popped_def Let_def on_forwarder_def on_channel_def split: if_splits)
  then show ?thesis
    using master_ok_send_or_leave [OF master_ok_popped [OF assms(1)]] master_ok_popped [OF assms(1)]
    by (auto simp: take_line_popped split: if_splits)
qed (use assms in \<open>auto simp: master_ok_on_channel master_ok_on_forwarder master_ok_tick in_phase_def Let_def forwarder_gone_def
    split: option.splits if_splits intro: master_ok_send_or_leave master_ok_finish\<close>)

lemma pipe_ok_new: "pipe_ok new_log_agent"
proof -
  have "channels_ok new_log_agent" by (simp add: channels_ok_def new_log_agent_def)
  moreover have "master_ok new_log_agent"
    by (simp add: master_ok_def new_log_agent_def shown_lines_def heads_def shown_ok_def GetLogHistory_def)
      (simp add: new_log_state_def)
  ultimately show ?thesis by (simp add: pipe_ok_def)
qed

lemma log_step_ok: "pipe_ok a \<Longrightarrow> log_step e a = Some a' \<Longrightarrow> pipe_ok a'"
  using log_step_channels log_step_master by (auto simp: pipe_ok_def)

lemma log_reach_ok: "log_reach a \<Longrightarrow> pipe_ok a"
  by (induction rule: log_reach.induct) (use pipe_ok_new log_step_ok in blast)+


section \<open>The properties\<close>

lemma chan_of: "pipe_ok a \<Longrightarrow> f \<in> set (laForwarders a) \<Longrightarrow> chan_ok (laChannels a ! fwChan f) (on_chan (fwChan f) a)"
  by (auto simp: pipe_ok_def channels_ok_def forwarder_ok_def)

text \<open>
  C8. In every interleaving of containers, readers, the log loop, forwarders and failing streams
  the console log is faithful: what a forwarder brought to the master is what the container
  wrote, in that order and with gaps at most; all forwarders of a channel together show no
  line more often than it was written; and the missing lines are accounted for: a line is
  shown, in a batch of at most nine, in the channel, or was counted as dropped or lost.
\<close>

theorem log_lines_faithful:
  assumes "log_reach a"
  shows "(\<forall>f \<in> set (laForwarders a). subseq (fwSent f) (lcWritten (laChannels a ! fwChan f)) \<and> length (fwBatch f) \<le> 9) \<and>
    (\<forall>c < length (laChannels a). let ch = laChannels a ! c in
       sum_list (map (mset \<circ> fwSent) (on_chan c a)) \<subseteq># mset (lcWritten ch) \<and>
       length (lcWritten ch) = length (lcQueue ch) + lcDropped ch +
         sum_list (map (\<lambda>f. length (fwSent f) + length (fwBatch f) + fwLost f) (on_chan c a)))"
proof -
  have ok: "pipe_ok a" using assms by (rule log_reach_ok)
  have "subseq (fwSent f) (lcWritten (laChannels a ! fwChan f)) \<and> length (fwBatch f) \<le> 9"
    if f: "f \<in> set (laForwarders a)" for f
  proof -
    have "f \<in> set (on_chan (fwChan f) a)" using f by (simp add: on_chan_def)
    then obtain P where "lcWritten (laChannels a ! fwChan f) = P @ lcQueue (laChannels a ! fwChan f)" "subseq (carried f) P"
      using chan_of [OF ok f] by (auto simp: chan_ok_def)
    moreover have "length (fwBatch f) < 10" using ok f by (simp add: pipe_ok_def channels_ok_def forwarder_ok_def)
    moreover have "subseq (fwSent f) (carried f)" by (simp add: carried_def subseq_rev_drop_many)
    ultimately show ?thesis by (auto intro: subseq_rev_drop_many subseq_order.order_trans)
  qed
  moreover have "sum_list (map (mset \<circ> fwSent) fs) \<subseteq># sum_list (map (mset \<circ> carried) fs)" for fs
    by (induction fs) (auto simp: carried_def intro: subset_mset.add_increasing)
  then have "let ch = laChannels a ! c in sum_list (map (mset \<circ> fwSent) (on_chan c a)) \<subseteq># mset (lcWritten ch) \<and>
       length (lcWritten ch) = length (lcQueue ch) + lcDropped ch +
         sum_list (map (\<lambda>f. length (fwSent f) + length (fwBatch f) + fwLost f) (on_chan c a))"
    if c: "c < length (laChannels a)" for c
  proof -
    obtain P where P: "lcWritten (laChannels a ! c) = P @ lcQueue (laChannels a ! c)"
      "sum_list (map (mset \<circ> carried) (on_chan c a)) \<subseteq># mset P"
      "length P = lcDropped (laChannels a ! c) + sum_list (map (\<lambda>f. length (carried f) + fwLost f) (on_chan c a))"
      using ok c by (auto simp: pipe_ok_def channels_ok_def chan_ok_def)
    have "mset P \<subseteq># mset (lcWritten (laChannels a ! c))" by (simp add: P(1))
    then have "sum_list (map (mset \<circ> fwSent) (on_chan c a)) \<subseteq># mset (lcWritten (laChannels a ! c))"
      using \<open>\<And>fs. sum_list (map (mset \<circ> fwSent) fs) \<subseteq># sum_list (map (mset \<circ> carried) fs)\<close> P(2)
      by (meson subset_mset.order_trans)
    then show ?thesis using P by (simp add: Let_def carried_def)
  qed
  ultimately show ?thesis by blast
qed


definition restart_trace :: "log_event list" where
  "restart_trace =
     [LogStart ''mc'', LogTick, FwOpen 0 True, LogExit ''mc'', LogStart ''mc'', LogTick,
      FwCancel 0 (Delivered 1), FwGone 0, LogTick, FwOpen 1 True, FwOpen 2 True,
      LogRead 1 ''joined'', LogRead 1 ''left'', FwTake 1 (Delivered 2), FwTake 2 (Delivered 2),
      FwFlush 2 (Delivered 3), FwFlush 1 (Delivered 4)]"


section \<open>A reader that waits\<close>

text \<open>The channel has no room for all readers that wait; two of them can be there.\<close>

definition reader_blocked :: "nat \<Rightarrow> log_agent \<Rightarrow> bool" where
  "reader_blocked c a \<longleftrightarrow>
     chan_open c a \<and> length (lcQueue (laChannels a ! c)) \<le> logChCap \<and>
     logChCap < length (lcQueue (laChannels a ! c)) + length (lcPushing (laChannels a ! c))"

definition nobody_streams :: "log_agent \<Rightarrow> bool" where
  "nobody_streams a \<longleftrightarrow> (\<forall>n. \<not> in_phase Streaming n a)"

definition stuck_run :: "string \<Rightarrow> log_proc \<Rightarrow> log_agent \<Rightarrow> bool" where
  "stuck_run i p a \<longleftrightarrow>
     map_get (laProcs a) i = Some p \<and> lpRunning p \<and> reader_blocked (lpChan p) a \<and> nobody_streams a"

lemma nobody_streams_cong:
  "nobody_streams a \<Longrightarrow> laForwarders a' = laForwarders a \<Longrightarrow> nobody_streams a'"
  by (simp add: nobody_streams_def in_phase_def)

lemma nobody_streams_set: "nobody_streams a \<longleftrightarrow> (\<forall>f \<in> set (laForwarders a). fwPhase f \<noteq> Streaming)"
  by (auto simp: nobody_streams_def in_phase_def all_set_conv_all_nth)

lemma nobody_streams_on_forwarder:
  "nobody_streams a \<Longrightarrow> (\<And>f. f \<in> set (laForwarders a) \<Longrightarrow> fwPhase (g f) \<noteq> Streaming) \<Longrightarrow> nobody_streams (on_forwarder n g a)"
  by (cases "n < length (laForwarders a)")
    (auto simp: nobody_streams_set on_forwarder_def list_update_beyond not_less dest!: set_update_subset_insert [THEN subsetD])

lemma nobody_streams_tick:
  "nobody_streams a \<Longrightarrow> nobody_streams (log_tick a) \<and> laChannels (log_tick a) = laChannels a \<and> laProcs (log_tick a) = laProcs a"
proof -
  have start: "nobody_streams a \<Longrightarrow> nobody_streams (start_forwarder i p a) \<and>
      laChannels (start_forwarder i p a) = laChannels a \<and> laProcs (start_forwarder i p a) = laProcs a" for i p a
    by (simp add: start_forwarder_def nobody_streams_set new_forwarder_def)
  have visit: "nobody_streams a \<Longrightarrow> nobody_streams (visit_instance i a) \<and>
      laChannels (visit_instance i a) = laChannels a \<and> laProcs (visit_instance i a) = laProcs a" for i a
  proof (cases "map_get (laProcs a) i")
    case (Some p)
    assume a: "nobody_streams a"
    have "nobody_streams ((cancel_forwarder n a)\<lparr>laActive := m\<rparr>)" for n m
      using nobody_streams_on_forwarder [OF a, of "\<lambda>f. f\<lparr>fwCancelled := True\<rparr>"] a
      by (auto simp: cancel_forwarder_def nobody_streams_set)
    from start [OF this] start [OF a] a Some show ?thesis
      by (auto simp: visit_instance_def cancel_forwarder_def on_forwarder_def split: option.splits)
  qed (simp add: visit_instance_def)
  have "nobody_streams a \<Longrightarrow> nobody_streams (fold visit_instance is a) \<and>
      laChannels (fold visit_instance is a) = laChannels a \<and> laProcs (fold visit_instance is a) = laProcs a" for "is"
    by (induction "is" arbitrary: a) (simp_all add: visit)
  then show "nobody_streams a \<Longrightarrow> nobody_streams (log_tick a) \<and> laChannels (log_tick a) = laChannels a \<and>
      laProcs (log_tick a) = laProcs a" by (simp add: log_tick_def)
qed

lemma reader_blocked_same: "reader_blocked c a \<Longrightarrow> laChannels a' = laChannels a \<Longrightarrow> reader_blocked c a'"
  by (simp add: reader_blocked_def chan_open_def)

lemma stuck_no_exit: "stuck_run i p a \<Longrightarrow> log_step (LogExit i) a = None"
  by (auto simp: stuck_run_def reader_blocked_def)

lemma stuck_step:
  assumes st: "stuck_run i p a" and e: "\<forall>n. e \<noteq> FwOpen n True" and r: "log_step e a = Some a'"
  shows "stuck_run i p a'"
proof -
  have p: "map_get (laProcs a) i = Some p" "lpRunning p" "reader_blocked (lpChan p) a" "nobody_streams a"
    using st by (simp_all add: stuck_run_def)
  have quiet: "\<not> in_phase Streaming n a" for n using p(4) by (simp add: nobody_streams_def)
  have c: "lpChan p < length (laChannels a)" using p(3) by (simp add: reader_blocked_def chan_open_def)
  show ?thesis
  proof (cases e)
    case (LogStart j)
    then have "j \<noteq> i" and a': "a' = proc_starts j a" using r p(1,2) by (auto split: option.splits if_splits)
    then show ?thesis
      using p c by (auto simp: stuck_run_def proc_starts_def go_map_simps reader_blocked_def chan_open_def nth_append
          nobody_streams_set)
  next
    case (LogExit j)
    then have j: "j \<noteq> i" using stuck_no_exit [OF st] r by auto
    obtain q where q: "map_get (laProcs a) j = Some q" "lcPushing (laChannels a ! lpChan q) = []"
      "a' = (on_channel (lpChan q) close_channel a)\<lparr>laProcs := map_put j (q\<lparr>lpRunning := False\<rparr>) (laProcs a)\<rparr>"
      using r LogExit by (auto split: option.splits if_splits)
    then have "lpChan q \<noteq> lpChan p" using p(3) by (auto simp: reader_blocked_def)
    then show ?thesis
      using p j by (auto simp: stuck_run_def q(3) on_channel_def go_map_simps reader_blocked_def chan_open_def
          nobody_streams_set)
  next
    case (LogRead d l)
    then have a': "a' = on_channel d (read_line l) a" using r by (auto split: if_splits)
    show ?thesis
      using p c by (cases "d = lpChan p") (auto simp: stuck_run_def a' on_channel_def reader_blocked_def chan_open_def
          nobody_streams_set read_line_def enqueue_def logChCap_def)
  next
    case (LogPush d k)
    then have a': "a' = on_channel d (push_line k) a" and k: "k < length (lcPushing (laChannels a ! d))"
      "length (lcQueue (laChannels a ! d)) < logChCap" using r by (auto split: if_splits)
    show ?thesis
      using p c k by (cases "d = lpChan p") (auto simp: stuck_run_def a' on_channel_def reader_blocked_def chan_open_def
          nobody_streams_set push_line_def enqueue_def)
  next
    case LogTick
    then show ?thesis
      using r p nobody_streams_tick [OF p(4)] reader_blocked_same [OF p(3)] by (auto simp: stuck_run_def)
  next
    case (FwOpen n ok)
    then have "a' = on_forwarder n (\<lambda>f. f\<lparr>fwPhase := Waiting\<rparr>) a" using r e by (cases ok) (auto split: if_splits)
    then show ?thesis
      using p nobody_streams_on_forwarder [OF p(4)] reader_blocked_same [OF p(3)]
      by (simp add: stuck_run_def) (simp add: on_forwarder_def)
  next
    case (FwRetry n)
    then have "a' = on_forwarder n (\<lambda>f. f\<lparr>fwPhase := Opening\<rparr>) a" using r by (auto split: if_splits)
    then show ?thesis
      using p nobody_streams_on_forwarder [OF p(4)] reader_blocked_same [OF p(3)]
      by (simp add: stuck_run_def) (simp add: on_forwarder_def)
  next
    case (FwGiveUp n)
    then have "a' = on_forwarder n (\<lambda>f. f\<lparr>fwPhase := Finished\<rparr>) a" using r by (auto split: if_splits)
    then show ?thesis
      using p nobody_streams_on_forwarder [OF p(4)] reader_blocked_same [OF p(3)]
      by (simp add: stuck_run_def) (simp add: on_forwarder_def)
  next
    case (FwGone n)
    then have "a' = forwarder_gone n a" using r by (auto split: if_splits)
    then show ?thesis
      using p nobody_streams_on_forwarder [OF p(4), of "\<lambda>f. f\<lparr>fwPhase := Gone\<rparr>" n] reader_blocked_same [OF p(3)]
      by (simp add: stuck_run_def forwarder_gone_def nobody_streams_set) (simp add: on_forwarder_def)
  qed (use r quiet in \<open>auto simp: Let_def split: if_splits\<close>)
qed

text \<open>
  C38. An unreachable master keeps the end of a container from being noticed: when the channel is
  full and a reader waits to put a line in, then as long as no forwarder gets a stream open
  the exit of the instance is never processed, whatever else happens; the process stays
  running for the agent and is not restarted.
\<close>

theorem exit_unnoticed_without_master:
  assumes "stuck_run i p a" and "\<forall>n. FwOpen n True \<notin> set es" and "log_run es a = Some a'"
  shows "log_step (LogExit i) a' = None \<and> map_get (laProcs a') i = Some p \<and> lpRunning p"
proof -
  have "stuck_run i p a'" using assms
  proof (induction es arbitrary: a)
    case (Cons e es)
    then obtain b where b: "log_step e a = Some b" "log_run es b = Some a'" by (auto split: Option.bind_splits)
    have "stuck_run i p b" by (rule stuck_step [OF Cons.prems(1) _ b(1)]) (use Cons.prems(2) in auto)
    then show ?case using Cons.IH [OF _ _ b(2)] Cons.prems(2) by simp
  qed simp
  then show ?thesis using stuck_no_exit by (simp add: stuck_run_def)
qed

text \<open>A container that writes while the agent cannot reach the master gets there.\<close>

lemma log_run_append: "log_run (es @ fs) a = Option.bind (log_run es a) (log_run fs)"
  by (induction es arbitrary: a) (auto split: Option.bind_splits)

definition filled :: "nat \<Rightarrow> log_agent" where
  "filled k =
     \<lparr>laProcs = [(''mc'', \<lparr>lpChan = 0, lpRunning = True\<rparr>)],
      laChannels = [new_log_channel\<lparr>lcQueue := replicate k ''x'', lcWritten := replicate k ''x''\<rparr>],
      laActive = [(''mc'', 0, 0)], laForwarders = [(new_forwarder ''mc'' 0)\<lparr>fwPhase := Waiting\<rparr>],
      laMaster = new_log_state, laShown = []\<rparr>"

lemma fill_step: "k < logChCap \<Longrightarrow> log_step (LogRead 0 ''x'') (filled k) = Some (filled (Suc k))"
  by (simp add: filled_def chan_open_def new_log_channel_def on_channel_def read_line_def enqueue_def
      replicate_append_same)

lemma fill_run: "k + m \<le> logChCap \<Longrightarrow> log_run (replicate m (LogRead 0 ''x'')) (filled k) = Some (filled (k + m))"
  by (induction m arbitrary: k) (simp_all add: fill_step del: log_step.simps)

definition overflow_trace :: "log_event list" where
  "overflow_trace = [LogStart ''mc'', LogTick, FwOpen 0 False] @ replicate 1000 (LogRead 0 ''x'') @
     [LogRead 0 ''y'', LogRead 0 ''z'']"

lemma overflow_run:
  obtains a b where "log_run overflow_trace new_log_agent = Some a" "stuck_run ''mc'' \<lparr>lpChan = 0, lpRunning = True\<rparr> a"
    "log_run [FwRetry 0, FwOpen 0 False, LogTick] a = Some b"
proof -
  have s: "log_run [LogStart ''mc'', LogTick, FwOpen 0 False] new_log_agent = Some (filled 0)"
    by (simp add: new_log_agent_def proc_starts_def log_tick_def visit_instance_def start_forwarder_def in_phase_def
        on_forwarder_def filled_def new_forwarder_def map_get_def new_log_channel_def)
  have f: "log_run (replicate 1000 (LogRead 0 ''x'')) (filled 0) = Some (filled 1000)"
    using fill_run [of 0 1000] by (simp add: logChCap_def)
  obtain a where a: "log_run [LogRead 0 ''y'', LogRead 0 ''z''] (filled 1000) = Some a"
    "stuck_run ''mc'' \<lparr>lpChan = 0, lpRunning = True\<rparr> a" "in_phase Waiting 0 a"
    by (simp add: filled_def in_phase_def chan_open_def new_log_channel_def on_channel_def read_line_def enqueue_def logChCap_def
        stuck_run_def reader_blocked_def nobody_streams_set new_forwarder_def map_get_def)
  have "log_run overflow_trace new_log_agent = Some a"
    by (simp add: overflow_trace_def log_run_append s f a(1) del: log_run.simps append_Cons append_Nil)
  moreover obtain b where "log_run [FwRetry 0, FwOpen 0 False, LogTick] a = Some b"
    using a(3) by (simp add: in_phase_def on_forwarder_def)
  ultimately show thesis using that a(2) by blast
qed

theorem exit_unnoticed_without_master_witness:
  "\<exists>a. log_run (overflow_trace @ [FwRetry 0, FwOpen 0 False, LogTick]) new_log_agent = Some a \<and>
     log_step (LogExit ''mc'') a = None"
proof -
  obtain a b where a: "log_run overflow_trace new_log_agent = Some a" "stuck_run ''mc'' \<lparr>lpChan = 0, lpRunning = True\<rparr> a"
    and b: "log_run [FwRetry 0, FwOpen 0 False, LogTick] a = Some b"
    by (rule overflow_run)
  have "log_step (LogExit ''mc'') b = None"
    using exit_unnoticed_without_master [OF a(2) _ b] by (simp del: log_step.simps)
  then show ?thesis using a(1) b by (simp add: log_run_append del: log_run.simps log_step.simps)
qed


text \<open>Examples: a line delivered by one forwarder of two, and a run that is delivered whole.\<close>

definition whole_trace :: "log_event list" where
  "whole_trace =
     [LogStart ''mc'', LogTick, FwOpen 0 True, LogRead 0 ''a'', LogRead 0 ''b'', FwTake 0 Refused, FwFlush 0 (Delivered 1),
      FwTake 0 Refused, LogExit ''mc'', FwClosed 0 (Delivered 2), FwGone 0]"

lemma log_run_reach: "log_reach a \<Longrightarrow> log_run es a = Some a' \<Longrightarrow> log_reach a'"
  by (induction es arbitrary: a) (auto split: Option.bind_splits intro: log_next)

lemma whole_run:
  obtains a f where "log_run whole_trace new_log_agent = Some a" "laForwarders a = [f]" "fwInst f = ''mc''" "fwChan f = 0"
    "fwLost f = 0" "lcDropped (laChannels a ! 0) = 0" "fwPhase f = Gone" "\<not> fwCancelled f"
    "lcWritten (laChannels a ! 0) = [''a'', ''b'']" "length (laChannels a) = 1" "fwSent f = [''a'', ''b'']"
proof -
  have "case log_run whole_trace new_log_agent of None \<Rightarrow> False
    | Some a \<Rightarrow> (case laForwarders a of
        [f] \<Rightarrow> fwInst f = ''mc'' \<and> fwChan f = 0 \<and> fwLost f = 0 \<and> lcDropped (laChannels a ! 0) = 0 \<and> fwPhase f = Gone \<and>
          \<not> fwCancelled f \<and> lcWritten (laChannels a ! 0) = [''a'', ''b''] \<and> length (laChannels a) = 1 \<and>
          fwSent f = [''a'', ''b'']
      | _ \<Rightarrow> False)"
    by code_simp
  then show thesis by (auto split: option.splits list.splits intro: that)
qed


theorem log_lines_faithful_witness:
  "\<exists>a. log_run whole_trace new_log_agent = Some a \<and> map fwSent (laForwarders a) = [[''a'', ''b'']] \<and>
     mset [''a'', ''b''] \<subseteq># mset (lcWritten (laChannels a ! 0))"
proof -
  obtain a f where a: "log_run whole_trace new_log_agent = Some a" "laForwarders a = [f]" "fwInst f = ''mc''" "fwChan f = 0"
    "length (laChannels a) = 1" "fwSent f = [''a'', ''b'']"
    by (rule whole_run)
  have "mset (fwSent f) \<subseteq># mset (lcWritten (laChannels a ! 0))"
    using log_lines_faithful [OF log_run_reach [OF log_new a(1)]] a(2,4,5) by (auto simp: on_chan_def Let_def)
  then show ?thesis using a by auto
qed

end
