(* ===== verification/Web_Console.thy ===== *)
theory Web_Console
  imports Web_Backup_Properties
begin

text \<open>
  The live console (\<^verbatim>\<open>internal/master/web/ws.go\<close>): the hub that hands the broadcast log lines to
  the connected browsers, and the handler of one connection, which replays the history,
  forwards what the user types and reports failures. The hub, the connections, their
  writers and the goroutine of every command run at the same time; a state changes by one
  event of one of them. A send on a closed channel is a panic of a goroutine nobody
  recovers: it ends the master.
\<close>

section \<open>The state\<close>

text \<open>\<open>wcReplay\<close> is the history not yet offered; \<open>wcShown\<close>, what the browser got, is for the statements.\<close>

record ws_client =
  wcInstance :: string
  wcSend :: "string list"
  wcClosed :: bool
  wcReplay :: "string list"
  wcShown :: "string list"

definition wsSendCap :: nat where
  "wsSendCap = 256"

definition wsBroadcastCap :: nat where
  "wsBroadcastCap = 1000"

definition new_ws_client :: "string \<Rightarrow> string list \<Rightarrow> ws_client" where
  "new_ws_client i history =
     \<lparr>wcInstance = i, wcSend = [], wcClosed = False, wcReplay = history, wcShown = []\<rparr>"

text \<open>A client is its number; a pending command is the client and the message of its failure.\<close>

record ws_hub =
  whClients :: "ws_client list"
  whRegistered :: "nat list"
  whBroadcast :: "(string \<times> string) list"
  whCommands :: "(nat \<times> string) list"
  whCrashed :: bool

definition NewWSHub :: ws_hub where
  "NewWSHub = \<lparr>whClients = [], whRegistered = [], whBroadcast = [], whCommands = [], whCrashed = False\<rparr>"

definition on_client :: "nat \<Rightarrow> (ws_client \<Rightarrow> ws_client) \<Rightarrow> ws_hub \<Rightarrow> ws_hub" where
  "on_client k g h = h\<lparr>whClients := (whClients h)[k := g (whClients h ! k)]\<rparr>"

text \<open>The \<^verbatim>\<open>select\<close> with a default: a full buffer skips the line.\<close>

definition offer_line :: "string \<Rightarrow> ws_client \<Rightarrow> ws_client" where
  "offer_line l c = (if length (wcSend c) < wsSendCap then c\<lparr>wcSend := wcSend c @ [l]\<rparr> else c)"

section \<open>The hub\<close>

definition hub_register :: "string \<Rightarrow> string list \<Rightarrow> ws_hub \<Rightarrow> ws_hub" where
  "hub_register i history h =
     h\<lparr>whClients := whClients h @ [new_ws_client i history], whRegistered := length (whClients h) # whRegistered h\<rparr>"

definition hub_unregister :: "nat \<Rightarrow> ws_hub \<Rightarrow> ws_hub" where
  "hub_unregister k h =
     (if k \<in> set (whRegistered h)
      then (on_client k (\<lambda>c. c\<lparr>wcClosed := True\<rparr>) h)\<lparr>whRegistered := removeAll k (whRegistered h)\<rparr>
      else h)"

definition watches :: "ws_client \<Rightarrow> string \<Rightarrow> bool" where
  "watches c i \<longleftrightarrow> wcInstance c = i \<or> wcInstance c = ''*''"

definition hub_send :: "string \<Rightarrow> string \<Rightarrow> ws_client \<Rightarrow> ws_client" where
  "hub_send i l c =
     (if watches c i then offer_line l c else c)"

definition hub_deliver :: "string \<Rightarrow> string \<Rightarrow> ws_hub \<Rightarrow> ws_hub" where
  "hub_deliver i l h = fold (\<lambda>k. on_client k (hub_send i l)) (whRegistered h) h"

section \<open>Commands\<close>

text \<open>What the user is told, \<open>None\<close> when the command succeeded; its output is not shown.\<close>

definition ws_command ::
  "(string \<Rightarrow> docker_run) \<Rightarrow> (string \<Rightarrow> bool) \<Rightarrow> string \<Rightarrow> string \<Rightarrow> 'w backup_server \<Rightarrow> string option" where
  "ws_command run dial i cmd s =
     (case GetInstanceOwner i (bvServer s) of
        None \<Rightarrow> Some ''[system] instance not yet registered. please wait for agent heartbeat.''
      | Some agentID \<Rightarrow>
          (case GetAgentAddress agentID (bvServer s) of
             None \<Rightarrow> Some ''[system] the agent offline.''
           | Some addr \<Rightarrow>
               if \<not> dial addr then Some ''[system] agent connection failed''
               else case map_get (bvAgents s) addr of
                 None \<Rightarrow> Some ''[system] command forward failed: ''
               | Some n \<Rightarrow>
                   (case agent_SendCommand (run addr) i cmd (nhAgent n) of
                      Inl e \<Rightarrow> Some ''[system] command failed: ''
                    | Inr output \<Rightarrow> None)))"

section \<open>The events\<close>

datatype ws_event =
    WsConnect string "string list"      \<comment> \<open>a connection for an instance, with its history\<close>
  | WsReplay nat                        \<comment> \<open>one line of the history is offered\<close>
  | WsWrite nat                         \<comment> \<open>the writer sends one line to the browser\<close>
  | WsCommand nat "string option"       \<comment> \<open>a command, with what its goroutine will report\<close>
  | WsReport nat                        \<comment> \<open>the goroutine of a pending command reports\<close>
  | WsClose nat                         \<comment> \<open>the browser is gone\<close>
  | HubBroadcast string string          \<comment> \<open>a log line from the master\<close>
  | HubDeliver                          \<comment> \<open>the hub takes the oldest one\<close>

definition ws_connected :: "nat \<Rightarrow> ws_hub \<Rightarrow> bool" where
  "ws_connected k h \<longleftrightarrow> k < length (whClients h) \<and> k \<in> set (whRegistered h)"

definition ws_reading :: "nat \<Rightarrow> ws_hub \<Rightarrow> bool" where
  "ws_reading k h \<longleftrightarrow> ws_connected k h \<and> wcReplay (whClients h ! k) = []"

fun ws_event_step :: "ws_event \<Rightarrow> ws_hub \<Rightarrow> ws_hub option" where
  "ws_event_step (WsConnect i history) h = Some (hub_register i history h)"
| "ws_event_step (WsReplay k) h =
     (if ws_connected k h
      then case wcReplay (whClients h ! k) of
             [] \<Rightarrow> None
           | l # ls \<Rightarrow> Some (on_client k (\<lambda>c. (offer_line l c)\<lparr>wcReplay := ls\<rparr>) h)
      else None)"
| "ws_event_step (WsWrite k) h =
     (if k < length (whClients h)
      then case wcSend (whClients h ! k) of
             [] \<Rightarrow> None
           | l # ls \<Rightarrow> Some (on_client k (\<lambda>c. c\<lparr>wcSend := ls, wcShown := wcShown c @ [l]\<rparr>) h)
      else None)"
| "ws_event_step (WsCommand k r) h =
     (if ws_reading k h
      then (case r of None \<Rightarrow> Some h | Some msg \<Rightarrow> Some (h\<lparr>whCommands := whCommands h @ [(k, msg)]\<rparr>))
      else None)"
| "ws_event_step (WsReport j) h =
     (if j < length (whCommands h)
      then let (k, msg) = whCommands h ! j;
               h1 = h\<lparr>whCommands := take j (whCommands h) @ drop (Suc j) (whCommands h)\<rparr>
           in if wcClosed (whClients h ! k) then Some (h1\<lparr>whCrashed := True\<rparr>)
              else Some (on_client k (offer_line msg) h1)
      else None)"
| "ws_event_step (WsClose k) h = (if ws_reading k h then Some (hub_unregister k h) else None)"
| "ws_event_step (HubBroadcast i l) h =
     (if length (whBroadcast h) < wsBroadcastCap then Some (h\<lparr>whBroadcast := whBroadcast h @ [(i, l)]\<rparr>) else None)"
| "ws_event_step HubDeliver h =
     (case whBroadcast h of
        [] \<Rightarrow> None
      | (i, l) # ms \<Rightarrow> Some (hub_deliver i l (h\<lparr>whBroadcast := ms\<rparr>)))"

text \<open>After the panic nothing happens any more.\<close>

fun ws_run :: "ws_event list \<Rightarrow> ws_hub \<Rightarrow> ws_hub option" where
  "ws_run [] h = Some h"
| "ws_run (e # es) h = (if whCrashed h then None else Option.bind (ws_event_step e h) (ws_run es))"

section \<open>Who may type\<close>

lemma console_guard: "route_guard opts (GET, ''/ws/logs/:instanceId'') = Some LoggedIn"
proof -
  have "find (route_is (GET, ''/ws/logs/:instanceId'')) (rev (operator_routes opts)) = None"
    by (simp add: operator_routes_def route_is_def)
  moreover have "map_option (snd \<circ> snd \<circ> snd) (find (route_is (GET, ''/ws/logs/:instanceId'')) (rev core_routes)) = Some LoggedIn"
    by code_simp
  ultimately show ?thesis by (auto simp: route_guard_def registerRoutes_def find_append)
qed

lemma query_guard: "route_guard opts (POST, ''/api/instances/:id/query'') = Some EditorGroup"
proof -
  have "find (route_is (POST, ''/api/instances/:id/query'')) (rev (operator_routes opts)) = None"
    by (simp add: operator_routes_def route_is_def)
  moreover have "map_option (snd \<circ> snd \<circ> snd) (find (route_is (POST, ''/api/instances/:id/query'')) (rev core_routes)) = Some EditorGroup"
    by code_simp
  ultimately show ?thesis by (auto simp: route_guard_def registerRoutes_def find_append)
qed

text \<open>
  C39. The console is open to viewers: the route of the WebSocket is only behind the login, so a
  live session reaches its handler whatever its role, and what is typed there is executed by
  the agent of the instance word for word; the route for the same command as a query turns
  the same session away.
\<close>

theorem viewer_reaches_console:
  assumes "token \<noteq> ''''" "ss_Get now token (wsSessions w) = (ss, Some sess)" "ssRole sess = ''viewer''"
    and "map_get (gsOwners (bvServer s)) i = Some ag" "GetAgentAddress ag (bvServer s) = Some addr" "dial addr"
    and "map_get (bvAgents s) addr = Some n"
  shows "(\<exists>uc g. ucRole uc = ''viewer'' \<and> route_guard opts (GET, ''/ws/logs/:instanceId'') = Some g \<and>
      guarded g now (Some token) h w = h uc (w\<lparr>wsSessions := ss\<rparr>)) \<and>
    (\<exists>g. route_guard opts (POST, ''/api/instances/:id/query'') = Some g \<and>
      snd (guarded g now (Some token) h w) = Json 403 ''edit permission is required'') \<and>
    (ws_command run dial i cmd s = None \<longleftrightarrow> (\<exists>output. SendInstanceCommand (run addr) i cmd (nhAgent n) = Inr output))"
proof -
  let ?uc = "\<lparr>ucUserID = ssUserID sess, ucUsername = ssUsername sess, ucRole = ssRole sess\<rparr>"
  have "guarded LoggedIn now (Some token) h w = h ?uc (w\<lparr>wsSessions := ss\<rparr>)"
    using assms(1,2) by (simp add: authMiddleware_def)
  moreover have "snd (guarded EditorGroup now (Some token) h w) = Json 403 ''edit permission is required''"
    using assms(1-3) by (simp add: authMiddleware_def adminOrEditor_def)
  moreover have "ws_command run dial i cmd s = None \<longleftrightarrow> (\<exists>output. SendInstanceCommand (run addr) i cmd (nhAgent n) = Inr output)"
    using assms(4-7) by (simp add: ws_command_def GetInstanceOwner_def agent_SendCommand_def split: sum.splits)
  ultimately show ?thesis using console_guard query_guard assms(3) by (metis user_context.select_convs(3))
qed

definition viewer_web :: web_server where
  "viewer_web = \<lparr>wsDB = migrated_db 0, wsSessions =
     [(''07'', \<lparr>ssUserID = 7, ssUsername = ''guest'', ssRole = ''viewer'', ssCreatedAt = 0\<rparr>)]\<rparr>"

theorem viewer_reaches_console_witness:
  "ws_command (\<lambda>a args. (''done'', args = [''exec'', ''-i'', ''craftstack-mc'', ''sh'', ''-c'', ''echo '' @ [squote] @ ''op guest'' @ [squote] @ '' > /proc/1/fd/0''])) (\<lambda>a. True) ''mc''
     ''op guest'' (demo_backups 10) = None \<and>
   (\<exists>(uc :: user_context) g. ucRole uc = ''viewer'' \<and> route_guard demo_opts (GET, ''/ws/logs/:instanceId'') = Some g \<and>
      guarded g 5 (Some ''07'') (\<lambda>uc s. (s, Json 101 (ucUsername uc))) viewer_web = (viewer_web, Json 101 (ucUsername uc)))"
proof -
  let ?run = "\<lambda>(a :: string) args. (''done'', args = [''exec'', ''-i'', ''craftstack-mc'', ''sh'', ''-c'', ''echo '' @ [squote] @ ''op guest'' @ [squote] @ '' > /proc/1/fd/0''])"
  let ?n = "\<lparr>nhEnv = idle_env, nhAgent = mc_agent 10, nhHost = (example_fs, ())\<rparr>"
  have get: "ss_Get 5 ''07'' (wsSessions viewer_web) =
      (wsSessions viewer_web, Some \<lparr>ssUserID = 7, ssUsername = ''guest'', ssRole = ''viewer'', ssCreatedAt = 0\<rparr>)"
    by (simp add: ss_Get_def viewer_web_def map_get_def sessionMaxAge_def duration_defs)
  have net: "map_get (gsOwners (bvServer (demo_backups 10))) ''mc'' = Some ''n1''"
    "GetAgentAddress ''n1'' (bvServer (demo_backups 10)) = Some ''10.0.0.5:9091''"
    "map_get (bvAgents (demo_backups 10)) ''10.0.0.5:9091'' = Some ?n"
    by (simp_all add: demo_backups_def GetAgentAddress_def map_get_def)
  have out: "SendInstanceCommand (?run ''10.0.0.5:9091'') ''mc'' ''op guest'' (mc_agent 10) = Inr (trim_space ''done'')"
    by (simp add: SendInstanceCommand_def mc_agent_def map_get_def Console_Commands.SendCommand_def sendMinecraftCommand_def Let_def)
  have web: "viewer_web\<lparr>wsSessions := wsSessions viewer_web\<rparr> = viewer_web" by simp
  have conn: "''07'' \<noteq> ''''" "(\<lambda>a :: string. True) ''10.0.0.5:9091''" by simp_all
  have role: "ssRole \<lparr>ssUserID = 7, ssUsername = ''guest'', ssRole = ''viewer'', ssCreatedAt = 0\<rparr> = ''viewer''" by simp
  note v = viewer_reaches_console [OF conn(1) get role net(1,2) conn(2) net(3), where run = ?run and cmd = "''op guest''"
        and opts = demo_opts and h = "\<lambda>uc s. (s, Json 101 (ucUsername uc))"]
  have a: "ws_command ?run (\<lambda>a. True) ''mc'' ''op guest'' (demo_backups 10) = None"
    by (rule iffD2 [OF v [THEN conjunct2, THEN conjunct2]]) (simp only: node_host.select_convs out sum.inject simp_thms)
  obtain uc :: user_context and g where g: "ucRole uc = ''viewer''" "route_guard demo_opts (GET, ''/ws/logs/:instanceId'') = Some g"
    "guarded g 5 (Some ''07'') (\<lambda>uc s. (s, Json 101 (ucUsername uc))) viewer_web =
       (\<lambda>uc s. (s, Json 101 (ucUsername uc))) uc (viewer_web\<lparr>wsSessions := wsSessions viewer_web\<rparr>)"
    using v [THEN conjunct1] by (elim exE conjE) (rule that)
  from g(3) have g3: "guarded g 5 (Some ''07'') (\<lambda>uc s. (s, Json 101 (ucUsername uc))) viewer_web = (viewer_web, Json 101 (ucUsername uc))"
    by (simp only: web)
  show ?thesis by (rule conjI [OF a], intro exI conjI) (rule g(1), rule g(2), rule g3)
qed

section \<open>What a browser sees\<close>

text \<open>Where a line on its way to the client with number \<open>k\<close> may come from.\<close>

definition meant_for :: "ws_event list \<Rightarrow> nat \<Rightarrow> ws_client \<Rightarrow> string \<Rightarrow> bool" where
  "meant_for es k c l \<longleftrightarrow>
     (\<exists>history. WsConnect (wcInstance c) history \<in> set es \<and> l \<in> set history) \<or>
     (\<exists>i. HubBroadcast i l \<in> set es \<and> watches c i) \<or> WsCommand k (Some l) \<in> set es"

definition client_ok :: "ws_event list \<Rightarrow> nat \<Rightarrow> ws_client \<Rightarrow> bool" where
  "client_ok es k c \<longleftrightarrow>
     (\<forall>l \<in> set (wcShown c @ wcSend c @ wcReplay c). meant_for es k c l) \<and> length (wcSend c) \<le> wsSendCap"

definition hub_ok :: "ws_event list \<Rightarrow> ws_hub \<Rightarrow> bool" where
  "hub_ok es h \<longleftrightarrow>
     (\<forall>k < length (whClients h). client_ok es k (whClients h ! k)) \<and>
     (\<forall>k \<in> set (whRegistered h). k < length (whClients h) \<and> \<not> wcClosed (whClients h ! k)) \<and>
     (\<forall>(i, l) \<in> set (whBroadcast h). HubBroadcast i l \<in> set es) \<and>
     (\<forall>(k, msg) \<in> set (whCommands h). k < length (whClients h) \<and> WsCommand k (Some msg) \<in> set es)"

lemma client_ok_more: "client_ok es k c \<Longrightarrow> client_ok (es @ [e]) k c"
  by (force simp: client_ok_def meant_for_def)

lemma hub_ok_more: "hub_ok es h \<Longrightarrow> hub_ok (es @ [e]) h"
  by (auto simp: hub_ok_def intro: client_ok_more)

lemma client_ok_offer: "client_ok es k c \<Longrightarrow> meant_for es k c l \<Longrightarrow> client_ok es k (offer_line l c)"
  by (auto simp: client_ok_def offer_line_def meant_for_def watches_def)

text \<open>One client changes.\<close>

lemma hub_ok_on_client:
  assumes "hub_ok es h" "k < length (whClients h) \<Longrightarrow> client_ok es k (g (whClients h ! k))"
    and "\<And>c. wcClosed (g c) = wcClosed c"
  shows "hub_ok es (on_client k g h)"
  using assms
  by (cases "k < length (whClients h)") (auto simp: hub_ok_def on_client_def nth_list_update list_update_beyond not_less)

lemma hub_ok_deliver:
  assumes "hub_ok es h" "HubBroadcast i l \<in> set es"
  shows "hub_ok es (hub_deliver i l h)"
proof -
  have "hub_ok es h \<Longrightarrow> hub_ok es (fold (\<lambda>k. on_client k (hub_send i l)) ks h)" for ks
  proof (induction ks arbitrary: h)
    case (Cons k ks)
    have "hub_ok es (on_client k (hub_send i l) h)"
    proof (rule hub_ok_on_client [OF Cons.prems])
      assume "k < length (whClients h)"
      then have "client_ok es k (whClients h ! k)" using Cons.prems by (simp add: hub_ok_def)
      moreover have "watches c i \<Longrightarrow> meant_for es k c l" for c using assms(2) by (auto simp: meant_for_def)
      ultimately show "client_ok es k (hub_send i l (whClients h ! k))" by (simp add: hub_send_def client_ok_offer)
    qed (simp add: hub_send_def offer_line_def)
    then show ?case using Cons.IH by simp
  qed simp
  then show ?thesis using assms(1) by (simp add: hub_deliver_def)
qed

lemma hub_ok_step:
  assumes "hub_ok es h" "ws_event_step e h = Some h'"
  shows "hub_ok (es @ [e]) h'"
proof -
  note ok = hub_ok_more [OF assms(1), of e]
  have at: "client_ok (es @ [e]) k (whClients h ! k)" if "k < length (whClients h)" for k
    using ok that by (simp add: hub_ok_def)
  show ?thesis
  proof (cases e)
    case (WsConnect i history)
    then have h': "h' = hub_register i history h" using assms(2) by simp
    have new: "client_ok (es @ [e]) k (new_ws_client i history)" for k
      using WsConnect by (auto simp: client_ok_def new_ws_client_def meant_for_def)
    show ?thesis
      using ok new by (auto simp: h' hub_register_def hub_ok_def nth_append new_ws_client_def less_Suc_eq)
  next
    case (WsReplay k)
    then obtain l ls where r: "wcReplay (whClients h ! k) = l # ls" "ws_connected k h"
      "h' = on_client k (\<lambda>c. (offer_line l c)\<lparr>wcReplay := ls\<rparr>) h"
      using assms(2) by (auto split: if_splits list.splits)
    have "k < length (whClients h)" using r(2) by (simp add: ws_connected_def)
    then have "client_ok (es @ [e]) k ((offer_line l (whClients h ! k))\<lparr>wcReplay := ls\<rparr>)"
      using at [of k] r(1) by (auto simp: client_ok_def offer_line_def meant_for_def watches_def)
    then show ?thesis unfolding r(3) by (intro hub_ok_on_client [OF ok]) (simp_all add: offer_line_def)
  next
    case (WsWrite k)
    then obtain l ls where r: "wcSend (whClients h ! k) = l # ls" "k < length (whClients h)"
      "h' = on_client k (\<lambda>c. c\<lparr>wcSend := ls, wcShown := wcShown c @ [l]\<rparr>) h"
      using assms(2) by (auto split: if_splits list.splits)
    have "client_ok (es @ [e]) k ((whClients h ! k)\<lparr>wcSend := ls, wcShown := wcShown (whClients h ! k) @ [l]\<rparr>)"
      using at [OF r(2)] r(1) by (auto simp: client_ok_def meant_for_def watches_def)
    then show ?thesis unfolding r(3) by (intro hub_ok_on_client [OF ok]) simp_all
  next
    case (WsCommand k r)
    then show ?thesis
      using ok assms(2) by (auto simp: hub_ok_def ws_reading_def ws_connected_def split: if_splits option.splits)
  next
    case (WsReport j)
    obtain k msg where j: "whCommands h ! j = (k, msg)" by (rule prod.exhaust)
    define h1 where "h1 = h\<lparr>whCommands := take j (whCommands h) @ drop (Suc j) (whCommands h)\<rparr>"
    have lt: "j < length (whCommands h)" using assms(2) WsReport by (auto split: if_splits)
    then have "(k, msg) \<in> set (whCommands h)" using j by (metis nth_mem)
    then have k: "k < length (whClients h)" "WsCommand k (Some msg) \<in> set (es @ [e])" using ok by (auto simp: hub_ok_def)
    have ok1: "hub_ok (es @ [e]) h1"
      using ok by (auto simp: hub_ok_def h1_def dest!: in_set_takeD in_set_dropD)
    have "client_ok (es @ [e]) k (offer_line msg (whClients h1 ! k))"
      using at [OF k(1)] k(2) by (intro client_ok_offer) (auto simp: h1_def meant_for_def)
    then have "hub_ok (es @ [e]) (on_client k (offer_line msg) h1)"
      by (intro hub_ok_on_client [OF ok1]) (simp_all add: offer_line_def)
    moreover have "hub_ok (es @ [e]) (h1\<lparr>whCrashed := True\<rparr>)" using ok1 by (simp add: hub_ok_def)
    ultimately show ?thesis using assms(2) WsReport lt j by (auto simp: h1_def Let_def split: if_splits)
  next
    case (WsClose k)
    then have "h' = hub_unregister k h" using assms(2) by (auto split: if_splits)
    then show ?thesis
      using ok by (auto simp: hub_unregister_def on_client_def hub_ok_def nth_list_update client_ok_def meant_for_def watches_def)
  next
    case (HubBroadcast i l)
    then show ?thesis using ok assms(2) by (auto simp: hub_ok_def split: if_splits)
  next
    case HubDeliver
    then obtain i l ms where r: "whBroadcast h = (i, l) # ms" "h' = hub_deliver i l (h\<lparr>whBroadcast := ms\<rparr>)"
      using assms(2) by (auto split: list.splits)
    have "hub_ok (es @ [e]) (h\<lparr>whBroadcast := ms\<rparr>)" using ok r(1) by (auto simp: hub_ok_def)
    moreover have "HubBroadcast i l \<in> set (es @ [e])" using ok r(1) by (auto simp: hub_ok_def)
    ultimately show ?thesis unfolding r(2) by (rule hub_ok_deliver)
  qed
qed

lemma ws_run_ok: "hub_ok es h \<Longrightarrow> ws_run fs h = Some h' \<Longrightarrow> hub_ok (es @ fs) h'"
proof (induction fs arbitrary: es h)
  case (Cons e fs)
  then obtain b where "ws_event_step e h = Some b" "ws_run fs b = Some h'" by (auto split: if_splits Option.bind_splits)
  then show ?case using Cons.IH [OF hub_ok_step [OF Cons.prems(1)]] by simp
qed simp




end
